(* ===== verification/Prelude.thy ===== *)
theory Prelude
  imports Main "HOL-Library.Word" "HOL-Library.Multiset"
begin

text \<open>
  The shared layer of the library: the machine types of the Go sources as words, slices of
  bytes as lists, results that may be errors, a reader over the remaining bytes
  (\<open>bytes.Reader\<close> with \<open>io.ReadFull\<close>), the little-endian codecs of \<open>encoding/binary\<close>,
  the overflow test the sources write as \<open>a+b < a\<close>, and generic list and map lemmas. Two
  locales state interfaces used by several components: \<open>codec\<close> (an encoder and a decoder
  that are inverse in both directions) and \<open>digest\<close> (a 32-byte hash function).
\<close>

unbundle bit_operations_syntax

type_synonym byte = "8 word"
type_synonym u16 = "16 word"
type_synonym u32 = "32 word"
type_synonym u64 = "64 word"
type_synonym bytes = "byte list"

named_theorems codec_simps \<open>equations and length facts of the byte codecs\<close>
named_theorems res_simps \<open>elimination of successful steps of a computation that may fail\<close>

section \<open>Results that may be errors\<close>

type_synonym ('e, 'a) res = "'e + 'a"

fun bindR :: "('e, 'a) res \<Rightarrow> ('a \<Rightarrow> ('e, 'b) res) \<Rightarrow> ('e, 'b) res" where
  "bindR (Inl e) f = Inl e"
| "bindR (Inr x) f = f x"

definition guardR :: "'e \<Rightarrow> bool \<Rightarrow> ('e, unit) res" where
  "guardR e b = (if b then Inr () else Inl e)"

fun isOk :: "('e, 'a) res \<Rightarrow> bool" where
  "isOk (Inl e) = False"
| "isOk (Inr x) = True"

fun mapErr :: "('e \<Rightarrow> 'f) \<Rightarrow> ('e, 'a) res \<Rightarrow> ('f, 'a) res" where
  "mapErr f (Inl e) = Inl (f e)"
| "mapErr f (Inr x) = Inr x"

lemma bindR_eq_Inr [res_simps]: "bindR m f = Inr y \<longleftrightarrow> (\<exists>x. m = Inr x \<and> f x = Inr y)"
  by (cases m) auto

lemma guardR_eq_Inr [res_simps]: "guardR e b = Inr u \<longleftrightarrow> b"
  by (simp add: guardR_def)

lemma guardR_True [simp]: "guardR e True = Inr ()"
  by (simp add: guardR_def)

lemma guardR_False [simp]: "guardR e False = Inl e"
  by (simp add: guardR_def)

lemma isOk_iff: "isOk m \<longleftrightarrow> (\<exists>x. m = Inr x)"
  by (cases m) auto

lemma mapErr_eq_Inr [res_simps]: "mapErr f m = Inr x \<longleftrightarrow> m = Inr x"
  by (cases m) auto

lemma bindR_cong [fundef_cong]:
  "m = m' \<Longrightarrow> (\<And>x. m' = Inr x \<Longrightarrow> f x = g x) \<Longrightarrow> bindR m f = bindR m' g"
  by (cases m') auto

section \<open>Reading from a byte slice\<close>

datatype io_error = EOF | UnexpectedEOF

text \<open>\<open>io.ReadFull\<close> on a \<open>bytes.Reader\<close>: the reader is the list of unread bytes.\<close>

definition readFull :: "nat \<Rightarrow> bytes \<Rightarrow> (io_error, bytes \<times> bytes) res" where
  "readFull n r =
     (if n \<le> length r then Inr (take n r, drop n r)
      else Inl (if r = [] then EOF else UnexpectedEOF))"

lemma readFull_append [simp]: "length a = n \<Longrightarrow> readFull n (a @ r) = Inr (a, r)"
  by (simp add: readFull_def)

lemma readFull_eq_Inr [res_simps]:
  "readFull n r = Inr (a, r') \<longleftrightarrow> r = a @ r' \<and> length a = n"
  by (auto simp: readFull_def)

lemma length_one: "length xs = Suc 0 \<longleftrightarrow> (\<exists>x. xs = [x])"
  by (auto simp: length_Suc_conv)

section \<open>Little-endian words\<close>

text \<open>
  \<open>binary.LittleEndian.PutUintN\<close> writes the low byte first and shifts by eight;
  \<open>binary.LittleEndian.UintN\<close> ors the shifted bytes together.
\<close>

primrec putLE :: "nat \<Rightarrow> 'a::len word \<Rightarrow> bytes" where
  "putLE 0 w = []"
| "putLE (Suc n) w = ucast w # putLE n (drop_bit 8 w)"

primrec getLE :: "bytes \<Rightarrow> 'a::len word" where
  "getLE [] = 0"
| "getLE (b # bs) = ucast b OR push_bit 8 (getLE bs)"

abbreviation PutUint16 :: "u16 \<Rightarrow> bytes" where "PutUint16 \<equiv> putLE 2"
abbreviation PutUint32 :: "u32 \<Rightarrow> bytes" where "PutUint32 \<equiv> putLE 4"
abbreviation PutUint64 :: "u64 \<Rightarrow> bytes" where "PutUint64 \<equiv> putLE 8"

lemma length_putLE [simp, codec_simps]: "length (putLE n w) = n"
  by (induction n arbitrary: w) auto

lemma getLE_putLE: "getLE (putLE n (w :: 'a::len word)) = take_bit (8 * n) w"
proof (induction n arbitrary: w)
  case 0
  then show ?case by simp
next
  case (Suc n)
  have "ucast (ucast w :: byte) OR push_bit 8 (take_bit (8 * n) (drop_bit 8 w))
        = take_bit (8 * Suc n) w"
    by (rule bit_eqI) (auto simp: bit_simps)
  with Suc show ?case by simp
qed

lemma putLE_getLE:
  assumes "8 * length bs \<le> LENGTH('a::len)"
  shows "putLE (length bs) (getLE bs :: 'a word) = bs"
  using assms
proof (induction bs)
  case Nil
  then show ?case by simp
next
  case (Cons b bs)
  let ?w = "getLE bs :: 'a word"
  from Cons.prems have len: "8 + 8 * length bs \<le> LENGTH('a)" by simp
  have hd: "(ucast (ucast b OR push_bit 8 ?w) :: byte) = b"
    by (rule bit_eqI) (use len in \<open>auto simp: bit_simps\<close>)
  have eq: "take_bit (8 * length bs) (drop_bit 8 (ucast b OR push_bit 8 ?w))
            = take_bit (8 * length bs) ?w"
    by (rule bit_eqI) (use len in \<open>auto simp: bit_simps dest: bit_imp_le_length\<close>)
  have put_take: "putLE n (take_bit (8 * n) v) = putLE n v" for n and v :: "'a word"
  proof (induction n arbitrary: v)
    case 0
    then show ?case by simp
  next
    case (Suc n)
    have a: "(ucast (take_bit (8 * Suc n) v) :: byte) = ucast v"
      by (rule bit_eqI) (auto simp: bit_simps)
    have b: "drop_bit 8 (take_bit (8 * Suc n) v) = take_bit (8 * n) (drop_bit 8 v)"
      by (rule bit_eqI) (auto simp: bit_simps)
    show ?case using Suc [of "drop_bit 8 v"] by (simp only: putLE.simps a b)
  qed
  have "putLE (length bs) (drop_bit 8 (ucast b OR push_bit 8 ?w)) = putLE (length bs) ?w"
    using put_take [of "length bs" "drop_bit 8 (ucast b OR push_bit 8 ?w)"]
      put_take [of "length bs" ?w] eq by simp
  with hd Cons show ?case by simp
qed


lemmas LE_inverse [codec_simps] = getLE_putLE putLE_getLE

lemma getLE_putLE_u16 [simp]: "getLE (PutUint16 w) = w"
  by (simp add: getLE_putLE take_bit_word_eq_self)

lemma getLE_putLE_u32 [simp]: "getLE (PutUint32 w) = w"
  by (simp add: getLE_putLE take_bit_word_eq_self)

lemma getLE_putLE_u64 [simp]: "getLE (PutUint64 w) = w"
  by (simp add: getLE_putLE take_bit_word_eq_self)

lemma putLE_getLE_u16 [simp]: "length bs = 2 \<Longrightarrow> PutUint16 (getLE bs) = bs"
  using putLE_getLE [where 'a = 16, of bs] by simp

lemma putLE_getLE_u32 [simp]: "length bs = 4 \<Longrightarrow> PutUint32 (getLE bs) = bs"
  using putLE_getLE [where 'a = 32, of bs] by simp

lemma putLE_getLE_u64 [simp]: "length bs = 8 \<Longrightarrow> PutUint64 (getLE bs) = bs"
  using putLE_getLE [where 'a = 64, of bs] by simp

section \<open>Byte strings as little-endian naturals\<close>

primrec le_nat :: "bytes \<Rightarrow> nat" where
  "le_nat [] = 0"
| "le_nat (b # bs) = unat b + 256 * le_nat bs"

lemma unat_byte_less [simp]: "unat (b :: byte) < 256"
  using unsigned_less [of b] by simp

lemma le_nat_append: "le_nat (xs @ ys) = le_nat xs + 256 ^ length xs * le_nat ys"
  by (induction xs) (auto simp: algebra_simps)

lemma le_nat_less: "le_nat bs < 256 ^ length bs"
proof (induction bs)
  case Nil
  then show ?case by simp
next
  case (Cons b bs)
  have "unat b + 256 * le_nat bs < 256 + 256 * le_nat bs" by simp
  also have "\<dots> = 256 * Suc (le_nat bs)" by simp
  also have "\<dots> \<le> 256 * 256 ^ length bs" using Cons by (intro mult_le_mono) auto
  finally show ?case by simp
qed

lemma le_nat_inj: "length xs = length ys \<Longrightarrow> le_nat xs = le_nat ys \<Longrightarrow> xs = ys"
proof (induction xs ys rule: list_induct2)
  case Nil
  then show ?case by simp
next
  case (Cons x xs y ys)
  have "unat x = unat y"
    using arg_cong [OF Cons.prems, of "\<lambda>n. n mod 256"] by simp
  moreover have "le_nat xs = le_nat ys"
    using arg_cong [OF Cons.prems, of "\<lambda>n. n div 256"] by simp
  ultimately show ?case using Cons.IH by (simp add: word_unat_eq_iff)
qed

lemma le_nat_replicate_0 [simp]: "le_nat (replicate n 0) = 0"
  by (induction n) auto

section \<open>Unsigned overflow tests\<close>

text \<open>The sources detect wrap-around of an unsigned sum by comparing it with a summand.\<close>

lemma add_wraps_iff:
  fixes a b :: "'a::len word"
  shows "a + b < a \<longleftrightarrow> 2 ^ LENGTH('a) \<le> unat a + unat b"
proof -
  have wrap: "(m + n) mod k < m \<longleftrightarrow> k \<le> m + n" if "m < k" "n < k" for m n k :: nat
    using that by (cases "m + n < k") (auto simp: le_mod_geq)
  have "unat (a + b) = (unat a + unat b) mod 2 ^ LENGTH('a)"
    by (simp add: unat_word_ariths)
  then show ?thesis
    using wrap [OF unsigned_less unsigned_less, of a b] by (simp add: word_less_nat_alt)
qed

lemma unat_add_nowrap:
  fixes a b :: "'a::len word"
  shows "\<not> a + b < a \<Longrightarrow> unat (a + b) = unat a + unat b"
  unfolding add_wraps_iff by (simp add: unat_word_ariths)

lemma unat_of_nat_small [simp]:
  "n < 2 ^ LENGTH('a::len) \<Longrightarrow> unat (of_nat n :: 'a word) = n"
  by (simp add: unat_of_nat)

lemma unat_ucast_mod:
  fixes w :: "'a::len word"
  shows "unat (ucast w :: 'b::len word) = unat w mod 2 ^ LENGTH('b)"
  by (simp add: unsigned_ucast_eq take_bit_eq_mod)

lemma of_nat_unat_id [simp]: "of_nat (unat w) = (w :: 'a::len word)"
  by (simp add: word_unat_eq_iff unat_of_nat)

section \<open>Counting with wrap-around\<close>

lemma u32_bound: "unat (n :: u32) < 2 ^ 32"
proof -
  have "unat n < 2 ^ LENGTH(32)" by (rule unsigned_less)
  then show ?thesis by simp
qed

lemma u32_wrap: "(n :: u32) + 1 = 0 \<longleftrightarrow> unat n = 2 ^ 32 - 1"
proof -
  have "unat (n + 1) = (unat n + 1) mod 2 ^ 32" by (simp add: unat_word_ariths)
  moreover have "(unat n + 1) mod 2 ^ 32 = 0 \<longleftrightarrow> unat n = 2 ^ 32 - 1"
    using u32_bound [of n] by (cases "unat n + 1 = 2 ^ 32") auto
  ultimately show ?thesis by (metis unat_eq_0)
qed

lemma u32_increases: "(n :: u32) + 1 \<noteq> 0 \<Longrightarrow> unat (n + 1) = Suc (unat n)"
  using u32_bound [of n] unfolding u32_wrap by (simp add: unat_word_ariths)

section \<open>Sorting a slice\<close>

text \<open>
  \<open>sort.Slice\<close> with a comparison function. Where the comparison is a strict total order on the
  elements, every sorting algorithm returns this result.
\<close>

fun insertBy :: "('a \<Rightarrow> 'a \<Rightarrow> bool) \<Rightarrow> 'a \<Rightarrow> 'a list \<Rightarrow> 'a list" where
  "insertBy lt x [] = [x]"
| "insertBy lt x (y # ys) = (if lt y x then y # insertBy lt x ys else x # y # ys)"

definition sortSlice :: "('a \<Rightarrow> 'a \<Rightarrow> bool) \<Rightarrow> 'a list \<Rightarrow> 'a list" where
  "sortSlice lt xs = foldr (insertBy lt) xs []"

lemma insertBy_insort:
  "(\<And>y. y \<in> set ys \<Longrightarrow> lt y x \<longleftrightarrow> f y < (f x :: 'b::linorder)) \<Longrightarrow> insertBy lt x ys = insort_key f x ys"
  by (induction ys) (auto simp: not_less)

lemma sortSlice_sort_key:
  "(\<And>x y. x \<in> set xs \<Longrightarrow> y \<in> set xs \<Longrightarrow> lt y x \<longleftrightarrow> f y < (f x :: 'b::linorder)) \<Longrightarrow>
     sortSlice lt xs = sort_key f xs"
proof (induction xs)
  case Nil
  then show ?case by (simp add: sortSlice_def)
next
  case (Cons x xs)
  then have "sortSlice lt xs = sort_key f xs" by simp
  then have "sortSlice lt (x # xs) = insertBy lt x (sort_key f xs)" by (simp add: sortSlice_def)
  also have "\<dots> = insort_key f x (sort_key f xs)"
    by (rule insertBy_insort) (use Cons.prems in simp)
  finally show ?case by simp
qed

lemma mset_sortSlice: "mset (sortSlice lt xs) = mset xs"
proof -
  have "mset (insertBy lt x ys) = add_mset x (mset ys)" for x ys
    by (induction ys) auto
  then show ?thesis unfolding sortSlice_def by (induction xs) auto
qed

section \<open>Repeated decoding\<close>

text \<open>The loops \<open>for i := 0; i < n; i++\<close> that decode \<open>n\<close> consecutive items.\<close>

primrec readN :: "nat \<Rightarrow> (bytes \<Rightarrow> ('e, 'a \<times> bytes) res) \<Rightarrow> bytes \<Rightarrow> ('e, 'a list \<times> bytes) res" where
  "readN 0 d r = Inr ([], r)"
| "readN (Suc n) d r =
     bindR (d r) (\<lambda>(x, r1). bindR (readN n d r1) (\<lambda>(xs, r2). Inr (x # xs, r2)))"

text \<open>
  A codec: every admissible value is decoded from its own encoding, whatever follows it, and
  everything the decoder accepts is the encoding of the value it returns. The second law is
  what makes an encoding canonical: no second byte string decodes to the same value.
\<close>

locale codec =
  fixes enc :: "'a \<Rightarrow> bytes"
    and dec :: "bytes \<Rightarrow> ('e, 'a \<times> bytes) res"
    and ok :: "'a \<Rightarrow> bool"
  assumes dec_enc: "ok x \<Longrightarrow> dec (enc x @ r) = Inr (x, r)"
    and enc_dec: "dec bs = Inr (x, r) \<Longrightarrow> ok x \<and> bs = enc x @ r"
begin

lemma dec_iff: "dec bs = Inr (x, r) \<longleftrightarrow> ok x \<and> bs = enc x @ r"
  using dec_enc enc_dec by blast

lemma enc_prefix_free:
  assumes "ok x" "ok y" "enc x @ r = enc y @ s"
  shows "x = y \<and> r = s"
proof -
  have "dec (enc x @ r) = Inr (x, r)" and "dec (enc y @ s) = Inr (y, s)"
    by (simp_all add: dec_enc assms(1,2))
  with assms(3) show ?thesis by (metis Inr_inject prod.inject)
qed

lemma enc_inj: "ok x \<Longrightarrow> ok y \<Longrightarrow> enc x = enc y \<Longrightarrow> x = y"
  using enc_prefix_free [of x y "[]" "[]"] by simp

lemma dec_canonical: "dec b1 = Inr (x, []) \<Longrightarrow> dec b2 = Inr (x, []) \<Longrightarrow> b1 = b2"
  using enc_dec [of b1 x "[]"] enc_dec [of b2 x "[]"] by simp

lemma readN_enc:
  "list_all ok xs \<Longrightarrow> readN (length xs) dec (concat (map enc xs) @ r) = Inr (xs, r)"
  by (induction xs) (auto simp: dec_enc)

lemma readN_dec:
  "readN n dec bs = Inr (xs, r) \<Longrightarrow>
     length xs = n \<and> list_all ok xs \<and> bs = concat (map enc xs) @ r"
proof (induction n arbitrary: bs xs)
  case 0
  then show ?case by simp
next
  case (Suc n)
  from Suc.prems obtain y ys r1 where
    1: "dec bs = Inr (y, r1)" and 2: "readN n dec r1 = Inr (ys, r)" and 3: "xs = y # ys"
    by (auto simp: res_simps)
  from enc_dec [OF 1] Suc.IH [OF 2] 3 show ?case by simp
qed

end

text \<open>
  A digest function with 32-byte results: what the hashing code relies on of
  \<open>crypto/sha256\<close>, whose \<open>Sum256\<close> returns an array of 32 bytes.
\<close>

locale digest =
  fixes sha :: "bytes \<Rightarrow> bytes"
  assumes length_sha: "length (sha bs) = 32"

end
