(* ===== verification/Types.thy ===== *)
theory Types
  imports Prelude
begin

text \<open>
  The consensus data of \<open>internal/types\<close>: hashes with their hex forms and their order,
  variable-length integers, transactions, block headers and blocks with the canonical binary
  format. A \<open>Hash\<close> is the list of its 32 bytes; the array length of the Go type is the
  predicate \<open>wf_hash\<close>. A writer is the list of the bytes written: the only writer of the
  package, \<open>sliceWriter\<close>, never fails. The codecs are interpretations of the locale
  \<open>codec\<close>, so encoding and decoding are inverse in both directions.
\<close>

section \<open>Hashes (hash.go)\<close>

type_synonym hash = bytes

definition HashSize :: nat where
  "HashSize = 32"

definition ZeroHash :: hash where
  "ZeroHash = replicate 32 0"

definition wf_hash :: "hash \<Rightarrow> bool" where
  "wf_hash h \<longleftrightarrow> length h = 32"

definition IsZero :: "hash \<Rightarrow> bool" where
  "IsZero h \<longleftrightarrow> h = ZeroHash"

text \<open>The loop of \<open>Hash.Less\<close>, from index 31 down to 0; \<open>n\<close> is the loop index plus one.\<close>

primrec lessFrom :: "nat \<Rightarrow> hash \<Rightarrow> hash \<Rightarrow> bool" where
  "lessFrom 0 h other = False"
| "lessFrom (Suc i) h other =
     (if h ! i < other ! i then True else if h ! i > other ! i then False
      else lessFrom i h other)"

definition Less :: "hash \<Rightarrow> hash \<Rightarrow> bool" where
  "Less h other = lessFrom HashSize h other"

definition LessOrEqual :: "hash \<Rightarrow> hash \<Rightarrow> bool" where
  "LessOrEqual h other \<longleftrightarrow> h = other \<or> Less h other"

datatype hash_error = InvalidHex | BadHashLength nat

text \<open>\<open>HashFromBytes\<close> panics unless it is given exactly 32 bytes; \<open>None\<close> is the panic.\<close>

definition HashFromBytes :: "bytes \<Rightarrow> hash option" where
  "HashFromBytes b = (if length b = HashSize then Some b else None)"

text \<open>\<open>hex.EncodeToString\<close> and \<open>hex.DecodeString\<close> of the standard library.\<close>

definition hexDigit :: "nat \<Rightarrow> char" where
  "hexDigit n = ''0123456789abcdef'' ! n"

definition hexValue :: "char \<Rightarrow> nat option" where
  "hexValue c =
     (let n = of_char c :: nat in
      if 48 \<le> n \<and> n \<le> 57 then Some (n - 48)
      else if 97 \<le> n \<and> n \<le> 102 then Some (n - 87)
      else if 65 \<le> n \<and> n \<le> 70 then Some (n - 55)
      else None)"

definition hexEncode :: "bytes \<Rightarrow> string" where
  "hexEncode bs = concat (map (\<lambda>b. [hexDigit (unat b div 16), hexDigit (unat b mod 16)]) bs)"

fun hexDecode :: "string \<Rightarrow> bytes option" where
  "hexDecode [] = Some []"
| "hexDecode [c] = None"
| "hexDecode (c # d # cs) =
     (case (hexValue c, hexValue d, hexDecode cs) of
        (Some x, Some y, Some bs) \<Rightarrow> Some (of_nat (16 * x + y) # bs)
      | _ \<Rightarrow> None)"

definition HashFromHex :: "string \<Rightarrow> (hash_error, hash) res" where
  "HashFromHex s =
     (case hexDecode s of
        None \<Rightarrow> Inl InvalidHex
      | Some b \<Rightarrow> if length b \<noteq> HashSize then Inl (BadHashLength (length b)) else Inr b)"

definition HashFromReverseHex :: "string \<Rightarrow> (hash_error, hash) res" where
  "HashFromReverseHex s =
     (case hexDecode s of
        None \<Rightarrow> Inl InvalidHex
      | Some b \<Rightarrow> if length b \<noteq> HashSize then Inl (BadHashLength (length b)) else Inr (rev b))"

definition HashString :: "hash \<Rightarrow> string" where
  "HashString h = hexEncode h"

text \<open>\<open>rev[i] = h[HashSize-1-i]\<close> for every index of the array.\<close>

definition ReverseString :: "hash \<Rightarrow> string" where
  "ReverseString h = hexEncode (map (\<lambda>i. h ! (HashSize - 1 - i)) [0..<HashSize])"

section \<open>Variable-length integers (transaction.go)\<close>

datatype decode_error =
    ReadErr io_error
  | EmptyVarInt
  | ShortVarInt nat nat
  | NonCanonical u64
  | CountExceedsMax u64
  | ScriptTooLong u64

definition PutVarInt :: "u64 \<Rightarrow> bytes" where
  "PutVarInt val =
     (if val < 0xFD then [ucast val]
      else if val \<le> 0xFFFF then 0xFD # PutUint16 (ucast val)
      else if val \<le> 0xFFFFFFFF then 0xFE # PutUint32 (ucast val)
      else 0xFF # PutUint64 val)"

definition WriteVarInt :: "u64 \<Rightarrow> bytes" where
  "WriteVarInt val = PutVarInt val"

definition VarIntSize :: "u64 \<Rightarrow> nat" where
  "VarIntSize val =
     (if val < 0xFD then 1 else if val \<le> 0xFFFF then 3 else if val \<le> 0xFFFFFFFF then 5 else 9)"

abbreviation rd :: "nat \<Rightarrow> bytes \<Rightarrow> (decode_error, bytes \<times> bytes) res" where
  "rd n r \<equiv> mapErr ReadErr (readFull n r)"

definition ReadVarInt :: "bytes \<Rightarrow> (decode_error, u64 \<times> bytes) res" where
  "ReadVarInt r =
     bindR (rd 1 r) (\<lambda>(d, r).
       if hd d = 0xFD then
         bindR (rd 2 r) (\<lambda>(buf, r).
           let val = ucast (getLE buf :: u16) in
           if val < 0xFD then Inl (NonCanonical val) else Inr (val, r))
       else if hd d = 0xFE then
         bindR (rd 4 r) (\<lambda>(buf, r).
           let val = ucast (getLE buf :: u32) in
           if val \<le> 0xFFFF then Inl (NonCanonical val) else Inr (val, r))
       else if hd d = 0xFF then
         bindR (rd 8 r) (\<lambda>(buf, r).
           let val = (getLE buf :: u64) in
           if val \<le> 0xFFFFFFFF then Inl (NonCanonical val) else Inr (val, r))
       else Inr (ucast (hd d), r))"

text \<open>\<open>data[a:b]\<close> on a slice known to be long enough.\<close>

definition slice :: "nat \<Rightarrow> nat \<Rightarrow> 'a list \<Rightarrow> 'a list" where
  "slice a b xs = take (b - a) (drop a xs)"

definition ReadVarIntFromBytes :: "bytes \<Rightarrow> (decode_error, u64) res" where
  "ReadVarIntFromBytes data =
     (if length data = 0 then Inl EmptyVarInt
      else if data ! 0 = 0xFD then
        (if length data < 3 then Inl (ShortVarInt 3 (length data))
         else let val = ucast (getLE (slice 1 3 data) :: u16) in
              if val < 0xFD then Inl (NonCanonical val) else Inr val)
      else if data ! 0 = 0xFE then
        (if length data < 5 then Inl (ShortVarInt 5 (length data))
         else let val = ucast (getLE (slice 1 5 data) :: u32) in
              if val \<le> 0xFFFF then Inl (NonCanonical val) else Inr val)
      else if data ! 0 = 0xFF then
        (if length data < 9 then Inl (ShortVarInt 9 (length data))
         else let val = (getLE (slice 1 9 data) :: u64) in
              if val \<le> 0xFFFFFFFF then Inl (NonCanonical val) else Inr val)
      else Inr (ucast (data ! 0)))"


section \<open>Facts about hashes\<close>

lemma length_ZeroHash [simp]: "length ZeroHash = 32"
  by (simp add: ZeroHash_def)

lemma wf_ZeroHash [simp]: "wf_hash ZeroHash"
  by (simp add: wf_hash_def)

lemma lessFrom_le_nat:
  "n \<le> length h \<Longrightarrow> n \<le> length k \<Longrightarrow>
     lessFrom n h k \<longleftrightarrow> le_nat (take n h) < le_nat (take n k)"
proof (induction n)
  case 0
  then show ?case by simp
next
  case (Suc n)
  then have h: "take (Suc n) h = take n h @ [h ! n]" and k: "take (Suc n) k = take n k @ [k ! n]"
    by (simp_all add: take_Suc_conv_app_nth)
  have len: "length (take n h) = n" "length (take n k) = n" using Suc.prems by auto
  have lt: "le_nat (take n h) < 256 ^ n" "le_nat (take n k) < 256 ^ n"
    using le_nat_less [of "take n h"] le_nat_less [of "take n k"] len by simp_all
  have digit: "a + N * x < b + N * y" if "a < N" "x < y" for a b x y N :: nat
  proof -
    have "a + N * x < N * Suc x" using that by simp
    also have "\<dots> \<le> N * y" using that by (intro mult_le_mono) auto
    finally show ?thesis by simp
  qed
  consider "unat (h ! n) < unat (k ! n)" | "unat (k ! n) < unat (h ! n)" | "unat (h ! n) = unat (k ! n)"
    by linarith
  then show ?case
  proof cases
    case 1
    then have "h ! n < k ! n" by (simp add: word_less_nat_alt)
    moreover have "le_nat (take (Suc n) h) < le_nat (take (Suc n) k)"
      using digit [OF lt(1) 1, of "le_nat (take n k)"] by (simp add: h k le_nat_append len del: length_take)
    ultimately show ?thesis by simp
  next
    case 2
    then have "k ! n < h ! n" by (simp add: word_less_nat_alt)
    moreover have "le_nat (take (Suc n) k) < le_nat (take (Suc n) h)"
      using digit [OF lt(2) 2, of "le_nat (take n h)"] by (simp add: h k le_nat_append len del: length_take)
    ultimately show ?thesis by (simp add: not_less_iff_gr_or_eq)
  next
    case 3
    then have "h ! n = k ! n" by (simp add: word_unat_eq_iff)
    with Suc show ?thesis by (simp add: h k le_nat_append len)
  qed
qed

lemma Less_le_nat: "wf_hash h \<Longrightarrow> wf_hash k \<Longrightarrow> Less h k \<longleftrightarrow> le_nat h < le_nat k"
  using lessFrom_le_nat [of 32 h k] by (simp add: Less_def HashSize_def wf_hash_def)

lemma LessOrEqual_le_nat: "wf_hash h \<Longrightarrow> wf_hash k \<Longrightarrow> LessOrEqual h k \<longleftrightarrow> le_nat h \<le> le_nat k"
  using le_nat_inj [of h k] by (auto simp: LessOrEqual_def Less_le_nat order_le_less wf_hash_def)

lemma hexValue_hexDigit: "n < 16 \<Longrightarrow> hexValue (hexDigit n) = Some n"
proof -
  assume "n < 16"
  then have "n \<in> set [0..<16]" by simp
  then show ?thesis by (auto simp: hexDigit_def hexValue_def upt_conv_Cons)
qed

lemma hexDecode_hexEncode: "hexDecode (hexEncode bs) = Some bs"
proof (induction bs)
  case Nil
  then show ?case by (simp add: hexEncode_def)
next
  case (Cons b bs)
  have "(of_nat (16 * (unat b div 16) + unat b mod 16) :: byte) = b"
    by (simp only: mult_div_mod_eq of_nat_unat_id)
  moreover have "unat b div 16 < 16" using unat_byte_less [of b] by linarith
  ultimately show ?case
    using Cons by (simp add: hexEncode_def hexValue_hexDigit del: of_nat_add of_nat_mult)
qed

lemma rev_by_index: "length h = n \<Longrightarrow> map (\<lambda>i. h ! (n - 1 - i)) [0..<n] = rev h"
  by (rule nth_equalityI) (auto simp: rev_nth)

lemma HashFromHex_String: "wf_hash h \<Longrightarrow> HashFromHex (HashString h) = Inr h"
  by (simp add: HashFromHex_def HashString_def hexDecode_hexEncode wf_hash_def HashSize_def)

lemma HashFromReverseHex_ReverseString:
  "wf_hash h \<Longrightarrow> HashFromReverseHex (ReverseString h) = Inr h"
  using rev_by_index [of h 32]
  by (simp add: HashFromReverseHex_def ReverseString_def hexDecode_hexEncode wf_hash_def
      HashSize_def)

section \<open>The variable-length integer codec\<close>

lemma length_PutVarInt: "length (PutVarInt v) = VarIntSize v"
  by (simp add: PutVarInt_def VarIntSize_def)

lemma ucast_down_up16: "v \<le> 0xFFFF \<Longrightarrow> ucast (ucast (v :: u64) :: u16) = v"
  by (simp add: word_unat_eq_iff word_le_nat_alt unat_ucast_mod)

lemma ucast_down_up32: "v \<le> 0xFFFFFFFF \<Longrightarrow> ucast (ucast (v :: u64) :: u32) = v"
  by (simp add: word_unat_eq_iff word_le_nat_alt unat_ucast_mod)

lemma ucast_byte_small: "v < 0xFD \<Longrightarrow> unat (ucast (v :: u64) :: byte) = unat v"
  by (simp add: word_less_nat_alt unat_ucast_mod)

lemma unat_byte_to_u64: "unat (ucast (b :: byte) :: u64) = unat b"
  using unat_byte_less [of b] by (simp add: unat_ucast_mod del: unat_byte_less)

lemma ReadVarInt_PutVarInt: "ReadVarInt (PutVarInt v @ r) = Inr (v, r)"
proof -
  consider "v < 0xFD" | "\<not> v < 0xFD" "v \<le> 0xFFFF" | "\<not> v \<le> 0xFFFF" "v \<le> 0xFFFFFFFF"
    | "\<not> v \<le> 0xFFFFFFFF"
    by fastforce
  then show ?thesis
  proof cases
    case 1
    then have u: "unat (ucast v :: byte) = unat v" and lt: "unat v < 0xFD"
      by (simp_all add: ucast_byte_small word_less_nat_alt)
    have "(ucast (ucast v :: byte) :: u64) = v"
      by (simp add: word_unat_eq_iff unat_byte_to_u64 u)
    moreover have "(ucast v :: byte) \<noteq> 0xFD" "(ucast v :: byte) \<noteq> 0xFE" "(ucast v :: byte) \<noteq> 0xFF"
      using u lt by (auto simp: word_unat_eq_iff)
    ultimately show ?thesis using 1
      by (simp add: ReadVarInt_def PutVarInt_def readFull_def)
  next
    case 2
    then show ?thesis
      by (simp add: ReadVarInt_def PutVarInt_def readFull_def Let_def ucast_down_up16)
  next
    case 3
    then have "\<not> v < 0xFD" by (simp add: word_le_nat_alt word_less_nat_alt)
    with 3 show ?thesis
      by (simp add: ReadVarInt_def PutVarInt_def readFull_def Let_def ucast_down_up32)
  next
    case 4
    then have "\<not> v < 0xFD" "\<not> v \<le> 0xFFFF" by (simp_all add: word_le_nat_alt word_less_nat_alt)
    with 4 show ?thesis
      by (simp add: ReadVarInt_def PutVarInt_def readFull_def Let_def)
  qed
qed

lemma PutVarInt_byte:
  fixes b :: byte
  assumes "b \<noteq> 0xFD" "b \<noteq> 0xFE" "b \<noteq> 0xFF"
  shows "PutVarInt (ucast b) = [b]"
proof -
  have "unat b < 0xFD"
    using assms unat_byte_less [of b] by (auto simp: word_unat_eq_iff simp del: unat_byte_less)
  then have "(ucast b :: u64) < 0xFD" by (simp add: word_less_nat_alt unat_byte_to_u64)
  moreover have "(ucast (ucast b :: u64) :: byte) = b"
    using \<open>unat b < 0xFD\<close> by (simp add: word_unat_eq_iff unat_ucast_mod)
  ultimately show ?thesis by (simp add: PutVarInt_def)
qed

lemma PutVarInt_u16:
  fixes w :: u16
  assumes "\<not> (ucast w :: u64) < 0xFD"
  shows "PutVarInt (ucast w) = 0xFD # PutUint16 w"
proof -
  have "unat w < 2 ^ 16" using unsigned_less [of w] by simp
  then have "(ucast w :: u64) \<le> 0xFFFF"
    by (simp add: word_le_nat_alt unat_ucast_mod)
  moreover have "(ucast (ucast w :: u64) :: u16) = w"
    using \<open>unat w < 2 ^ 16\<close> by (simp add: word_unat_eq_iff unat_ucast_mod)
  ultimately show ?thesis using assms by (simp add: PutVarInt_def)
qed

lemma PutVarInt_u32:
  fixes w :: u32
  assumes "\<not> (ucast w :: u64) \<le> 0xFFFF"
  shows "PutVarInt (ucast w) = 0xFE # PutUint32 w"
proof -
  have "unat w < 2 ^ 32" using unsigned_less [of w] by simp
  then have "(ucast w :: u64) \<le> 0xFFFFFFFF"
    by (simp add: word_le_nat_alt unat_ucast_mod)
  moreover have "(ucast (ucast w :: u64) :: u32) = w"
    using \<open>unat w < 2 ^ 32\<close> by (simp add: word_unat_eq_iff unat_ucast_mod)
  moreover have "\<not> (ucast w :: u64) < 0xFD"
    using assms by (simp add: word_le_nat_alt word_less_nat_alt)
  ultimately show ?thesis using assms by (simp add: PutVarInt_def)
qed

lemma PutVarInt_u64:
  assumes "\<not> (w :: u64) \<le> 0xFFFFFFFF"
  shows "PutVarInt w = 0xFF # PutUint64 w"
  using assms by (auto simp: PutVarInt_def word_le_nat_alt word_less_nat_alt)

lemmas PutVarInt_cases = PutVarInt_byte PutVarInt_u16 PutVarInt_u32 PutVarInt_u64

lemma PutVarInt_ReadVarInt: "ReadVarInt bs = Inr (v, r) \<Longrightarrow> bs = PutVarInt v @ r"
  by (auto simp: ReadVarInt_def res_simps Let_def PutVarInt_cases length_one
      split: if_splits)

interpretation varint: codec PutVarInt ReadVarInt "\<lambda>_. True"
  by unfold_locales (auto simp: ReadVarInt_PutVarInt PutVarInt_ReadVarInt)

text \<open>The slice reader agrees with the stream reader, and says how much it consumed.\<close>

lemma ReadVarIntFromBytes_stream:
  assumes "ReadVarInt bs = Inr (v, r)"
  shows "ReadVarIntFromBytes bs = Inr v"
proof -
  obtain b cs where bs: "bs = b # cs"
    using assms by (cases bs) (auto simp: ReadVarInt_def readFull_def)
  show ?thesis
    using assms
    by (auto simp: bs ReadVarIntFromBytes_def ReadVarInt_def readFull_def Let_def slice_def
        split: if_splits)
qed

lemma ReadVarIntFromBytes_PutVarInt: "ReadVarIntFromBytes (PutVarInt v @ r) = Inr v"
  using ReadVarIntFromBytes_stream ReadVarInt_PutVarInt by blast

lemma PutVarInt_ReadVarIntFromBytes:
  assumes "ReadVarIntFromBytes bs = Inr v"
  shows "bs = PutVarInt v @ drop (VarIntSize v) bs"
proof -
  obtain b cs where bs: "bs = b # cs"
    using assms by (cases bs) (auto simp: ReadVarIntFromBytes_def)
  have "\<exists>r. ReadVarInt bs = Inr (v, r)"
    using assms
    by (auto simp: bs ReadVarIntFromBytes_def ReadVarInt_def readFull_def Let_def slice_def
        split: if_splits)
  then obtain r where "bs = PutVarInt v @ r" using PutVarInt_ReadVarInt by blast
  then show ?thesis by (simp add: length_PutVarInt)
qed

end
