(* ===== verification/Transaction.thy ===== *)
theory Transaction
  imports Types
begin

text \<open>
  Transactions of \<open>internal/types/transaction.go\<close>: the structs as records, the coinbase
  tests, the canonical serialization with its size function and the deserializer with its
  resource limits. Deserialization is a function from the unread bytes to an error or to the
  value and what is left unread.
\<close>

record OutPoint =
  op_Hash :: hash
  op_Index :: u32

record TxInput =
  PreviousOutPoint :: OutPoint
  SignatureScript :: bytes
  Sequence :: u32

record TxOutput =
  Value :: u64
  PkScript :: bytes

record Transaction =
  tx_Version :: u32
  Inputs :: "TxInput list"
  Outputs :: "TxOutput list"
  LockTime :: u32

definition CoinbaseOutPoint :: OutPoint where
  "CoinbaseOutPoint = \<lparr>op_Hash = ZeroHash, op_Index = 0xFFFFFFFF\<rparr>"

definition TxInput_IsCoinbase :: "TxInput \<Rightarrow> bool" where
  "TxInput_IsCoinbase i \<longleftrightarrow>
     IsZero (op_Hash (PreviousOutPoint i)) \<and> op_Index (PreviousOutPoint i) = 0xFFFFFFFF"

definition IsCoinbase :: "Transaction \<Rightarrow> bool" where
  "IsCoinbase tx \<longleftrightarrow> length (Inputs tx) = 1 \<and> TxInput_IsCoinbase (Inputs tx ! 0)"

definition MaxTxInputs :: u64 where "MaxTxInputs = 10000"
definition MaxTxOutputs :: u64 where "MaxTxOutputs = 10000"
definition MaxScriptSize :: u64 where "MaxScriptSize = 10000"

lemmas tx_limits = MaxTxInputs_def MaxTxOutputs_def MaxScriptSize_def

abbreviation len64 :: "'a list \<Rightarrow> u64" where
  "len64 xs \<equiv> of_nat (length xs)"

section \<open>Serialization\<close>

definition TxInput_SerializeSize :: "TxInput \<Rightarrow> nat" where
  "TxInput_SerializeSize i =
     36 + VarIntSize (len64 (SignatureScript i)) + length (SignatureScript i) + 4"

definition TxOutput_SerializeSize :: "TxOutput \<Rightarrow> nat" where
  "TxOutput_SerializeSize out = 8 + VarIntSize (len64 (PkScript out)) + length (PkScript out)"

definition SerializeSize :: "Transaction \<Rightarrow> nat" where
  "SerializeSize tx =
     4 + VarIntSize (len64 (Inputs tx)) + sum_list (map TxInput_SerializeSize (Inputs tx))
       + VarIntSize (len64 (Outputs tx)) + sum_list (map TxOutput_SerializeSize (Outputs tx)) + 4"

definition TxInput_Serialize :: "TxInput \<Rightarrow> bytes" where
  "TxInput_Serialize i =
     op_Hash (PreviousOutPoint i) @ PutUint32 (op_Index (PreviousOutPoint i))
     @ WriteVarInt (len64 (SignatureScript i)) @ SignatureScript i @ PutUint32 (Sequence i)"

definition TxOutput_Serialize :: "TxOutput \<Rightarrow> bytes" where
  "TxOutput_Serialize out =
     PutUint64 (Value out) @ WriteVarInt (len64 (PkScript out)) @ PkScript out"

definition Tx_Serialize :: "Transaction \<Rightarrow> bytes" where
  "Tx_Serialize tx =
     PutUint32 (tx_Version tx)
     @ WriteVarInt (len64 (Inputs tx)) @ concat (map TxInput_Serialize (Inputs tx))
     @ WriteVarInt (len64 (Outputs tx)) @ concat (map TxOutput_Serialize (Outputs tx))
     @ PutUint32 (LockTime tx)"

text \<open>\<open>SerializeToBytes\<close> runs \<open>Serialize\<close> on a \<open>sliceWriter\<close>, whose \<open>Write\<close> appends and
  returns no error.\<close>

definition SerializeToBytes :: "Transaction \<Rightarrow> bytes" where
  "SerializeToBytes tx = Tx_Serialize tx"

section \<open>Deserialization\<close>

definition TxInput_Deserialize :: "bytes \<Rightarrow> (decode_error, TxInput \<times> bytes) res" where
  "TxInput_Deserialize r =
     bindR (rd 32 r) (\<lambda>(h, r).
     bindR (rd 4 r) (\<lambda>(idx, r).
     bindR (ReadVarInt r) (\<lambda>(scriptLen, r).
     if scriptLen > MaxScriptSize then Inl (ScriptTooLong scriptLen)
     else bindR (rd (unat scriptLen) r) (\<lambda>(script, r).
     bindR (rd 4 r) (\<lambda>(sq, r).
     Inr (\<lparr>PreviousOutPoint = \<lparr>op_Hash = h, op_Index = getLE idx\<rparr>,
           SignatureScript = script, Sequence = getLE sq\<rparr>, r))))))"

definition TxOutput_Deserialize :: "bytes \<Rightarrow> (decode_error, TxOutput \<times> bytes) res" where
  "TxOutput_Deserialize r =
     bindR (rd 8 r) (\<lambda>(v, r).
     bindR (ReadVarInt r) (\<lambda>(scriptLen, r).
     if scriptLen > MaxScriptSize then Inl (ScriptTooLong scriptLen)
     else bindR (rd (unat scriptLen) r) (\<lambda>(script, r).
     Inr (\<lparr>Value = getLE v, PkScript = script\<rparr>, r))))"

definition Tx_Deserialize :: "bytes \<Rightarrow> (decode_error, Transaction \<times> bytes) res" where
  "Tx_Deserialize r =
     bindR (rd 4 r) (\<lambda>(ver, r).
     bindR (ReadVarInt r) (\<lambda>(inCount, r).
     if inCount > MaxTxInputs then Inl (CountExceedsMax inCount)
     else bindR (readN (unat inCount) TxInput_Deserialize r) (\<lambda>(ins, r).
     bindR (ReadVarInt r) (\<lambda>(outCount, r).
     if outCount > MaxTxOutputs then Inl (CountExceedsMax outCount)
     else bindR (readN (unat outCount) TxOutput_Deserialize r) (\<lambda>(outs, r).
     bindR (rd 4 r) (\<lambda>(lock, r).
     Inr (\<lparr>tx_Version = getLE ver, Inputs = ins, Outputs = outs, LockTime = getLE lock\<rparr>, r)))))))"

section \<open>Well-formed transactions\<close>

text \<open>The array length of the previous hash, and the limits the deserializer enforces.\<close>

definition wf_input :: "TxInput \<Rightarrow> bool" where
  "wf_input i \<longleftrightarrow> wf_hash (op_Hash (PreviousOutPoint i)) \<and> length (SignatureScript i) \<le> 10000"

definition wf_output :: "TxOutput \<Rightarrow> bool" where
  "wf_output out \<longleftrightarrow> length (PkScript out) \<le> 10000"

definition wf_tx :: "Transaction \<Rightarrow> bool" where
  "wf_tx tx \<longleftrightarrow> length (Inputs tx) \<le> 10000 \<and> list_all wf_input (Inputs tx)
     \<and> length (Outputs tx) \<le> 10000 \<and> list_all wf_output (Outputs tx)"

lemma CoinbaseOutPoint_IsCoinbase [simp]:
  "TxInput_IsCoinbase \<lparr>PreviousOutPoint = CoinbaseOutPoint, SignatureScript = s, Sequence = q\<rparr>"
  by (simp add: TxInput_IsCoinbase_def CoinbaseOutPoint_def IsZero_def)

section \<open>Sizes and the codec laws\<close>

lemmas serialize_defs =
  TxInput_Serialize_def TxOutput_Serialize_def Tx_Serialize_def WriteVarInt_def

lemmas deserialize_defs = TxInput_Deserialize_def TxOutput_Deserialize_def Tx_Deserialize_def

lemma length_TxInput_Serialize:
  "wf_hash (op_Hash (PreviousOutPoint i)) \<Longrightarrow> length (TxInput_Serialize i) = TxInput_SerializeSize i"
  by (simp add: serialize_defs TxInput_SerializeSize_def length_PutVarInt wf_hash_def)

lemma length_TxOutput_Serialize: "length (TxOutput_Serialize out) = TxOutput_SerializeSize out"
  by (simp add: serialize_defs TxOutput_SerializeSize_def length_PutVarInt)

lemma length_Tx_Serialize:
  assumes "\<And>i. i \<in> set (Inputs tx) \<Longrightarrow> wf_hash (op_Hash (PreviousOutPoint i))"
  shows "length (Tx_Serialize tx) = SerializeSize tx"
proof -
  have "length (concat (map TxInput_Serialize (Inputs tx)))
        = sum_list (map TxInput_SerializeSize (Inputs tx))"
    using assms by (simp add: length_concat comp_def length_TxInput_Serialize cong: map_cong)
  then show ?thesis
    by (simp add: Tx_Serialize_def WriteVarInt_def SerializeSize_def length_PutVarInt
        length_concat comp_def length_TxOutput_Serialize)
qed

lemma le_10000_u64:
  fixes n :: nat
  assumes "n \<le> 10000"
  shows "\<not> (10000::u64) < of_nat n" "unat (of_nat n :: u64) = n"
  using assms by (simp_all add: word_less_nat_alt)

lemma not_gt_10000: "\<not> (10000::u64) < w \<Longrightarrow> unat w \<le> 10000"
  by (simp add: word_less_nat_alt)

interpretation tx_input: codec TxInput_Serialize TxInput_Deserialize wf_input
proof unfold_locales
  fix x :: TxInput and r
  assume "wf_input x"
  then show "TxInput_Deserialize (TxInput_Serialize x @ r) = Inr (x, r)"
    by (simp add: serialize_defs deserialize_defs wf_input_def wf_hash_def varint.dec_enc
        le_10000_u64 tx_limits)
next
  fix bs x r
  assume "TxInput_Deserialize bs = Inr (x, r)"
  then show "wf_input x \<and> bs = TxInput_Serialize x @ r"
    by (auto simp: serialize_defs deserialize_defs wf_input_def wf_hash_def res_simps tx_limits
        not_gt_10000 split: if_splits dest!: varint.enc_dec)
qed

interpretation tx_output: codec TxOutput_Serialize TxOutput_Deserialize wf_output
proof unfold_locales
  fix x :: TxOutput and r
  assume "wf_output x"
  then show "TxOutput_Deserialize (TxOutput_Serialize x @ r) = Inr (x, r)"
    by (simp add: serialize_defs deserialize_defs wf_output_def varint.dec_enc le_10000_u64
        tx_limits)
next
  fix bs x r
  assume "TxOutput_Deserialize bs = Inr (x, r)"
  then show "wf_output x \<and> bs = TxOutput_Serialize x @ r"
    by (auto simp: serialize_defs deserialize_defs wf_output_def res_simps tx_limits
        not_gt_10000 split: if_splits dest!: varint.enc_dec)
qed

lemma Tx_Deserialize_Serialize:
  assumes "wf_tx x"
  shows "Tx_Deserialize (Tx_Serialize x @ r) = Inr (x, r)"
  using assms tx_input.readN_enc [of "Inputs x"] tx_output.readN_enc [of "Outputs x"]
  by (simp add: Tx_Serialize_def WriteVarInt_def Tx_Deserialize_def wf_tx_def varint.dec_enc
      le_10000_u64 tx_limits)

lemma Tx_Serialize_Deserialize:
  assumes "Tx_Deserialize bs = Inr (x, r)"
  shows "wf_tx x \<and> bs = Tx_Serialize x @ r"
  using assms
  by (auto simp: Tx_Serialize_def WriteVarInt_def Tx_Deserialize_def wf_tx_def res_simps
      tx_limits not_gt_10000 split: if_splits
      dest!: varint.enc_dec tx_input.readN_dec tx_output.readN_dec)

interpretation tx: codec Tx_Serialize Tx_Deserialize wf_tx
  by unfold_locales (simp_all add: Tx_Deserialize_Serialize Tx_Serialize_Deserialize)

end
