(* ===== verification/Block.thy ===== *)
theory Block
  imports Transaction
begin

text \<open>
  Block headers and blocks of \<open>internal/types/block.go\<close>. The header is written into a fixed
  80-byte buffer, field by field at fixed offsets; the block is the header, the transaction
  count and the transactions.
\<close>

record BlockHeader =
  hdr_Version :: u32
  PrevBlock :: hash
  MerkleRootH :: hash
  Timestamp :: u32
  Bits :: u32
  Nonce :: u32

record Block =
  Header :: BlockHeader
  Transactions :: "Transaction list"

definition BlockHeaderSize :: nat where
  "BlockHeaderSize = 80"

definition MaxBlockTxCountWire :: u64 where
  "MaxBlockTxCountWire = 50000"

text \<open>\<open>copy(buf[a:], src)\<close>: overwrite the buffer from offset \<open>a\<close>.\<close>

definition copyAt :: "nat \<Rightarrow> bytes \<Rightarrow> bytes \<Rightarrow> bytes" where
  "copyAt a src buf = take a buf @ src @ drop (a + length src) buf"

definition serializeInto :: "BlockHeader \<Rightarrow> bytes \<Rightarrow> bytes" where
  "serializeInto h buf =
     (let b1 = copyAt 0 (PutUint32 (hdr_Version h)) buf;
          b2 = copyAt 4 (PrevBlock h) b1;
          b3 = copyAt 36 (MerkleRootH h) b2;
          b4 = copyAt 68 (PutUint32 (Timestamp h)) b3;
          b5 = copyAt 72 (PutUint32 (Bits h)) b4
      in copyAt 76 (PutUint32 (Nonce h)) b5)"

definition Header_SerializeToBytes :: "BlockHeader \<Rightarrow> bytes" where
  "Header_SerializeToBytes h = serializeInto h (replicate BlockHeaderSize 0)"

definition Header_Serialize :: "BlockHeader \<Rightarrow> bytes" where
  "Header_Serialize h = serializeInto h (replicate BlockHeaderSize 0)"

definition Header_Deserialize :: "bytes \<Rightarrow> (decode_error, BlockHeader \<times> bytes) res" where
  "Header_Deserialize r =
     bindR (rd BlockHeaderSize r) (\<lambda>(buf, r).
     Inr (\<lparr>hdr_Version = getLE (slice 0 4 buf), PrevBlock = slice 4 36 buf,
           MerkleRootH = slice 36 68 buf, Timestamp = getLE (slice 68 72 buf),
           Bits = getLE (slice 72 76 buf), Nonce = getLE (slice 76 80 buf)\<rparr>, r))"

definition Block_Serialize :: "Block \<Rightarrow> bytes" where
  "Block_Serialize b =
     Header_Serialize (Header b) @ WriteVarInt (len64 (Transactions b))
     @ concat (map Tx_Serialize (Transactions b))"

definition Block_SerializeToBytes :: "Block \<Rightarrow> bytes" where
  "Block_SerializeToBytes b = Block_Serialize b"

definition Block_Deserialize :: "bytes \<Rightarrow> (decode_error, Block \<times> bytes) res" where
  "Block_Deserialize r =
     bindR (Header_Deserialize r) (\<lambda>(h, r).
     bindR (ReadVarInt r) (\<lambda>(txCount, r).
     if txCount > MaxBlockTxCountWire then Inl (CountExceedsMax txCount)
     else bindR (readN (unat txCount) Tx_Deserialize r) (\<lambda>(txs, r).
     Inr (\<lparr>Header = h, Transactions = txs\<rparr>, r))))"

definition wf_header :: "BlockHeader \<Rightarrow> bool" where
  "wf_header h \<longleftrightarrow> wf_hash (PrevBlock h) \<and> wf_hash (MerkleRootH h)"

definition wf_block :: "Block \<Rightarrow> bool" where
  "wf_block b \<longleftrightarrow> wf_header (Header b) \<and> length (Transactions b) \<le> 50000
     \<and> list_all wf_tx (Transactions b)"

section \<open>The header layout\<close>

lemma copyAt_extend:
  "length pre = a \<Longrightarrow> length src = n \<Longrightarrow> copyAt a src (pre @ drop a buf) = (pre @ src) @ drop (a + n) buf"
  by (simp add: copyAt_def add.commute)

lemma serializeInto_fields:
  assumes "wf_header h" and "length buf = 80"
  shows "serializeInto h buf =
    PutUint32 (hdr_Version h) @ PrevBlock h @ MerkleRootH h @ PutUint32 (Timestamp h)
    @ PutUint32 (Bits h) @ PutUint32 (Nonce h)"
proof -
  let ?f1 = "PutUint32 (hdr_Version h)" and ?f4 = "PutUint32 (Timestamp h)"
  let ?f5 = "PutUint32 (Bits h)" and ?f6 = "PutUint32 (Nonce h)"
  have l: "length (PrevBlock h) = 32" "length (MerkleRootH h) = 32"
    using assms(1) by (simp_all add: wf_header_def wf_hash_def)
  note step = copyAt_extend [where buf = buf]
  have "copyAt 0 ?f1 buf = ?f1 @ drop 4 buf" by (simp add: copyAt_def)
  moreover have "copyAt 4 (PrevBlock h) (?f1 @ drop 4 buf) = (?f1 @ PrevBlock h) @ drop 36 buf"
    by (subst step [where n = 32]) (simp_all add: l)
  moreover have "copyAt 36 (MerkleRootH h) ((?f1 @ PrevBlock h) @ drop 36 buf)
      = (?f1 @ PrevBlock h @ MerkleRootH h) @ drop 68 buf"
    by (subst step [where n = 32]) (simp_all add: l)
  moreover have "copyAt 68 ?f4 ((?f1 @ PrevBlock h @ MerkleRootH h) @ drop 68 buf)
      = (?f1 @ PrevBlock h @ MerkleRootH h @ ?f4) @ drop 72 buf"
    by (subst step [where n = 4]) (simp_all add: l)
  moreover have "copyAt 72 ?f5 ((?f1 @ PrevBlock h @ MerkleRootH h @ ?f4) @ drop 72 buf)
      = (?f1 @ PrevBlock h @ MerkleRootH h @ ?f4 @ ?f5) @ drop 76 buf"
    by (subst step [where n = 4]) (simp_all add: l)
  moreover have "copyAt 76 ?f6 ((?f1 @ PrevBlock h @ MerkleRootH h @ ?f4 @ ?f5) @ drop 76 buf)
      = (?f1 @ PrevBlock h @ MerkleRootH h @ ?f4 @ ?f5 @ ?f6) @ drop 80 buf"
    by (subst step [where n = 4]) (simp_all add: l)
  ultimately show ?thesis using assms(2) by (simp only: serializeInto_def Let_def) simp
qed

lemma Header_Serialize_fields:
  "wf_header h \<Longrightarrow> Header_Serialize h =
    PutUint32 (hdr_Version h) @ PrevBlock h @ MerkleRootH h @ PutUint32 (Timestamp h)
    @ PutUint32 (Bits h) @ PutUint32 (Nonce h)"
  by (simp add: Header_Serialize_def serializeInto_fields BlockHeaderSize_def)

lemma length_Header_Serialize: "wf_header h \<Longrightarrow> length (Header_Serialize h) = 80"
  by (simp add: Header_Serialize_fields) (simp add: wf_header_def wf_hash_def)

lemma slice_append1: "length a = n \<Longrightarrow> slice 0 n (a @ b) = a"
  by (simp add: slice_def)

lemma slice_append2: "length a = m \<Longrightarrow> m \<le> i \<Longrightarrow> i \<le> j \<Longrightarrow> slice i j (a @ b) = slice (i - m) (j - m) b"
  by (simp add: slice_def)

lemma slice_full: "length a = n \<Longrightarrow> slice 0 n a = a"
  by (simp add: slice_def)

lemma length_slice: "a \<le> b \<Longrightarrow> b \<le> length xs \<Longrightarrow> length (slice a b xs) = b - a"
  by (simp add: slice_def)

lemma slice_join: "a \<le> b \<Longrightarrow> b \<le> c \<Longrightarrow> slice a b xs @ slice b c xs = slice a c xs"
proof -
  assume "a \<le> b" "b \<le> c"
  then have "c - a = (b - a) + (c - b)" and "b = a + (b - a)" by simp_all
  then show ?thesis unfolding slice_def by (metis add.commute drop_drop take_add)
qed

lemma split_header:
  assumes "length buf = 80"
  shows "slice 0 4 buf @ slice 4 36 buf @ slice 36 68 buf @ slice 68 72 buf @ slice 72 76 buf
         @ slice 76 80 buf = buf"
  using assms by (simp add: slice_join slice_full)

interpretation header: codec Header_Serialize Header_Deserialize wf_header
proof unfold_locales
  fix x :: BlockHeader and r
  assume wf: "wf_header x"
  then have len: "length (Header_Serialize x) = BlockHeaderSize"
    by (simp add: length_Header_Serialize BlockHeaderSize_def)
  show "Header_Deserialize (Header_Serialize x @ r) = Inr (x, r)"
    using wf
    by (simp add: Header_Deserialize_def readFull_append [OF len])
       (simp add: Header_Serialize_fields [OF wf] wf_header_def wf_hash_def slice_append1
         slice_append2 slice_full)
next
  fix bs x r
  assume "Header_Deserialize bs = Inr (x, r)"
  then obtain buf where len: "length buf = 80" and bs: "bs = buf @ r"
    and x: "x = \<lparr>hdr_Version = getLE (slice 0 4 buf), PrevBlock = slice 4 36 buf,
           MerkleRootH = slice 36 68 buf, Timestamp = getLE (slice 68 72 buf),
           Bits = getLE (slice 72 76 buf), Nonce = getLE (slice 76 80 buf)\<rparr>"
    by (auto simp: Header_Deserialize_def res_simps BlockHeaderSize_def)
  have wf: "wf_header x" using len by (simp add: x wf_header_def wf_hash_def length_slice)
  have "Header_Serialize x = buf"
    using len split_header [OF len]
    by (simp add: Header_Serialize_fields [OF wf]) (simp add: x length_slice)
  with wf bs show "wf_header x \<and> bs = Header_Serialize x @ r" by simp
qed

lemma Block_Deserialize_Serialize:
  assumes "wf_block b"
  shows "Block_Deserialize (Block_Serialize b @ r) = Inr (b, r)"
proof -
  have "length (Transactions b) \<le> 50000" using assms by (simp add: wf_block_def)
  then have "\<not> (50000::u64) < len64 (Transactions b)" "unat (len64 (Transactions b)) = length (Transactions b)"
    by (simp_all add: word_less_nat_alt)
  then show ?thesis
    using assms tx.readN_enc [of "Transactions b"]
    by (simp add: Block_Deserialize_def Block_Serialize_def wf_block_def WriteVarInt_def
        header.dec_enc varint.dec_enc MaxBlockTxCountWire_def)
qed

lemma Block_Serialize_Deserialize:
  assumes "Block_Deserialize bs = Inr (b, r)"
  shows "wf_block b \<and> bs = Block_Serialize b @ r"
  using assms
  by (auto simp: Block_Deserialize_def Block_Serialize_def wf_block_def WriteVarInt_def res_simps
      MaxBlockTxCountWire_def word_less_nat_alt split: if_splits
      dest!: header.enc_dec varint.enc_dec tx.readN_dec)

interpretation block: codec Block_Serialize Block_Deserialize wf_block
  by unfold_locales (simp_all add: Block_Deserialize_Serialize Block_Serialize_Deserialize)

end
