(* ===== verification/Params.thy ===== *)
theory Params
  imports Block
begin

text \<open>
  Chain parameters (\<open>internal/params\<close>): the parameter record, the three networks with their
  genesis blocks, the genesis builder and the subsidy schedule. A \<open>time.Duration\<close> is its
  number of nanoseconds. The two genesis blocks the sources define are transcribed; regtest's
  is the zero value of the Go struct until \<open>InitGenesis\<close> sets it.
\<close>

type_synonym duration = int

definition Second :: duration where "Second = 1000000000"
definition Minute :: duration where "Minute = 60 * Second"
definition Hour :: duration where "Hour = 60 * Minute"

record ChainParams =
  Name :: string
  DataDirName :: string
  NetworkMagic :: bytes
  DefaultPort :: u16
  AddressPrefix :: byte
  GenesisBlock :: Block
  GenesisHash :: hash
  TargetBlockSpacing :: duration
  RetargetInterval :: u32
  TargetTimespan :: duration
  MaxTimeFutureDrift :: duration
  MinTimestampRule :: string
  InitialBits :: u32
  MinBits :: u32
  NoRetarget :: bool
  MaxBlockSize :: u32
  MaxBlockTxCount :: u32
  InitialSubsidy :: u64
  SubsidyHalvingInterval :: u32
  CoinbaseMaturity :: u32
  MaxReorgDepth :: u32
  MaxMempoolSize :: u32
  MinRelayTxFee :: u64
  SeedNodes :: "string list"
  ActivationHeights :: "(string \<times> u32) list"

definition CalcSubsidy :: "ChainParams \<Rightarrow> u32 \<Rightarrow> u64" where
  "CalcSubsidy p height =
     (if SubsidyHalvingInterval p = 0 then InitialSubsidy p
      else let halvings = height div SubsidyHalvingInterval p in
           if halvings \<ge> 64 then 0 else drop_bit (unat halvings) (InitialSubsidy p))"

section \<open>Genesis (genesis.go)\<close>

record GenesisConfig =
  NetworkName :: string
  CoinbaseMessage :: bytes
  gc_Timestamp :: u32
  gc_Bits :: u32
  gc_Version :: u32
  Reward :: u64
  RewardScript :: bytes
  ExtraOutputs :: "TxOutput list"

definition BuildGenesisBlock :: "GenesisConfig \<Rightarrow> Block" where
  "BuildGenesisBlock cfg =
     (let outputs = \<lparr>Value = Reward cfg, PkScript = RewardScript cfg\<rparr> # ExtraOutputs cfg;
          coinbaseTx = \<lparr>tx_Version = 1,
            Inputs = [\<lparr>PreviousOutPoint = CoinbaseOutPoint, SignatureScript = CoinbaseMessage cfg,
                       Sequence = 0xFFFFFFFF\<rparr>],
            Outputs = outputs, LockTime = 0\<rparr>
      in \<lparr>Header = \<lparr>hdr_Version = gc_Version cfg, PrevBlock = ZeroHash, MerkleRootH = ZeroHash,
                    Timestamp = gc_Timestamp cfg, Bits = gc_Bits cfg, Nonce = 0\<rparr>,
          Transactions = [coinbaseTx]\<rparr>)"

section \<open>The networks (networks.go)\<close>

definition MaxMoneyValue :: u64 where
  "MaxMoneyValue = 2099999997690000"

definition TestnetPremineAmount :: u64 where
  "TestnetPremineAmount = MaxMoneyValue div 5"

definition ascii :: "string \<Rightarrow> bytes" where
  "ascii s = map of_char s"

definition TestnetBurnScript :: bytes where
  "TestnetBurnScript = ascii ''burn:testnet:premine:v1''"

definition Mainnet :: ChainParams where
  "Mainnet = \<lparr>
     Name = ''mainnet'', DataDirName = '''', NetworkMagic = [0xFA, 0x1C, 0xC0, 0x01],
     DefaultPort = 19333, AddressPrefix = 0x00,
     GenesisBlock = \<lparr>
       Header = \<lparr>hdr_Version = 1, PrevBlock = ZeroHash,
         MerkleRootH = [
           0x1a, 0x43, 0xdf, 0x3e, 0xf8, 0x14, 0x0d, 0xbe, 0x47, 0xad, 0xea, 0xdb, 0x14, 0x1b, 0xd4, 0xbb,
           0x74, 0xee, 0x7d, 0x6f, 0x81, 0x44, 0x1c, 0x4d, 0xc0, 0x41, 0x16, 0xf1, 0xb5, 0x01, 0xdc, 0xb5],
         Timestamp = 1773212462, Bits = 0x1e0fffff, Nonce = 433076\<rparr>,
       Transactions = [\<lparr>tx_Version = 1,
         Inputs = [\<lparr>PreviousOutPoint = CoinbaseOutPoint,
                    SignatureScript = ascii ''fairchain mainnet genesis'', Sequence = 0xFFFFFFFF\<rparr>],
         Outputs = [\<lparr>Value = 5000000000, PkScript = [0x00]\<rparr>],
         LockTime = 0\<rparr>]\<rparr>,
     GenesisHash = [
       0x54, 0x70, 0xb8, 0x1f, 0x36, 0x56, 0xe1, 0xce, 0xa1, 0x57, 0x04, 0x11, 0xe3, 0x39, 0x66, 0xec,
       0xb8, 0xce, 0x12, 0x7a, 0x8c, 0x5c, 0xef, 0x20, 0xe8, 0x82, 0xab, 0xed, 0xb0, 0x0d, 0x00, 0x00],
     TargetBlockSpacing = 10 * Minute, RetargetInterval = 144, TargetTimespan = 144 * 10 * Minute,
     MaxTimeFutureDrift = 2 * Hour, MinTimestampRule = ''median-11'',
     InitialBits = 0x1e0fffff, MinBits = 0x1e0fffff, NoRetarget = False,
     MaxBlockSize = 1000000, MaxBlockTxCount = 10000,
     InitialSubsidy = 5000000000, SubsidyHalvingInterval = 210000,
     CoinbaseMaturity = 100, MaxReorgDepth = 288, MaxMempoolSize = 5000, MinRelayTxFee = 1000,
     SeedNodes = [], ActivationHeights = []\<rparr>"

definition Testnet :: ChainParams where
  "Testnet = \<lparr>
     Name = ''testnet'', DataDirName = ''testnet2'', NetworkMagic = [0xFA, 0x1C, 0xC0, 0x02],
     DefaultPort = 19334, AddressPrefix = 0x6F,
     GenesisBlock = \<lparr>
       Header = \<lparr>hdr_Version = 1, PrevBlock = ZeroHash,
         MerkleRootH = [
           0xb5, 0x8a, 0xb7, 0x94, 0xe8, 0x13, 0x5d, 0x55, 0xf9, 0x7b, 0x93, 0x7f, 0xbb, 0x19, 0xca, 0xa3,
           0xe4, 0x3b, 0xd0, 0x3f, 0xe6, 0x0b, 0x4e, 0x08, 0x19, 0x0a, 0xf5, 0x44, 0x52, 0xce, 0xd2, 0x3a],
         Timestamp = 1773533803, Bits = 0x1e07ffff, Nonce = 3715263\<rparr>,
       Transactions = [\<lparr>tx_Version = 1,
         Inputs = [\<lparr>PreviousOutPoint = CoinbaseOutPoint,
                    SignatureScript = ascii ''fairchain testnet genesis'', Sequence = 0xFFFFFFFF\<rparr>],
         Outputs = [\<lparr>Value = 50000000, PkScript = [0x00]\<rparr>,
                    \<lparr>Value = TestnetPremineAmount, PkScript = TestnetBurnScript\<rparr>],
         LockTime = 0\<rparr>]\<rparr>,
     GenesisHash = [
       0xce, 0x06, 0xa5, 0x41, 0x25, 0x84, 0xc9, 0x47, 0xdb, 0xa7, 0x4e, 0x7a, 0xfe, 0x9e, 0x00, 0x0e,
       0x07, 0xe1, 0xa2, 0x46, 0x55, 0xbc, 0x4f, 0x01, 0xa6, 0x1c, 0x1f, 0x56, 0x0a, 0x00, 0x00, 0x00],
     TargetBlockSpacing = 5 * Second, RetargetInterval = 20, TargetTimespan = 20 * 5 * Second,
     MaxTimeFutureDrift = 2 * Minute, MinTimestampRule = ''median-11'',
     InitialBits = 0x1e07ffff, MinBits = 0x1e0fffff, NoRetarget = False,
     MaxBlockSize = 2000000, MaxBlockTxCount = 10000,
     InitialSubsidy = 50000000, SubsidyHalvingInterval = 21000000,
     CoinbaseMaturity = 10, MaxReorgDepth = 1000, MaxMempoolSize = 5000, MinRelayTxFee = 100,
     SeedNodes = [''45.32.196.26:19334'', ''207.148.9.169:19334''], ActivationHeights = []\<rparr>"

text \<open>The zero values Go gives to struct fields that a literal leaves out.\<close>

definition zeroBlock :: Block where
  "zeroBlock = \<lparr>Header = \<lparr>hdr_Version = 0, PrevBlock = ZeroHash, MerkleRootH = ZeroHash,
     Timestamp = 0, Bits = 0, Nonce = 0\<rparr>, Transactions = []\<rparr>"

definition Regtest :: ChainParams where
  "Regtest = \<lparr>
     Name = ''regtest'', DataDirName = ''regtest'', NetworkMagic = [0xFA, 0x1C, 0xC0, 0xFF],
     DefaultPort = 19444, AddressPrefix = 0x6F,
     GenesisBlock = zeroBlock, GenesisHash = ZeroHash,
     TargetBlockSpacing = 1 * Second, RetargetInterval = 1, TargetTimespan = 1 * Second,
     MaxTimeFutureDrift = 10 * Minute, MinTimestampRule = ''prev+1'',
     InitialBits = 0x207fffff, MinBits = 0x207fffff, NoRetarget = True,
     MaxBlockSize = 4000000, MaxBlockTxCount = 50000,
     InitialSubsidy = 5000000000, SubsidyHalvingInterval = 150,
     CoinbaseMaturity = 1, MaxReorgDepth = 0, MaxMempoolSize = 10000, MinRelayTxFee = 0,
     SeedNodes = [], ActivationHeights = []\<rparr>"

text \<open>\<open>NetworkByName\<close> returns a nil pointer for an unknown name.\<close>

definition NetworkByName :: "string \<Rightarrow> ChainParams option" where
  "NetworkByName name =
     (if name = ''mainnet'' then Some Mainnet
      else if name = ''testnet'' then Some Testnet
      else if name = ''regtest'' then Some Regtest
      else None)"

definition InitGenesis :: "ChainParams \<Rightarrow> Block \<Rightarrow> hash \<Rightarrow> ChainParams" where
  "InitGenesis p genesisBlock genesisHash =
     p\<lparr>GenesisBlock := genesisBlock, GenesisHash := genesisHash\<rparr>"

section \<open>The subsidy schedule\<close>

lemma unat_CalcSubsidy:
  assumes "SubsidyHalvingInterval p \<noteq> 0"
  shows "unat (CalcSubsidy p h) =
    (if unat h div unat (SubsidyHalvingInterval p) \<ge> 64 then 0
     else unat (InitialSubsidy p) div 2 ^ (unat h div unat (SubsidyHalvingInterval p)))"
  using assms
  by (simp add: CalcSubsidy_def Let_def word_le_nat_alt unat_div unat_drop_bit_eq
      drop_bit_eq_div [where 'a = nat])

lemma sum_eras:
  fixes g :: "nat \<Rightarrow> nat"
  assumes "0 < I"
  shows "(\<Sum>h<I * n. g (h div I)) = I * (\<Sum>i<n. g i)"
proof -
  have "(\<Sum>h<I * n. g (h div I)) = (\<Sum>m<n. \<Sum>h\<in>{m * I..<m * I + I}. g (h div I))"
    by (simp add: sum.nat_group mult.commute)
  also have "\<dots> = (\<Sum>m<n. I * g m)"
  proof (rule sum.cong [OF refl])
    fix m
    have "h div I = m" if "h \<in> {m * I..<m * I + I}" for h
      using that by (intro div_nat_eqI) (auto simp: mult.commute)
    then show "(\<Sum>h\<in>{m * I..<m * I + I}. g (h div I)) = I * g m" by simp
  qed
  finally show ?thesis by (simp add: sum_distrib_left)
qed

text \<open>All blocks together never pay more than the sum over the 64 eras.\<close>

lemma subsidy_sum_bound:
  fixes S I :: nat
  assumes "0 < I"
  shows "(\<Sum>h<n. if h div I \<ge> 64 then 0 else S div 2 ^ (h div I)) \<le> I * (\<Sum>i<64. S div 2 ^ i)"
proof -
  let ?g = "\<lambda>i. if i \<ge> 64 then 0 else S div 2 ^ i"
  have "n \<le> 64 + n" by simp
  also have "\<dots> \<le> I * (64 + n)" using assms by (cases I) auto
  finally have "(\<Sum>h<n. ?g (h div I)) \<le> (\<Sum>h<I * (64 + n). ?g (h div I))"
    by (intro sum_mono2) auto
  also have "\<dots> = I * (\<Sum>i<64 + n. ?g i)" by (rule sum_eras [OF assms])
  also have "(\<Sum>i<64 + n. ?g i) = (\<Sum>i<64. ?g i)"
    by (rule sum.mono_neutral_right) auto
  also have "(\<Sum>i<64. ?g i) = (\<Sum>i<64. S div 2 ^ i)" by (rule sum.cong) auto
  finally show ?thesis .
qed

lemma mainnet_eras: "210000 * (\<Sum>i<64. (5000000000::nat) div 2 ^ i) = 2099999997690000"
proof -
  have "(\<Sum>i<64. (5000000000::nat) div 2 ^ i) = sum_list (map (\<lambda>i. 5000000000 div 2 ^ i) [0..<64])"
    by (simp add: interv_sum_list_conv_sum_set_nat atLeast0LessThan)
  also have "\<dots> = 9999999989" by (simp add: upt_conv_Cons)
  finally show ?thesis by simp
qed

end
