(* ===== verification/Sha256.thy ===== *)
theory Sha256
  imports Prelude
begin

text \<open>
  \<open>sha256.Sum256\<close> of Go's standard library, which every hash of the sources rests on, as an
  executable definition: the padding, the message schedule and the compression function of
  FIPS 180-4 on 32-bit words. The hashing definitions of the other theories take the digest
  function as an argument and rely on its output length only; this theory provides the
  function the sources use and discharges that law.
\<close>

text \<open>The round constants of the standard, in decimal.\<close>

definition sha_K :: "u32 list" where
  "sha_K = [
     1116352408, 1899447441, 3049323471, 3921009573, 961987163, 1508970993, 2453635748,
     2870763221, 3624381080, 310598401, 607225278, 1426881987, 1925078388, 2162078206,
     2614888103, 3248222580, 3835390401, 4022224774, 264347078, 604807628, 770255983,
     1249150122, 1555081692, 1996064986, 2554220882, 2821834349, 2952996808, 3210313671,
     3336571891, 3584528711, 113926993, 338241895, 666307205, 773529912, 1294757372,
     1396182291, 1695183700, 1986661051, 2177026350, 2456956037, 2730485921, 2820302411,
     3259730800, 3345764771, 3516065817, 3600352804, 4094571909, 275423344, 430227734,
     506948616, 659060556, 883997877, 958139571, 1322822218, 1537002063, 1747873779,
     1955562222, 2024104815, 2227730452, 2361852424, 2428436474, 2756734187, 3204031479,
     3329325298]"

definition sha_H0 :: "u32 list" where
  "sha_H0 = [0x6a09e667, 0xbb67ae85, 0x3c6ef372, 0xa54ff53a,
             0x510e527f, 0x9b05688c, 0x1f83d9ab, 0x5be0cd19]"

definition rotr :: "nat \<Rightarrow> u32 \<Rightarrow> u32" where
  "rotr n w = drop_bit n w OR push_bit (32 - n) w"

definition sha_pad :: "bytes \<Rightarrow> bytes" where
  "sha_pad m =
     m @ [0x80] @ replicate ((119 - length m mod 64) mod 64) 0
     @ rev (PutUint64 (of_nat (8 * length m)))"

fun be_words :: "bytes \<Rightarrow> u32 list" where
  "be_words (a # b # c # d # r) = getLE [d, c, b, a] # be_words r"
| "be_words _ = []"

fun chunks16 :: "u32 list \<Rightarrow> u32 list list" where
  "chunks16 ws = (if length ws < 16 then [] else take 16 ws # chunks16 (drop 16 ws))"

definition sha_sig0 :: "u32 \<Rightarrow> u32" where
  "sha_sig0 x = rotr 7 x XOR rotr 18 x XOR drop_bit 3 x"

definition sha_sig1 :: "u32 \<Rightarrow> u32" where
  "sha_sig1 x = rotr 17 x XOR rotr 19 x XOR drop_bit 10 x"

definition sha_Sum0 :: "u32 \<Rightarrow> u32" where
  "sha_Sum0 x = rotr 2 x XOR rotr 13 x XOR rotr 22 x"

definition sha_Sum1 :: "u32 \<Rightarrow> u32" where
  "sha_Sum1 x = rotr 6 x XOR rotr 11 x XOR rotr 25 x"

definition sha_ch :: "u32 \<Rightarrow> u32 \<Rightarrow> u32 \<Rightarrow> u32" where
  "sha_ch e f g = (e AND f) XOR (NOT e AND g)"

definition sha_maj :: "u32 \<Rightarrow> u32 \<Rightarrow> u32 \<Rightarrow> u32" where
  "sha_maj a b c = (a AND b) XOR (a AND c) XOR (b AND c)"

text \<open>The schedule is kept newest word first while it is extended.\<close>

primrec sha_extend :: "nat \<Rightarrow> u32 list \<Rightarrow> u32 list" where
  "sha_extend 0 ws = ws"
| "sha_extend (Suc n) ws =
     sha_extend n ((ws ! 15 + sha_sig0 (ws ! 14) + ws ! 6 + sha_sig1 (ws ! 1)) # ws)"

text \<open>One round on the eight working variables, with the round's two sums as arguments.\<close>

fun sha_shift :: "u32 \<Rightarrow> u32 \<Rightarrow> u32 list \<Rightarrow> u32 list" where
  "sha_shift t1 t2 [a, b, c, d, e, f, g, h] = [t1 + t2, a, b, c, d + t1, e, f, g]"
| "sha_shift t1 t2 st = st"

fun sha_round :: "u32 \<times> u32 \<Rightarrow> u32 list \<Rightarrow> u32 list" where
  "sha_round (k, w) [a, b, c, d, e, f, g, h] =
     sha_shift (h + sha_Sum1 e + sha_ch e f g + k + w) (sha_Sum0 a + sha_maj a b c) [a, b, c, d, e, f, g, h]"
| "sha_round kw st = st"

definition sha_compress :: "u32 list \<Rightarrow> u32 list \<Rightarrow> u32 list" where
  "sha_compress blk st =
     map2 (+) st (fold sha_round (zip sha_K (rev (sha_extend 48 (rev blk)))) st)"

definition Sum256 :: "bytes \<Rightarrow> bytes" where
  "Sum256 m =
     concat (map (\<lambda>w. rev (PutUint32 w)) (fold sha_compress (chunks16 (be_words (sha_pad m))) sha_H0))"

section \<open>The output is 32 bytes\<close>

lemma length_sha_round [simp]: "length (sha_round kw st) = length st"
  by (cases "(kw, st)" rule: sha_round.cases) simp_all

lemma length_fold_sha_round [simp]: "length (fold sha_round kws st) = length st"
  by (induction kws arbitrary: st) auto

lemma length_sha_compress [simp]: "length (sha_compress blk st) = length st"
  by (simp add: sha_compress_def)

lemma length_fold_sha_compress [simp]: "length (fold sha_compress bs st) = length st"
  by (induction bs arbitrary: st) auto

lemma length_concat_words: "length (concat (map (\<lambda>w. rev (PutUint32 w)) ws)) = 4 * length ws"
  by (induction ws) auto

lemma length_Sum256: "length (Sum256 m) = 32"
  by (simp add: Sum256_def length_concat_words) (simp add: sha_H0_def)

interpretation sha256: digest Sum256
  by unfold_locales (rule length_Sum256)

end
