(* ===== verification/Hashing.thy ===== *)
theory Hashing
  imports Block Sha256
begin

text \<open>
  Consensus hashing (\<open>internal/crypto/hash.go\<close>) and the Merkle tree
  (\<open>internal/crypto/merkle.go\<close>). The digest function is the argument \<open>sha\<close>, which the
  sources instantiate with \<open>sha256.Sum256\<close>; the laws proved here use its 32-byte output only.
  \<open>HashFromBytes\<close> never panics on a digest, so \<open>DoubleSHA256\<close> is total.
\<close>

section \<open>Hashing (hash.go)\<close>

definition DoubleSHA256 :: "(bytes \<Rightarrow> bytes) \<Rightarrow> bytes \<Rightarrow> hash" where
  "DoubleSHA256 sha data = sha (sha data)"

definition HashBlockHeader :: "(bytes \<Rightarrow> bytes) \<Rightarrow> BlockHeader \<Rightarrow> hash" where
  "HashBlockHeader sha h = DoubleSHA256 sha (Header_SerializeToBytes h)"

definition HashTransaction :: "(bytes \<Rightarrow> bytes) \<Rightarrow> Transaction \<Rightarrow> hash" where
  "HashTransaction sha tx = DoubleSHA256 sha (SerializeToBytes tx)"

context digest
begin

lemma length_DoubleSHA256: "length (DoubleSHA256 sha data) = 32"
  by (simp add: DoubleSHA256_def length_sha)

lemma HashFromBytes_no_panic: "HashFromBytes (sha (sha data)) = Some (DoubleSHA256 sha data)"
  by (simp add: HashFromBytes_def HashSize_def DoubleSHA256_def length_sha)

lemma wf_HashBlockHeader: "wf_hash (HashBlockHeader sha h)"
  by (simp add: wf_hash_def HashBlockHeader_def length_DoubleSHA256)

lemma wf_HashTransaction: "wf_hash (HashTransaction sha tx)"
  by (simp add: wf_hash_def HashTransaction_def length_DoubleSHA256)

end

section \<open>Merkle trees (merkle.go)\<close>

text \<open>One pass of the inner loop: adjacent pairs are hashed together.\<close>

fun merkleNext :: "(bytes \<Rightarrow> bytes) \<Rightarrow> hash list \<Rightarrow> hash list" where
  "merkleNext sha (a # b # r) = DoubleSHA256 sha (a @ b) # merkleNext sha r"
| "merkleNext sha _ = []"

definition merklePad :: "hash list \<Rightarrow> hash list" where
  "merklePad level = (if length level mod 2 \<noteq> 0 then level @ [last level] else level)"

lemma length_merkleNext: "length (merkleNext sha xs) = length xs div 2"
  by (induction sha xs rule: merkleNext.induct) auto

lemma length_merklePad: "length (merklePad xs) = 2 * ((length xs + 1) div 2)"
  unfolding merklePad_def by (simp; presburger)

function merkleLoop :: "(bytes \<Rightarrow> bytes) \<Rightarrow> hash list \<Rightarrow> hash list" where
  "merkleLoop sha level =
     (if length level > 1 then merkleLoop sha (merkleNext sha (merklePad level)) else level)"
  by pat_completeness auto
termination
  by (relation "measure (\<lambda>(sha, level). length level)")
    (auto simp: length_merkleNext length_merklePad)

declare merkleLoop.simps [simp del]

definition MerkleRoot :: "(bytes \<Rightarrow> bytes) \<Rightarrow> hash list \<Rightarrow> hash" where
  "MerkleRoot sha hashes = (if hashes = [] then ZeroHash else merkleLoop sha hashes ! 0)"

definition ComputeMerkleRoot :: "(bytes \<Rightarrow> bytes) \<Rightarrow> Transaction list \<Rightarrow> hash" where
  "ComputeMerkleRoot sha txs =
     (if txs = [] then ZeroHash else MerkleRoot sha (map (HashTransaction sha) txs))"

section \<open>What the root commits to\<close>

text \<open>The byte strings hashed while the tree over \<open>level\<close> is built.\<close>

fun merklePairs :: "hash list \<Rightarrow> bytes list" where
  "merklePairs (a # b # r) = (a @ b) # merklePairs r"
| "merklePairs _ = []"

function merkleInputs :: "(bytes \<Rightarrow> bytes) \<Rightarrow> hash list \<Rightarrow> bytes list" where
  "merkleInputs sha level =
     (if length level > 1
      then merklePairs (merklePad level) @ merkleInputs sha (merkleNext sha (merklePad level))
      else [])"
  by pat_completeness auto
termination
  by (relation "measure (\<lambda>(sha, level). length level)")
    (auto simp: length_merkleNext length_merklePad)

declare merkleInputs.simps [simp del]

lemma merkleNext_pairs: "merkleNext sha xs = map (DoubleSHA256 sha) (merklePairs xs)"
  by (induction xs rule: merklePairs.induct) auto

lemma merklePairs_inj:
  assumes "length xs = length ys" "even (length xs)" "list_all wf_hash xs" "list_all wf_hash ys"
    and "merklePairs xs = merklePairs ys"
  shows "xs = ys"
  using assms
proof (induction xs arbitrary: ys rule: merklePairs.induct)
  case (1 a b r)
  then obtain a' b' r' where ys: "ys = a' # b' # r'"
    by (metis length_Suc_conv)
  with 1 show ?case by (auto simp: wf_hash_def)
next
  case "2_1"
  then show ?case by simp
next
  case "2_2"
  then have "even (Suc 0)" by simp
  then show ?case by simp
qed

lemma merklePad_inj:
  "length xs = length ys \<Longrightarrow> merklePad xs = merklePad ys \<Longrightarrow> xs = ys"
  by (auto simp: merklePad_def split: if_splits)

lemma merklePad_wf: "xs \<noteq> [] \<Longrightarrow> list_all wf_hash xs \<Longrightarrow> list_all wf_hash (merklePad xs)"
  by (auto simp: merklePad_def list_all_iff)

lemma merkleLoop_length: "xs \<noteq> [] \<Longrightarrow> length (merkleLoop sha xs) = 1"
proof (induction sha xs rule: merkleLoop.induct)
  case (1 sha level)
  show ?case
  proof (cases "length level > 1")
    case True
    then have "length (merkleNext sha (merklePad level)) \<noteq> 0"
      by (simp add: length_merkleNext length_merklePad)
    with 1 True show ?thesis by (subst merkleLoop.simps) auto
  next
    case False
    with 1 show ?thesis by (subst merkleLoop.simps) (auto simp: not_less le_Suc_eq)
  qed
qed

context digest
begin

lemma wf_merkleNext: "list_all wf_hash (merkleNext sha xs)"
  unfolding merkleNext_pairs by (simp add: list_all_iff wf_hash_def length_DoubleSHA256)

lemma merkleLoop_inj:
  assumes "length xs = length ys" "list_all wf_hash xs" "list_all wf_hash ys"
    and "inj_on (DoubleSHA256 sha) (set (merkleInputs sha xs) \<union> set (merkleInputs sha ys))"
    and "merkleLoop sha xs = merkleLoop sha ys"
  shows "xs = ys"
  using assms
proof (induction xs arbitrary: ys rule: measure_induct_rule [of length])
  case (less xs)
  show ?case
  proof (cases "length xs > 1")
    case False
    with less.prems(1,5) show ?thesis
      by (simp add: merkleLoop.simps [of sha xs] merkleLoop.simps [of sha ys])
  next
    case True
    let ?nx = "merkleNext sha (merklePad xs)" and ?ny = "merkleNext sha (merklePad ys)"
    have ne: "xs \<noteq> []" "ys \<noteq> []" "length ys > 1" using True less.prems(1) by auto
    have in_x: "set (merkleInputs sha xs) = set (merklePairs (merklePad xs)) \<union> set (merkleInputs sha ?nx)"
      and in_y: "set (merkleInputs sha ys) = set (merklePairs (merklePad ys)) \<union> set (merkleInputs sha ?ny)"
      using True ne(3) by (simp_all add: merkleInputs.simps [of sha xs] merkleInputs.simps [of sha ys])
    have len: "length (merklePad xs) = length (merklePad ys)" "even (length (merklePad xs))"
      using less.prems(1) by (simp_all add: length_merklePad)
    have "?nx = ?ny"
    proof (rule less.IH)
      show "length ?nx < length xs" using True by (simp add: length_merkleNext length_merklePad)
      show "length ?nx = length ?ny" using len by (simp add: length_merkleNext)
      show "inj_on (DoubleSHA256 sha) (set (merkleInputs sha ?nx) \<union> set (merkleInputs sha ?ny))"
        using less.prems(4) unfolding in_x in_y by (rule inj_on_subset) auto
      show "merkleLoop sha ?nx = merkleLoop sha ?ny"
        using less.prems(5) True ne(3)
        by (simp add: merkleLoop.simps [of sha xs] merkleLoop.simps [of sha ys])
    qed (simp_all add: wf_merkleNext)
    moreover have "inj_on (DoubleSHA256 sha)
        (set (merklePairs (merklePad xs)) \<union> set (merklePairs (merklePad ys)))"
      using less.prems(4) unfolding in_x in_y by (rule inj_on_subset) auto
    ultimately have "merklePairs (merklePad xs) = merklePairs (merklePad ys)"
      unfolding merkleNext_pairs by (simp add: inj_on_map_eq_map)
    then have "merklePad xs = merklePad ys"
      using merklePairs_inj len less.prems(2,3) ne merklePad_wf by blast
    with less.prems(1) show ?thesis by (rule merklePad_inj)
  qed
qed

end

text \<open>Duplicating the last element of an odd level does not change the root.\<close>

lemma MerkleRoot_dup_last:
  assumes "odd (length xs)" "length xs > 1"
  shows "MerkleRoot sha (xs @ [last xs]) = MerkleRoot sha xs"
proof -
  have "merklePad (xs @ [last xs]) = merklePad xs"
    using assms by (simp add: merklePad_def odd_iff_mod_2_eq_one)
  with assms show ?thesis
    by (simp add: MerkleRoot_def merkleLoop.simps [of sha xs] merkleLoop.simps [of sha "xs @ [last xs]"])
       (auto simp: MerkleRoot_def)
qed

end
