(* ===== verification/Keys.thy ===== *)
theory Keys
  imports Hashing
begin

text \<open>
  Keys, standard scripts and signatures (\<open>internal/crypto/keys.go\<close>, \<open>signature.go\<close>). The
  elliptic-curve package and RIPEMD-160 are third-party code: they are the fields of the record
  \<open>crypto_lib\<close>, an argument of every definition that calls them. What signing and verifying
  relies on of that package is the predicate \<open>ecdsa_correct\<close>.
\<close>

record ('sg, 'pk, 'sk) crypto_lib =
  lib_sha :: "bytes \<Rightarrow> bytes"
  lib_ripemd160 :: "bytes \<Rightarrow> bytes"
  ParseDERSignature :: "bytes \<Rightarrow> 'sg option"
  ParsePubKey :: "bytes \<Rightarrow> 'pk option"
  sigVerify :: "'sg \<Rightarrow> bytes \<Rightarrow> 'pk \<Rightarrow> bool"
  lib_PrivKeyFromBytes :: "bytes \<Rightarrow> 'sk"
  ecdsaSign :: "'sk \<Rightarrow> bytes \<Rightarrow> 'sg"
  sigSerialize :: "'sg \<Rightarrow> bytes"
  privPubKey :: "'sk \<Rightarrow> 'pk"
  SerializeCompressed :: "'pk \<Rightarrow> bytes"

definition PrivKeySize :: nat where "PrivKeySize = 32"
definition CompressedPubSize :: nat where "CompressedPubSize = 33"
definition PubKeyHashSize :: nat where "PubKeyHashSize = 20"

datatype key_error =
    PrivKeyLength nat
  | PubKeyLength nat
  | PubKeyInvalid
  | SigHashIndex int nat
  | SigTooShort nat
  | SigHashType byte
  | SigDER
  | SigVerifyFailed

definition PrivKeyFromBytes :: "('sg, 'pk, 'sk) crypto_lib \<Rightarrow> bytes \<Rightarrow> (key_error, 'sk) res" where
  "PrivKeyFromBytes L b =
     (if length b \<noteq> PrivKeySize then Inl (PrivKeyLength (length b))
      else Inr (lib_PrivKeyFromBytes L b))"

definition PubKeyFromBytes :: "('sg, 'pk, 'sk) crypto_lib \<Rightarrow> bytes \<Rightarrow> (key_error, 'pk) res" where
  "PubKeyFromBytes L b =
     (if length b \<noteq> CompressedPubSize then Inl (PubKeyLength (length b))
      else case ParsePubKey L b of None \<Rightarrow> Inl PubKeyInvalid | Some pk \<Rightarrow> Inr pk)"

text \<open>\<open>copy(out[:], rip.Sum(nil))\<close> fills an array of 20 bytes.\<close>

definition Hash160 :: "('sg, 'pk, 'sk) crypto_lib \<Rightarrow> bytes \<Rightarrow> bytes" where
  "Hash160 L data =
     (let rip = lib_ripemd160 L (lib_sha L data) in
      take 20 rip @ replicate (20 - length rip) 0)"

definition PubKeyHash :: "('sg, 'pk, 'sk) crypto_lib \<Rightarrow> bytes \<Rightarrow> bytes" where
  "PubKeyHash L compressedPubKey = Hash160 L compressedPubKey"

section \<open>Standard scripts\<close>

definition OpDup :: byte where "OpDup = 0x76"
definition OpHash160 :: byte where "OpHash160 = 0xa9"
definition OpEqualVerify :: byte where "OpEqualVerify = 0x88"
definition OpCheckSig :: byte where "OpCheckSig = 0xac"

lemmas key_opcodes = OpDup_def OpHash160_def OpEqualVerify_def OpCheckSig_def

definition MakeP2PKHScript :: "bytes \<Rightarrow> bytes" where
  "MakeP2PKHScript pubKeyHash =
     [OpDup, OpHash160, 0x14] @ pubKeyHash @ [OpEqualVerify, OpCheckSig]"

definition MakeP2PKHScriptFromPubKey :: "('sg, 'pk, 'sk) crypto_lib \<Rightarrow> bytes \<Rightarrow> bytes" where
  "MakeP2PKHScriptFromPubKey L compressedPubKey = MakeP2PKHScript (PubKeyHash L compressedPubKey)"

definition MakeP2PKHSignatureScript :: "bytes \<Rightarrow> bytes \<Rightarrow> bytes" where
  "MakeP2PKHSignatureScript sig compressedPubKey =
     [of_nat (length sig)] @ sig @ [of_nat (length compressedPubKey)] @ compressedPubKey"

definition IsP2PKHScript :: "bytes \<Rightarrow> bool" where
  "IsP2PKHScript script \<longleftrightarrow>
     length script = 25 \<and> script ! 0 = OpDup \<and> script ! 1 = OpHash160 \<and> script ! 2 = 0x14
     \<and> script ! 23 = OpEqualVerify \<and> script ! 24 = OpCheckSig"

definition ExtractP2PKHHash :: "bytes \<Rightarrow> bytes option" where
  "ExtractP2PKHHash script =
     (if \<not> IsP2PKHScript script then None else Some (slice 3 23 script))"

definition IsUnspendableScript :: "bytes \<Rightarrow> bool" where
  "IsUnspendableScript script \<longleftrightarrow>
     (if length script = 0 then True else if script ! 0 = 0x6a then True else False)"

definition MakeOpReturnScript :: "bytes \<Rightarrow> bytes" where
  "MakeOpReturnScript data =
     (let data = (if length data > 80 then take 80 data else data) in
      [0x6a] @ [of_nat (length data)] @ data)"

section \<open>Signature hashes\<close>

definition SigHashAll :: byte where "SigHashAll = 0x01"

definition sigHashCopy :: "Transaction \<Rightarrow> nat \<Rightarrow> bytes \<Rightarrow> Transaction" where
  "sigHashCopy tx inputIdx subscript =
     \<lparr>tx_Version = tx_Version tx,
      Inputs = map (\<lambda>i. \<lparr>PreviousOutPoint = PreviousOutPoint (Inputs tx ! i),
                         SignatureScript = (if i = inputIdx then subscript else []),
                         Sequence = Sequence (Inputs tx ! i)\<rparr>) [0..<length (Inputs tx)],
      Outputs = Outputs tx,
      LockTime = LockTime tx\<rparr>"

definition ComputeSigHash :: "('sg, 'pk, 'sk) crypto_lib \<Rightarrow> Transaction \<Rightarrow> int \<Rightarrow> bytes \<Rightarrow> (key_error, hash) res" where
  "ComputeSigHash L tx inputIdx subscript =
     (if inputIdx < 0 \<or> inputIdx \<ge> int (length (Inputs tx))
      then Inl (SigHashIndex inputIdx (length (Inputs tx)))
      else Inr (DoubleSHA256 (lib_sha L)
             (SerializeToBytes (sigHashCopy tx (nat inputIdx) subscript) @ [SigHashAll, 0, 0, 0])))"

section \<open>Signing and verifying\<close>

definition SignTransaction :: "('sg, 'pk, 'sk) crypto_lib \<Rightarrow> Transaction \<Rightarrow> int \<Rightarrow> bytes \<Rightarrow> 'sk \<Rightarrow> (key_error, bytes) res" where
  "SignTransaction L tx inputIdx subscript privKey =
     bindR (ComputeSigHash L tx inputIdx subscript) (\<lambda>sigHash.
       Inr (sigSerialize L (ecdsaSign L privKey sigHash) @ [SigHashAll]))"

definition VerifySignature :: "('sg, 'pk, 'sk) crypto_lib \<Rightarrow> Transaction \<Rightarrow> int \<Rightarrow> bytes \<Rightarrow> bytes \<Rightarrow> 'pk \<Rightarrow> (key_error, unit) res" where
  "VerifySignature L tx inputIdx subscript sigWithHashType pubKey =
     (if length sigWithHashType < 2 then Inl (SigTooShort (length sigWithHashType))
      else
        let hashType = last sigWithHashType in
        if hashType \<noteq> SigHashAll then Inl (SigHashType hashType)
        else case ParseDERSignature L (butlast sigWithHashType) of
               None \<Rightarrow> Inl SigDER
             | Some sig \<Rightarrow>
                 bindR (ComputeSigHash L tx inputIdx subscript) (\<lambda>sigHash.
                   if \<not> sigVerify L sig sigHash pubKey then Inl SigVerifyFailed else Inr ()))"

definition SignInput :: "('sg, 'pk, 'sk) crypto_lib \<Rightarrow> Transaction \<Rightarrow> int \<Rightarrow> bytes \<Rightarrow> 'sk \<Rightarrow> (key_error, bytes) res" where
  "SignInput L tx inputIdx prevPkScript privKey =
     bindR (SignTransaction L tx inputIdx prevPkScript privKey) (\<lambda>sig.
       Inr (MakeP2PKHSignatureScript sig (SerializeCompressed L (privPubKey L privKey))))"

text \<open>
  Documented behaviour of the curve package: parsing inverts serialization, a compressed key has
  33 bytes, a DER signature has between 1 and 72 bytes, and a signature made with a key verifies
  under the public key of that key.
\<close>

definition ecdsa_correct :: "('sg, 'pk, 'sk) crypto_lib \<Rightarrow> bool" where
  "ecdsa_correct L \<longleftrightarrow>
     (\<forall>sg. ParseDERSignature L (sigSerialize L sg) = Some sg)
     \<and> (\<forall>pk. ParsePubKey L (SerializeCompressed L pk) = Some pk)
     \<and> (\<forall>pk. length (SerializeCompressed L pk) = CompressedPubSize)
     \<and> (\<forall>sg. 1 \<le> length (sigSerialize L sg) \<and> length (sigSerialize L sg) \<le> 72)
     \<and> (\<forall>sk h. sigVerify L (ecdsaSign L sk h) h (privPubKey L sk))"

section \<open>Facts about scripts\<close>

lemma length_Hash160 [simp]: "length (Hash160 L d) = 20"
  by (simp add: Hash160_def Let_def)

lemma length_MakeP2PKHScript: "length (MakeP2PKHScript h) = length h + 5"
  by (simp add: MakeP2PKHScript_def)

lemma slice_three: "length xs = 20 \<Longrightarrow> slice 3 23 (a # b # c # xs @ [d, e]) = xs"
  by (simp add: slice_def eval_nat_numeral)

lemma list_25:
  assumes "length (s :: 'a list) = 25"
  shows "s = s ! 0 # s ! 1 # s ! 2 # slice 3 23 s @ [s ! 23, s ! 24]"
  using assms by (auto simp: length_Suc_conv numeral_eq_Suc slice_def)

lemma IsP2PKHScript_iff: "IsP2PKHScript s \<longleftrightarrow> (\<exists>h. length h = 20 \<and> s = MakeP2PKHScript h)"
proof
  assume a: "IsP2PKHScript s"
  then have "s = MakeP2PKHScript (slice 3 23 s)"
    using list_25 [of s] by (simp add: IsP2PKHScript_def MakeP2PKHScript_def)
  moreover have "length (slice 3 23 s) = 20"
    using a by (simp add: IsP2PKHScript_def slice_def)
  ultimately show "\<exists>h. length h = 20 \<and> s = MakeP2PKHScript h" by blast
next
  assume "\<exists>h. length h = 20 \<and> s = MakeP2PKHScript h"
  then show "IsP2PKHScript s"
    by (auto simp: IsP2PKHScript_def MakeP2PKHScript_def nth_append)
qed

lemma ExtractP2PKHHash_Make:
  "length h = 20 \<Longrightarrow> ExtractP2PKHHash (MakeP2PKHScript h) = Some h"
  using IsP2PKHScript_iff slice_three
  by (fastforce simp: ExtractP2PKHHash_def MakeP2PKHScript_def)

section \<open>What a signature hash commits to\<close>

lemma length_sigHashCopy [simp]: "length (Inputs (sigHashCopy tx i sub)) = length (Inputs tx)"
  by (simp add: sigHashCopy_def)

lemma sigHashCopy_nth:
  "j < length (Inputs tx) \<Longrightarrow> Inputs (sigHashCopy tx i sub) ! j =
     \<lparr>PreviousOutPoint = PreviousOutPoint (Inputs tx ! j),
      SignatureScript = (if j = i then sub else []), Sequence = Sequence (Inputs tx ! j)\<rparr>"
  by (simp add: sigHashCopy_def)

lemma wf_sigHashCopy:
  assumes "wf_tx tx" "length sub \<le> 10000"
  shows "wf_tx (sigHashCopy tx i sub)"
  using assms by (auto simp: wf_tx_def wf_input_def sigHashCopy_def list_all_iff)

text \<open>Equal preimages mean equal transactions up to the signature scripts.\<close>

lemma sigHashCopy_inj:
  assumes wf: "wf_tx tx" "wf_tx tx'" "length sub \<le> 10000" "length sub' \<le> 10000"
    and i: "i < length (Inputs tx)" "i' < length (Inputs tx')"
    and ne: "sub \<noteq> []"
    and eq: "SerializeToBytes (sigHashCopy tx i sub) = SerializeToBytes (sigHashCopy tx' i' sub')"
  shows "i = i' \<and> sub = sub' \<and> tx_Version tx = tx_Version tx' \<and> LockTime tx = LockTime tx'
     \<and> Outputs tx = Outputs tx'
     \<and> map PreviousOutPoint (Inputs tx) = map PreviousOutPoint (Inputs tx')
     \<and> map Sequence (Inputs tx) = map Sequence (Inputs tx')"
proof -
  have e: "sigHashCopy tx i sub = sigHashCopy tx' i' sub'"
    using tx.enc_inj [OF wf_sigHashCopy wf_sigHashCopy] wf eq by (simp add: SerializeToBytes_def)
  then have len: "length (Inputs tx) = length (Inputs tx')" by (metis length_sigHashCopy)
  have el: "\<lparr>PreviousOutPoint = PreviousOutPoint (Inputs tx ! j),
      SignatureScript = (if j = i then sub else []), Sequence = Sequence (Inputs tx ! j)\<rparr>
    = \<lparr>PreviousOutPoint = PreviousOutPoint (Inputs tx' ! j),
      SignatureScript = (if j = i' then sub' else []), Sequence = Sequence (Inputs tx' ! j)\<rparr>"
    if "j < length (Inputs tx)" for j
    using e that len by (metis sigHashCopy_nth)
  have "i = i' \<and> sub = sub'"
    using el [OF i(1)] ne by (auto split: if_splits)
  moreover have "tx_Version tx = tx_Version tx' \<and> LockTime tx = LockTime tx' \<and> Outputs tx = Outputs tx'"
    using e by (simp add: sigHashCopy_def)
  moreover have "map PreviousOutPoint (Inputs tx) = map PreviousOutPoint (Inputs tx')"
    and "map Sequence (Inputs tx) = map Sequence (Inputs tx')"
    using el len by (auto intro!: nth_equalityI)
  ultimately show ?thesis by blast
qed

text \<open>The signature scripts themselves are not signed.\<close>

lemma ComputeSigHash_ignores_scripts:
  assumes "tx_Version tx = tx_Version tx'" "LockTime tx = LockTime tx'" "Outputs tx = Outputs tx'"
    and "map PreviousOutPoint (Inputs tx) = map PreviousOutPoint (Inputs tx')"
    and "map Sequence (Inputs tx) = map Sequence (Inputs tx')"
  shows "ComputeSigHash L tx i sub = ComputeSigHash L tx' i sub"
proof -
  have len: "length (Inputs tx) = length (Inputs tx')" using assms(4) map_eq_imp_length_eq by blast
  have "PreviousOutPoint (Inputs tx ! j) = PreviousOutPoint (Inputs tx' ! j)"
    and "Sequence (Inputs tx ! j) = Sequence (Inputs tx' ! j)" if "j < length (Inputs tx')" for j
    using assms(4,5) that len by (metis nth_map)+
  then have "sigHashCopy tx (nat i) sub = sigHashCopy tx' (nat i) sub"
    using assms(1-3) len by (auto simp: sigHashCopy_def)
  then show ?thesis by (simp add: ComputeSigHash_def len)
qed

end
