(* ===== verification/Script.thy ===== *)
theory Script
  imports Keys
begin

text \<open>
  The script engine (\<open>internal/script/script.go\<close>). The stack is a list with its top at the
  head; a script is executed from the list of its unread bytes. \<open>opStep\<close> is the body of the
  \<open>switch\<close>: it returns the stack, the unread bytes and whether the case ends with \<open>continue\<close>,
  which skips the stack size check at the end of the loop body.
\<close>

definition OpFalse :: byte where "OpFalse = 0x00"
definition OpPushData1 :: byte where "OpPushData1 = 0x4c"
definition OpPushData2 :: byte where "OpPushData2 = 0x4d"
definition Op1 :: byte where "Op1 = 0x51"
definition OpEqual :: byte where "OpEqual = 0x87"
definition OpReturn :: byte where "OpReturn = 0x6a"

lemmas opcodes = key_opcodes OpFalse_def OpPushData1_def OpPushData2_def Op1_def OpEqual_def OpReturn_def

definition maxStackSize :: nat where "maxStackSize = 1000"
definition maxScriptSize :: nat where "maxScriptSize = 10000"
definition maxOpsPerScript :: nat where "maxOpsPerScript = 201"
definition maxStackElemSize :: nat where "maxStackElemSize = 520"

lemmas script_limits = maxStackSize_def maxScriptSize_def maxOpsPerScript_def maxStackElemSize_def

datatype script_error =
    EmptyPkScript
  | Unspendable
  | SigScript script_error
  | PkScriptErr script_error
  | EmptyStack
  | EvalFalse
  | CleanStack nat
  | ScriptSize nat
  | MaxOps
  | PushTooShort byte
  | PushTooLarge byte nat
  | MissingLength byte
  | StackUnderflow byte
  | NotEqual
  | OpReturnExecuted
  | UnsupportedOpcode byte
  | StackOverflow nat

type_synonym stack = "bytes list"

record engine =
  eng_tx :: Transaction
  eng_inputIdx :: int
  eng_pkScript :: bytes

fun bytesEqualFrom :: "bytes \<Rightarrow> bytes \<Rightarrow> nat \<Rightarrow> nat \<Rightarrow> bool" where
  "bytesEqualFrom a b i 0 = True"
| "bytesEqualFrom a b i (Suc n) = (if a ! i \<noteq> b ! i then False else bytesEqualFrom a b (Suc i) n)"

definition bytesEqual :: "bytes \<Rightarrow> bytes \<Rightarrow> bool" where
  "bytesEqual a b = (if length a \<noteq> length b then False else bytesEqualFrom a b 0 (length a))"

text \<open>The loop of \<open>isTrue\<close>: \<open>i\<close> is the last index exactly when one byte is left.\<close>

fun isTrue :: "bytes \<Rightarrow> bool" where
  "isTrue [] = False"
| "isTrue (b # bs) =
     (if b \<noteq> 0 then (if bs = [] \<and> b = 0x80 then False else True) else isTrue bs)"

section \<open>The opcodes\<close>

definition pushN :: "byte \<Rightarrow> nat \<Rightarrow> bytes \<Rightarrow> stack \<Rightarrow> (script_error, stack \<times> bytes \<times> bool) res" where
  "pushN op n rest st =
     (if n > length rest then Inl (PushTooShort op)
      else if n > maxStackElemSize then Inl (PushTooLarge op n)
      else Inr (take n rest # st, drop n rest, False))"

definition boolItem :: "bool \<Rightarrow> bytes" where
  "boolItem b = (if b then [1] else [])"

text \<open>\<open>OP_CHECKSIG\<close>; every early exit pushes the empty vector and continues.\<close>

definition checkSig :: "('sg, 'pk, 'sk) crypto_lib \<Rightarrow> engine \<Rightarrow> bytes \<Rightarrow> bytes \<Rightarrow> bytes \<times> bool" where
  "checkSig L e pubKeyBytes sigBytes =
     (if length sigBytes < 2 then ([], True)
      else if last sigBytes \<noteq> SigHashAll then ([], True)
      else case ParseDERSignature L (butlast sigBytes) of
             None \<Rightarrow> ([], True)
           | Some sig \<Rightarrow>
               (case ParsePubKey L pubKeyBytes of
                  None \<Rightarrow> ([], True)
                | Some pubKey \<Rightarrow>
                    (case ComputeSigHash L (eng_tx e) (eng_inputIdx e) (eng_pkScript e) of
                       Inl _ \<Rightarrow> ([], True)
                     | Inr sigHash \<Rightarrow> (boolItem (sigVerify L sig sigHash pubKey), False))))"

definition opStep :: "('sg, 'pk, 'sk) crypto_lib \<Rightarrow> engine \<Rightarrow> byte \<Rightarrow> bytes \<Rightarrow> stack \<Rightarrow> (script_error, stack \<times> bytes \<times> bool) res" where
  "opStep L e op rest st =
     (if op = OpFalse then Inr ([] # st, rest, False)
      else if op \<ge> 0x01 \<and> op \<le> 0x4b then pushN op (unat op) rest st
      else if op = OpPushData1 then
        (case rest of
           [] \<Rightarrow> Inl (MissingLength op)
         | n # r \<Rightarrow> pushN op (unat n) r st)
      else if op = OpPushData2 then
        (case rest of
           lo # hi # r \<Rightarrow> pushN op (unat lo + unat hi * 256) r st
         | _ \<Rightarrow> Inl (MissingLength op))
      else if op = Op1 then Inr ([1] # st, rest, False)
      else if op = OpDup then
        (case st of t # s \<Rightarrow> Inr (t # t # s, rest, False) | _ \<Rightarrow> Inl (StackUnderflow op))
      else if op = OpHash160 then
        (case st of data # s \<Rightarrow> Inr (Hash160 L data # s, rest, False) | _ \<Rightarrow> Inl (StackUnderflow op))
      else if op = OpEqual then
        (case st of b # a # s \<Rightarrow> Inr (boolItem (bytesEqual a b) # s, rest, False)
         | _ \<Rightarrow> Inl (StackUnderflow op))
      else if op = OpEqualVerify then
        (case st of b # a # s \<Rightarrow> if \<not> bytesEqual a b then Inl NotEqual else Inr (s, rest, False)
         | _ \<Rightarrow> Inl (StackUnderflow op))
      else if op = OpCheckSig then
        (case st of pubKeyBytes # sigBytes # s \<Rightarrow>
           (case checkSig L e pubKeyBytes sigBytes of (r, cont) \<Rightarrow> Inr (r # s, rest, cont))
         | _ \<Rightarrow> Inl (StackUnderflow op))
      else if op = OpReturn then Inl OpReturnExecuted
      else Inl (UnsupportedOpcode op))"

lemma pushN_rest: "pushN op n r st = Inr (st', r', c) \<Longrightarrow> length r' \<le> length r"
  by (auto simp: pushN_def split: if_splits)

lemma opStep_rest: "opStep L e op rest st = Inr (st', rest', c) \<Longrightarrow> length rest' \<le> length rest"
  by (auto simp: opStep_def split: if_splits list.splits prod.splits dest!: pushN_rest)

section \<open>The loop\<close>

function execLoop :: "('sg, 'pk, 'sk) crypto_lib \<Rightarrow> engine \<Rightarrow> bytes \<Rightarrow> nat \<Rightarrow> stack \<Rightarrow> (script_error, stack) res" where
  "execLoop L e [] numOps st = Inr st"
| "execLoop L e (op # rest) numOps st =
     (let numOps' = (if op > OpPushData2 then numOps + 1 else numOps) in
      if op > OpPushData2 \<and> numOps' > maxOpsPerScript then Inl MaxOps
      else bindR (opStep L e op rest st) (\<lambda>(st', rest', cont).
             if \<not> cont \<and> length st' > maxStackSize then Inl (StackOverflow (length st'))
             else execLoop L e rest' numOps' st'))"
  by pat_completeness auto
termination
  by (relation "measure (\<lambda>(L, e, script, n, st). length script)")
    (auto dest!: opStep_rest)

definition execute :: "('sg, 'pk, 'sk) crypto_lib \<Rightarrow> engine \<Rightarrow> bytes \<Rightarrow> stack \<Rightarrow> (script_error, stack) res" where
  "execute L e script st =
     (if length script > maxScriptSize then Inl (ScriptSize (length script))
      else execLoop L e script 0 st)"

definition Verify :: "('sg, 'pk, 'sk) crypto_lib \<Rightarrow> bytes \<Rightarrow> bytes \<Rightarrow> Transaction \<Rightarrow> int \<Rightarrow> (script_error, unit) res" where
  "Verify L sigScript pkScript tx inputIdx =
     (if length pkScript = 0 then Inl EmptyPkScript
      else if pkScript ! 0 = OpReturn then Inl Unspendable
      else
        let e = \<lparr>eng_tx = tx, eng_inputIdx = inputIdx, eng_pkScript = pkScript\<rparr> in
        bindR (mapErr SigScript (execute L e sigScript [])) (\<lambda>st1.
        bindR (mapErr PkScriptErr (execute L e pkScript st1)) (\<lambda>st.
          case st of
            [] \<Rightarrow> Inl EmptyStack
          | t # _ \<Rightarrow>
              if \<not> isTrue t then Inl EvalFalse
              else if length st \<noteq> 1 then Inl (CleanStack (length st))
              else Inr ())))"

definition IsStandardScript :: "bytes \<Rightarrow> bool" where
  "IsStandardScript pkScript \<longleftrightarrow>
     (if IsP2PKHScript pkScript then True
      else if length pkScript > 0 \<and> pkScript ! 0 = OpReturn then True
      else False)"

definition IsLegacyUnvalidatedScript :: "bytes \<Rightarrow> bool" where
  "IsLegacyUnvalidatedScript pkScript = False"

section \<open>Helpers\<close>

lemma bytesEqualFrom_eq:
  "bytesEqualFrom a b i n \<longleftrightarrow> (\<forall>j. i \<le> j \<and> j < i + n \<longrightarrow> a ! j = b ! j)"
proof (induction n arbitrary: i)
  case 0
  then show ?case by auto
next
  case (Suc n)
  show ?case
    by (auto simp: Suc) (metis Suc_leI le_eq_less_or_eq)
qed

lemma bytesEqual_eq [simp]: "bytesEqual a b \<longleftrightarrow> a = b"
  by (auto simp: bytesEqual_def bytesEqualFrom_eq list_eq_iff_nth_eq)

lemma isTrue_boolItem [simp]: "isTrue (boolItem b) = b"
  by (simp add: boolItem_def)

text \<open>The casts of \<open>isTrue\<close>: false are exactly the zero vectors, with either sign.\<close>

lemma isTrue_iff:
  "isTrue d \<longleftrightarrow> \<not> (\<exists>n. d = replicate n 0 \<or> d = replicate n 0 @ [0x80])"
proof (induction d)
  case Nil
  show ?case by (simp add: exI [of _ 0])
next
  case (Cons b bs)
  have "(\<exists>n. b # bs = replicate n 0 \<or> b # bs = replicate n 0 @ [0x80])
    \<longleftrightarrow> (b = 0 \<and> (\<exists>n. bs = replicate n 0 \<or> bs = replicate n 0 @ [0x80])) \<or> (b = 0x80 \<and> bs = [])"
  proof
    assume "\<exists>n. b # bs = replicate n 0 \<or> b # bs = replicate n 0 @ [0x80]"
    then obtain n where n: "b # bs = replicate n 0 \<or> b # bs = replicate n 0 @ [0x80]" by blast
    then show "(b = 0 \<and> (\<exists>n. bs = replicate n 0 \<or> bs = replicate n 0 @ [0x80])) \<or> (b = 0x80 \<and> bs = [])"
      by (cases n) auto
  next
    assume "(b = 0 \<and> (\<exists>n. bs = replicate n 0 \<or> bs = replicate n 0 @ [0x80])) \<or> (b = 0x80 \<and> bs = [])"
    then show "\<exists>n. b # bs = replicate n 0 \<or> b # bs = replicate n 0 @ [0x80]"
      by (metis append_Cons append_Nil replicate_0 replicate_Suc)
  qed
  with Cons show ?case by auto
qed

lemmas exec_simps = opcodes script_limits opStep_def pushN_def Let_def

text \<open>What a successful check means.\<close>

definition sigOk :: "('sg, 'pk, 'sk) crypto_lib \<Rightarrow> Transaction \<Rightarrow> int \<Rightarrow> bytes \<Rightarrow> bytes \<Rightarrow> bytes \<Rightarrow> bool" where
  "sigOk L tx inputIdx pkScript pub sig \<longleftrightarrow>
     (\<exists>der sg pk h. sig = der @ [SigHashAll] \<and> der \<noteq> [] \<and> ParseDERSignature L der = Some sg
        \<and> ParsePubKey L pub = Some pk
        \<and> ComputeSigHash L tx inputIdx pkScript = Inr h \<and> sigVerify L sg h pk)"

lemma checkSig_true:
  "isTrue (fst (checkSig L \<lparr>eng_tx = tx, eng_inputIdx = i, eng_pkScript = pks\<rparr> pub sig))
     \<longleftrightarrow> sigOk L tx i pks pub sig"
proof
  assume "isTrue (fst (checkSig L \<lparr>eng_tx = tx, eng_inputIdx = i, eng_pkScript = pks\<rparr> pub sig))"
  then show "sigOk L tx i pks pub sig"
    by (auto simp: checkSig_def sigOk_def not_less split: if_splits option.splits sum.splits)
       (metis (no_types, lifting) One_nat_def append_butlast_last_id butlast.simps(1) length_0_conv
         length_append_singleton not_less_eq_eq numeral_2_eq_2 zero_le)
next
  assume "sigOk L tx i pks pub sig"
  then show "isTrue (fst (checkSig L \<lparr>eng_tx = tx, eng_inputIdx = i, eng_pkScript = pks\<rparr> pub sig))"
    by (auto simp: checkSig_def sigOk_def Suc_le_eq numeral_2_eq_2)
qed

text \<open>Running the P2PKH locking script on a stack.\<close>

lemma execLoop_P2PKH_D:
  assumes "length h = 20" and "execLoop L e (MakeP2PKHScript h) 0 st = Inr st'"
  shows "\<exists>pub sig st2. st = pub # sig # st2 \<and> Hash160 L pub = h
           \<and> st' = fst (checkSig L e pub sig) # st2"
  using assms unfolding MakeP2PKHScript_def
  by (auto simp: exec_simps split: list.splits prod.splits if_splits)

lemma execLoop_P2PKH:
  assumes "length h = 20" and "Hash160 L pub = h"
  shows "execLoop L e (MakeP2PKHScript h) 0 [pub, sig] = Inr [fst (checkSig L e pub sig)]"
  using assms unfolding MakeP2PKHScript_def by (auto simp: exec_simps split: prod.splits)

lemma verdict [res_simps]:
  "(case st of [] \<Rightarrow> Inl EmptyStack
     | t # _ \<Rightarrow> if \<not> isTrue t then Inl EvalFalse
                 else if length st \<noteq> 1 then Inl (CleanStack (length st)) else Inr ()) = Inr u
   \<longleftrightarrow> (\<exists>t. st = [t] \<and> isTrue t)"
  by (auto split: list.splits)

lemma Verify_eq_Inr:
  "isOk (Verify L sigScript pkScript tx i) \<longleftrightarrow>
     pkScript \<noteq> [] \<and> pkScript ! 0 \<noteq> OpReturn
     \<and> (\<exists>st t. execute L \<lparr>eng_tx = tx, eng_inputIdx = i, eng_pkScript = pkScript\<rparr> sigScript [] = Inr st
          \<and> execute L \<lparr>eng_tx = tx, eng_inputIdx = i, eng_pkScript = pkScript\<rparr> pkScript st = Inr [t]
          \<and> isTrue t)"
  unfolding Verify_def isOk_iff Let_def by (simp add: res_simps) blast

lemma Verify_P2PKH_iff:
  assumes "length h = 20"
  shows "isOk (Verify L sigScript (MakeP2PKHScript h) tx i) \<longleftrightarrow>
    (\<exists>pub sig. execute L \<lparr>eng_tx = tx, eng_inputIdx = i, eng_pkScript = MakeP2PKHScript h\<rparr> sigScript []
                 = Inr [pub, sig]
       \<and> Hash160 L pub = h \<and> sigOk L tx i (MakeP2PKHScript h) pub sig)"
proof -
  let ?p = "MakeP2PKHScript h"
  let ?e = "\<lparr>eng_tx = tx, eng_inputIdx = i, eng_pkScript = ?p\<rparr>"
  have hd: "length ?p \<noteq> 0" "?p ! 0 \<noteq> OpReturn" "length ?p = 25"
    using assms by (simp_all add: MakeP2PKHScript_def opcodes)
  then have ex: "execute L ?e ?p st = execLoop L ?e ?p 0 st" for st
    by (simp add: execute_def script_limits)
  have V: "isOk (Verify L sigScript ?p tx i) \<longleftrightarrow>
      (\<exists>st t. execute L ?e sigScript [] = Inr st \<and> execLoop L ?e ?p 0 st = Inr [t] \<and> isTrue t)"
    using hd unfolding Verify_eq_Inr ex by auto
  show ?thesis
    unfolding V
  proof (intro iffI; elim exE conjE)
    fix st t
    assume a: "execute L ?e sigScript [] = Inr st" "execLoop L ?e ?p 0 st = Inr [t]" "isTrue t"
    from execLoop_P2PKH_D [OF assms a(2)] obtain pub sig where
      "st = [pub, sig]" "Hash160 L pub = h" "t = fst (checkSig L ?e pub sig)" by auto
    with a checkSig_true [of L tx i ?p pub sig] show "\<exists>pub sig. execute L ?e sigScript [] = Inr [pub, sig]
       \<and> Hash160 L pub = h \<and> sigOk L tx i ?p pub sig" by auto
  next
    fix pub sig
    assume "execute L ?e sigScript [] = Inr [pub, sig]" "Hash160 L pub = h" "sigOk L tx i ?p pub sig"
    with execLoop_P2PKH [OF assms, of L pub ?e sig] checkSig_true [of L tx i ?p pub sig]
    show "\<exists>st t. execute L ?e sigScript [] = Inr st \<and> execLoop L ?e ?p 0 st = Inr [t] \<and> isTrue t"
      by blast
  qed
qed

text \<open>The standard unlocking script pushes the signature and then the key.\<close>

lemma small_push:
  assumes "1 \<le> length d" "length d \<le> 75"
  shows "opStep L e (of_nat (length d)) (d @ r) st = Inr (d # st, r, False)"
    and "\<not> (of_nat (length d) :: byte) > OpPushData2"
proof -
  have u: "unat (of_nat (length d) :: byte) = length d" using assms by simp
  have "(of_nat (length d) :: byte) \<noteq> OpFalse" "(0x01 :: byte) \<le> of_nat (length d)"
    "(of_nat (length d) :: byte) \<le> 0x4b"
    using assms u by (auto simp: word_le_nat_alt opcodes unat_eq_0 [symmetric] simp del: unat_eq_0)
  then show "opStep L e (of_nat (length d)) (d @ r) st = Inr (d # st, r, False)"
    using assms u by (simp add: opStep_def pushN_def script_limits)
  show "\<not> (of_nat (length d) :: byte) > OpPushData2"
    using assms u by (simp add: word_less_nat_alt opcodes)
qed

lemma execute_SignatureScript:
  assumes "1 \<le> length sig" "length sig \<le> 75" "1 \<le> length pub" "length pub \<le> 75"
  shows "execute L e (MakeP2PKHSignatureScript sig pub) [] = Inr [pub, sig]"
  using assms small_push(1) [of sig L e "of_nat (length pub) # pub" "[]"]
    small_push(1) [of pub L e "[]" "[sig]"] small_push(2) [of sig] small_push(2) [of pub]
  by (simp add: execute_def MakeP2PKHSignatureScript_def script_limits)

section \<open>Bounds\<close>

definition stackOk :: "stack \<Rightarrow> bool" where
  "stackOk st \<longleftrightarrow> length st \<le> maxStackSize \<and> list_all (\<lambda>d. length d \<le> maxStackElemSize) st"

lemma checkSig_elem: "length (fst (checkSig L e pub sig)) \<le> 1"
  by (auto simp: checkSig_def boolItem_def split: option.splits sum.splits)

lemma opStep_elems:
  assumes "opStep L e op rest st = Inr (st', rest', c)"
    and "list_all (\<lambda>d. length d \<le> maxStackElemSize) st"
  shows "list_all (\<lambda>d. length d \<le> maxStackElemSize) st' \<and> (c \<longrightarrow> length st' < length st)"
proof -
  have p: "list_all (\<lambda>d. length d \<le> maxStackElemSize) st' \<and> \<not> c"
    if "pushN x n r st = Inr (st', rest', c)" for x n r
    using that assms(2) by (auto simp: pushN_def split: if_splits)
  have "length r \<le> 520" if "checkSig L e pub sig = (r, d)" for pub sig r d
    using checkSig_elem [of L e pub sig] that by simp
  then show ?thesis
    using assms p
    by (auto simp: opStep_def maxStackElemSize_def boolItem_def
        split: if_splits list.splits prod.splits intro: order_trans)
qed

lemma execLoop_stackOk:
  "execLoop L e script n st = Inr st' \<Longrightarrow> stackOk st \<Longrightarrow> stackOk st'"
proof (induction L e script n st rule: execLoop.induct)
  case (1 L e numOps st)
  then show ?case by simp
next
  case (2 L e op rest numOps st)
  let ?n = "if op > OpPushData2 then numOps + 1 else numOps"
  from 2(2) obtain st1 rest1 c where
    s: "opStep L e op rest st = Inr (st1, rest1, c)"
    and g: "\<not> (op > OpPushData2 \<and> ?n > maxOpsPerScript)" "\<not> (\<not> c \<and> length st1 > maxStackSize)"
    and r: "execLoop L e rest1 ?n st1 = Inr st'"
    by (auto simp: Let_def res_simps split: if_splits)
  have "stackOk st1"
    using opStep_elems [OF s] g(2) 2(3) by (cases c) (auto simp: stackOk_def)
  from 2(1) [OF refl g(1) s refl refl g(2) r this] show ?case .
qed

section \<open>Signed inputs verify\<close>

lemma SignInput_signs:
  assumes ec: "ecdsa_correct L" and i: "i < length (Inputs tx)"
    and pk: "pk = MakeP2PKHScriptFromPubKey L (SerializeCompressed L (privPubKey L sk))"
    and si: "SignInput L tx (int i) pk sk = Inr sigScript"
    and tx': "tx_Version tx' = tx_Version tx" "LockTime tx' = LockTime tx" "Outputs tx' = Outputs tx"
      "map PreviousOutPoint (Inputs tx') = map PreviousOutPoint (Inputs tx)" "map Sequence (Inputs tx') = map Sequence (Inputs tx)"
  shows "isOk (Verify L sigScript pk tx' (int i))"
proof -
  let ?pub = "SerializeCompressed L (privPubKey L sk)"
  have pk': "pk = MakeP2PKHScript (Hash160 L ?pub)"
    using pk by (simp add: MakeP2PKHScriptFromPubKey_def PubKeyHash_def)
  obtain h where h: "ComputeSigHash L tx (int i) pk = Inr h" using i by (simp add: ComputeSigHash_def)
  let ?der = "sigSerialize L (ecdsaSign L sk h)"
  have ss: "sigScript = MakeP2PKHSignatureScript (?der @ [SigHashAll]) ?pub"
    using si h by (simp add: SignInput_def SignTransaction_def)
  have len: "1 \<le> length ?der" "length ?der \<le> 72" "length ?pub = 33"
    using ec by (simp_all add: ecdsa_correct_def CompressedPubSize_def)
  have "ComputeSigHash L tx' (int i) pk = ComputeSigHash L tx (int i) pk"
    by (rule ComputeSigHash_ignores_scripts [OF tx'])
  with h have h': "ComputeSigHash L tx' (int i) pk = Inr h" by simp
  have "?der \<noteq> []" using len(1) by (cases ?der) auto
  then have "?der \<noteq> [] \<and> ParseDERSignature L ?der = Some (ecdsaSign L sk h)
      \<and> ParsePubKey L ?pub = Some (privPubKey L sk) \<and> sigVerify L (ecdsaSign L sk h) h (privPubKey L sk)"
    using ec by (auto simp: ecdsa_correct_def)
  with h' have "sigOk L tx' (int i) pk ?pub (?der @ [SigHashAll])" unfolding sigOk_def by blast
  moreover have "execute L e sigScript [] = Inr [?pub, ?der @ [SigHashAll]]" for e
    unfolding ss by (rule execute_SignatureScript) (use len in simp_all)
  ultimately show ?thesis
    unfolding pk' by (subst Verify_P2PKH_iff) auto
qed

lemma SignInput_Verify:
  assumes "ecdsa_correct L" "i < length (Inputs tx)"
    and "pk = MakeP2PKHScriptFromPubKey L (SerializeCompressed L (privPubKey L sk))"
    and "SignInput L tx (int i) pk sk = Inr sigScript"
    and "tx' = tx\<lparr>Inputs := (Inputs tx)[i := (Inputs tx ! i)\<lparr>SignatureScript := sigScript\<rparr>]\<rparr>"
  shows "isOk (Verify L sigScript pk tx' (int i))"
  by (rule SignInput_signs [OF assms(1-4)]) (use assms(2,5) in \<open>simp_all add: map_update list_update_same_conv\<close>)

section \<open>Scripts nobody can satisfy\<close>

lemma execLoop_zero: "execLoop L e [0x00] 0 st = Inr st' \<Longrightarrow> st' = [] # st"
  by (auto simp: exec_simps split: if_splits)

lemma execLoop_bad_opcode:
  assumes "opStep L e op rest st = Inl err"
  shows "\<not> isOk (execLoop L e (op # rest) 0 st)"
  using assms by (simp add: Let_def script_limits)

lemma Verify_first_opcode:
  assumes "pk = 0x62 # rest"
  shows "\<not> isOk (Verify L sigScript pk tx i)"
proof -
  have "\<not> isOk (execute L e pk st)" for e st
    using execLoop_bad_opcode [of L e "0x62" rest st "UnsupportedOpcode 0x62"] assms
    by (simp add: execute_def opStep_def opcodes)
  then have "execute L e pk st \<noteq> Inr r" for e st r by (metis isOk.simps(2))
  then show ?thesis unfolding Verify_eq_Inr by blast
qed

lemma Verify_zero: "\<not> isOk (Verify L sigScript [0x00] tx i)"
proof -
  have "execute L e [0x00] st = Inr [t] \<Longrightarrow> t = []" for e st t
    using execLoop_zero [of L e st "[t]"] by (auto simp: execute_def split: if_splits)
  then show ?thesis unfolding Verify_eq_Inr by fastforce
qed

lemma Verify_IsUnspendable: "IsUnspendableScript pk \<Longrightarrow> \<not> isOk (Verify L sigScript pk tx i)"
  by (auto simp: Verify_eq_Inr IsUnspendableScript_def OpReturn_def split: if_splits)

end
