(* ===== verification/Utxo.thy ===== *)
theory Utxo
  imports Hashing
begin

text \<open>
  The set of unspent outputs (\<open>internal/utxo/utxo.go\<close>): entries and undo data with their
  storage format, and the set as a map from 36-byte outpoint keys to entries with the
  operations that connect a block, disconnect it and apply the genesis block. The locks of the
  Go struct serialise the operations and have no other effect. Where an \<open>int\<close> conversion of a
  64-bit length can turn negative the model computes with the wrapped value, and a slice
  operation that panics is the error \<open>UtxoPanic\<close>.
\<close>

record UtxoEntry =
  ue_Value :: u64
  ue_PkScript :: bytes
  ue_Height :: u32
  ue_IsCoinbase :: bool

record SpentOutput =
  so_OutPoint :: OutPoint
  so_Entry :: UtxoEntry

type_synonym BlockUndoData = "SpentOutput list"
type_synonym UtxoSet = "bytes \<rightharpoonup> UtxoEntry"

datatype utxo_error =
    EntryTooShort nat
  | EntryTruncated
  | UVarInt decode_error
  | UndoTruncated
  | UndoEntryTruncated
  | UtxoPanic
  | DuplicateInput bytes
  | AlreadySpent bytes
  | MissingUtxo bytes

section \<open>Entries and undo data on disk\<close>

definition UtxoEntry_Serialize :: "UtxoEntry \<Rightarrow> bytes" where
  "UtxoEntry_Serialize e =
     PutUint64 (ue_Value e) @ PutUint32 (ue_Height e)
     @ [if ue_IsCoinbase e then 0x01 else 0x00]
     @ PutVarInt (len64 (ue_PkScript e)) @ ue_PkScript e"

definition DeserializeUtxoEntry :: "bytes \<Rightarrow> (utxo_error, UtxoEntry) res" where
  "DeserializeUtxoEntry data =
     (if length data < 13 then Inl (EntryTooShort (length data))
      else
        let rest = drop 13 data in
        bindR (mapErr UVarInt (ReadVarIntFromBytes rest)) (\<lambda>scriptLen.
          let viSize = VarIntSize scriptLen in
          if int (length rest) < sint (of_nat viSize + scriptLen :: u64) then Inl EntryTruncated
          else if length rest < viSize + unat scriptLen then Inl UtxoPanic
          else Inr \<lparr>ue_Value = getLE (slice 0 8 data),
                    ue_PkScript = slice viSize (viSize + unat scriptLen) rest,
                    ue_Height = getLE (slice 8 12 data),
                    ue_IsCoinbase = (data ! 12 AND 0x01 \<noteq> 0)\<rparr>))"

definition OutpointKey :: "hash \<Rightarrow> u32 \<Rightarrow> bytes" where
  "OutpointKey txHash idx = txHash @ PutUint32 idx"

definition SpentOutput_Serialize :: "SpentOutput \<Rightarrow> bytes" where
  "SpentOutput_Serialize so =
     (let entryBytes = UtxoEntry_Serialize (so_Entry so) in
      op_Hash (so_OutPoint so) @ PutUint32 (op_Index (so_OutPoint so))
      @ PutVarInt (len64 entryBytes) @ entryBytes)"

definition SerializeUndoData :: "BlockUndoData \<Rightarrow> bytes" where
  "SerializeUndoData undo = PutVarInt (len64 undo) @ concat (map SpentOutput_Serialize undo)"

text \<open>The decoding loop; \<open>n\<close> entries are left and \<open>off\<close> is the offset reached.\<close>

primrec undoLoop :: "nat \<Rightarrow> bytes \<Rightarrow> nat \<Rightarrow> (utxo_error, SpentOutput list) res" where
  "undoLoop 0 data off = Inr []"
| "undoLoop (Suc n) data off =
     (if off + 36 > length data then Inl UndoTruncated
      else
        let h = slice off (off + 32) data;
            idx = getLE (slice (off + 32) (off + 36) data);
            off = off + 36 in
        bindR (mapErr UVarInt (ReadVarIntFromBytes (drop off data))) (\<lambda>entryLen.
          let off = off + VarIntSize entryLen in
          if sint (of_nat off + entryLen :: u64) > int (length data) then Inl UndoEntryTruncated
          else if off + unat entryLen > length data then Inl UtxoPanic
          else bindR (DeserializeUtxoEntry (slice off (off + unat entryLen) data)) (\<lambda>entry.
            bindR (undoLoop n data (off + unat entryLen)) (\<lambda>sos.
              Inr (\<lparr>so_OutPoint = \<lparr>op_Hash = h, op_Index = idx\<rparr>, so_Entry = entry\<rparr> # sos)))))"

text \<open>
  \<open>make([]SpentOutput, 0, count)\<close> panics when 80 bytes per element exceed the address space
  of 2^48 bytes.
\<close>

definition DeserializeUndoData :: "bytes \<Rightarrow> (utxo_error, BlockUndoData) res" where
  "DeserializeUndoData data =
     (if length data = 0 then Inr []
      else bindR (mapErr UVarInt (ReadVarIntFromBytes data)) (\<lambda>count.
        if unat count * 80 > 2 ^ 48 then Inl UtxoPanic
        else undoLoop (unat count) data (VarIntSize count)))"

section \<open>The set\<close>

definition NewSet :: UtxoSet where
  "NewSet = Map.empty"

definition Set_Get :: "UtxoSet \<Rightarrow> hash \<Rightarrow> u32 \<Rightarrow> UtxoEntry option" where
  "Set_Get s txHash idx = s (OutpointKey txHash idx)"

definition Set_Has :: "UtxoSet \<Rightarrow> hash \<Rightarrow> u32 \<Rightarrow> bool" where
  "Set_Has s txHash idx \<longleftrightarrow> Set_Get s txHash idx \<noteq> None"

definition Set_Add :: "UtxoSet \<Rightarrow> hash \<Rightarrow> u32 \<Rightarrow> UtxoEntry \<Rightarrow> UtxoSet" where
  "Set_Add s txHash idx entry = s(OutpointKey txHash idx \<mapsto> entry)"

definition Set_Remove :: "UtxoSet \<Rightarrow> hash \<Rightarrow> u32 \<Rightarrow> UtxoSet \<times> UtxoEntry option" where
  "Set_Remove s txHash idx =
     (let key = OutpointKey txHash idx in (s(key := None), s key))"

definition Set_Count :: "UtxoSet \<Rightarrow> nat" where
  "Set_Count s = card (dom s)"

text \<open>
  \<open>TotalValue\<close> ranges over the Go map, whose order is not specified: \<open>order\<close> is the order in
  which the keys are visited.
\<close>

fun totalLoop :: "u64 list \<Rightarrow> u64 \<Rightarrow> u64" where
  "totalLoop [] acc = acc"
| "totalLoop (v # vs) acc = (if acc + v < acc then - 1 else totalLoop vs (acc + v))"

definition TotalValue :: "UtxoSet \<Rightarrow> bytes list \<Rightarrow> u64" where
  "TotalValue s order = totalLoop (map (\<lambda>k. ue_Value (the (s k))) order) 0"

section \<open>Connecting and disconnecting blocks\<close>

text \<open>The local variables of \<open>ConnectBlock\<close>.\<close>

record connState =
  cs_undo :: BlockUndoData
  cs_spentInBlock :: "bytes set"
  cs_createdInBlock :: UtxoSet
  cs_toRemove :: "bytes list"
  cs_toAdd :: "(bytes \<times> UtxoEntry) list"

definition connInit :: connState where
  "connInit = \<lparr>cs_undo = [], cs_spentInBlock = {}, cs_createdInBlock = Map.empty, cs_toRemove = [], cs_toAdd = []\<rparr>"

abbreviation inKey :: "TxInput \<Rightarrow> bytes" where
  "inKey i \<equiv> OutpointKey (op_Hash (PreviousOutPoint i)) (op_Index (PreviousOutPoint i))"

fun connectInputs :: "UtxoSet \<Rightarrow> TxInput list \<Rightarrow> bytes set \<Rightarrow> connState \<Rightarrow> (utxo_error, connState) res" where
  "connectInputs s [] seenInTx st = Inr st"
| "connectInputs s (i # is) seenInTx st =
     (let key = inKey i in
      if key \<in> seenInTx then Inl (DuplicateInput key)
      else if key \<in> cs_spentInBlock st then Inl (AlreadySpent key)
      else case (case cs_createdInBlock st key of Some e \<Rightarrow> Some e | None \<Rightarrow> s key) of
             None \<Rightarrow> Inl (MissingUtxo key)
           | Some entry \<Rightarrow>
               connectInputs s is (insert key seenInTx)
                 (st\<lparr>cs_undo := cs_undo st @ [\<lparr>so_OutPoint = PreviousOutPoint i, so_Entry = entry\<rparr>],
                     cs_spentInBlock := insert key (cs_spentInBlock st),
                     cs_toRemove := cs_toRemove st @ [key],
                     cs_createdInBlock := (cs_createdInBlock st)(key := None)\<rparr>))"

definition mkEntry :: "u32 \<Rightarrow> bool \<Rightarrow> TxOutput \<Rightarrow> UtxoEntry" where
  "mkEntry height cb out = \<lparr>ue_Value = Value out, ue_PkScript = PkScript out, ue_Height = height,
     ue_IsCoinbase = cb\<rparr>"

fun connectOutputs :: "hash \<Rightarrow> u32 \<Rightarrow> bool \<Rightarrow> TxOutput list \<Rightarrow> nat \<Rightarrow> connState \<Rightarrow> connState" where
  "connectOutputs txHash height cb [] outIdx st = st"
| "connectOutputs txHash height cb (out # outs) outIdx st =
     (let key = OutpointKey txHash (of_nat outIdx); entry = mkEntry height cb out in
      connectOutputs txHash height cb outs (Suc outIdx)
        (st\<lparr>cs_createdInBlock := (cs_createdInBlock st)(key \<mapsto> entry), cs_toAdd := cs_toAdd st @ [(key, entry)]\<rparr>))"

fun connectTxs :: "(bytes \<Rightarrow> bytes) \<Rightarrow> UtxoSet \<Rightarrow> u32 \<Rightarrow> Transaction list \<Rightarrow> connState \<Rightarrow> (utxo_error, connState) res" where
  "connectTxs sha s height [] st = Inr st"
| "connectTxs sha s height (tx # txs) st =
     bindR (if \<not> IsCoinbase tx then connectInputs s (Inputs tx) {} st else Inr st) (\<lambda>st.
       connectTxs sha s height txs
         (connectOutputs (HashTransaction sha tx) height (IsCoinbase tx) (Outputs tx) 0 st))"

definition applyRemovals :: "bytes list \<Rightarrow> UtxoSet \<Rightarrow> UtxoSet" where
  "applyRemovals ks s = fold (\<lambda>k s. s(k := None)) ks s"

definition applyAdds :: "bytes set \<Rightarrow> (bytes \<times> UtxoEntry) list \<Rightarrow> UtxoSet \<Rightarrow> UtxoSet" where
  "applyAdds spent adds s = fold (\<lambda>(k, e) s. if k \<in> spent then s else s(k \<mapsto> e)) adds s"

text \<open>The result is the cs_undo data or an error, with the set after the call in both cases.\<close>

definition ConnectBlock :: "(bytes \<Rightarrow> bytes) \<Rightarrow> UtxoSet \<Rightarrow> Block \<Rightarrow> u32 \<Rightarrow> (utxo_error, BlockUndoData) res \<times> UtxoSet" where
  "ConnectBlock sha s block height =
     (case connectTxs sha s height (Transactions block) connInit of
        Inl e \<Rightarrow> (Inl e, s)
      | Inr st \<Rightarrow> (Inr (cs_undo st),
          applyAdds (cs_spentInBlock st) (cs_toAdd st) (applyRemovals (cs_toRemove st) s)))"

definition outputKeys :: "(bytes \<Rightarrow> bytes) \<Rightarrow> Transaction \<Rightarrow> bytes list" where
  "outputKeys sha tx =
     map (\<lambda>i. OutpointKey (HashTransaction sha tx) (of_nat i)) [0..<length (Outputs tx)]"

abbreviation soKey :: "SpentOutput \<Rightarrow> bytes" where
  "soKey so \<equiv> OutpointKey (op_Hash (so_OutPoint so)) (op_Index (so_OutPoint so))"

definition applyUndo :: "BlockUndoData \<Rightarrow> UtxoSet \<Rightarrow> UtxoSet" where
  "applyUndo undo s = fold (\<lambda>so s. s(soKey so \<mapsto> so_Entry so)) undo s"

definition DisconnectBlock :: "(bytes \<Rightarrow> bytes) \<Rightarrow> UtxoSet \<Rightarrow> Block \<Rightarrow> BlockUndoData \<Rightarrow> UtxoSet" where
  "DisconnectBlock sha s block undo =
     applyUndo undo
       (applyRemovals (concat (map (outputKeys sha) (rev (Transactions block)))) s)"

definition isLegacyPlaceholder :: "bytes \<Rightarrow> bool" where
  "isLegacyPlaceholder pk \<longleftrightarrow> length pk = 0 \<or> (length pk = 1 \<and> pk ! 0 = 0x00)"

fun genesisOutputs :: "hash \<Rightarrow> bool \<Rightarrow> TxOutput list \<Rightarrow> nat \<Rightarrow> UtxoSet \<Rightarrow> UtxoSet" where
  "genesisOutputs txHash cb [] outIdx s = s"
| "genesisOutputs txHash cb (out # outs) outIdx s =
     genesisOutputs txHash cb outs (Suc outIdx)
       (if isLegacyPlaceholder (PkScript out) then s
        else Set_Add s txHash (of_nat outIdx) (mkEntry 0 cb out))"

definition ConnectGenesis :: "(bytes \<Rightarrow> bytes) \<Rightarrow> UtxoSet \<Rightarrow> Block \<Rightarrow> UtxoSet" where
  "ConnectGenesis sha s block =
     fold (\<lambda>tx s. genesisOutputs (HashTransaction sha tx) (IsCoinbase tx) (Outputs tx) 0 s)
       (Transactions block) s"

text \<open>\<open>Entries\<close> copies the map; \<open>ForEach\<close> splits each key into hash and index again.\<close>

definition Entries :: "UtxoSet \<Rightarrow> UtxoSet" where
  "Entries s = s"

definition splitKey :: "bytes \<Rightarrow> hash \<times> u32" where
  "splitKey key = (take 32 key, getLE (drop 32 key))"

definition ForEach :: "(hash \<Rightarrow> u32 \<Rightarrow> UtxoEntry \<Rightarrow> 'a \<Rightarrow> 'a) \<Rightarrow> UtxoSet \<Rightarrow> bytes list \<Rightarrow> 'a \<Rightarrow> 'a" where
  "ForEach fn s order a =
     fold (\<lambda>key. case splitKey key of (txHash, idx) \<Rightarrow> fn txHash idx (the (s key))) order a"

section \<open>Keys\<close>

lemma OutpointKey_inj:
  "wf_hash h \<Longrightarrow> wf_hash k \<Longrightarrow> OutpointKey h i = OutpointKey k j \<longleftrightarrow> h = k \<and> i = j"
proof -
  assume "wf_hash h" "wf_hash k"
  moreover have "i = j" if "PutUint32 i = PutUint32 j"
    using arg_cong [OF that, of "getLE :: bytes \<Rightarrow> u32"] by simp
  ultimately show ?thesis by (auto simp: OutpointKey_def wf_hash_def)
qed

lemma splitKey_OutpointKey [simp]: "wf_hash h \<Longrightarrow> splitKey (OutpointKey h i) = (h, i)"
  by (simp add: splitKey_def OutpointKey_def wf_hash_def)

section \<open>The storage format round trips\<close>

definition wf_entry :: "UtxoEntry \<Rightarrow> bool" where
  "wf_entry e \<longleftrightarrow> length (ue_PkScript e) \<le> 10000"

definition wf_spent :: "SpentOutput \<Rightarrow> bool" where
  "wf_spent so \<longleftrightarrow> wf_hash (op_Hash (so_OutPoint so)) \<and> wf_entry (so_Entry so)"

text \<open>On lengths a node can hold the signed sum is the exact one.\<close>

lemma sint_small_sum:
  assumes "n + unat w < 2 ^ 63"
  shows "sint (of_nat n + w :: u64) = int n + int (unat w)"
proof -
  have "unat (of_nat n + w :: u64) = n + unat w"
    using assms by (simp add: unat_word_ariths)
  then have u: "uint (of_nat n + w :: u64) = int (n + unat w)"
    by (metis of_nat_unat)
  have "sint (v :: u64) = uint v" if "uint v < 2 ^ 63" for v
    using that by (simp add: sint_uint signed_take_bit_eq_if_positive bit_iff_odd take_bit_int_eq_self)
  moreover have "int (n + unat w) < 2 ^ 63"
    using assms of_nat_less_iff [where 'a = int, of "n + unat w" "2 ^ 63"] by simp
  ultimately show ?thesis using u by (metis of_nat_add)
qed

lemma entry_flags:
  "([if b then 0x01 else 0x00] ! 0 :: byte) AND 0x01 \<noteq> 0 \<longleftrightarrow> b"
  by simp

lemma DeserializeUtxoEntry_Serialize:
  assumes "wf_entry e"
  shows "DeserializeUtxoEntry (UtxoEntry_Serialize e) = Inr e"
proof -
  let ?n = "length (ue_PkScript e)"
  let ?f = "[if ue_IsCoinbase e then 0x01 else 0x00] :: bytes"
  let ?d = "UtxoEntry_Serialize e"
  have n: "?n \<le> 10000" using assms by (simp add: wf_entry_def)
  then have un: "unat (len64 (ue_PkScript e)) = ?n" by simp
  have len13: "\<not> length ?d < 13" by (simp add: UtxoEntry_Serialize_def)
  have rest: "drop 13 ?d = PutVarInt (len64 (ue_PkScript e)) @ ue_PkScript e"
    by (simp add: UtxoEntry_Serialize_def)
  have flag: "(?d ! 12 AND 0x01 \<noteq> 0) = ue_IsCoinbase e"
    by (simp add: UtxoEntry_Serialize_def nth_append)
  have parts: "slice 0 8 ?d = PutUint64 (ue_Value e)" "slice 8 12 ?d = PutUint32 (ue_Height e)"
    by (simp_all add: UtxoEntry_Serialize_def slice_def)
  have vi: "VarIntSize (len64 (ue_PkScript e)) \<le> 9" by (simp add: VarIntSize_def)
  have "sint (of_nat (VarIntSize (len64 (ue_PkScript e))) + len64 (ue_PkScript e) :: u64)
      = int (VarIntSize (len64 (ue_PkScript e))) + int ?n"
    using sint_small_sum [of "VarIntSize (len64 (ue_PkScript e))" "len64 (ue_PkScript e)"] un n vi
    by simp
  moreover have "slice (VarIntSize v) (VarIntSize v + m) (PutVarInt v @ xs) = xs"
    if "length xs = m" for v m and xs :: bytes
    using that by (simp add: slice_def length_PutVarInt)
  ultimately show ?thesis
    using len13
    by (simp add: DeserializeUtxoEntry_def rest Let_def ReadVarIntFromBytes_PutVarInt parts flag un
        length_PutVarInt)
qed

lemma length_UtxoEntry_Serialize:
  "wf_entry e \<Longrightarrow> length (UtxoEntry_Serialize e) \<le> 10022"
  by (simp add: UtxoEntry_Serialize_def wf_entry_def length_PutVarInt VarIntSize_def)

text \<open>One step of the undo loop on a serialized entry that starts at offset \<open>length pre\<close>.\<close>

lemma undoLoop_step:
  fixes pre rst :: bytes
  assumes wf: "wf_spent so" and off: "length pre < 2 ^ 62"
  defines "data \<equiv> pre @ SpentOutput_Serialize so @ rst"
  shows "undoLoop (Suc n) data (length pre) =
    bindR (undoLoop n data (length pre + length (SpentOutput_Serialize so))) (\<lambda>sos. Inr (so # sos))"
proof -
  let ?e = "UtxoEntry_Serialize (so_Entry so)"
  let ?h = "op_Hash (so_OutPoint so)" and ?i = "op_Index (so_OutPoint so)"
  let ?v = "len64 ?e"
  have h: "length ?h = 32" and e: "wf_entry (so_Entry so)"
    using wf by (simp_all add: wf_spent_def wf_hash_def)
  have le: "length ?e \<le> 10022" by (rule length_UtxoEntry_Serialize [OF e])
  then have un: "unat ?v = length ?e" by simp
  have data: "data = pre @ ?h @ PutUint32 ?i @ PutVarInt ?v @ ?e @ rst"
    by (simp add: data_def SpentOutput_Serialize_def Let_def)
  have s1: "slice (length pre) (length pre + 32) data = ?h"
    and s2: "slice (length pre + 32) (length pre + 36) data = PutUint32 ?i"
    and s3: "drop (length pre + 36) data = PutVarInt ?v @ ?e @ rst"
    using h by (simp_all add: data slice_def)
  let ?o = "length pre + 36 + VarIntSize ?v"
  have s4: "slice ?o (?o + length ?e) data = ?e"
    using h by (simp add: data slice_def length_PutVarInt)
  have vi: "VarIntSize ?v \<le> 9" by (simp add: VarIntSize_def)
  have sm: "sint (of_nat ?o + ?v :: u64) = int ?o + int (length ?e)"
    using sint_small_sum [of ?o ?v] le vi off un by simp
  have len: "length data = ?o + length ?e + length rst"
    using h by (simp add: data length_PutVarInt)
  have so: "\<lparr>so_OutPoint = \<lparr>op_Hash = ?h, op_Index = ?i\<rparr>, so_Entry = so_Entry so\<rparr> = so" by simp
  have lso: "length pre + length (SpentOutput_Serialize so) = ?o + length ?e"
    using h by (simp add: SpentOutput_Serialize_def Let_def length_PutVarInt)
  have g1: "\<not> length pre + 36 > length data" and g2: "\<not> int ?o + int (length ?e) > int (length data)"
    and g3: "\<not> ?o + length ?e > length data"
    using len by simp_all
  show ?thesis
    unfolding lso undoLoop.simps Let_def s1 s2 s3 ReadVarIntFromBytes_PutVarInt mapErr.simps
      bindR.simps un sm s4 DeserializeUtxoEntry_Serialize [OF e] if_not_P [OF g1] if_not_P [OF g2]
      if_not_P [OF g3] getLE_putLE_u32 so ..
qed

lemma undoLoop_Serialize:
  assumes "list_all wf_spent sos"
    and "length pre + length (concat (map SpentOutput_Serialize sos)) < 2 ^ 62"
  shows "undoLoop (length sos) (pre @ concat (map SpentOutput_Serialize sos) @ rst) (length pre) = Inr sos"
  using assms
proof (induction sos arbitrary: pre)
  case Nil
  then show ?case by simp
next
  case (Cons so sos)
  have "undoLoop (length sos) ((pre @ SpentOutput_Serialize so) @ concat (map SpentOutput_Serialize sos) @ rst)
      (length (pre @ SpentOutput_Serialize so)) = Inr sos"
    using Cons.prems by (intro Cons.IH) simp_all
  moreover have "length pre < 2 ^ 62" using Cons.prems by simp
  ultimately show ?case
    using Cons.prems undoLoop_step [of so pre "length sos" "concat (map SpentOutput_Serialize sos) @ rst"]
    by simp
qed

lemma length_SpentOutput_Serialize:
  assumes "wf_spent so"
  shows "length (SpentOutput_Serialize so) \<le> 10067"
proof -
  have "length (UtxoEntry_Serialize (so_Entry so)) \<le> 10022" "length (op_Hash (so_OutPoint so)) = 32"
    using assms length_UtxoEntry_Serialize by (auto simp: wf_spent_def wf_hash_def)
  then show ?thesis
    by (simp add: SpentOutput_Serialize_def Let_def length_PutVarInt VarIntSize_def)
qed

lemma length_undo_body:
  "list_all wf_spent sos \<Longrightarrow>
     length (concat (map SpentOutput_Serialize sos)) \<le> 10067 * length sos"
proof (induction sos)
  case (Cons so sos)
  then show ?case using length_SpentOutput_Serialize [of so] by simp
qed simp

lemma DeserializeUndoData_Serialize:
  assumes wf: "list_all wf_spent undo" and n: "length undo \<le> 1000000"
  shows "DeserializeUndoData (SerializeUndoData undo) = Inr undo"
proof -
  let ?pre = "PutVarInt (len64 undo)"
  have u: "unat (len64 undo) = length undo" using n by simp
  have p: "length ?pre = VarIntSize (len64 undo)" "VarIntSize (len64 undo) \<le> 9" "?pre \<noteq> []"
    by (auto simp: length_PutVarInt VarIntSize_def simp flip: length_greater_0_conv)
  have "length ?pre + length (concat (map SpentOutput_Serialize undo)) \<le> 9 + 10067 * 1000000"
    using length_undo_body [OF wf] n p(1,2) by linarith
  also have "\<dots> < 2 ^ 62" by simp
  finally have "length ?pre + length (concat (map SpentOutput_Serialize undo)) < 2 ^ 62" .
  from undoLoop_Serialize [OF wf this, of "[]"]
  have "undoLoop (unat (len64 undo)) (SerializeUndoData undo) (VarIntSize (len64 undo)) = Inr undo"
    by (simp add: SerializeUndoData_def u p(1))
  moreover have "ReadVarIntFromBytes (SerializeUndoData undo) = Inr (len64 undo)"
    by (simp add: SerializeUndoData_def ReadVarIntFromBytes_PutVarInt)
  ultimately show ?thesis
    using n p(3) by (simp add: DeserializeUndoData_def SerializeUndoData_def u)
qed

end
