(* ===== verification/Utxo_Props.thy ===== *)
theory Utxo_Props
  imports Utxo
begin

text \<open>
  What \<open>ConnectBlock\<close> and \<open>DisconnectBlock\<close> do to the set: a declarative description of a
  block's effect (the keys it spends and the entries it creates), the proof that the loops over
  the transactions compute it, when disconnecting restores the set, and the value balance of a
  connected block.
\<close>

section \<open>The effect of a block\<close>

definition txSpends :: "Transaction \<Rightarrow> bytes list" where
  "txSpends tx = (if IsCoinbase tx then [] else map inKey (Inputs tx))"

definition blockSpends :: "Transaction list \<Rightarrow> bytes list" where
  "blockSpends txs = concat (map txSpends txs)"

definition txAdds :: "(bytes \<Rightarrow> bytes) \<Rightarrow> u32 \<Rightarrow> Transaction \<Rightarrow> (bytes \<times> UtxoEntry) list" where
  "txAdds sha height tx = zip (outputKeys sha tx) (map (mkEntry height (IsCoinbase tx)) (Outputs tx))"

definition blockAdds :: "(bytes \<Rightarrow> bytes) \<Rightarrow> u32 \<Rightarrow> Transaction list \<Rightarrow> (bytes \<times> UtxoEntry) list" where
  "blockAdds sha height txs = concat (map (txAdds sha height) txs)"

text \<open>The set after the block: spent keys are gone, the last entry created under a key wins.\<close>

definition applyBlock :: "UtxoSet \<Rightarrow> bytes list \<Rightarrow> (bytes \<times> UtxoEntry) list \<Rightarrow> UtxoSet" where
  "applyBlock s spends adds k =
     (if k \<in> set spends then None
      else case map_of (rev adds) k of Some e \<Rightarrow> Some e | None \<Rightarrow> s k)"

lemma blockSpends_simps [simp]:
  "blockSpends [] = []" "blockSpends (tx # txs) = txSpends tx @ blockSpends txs"
  by (simp_all add: blockSpends_def)

lemma blockAdds_simps [simp]:
  "blockAdds sha h [] = []" "blockAdds sha h (tx # txs) = txAdds sha h tx @ blockAdds sha h txs"
  by (simp_all add: blockAdds_def)

lemma map_fst_txAdds: "map fst (txAdds sha h tx) = outputKeys sha tx"
  by (simp add: txAdds_def outputKeys_def map_fst_zip)

lemma keys_blockAdds: "map fst (blockAdds sha h txs) = concat (map (outputKeys sha) txs)"
  by (induction txs) (simp_all add: map_fst_txAdds)

lemma applyRemovals_eq: "applyRemovals ks s = (\<lambda>k. if k \<in> set ks then None else s k)"
  unfolding applyRemovals_def by (induction ks arbitrary: s) (auto simp: fun_eq_iff)

lemma applyAdds_eq:
  "applyAdds spent adds s k = (if k \<in> spent then s k
     else case map_of (rev adds) k of Some e \<Rightarrow> Some e | None \<Rightarrow> s k)"
  unfolding applyAdds_def
  by (induction adds arbitrary: s) (auto simp: map_add_def fun_upd_def split: option.splits)

lemma applyUndo_eq:
  "applyUndo undo s k = (case map_of (rev (map (\<lambda>so. (soKey so, so_Entry so)) undo)) k of
     Some e \<Rightarrow> Some e | None \<Rightarrow> s k)"
  unfolding applyUndo_def
  by (induction undo arbitrary: s) (auto simp: map_add_def fun_upd_def split: option.splits)

section \<open>The loops compute it\<close>

text \<open>How the local state grows while keys are spent and entries are created.\<close>

definition grows :: "UtxoSet \<Rightarrow> connState \<Rightarrow> bytes list \<Rightarrow> (bytes \<times> UtxoEntry) list \<Rightarrow> connState \<Rightarrow> bool" where
  "grows s st ks adds st' \<longleftrightarrow>
     cs_toRemove st' = cs_toRemove st @ ks
     \<and> cs_toAdd st' = cs_toAdd st @ adds
     \<and> cs_spentInBlock st' = cs_spentInBlock st \<union> set ks
     \<and> distinct ks \<and> set ks \<inter> cs_spentInBlock st = {}
     \<and> (\<exists>us. cs_undo st' = cs_undo st @ us \<and> map soKey us = ks
          \<and> (\<forall>so\<in>set us. s (soKey so) = Some (so_Entry so)
                \<or> (soKey so, so_Entry so) \<in> set (cs_toAdd st')))
     \<and> (\<forall>k e. cs_createdInBlock st' k = Some e \<longrightarrow> (k, e) \<in> set (cs_toAdd st'))"

lemma grows_refl:
  "(\<forall>k e. cs_createdInBlock st k = Some e \<longrightarrow> (k, e) \<in> set (cs_toAdd st)) \<Longrightarrow> grows s st [] [] st"
  by (simp add: grows_def)

lemma grows_trans:
  assumes 1: "grows s st0 ks as st1" and 2: "grows s st1 ls bs st2"
  shows "grows s st0 (ks @ ls) (as @ bs) st2"
proof -
  from 1 obtain us where u: "cs_undo st1 = cs_undo st0 @ us" "map soKey us = ks"
    "\<forall>so\<in>set us. s (soKey so) = Some (so_Entry so) \<or> (soKey so, so_Entry so) \<in> set (cs_toAdd st1)"
    by (auto simp: grows_def)
  from 2 obtain vs where v: "cs_undo st2 = cs_undo st1 @ vs" "map soKey vs = ls"
    "\<forall>so\<in>set vs. s (soKey so) = Some (so_Entry so) \<or> (soKey so, so_Entry so) \<in> set (cs_toAdd st2)"
    by (auto simp: grows_def)
  have "set (cs_toAdd st1) \<subseteq> set (cs_toAdd st2)" using 2 by (auto simp: grows_def)
  with u v have un: "cs_undo st2 = cs_undo st0 @ (us @ vs) \<and> map soKey (us @ vs) = ks @ ls
      \<and> (\<forall>so\<in>set (us @ vs). s (soKey so) = Some (so_Entry so)
            \<or> (soKey so, so_Entry so) \<in> set (cs_toAdd st2))"
    by auto
  have ds: "distinct (ks @ ls)" "set (ks @ ls) \<inter> cs_spentInBlock st0 = {}"
    using 1 2 by (auto simp: grows_def)
  have l: "cs_toRemove st2 = cs_toRemove st0 @ (ks @ ls)" "cs_toAdd st2 = cs_toAdd st0 @ (as @ bs)"
    "cs_spentInBlock st2 = cs_spentInBlock st0 \<union> set (ks @ ls)"
    using 1 2 by (auto simp: grows_def)
  have c: "\<forall>k e. cs_createdInBlock st2 k = Some e \<longrightarrow> (k, e) \<in> set (cs_toAdd st2)"
    using 2 unfolding grows_def by blast
  show ?thesis
    unfolding grows_def using un ds l c by blast
qed

lemma connectInputs_step:
  assumes cr: "\<forall>k e. cs_createdInBlock st k = Some e \<longrightarrow> (k, e) \<in> set (cs_toAdd st)"
    and ns: "inKey i \<notin> cs_spentInBlock st"
    and en: "(case cs_createdInBlock st (inKey i) of Some e \<Rightarrow> Some e | None \<Rightarrow> s (inKey i)) = Some entry"
  shows "grows s st [inKey i] []
     (st\<lparr>cs_undo := cs_undo st @ [\<lparr>so_OutPoint = PreviousOutPoint i, so_Entry = entry\<rparr>],
         cs_spentInBlock := insert (inKey i) (cs_spentInBlock st),
         cs_toRemove := cs_toRemove st @ [inKey i],
         cs_createdInBlock := (cs_createdInBlock st)(inKey i := None)\<rparr>)"
proof -
  have "s (inKey i) = Some entry \<or> (inKey i, entry) \<in> set (cs_toAdd st)"
    using en cr by (auto split: option.splits)
  then show ?thesis using cr ns by (auto simp: grows_def)
qed

lemma connectInputs_grows:
  assumes "connectInputs s is seen st = Inr st'"
    and "\<forall>k e. cs_createdInBlock st k = Some e \<longrightarrow> (k, e) \<in> set (cs_toAdd st)"
  shows "grows s st (map inKey is) [] st'"
  using assms
proof (induction s "is" seen st rule: connectInputs.induct)
  case (1 s seen st)
  then show ?case by (simp add: grows_refl)
next
  case (2 s i "is" seen st)
  from 2(2) obtain entry where
    ns: "inKey i \<notin> seen" "inKey i \<notin> cs_spentInBlock st" and
    en: "(case cs_createdInBlock st (inKey i) of Some e \<Rightarrow> Some e | None \<Rightarrow> s (inKey i)) = Some entry"
    by (auto simp: Let_def split: if_splits option.splits)
  note step = connectInputs_step [of st i s entry, OF 2(3) ns(2) en]
  let ?st = "st\<lparr>cs_undo := cs_undo st @ [\<lparr>so_OutPoint = PreviousOutPoint i, so_Entry = entry\<rparr>],
         cs_spentInBlock := insert (inKey i) (cs_spentInBlock st),
         cs_toRemove := cs_toRemove st @ [inKey i],
         cs_createdInBlock := (cs_createdInBlock st)(inKey i := None)\<rparr>"
  have rest: "connectInputs s is (insert (inKey i) seen) ?st = Inr st'"
    using 2(2) ns en by (simp add: Let_def)
  have "grows s ?st (map inKey is) [] st'"
    by (rule 2(1) [OF refl ns en rest]) (use 2(3) in \<open>auto\<close>)
  from grows_trans [OF step this] show ?case by simp
qed

lemma connectOutputs_grows:
  assumes "\<forall>k e. cs_createdInBlock st k = Some e \<longrightarrow> (k, e) \<in> set (cs_toAdd st)"
  shows "grows s st []
    (zip (map (\<lambda>i. OutpointKey h (of_nat i)) [n..<n + length outs]) (map (mkEntry height cb) outs))
    (connectOutputs h height cb outs n st)"
  using assms
proof (induction outs arbitrary: n st)
  case Nil
  then show ?case by (simp add: grows_refl)
next
  case (Cons out outs)
  let ?k = "OutpointKey h (of_nat n)" and ?e = "mkEntry height cb out"
  let ?st = "st\<lparr>cs_createdInBlock := (cs_createdInBlock st)(?k \<mapsto> ?e), cs_toAdd := cs_toAdd st @ [(?k, ?e)]\<rparr>"
  have 1: "grows s st [] [(?k, ?e)] ?st"
    using Cons.prems by (auto simp: grows_def)
  have "\<forall>k e. cs_createdInBlock ?st k = Some e \<longrightarrow> (k, e) \<in> set (cs_toAdd ?st)"
    using Cons.prems by auto
  from grows_trans [OF 1 Cons.IH [OF this, of "Suc n"]] show ?case
    by (simp add: Let_def upt_conv_Cons del: upt_Suc)
qed

lemma connectTxs_grows:
  assumes "connectTxs sha s height txs st = Inr st'"
    and "\<forall>k e. cs_createdInBlock st k = Some e \<longrightarrow> (k, e) \<in> set (cs_toAdd st)"
  shows "grows s st (blockSpends txs) (blockAdds sha height txs) st'"
  using assms
proof (induction sha s height txs st rule: connectTxs.induct)
  case (1 sha s height st)
  then show ?case by (simp add: grows_refl)
next
  case (2 sha s height tx txs st)
  from 2(2) obtain st1 where
    ins: "(if \<not> IsCoinbase tx then connectInputs s (Inputs tx) {} st else Inr st) = Inr st1" and
    rest: "connectTxs sha s height txs
       (connectOutputs (HashTransaction sha tx) height (IsCoinbase tx) (Outputs tx) 0 st1) = Inr st'"
    by (auto simp: res_simps)
  have g1: "grows s st (txSpends tx) [] st1"
    using ins connectInputs_grows [of s "Inputs tx" "{}" st st1] 2(3)
    by (auto simp: txSpends_def grows_refl split: if_splits)
  have cr1: "\<forall>k e. cs_createdInBlock st1 k = Some e \<longrightarrow> (k, e) \<in> set (cs_toAdd st1)"
    using g1 unfolding grows_def by blast
  let ?st2 = "connectOutputs (HashTransaction sha tx) height (IsCoinbase tx) (Outputs tx) 0 st1"
  have g2: "grows s st1 [] (txAdds sha height tx) ?st2"
    using connectOutputs_grows [OF cr1, of s "HashTransaction sha tx" 0 "Outputs tx"]
    by (simp add: txAdds_def outputKeys_def)
  then have "\<forall>k e. cs_createdInBlock ?st2 k = Some e \<longrightarrow> (k, e) \<in> set (cs_toAdd ?st2)"
    unfolding grows_def by blast
  from 2(1) [OF ins rest this] show ?case
    using grows_trans [OF g1 grows_trans [OF g2]] by fastforce
qed

text \<open>The description of a successful \<open>ConnectBlock\<close> all further properties rest on.\<close>

lemma ConnectBlock_effect:
  assumes "ConnectBlock sha s b height = (Inr undo, s')"
  shows "s' = applyBlock s (blockSpends (Transactions b)) (blockAdds sha height (Transactions b))"
    and "map soKey undo = blockSpends (Transactions b)"
    and "distinct (blockSpends (Transactions b))"
    and "\<forall>so\<in>set undo. s (soKey so) = Some (so_Entry so)
           \<or> (soKey so, so_Entry so) \<in> set (blockAdds sha height (Transactions b))"
proof -
  from assms obtain st where st: "connectTxs sha s height (Transactions b) connInit = Inr st"
    and u: "undo = cs_undo st"
    and s': "s' = applyAdds (cs_spentInBlock st) (cs_toAdd st) (applyRemovals (cs_toRemove st) s)"
    by (auto simp: ConnectBlock_def split: sum.splits)
  have g: "grows s connInit (blockSpends (Transactions b)) (blockAdds sha height (Transactions b)) st"
    by (rule connectTxs_grows [OF st]) (simp add: connInit_def)
  show "s' = applyBlock s (blockSpends (Transactions b)) (blockAdds sha height (Transactions b))"
    unfolding s' fun_eq_iff applyAdds_eq applyBlock_def applyRemovals_eq
    using g by (auto simp: grows_def connInit_def split: option.splits)
  show "map soKey undo = blockSpends (Transactions b)"
    and "distinct (blockSpends (Transactions b))"
    and "\<forall>so\<in>set undo. s (soKey so) = Some (so_Entry so)
           \<or> (soKey so, so_Entry so) \<in> set (blockAdds sha height (Transactions b))"
    using g u by (auto simp: grows_def connInit_def)
qed

section \<open>When a block connects\<close>

text \<open>A block all of whose inputs are in the set, each spent once, connects.\<close>

lemma connectInputs_ok:
  assumes "distinct (map inKey is)" "set (map inKey is) \<inter> (seen \<union> cs_spentInBlock st) = {}"
    and "\<forall>i\<in>set is. s (inKey i) \<noteq> None"
  shows "\<exists>st'. connectInputs s is seen st = Inr st'
           \<and> cs_spentInBlock st' = cs_spentInBlock st \<union> set (map inKey is)"
  using assms
proof (induction s "is" seen st rule: connectInputs.induct)
  case (1 s seen st)
  then show ?case by simp
next
  case (2 s i "is" seen st)
  obtain entry where en:
    "(case cs_createdInBlock st (inKey i) of Some e \<Rightarrow> Some e | None \<Rightarrow> s (inKey i)) = Some entry"
    using 2(4) by (cases "cs_createdInBlock st (inKey i)") auto
  have ns: "inKey i \<notin> seen" "inKey i \<notin> cs_spentInBlock st" using 2(3) by auto
  let ?st = "st\<lparr>cs_undo := cs_undo st @ [\<lparr>so_OutPoint = PreviousOutPoint i, so_Entry = entry\<rparr>],
         cs_spentInBlock := insert (inKey i) (cs_spentInBlock st),
         cs_toRemove := cs_toRemove st @ [inKey i],
         cs_createdInBlock := (cs_createdInBlock st)(inKey i := None)\<rparr>"
  have "\<exists>st'. connectInputs s is (insert (inKey i) seen) ?st = Inr st'
      \<and> cs_spentInBlock st' = cs_spentInBlock ?st \<union> set (map inKey is)"
    by (rule 2(1) [OF refl ns en]) (use 2(2-4) in auto)
  then show ?case using ns en by (auto simp: Let_def)
qed

lemma connectOutputs_spent [simp]:
  "cs_spentInBlock (connectOutputs h height cb outs n st) = cs_spentInBlock st"
  by (induction outs arbitrary: n st) (simp_all add: Let_def)

lemma connectTxs_ok:
  assumes "distinct (blockSpends txs)" "set (blockSpends txs) \<inter> cs_spentInBlock st = {}"
    and "\<forall>k\<in>set (blockSpends txs). s k \<noteq> None"
  shows "\<exists>st'. connectTxs sha s height txs st = Inr st'"
  using assms
proof (induction sha s height txs st rule: connectTxs.induct)
  case (1 sha s height st)
  then show ?case by simp
next
  case (2 sha s height tx txs st)
  have "\<exists>st1. (if \<not> IsCoinbase tx then connectInputs s (Inputs tx) {} st else Inr st) = Inr st1
      \<and> cs_spentInBlock st1 = cs_spentInBlock st \<union> set (txSpends tx)"
    using connectInputs_ok [of "Inputs tx" "{}" st s] 2(2-4)
    by (cases "IsCoinbase tx") (auto simp: txSpends_def)
  then obtain st1 where
    ins: "(if \<not> IsCoinbase tx then connectInputs s (Inputs tx) {} st else Inr st) = Inr st1"
    and sp: "cs_spentInBlock st1 = cs_spentInBlock st \<union> set (txSpends tx)" by blast
  have "\<exists>st'. connectTxs sha s height txs
     (connectOutputs (HashTransaction sha tx) height (IsCoinbase tx) (Outputs tx) 0 st1) = Inr st'"
    by (rule 2(1) [OF ins]) (use 2(2-4) sp in auto)
  then show ?case unfolding connectTxs.simps ins bindR.simps .
qed

lemma ConnectBlock_ok:
  assumes "distinct (blockSpends (Transactions b))"
    and "\<forall>k\<in>set (blockSpends (Transactions b)). s k \<noteq> None"
  shows "\<exists>undo s'. ConnectBlock sha s b height = (Inr undo, s')"
proof -
  have "\<exists>st. connectTxs sha s height (Transactions b) connInit = Inr st"
    using connectTxs_ok assms by (simp add: connInit_def)
  then show ?thesis by (auto simp: ConnectBlock_def)
qed

section \<open>Disconnecting\<close>

lemma DisconnectBlock_eq:
  "DisconnectBlock sha s b undo k =
     (case map_of (rev (map (\<lambda>so. (soKey so, so_Entry so)) undo)) k of
        Some e \<Rightarrow> Some e
      | None \<Rightarrow> if k \<in> fst ` set (blockAdds sha height (Transactions b)) then None else s k)"
proof -
  have "set (concat (map (outputKeys sha) (rev (Transactions b))))
      = fst ` set (blockAdds sha height (Transactions b))"
    by (metis (no_types, lifting) keys_blockAdds list.set_map rev_map set_concat set_rev)
  then show ?thesis
    by (simp add: DisconnectBlock_def applyUndo_eq applyRemovals_eq)
qed

lemma undo_lookup:
  assumes "distinct (map soKey undo)" "so \<in> set undo"
  shows "map_of (rev (map (\<lambda>so. (soKey so, so_Entry so)) undo)) (soKey so) = Some (so_Entry so)"
proof -
  let ?al = "map (\<lambda>so. (soKey so, so_Entry so)) undo"
  have "distinct (map fst (rev ?al))"
    using assms(1) by (simp add: rev_map [symmetric] o_def)
  moreover have "(soKey so, so_Entry so) \<in> set (rev ?al)" using assms(2) by auto
  ultimately show ?thesis by (rule map_of_is_SomeI)
qed

lemma undo_lookup_None:
  "map_of (rev (map (\<lambda>so. (soKey so, so_Entry so)) undo)) k = None \<longleftrightarrow> k \<notin> soKey ` set undo"
  by (auto simp: map_of_eq_None_iff image_iff)

text \<open>
  When no created key was in the set before, disconnecting restores the set exactly for blocks
  that spend none of their own outputs.
\<close>

lemma Disconnect_Connect_iff:
  assumes c: "ConnectBlock sha s b height = (Inr undo, s')"
    and fresh: "fst ` set (blockAdds sha height (Transactions b)) \<inter> dom s = {}"
  shows "DisconnectBlock sha s' b undo = s \<longleftrightarrow>
    set (blockSpends (Transactions b)) \<inter> fst ` set (blockAdds sha height (Transactions b)) = {}"
    (is "?L \<longleftrightarrow> ?spends \<inter> ?created = {}")
proof -
  note eff = ConnectBlock_effect [OF c]
  let ?um = "map_of (rev (map (\<lambda>so. (soKey so, so_Entry so)) undo))"
  have keys: "soKey ` set undo = ?spends" using arg_cong [OF eff(2), of set] by simp
  have dk: "distinct (map soKey undo)" using eff(2,3) by simp
  have out: "DisconnectBlock sha s' b undo k = s k" if "k \<notin> ?spends" for k
  proof -
    have um: "?um k = None" unfolding undo_lookup_None keys using that .
    have "k \<notin> ?created \<Longrightarrow> map_of (rev (blockAdds sha height (Transactions b))) k = None"
      by (simp add: map_of_eq_None_iff)
    moreover have "k \<in> ?created \<Longrightarrow> s k = None" using fresh by blast
    ultimately show ?thesis
      unfolding DisconnectBlock_eq [where height = height] um
      using that by (auto simp: eff(1) applyBlock_def)
  qed
  have spent: "\<exists>e. DisconnectBlock sha s' b undo k = Some e \<and> (s k = Some e \<or> k \<in> ?created)"
    if "k \<in> ?spends" for k
  proof -
    have "k \<in> soKey ` set undo" using that unfolding keys .
    then obtain so where so: "so \<in> set undo" "soKey so = k" by blast
    have "?um k = Some (so_Entry so)" using undo_lookup [OF dk so(1)] so(2) by simp
    moreover have "s k = Some (so_Entry so) \<or> k \<in> ?created"
      using eff(4) so by (metis fst_conv image_eqI)
    ultimately show ?thesis unfolding DisconnectBlock_eq [where height = height] by simp
  qed
  show ?thesis
  proof
    assume L: ?L
    have "k \<notin> ?created" if "k \<in> ?spends" for k
      using spent [OF that] L fresh by (metis IntI domI empty_iff)
    then show "?spends \<inter> ?created = {}" by blast
  next
    assume "?spends \<inter> ?created = {}"
    then have "DisconnectBlock sha s' b undo k = s k" for k
      using out [of k] spent [of k] by (cases "k \<in> ?spends") auto
    then show ?L by (rule ext)
  qed
qed

section \<open>Value\<close>

definition entryVal :: "UtxoEntry option \<Rightarrow> nat" where
  "entryVal eo = (case eo of Some e \<Rightarrow> unat (ue_Value e) | None \<Rightarrow> 0)"

text \<open>Keys of 32 bytes of hash and 4 of index.\<close>

definition wf_keys :: "UtxoSet \<Rightarrow> bool" where
  "wf_keys s \<longleftrightarrow> (\<forall>k\<in>dom s. length k = 36)"

lemma OutpointKey_split: "length k = 36 \<Longrightarrow> OutpointKey (take 32 k) (getLE (drop 32 k)) = k"
  by (simp add: OutpointKey_def)

definition setValue :: "UtxoSet \<Rightarrow> nat" where
  "setValue s = (\<Sum>k\<in>dom s. entryVal (s k))"

lemma entryVal_simps [simp]: "entryVal None = 0" "entryVal (Some e) = unat (ue_Value e)"
  by (simp_all add: entryVal_def)

lemma setValue_superset: "finite K \<Longrightarrow> dom s \<subseteq> K \<Longrightarrow> setValue s = (\<Sum>k\<in>K. entryVal (s k))"
  unfolding setValue_def by (rule sum.mono_neutral_left) (auto simp: domIff)

lemma sum_list_by_key:
  assumes "finite K" "key ` set xs \<subseteq> K"
  shows "sum_list (map f xs) = (\<Sum>k\<in>K. sum_list (map f (filter (\<lambda>x. key x = k) xs)))"
  using assms(2)
proof (induction xs)
  case Nil
  then show ?case by simp
next
  case (Cons x xs)
  have "(\<Sum>k\<in>K. sum_list (map f (filter (\<lambda>y. key y = k) (x # xs))))
      = (\<Sum>k\<in>K. (if k = key x then f x else 0) + sum_list (map f (filter (\<lambda>y. key y = k) xs)))"
    by (rule sum.cong) auto
  also have "\<dots> = f x + sum_list (map f xs)"
    using Cons assms(1) by (simp add: sum.distrib)
  finally show ?case by simp
qed

lemma member_sum_list_key:
  fixes f :: "'a \<Rightarrow> nat"
  shows "x \<in> set xs \<Longrightarrow> key x = k \<Longrightarrow> f x \<le> sum_list (map f (filter (\<lambda>x. key x = k) xs))"
  by (rule member_le_sum_list) auto

text \<open>
  The value after the block plus the value that the set held under the spent keys is at most the
  value before plus the value of the created entries. Entries that a created key overwrites are
  lost, so this holds whatever the transaction hashes are.
\<close>

lemma ConnectBlock_value:
  assumes c: "ConnectBlock sha s b height = (Inr undo, s')" and fin: "finite (dom s)"
  shows "finite (dom s')"
    and "setValue s' + (\<Sum>k\<leftarrow>blockSpends (Transactions b). entryVal (s k))
       \<le> setValue s + (\<Sum>(k, e)\<leftarrow>blockAdds sha height (Transactions b). unat (ue_Value e))"
proof -
  define adds where "adds = blockAdds sha height (Transactions b)"
  define spends where "spends = blockSpends (Transactions b)"
  note eff = ConnectBlock_effect [OF c, folded adds_def spends_def]
  define K where "K = dom s \<union> fst ` set adds \<union> set spends"
  have K: "finite K" "dom s \<subseteq> K" "fst ` set adds \<subseteq> K" "set spends \<subseteq> K"
    using fin by (auto simp: K_def)
  have d': "dom s' \<subseteq> K"
    by (auto simp: eff(1) applyBlock_def K_def dest!: map_of_SomeD split: if_splits option.splits)
       (metis fst_conv image_eqI)
  then show "finite (dom s')" using K(1) finite_subset by blast
  let ?a = "\<lambda>k. sum_list (map (\<lambda>(k, e). unat (ue_Value e)) (filter (\<lambda>x. fst x = k) adds))"
  have ab: "unat (ue_Value e) \<le> ?a k" if "(k, e) \<in> set adds" for k e
    using member_sum_list_key [OF that, of fst k "\<lambda>(k, e). unat (ue_Value e)"] by simp
  have pt: "entryVal (s' k) + (if k \<in> set spends then entryVal (s k) else 0) \<le> entryVal (s k) + ?a k" for k
    by (auto simp: eff(1) applyBlock_def dest!: map_of_SomeD ab intro: trans_le_add2 split: option.splits)
  have "(\<Sum>k\<leftarrow>spends. entryVal (s k)) = (\<Sum>k\<in>set spends. entryVal (s k))"
    using eff(3) by (simp add: sum_list_distinct_conv_sum_set)
  also have "\<dots> = (\<Sum>k\<in>K. if k \<in> set spends then entryVal (s k) else 0)"
    using K by (intro sum.mono_neutral_cong_left) auto
  finally have "setValue s' + (\<Sum>k\<leftarrow>spends. entryVal (s k))
      = (\<Sum>k\<in>K. entryVal (s' k) + (if k \<in> set spends then entryVal (s k) else 0))"
    using setValue_superset [OF K(1) d'] by (simp add: sum.distrib)
  also have "\<dots> \<le> (\<Sum>k\<in>K. entryVal (s k) + ?a k)" using pt by (rule sum_mono)
  also have "\<dots> = setValue s + (\<Sum>(k, e)\<leftarrow>adds. unat (ue_Value e))"
    using setValue_superset [OF K(1,2)] sum_list_by_key [OF K(1,3), of "\<lambda>(k, e). unat (ue_Value e)"]
    by (simp add: sum.distrib)
  finally show "setValue s' + (\<Sum>k\<leftarrow>blockSpends (Transactions b). entryVal (s k))
       \<le> setValue s + (\<Sum>(k, e)\<leftarrow>blockAdds sha height (Transactions b). unat (ue_Value e))"
    by (simp add: adds_def spends_def)
qed

lemma blockAdds_value:
  "(\<Sum>(k, e)\<leftarrow>blockAdds sha h txs. unat (ue_Value e)) = (\<Sum>tx\<leftarrow>txs. \<Sum>out\<leftarrow>Outputs tx. unat (Value out))"
proof (induction txs)
  case (Cons tx txs)
  have "map (\<lambda>(k, e). unat (ue_Value e)) (txAdds sha h tx)
      = map (\<lambda>e. unat (ue_Value e)) (map snd (txAdds sha h tx))"
    by (simp add: case_prod_unfold)
  also have "\<dots> = map (\<lambda>out. unat (Value out)) (Outputs tx)"
    by (simp add: txAdds_def outputKeys_def map_snd_zip mkEntry_def o_def)
  finally show ?case using Cons by simp
qed simp

lemma totalLoop_eq:
  "unat (totalLoop vs acc) = min (unat acc + (\<Sum>v\<leftarrow>vs. unat v)) (2 ^ 64 - 1)"
proof (induction vs acc rule: totalLoop.induct)
  case (1 acc)
  have "unat acc < 2 ^ LENGTH(64)" by (rule unsigned_less)
  then show ?case by simp
next
  case (2 v vs acc)
  show ?case
  proof (cases "acc + v < acc")
    case True
    moreover have "unat (- 1 :: u64) = 2 ^ 64 - 1" by (simp add: unsigned_minus_1_eq_mask mask_eq_exp_minus_1)
    ultimately show ?thesis using add_wraps_iff [of acc v] by simp
  next
    case False
    with 2 show ?thesis by (simp add: unat_add_nowrap add.assoc)
  qed
qed

lemma TotalValue_eq:
  assumes "distinct order" "set order = dom s"
  shows "unat (TotalValue s order) = min (setValue s) (2 ^ 64 - 1)"
proof -
  have "(\<Sum>k\<leftarrow>order. unat (ue_Value (the (s k)))) = (\<Sum>k\<leftarrow>order. entryVal (s k))"
    using assms(2) by (intro arg_cong [where f = sum_list] map_cong) auto
  also have "\<dots> = setValue s"
    using assms by (simp add: setValue_def sum_list_distinct_conv_sum_set)
  finally show ?thesis by (simp add: TotalValue_def totalLoop_eq o_def)
qed

end
