(* ===== verification/Consensus.thy ===== *)
theory Consensus
  imports Params Script Utxo_Props
begin

text \<open>
  The engine-independent consensus rules (\<open>internal/consensus/validation.go\<close> and
  \<open>txvalidation.go\<close>): the structure of a block, header timestamps, and the validation of
  transaction inputs for blocks and for mempool admission. The two input loops of the sources
  are two functions, as there; the identical output and script loops are shared. The access to
  ancestors that the callers pass is a function from heights to optional headers.
\<close>

datatype block_error =
    NoTransactions
  | FirstNotCoinbase
  | CoinbaseScript coinbase_error
  | UnexpectedCoinbase nat
  | TooManyTransactions nat
  | DuplicateTxID hash nat
  | MerkleMismatch hash hash
  | BlockTooLarge nat
  | CoinbaseOverflow
and coinbase_error =
    ScriptSigTooShort nat
  | ScriptSigTooLong nat
  | PushLenRange nat
  | ScriptSigTruncated nat nat
  | HeightMismatch u32 u32

section \<open>Block structure\<close>

text \<open>The loop over the height push: byte \<open>i\<close> is shifted by \<open>8 * i\<close> bits.\<close>

fun encodedHeight :: "bytes \<Rightarrow> nat \<Rightarrow> nat \<Rightarrow> u32 \<Rightarrow> u32" where
  "encodedHeight scriptSig i 0 acc = acc"
| "encodedHeight scriptSig i (Suc n) acc =
     encodedHeight scriptSig (Suc i) n (acc OR push_bit (8 * i) (ucast (scriptSig ! (1 + i))))"

definition validateCoinbaseScriptSig :: "bytes \<Rightarrow> u32 \<Rightarrow> (coinbase_error, unit) res" where
  "validateCoinbaseScriptSig scriptSig height =
     (if length scriptSig < 2 then Inl (ScriptSigTooShort (length scriptSig))
      else if length scriptSig > 100 then Inl (ScriptSigTooLong (length scriptSig))
      else
        let pushLen = unat (scriptSig ! 0) in
        if pushLen < 1 \<or> pushLen > 4 then Inl (PushLenRange pushLen)
        else if length scriptSig < 1 + pushLen
          then Inl (ScriptSigTruncated (1 + pushLen) (length scriptSig))
        else
          let h = encodedHeight scriptSig 0 pushLen 0 in
          if h \<noteq> height then Inl (HeightMismatch h height) else Inr ())"

fun noOtherCoinbase :: "Transaction list \<Rightarrow> nat \<Rightarrow> (block_error, unit) res" where
  "noOtherCoinbase [] i = Inr ()"
| "noOtherCoinbase (tx # txs) i =
     (if IsCoinbase tx then Inl (UnexpectedCoinbase i) else noOtherCoinbase txs (Suc i))"

fun uniqueTxIDs :: "(bytes \<Rightarrow> bytes) \<Rightarrow> Transaction list \<Rightarrow> nat \<Rightarrow> hash set \<Rightarrow> (block_error, unit) res" where
  "uniqueTxIDs sha [] i txIDs = Inr ()"
| "uniqueTxIDs sha (tx # txs) i txIDs =
     (let txID = HashTransaction sha tx in
      if txID \<in> txIDs then Inl (DuplicateTxID txID i)
      else uniqueTxIDs sha txs (Suc i) (insert txID txIDs))"

text \<open>Summing output values with the overflow test of the sources.\<close>

fun sumOutputs :: "'e \<Rightarrow> TxOutput list \<Rightarrow> u64 \<Rightarrow> ('e, u64) res" where
  "sumOutputs err [] acc = Inr acc"
| "sumOutputs err (out # outs) acc =
     (if acc + Value out < acc then Inl err else sumOutputs err outs (acc + Value out))"

definition ValidateBlockStructure :: "(bytes \<Rightarrow> bytes) \<Rightarrow> Block \<Rightarrow> u32 \<Rightarrow> ChainParams \<Rightarrow> (block_error, unit) res" where
  "ValidateBlockStructure sha block height p =
     (if Transactions block = [] then Inl NoTransactions
      else if \<not> IsCoinbase (Transactions block ! 0) then Inl FirstNotCoinbase
      else
        bindR (if height > 0
               then mapErr CoinbaseScript (validateCoinbaseScriptSig
                      (SignatureScript (Inputs (Transactions block ! 0) ! 0)) height)
               else Inr ()) (\<lambda>_.
        bindR (noOtherCoinbase (drop 1 (Transactions block)) 1) (\<lambda>_.
        bindR (guardR (TooManyTransactions (length (Transactions block)))
                 (\<not> (of_nat (length (Transactions block)) :: u32) > MaxBlockTxCount p)) (\<lambda>_.
        bindR (uniqueTxIDs sha (Transactions block) 0 {}) (\<lambda>_.
        let merkle = ComputeMerkleRoot sha (Transactions block) in
        bindR (guardR (MerkleMismatch (MerkleRootH (Header block)) merkle)
                 (merkle = MerkleRootH (Header block))) (\<lambda>_.
        let blockBytes = Block_SerializeToBytes block in
        bindR (guardR (BlockTooLarge (length blockBytes))
                 (\<not> (of_nat (length blockBytes) :: u32) > MaxBlockSize p)) (\<lambda>_.
        bindR (sumOutputs CoinbaseOverflow (Outputs (Transactions block ! 0)) 0) (\<lambda>_.
          Inr ()))))))))"

section \<open>Timestamps\<close>

datatype time_error =
    TooFarInFuture u32 u32
  | NotAfterParent u32 u32
  | NotAfterMedian u32 u32
  | UnknownTimestampRule string

text \<open>
  The timestamps of at most \<open>k\<close> blocks from height \<open>tipHeight - i\<close> downwards; the loop stops at
  height 0 and at the first missing header.
\<close>

fun medianCollect :: "u32 \<Rightarrow> (u32 \<Rightarrow> BlockHeader option) \<Rightarrow> u32 \<Rightarrow> nat \<Rightarrow> u32 list" where
  "medianCollect tipHeight getAncestor i 0 = []"
| "medianCollect tipHeight getAncestor i (Suc k) =
     (if \<not> tipHeight \<ge> i then []
      else case getAncestor (tipHeight - i) of
             None \<Rightarrow> []
           | Some h \<Rightarrow> Timestamp h # medianCollect tipHeight getAncestor (i + 1) k)"

text \<open>
  The insertion sort on the slice. In the inner loop the argument is \<open>j + 1\<close>, so that 0 stands
  for the exit with \<open>j = -1\<close>.
\<close>

fun insShift :: "u32 list \<Rightarrow> nat \<Rightarrow> u32 \<Rightarrow> u32 list" where
  "insShift ts 0 key = ts[0 := key]"
| "insShift ts (Suc j) key =
     (if ts ! j > key then insShift (ts[Suc j := ts ! j]) j key else ts[Suc j := key])"

definition insSort :: "u32 list \<Rightarrow> u32 list" where
  "insSort ts = fold (\<lambda>i ts. insShift ts i (ts ! i)) [1..<length ts] ts"

definition calcMedianTimePast :: "u32 \<Rightarrow> (u32 \<Rightarrow> BlockHeader option) \<Rightarrow> u32" where
  "calcMedianTimePast tipHeight getAncestor =
     (let timestamps = medianCollect tipHeight getAncestor 0 11 in
      if length timestamps = 0 then 0
      else insSort timestamps ! (length timestamps div 2))"

text \<open>\<open>uint32(p.MaxTimeFutureDrift/time.Second)\<close>: Go truncates the quotient towards zero.\<close>

definition driftSeconds :: "ChainParams \<Rightarrow> u32" where
  "driftSeconds p =
     (let d = MaxTimeFutureDrift p in of_int (sgn d * (\<bar>d\<bar> div Second)))"

definition ValidateHeaderTimestamp ::
  "BlockHeader \<Rightarrow> BlockHeader \<Rightarrow> u32 \<Rightarrow> (u32 \<Rightarrow> BlockHeader option) \<Rightarrow> u32 \<Rightarrow> ChainParams \<Rightarrow> (time_error, unit) res" where
  "ValidateHeaderTimestamp header parent nowUnix getAncestor tipHeight p =
     (let maxFuture = nowUnix + driftSeconds p in
      if Timestamp header > maxFuture then Inl (TooFarInFuture (Timestamp header) maxFuture)
      else if MinTimestampRule p = ''prev+1'' then
        (if Timestamp header \<le> Timestamp parent
         then Inl (NotAfterParent (Timestamp header) (Timestamp parent)) else Inr ())
      else if MinTimestampRule p = ''median-11'' then
        (let median = calcMedianTimePast tipHeight getAncestor in
         if Timestamp header \<le> median then Inl (NotAfterMedian (Timestamp header) median) else Inr ())
      else Inl (UnknownTimestampRule (MinTimestampRule p)))"

section \<open>Transaction inputs\<close>

datatype tx_error =
    ZeroValueOutput nat
  | NoInputs
  | NoOutputs
  | DuplicateTxInput nat
  | DoubleSpendInBlock nat
  | MissingTxUtxo nat
  | SpentBeforeCreation nat
  | ImmatureCoinbase nat
  | InputOverflow nat
  | ExceedsMaxMoney nat
  | OutputOverflow nat
  | InputsBelowOutputs u64 u64
  | ScriptFailed nat script_error
  | IsCoinbaseTx

datatype inputs_error =
    CoinbaseZeroValue nat
  | TxInvalid nat tx_error
  | FeesOverflow nat
  | SubsidyOverflow
  | CoinbaseSumOverflow
  | CoinbaseTooLarge u64 u64
  | NoCoinbasePanic

text \<open>The maturity rule for one entry spent at \<open>height\<close>.\<close>

definition maturityCheck :: "ChainParams \<Rightarrow> u32 \<Rightarrow> nat \<Rightarrow> UtxoEntry \<Rightarrow> (tx_error, unit) res" where
  "maturityCheck p height inIdx entry =
     (if ue_IsCoinbase entry then
        (if height < ue_Height entry then Inl (SpentBeforeCreation inIdx)
         else if height - ue_Height entry < CoinbaseMaturity p then Inl (ImmatureCoinbase inIdx)
         else Inr ())
      else Inr ())"

text \<open>The input loop of \<open>ValidateTransactionInputs\<close>: the total and the outpoints spent so far.\<close>

fun blockInputs :: "ChainParams \<Rightarrow> UtxoSet \<Rightarrow> u32 \<Rightarrow> TxInput list \<Rightarrow> nat \<Rightarrow> bytes set \<Rightarrow> bytes set \<Rightarrow> u64
    \<Rightarrow> (tx_error, u64 \<times> bytes set) res" where
  "blockInputs p s height [] inIdx seenInputs spentInBlock totalIn = Inr (totalIn, spentInBlock)"
| "blockInputs p s height (i # is) inIdx seenInputs spentInBlock totalIn =
     (let opKey = inKey i in
      if opKey \<in> seenInputs then Inl (DuplicateTxInput inIdx)
      else if opKey \<in> spentInBlock then Inl (DoubleSpendInBlock inIdx)
      else case Set_Get s (op_Hash (PreviousOutPoint i)) (op_Index (PreviousOutPoint i)) of
             None \<Rightarrow> Inl (MissingTxUtxo inIdx)
           | Some entry \<Rightarrow>
               bindR (maturityCheck p height inIdx entry) (\<lambda>_.
                 if totalIn + ue_Value entry < totalIn then Inl (InputOverflow inIdx)
                 else blockInputs p s height is (Suc inIdx) (insert opKey seenInputs)
                        (insert opKey spentInBlock) (totalIn + ue_Value entry)))"

text \<open>The output loop of both validation functions.\<close>

fun checkOutputs :: "TxOutput list \<Rightarrow> nat \<Rightarrow> u64 \<Rightarrow> (tx_error, u64) res" where
  "checkOutputs [] outIdx totalOut = Inr totalOut"
| "checkOutputs (out # outs) outIdx totalOut =
     (if Value out = 0 then Inl (ZeroValueOutput outIdx)
      else if Value out > MaxMoneyValue then Inl (ExceedsMaxMoney outIdx)
      else if totalOut + Value out < totalOut then Inl (OutputOverflow outIdx)
      else checkOutputs outs (Suc outIdx) (totalOut + Value out))"

text \<open>The script loop of both validation functions.\<close>

fun verifyScripts :: "('sg, 'pk, 'sk) crypto_lib \<Rightarrow> UtxoSet \<Rightarrow> Transaction \<Rightarrow> TxInput list \<Rightarrow> nat \<Rightarrow> (tx_error, unit) res" where
  "verifyScripts L s tx [] inIdx = Inr ()"
| "verifyScripts L s tx (i # is) inIdx =
     (case Set_Get s (op_Hash (PreviousOutPoint i)) (op_Index (PreviousOutPoint i)) of
        None \<Rightarrow> verifyScripts L s tx is (Suc inIdx)
      | Some entry \<Rightarrow>
          if IsLegacyUnvalidatedScript (ue_PkScript entry) then verifyScripts L s tx is (Suc inIdx)
          else bindR (mapErr (ScriptFailed inIdx)
                 (Verify L (SignatureScript i) (ue_PkScript entry) tx (int inIdx))) (\<lambda>_.
                 verifyScripts L s tx is (Suc inIdx)))"

text \<open>The body of the loop over the transactions for a transaction that is not a coinbase.\<close>

definition blockTx :: "('sg, 'pk, 'sk) crypto_lib \<Rightarrow> ChainParams \<Rightarrow> UtxoSet \<Rightarrow> u32 \<Rightarrow> Transaction \<Rightarrow> bytes set
    \<Rightarrow> (tx_error, u64 \<times> bytes set) res" where
  "blockTx L p s height tx spentInBlock =
     (if Inputs tx = [] then Inl NoInputs
      else if Outputs tx = [] then Inl NoOutputs
      else
        bindR (blockInputs p s height (Inputs tx) 0 {} spentInBlock 0) (\<lambda>(totalIn, spentInBlock).
        bindR (checkOutputs (Outputs tx) 0 0) (\<lambda>totalOut.
        bindR (guardR (InputsBelowOutputs totalIn totalOut) (\<not> totalIn < totalOut)) (\<lambda>_.
        bindR (verifyScripts L s tx (Inputs tx) 0) (\<lambda>_.
          Inr (totalIn - totalOut, spentInBlock))))))"

fun zeroValueIndex :: "TxOutput list \<Rightarrow> nat \<Rightarrow> nat option" where
  "zeroValueIndex [] i = None"
| "zeroValueIndex (out # outs) i = (if Value out = 0 then Some i else zeroValueIndex outs (Suc i))"

fun blockTxs :: "('sg, 'pk, 'sk) crypto_lib \<Rightarrow> ChainParams \<Rightarrow> UtxoSet \<Rightarrow> u32 \<Rightarrow> Transaction list \<Rightarrow> nat \<Rightarrow> bytes set \<Rightarrow> u64
    \<Rightarrow> (inputs_error, u64) res" where
  "blockTxs L p s height [] txIdx spentInBlock totalFees = Inr totalFees"
| "blockTxs L p s height (tx # txs) txIdx spentInBlock totalFees =
     (if IsCoinbase tx then
        (case zeroValueIndex (Outputs tx) 0 of
           Some outIdx \<Rightarrow> Inl (CoinbaseZeroValue outIdx)
         | None \<Rightarrow> blockTxs L p s height txs (Suc txIdx) spentInBlock totalFees)
      else
        bindR (mapErr (TxInvalid txIdx) (blockTx L p s height tx spentInBlock)) (\<lambda>(fee, spentInBlock).
          if totalFees + fee < totalFees then Inl (FeesOverflow txIdx)
          else blockTxs L p s height txs (Suc txIdx) spentInBlock (totalFees + fee)))"

definition ValidateTransactionInputs :: "('sg, 'pk, 'sk) crypto_lib \<Rightarrow> Block \<Rightarrow> UtxoSet \<Rightarrow> u32 \<Rightarrow> ChainParams
    \<Rightarrow> (inputs_error, u64) res" where
  "ValidateTransactionInputs L block s height p =
     bindR (blockTxs L p s height (Transactions block) 0 {} 0) (\<lambda>totalFees.
       let subsidy = CalcSubsidy p height; maxCoinbase = subsidy + totalFees in
       if maxCoinbase < subsidy then Inl SubsidyOverflow
       else if Transactions block = [] then Inl NoCoinbasePanic
       else bindR (sumOutputs CoinbaseSumOverflow (Outputs (Transactions block ! 0)) 0) (\<lambda>coinbaseValue.
              if coinbaseValue > maxCoinbase then Inl (CoinbaseTooLarge coinbaseValue maxCoinbase)
              else Inr totalFees))"

section \<open>Single transactions\<close>

fun singleInputs :: "ChainParams \<Rightarrow> UtxoSet \<Rightarrow> u32 \<Rightarrow> TxInput list \<Rightarrow> nat \<Rightarrow> bytes set \<Rightarrow> u64 \<Rightarrow> (tx_error, u64) res" where
  "singleInputs p s spendHeight [] inIdx seenInputs totalIn = Inr totalIn"
| "singleInputs p s spendHeight (i # is) inIdx seenInputs totalIn =
     (let opKey = inKey i in
      if opKey \<in> seenInputs then Inl (DuplicateTxInput inIdx)
      else case Set_Get s (op_Hash (PreviousOutPoint i)) (op_Index (PreviousOutPoint i)) of
             None \<Rightarrow> Inl (MissingTxUtxo inIdx)
           | Some entry \<Rightarrow>
               bindR (maturityCheck p spendHeight inIdx entry) (\<lambda>_.
                 if totalIn + ue_Value entry < totalIn then Inl (InputOverflow inIdx)
                 else singleInputs p s spendHeight is (Suc inIdx) (insert opKey seenInputs)
                        (totalIn + ue_Value entry)))"

definition ValidateSingleTransaction :: "('sg, 'pk, 'sk) crypto_lib \<Rightarrow> Transaction \<Rightarrow> UtxoSet \<Rightarrow> u32 \<Rightarrow> ChainParams
    \<Rightarrow> (tx_error, u64) res" where
  "ValidateSingleTransaction L tx s tipHeight p =
     (if IsCoinbase tx then Inl IsCoinbaseTx
      else if Inputs tx = [] then Inl NoInputs
      else if Outputs tx = [] then Inl NoOutputs
      else
        bindR (singleInputs p s (tipHeight + 1) (Inputs tx) 0 {} 0) (\<lambda>totalIn.
        bindR (checkOutputs (Outputs tx) 0 0) (\<lambda>totalOut.
        bindR (guardR (InputsBelowOutputs totalIn totalOut) (\<not> totalIn < totalOut)) (\<lambda>_.
        bindR (verifyScripts L s tx (Inputs tx) 0) (\<lambda>_.
          Inr (totalIn - totalOut))))))"

fun feeInputs :: "UtxoSet \<Rightarrow> TxInput list \<Rightarrow> u64 \<Rightarrow> u64 option" where
  "feeInputs s [] totalIn = Some totalIn"
| "feeInputs s (i # is) totalIn =
     (case Set_Get s (op_Hash (PreviousOutPoint i)) (op_Index (PreviousOutPoint i)) of
        None \<Rightarrow> feeInputs s is totalIn
      | Some entry \<Rightarrow>
          if totalIn + ue_Value entry < totalIn then None else feeInputs s is (totalIn + ue_Value entry))"

fun feeOutputs :: "TxOutput list \<Rightarrow> u64 \<Rightarrow> u64 option" where
  "feeOutputs [] totalOut = Some totalOut"
| "feeOutputs (out # outs) totalOut =
     (if totalOut + Value out < totalOut then None else feeOutputs outs (totalOut + Value out))"

definition CalcTxFee :: "Transaction \<Rightarrow> UtxoSet \<Rightarrow> u64" where
  "CalcTxFee tx s =
     (if IsCoinbase tx then 0
      else case feeInputs s (Inputs tx) 0 of
             None \<Rightarrow> 0
           | Some totalIn \<Rightarrow>
               (case feeOutputs (Outputs tx) 0 of
                  None \<Rightarrow> 0
                | Some totalOut \<Rightarrow> if totalIn \<le> totalOut then 0 else totalIn - totalOut))"

end
