(* ===== verification/Consensus_Props.thy ===== *)
theory Consensus_Props
  imports Consensus
begin

text \<open>
  What the consensus rules guarantee: inversion lemmas for the loops of the validation
  functions, the value balance of a validated block, that a validated block connects, the
  agreement of mempool and block validation, and the correctness of the median.
\<close>

section \<open>Inversion of the loops\<close>

definition outSum :: "Transaction \<Rightarrow> nat" where
  "outSum tx = (\<Sum>out\<leftarrow>Outputs tx. unat (Value out))"

definition inSum :: "UtxoSet \<Rightarrow> TxInput list \<Rightarrow> nat" where
  "inSum s is = (\<Sum>i\<leftarrow>is. entryVal (s (inKey i)))"

lemma Set_Get_key [simp]: "Set_Get s (op_Hash (PreviousOutPoint i)) (op_Index (PreviousOutPoint i)) = s (inKey i)"
  by (simp add: Set_Get_def)

lemma sumOutputs_ok:
  "sumOutputs err outs acc = Inr v \<Longrightarrow> unat v = unat acc + (\<Sum>out\<leftarrow>outs. unat (Value out))"
  by (induction err outs acc rule: sumOutputs.induct) (auto simp: unat_add_nowrap split: if_splits)

lemma checkOutputs_ok:
  "checkOutputs outs n acc = Inr v \<Longrightarrow>
     unat v = unat acc + (\<Sum>out\<leftarrow>outs. unat (Value out))
     \<and> (\<forall>out\<in>set outs. Value out \<noteq> 0 \<and> Value out \<le> MaxMoneyValue)"
  by (induction outs n acc rule: checkOutputs.induct) (auto simp: unat_add_nowrap split: if_splits)

definition spendable :: "ChainParams \<Rightarrow> UtxoSet \<Rightarrow> u32 \<Rightarrow> bytes \<Rightarrow> bool" where
  "spendable p s height k \<longleftrightarrow>
     (\<exists>e. s k = Some e \<and> (ue_IsCoinbase e \<longrightarrow>
        ue_Height e \<le> height \<and> unat (CoinbaseMaturity p) \<le> unat height - unat (ue_Height e)))"

lemma maturityCheck_ok:
  "maturityCheck p height n e = Inr u \<longleftrightarrow> (ue_IsCoinbase e \<longrightarrow>
     ue_Height e \<le> height \<and> unat (CoinbaseMaturity p) \<le> unat height - unat (ue_Height e))"
  by (auto simp: maturityCheck_def not_less word_le_nat_alt word_less_nat_alt unat_sub split: if_splits)

lemma blockInputs_ok:
  assumes "blockInputs p s height is n seen spent acc = Inr (v, spent')"
  shows "unat v = unat acc + inSum s is \<and> distinct (map inKey is)
     \<and> set (map inKey is) \<inter> (seen \<union> spent) = {} \<and> spent' = spent \<union> set (map inKey is)
     \<and> (\<forall>k\<in>set (map inKey is). spendable p s height k)"
  using assms
proof (induction p s height "is" n seen spent acc rule: blockInputs.induct)
  case (1 p s height n seen spent acc)
  then show ?case by (simp add: inSum_def)
next
  case (2 p s height i "is" n seen spent acc)
  from 2(2) obtain e u where e: "inKey i \<notin> seen" "inKey i \<notin> spent" "s (inKey i) = Some e"
      "maturityCheck p height n e = Inr u" "\<not> acc + ue_Value e < acc"
    and r: "blockInputs p s height is (Suc n) (insert (inKey i) seen) (insert (inKey i) spent)
           (acc + ue_Value e) = Inr (v, spent')"
    by (auto simp: Let_def res_simps split: if_splits option.splits)
  have "spendable p s height (inKey i)"
    using e(3,4) by (simp add: spendable_def maturityCheck_ok)
  then show ?case
    using 2(1) [OF refl e(1,2) _ e(4,5) r] e(1-3,5) by (auto simp: inSum_def unat_add_nowrap)
qed

text \<open>
  The block loop on inputs that no earlier transaction of the block spends is the loop for
  single transactions.
\<close>

lemma blockInputs_single:
  assumes "\<forall>i\<in>set is. inKey i \<in> spent \<longrightarrow> inKey i \<in> seen"
  shows "blockInputs p s height is n seen spent acc =
     bindR (singleInputs p s height is n seen acc) (\<lambda>v. Inr (v, spent \<union> set (map inKey is)))"
  using assms
proof (induction "is" arbitrary: n seen spent acc)
  case Nil
  then show ?case by simp
next
  case (Cons i "is")
  show ?case
  proof (cases "inKey i \<in> seen")
    case True
    then show ?thesis by (simp add: Let_def)
  next
    case False
    with Cons.prems have ns: "inKey i \<notin> spent" by simp
    show ?thesis
    proof (cases "s (inKey i)")
      case None
      then show ?thesis using False ns by (simp add: Let_def)
    next
      case (Some e)
      have "blockInputs p s height is (Suc n) (insert (inKey i) seen) (insert (inKey i) spent) (acc + ue_Value e)
          = bindR (singleInputs p s height is (Suc n) (insert (inKey i) seen) (acc + ue_Value e))
              (\<lambda>v. Inr (v, insert (inKey i) spent \<union> set (map inKey is)))"
        by (rule Cons.IH) (use Cons.prems in auto)
      then show ?thesis
        using False ns Some by (cases "maturityCheck p height n e") (simp_all add: Let_def)
    qed
  qed
qed

lemma verifyScripts_ok:
  assumes "verifyScripts L s tx is n = Inr u" "\<forall>i\<in>set is. s (inKey i) \<noteq> None" "j < length is"
  shows "isOk (Verify L (SignatureScript (is ! j)) (ue_PkScript (the (s (inKey (is ! j))))) tx (int (n + j)))"
  using assms
proof (induction "is" arbitrary: n j)
  case Nil
  then show ?case by simp
next
  case (Cons i "is")
  then obtain e where e: "s (inKey i) = Some e" by auto
  with Cons.prems(1) obtain w where w: "Verify L (SignatureScript i) (ue_PkScript e) tx (int n) = Inr w"
    and r: "verifyScripts L s tx is (Suc n) = Inr u"
    by (auto simp: res_simps IsLegacyUnvalidatedScript_def)
  show ?case
  proof (cases j)
    case 0
    then show ?thesis using e w by simp
  next
    case (Suc j')
    then show ?thesis using Cons.IH [OF r, of j'] Cons.prems by simp
  qed
qed

section \<open>Validated transactions\<close>

text \<open>Everything \<open>blockTx\<close> establishes about a transaction it accepts.\<close>

lemma blockTx_ok:
  assumes "blockTx L p s height tx spent = Inr (fee, spent')"
  shows "unat fee + outSum tx = inSum s (Inputs tx)"
    and "distinct (map inKey (Inputs tx))" "set (map inKey (Inputs tx)) \<inter> spent = {}"
    and "spent' = spent \<union> set (map inKey (Inputs tx))"
    and "\<forall>k\<in>set (map inKey (Inputs tx)). spendable p s height k"
    and "\<forall>out\<in>set (Outputs tx). Value out \<noteq> 0 \<and> Value out \<le> MaxMoneyValue"
    and "\<forall>j<length (Inputs tx). isOk (Verify L (SignatureScript (Inputs tx ! j))
           (ue_PkScript (the (s (inKey (Inputs tx ! j))))) tx (int j))"
proof -
  from assms obtain totalIn totalOut w where
    i: "blockInputs p s height (Inputs tx) 0 {} spent 0 = Inr (totalIn, spent')"
    and o: "checkOutputs (Outputs tx) 0 0 = Inr totalOut" and le: "\<not> totalIn < totalOut"
    and v: "verifyScripts L s tx (Inputs tx) 0 = Inr w" and f: "fee = totalIn - totalOut"
    by (auto simp: blockTx_def res_simps split: if_splits)
  note bi = blockInputs_ok [OF i] and co = checkOutputs_ok [OF o]
  show "distinct (map inKey (Inputs tx))" "set (map inKey (Inputs tx)) \<inter> spent = {}"
    "spent' = spent \<union> set (map inKey (Inputs tx))"
    "\<forall>k\<in>set (map inKey (Inputs tx)). spendable p s height k"
    "\<forall>out\<in>set (Outputs tx). Value out \<noteq> 0 \<and> Value out \<le> MaxMoneyValue"
    using bi co by auto
  have "unat fee = unat totalIn - unat totalOut" "unat totalOut \<le> unat totalIn"
    using le f by (simp_all add: not_less unat_sub word_le_nat_alt)
  then show "unat fee + outSum tx = inSum s (Inputs tx)"
    using bi co by (simp add: outSum_def)
  have "\<forall>i\<in>set (Inputs tx). s (inKey i) \<noteq> None"
    using bi by (auto simp: spendable_def)
  from verifyScripts_ok [OF v this]
  show "\<forall>j<length (Inputs tx). isOk (Verify L (SignatureScript (Inputs tx ! j))
           (ue_PkScript (the (s (inKey (Inputs tx ! j))))) tx (int j))" by simp
qed

text \<open>The sum of the outputs of the transactions that are not coinbases.\<close>

definition spendOut :: "Transaction list \<Rightarrow> nat" where
  "spendOut txs = (\<Sum>tx\<leftarrow>txs. if IsCoinbase tx then 0 else outSum tx)"

lemma blockTxs_ok:
  assumes "blockTxs L p s height txs n spent fees = Inr fees'"
  shows "unat fees' + spendOut txs = unat fees + (\<Sum>k\<leftarrow>blockSpends txs. entryVal (s k))
     \<and> distinct (blockSpends txs) \<and> set (blockSpends txs) \<inter> spent = {}
     \<and> (\<forall>k\<in>set (blockSpends txs). spendable p s height k)
     \<and> (\<forall>tx\<in>set txs. \<not> IsCoinbase tx \<longrightarrow> (\<exists>sp fee sp'. blockTx L p s height tx sp = Inr (fee, sp')))"
  using assms
proof (induction txs arbitrary: n spent fees)
  case Nil
  then show ?case by (simp add: spendOut_def)
next
  case (Cons tx txs)
  show ?case
  proof (cases "IsCoinbase tx")
    case True
    with Cons.prems have "blockTxs L p s height txs (Suc n) spent fees = Inr fees'"
      by (auto split: option.splits)
    from Cons.IH [OF this] True show ?thesis by (simp add: spendOut_def txSpends_def)
  next
    case False
    with Cons.prems obtain fee sp where b: "blockTx L p s height tx spent = Inr (fee, sp)"
      and nw: "\<not> fees + fee < fees"
      and r: "blockTxs L p s height txs (Suc n) sp (fees + fee) = Inr fees'"
      by (auto simp: res_simps split: if_splits)
    note t = blockTx_ok [OF b]
    have "txSpends tx = map inKey (Inputs tx)" using False by (simp add: txSpends_def)
    moreover have "(\<Sum>k\<leftarrow>map inKey (Inputs tx). entryVal (s k)) = inSum s (Inputs tx)"
      by (simp add: inSum_def o_def)
    ultimately show ?thesis
      using Cons.IH [OF r] t(1-5) b False nw
      by (auto simp: spendOut_def unat_add_nowrap o_def)
  qed
qed

section \<open>Validated blocks\<close>

lemma noOtherCoinbase_ok: "noOtherCoinbase txs n = Inr u \<longleftrightarrow> list_all (\<lambda>tx. \<not> IsCoinbase tx) txs"
  by (induction txs n rule: noOtherCoinbase.induct) auto

lemma uniqueTxIDs_ok:
  "uniqueTxIDs sha txs n ids = Inr u \<longleftrightarrow>
     distinct (map (HashTransaction sha) txs) \<and> set (map (HashTransaction sha) txs) \<inter> ids = {}"
  by (induction sha txs n ids rule: uniqueTxIDs.induct) (auto simp: Let_def)

text \<open>What \<open>ValidateBlockStructure\<close> establishes.\<close>

lemma ValidateBlockStructure_ok:
  assumes "ValidateBlockStructure sha b height p = Inr u"
  shows "\<exists>cb txs. Transactions b = cb # txs \<and> IsCoinbase cb \<and> list_all (\<lambda>tx. \<not> IsCoinbase tx) txs
     \<and> distinct (map (HashTransaction sha) (cb # txs))
     \<and> ComputeMerkleRoot sha (cb # txs) = MerkleRootH (Header b)
     \<and> (height > 0 \<longrightarrow> isOk (validateCoinbaseScriptSig (SignatureScript (Inputs cb ! 0)) height))"
  using assms
  by (cases "Transactions b")
     (auto simp: ValidateBlockStructure_def res_simps noOtherCoinbase_ok uniqueTxIDs_ok Let_def isOk_iff
       split: if_splits)

lemma ValidateTransactionInputs_ok:
  assumes "ValidateTransactionInputs L b s height p = Inr fees"
  shows "unat fees + spendOut (Transactions b) = (\<Sum>k\<leftarrow>blockSpends (Transactions b). entryVal (s k))"
    and "distinct (blockSpends (Transactions b))"
    and "\<forall>k\<in>set (blockSpends (Transactions b)). spendable p s height k"
    and "\<forall>tx\<in>set (Transactions b). \<not> IsCoinbase tx \<longrightarrow>
           (\<exists>sp fee sp'. blockTx L p s height tx sp = Inr (fee, sp'))"
    and "outSum (Transactions b ! 0) \<le> unat (CalcSubsidy p height) + unat fees"
proof -
  from assms obtain cv where t: "blockTxs L p s height (Transactions b) 0 {} 0 = Inr fees"
    and nw: "\<not> CalcSubsidy p height + fees < CalcSubsidy p height"
    and c: "sumOutputs CoinbaseSumOverflow (Outputs (Transactions b ! 0)) 0 = Inr cv"
    and le: "\<not> cv > CalcSubsidy p height + fees"
    by (auto simp: ValidateTransactionInputs_def res_simps Let_def split: if_splits)
  note ok = blockTxs_ok [OF t]
  show "unat fees + spendOut (Transactions b) = (\<Sum>k\<leftarrow>blockSpends (Transactions b). entryVal (s k))"
    and "distinct (blockSpends (Transactions b))"
    and "\<forall>k\<in>set (blockSpends (Transactions b)). spendable p s height k"
    and "\<forall>tx\<in>set (Transactions b). \<not> IsCoinbase tx \<longrightarrow>
           (\<exists>sp fee sp'. blockTx L p s height tx sp = Inr (fee, sp'))"
    using ok by auto
  show "outSum (Transactions b ! 0) \<le> unat (CalcSubsidy p height) + unat fees"
    using le sumOutputs_ok [OF c] unat_add_nowrap [OF nw]
    by (simp add: outSum_def not_less word_le_nat_alt)
qed

lemma outSum_split:
  assumes "Transactions b = cb # txs" "IsCoinbase cb" "list_all (\<lambda>tx. \<not> IsCoinbase tx) txs"
  shows "(\<Sum>tx\<leftarrow>Transactions b. outSum tx) = outSum cb + spendOut (Transactions b)"
proof -
  have "(\<Sum>tx\<leftarrow>txs. if IsCoinbase tx then 0 else outSum tx) = (\<Sum>tx\<leftarrow>txs. outSum tx)"
    using assms(3) by (intro arg_cong [where f = sum_list] map_cong) (auto simp: list_all_iff)
  then show ?thesis using assms by (simp add: spendOut_def)
qed

text \<open>A block both validators accept, as a predicate.\<close>

definition validBlock :: "('sg, 'pk, 'sk) crypto_lib \<Rightarrow> ChainParams \<Rightarrow> UtxoSet \<Rightarrow> u32 \<Rightarrow> Block \<Rightarrow> bool" where
  "validBlock L p s height b \<longleftrightarrow>
     isOk (ValidateBlockStructure (lib_sha L) b height p)
     \<and> isOk (ValidateTransactionInputs L b s height p)"

lemma validBlock_connects:
  assumes "isOk (ValidateTransactionInputs L b s height p)"
  shows "\<exists>undo s'. ConnectBlock sha s b height = (Inr undo, s')"
proof -
  from assms obtain fees where "ValidateTransactionInputs L b s height p = Inr fees"
    by (auto simp: isOk_iff)
  from ValidateTransactionInputs_ok(2,3) [OF this] show ?thesis
    by (intro ConnectBlock_ok) (auto simp: spendable_def)
qed

lemma validBlock_value:
  assumes v: "validBlock L p s height b" and fin: "finite (dom s)"
    and c: "ConnectBlock (lib_sha L) s b height = (Inr undo, s')"
  shows "finite (dom s') \<and> setValue s' \<le> setValue s + unat (CalcSubsidy p height)"
proof -
  from v obtain u fees where bs: "ValidateBlockStructure (lib_sha L) b height p = Inr u"
    and ti: "ValidateTransactionInputs L b s height p = Inr fees"
    by (auto simp: validBlock_def isOk_iff)
  from ValidateBlockStructure_ok [OF bs] obtain cb txs where
    b: "Transactions b = cb # txs" "IsCoinbase cb" "list_all (\<lambda>tx. \<not> IsCoinbase tx) txs" by blast
  note t = ValidateTransactionInputs_ok [OF ti]
  have "(\<Sum>(k, e)\<leftarrow>blockAdds (lib_sha L) height (Transactions b). unat (ue_Value e))
      = outSum cb + spendOut (Transactions b)"
    using outSum_split [OF b] by (simp add: blockAdds_value outSum_def)
  moreover have "outSum cb \<le> unat (CalcSubsidy p height) + unat fees" using t(5) b(1) by simp
  ultimately show ?thesis
    using ConnectBlock_value [OF c fin] t(1) by linarith
qed

section \<open>The median\<close>

lemma insShift_spec:
  assumes "sorted xs"
  shows "\<exists>zs. insShift (xs @ g # ys) (length xs) key = zs @ ys
     \<and> mset zs = add_mset key (mset xs) \<and> sorted zs"
  using assms
proof (induction xs arbitrary: g ys rule: rev_induct)
  case Nil
  then show ?case by (intro exI [of _ "[key]"]) simp
next
  case (snoc x xs)
  have nth: "((xs @ [x]) @ g # ys) ! length xs = x" by (simp add: nth_append)
  show ?case
  proof (cases "x > key")
    case True
    from snoc obtain zs where zs: "insShift (xs @ x # x # ys) (length xs) key = zs @ x # ys"
      "mset zs = add_mset key (mset xs)" "sorted zs"
      by (metis sorted_append)
    have "\<forall>z\<in>set zs. z \<le> x"
      using zs(2) snoc.prems True by (auto simp: sorted_append simp flip: set_mset_mset)
    then have "insShift ((xs @ [x]) @ g # ys) (length (xs @ [x])) key = (zs @ [x]) @ ys
        \<and> mset (zs @ [x]) = add_mset key (mset (xs @ [x])) \<and> sorted (zs @ [x])"
      using zs True nth by (simp add: sorted_append list_update_append)
    then show ?thesis by blast
  next
    case False
    then have "insShift ((xs @ [x]) @ g # ys) (length (xs @ [x])) key = (xs @ [x, key]) @ ys"
      using nth by (simp add: list_update_append)
    moreover have "sorted (xs @ [x, key])"
      using snoc.prems False by (auto simp: sorted_append)
    ultimately show ?thesis by (intro exI [of _ "xs @ [x, key]"]) simp
  qed
qed

lemma insSort_prefix:
  assumes "Suc 0 \<le> n" "n \<le> length ts"
  shows "\<exists>zs. fold (\<lambda>i ts. insShift ts i (ts ! i)) [Suc 0..<n] ts = zs @ drop n ts
     \<and> sorted zs \<and> mset zs = mset (take n ts)"
  using assms
proof (induction n rule: nat_induct_at_least)
  case base
  then show ?case by (cases ts) (auto intro!: exI [of _ "[hd ts]"])
next
  case (Suc n)
  then obtain zs where zs: "fold (\<lambda>i ts. insShift ts i (ts ! i)) [Suc 0..<n] ts = zs @ drop n ts"
    "sorted zs" "mset zs = mset (take n ts)" by auto
  have len: "length zs = n" using zs(3) Suc.prems by (metis length_take min.absorb2 mset_eq_length Suc_leD)
  have dr: "drop n ts = ts ! n # drop (Suc n) ts" using Suc.prems by (simp add: Cons_nth_drop_Suc)
  obtain ws where ws: "insShift (zs @ ts ! n # drop (Suc n) ts) (length zs) (ts ! n) = ws @ drop (Suc n) ts"
    "mset ws = add_mset (ts ! n) (mset zs)" "sorted ws"
    using insShift_spec [OF zs(2)] by blast
  have "mset ws = mset (take (Suc n) ts)"
    using ws(2) zs(3) Suc.prems by (simp add: take_Suc_conv_app_nth)
  then show ?case
    using ws zs(1) len dr Suc.hyps by (auto simp: nth_append)
qed

lemma insSort_eq_sort: "insSort ts = sort ts"
proof (cases "ts = []")
  case True
  then show ?thesis by (simp add: insSort_def)
next
  case False
  then obtain zs where "insSort ts = zs" "sorted zs" "mset zs = mset ts"
    using insSort_prefix [of "length ts" ts] by (auto simp: insSort_def Suc_le_eq)
  then show ?thesis by (metis properties_for_sort)
qed

lemma length_medianCollect: "length (medianCollect tip g i k) \<le> k"
  by (induction tip g i k rule: medianCollect.induct) (auto split: option.splits)

end
