(* ===== verification/Ledger.thy ===== *)
theory Ledger
  imports Consensus_Props
begin

text \<open>
  The ledger as a state machine: the set of unspent outputs reachable from the genesis block by
  connecting blocks that both validators accept at their height. This is the specification that
  the chain manager's sequence of \<open>ValidateBlock\<close>, \<open>ValidateTransactionInputs\<close> and
  \<open>ConnectBlock\<close> calls on the active chain implements; properties of all reachable sets are
  proved by rule induction.
\<close>

inductive ledger :: "('sg, 'pk, 'sk) crypto_lib \<Rightarrow> ChainParams \<Rightarrow> nat \<Rightarrow> UtxoSet \<Rightarrow> bool" for L p where
  genesis: "ledger L p 0 (ConnectGenesis (lib_sha L) NewSet (GenesisBlock p))"
| extend: "ledger L p n s \<Longrightarrow> validBlock L p s (of_nat (Suc n)) b \<Longrightarrow>
     ConnectBlock (lib_sha L) s b (of_nat (Suc n)) = (Inr undo, s') \<Longrightarrow> ledger L p (Suc n) s'"

inductive_cases ledger_SucE: "ledger L p (Suc n) s"

section \<open>Genesis\<close>

lemma genesisOutputs_dom:
  "finite (dom s) \<Longrightarrow> finite (dom (genesisOutputs h cb outs i s))"
  by (induction h cb outs i s rule: genesisOutputs.induct) (simp add: Set_Add_def)+

lemma ConnectGenesis_finite: "finite (dom (ConnectGenesis sha NewSet b))"
proof -
  have "finite (dom (fold (\<lambda>tx s. genesisOutputs (HashTransaction sha tx) (IsCoinbase tx) (Outputs tx) 0 s) txs s))"
    if "finite (dom s)" for txs and s :: UtxoSet
    using that by (induction txs arbitrary: s) (simp_all add: genesisOutputs_dom)
  then show ?thesis by (simp add: ConnectGenesis_def NewSet_def)
qed

section \<open>Supply\<close>

lemma ledger_supply:
  "ledger L p n s \<Longrightarrow> finite (dom s) \<and>
     setValue s \<le> setValue (ConnectGenesis (lib_sha L) NewSet (GenesisBlock p))
       + (\<Sum>h\<in>{1..n}. unat (CalcSubsidy p (of_nat h)))"
proof (induction rule: ledger.induct)
  case genesis
  then show ?case by (simp add: ConnectGenesis_finite)
next
  case (extend n s b undo s')
  have "finite (dom s') \<and> setValue s' \<le> setValue s + unat (CalcSubsidy p (of_nat (Suc n)))"
    using validBlock_value [OF extend.hyps(2) _ extend.hyps(3)] extend.IH by blast
  moreover have "(\<Sum>h\<in>{1..Suc n}. unat (CalcSubsidy p (of_nat h)))
      = (\<Sum>h\<in>{1..n}. unat (CalcSubsidy p (of_nat h))) + unat (CalcSubsidy p (of_nat (Suc n)))"
    by (subst sum.cl_ivl_Suc) simp
  ultimately show ?case using extend.IH by linarith
qed

lemma subsidy_sum_le:
  assumes "SubsidyHalvingInterval p \<noteq> 0" "n < 2 ^ 32"
  shows "(\<Sum>h\<in>{1..n}. unat (CalcSubsidy p (of_nat h)))
    \<le> unat (SubsidyHalvingInterval p) * (\<Sum>i<64. unat (InitialSubsidy p) div 2 ^ i)"
proof -
  let ?I = "unat (SubsidyHalvingInterval p)" and ?S = "unat (InitialSubsidy p)"
  let ?f = "\<lambda>h. if h div ?I \<ge> 64 then 0 else ?S div 2 ^ (h div ?I)"
  have I: "0 < ?I" using assms(1) by (simp add: unat_gt_0)
  have "(\<Sum>h\<in>{1..n}. unat (CalcSubsidy p (of_nat h))) = (\<Sum>h\<in>{1..n}. ?f h)"
    using assms by (intro sum.cong) (auto simp: unat_CalcSubsidy)
  also have "\<dots> \<le> (\<Sum>h<Suc n. ?f h)" by (rule sum_mono2) auto
  also have "\<dots> \<le> ?I * (\<Sum>i<64. ?S div 2 ^ i)" by (rule subsidy_sum_bound [OF I])
  finally show ?thesis .
qed

lemma mainnet_genesis_empty: "ConnectGenesis sha NewSet (GenesisBlock Mainnet) = Map.empty"
  by (simp add: ConnectGenesis_def Mainnet_def NewSet_def isLegacyPlaceholder_def)

end
