(* ===== verification/Mempool.thy ===== *)
theory Mempool
  imports Consensus_Props "HOL-Library.Product_Lexorder"
begin

text \<open>
  The memory pool (\<open>internal/mempool/mempool.go\<close>). The state is a record with the two Go maps,
  the parameters, the content of the shared set of unspent outputs and the tip height; the lock
  makes every method atomic. Where a method ranges over a map, \<open>order\<close> is the order in which the
  keys are visited, which Go leaves open.
\<close>

record TxEntry =
  te_Tx :: Transaction
  te_Hash :: hash
  te_Fee :: u64
  te_FeeRate :: u64
  te_Size :: nat

record Mempool =
  mp_txs :: "hash \<rightharpoonup> TxEntry"
  mp_p :: ChainParams
  mp_spentOutpoints :: "bytes \<rightharpoonup> hash"
  mp_utxoSet :: UtxoSet
  mp_tipHeight :: u32

datatype mempool_error =
    MpCoinbase
  | MpNoInputs
  | MpNoOutputs
  | MpExists hash
  | MpFull nat
  | MpDoubleSpend bytes hash
  | MpInvalid tx_error
  | MpFeeTooLow u64

definition New :: "ChainParams \<Rightarrow> UtxoSet \<Rightarrow> Mempool" where
  "New p s = \<lparr>mp_txs = Map.empty, mp_p = p, mp_spentOutpoints = Map.empty, mp_utxoSet = s, mp_tipHeight = 0\<rparr>"

definition SetTipHeight :: "Mempool \<Rightarrow> u32 \<Rightarrow> Mempool" where
  "SetTipHeight m height = m\<lparr>mp_tipHeight := height\<rparr>"

section \<open>Admission\<close>

text \<open>The first input that another transaction of the pool spends, with that transaction.\<close>

fun findConflict :: "(bytes \<rightharpoonup> hash) \<Rightarrow> TxInput list \<Rightarrow> (bytes \<times> hash) option" where
  "findConflict spent [] = None"
| "findConflict spent (i # is) =
     (case spent (inKey i) of Some conflictTx \<Rightarrow> Some (inKey i, conflictTx) | None \<Rightarrow> findConflict spent is)"

definition markSpent :: "hash \<Rightarrow> TxInput list \<Rightarrow> (bytes \<rightharpoonup> hash) \<Rightarrow> (bytes \<rightharpoonup> hash)" where
  "markSpent txHash is spent = fold (\<lambda>i sp. sp(inKey i \<mapsto> txHash)) is spent"

text \<open>The result of \<open>AddTx\<close> and the pool after it; an error leaves the pool as it was.\<close>

definition AddTx :: "('sg, 'pk, 'sk) crypto_lib \<Rightarrow> Mempool \<Rightarrow> Transaction \<Rightarrow> (mempool_error, hash) res \<times> Mempool" where
  "AddTx L m tx =
     (if IsCoinbase tx then (Inl MpCoinbase, m)
      else if Inputs tx = [] then (Inl MpNoInputs, m)
      else if Outputs tx = [] then (Inl MpNoOutputs, m)
      else
        let txHash = HashTransaction (lib_sha L) tx in
        if mp_txs m txHash \<noteq> None then (Inl (MpExists txHash), m)
        else if (of_nat (card (dom (mp_txs m))) :: u32) \<ge> MaxMempoolSize (mp_p m)
          then (Inl (MpFull (card (dom (mp_txs m)))), m)
        else case findConflict (mp_spentOutpoints m) (Inputs tx) of
               Some (key, conflictTx) \<Rightarrow> (Inl (MpDoubleSpend key conflictTx), m)
             | None \<Rightarrow>
                 (case ValidateSingleTransaction L tx (mp_utxoSet m) (mp_tipHeight m) (mp_p m) of
                    Inl e \<Rightarrow> (Inl (MpInvalid e), m)
                  | Inr fee \<Rightarrow>
                      let txSize = SerializeSize tx; txSize = (if txSize = 0 then 1 else txSize) in
                      if MinRelayTxFee (mp_p m) > 0 \<and> fee < MinRelayTxFee (mp_p m)
                      then (Inl (MpFeeTooLow fee), m)
                      else
                        let entry = \<lparr>te_Tx = tx, te_Hash = txHash, te_Fee = fee,
                                     te_FeeRate = fee div of_nat txSize, te_Size = txSize\<rparr> in
                        (Inr txHash,
                         m\<lparr>mp_txs := (mp_txs m)(txHash \<mapsto> entry),
                           mp_spentOutpoints := markSpent txHash (Inputs tx) (mp_spentOutpoints m)\<rparr>)))"

definition GetTx :: "Mempool \<Rightarrow> hash \<Rightarrow> Transaction option" where
  "GetTx m h = map_option te_Tx (mp_txs m h)"

definition GetTxEntry :: "Mempool \<Rightarrow> hash \<Rightarrow> TxEntry option" where
  "GetTxEntry m h = mp_txs m h"

definition HasTx :: "Mempool \<Rightarrow> hash \<Rightarrow> bool" where
  "HasTx m h \<longleftrightarrow> mp_txs m h \<noteq> None"

section \<open>Removal\<close>

definition unmarkSpent :: "TxInput list \<Rightarrow> (bytes \<rightharpoonup> hash) \<Rightarrow> (bytes \<rightharpoonup> hash)" where
  "unmarkSpent is spent = fold (\<lambda>i sp. sp(inKey i := None)) is spent"

definition removeTxUnsafe :: "Mempool \<Rightarrow> hash \<Rightarrow> Mempool" where
  "removeTxUnsafe m h =
     (case mp_txs m h of
        None \<Rightarrow> m
      | Some entry \<Rightarrow>
          m\<lparr>mp_spentOutpoints := unmarkSpent (Inputs (te_Tx entry)) (mp_spentOutpoints m),
            mp_txs := (mp_txs m)(h := None)\<rparr>)"

definition RemoveTx :: "Mempool \<Rightarrow> hash \<Rightarrow> Mempool" where
  "RemoveTx m h = removeTxUnsafe m h"

definition RemoveTxs :: "Mempool \<Rightarrow> hash list \<Rightarrow> Mempool" where
  "RemoveTxs m hashes = fold (\<lambda>h m. removeTxUnsafe m h) hashes m"

section \<open>Ordering and templates\<close>

fun hashLessFrom :: "hash \<Rightarrow> hash \<Rightarrow> nat \<Rightarrow> bool" where
  "hashLessFrom a b 0 = False"
| "hashLessFrom a b (Suc i) =
     (if a ! i < b ! i then True else if a ! i > b ! i then False else hashLessFrom a b i)"

definition hashLess :: "hash \<Rightarrow> hash \<Rightarrow> bool" where
  "hashLess a b = hashLessFrom a b HashSize"

definition entryLess :: "TxEntry \<Rightarrow> TxEntry \<Rightarrow> bool" where
  "entryLess a b =
     (if te_FeeRate a \<noteq> te_FeeRate b then te_FeeRate a > te_FeeRate b else hashLess (te_Hash a) (te_Hash b))"

definition GetAllEntries :: "Mempool \<Rightarrow> hash list \<Rightarrow> TxEntry list" where
  "GetAllEntries m order = sortSlice entryLess (map (\<lambda>h. the (mp_txs m h)) order)"

record BlockTemplateResult =
  bt_Transactions :: "Transaction option list"
  bt_TotalFees :: u64

text \<open>
  The loop that fills the slice \<open>txs\<close> and sums the fees. On overflow it stores the current
  transaction, restores the sum and breaks: the remaining slots of the slice stay nil.
\<close>

fun templateLoop :: "TxEntry list \<Rightarrow> u64 \<Rightarrow> Transaction option list \<times> u64" where
  "templateLoop [] totalFees = ([], totalFees)"
| "templateLoop (e # es) totalFees =
     (if totalFees + te_Fee e < totalFees
      then (Some (te_Tx e) # map (\<lambda>_. None) es, totalFees)
      else case templateLoop es (totalFees + te_Fee e) of (txs, f) \<Rightarrow> (Some (te_Tx e) # txs, f))"

definition BlockTemplate :: "Mempool \<Rightarrow> hash list \<Rightarrow> BlockTemplateResult" where
  "BlockTemplate m order =
     (let entries = sortSlice entryLess (map (\<lambda>h. the (mp_txs m h)) order);
          (txs, fees) = templateLoop entries 0
      in \<lparr>bt_Transactions = txs, bt_TotalFees = fees\<rparr>)"

definition GetAll :: "Mempool \<Rightarrow> hash list \<Rightarrow> Transaction option list" where
  "GetAll m order = bt_Transactions (BlockTemplate m order)"

definition GetTxHashes :: "Mempool \<Rightarrow> hash list \<Rightarrow> hash list" where
  "GetTxHashes m order = sortSlice hashLess order"

definition TotalFees :: "Mempool \<Rightarrow> hash list \<Rightarrow> u64" where
  "TotalFees m order = fold (\<lambda>h t. t + te_Fee (the (mp_txs m h))) order 0"

definition TotalSize :: "Mempool \<Rightarrow> hash list \<Rightarrow> nat" where
  "TotalSize m order = fold (\<lambda>h t. t + te_Size (the (mp_txs m h))) order 0"

definition Count :: "Mempool \<Rightarrow> nat" where
  "Count m = card (dom (mp_txs m))"

section \<open>Eviction and persistence\<close>

text \<open>The running minimum of the eviction loop; \<open>None\<close> is the state with \<open>first\<close> set.\<close>

definition evictStep :: "TxEntry \<Rightarrow> (hash \<times> u64) option \<Rightarrow> (hash \<times> u64) option" where
  "evictStep e low =
     (case low of
        None \<Rightarrow> Some (te_Hash e, te_FeeRate e)
      | Some (lowestHash, lowestRate) \<Rightarrow>
          if te_FeeRate e < lowestRate \<or> (te_FeeRate e = lowestRate \<and> hashLess (te_Hash e) lowestHash)
          then Some (te_Hash e, te_FeeRate e) else low)"

definition EvictLowestFeeRate :: "Mempool \<Rightarrow> hash list \<Rightarrow> bool \<times> Mempool" where
  "EvictLowestFeeRate m order =
     (if order = [] then (False, m)
      else case fold (\<lambda>h low. evictStep (the (mp_txs m h)) low) order None of
             None \<Rightarrow> (True, removeTxUnsafe m ZeroHash)
           | Some (lowestHash, _) \<Rightarrow> (True, removeTxUnsafe m lowestHash))"

definition IsOutpointSpent :: "Mempool \<Rightarrow> hash \<Rightarrow> u32 \<Rightarrow> bool" where
  "IsOutpointSpent m txHash idx \<longleftrightarrow> mp_spentOutpoints m (OutpointKey txHash idx) \<noteq> None"

definition DumpToBytes :: "Mempool \<Rightarrow> hash list \<Rightarrow> bytes" where
  "DumpToBytes m order =
     (if order = [] then []
      else PutVarInt (len64 order)
           @ concat (map (\<lambda>h. SerializeToBytes (te_Tx (the (mp_txs m h)))) order))"

text \<open>
  The loading loop over the unread bytes. It stops at the end of the data, so it runs at most
  once per byte and \<open>n\<close>, the count read from the file, bounds it as in the source.
\<close>

fun loadLoop :: "('sg, 'pk, 'sk) crypto_lib \<Rightarrow> nat \<Rightarrow> bytes \<Rightarrow> Mempool \<Rightarrow> nat \<Rightarrow> nat \<times> Mempool" where
  "loadLoop L 0 data m loaded = (loaded, m)"
| "loadLoop L (Suc n) data m loaded =
     (if data = [] then (loaded, m)
      else case Tx_Deserialize data of
             Inl _ \<Rightarrow> (loaded, m)
           | Inr (tx, rest) \<Rightarrow>
               (case AddTx L m tx of (r, m') \<Rightarrow>
                  loadLoop L n rest m' (if isOk r then Suc loaded else loaded)))"

definition LoadFromBytes :: "('sg, 'pk, 'sk) crypto_lib \<Rightarrow> Mempool \<Rightarrow> bytes \<Rightarrow> nat \<times> Mempool" where
  "LoadFromBytes L m data =
     (if length data = 0 then (0, m)
      else case ReadVarIntFromBytes data of
             Inl _ \<Rightarrow> (0, m)
           | Inr n \<Rightarrow> loadLoop L (unat n) (drop (VarIntSize n) data) m 0)"

end
