(* ===== verification/Mempool_Props.thy ===== *)
theory Mempool_Props
  imports Mempool
begin

text \<open>
  The invariant of the memory pool, that every operation keeps it, the order of templates, and
  that a template taken from a pool in step with the set of unspent outputs passes block
  validation.
\<close>

section \<open>The invariant\<close>

definition entryOk :: "(bytes \<Rightarrow> bytes) \<Rightarrow> ChainParams \<Rightarrow> hash \<Rightarrow> TxEntry \<Rightarrow> bool" where
  "entryOk sha p h e \<longleftrightarrow>
     te_Hash e = h \<and> HashTransaction sha (te_Tx e) = h \<and> \<not> IsCoinbase (te_Tx e)
     \<and> te_FeeRate e = te_Fee e div of_nat (te_Size e) \<and> te_Size e = SerializeSize (te_Tx e)
     \<and> MinRelayTxFee p \<le> te_Fee e"

definition mpInv :: "(bytes \<Rightarrow> bytes) \<Rightarrow> Mempool \<Rightarrow> bool" where
  "mpInv sha m \<longleftrightarrow>
     finite (dom (mp_txs m)) \<and> card (dom (mp_txs m)) \<le> unat (MaxMempoolSize (mp_p m))
     \<and> (\<forall>h e. mp_txs m h = Some e \<longrightarrow> entryOk sha (mp_p m) h e)
     \<and> (\<forall>k h. mp_spentOutpoints m k = Some h \<longleftrightarrow>
           (\<exists>e. mp_txs m h = Some e \<and> k \<in> inKey ` set (Inputs (te_Tx e))))"

lemma markSpent_eq: "markSpent h is sp k = (if k \<in> inKey ` set is then Some h else sp k)"
  unfolding markSpent_def by (induction "is" arbitrary: sp) auto

lemma unmarkSpent_eq: "unmarkSpent is sp k = (if k \<in> inKey ` set is then None else sp k)"
  unfolding unmarkSpent_def by (induction "is" arbitrary: sp) auto

lemma findConflict_None: "findConflict sp is = None \<longleftrightarrow> (\<forall>k\<in>inKey ` set is. sp k = None)"
  by (induction "is") (auto split: option.splits)

lemma SerializeSize_pos: "SerializeSize tx \<noteq> 0"
  by (simp add: SerializeSize_def)

text \<open>Inversion of a successful admission.\<close>

lemma AddTx_Inr:
  assumes "AddTx L m tx = (Inr h, m')"
  shows "\<not> IsCoinbase tx" "Inputs tx \<noteq> []" "Outputs tx \<noteq> []" "h = HashTransaction (lib_sha L) tx"
    "mp_txs m h = None" "\<not> (of_nat (card (dom (mp_txs m))) :: u32) \<ge> MaxMempoolSize (mp_p m)"
    "\<forall>k\<in>inKey ` set (Inputs tx). mp_spentOutpoints m k = None"
    "\<exists>fee. ValidateSingleTransaction L tx (mp_utxoSet m) (mp_tipHeight m) (mp_p m) = Inr fee
       \<and> MinRelayTxFee (mp_p m) \<le> fee
       \<and> m' = m\<lparr>mp_txs := (mp_txs m)(h \<mapsto> \<lparr>te_Tx = tx, te_Hash = h, te_Fee = fee,
                   te_FeeRate = fee div of_nat (SerializeSize tx), te_Size = SerializeSize tx\<rparr>),
                mp_spentOutpoints := markSpent h (Inputs tx) (mp_spentOutpoints m)\<rparr>"
  using assms
  by (auto simp: AddTx_def Let_def findConflict_None [THEN iffD1] SerializeSize_pos not_less
      split: if_splits option.splits sum.splits prod.splits)

lemma AddTx_Inl: "AddTx L m tx = (Inl e, m') \<Longrightarrow> m' = m"
  by (auto simp: AddTx_def Let_def split: if_splits option.splits sum.splits prod.splits)

lemma mpInv_New: "mpInv sha (New p s)"
  by (simp add: mpInv_def New_def)

lemma mpInv_SetTipHeight: "mpInv sha (SetTipHeight m h) = mpInv sha m"
  by (simp add: mpInv_def SetTipHeight_def)

lemma mpInv_AddTx:
  assumes inv: "mpInv (lib_sha L) m" and add: "AddTx L m tx = (r, m')"
  shows "mpInv (lib_sha L) m'"
proof (cases r)
  case (Inl e)
  then show ?thesis using add inv AddTx_Inl by blast
next
  case (Inr h)
  note a = AddTx_Inr [OF add [unfolded Inr]]
  from a(8) obtain fee where f: "MinRelayTxFee (mp_p m) \<le> fee"
    and m': "m' = m\<lparr>mp_txs := (mp_txs m)(h \<mapsto> \<lparr>te_Tx = tx, te_Hash = h, te_Fee = fee,
                   te_FeeRate = fee div of_nat (SerializeSize tx), te_Size = SerializeSize tx\<rparr>),
                mp_spentOutpoints := markSpent h (Inputs tx) (mp_spentOutpoints m)\<rparr>" by blast
  have fin: "finite (dom (mp_txs m))" using inv by (simp add: mpInv_def)
  have "unat (of_nat (card (dom (mp_txs m))) :: u32) < unat (MaxMempoolSize (mp_p m))"
    using a(6) by (simp add: word_le_nat_alt)
  moreover have "card (dom (mp_txs m)) \<le> unat (MaxMempoolSize (mp_p m))" using inv by (simp add: mpInv_def)
  moreover have "unat (MaxMempoolSize (mp_p m)) < 2 ^ LENGTH(32)" by (rule unsigned_less)
  ultimately have card: "Suc (card (dom (mp_txs m))) \<le> unat (MaxMempoolSize (mp_p m))"
    by (simp add: unat_of_nat)
  have nd: "h \<notin> dom (mp_txs m)" using a(5) by (simp add: domIff)
  have spent: "markSpent h (Inputs tx) (mp_spentOutpoints m) k = Some h' \<longleftrightarrow>
      (\<exists>e. ((mp_txs m)(h \<mapsto> e0)) h' = Some e \<and> k \<in> inKey ` set (Inputs (te_Tx e)))"
    if "te_Tx e0 = tx" for k h' e0
  proof (cases "h' = h")
    case True
    have "mp_spentOutpoints m k \<noteq> Some h" using inv a(5) by (simp add: mpInv_def)
    then show ?thesis using True that by (auto simp: markSpent_eq)
  next
    case False
    have "mp_spentOutpoints m k = Some h' \<Longrightarrow> k \<notin> inKey ` set (Inputs tx)" using a(7) by force
    then show ?thesis using False inv by (auto simp: markSpent_eq mpInv_def)
  qed
  show ?thesis
    unfolding m' mpInv_def
    using fin card nd a(1,4) f inv spent
    by (auto simp: mpInv_def entryOk_def)
qed

lemma mpInv_remove:
  assumes inv: "mpInv sha m"
  shows "mpInv sha (removeTxUnsafe m h)"
proof (cases "mp_txs m h")
  case None
  then show ?thesis using inv by (simp add: removeTxUnsafe_def)
next
  case (Some e)
  have own: "mp_spentOutpoints m k = Some h" if "k \<in> inKey ` set (Inputs (te_Tx e))" for k
    using inv Some that unfolding mpInv_def by blast
  have spent: "unmarkSpent (Inputs (te_Tx e)) (mp_spentOutpoints m) k = Some h' \<longleftrightarrow>
      (\<exists>e'. ((mp_txs m)(h := None)) h' = Some e' \<and> k \<in> inKey ` set (Inputs (te_Tx e')))" for k h'
  proof -
    have iff: "mp_spentOutpoints m k = Some h' \<longleftrightarrow>
        (\<exists>e'. mp_txs m h' = Some e' \<and> k \<in> inKey ` set (Inputs (te_Tx e')))"
      using inv by (simp add: mpInv_def)
    show ?thesis
    proof (cases "k \<in> inKey ` set (Inputs (te_Tx e))")
      case True
      with own have "mp_spentOutpoints m k = Some h" by blast
      with iff True show ?thesis by (simp add: unmarkSpent_eq) blast
    next
      case False
      with iff Some show ?thesis by (auto simp: unmarkSpent_eq)
    qed
  qed
  have "card (dom (mp_txs m) - {h}) \<le> unat (MaxMempoolSize (mp_p m))"
    using inv by (meson card_Diff1_le le_trans mpInv_def)
  then show ?thesis
    using inv Some spent by (auto simp: removeTxUnsafe_def mpInv_def)
qed

lemma mpInv_RemoveTxs: "mpInv sha m \<Longrightarrow> mpInv sha (RemoveTxs m hs)"
  unfolding RemoveTxs_def by (induction hs arbitrary: m) (simp_all add: mpInv_remove)

lemma mpInv_Evict: "mpInv sha m \<Longrightarrow> mpInv sha (snd (EvictLowestFeeRate m order))"
  by (auto simp: EvictLowestFeeRate_def mpInv_remove split: option.splits)

lemma mpInv_loadLoop:
  "mpInv (lib_sha L) m \<Longrightarrow> mpInv (lib_sha L) (snd (loadLoop L n data m k))"
proof (induction n arbitrary: data m k)
  case 0
  then show ?case by simp
next
  case (Suc n)
  show ?case
  proof (cases "data = [] \<or> \<not> isOk (Tx_Deserialize data)")
    case True
    then show ?thesis using Suc.prems by (auto split: sum.splits)
  next
    case False
    then obtain tx rest where d: "Tx_Deserialize data = Inr (tx, rest)" by (auto simp: isOk_iff)
    obtain r m' where a: "AddTx L m tx = (r, m')" by fastforce
    from mpInv_AddTx [OF Suc.prems a] have "mpInv (lib_sha L) m'" .
    from Suc.IH [OF this] show ?thesis using False d a by simp
  qed
qed

lemma mpInv_Load: "mpInv (lib_sha L) m \<Longrightarrow> mpInv (lib_sha L) (snd (LoadFromBytes L m data))"
  by (auto simp: LoadFromBytes_def mpInv_loadLoop split: sum.splits)

section \<open>Sequences of operations\<close>

text \<open>
  The operations that change the pool, in any order, and the changes of the shared set that the
  chain manager makes between them.
\<close>

datatype mempool_op =
    OpAdd Transaction
  | OpRemove hash
  | OpRemoveAll "hash list"
  | OpEvict "hash list"
  | OpLoad bytes
  | OpSetTip u32
  | OpUtxo UtxoSet

fun mempoolStep :: "('sg, 'pk, 'sk) crypto_lib \<Rightarrow> mempool_op \<Rightarrow> Mempool \<Rightarrow> Mempool" where
  "mempoolStep L (OpAdd tx) m = snd (AddTx L m tx)"
| "mempoolStep L (OpRemove h) m = RemoveTx m h"
| "mempoolStep L (OpRemoveAll hs) m = RemoveTxs m hs"
| "mempoolStep L (OpEvict order) m = snd (EvictLowestFeeRate m order)"
| "mempoolStep L (OpLoad data) m = snd (LoadFromBytes L m data)"
| "mempoolStep L (OpSetTip h) m = SetTipHeight m h"
| "mempoolStep L (OpUtxo s) m = m\<lparr>mp_utxoSet := s\<rparr>"

lemma mpInv_step: "mpInv (lib_sha L) m \<Longrightarrow> mpInv (lib_sha L) (mempoolStep L opn m)"
proof (cases opn)
  case (OpAdd tx)
  assume "mpInv (lib_sha L) m"
  from mpInv_AddTx [OF this, of tx "fst (AddTx L m tx)" "snd (AddTx L m tx)"] OpAdd show ?thesis by simp
qed (simp_all add: RemoveTx_def mpInv_remove mpInv_RemoveTxs mpInv_Evict mpInv_Load mpInv_SetTipHeight,
     simp add: mpInv_def)

lemma mpInv_run: "mpInv (lib_sha L) m \<Longrightarrow> mpInv (lib_sha L) (fold (mempoolStep L) ops m)"
  by (induction ops arbitrary: m) (simp_all add: mpInv_step)

section \<open>The order of templates\<close>

definition entryKey :: "TxEntry \<Rightarrow> nat \<times> nat" where
  "entryKey e = (2 ^ 64 - unat (te_FeeRate e), le_nat (te_Hash e))"

lemma hashLess_Less: "hashLess a b = Less a b"
proof -
  have "hashLessFrom a b n = lessFrom n a b" for n by (induction n) auto
  then show ?thesis by (simp add: hashLess_def Less_def)
qed

lemma entryLess_key:
  assumes "wf_hash (te_Hash a)" "wf_hash (te_Hash b)"
  shows "entryLess a b \<longleftrightarrow> entryKey a < entryKey b"
proof -
  have "unat (te_FeeRate a) < 2 ^ LENGTH(64)" "unat (te_FeeRate b) < 2 ^ LENGTH(64)"
    by (rule unsigned_less)+
  then show ?thesis
    using assms
    by (auto simp: entryLess_def entryKey_def hashLess_Less Less_le_nat word_less_nat_alt word_unat_eq_iff
        less_prod_def)
qed

abbreviation poolEntries :: "Mempool \<Rightarrow> hash list \<Rightarrow> TxEntry list" where
  "poolEntries m order \<equiv> map (\<lambda>h. the (mp_txs m h)) order"

lemma poolEntries_ok:
  "mpInv sha m \<Longrightarrow> set order = dom (mp_txs m) \<Longrightarrow> h \<in> set order \<Longrightarrow> entryOk sha (mp_p m) h (the (mp_txs m h))"
  by (fastforce simp: mpInv_def)

context digest
begin

lemma poolEntries_wf:
  assumes "mpInv sha m" "set order = dom (mp_txs m)" "e \<in> set (poolEntries m order)"
  shows "wf_hash (te_Hash e)"
proof -
  from assms(3) obtain h where h: "h \<in> set order" "e = the (mp_txs m h)" by auto
  from poolEntries_ok [OF assms(1,2) h(1)] h(2) have "te_Hash e = HashTransaction sha (te_Tx e)"
    by (simp add: entryOk_def)
  then show ?thesis by (simp add: wf_HashTransaction)
qed

lemma sorted_entries:
  assumes "mpInv sha m" "set order = dom (mp_txs m)"
  shows "sortSlice entryLess (poolEntries m order) = sort_key entryKey (poolEntries m order)"
  using poolEntries_wf [OF assms] by (intro sortSlice_sort_key) (simp add: entryLess_key)

lemma entryKey_inj:
  assumes "mpInv sha m" "set order = dom (mp_txs m)"
  shows "inj_on entryKey (set (poolEntries m order))"
proof (rule inj_onI)
  fix x y assume x: "x \<in> set (poolEntries m order)" and y: "y \<in> set (poolEntries m order)"
    and eq: "entryKey x = entryKey y"
  have "te_Hash x = te_Hash y"
    using poolEntries_wf [OF assms x] poolEntries_wf [OF assms y] eq le_nat_inj
    by (simp add: entryKey_def wf_hash_def)
  moreover from x y obtain h k where "h \<in> set order" "x = the (mp_txs m h)" "k \<in> set order" "y = the (mp_txs m k)"
    by auto
  moreover from this have "te_Hash x = h" "te_Hash y = k"
    using poolEntries_ok [OF assms] by (auto simp: entryOk_def)
  ultimately show "x = y" by simp
qed

text \<open>The order in which Go visits the map does not matter.\<close>

lemma entries_deterministic:
  assumes inv: "mpInv sha m"
    and o1: "distinct order1" "set order1 = dom (mp_txs m)"
    and o2: "distinct order2" "set order2 = dom (mp_txs m)"
  shows "sortSlice entryLess (poolEntries m order1) = sortSlice entryLess (poolEntries m order2)"
proof -
  have "mset order1 = mset order2" using o1 o2 by (metis set_eq_iff_mset_eq_distinct)
  then have "mset (poolEntries m order1) = mset (poolEntries m order2)" by simp
  then have "sort_key entryKey (poolEntries m order1) = sort_key entryKey (poolEntries m order2)"
    by (intro sort_key_inj_key_eq entryKey_inj [OF inv o1(2)]) simp_all
  then show ?thesis by (simp add: sorted_entries [OF inv o1(2)] sorted_entries [OF inv o2(2)])
qed

end

lemma templateLoop_ok:
  assumes "unat acc + (\<Sum>e\<leftarrow>es. unat (te_Fee e)) < 2 ^ 64"
  shows "templateLoop es acc = (map (Some \<circ> te_Tx) es, acc + (\<Sum>e\<leftarrow>es. te_Fee e))"
  using assms
proof (induction es arbitrary: acc)
  case Nil
  then show ?case by simp
next
  case (Cons e es)
  then have nw: "\<not> acc + te_Fee e < acc" by (simp add: add_wraps_iff)
  then have "templateLoop es (acc + te_Fee e) = (map (Some \<circ> te_Tx) es, acc + te_Fee e + (\<Sum>e\<leftarrow>es. te_Fee e))"
    using Cons by (simp add: unat_add_nowrap)
  with nw show ?case by (simp add: add.assoc)
qed

section \<open>Templates pass block validation\<close>

lemma single_block:
  assumes "ValidateSingleTransaction L tx s tip p = Inr fee" "inKey ` set (Inputs tx) \<inter> spent = {}"
  shows "blockTx L p s (tip + 1) tx spent = Inr (fee, spent \<union> inKey ` set (Inputs tx))"
    and "\<not> IsCoinbase tx"
proof -
  from assms(1) obtain tin tout w where
    "\<not> IsCoinbase tx" "Inputs tx \<noteq> []" "Outputs tx \<noteq> []"
    "singleInputs p s (tip + 1) (Inputs tx) 0 {} 0 = Inr tin" "checkOutputs (Outputs tx) 0 0 = Inr tout"
    "\<not> tin < tout" "verifyScripts L s tx (Inputs tx) 0 = Inr w" "fee = tin - tout"
    by (auto simp: ValidateSingleTransaction_def res_simps split: if_splits)
  moreover have "blockInputs p s (tip + 1) (Inputs tx) 0 {} spent 0 =
     bindR (singleInputs p s (tip + 1) (Inputs tx) 0 {} 0) (\<lambda>v. Inr (v, spent \<union> set (map inKey (Inputs tx))))"
    by (rule blockInputs_single) (use assms(2) in auto)
  ultimately show "blockTx L p s (tip + 1) tx spent = Inr (fee, spent \<union> inKey ` set (Inputs tx))"
    and "\<not> IsCoinbase tx" by (simp_all add: blockTx_def)
qed

lemma single_block_iff:
  "ValidateSingleTransaction L tx s tip p = Inr fee \<longleftrightarrow>
     \<not> IsCoinbase tx \<and> blockTx L p s (tip + 1) tx {} = Inr (fee, inKey ` set (Inputs tx))"
proof -
  have "blockInputs p s (tip + 1) (Inputs tx) 0 {} {} 0 =
     bindR (singleInputs p s (tip + 1) (Inputs tx) 0 {} 0) (\<lambda>v. Inr (v, {} \<union> set (map inKey (Inputs tx))))"
    by (rule blockInputs_single) simp
  then show ?thesis
    by (cases "singleInputs p s (tip + 1) (Inputs tx) 0 {} 0")
       (auto simp: ValidateSingleTransaction_def blockTx_def res_simps)
qed

lemma blockTxs_pool:
  assumes "\<forall>e\<in>set es. ValidateSingleTransaction L (te_Tx e) s tip p = Inr (te_Fee e)"
    and "distinct (concat (map (\<lambda>e. map inKey (Inputs (te_Tx e))) es))"
    and "set (concat (map (\<lambda>e. map inKey (Inputs (te_Tx e))) es)) \<inter> spent = {}"
    and "unat acc + (\<Sum>e\<leftarrow>es. unat (te_Fee e)) < 2 ^ 64"
  shows "blockTxs L p s (tip + 1) (map te_Tx es) n spent acc = Inr (acc + (\<Sum>e\<leftarrow>es. te_Fee e))"
  using assms
proof (induction es arbitrary: n spent acc)
  case Nil
  then show ?case by simp
next
  case (Cons e es)
  have nw: "\<not> acc + te_Fee e < acc" using Cons.prems(4) by (simp add: add_wraps_iff)
  have b: "blockTx L p s (tip + 1) (te_Tx e) spent = Inr (te_Fee e, spent \<union> inKey ` set (Inputs (te_Tx e)))"
    and nc: "\<not> IsCoinbase (te_Tx e)"
    using single_block [of L "te_Tx e" s tip p "te_Fee e" spent] Cons.prems(1,3) by auto
  let ?A = "set (map inKey (Inputs (te_Tx e)))"
  let ?B = "set (concat (map (\<lambda>e. map inKey (Inputs (te_Tx e))) es))"
  have "?A \<inter> ?B = {}" using Cons.prems(2) by simp
  moreover have "(?A \<union> ?B) \<inter> spent = {}" using Cons.prems(3) by simp
  ultimately have dj: "?B \<inter> (spent \<union> ?A) = {}" by blast
  have "blockTxs L p s (tip + 1) (map te_Tx es) (Suc n) (spent \<union> ?A) (acc + te_Fee e)
      = Inr (acc + te_Fee e + (\<Sum>e\<leftarrow>es. te_Fee e))"
    by (rule Cons.IH [OF _ _ dj]) (use Cons.prems nw in \<open>simp_all add: unat_add_nowrap\<close>)
  with b nc nw show ?case by (simp add: add.assoc)
qed

text \<open>The pool is in step with the set of unspent outputs: every entry is still valid with its fee.\<close>

definition inSync :: "('sg, 'pk, 'sk) crypto_lib \<Rightarrow> Mempool \<Rightarrow> bool" where
  "inSync L m \<longleftrightarrow> (\<forall>h e. mp_txs m h = Some e \<longrightarrow>
     ValidateSingleTransaction L (te_Tx e) (mp_utxoSet m) (mp_tipHeight m) (mp_p m) = Inr (te_Fee e))"

lemma pool_keys_disjoint:
  assumes inv: "mpInv sha m" and "mp_txs m h = Some e" "mp_txs m h' = Some e'" "h \<noteq> h'"
  shows "inKey ` set (Inputs (te_Tx e)) \<inter> inKey ` set (Inputs (te_Tx e')) = {}"
proof -
  have "k \<in> inKey ` set (Inputs (te_Tx e)) \<Longrightarrow> mp_spentOutpoints m k = Some h"
    and "k \<in> inKey ` set (Inputs (te_Tx e')) \<Longrightarrow> mp_spentOutpoints m k = Some h'" for k
    using assms(1-3) unfolding mpInv_def by blast+
  with \<open>h \<noteq> h'\<close> show ?thesis by force
qed

lemma pool_keys_distinct:
  assumes inv: "mpInv sha m" and sync: "inSync L m" and o: "distinct order" "set order \<subseteq> dom (mp_txs m)"
  shows "distinct (concat (map (\<lambda>e. map inKey (Inputs (te_Tx e))) (poolEntries m order)))"
  using o
proof (induction order)
  case Nil
  then show ?case by simp
next
  case (Cons h order)
  then obtain e where e: "mp_txs m h = Some e" by auto
  have "ValidateSingleTransaction L (te_Tx e) (mp_utxoSet m) (mp_tipHeight m) (mp_p m) = Inr (te_Fee e)"
    using sync e by (simp add: inSync_def)
  from blockTx_ok(2) [OF single_block(1) [OF this, of "{}"]]
  have d: "distinct (map inKey (Inputs (te_Tx e)))" by simp
  have "inKey ` set (Inputs (te_Tx e)) \<inter> inKey ` set (Inputs (te_Tx (the (mp_txs m h')))) = {}"
    if "h' \<in> set order" for h'
    using pool_keys_disjoint [OF inv e, of h'] that Cons.prems by fastforce
  then have "set (map inKey (Inputs (te_Tx e))) \<inter>
      set (concat (map (\<lambda>e. map inKey (Inputs (te_Tx e))) (poolEntries m order))) = {}"
    by simp blast
  with d e Cons show ?case by simp
qed

lemma distinct_concat_mset:
  "mset xs = mset ys \<Longrightarrow> distinct (concat (map f xs)) = distinct (concat (map f ys))"
proof -
  assume a: "mset xs = mset ys"
  have "mset (concat (map f zs)) = (\<Sum>z\<in>#mset zs. mset (f z))" for zs
    by (induction zs) auto
  with a have "mset (concat (map f xs)) = mset (concat (map f ys))" by simp
  then show ?thesis by (rule mset_eq_imp_distinct_iff)
qed

text \<open>The fees of entries that spend different outputs are covered by the value of the set.\<close>

lemma fees_bound:
  assumes ok: "\<forall>e\<in>set es. ValidateSingleTransaction L (te_Tx e) s tip p = Inr (te_Fee e)"
    and d: "distinct (concat (map (\<lambda>e. map inKey (Inputs (te_Tx e))) es))" and fin: "finite (dom s)"
  shows "(\<Sum>e\<leftarrow>es. unat (te_Fee e)) \<le> setValue s"
proof -
  have fee: "unat (te_Fee e) \<le> (\<Sum>k\<leftarrow>map inKey (Inputs (te_Tx e)). entryVal (s k))" if "e \<in> set es" for e
    using blockTx_ok(1) [OF single_block(1) [OF ok [rule_format, OF that], of "{}"]]
    by (simp add: inSum_def o_def)
  let ?ks = "concat (map (\<lambda>e. map inKey (Inputs (te_Tx e))) es)"
  have "(\<Sum>e\<leftarrow>es. unat (te_Fee e)) \<le> (\<Sum>e\<leftarrow>es. \<Sum>k\<leftarrow>map inKey (Inputs (te_Tx e)). entryVal (s k))"
    using fee by (intro sum_list_mono) auto
  also have "\<dots> = (\<Sum>k\<leftarrow>?ks. entryVal (s k))" by (induction es) (auto simp: o_def)
  also have "\<dots> = (\<Sum>k\<in>set ?ks. entryVal (s k))" using d by (rule sum_list_distinct_conv_sum_set)
  also have "\<dots> \<le> (\<Sum>k\<in>set ?ks \<union> dom s. entryVal (s k))"
    using fin by (intro sum_mono2) auto
  also have "\<dots> = setValue s" using fin by (intro setValue_superset [symmetric]) auto
  finally show ?thesis .
qed

lemma BlockTemplate_valid:
  assumes inv: "mpInv sha m" and sync: "inSync L m"
    and o: "distinct order" "set order = dom (mp_txs m)"
    and fin: "finite (dom (mp_utxoSet m))" and cap: "setValue (mp_utxoSet m) < 2 ^ 64"
  defines "es \<equiv> sortSlice entryLess (poolEntries m order)"
  shows "bt_Transactions (BlockTemplate m order) = map (Some \<circ> te_Tx) es"
    and "unat (bt_TotalFees (BlockTemplate m order)) = (\<Sum>e\<leftarrow>es. unat (te_Fee e))"
    and "blockTxs L (mp_p m) (mp_utxoSet m) (mp_tipHeight m + 1) (map te_Tx es) n {} 0
           = Inr (bt_TotalFees (BlockTemplate m order))"
proof -
  have ms: "mset es = mset (poolEntries m order)" by (simp add: es_def mset_sortSlice)
  then have ss: "set es = set (poolEntries m order)" by (metis set_mset_mset)
  have ok: "\<forall>e\<in>set es. ValidateSingleTransaction L (te_Tx e) (mp_utxoSet m) (mp_tipHeight m) (mp_p m) = Inr (te_Fee e)"
    unfolding ss using sync o(2) by (fastforce simp: inSync_def)
  have d: "distinct (concat (map (\<lambda>e. map inKey (Inputs (te_Tx e))) es))"
    using pool_keys_distinct [OF inv sync o(1)] o(2)
    by (subst distinct_concat_mset [OF ms]) simp
  have le: "(\<Sum>e\<leftarrow>es. unat (te_Fee e)) < 2 ^ 64" using fees_bound [OF ok d fin] cap by simp
  have tl: "templateLoop es 0 = (map (Some \<circ> te_Tx) es, \<Sum>e\<leftarrow>es. te_Fee e)"
    using templateLoop_ok [of 0 es] le by simp
  then have bt: "bt_Transactions (BlockTemplate m order) = map (Some \<circ> te_Tx) es"
    "bt_TotalFees (BlockTemplate m order) = (\<Sum>e\<leftarrow>es. te_Fee e)"
    by (simp_all add: BlockTemplate_def es_def [symmetric])
  then show "bt_Transactions (BlockTemplate m order) = map (Some \<circ> te_Tx) es" by simp
  have "unat (\<Sum>x\<leftarrow>xs. te_Fee x) = (\<Sum>x\<leftarrow>xs. unat (te_Fee x))"
    if "(\<Sum>x\<leftarrow>xs. unat (te_Fee x)) < 2 ^ 64" for xs
    using that by (induction xs) (auto simp: unat_word_ariths)
  with le bt show "unat (bt_TotalFees (BlockTemplate m order)) = (\<Sum>e\<leftarrow>es. unat (te_Fee e))" by simp
  show "blockTxs L (mp_p m) (mp_utxoSet m) (mp_tipHeight m + 1) (map te_Tx es) n {} 0
           = Inr (bt_TotalFees (BlockTemplate m order))"
    using blockTxs_pool [OF ok d, of "{}" 0 n] le by (simp add: bt)
qed

end
