(* ===== verification/Target.thy ===== *)
theory Target
  imports Hashing
begin

text \<open>
  Difficulty targets of \<open>internal/crypto/target.go\<close>: the compact \<open>bits\<close> form and the
  arbitrary-precision integers it stands for (\<open>big.Int\<close> is \<open>int\<close>), targets as hashes, chain
  work and the proof-of-work test.
\<close>

text \<open>\<open>big.Int.BitLen\<close>, \<open>big.Int.Bytes\<close> and \<open>big.Int.SetBytes\<close>.\<close>

fun bitLen :: "nat \<Rightarrow> nat" where
  "bitLen n = (if n = 0 then 0 else Suc (bitLen (n div 2)))"

fun leDigits :: "nat \<Rightarrow> bytes" where
  "leDigits n = (if n = 0 then [] else of_nat (n mod 256) # leDigits (n div 256))"

declare bitLen.simps [simp del] leDigits.simps [simp del]

definition bigBytes :: "nat \<Rightarrow> bytes" where
  "bigBytes n = rev (leDigits n)"

definition setBytes :: "bytes \<Rightarrow> nat" where
  "setBytes bs = foldl (\<lambda>a b. a * 256 + unat b) 0 bs"

definition CompactToBig :: "u32 \<Rightarrow> int" where
  "CompactToBig compact =
     (let mantissa = compact AND 0x007fffff;
          negative = (compact AND 0x00800000 \<noteq> 0);
          exponent = drop_bit 24 compact;
          target = (if exponent \<le> 3 then int (unat (drop_bit (unat (8 * (3 - exponent))) mantissa))
                    else push_bit (8 * (unat exponent - 3)) (int (unat mantissa)))
      in if negative then - target else target)"

definition BigToCompact :: "int \<Rightarrow> u32" where
  "BigToCompact target =
     (if target = 0 then 0
      else
        let negative = (target < 0);
            t = nat \<bar>target\<bar>;
            byteLen = (of_nat ((bitLen t + 7) div 8) :: u32);
            compact = (if byteLen \<le> 3 then push_bit (unat (8 * (3 - byteLen))) (of_nat t)
                       else of_nat (t div 2 ^ (8 * (unat byteLen - 3))));
            (compact, byteLen) = (if compact AND 0x00800000 \<noteq> 0
                                  then (drop_bit 8 compact, byteLen + 1) else (compact, byteLen));
            compact = compact OR push_bit 24 byteLen
        in if negative then compact OR 0x00800000 else compact)"

definition CompactToHash :: "u32 \<Rightarrow> hash" where
  "CompactToHash compact =
     (let b = bigBytes (nat \<bar>CompactToBig compact\<bar>)
      in map (\<lambda>i. if i < length b then b ! (length b - 1 - i) else 0) [0..<HashSize])"

definition HashToBig :: "hash \<Rightarrow> int" where
  "HashToBig h = int (setBytes (map (\<lambda>i. h ! (HashSize - 1 - i)) [0..<HashSize]))"

definition CalcWork :: "u32 \<Rightarrow> int" where
  "CalcWork bits =
     (let target = CompactToBig bits in if target \<le> 0 then 0 else 2 ^ 256 div (target + 1))"

datatype pow_error = HashExceedsTarget hash hash

definition ValidateProofOfWork :: "hash \<Rightarrow> u32 \<Rightarrow> (pow_error, unit) res" where
  "ValidateProofOfWork headerHash bits =
     (let target = CompactToHash bits in
      if \<not> LessOrEqual headerHash target then Inl (HashExceedsTarget headerHash target) else Inr ())"

section \<open>Big integers and bytes\<close>

lemma bitLen_bounds: "0 < n \<Longrightarrow> 2 ^ (bitLen n - 1) \<le> n \<and> n < 2 ^ bitLen n"
proof (induction n rule: bitLen.induct)
  case (1 n)
  show ?case
  proof (cases "n = 1")
    case True
    then show ?thesis by (simp add: bitLen.simps [of "Suc 0"] bitLen.simps [of 0])
  next
    case False
    with 1 have IH: "2 ^ (bitLen (n div 2) - 1) \<le> n div 2" "n div 2 < 2 ^ bitLen (n div 2)" by auto
    have pos: "bitLen (n div 2) = Suc (bitLen (n div 2) - 1)"
      using False 1 by (simp add: bitLen.simps [of "n div 2"])
    have eq: "bitLen n = Suc (bitLen (n div 2))" using 1 by (simp add: bitLen.simps [of n])
    have "2 * 2 ^ (bitLen (n div 2) - 1) \<le> n" "n < 2 * 2 ^ bitLen (n div 2)"
      using IH by linarith+
    then show ?thesis using eq pos by (metis diff_Suc_1 power_Suc)
  qed
qed

lemma byteLen_bounds:
  assumes "0 < t" and "B = (bitLen t + 7) div 8"
  shows "0 < B" "256 ^ (B - 1) \<le> t" "t < 256 ^ B"
proof -
  have p: "(256::nat) ^ n = 2 ^ (8 * n)" for n by (simp add: power_mult)
  have b: "2 ^ (bitLen t - 1) \<le> t" "t < 2 ^ bitLen t" using bitLen_bounds [OF assms(1)] by auto
  have pos: "0 < bitLen t" using assms(1) by (simp add: bitLen.simps [of t])
  show "0 < B" using pos assms(2) by simp
  have "8 * (B - 1) \<le> bitLen t - 1" "bitLen t \<le> 8 * B" using pos assms(2) by simp_all
  then have "(2::nat) ^ (8 * (B - 1)) \<le> 2 ^ (bitLen t - 1)" "(2::nat) ^ bitLen t \<le> 2 ^ (8 * B)"
    by (intro power_increasing; simp)+
  with b show "256 ^ (B - 1) \<le> t" "t < 256 ^ B" unfolding p by linarith+
qed

lemma le_nat_leDigits [simp]: "le_nat (leDigits n) = n"
proof (induction n rule: leDigits.induct)
  case (1 n)
  then show ?case by (subst leDigits.simps) auto
qed

lemma setBytes_rev: "setBytes (rev bs) = le_nat bs"
  by (induction bs) (simp_all add: setBytes_def)

lemma HashToBig_le_nat: "wf_hash h \<Longrightarrow> HashToBig h = int (le_nat h)"
  using rev_by_index [of h 32] by (simp add: HashToBig_def HashSize_def wf_hash_def setBytes_rev)

lemma le_nat_take_pad:
  "le_nat (map (\<lambda>i. if i < length bs then bs ! i else 0) [0..<n]) = le_nat bs mod 256 ^ n"
proof (induction bs arbitrary: n)
  case Nil
  then show ?case by (simp add: map_replicate_const)
next
  case (Cons b bs)
  show ?case
  proof (cases n)
    case 0
    then show ?thesis by simp
  next
    case (Suc m)
    have "[0..<n] = 0 # map Suc [0..<m]" by (simp only: Suc upt_conv_Cons map_Suc_upt)
    then have "le_nat (map (\<lambda>i. if i < length (b # bs) then (b # bs) ! i else 0) [0..<n])
        = unat b + 256 * (le_nat bs mod 256 ^ m)"
      using Cons [of m] by (simp add: comp_def del: upt_Suc cong: if_cong)
    also have "\<dots> = (unat b + 256 * le_nat bs) mod 256 ^ n"
    proof -
      have "(unat b + 256 * le_nat bs) mod (256 * 256 ^ m)
          = 256 * ((unat b + 256 * le_nat bs) div 256 mod 256 ^ m) + (unat b + 256 * le_nat bs) mod 256"
        by (rule mod_mult2_eq)
      then show ?thesis using Suc by simp
    qed
    finally show ?thesis by simp
  qed
qed

lemma CompactToHash_le_nat:
  "le_nat (CompactToHash c) = nat \<bar>CompactToBig c\<bar> mod 2 ^ 256"
proof -
  let ?d = "leDigits (nat \<bar>CompactToBig c\<bar>)"
  have "CompactToHash c = map (\<lambda>i. if i < length ?d then ?d ! i else 0) [0..<32]"
    by (auto simp: CompactToHash_def bigBytes_def HashSize_def rev_nth Let_def)
  then have "le_nat (CompactToHash c) = nat \<bar>CompactToBig c\<bar> mod 256 ^ 32"
    by (simp only: le_nat_take_pad le_nat_leDigits)
  then show ?thesis by (simp add: power_mult [of 2 8 32, simplified])
qed

lemma wf_CompactToHash [simp]: "wf_hash (CompactToHash c)"
  by (simp add: CompactToHash_def wf_hash_def HashSize_def Let_def)

lemma ValidateProofOfWork_iff:
  "wf_hash h \<Longrightarrow>
     isOk (ValidateProofOfWork h bits) \<longleftrightarrow> le_nat h \<le> nat \<bar>CompactToBig bits\<bar> mod 2 ^ 256"
  by (simp add: ValidateProofOfWork_def Let_def LessOrEqual_le_nat CompactToHash_le_nat)

section \<open>The compact form in arithmetic\<close>

lemma unat_and_7fffff: "unat ((c :: u32) AND 0x007fffff) = unat c mod 2 ^ 23"
proof -
  have "(0x007fffff :: u32) = mask 23" by (simp add: mask_eq_exp_minus_1)
  then have "unat (c AND 0x007fffff) = unat (take_bit 23 c)" by (simp only: take_bit_eq_mask)
  also have "\<dots> = take_bit 23 (unat c)" by (simp add: unsigned_take_bit_eq)
  finally show ?thesis by (simp only: take_bit_eq_mod)
qed

lemma and_800000_iff: "(c :: u32) AND 0x00800000 \<noteq> 0 \<longleftrightarrow> odd (unat c div 2 ^ 23)"
proof -
  have "c AND 2 ^ 23 = 0 \<longleftrightarrow> \<not> bit c 23" by (rule and_exp_eq_0_iff_not_bit)
  then have "c AND 0x00800000 \<noteq> 0 \<longleftrightarrow> bit c 23" by simp
  also have "\<dots> \<longleftrightarrow> bit (unat c) 23" by (simp add: bit_unsigned_iff)
  finally show ?thesis by (simp add: bit_iff_odd)
qed

lemma unat_exponent: "unat (drop_bit 24 (c :: u32)) = unat c div 2 ^ 24"
proof -
  have "unat (drop_bit 24 c) = drop_bit 24 (unat c)" by (rule unat_drop_bit_eq)
  then show ?thesis by (simp only: drop_bit_eq_div)
qed

lemma unat_or_exponent:
  fixes m e :: u32
  assumes "unat m < 2 ^ 24" "unat e < 2 ^ 8"
  shows "unat (m OR push_bit 24 e) = unat m + unat e * 2 ^ 24"
proof -
  have "m AND push_bit 24 e = 0"
  proof (rule bit_eqI)
    fix n
    have "\<not> bit (unat m) n" if "24 \<le> n"
      using assms(1) that by (metis bit_take_bit_iff linorder_not_less take_bit_nat_eq_self)
    then show "bit (m AND push_bit 24 e) n = bit (0::u32) n"
      by (auto simp: bit_simps bit_unsigned_iff)
  qed
  then have or: "m OR push_bit 24 e = m + push_bit 24 e" by (simp add: disjunctive_add_eq_or)
  have push: "unat (push_bit 24 e) = unat e * 2 ^ 24"
  proof -
    have "unat (push_bit 24 e) = take_bit 32 (push_bit 24 (unat e))"
      by (simp add: unsigned_push_bit_eq)
    then show ?thesis using assms(2) by (simp only: take_bit_eq_mod push_bit_eq_mult) simp
  qed
  have "unat m + unat e * 2 ^ 24 < 2 ^ 32" using assms by simp
  then show ?thesis using or push by (simp add: unat_word_ariths)
qed

text \<open>A word with exponent \<open>e\<close> and a mantissa below \<open>2^23\<close> stands for a non-negative target.\<close>

lemma CompactToBig_arith:
  fixes c :: u32
  assumes "unat c = m + e * 2 ^ 24" "m < 2 ^ 23" "e < 256"
  shows "CompactToBig c = (if e \<le> 3 then int (m div 256 ^ (3 - e)) else int (m * 256 ^ (e - 3)))"
proof -
  have man: "unat (c AND 0x007fffff) = m" and ex: "unat (drop_bit 24 c) = e"
    and pos: "\<not> (c AND 0x00800000 \<noteq> 0)"
  proof -
    have split: "m + e * 2 ^ 24 = m + (2 * e) * 2 ^ 23" by simp
    have digits: "(a + k * N) mod N = a" "(a + k * N) div N = k" if "a < N" for a k N :: nat
      using that by simp_all
    have "(m + e * 2 ^ 24) mod 2 ^ 23 = m" "(m + e * 2 ^ 24) div 2 ^ 23 = 2 * e"
      unfolding split by (rule digits [OF assms(2)])+
    moreover have "(m + e * 2 ^ 24) div 2 ^ 24 = e" using assms(2) by simp
    ultimately have "(m + e * 2 ^ 24) mod 2 ^ 23 = m" "(m + e * 2 ^ 24) div 2 ^ 24 = e"
      "(m + e * 2 ^ 24) div 2 ^ 23 = 2 * e" by blast+
    then show "unat (c AND 0x007fffff) = m" "unat (drop_bit 24 c) = e" "\<not> (c AND 0x00800000 \<noteq> 0)"
      by (simp_all only: unat_and_7fffff unat_exponent and_800000_iff assms(1)) simp
  qed
  have p: "(256::nat) ^ n = 2 ^ (8 * n)" for n by (simp add: power_mult)
  have e_le: "drop_bit 24 c \<le> 3 \<longleftrightarrow> e \<le> 3" by (simp add: word_le_nat_alt ex)
  have shift: "unat (8 * (3 - drop_bit 24 c)) = 8 * (3 - e)" if "e \<le> 3"
  proof -
    have eight: "unat (8 * w) = 8 * unat w" if "unat w \<le> 3" for w :: u32
      using that by (simp add: unat_word_ariths)
    have "unat (3 - drop_bit 24 c) = 3 - e"
      using that e_le ex by (simp add: unat_sub)
    then show ?thesis using eight [of "3 - drop_bit 24 c"] by linarith
  qed
  show ?thesis
  proof (cases "e \<le> 3")
    case True
    then show ?thesis
      using pos by (simp add: CompactToBig_def Let_def e_le shift [simplified] unat_drop_bit_eq
          drop_bit_eq_div [where 'a = nat] man p)
  next
    case False
    then show ?thesis
      using pos by (simp add: CompactToBig_def Let_def e_le ex push_bit_eq_mult p arg_cong [OF man, of int, simplified])
  qed
qed

text \<open>
  The exponent \<open>BigToCompact\<close> chooses: the byte length, one more when the top three bytes
  have their high bit set.
\<close>

definition topBytes :: "nat \<Rightarrow> nat \<Rightarrow> nat" where
  "topBytes t B = (if B \<le> 3 then t * 256 ^ (3 - B) else t div 256 ^ (B - 3))"

lemma topBytes_bounds:
  assumes "0 < B" "256 ^ (B - 1) \<le> t" "t < 256 ^ B"
  shows "2 ^ 16 \<le> topBytes t B" "topBytes t B < 2 ^ 24"
proof -
  have "2 ^ 16 \<le> topBytes t B \<and> topBytes t B < 2 ^ 24"
  proof (cases "B \<le> 3")
    case True
    have "(256::nat) ^ 2 = 256 ^ (B - 1) * 256 ^ (3 - B)" "(256::nat) ^ 3 = 256 ^ B * 256 ^ (3 - B)"
      using True assms(1) by (simp_all flip: power_add)
    moreover have "256 ^ (B - 1) * 256 ^ (3 - B) \<le> t * (256::nat) ^ (3 - B)"
      "t * 256 ^ (3 - B) < 256 ^ B * (256::nat) ^ (3 - B)"
      using assms by simp_all
    ultimately show ?thesis using True by (simp add: topBytes_def)
  next
    case False
    then obtain k where "B = k + 3" by (metis add.commute le_Suc_ex linorder_not_le nat_less_le)
    then have "(256::nat) ^ (B - 1) = 256 ^ 2 * 256 ^ (B - 3)" "(256::nat) ^ B = 256 ^ 3 * 256 ^ (B - 3)"
      by (simp_all add: power_add)
    then have "256 ^ 2 \<le> t div 256 ^ (B - 3)" "t div 256 ^ (B - 3) < 256 ^ 3"
      using assms(2,3) by (simp_all add: less_eq_div_iff_mult_less_eq div_less_iff_less_mult)
    with False show ?thesis by (simp add: topBytes_def)
  qed
  then show "2 ^ 16 \<le> topBytes t B" "topBytes t B < 2 ^ 24" by blast+
qed

text \<open>
  What \<open>BigToCompact\<close> computes, in arithmetic: for a positive target the exponent \<open>E\<close> and
  the mantissa \<open>m\<close>, which is the target with its low \<open>E - 3\<close> bytes cut off.
\<close>

definition compactWord :: "nat \<Rightarrow> nat \<Rightarrow> u32" where
  "compactWord t B = (let bl = (of_nat B :: u32) in
     if bl \<le> 3 then push_bit (unat (8 * (3 - bl))) (of_nat t)
     else of_nat (t div 2 ^ (8 * (unat bl - 3))))"

lemma BigToCompact_pos:
  "0 < t \<Longrightarrow> B = (bitLen t + 7) div 8 \<Longrightarrow>
     BigToCompact (int t) =
       (if compactWord t B AND 0x00800000 \<noteq> 0
        then drop_bit 8 (compactWord t B) OR push_bit 24 (of_nat B + 1)
        else compactWord t B OR push_bit 24 (of_nat B))"
  by (simp add: BigToCompact_def compactWord_def Let_def)

lemma unat_compactWord:
  assumes "0 < B" "B < 255" "topBytes t B < 2 ^ 24"
  shows "unat (compactWord t B) = topBytes t B"
proof -
  have p: "(256::nat) ^ n = 2 ^ (8 * n)" for n by (simp add: power_mult)
  have uB: "unat (of_nat B :: u32) = B" using assms by simp
  have le3: "(of_nat B :: u32) \<le> 3 \<longleftrightarrow> B \<le> 3" using uB by (simp add: word_le_nat_alt)
  show ?thesis
  proof (cases "B \<le> 3")
    case True
    have eight: "unat (8 * w) = 8 * unat w" if "unat w \<le> 3" for w :: u32
      using that by (simp add: unat_word_ariths)
    have "unat (3 - of_nat B :: u32) = 3 - B" using True le3 uB by (simp add: unat_sub)
    then have sh: "unat (8 * (3 - of_nat B) :: u32) = 8 * (3 - B)"
      using eight [of "3 - of_nat B"] by linarith
    have lt: "t * 2 ^ (8 * (3 - B)) < 2 ^ 24" using assms(3) True by (simp add: topBytes_def p)
    have "t * 1 \<le> t * 2 ^ (8 * (3 - B))" by (rule mult_le_mono) simp_all
    also have "\<dots> < 2 ^ 32" using lt by (rule less_le_trans) simp
    finally have "t < 2 ^ 32" by simp
    then have "unat (push_bit (8 * (3 - B)) (of_nat t :: u32)) = t * 2 ^ (8 * (3 - B))"
      using lt by (simp add: unsigned_push_bit_eq push_bit_eq_mult [where 'a = nat]
          take_bit_eq_mod [where 'a = nat])
    then show ?thesis using True le3 sh by (simp add: compactWord_def Let_def topBytes_def p)
  next
    case False
    then have "topBytes t B = t div 2 ^ (8 * (B - 3))" by (simp add: topBytes_def p)
    then show ?thesis
      using False le3 uB assms(3) by (simp add: compactWord_def Let_def)
  qed
qed

lemma BigToCompact_arith:
  assumes "0 < t" "t < 256 ^ 250"
  obtains m E where "unat (BigToCompact (int t)) = m + E * 2 ^ 24" "2 ^ 15 \<le> m" "m < 2 ^ 23"
    "0 < E" "E < 256" "E \<le> 3 \<Longrightarrow> m = t * 256 ^ (3 - E)" "3 < E \<Longrightarrow> m = t div 256 ^ (E - 3)"
proof -
  define B where "B = (bitLen t + 7) div 8"
  note b = byteLen_bounds [OF assms(1) B_def]
  have "(256::nat) ^ (B - 1) < 256 ^ 250" using b(2) assms(2) by (rule le_less_trans)
  then have "B - 1 < 250" by (rule power_less_imp_less_exp [rotated]) simp
  then have B_small: "B < 255" by linarith
  define k where "k = topBytes t B"
  note tb = topBytes_bounds [OF b, folded k_def]
  have uk: "unat (compactWord t B) = k"
    using unat_compactWord [OF b(1) B_small] tb(2) by (simp add: k_def)
  note eq = BigToCompact_pos [OF assms(1) B_def]
  show thesis
  proof (cases "k < 2 ^ 23")
    case True
    then have "\<not> compactWord t B AND 0x00800000 \<noteq> 0" using uk by (simp add: and_800000_iff)
    then have "BigToCompact (int t) = compactWord t B OR push_bit 24 (of_nat B)" using eq by simp
    then have "unat (BigToCompact (int t)) = k + B * 2 ^ 24"
      using unat_or_exponent [of "compactWord t B" "of_nat B"] uk tb B_small by simp
    moreover have "2 ^ 15 \<le> k" using tb(1) by simp
    ultimately show thesis
      using that [of k B] True b(1) B_small by (simp add: k_def topBytes_def)
  next
    case False
    then have "k div 2 ^ 23 = 1" using tb(2) by simp
    then have "compactWord t B AND 0x00800000 \<noteq> 0" using uk by (simp add: and_800000_iff)
    then have "BigToCompact (int t) = drop_bit 8 (compactWord t B) OR push_bit 24 (of_nat B + 1)"
      using eq by simp
    moreover have "unat (drop_bit 8 (compactWord t B)) = k div 256"
      using uk by (simp add: unat_drop_bit_eq drop_bit_eq_div [where 'a = nat])
    moreover have "unat (of_nat B + 1 :: u32) = B + 1"
      using B_small by (simp add: unat_word_ariths)
    ultimately have u: "unat (BigToCompact (int t)) = k div 256 + (B + 1) * 2 ^ 24"
      using unat_or_exponent [of "drop_bit 8 (compactWord t B)" "of_nat B + 1"] tb B_small by simp
    have small: "k div 256 = t * 256 ^ (3 - (B + 1))" if "B + 1 \<le> 3"
    proof -
      have "(256::nat) ^ (3 - B) = 256 * 256 ^ (3 - (B + 1))"
        using that by (simp flip: power_Suc)
      then show ?thesis using that by (simp add: k_def topBytes_def)
    qed
    have large: "k div 256 = t div 256 ^ (B + 1 - 3)" if "3 < B + 1"
    proof (cases "B = 3")
      case True
      then show ?thesis by (simp add: k_def topBytes_def)
    next
      case False
      define j where "j = B - 3"
      have "B = j + 3" "0 < j" using that False by (simp_all add: j_def)
      then show ?thesis by (simp add: k_def topBytes_def mult.commute flip: div_mult2_eq)
    qed
    show thesis
      using that [of "k div 256" "B + 1"] u small large False tb(2) B_small by simp
  qed
qed

lemma BigToCompact_rounds_down:
  assumes "0 < t" "t < 256 ^ 250"
  shows "CompactToBig (BigToCompact (int t)) \<le> int t"
    and "int t * 2 ^ 15 < CompactToBig (BigToCompact (int t)) * (2 ^ 15 + 1)"
proof -
  obtain m E where e: "unat (BigToCompact (int t)) = m + E * 2 ^ 24" "2 ^ 15 \<le> m" "m < 2 ^ 23"
    "0 < E" "E < 256" and le3: "E \<le> 3 \<Longrightarrow> m = t * 256 ^ (3 - E)"
    and gt3: "3 < E \<Longrightarrow> m = t div 256 ^ (E - 3)"
    using BigToCompact_arith [OF assms] by blast
  note c = CompactToBig_arith [OF e(1) e(3) e(5)]
  define C where "C = (if E \<le> 3 then t else m * 256 ^ (E - 3))"
  have C: "CompactToBig (BigToCompact (int t)) = int C"
    using c le3 by (simp add: C_def)
  have le: "C \<le> t"
    using gt3 by (simp add: C_def)
  have "t * 2 ^ 15 < C * (2 ^ 15 + 1)"
  proof (cases "E \<le> 3")
    case True
    then show ?thesis using assms(1) by (simp add: C_def)
  next
    case False
    let ?p = "(256::nat) ^ (E - 3)"
    have "t < (m + 1) * ?p"
      using gt3 False by (simp add: dividend_less_div_times)
    then have "t * 2 ^ 15 < (m + 1) * ?p * 2 ^ 15" by simp
    also have "\<dots> = (m * 2 ^ 15 + 2 ^ 15) * ?p" by (simp add: algebra_simps)
    also have "\<dots> \<le> (m * 2 ^ 15 + m) * ?p" using e(2) by simp
    also have "\<dots> = C * (2 ^ 15 + 1)" using False by (simp add: C_def algebra_simps)
    finally show ?thesis .
  qed
  then have "int (t * 2 ^ 15) < int (C * (2 ^ 15 + 1))" by (simp only: of_nat_less_iff)
  with C show "int t * 2 ^ 15 < CompactToBig (BigToCompact (int t)) * (2 ^ 15 + 1)" by simp
  show "CompactToBig (BigToCompact (int t)) \<le> int t" using C le by simp
qed

text \<open>Normalised compact words, the form every network's parameters use.\<close>

definition normalCompact :: "u32 \<Rightarrow> bool" where
  "normalCompact c \<longleftrightarrow> 2 ^ 15 \<le> unat c mod 2 ^ 24 \<and> unat c mod 2 ^ 24 < 2 ^ 23
     \<and> 3 \<le> unat c div 2 ^ 24 \<and> unat c div 2 ^ 24 < 250"

lemma exponent_unique:
  fixes K :: nat
  assumes "0 < K" "K * 256 ^ A \<le> x" "x < K * 256 ^ Suc A" "K * 256 ^ B \<le> x" "x < K * 256 ^ Suc B"
  shows "A = B"
proof -
  have "K * 256 ^ A < K * 256 ^ Suc B" "K * 256 ^ B < K * 256 ^ Suc A"
    using assms by linarith+
  then have "(256::nat) ^ A < 256 ^ Suc B" "(256::nat) ^ B < 256 ^ Suc A"
    using assms(1) by (simp_all only: mult_less_cancel1)
  then have "A < Suc B" "B < Suc A" by (simp_all only: power_strict_increasing_iff one_less_numeral_iff semiring_norm)
  then show ?thesis by simp
qed

lemma exponent_range:
  fixes m E t :: nat
  assumes "2 ^ 15 \<le> m" "m < 2 ^ 23" "E \<le> 3 \<Longrightarrow> m = t * 256 ^ (3 - E)" "3 < E \<Longrightarrow> m = t div 256 ^ (E - 3)"
  shows "2 ^ 15 * 256 ^ E \<le> t * 256 ^ 3" "t * 256 ^ 3 < 2 ^ 15 * 256 ^ Suc E"
proof -
  have "2 ^ 15 * 256 ^ E \<le> t * 256 ^ 3 \<and> t * 256 ^ 3 < 2 ^ 15 * 256 ^ Suc E"
  proof (cases "E \<le> 3")
    case True
    then have "(256::nat) ^ 3 = 256 ^ (3 - E) * 256 ^ E" by (simp flip: power_add)
    then have "t * 256 ^ 3 = m * 256 ^ E" using True assms(3) by simp
    then show ?thesis using assms(1,2) by simp
  next
    case False
    define p where "p = (256::nat) ^ (E - 3)"
    have "E = (E - 3) + 3" using False by simp
    then have pE: "(256::nat) ^ E = p * 256 ^ 3" unfolding p_def by (metis power_add)
    have m: "m = t div p" using assms(4) False by (simp add: p_def)
    have "m * p \<le> t" by (simp add: m)
    moreover have "t < (m + 1) * p" by (simp add: m p_def dividend_less_div_times)
    moreover have "2 ^ 15 * p \<le> m * p" "(m + 1) * p \<le> 2 ^ 23 * p"
      using assms(1,2) by (intro mult_le_mono; simp)+
    ultimately have "2 ^ 15 * p \<le> t" "t < 2 ^ 23 * p" by linarith+
    then show ?thesis using pE by simp
  qed
  then show "2 ^ 15 * 256 ^ E \<le> t * 256 ^ 3" "t * 256 ^ 3 < 2 ^ 15 * 256 ^ Suc E" by blast+
qed

lemma BigToCompact_CompactToBig:
  assumes "normalCompact c"
  shows "BigToCompact (CompactToBig c) = c"
proof -
  define m E where "m = unat c mod 2 ^ 24" and "E = unat c div 2 ^ 24"
  have u: "unat c = m + E * 2 ^ 24" by (simp add: m_def E_def)
  have r: "2 ^ 15 \<le> m" "m < 2 ^ 23" "3 \<le> E" "E < 250"
    using assms by (simp_all add: normalCompact_def m_def E_def)
  define t where "t = m * 256 ^ (E - 3)"
  have c: "CompactToBig c = int t"
    using CompactToBig_arith [OF u] r by (cases "E = 3") (simp_all add: t_def)
  have pos: "0 < t" using r by (simp add: t_def)
  have small: "t < 256 ^ 250"
  proof -
    have "t < 256 ^ 3 * 256 ^ (E - 3)" using r by (simp add: t_def)
    also have "\<dots> = 256 ^ (3 + (E - 3))" by (rule power_add [symmetric])
    also have "\<dots> = 256 ^ E" using r by simp
    also have "\<dots> \<le> 256 ^ 250" using r by (intro power_increasing) simp_all
    finally show ?thesis .
  qed
  obtain m' E' where e: "unat (BigToCompact (int t)) = m' + E' * 2 ^ 24" "2 ^ 15 \<le> m'" "m' < 2 ^ 23"
    and m': "E' \<le> 3 \<Longrightarrow> m' = t * 256 ^ (3 - E')" "3 < E' \<Longrightarrow> m' = t div 256 ^ (E' - 3)"
    using BigToCompact_arith [OF pos small] by blast
  have mE: "E \<le> 3 \<Longrightarrow> m = t * 256 ^ (3 - E)" "3 < E \<Longrightarrow> m = t div 256 ^ (E - 3)"
    using r(3) by (simp_all add: t_def)
  note rng = exponent_range [OF r(1,2) mE] exponent_range [OF e(2,3) m']
  have "E' = E" by (rule exponent_unique [OF _ rng(3,4,1,2)]) simp
  then have "m' = m" using mE m' by (cases "E \<le> 3") simp_all
  with \<open>E' = E\<close> e(1) u have "unat (BigToCompact (int t)) = unat c" by simp
  then show ?thesis using c by (simp add: word_unat_eq_iff)
qed

lemma CalcWork_pos: "0 < CompactToBig bits \<Longrightarrow> CompactToBig bits < 2 ^ 256 \<Longrightarrow> 0 < CalcWork bits"
  by (simp add: CalcWork_def Let_def pos_imp_zdiv_pos_iff)

lemma CalcWork_nonneg: "0 \<le> CalcWork bits"
  by (simp add: CalcWork_def Let_def pos_imp_zdiv_nonneg_iff)

lemma CalcWork_antimono:
  "0 < CompactToBig a \<Longrightarrow> CompactToBig a \<le> CompactToBig b \<Longrightarrow> CalcWork b \<le> CalcWork a"
  by (simp add: CalcWork_def Let_def zdiv_mono2)

end
