(* ===== verification/Pow.thy ===== *)
theory Pow
  imports Target Consensus
begin

text \<open>
  The proof-of-work engine (\<open>internal/consensus/pow/engine.go\<close>) and the interface it implements
  (\<open>internal/consensus/engine.go\<close>). Division by zero, which panics in Go, is \<open>None\<close>. The engine
  interface is the locale \<open>consensus_engine\<close>, whose law says that a header that the engine has
  prepared and sealed on top of a parent passes the engine's own validation.
\<close>

datatype header_error =
    PrevMismatch hash hash
  | BadBits u32 u32
  | PowFailed pow_error
  | EnginePanic

section \<open>Difficulty\<close>

text \<open>Division of \<open>int64\<close> values truncates towards zero; \<open>big.Int.Div\<close> is Euclidean.\<close>

definition goDiv :: "int \<Rightarrow> int \<Rightarrow> int" where
  "goDiv a b = sgn a * sgn b * (\<bar>a\<bar> div \<bar>b\<bar>)"

definition bigDiv :: "int \<Rightarrow> int \<Rightarrow> int" where
  "bigDiv a b = (if b > 0 then a div b else - (a div (- b)))"

text \<open>The clamps on the measured timespan and on the new target.\<close>

definition clampTimespan :: "int \<Rightarrow> int \<Rightarrow> int" where
  "clampTimespan targetTimespan actualTimespan =
     (let a = (if actualTimespan < goDiv targetTimespan 4 then goDiv targetTimespan 4 else actualTimespan) in
      if a > targetTimespan * 4 then targetTimespan * 4 else a)"

definition CalcNextBits :: "BlockHeader \<Rightarrow> u32 \<Rightarrow> (u32 \<Rightarrow> BlockHeader option) \<Rightarrow> ChainParams \<Rightarrow> u32 option" where
  "CalcNextBits tip tipHeight getAncestor p =
     (if NoRetarget p then Some (InitialBits p)
      else
        let nextHeight = tipHeight + 1 in
        if RetargetInterval p = 0 then None
        else if nextHeight mod RetargetInterval p \<noteq> 0 then Some (Bits tip)
        else
          case getAncestor (tipHeight - (RetargetInterval p - 1)) of
            None \<Rightarrow> Some (Bits tip)
          | Some firstHeader \<Rightarrow>
              let actualTimespan = int (unat (Timestamp tip)) - int (unat (Timestamp firstHeader));
                  targetTimespan = goDiv (TargetTimespan p) Second;
                  actualTimespan = clampTimespan targetTimespan actualTimespan;
                  oldTarget = CompactToBig (Bits tip) in
              if targetTimespan = 0 then None
              else
                let newTarget = bigDiv (oldTarget * actualTimespan) targetTimespan;
                    maxTarget = CompactToBig (MinBits p);
                    newTarget = (if newTarget > maxTarget then maxTarget else newTarget)
                in Some (BigToCompact newTarget))"

definition PrepareHeader :: "BlockHeader \<Rightarrow> BlockHeader \<Rightarrow> u32 \<Rightarrow> (u32 \<Rightarrow> BlockHeader option) \<Rightarrow> ChainParams \<Rightarrow> BlockHeader option" where
  "PrepareHeader header parent parentHeight getAncestor p =
     map_option (\<lambda>b. header\<lparr>Bits := b\<rparr>) (CalcNextBits parent parentHeight getAncestor p)"

definition ValidateHeader :: "(bytes \<Rightarrow> bytes) \<Rightarrow> BlockHeader \<Rightarrow> BlockHeader \<Rightarrow> u32 \<Rightarrow> (u32 \<Rightarrow> BlockHeader option) \<Rightarrow> ChainParams
    \<Rightarrow> (header_error, unit) res" where
  "ValidateHeader sha header parent height getAncestor p =
     (let parentHash = HashBlockHeader sha parent in
      if PrevBlock header \<noteq> parentHash then Inl (PrevMismatch (PrevBlock header) parentHash)
      else case CalcNextBits parent (height - 1) getAncestor p of
             None \<Rightarrow> Inl EnginePanic
           | Some expectedBits \<Rightarrow>
               if Bits header \<noteq> expectedBits then Inl (BadBits (Bits header) expectedBits)
               else mapErr PowFailed (ValidateProofOfWork (HashBlockHeader sha header) (Bits header)))"

definition ValidateBlock :: "(bytes \<Rightarrow> bytes) \<Rightarrow> Block \<Rightarrow> u32 \<Rightarrow> ChainParams \<Rightarrow> (block_error, unit) res" where
  "ValidateBlock sha block height p = ValidateBlockStructure sha block height p"

section \<open>Mining\<close>

fun sealLoop :: "(bytes \<Rightarrow> bytes) \<Rightarrow> hash \<Rightarrow> nat \<Rightarrow> BlockHeader \<Rightarrow> bool \<times> BlockHeader" where
  "sealLoop sha target 0 header = (False, header)"
| "sealLoop sha target (Suc n) header =
     (if LessOrEqual (HashBlockHeader sha header) target then (True, header)
      else
        let header = header\<lparr>Nonce := Nonce header + 1\<rparr> in
        if Nonce header = 0 then (False, header) else sealLoop sha target n header)"

text \<open>\<open>SealHeader\<close> updates the header in place and reports whether it found a solution.\<close>

definition SealHeader :: "(bytes \<Rightarrow> bytes) \<Rightarrow> BlockHeader \<Rightarrow> hash \<Rightarrow> u64 \<Rightarrow> bool \<times> BlockHeader" where
  "SealHeader sha header target maxIterations = sealLoop sha target (unat maxIterations) header"

text \<open>The unbounded loop of \<open>MineGenesis\<close> ends at the latest when the nonce wraps to 0.\<close>

function mineLoop :: "(bytes \<Rightarrow> bytes) \<Rightarrow> hash \<Rightarrow> BlockHeader \<Rightarrow> bool \<times> BlockHeader" where
  "mineLoop sha target header =
     (if LessOrEqual (HashBlockHeader sha header) target then (True, header)
      else
        let header = header\<lparr>Nonce := Nonce header + 1\<rparr> in
        if Nonce header = 0 then (False, header) else mineLoop sha target header)"
  by pat_completeness auto

termination
proof (relation "measure (\<lambda>(sha, target, header). 2 ^ 32 - unat (Nonce header))")
  fix sha target and header header' :: BlockHeader
  assume h: "header' = header\<lparr>Nonce := Nonce header + 1\<rparr>" and n: "Nonce header' \<noteq> 0"
  have "unat (Nonce header') = Suc (unat (Nonce header))" using h n u32_increases by simp
  moreover have "unat (Nonce header') < 2 ^ 32" by (rule u32_bound)
  ultimately show "((sha, target, header'), (sha, target, header))
      \<in> measure (\<lambda>(sha, target, header). 2 ^ 32 - unat (Nonce header))" by simp
qed simp

declare mineLoop.simps [simp del]

definition MineGenesis :: "(bytes \<Rightarrow> bytes) \<Rightarrow> Block \<Rightarrow> bool \<times> Block" where
  "MineGenesis sha block =
     (let header = (Header block)\<lparr>MerkleRootH := ComputeMerkleRoot sha (Transactions block)\<rparr>;
          target = CompactToHash (Bits header);
          (found, header) = mineLoop sha target header
      in (found, block\<lparr>Header := header\<rparr>))"

section \<open>The engine interface\<close>

text \<open>
  Clients (the miner) prepare a header on a parent, seal it against the target of its bits, and
  rely on the result being valid.
\<close>

locale consensus_engine =
  fixes validateHeader :: "BlockHeader \<Rightarrow> BlockHeader \<Rightarrow> u32 \<Rightarrow> (u32 \<Rightarrow> BlockHeader option) \<Rightarrow> ChainParams
      \<Rightarrow> (header_error, unit) res"
    and prepareHeader :: "BlockHeader \<Rightarrow> BlockHeader \<Rightarrow> u32 \<Rightarrow> (u32 \<Rightarrow> BlockHeader option) \<Rightarrow> ChainParams
      \<Rightarrow> BlockHeader option"
    and sealHeader :: "BlockHeader \<Rightarrow> hash \<Rightarrow> u64 \<Rightarrow> bool \<times> BlockHeader"
    and parentHash :: "BlockHeader \<Rightarrow> hash"
  assumes prepare_keeps: "prepareHeader h par ph g p = Some h' \<Longrightarrow> h' = h\<lparr>Bits := Bits h'\<rparr>"
    and seal_keeps: "sealHeader h t n = (found, h') \<Longrightarrow> h' = h\<lparr>Nonce := Nonce h'\<rparr>"
    and sealed_valid:
      "prepareHeader h0 par ph g p = Some h1 \<Longrightarrow> PrevBlock h1 = parentHash par \<Longrightarrow>
       Bits h = Bits h1 \<Longrightarrow> PrevBlock h = PrevBlock h1 \<Longrightarrow>
       sealHeader h (CompactToHash (Bits h1)) n = (True, h') \<Longrightarrow>
       validateHeader h' par (ph + 1) g p = Inr ()"

section \<open>Sealing\<close>

abbreviation withNonce :: "BlockHeader \<Rightarrow> nat \<Rightarrow> BlockHeader" where
  "withNonce h k \<equiv> h\<lparr>Nonce := Nonce h + of_nat k\<rparr>"

abbreviation sealOk :: "(bytes \<Rightarrow> bytes) \<Rightarrow> hash \<Rightarrow> BlockHeader \<Rightarrow> bool" where
  "sealOk sha target h \<equiv> LessOrEqual (HashBlockHeader sha h) target"

lemma sealLoop_frame: "sealLoop sha target n h = (f, h') \<Longrightarrow> h' = h\<lparr>Nonce := Nonce h'\<rparr>"
  by (induction sha target n h rule: sealLoop.induct)
     (auto simp: Let_def split: if_splits)

text \<open>A search succeeds exactly with the first nonce that meets the target, if one is in reach.\<close>

lemma sealLoop_found:
  "sealLoop sha target n h = (True, h') \<longleftrightarrow>
     (\<exists>k<n. unat (Nonce h) + k < 2 ^ 32 \<and> (\<forall>j<k. \<not> sealOk sha target (withNonce h j))
        \<and> sealOk sha target (withNonce h k) \<and> h' = withNonce h k)"
proof (induction n arbitrary: h)
  case 0
  then show ?case by simp
next
  case (Suc n)
  have b: "unat (Nonce h) < 2 ^ 32" by (rule u32_bound)
  show ?case
  proof (cases "sealOk sha target h")
    case True
    have "k = 0" if "\<forall>j<k. \<not> sealOk sha target (withNonce h j)" for k
      using that [rule_format, of 0] True by (cases k) auto
    then have "(\<exists>k<Suc n. unat (Nonce h) + k < 2 ^ 32 \<and> (\<forall>j<k. \<not> sealOk sha target (withNonce h j))
        \<and> sealOk sha target (withNonce h k) \<and> h' = withNonce h k) \<longleftrightarrow> h' = h"
      using True b by fastforce
    then show ?thesis using True by auto
  next
    case False
    let ?h = "h\<lparr>Nonce := Nonce h + 1\<rparr>"
    have sh: "withNonce ?h k = withNonce h (Suc k)" for k by (simp add: algebra_simps)
    have "(\<exists>k<Suc n. unat (Nonce h) + k < 2 ^ 32 \<and> (\<forall>j<k. \<not> sealOk sha target (withNonce h j))
        \<and> sealOk sha target (withNonce h k) \<and> h' = withNonce h k)
      \<longleftrightarrow> (\<exists>k<n. unat (Nonce h) + Suc k < 2 ^ 32 \<and> (\<forall>j<Suc k. \<not> sealOk sha target (withNonce h j))
        \<and> sealOk sha target (withNonce h (Suc k)) \<and> h' = withNonce h (Suc k))" (is "?A \<longleftrightarrow> ?B")
    proof
      assume ?A
      then obtain k where k: "k < Suc n" "unat (Nonce h) + k < 2 ^ 32"
        "\<forall>j<k. \<not> sealOk sha target (withNonce h j)" "sealOk sha target (withNonce h k)" "h' = withNonce h k"
        by blast
      with False obtain k' where "k = Suc k'" by (cases k) auto
      with k show ?B by (intro exI [of _ k']) auto
    next
      assume ?B
      then show ?A by (metis Suc_less_eq)
    qed
    also have "\<dots> \<longleftrightarrow> (\<exists>k<n. unat (Nonce h) + Suc k < 2 ^ 32
        \<and> (\<forall>j<k. \<not> sealOk sha target (withNonce ?h j)) \<and> sealOk sha target (withNonce ?h k) \<and> h' = withNonce ?h k)"
      unfolding sh All_less_Suc2 using False by simp
    finally have eq: "?A \<longleftrightarrow> (\<exists>k<n. unat (Nonce h) + Suc k < 2 ^ 32
        \<and> (\<forall>j<k. \<not> sealOk sha target (withNonce ?h j)) \<and> sealOk sha target (withNonce ?h k) \<and> h' = withNonce ?h k)" .
    show ?thesis
    proof (cases "Nonce h + 1 = 0")
      case True
      then have "unat (Nonce h) = 2 ^ 32 - 1" by (simp only: u32_wrap)
      then show ?thesis using False True eq by auto
    next
      case nz: False
      then show ?thesis using False eq Suc [of ?h] u32_increases [OF nz] by (simp add: Let_def)
    qed
  qed
qed

lemma mineLoop_seal: "mineLoop sha target h = sealLoop sha target (2 ^ 32 - unat (Nonce h)) h"
proof (induction sha target h rule: mineLoop.induct)
  case (1 sha target h)
  let ?h = "h\<lparr>Nonce := Nonce h + 1\<rparr>"
  obtain n where n: "2 ^ 32 - unat (Nonce h) = Suc n"
    using u32_bound [of "Nonce h"] by (metis zero_less_diff gr0_implies_Suc)
  show ?case
  proof (cases "sealOk sha target h \<or> Nonce h + 1 = 0")
    case True
    then show ?thesis unfolding n by (subst mineLoop.simps) auto
  next
    case False
    then have "2 ^ 32 - unat (Nonce ?h) = n" using u32_increases [of "Nonce h"] n by simp
    with 1 [OF _ refl] False show ?thesis
      unfolding n by (subst mineLoop.simps) auto
  qed
qed

lemma sealLoop_fst:
  "fst (sealLoop sha target n h) \<longleftrightarrow> (\<exists>k<n. unat (Nonce h) + k < 2 ^ 32 \<and> sealOk sha target (withNonce h k))"
proof
  assume "fst (sealLoop sha target n h)"
  then have "sealLoop sha target n h = (True, snd (sealLoop sha target n h))" by (metis prod.collapse)
  then show "\<exists>k<n. unat (Nonce h) + k < 2 ^ 32 \<and> sealOk sha target (withNonce h k)"
    unfolding sealLoop_found by blast
next
  assume "\<exists>k<n. unat (Nonce h) + k < 2 ^ 32 \<and> sealOk sha target (withNonce h k)"
  then obtain k where k: "k < n" "unat (Nonce h) + k < 2 ^ 32" "sealOk sha target (withNonce h k)" by blast
  define m where "m = (LEAST k. sealOk sha target (withNonce h k))"
  have m: "sealOk sha target (withNonce h m)" "m \<le> k" "\<forall>j<m. \<not> sealOk sha target (withNonce h j)"
    unfolding m_def using k(3) by (auto intro: LeastI Least_le dest: not_less_Least)
  then have "sealLoop sha target n h = (True, withNonce h m)"
    unfolding sealLoop_found using k(1,2) by (intro exI [of _ m]) auto
  then show "fst (sealLoop sha target n h)" by simp
qed

lemma MineGenesis_found:
  fixes sha :: "bytes \<Rightarrow> bytes" and b :: Block
  defines "h \<equiv> (Header b)\<lparr>MerkleRootH := ComputeMerkleRoot sha (Transactions b)\<rparr>"
  shows "fst (MineGenesis sha b) \<longleftrightarrow>
     (\<exists>k. unat (Nonce h) + k < 2 ^ 32 \<and> sealOk sha (CompactToHash (Bits h)) (withNonce h k)
        \<and> snd (MineGenesis sha b) = b\<lparr>Header := withNonce h k\<rparr>)"
proof -
  let ?t = "CompactToHash (Bits h)" and ?n = "2 ^ 32 - unat (Nonce h)"
  have mg: "fst (MineGenesis sha b) = fst (sealLoop sha ?t ?n h)"
    "snd (MineGenesis sha b) = b\<lparr>Header := snd (sealLoop sha ?t ?n h)\<rparr>"
    by (simp_all add: MineGenesis_def h_def Let_def mineLoop_seal case_prod_beta)
  show ?thesis
  proof
    assume "fst (MineGenesis sha b)"
    then have "sealLoop sha ?t ?n h = (True, snd (sealLoop sha ?t ?n h))" unfolding mg by (metis prod.collapse)
    then show "\<exists>k. unat (Nonce h) + k < 2 ^ 32 \<and> sealOk sha ?t (withNonce h k)
        \<and> snd (MineGenesis sha b) = b\<lparr>Header := withNonce h k\<rparr>"
      unfolding sealLoop_found mg by force
  next
    assume "\<exists>k. unat (Nonce h) + k < 2 ^ 32 \<and> sealOk sha ?t (withNonce h k)
        \<and> snd (MineGenesis sha b) = b\<lparr>Header := withNonce h k\<rparr>"
    then obtain k where "unat (Nonce h) + k < 2 ^ 32" "sealOk sha ?t (withNonce h k)" by blast
    then show "fst (MineGenesis sha b)"
      unfolding mg sealLoop_fst by (intro exI [of _ k]) (simp add: less_diff_conv add.commute)
  qed
qed

lemma sealed_meets_target:
  assumes "SealHeader sha h target n = (True, h')"
  shows "sealOk sha target h' \<and> h' = h\<lparr>Nonce := Nonce h'\<rparr>"
  using assms sealLoop_frame [of sha target "unat n" h True h']
  unfolding SealHeader_def sealLoop_found by auto

text \<open>The engine implements the interface.\<close>

interpretation pow: consensus_engine "ValidateHeader sha" PrepareHeader "SealHeader sha" "HashBlockHeader sha"
  for sha
proof (unfold_locales, goal_cases)
  case (1 h par ph g p h')
  then show ?case by (auto simp: PrepareHeader_def)
next
  case (2 h t n found h')
  then show ?case unfolding SealHeader_def by (rule sealLoop_frame)
next
  case (3 h0 par ph g p h1 h n h')
  then have b: "CalcNextBits par ph g p = Some (Bits h1)" by (auto simp: PrepareHeader_def)
  from sealed_meets_target [OF 3(5)] have s: "sealOk sha (CompactToHash (Bits h1)) h'"
    and f: "Bits h' = Bits h" "PrevBlock h' = PrevBlock h"
    by (metis BlockHeader.ext_inject BlockHeader.surjective BlockHeader.update_convs(6))+
  then show ?case
    using 3(2-4) b by (simp add: ValidateHeader_def ValidateProofOfWork_def Let_def)
qed

section \<open>Retargeting\<close>

lemma goDiv_pos: "0 \<le> a \<Longrightarrow> 0 < b \<Longrightarrow> goDiv a b = a div b"
  by (cases "a = 0") (simp_all add: goDiv_def)

lemma clampTimespan_bounds:
  assumes "4 \<le> tt"
  shows "tt div 4 \<le> clampTimespan tt a" "clampTimespan tt a \<le> 4 * tt" "0 < clampTimespan tt a"
proof -
  have "0 < tt div 4" "tt div 4 \<le> 4 * tt" using assms by auto
  then show "tt div 4 \<le> clampTimespan tt a" "clampTimespan tt a \<le> 4 * tt" "0 < clampTimespan tt a"
    using assms by (auto simp: clampTimespan_def Let_def goDiv_pos)
qed

lemma BigToCompact_le:
  assumes "0 \<le> t" "t < 256 ^ 250"
  shows "CompactToBig (BigToCompact t) \<le> t"
proof (cases "t = 0")
  case True
  then show ?thesis by (simp add: BigToCompact_def CompactToBig_def)
next
  case False
  have "nat t < 256 ^ 250" using assms by (simp add: nat_less_iff)
  then show ?thesis using BigToCompact_rounds_down(1) [of "nat t"] assms False by simp
qed

text \<open>The value the retarget computes before it is rounded to the compact form.\<close>

definition retargetTo :: "ChainParams \<Rightarrow> int \<Rightarrow> int \<Rightarrow> int" where
  "retargetTo p old actual =
     min (CompactToBig (MinBits p)) (old * clampTimespan (goDiv (TargetTimespan p) Second) actual
        div goDiv (TargetTimespan p) Second)"

lemma CalcNextBits_retarget:
  assumes "\<not> NoRetarget p" "RetargetInterval p \<noteq> 0" "4 * Second \<le> TargetTimespan p"
    and "(tipHeight + 1) mod RetargetInterval p = 0"
    and "getAncestor (tipHeight - (RetargetInterval p - 1)) = Some first"
  shows "CalcNextBits tip tipHeight getAncestor p =
    Some (BigToCompact (retargetTo p (CompactToBig (Bits tip))
      (int (unat (Timestamp tip)) - int (unat (Timestamp first)))))"
proof -
  have "4 * Second div Second \<le> TargetTimespan p div Second"
    using assms(3) by (intro zdiv_mono1) (simp_all add: Second_def)
  then have "4 \<le> goDiv (TargetTimespan p) Second"
    using assms(3) by (subst goDiv_pos) (auto simp: Second_def)
  then show ?thesis
    using assms by (simp add: CalcNextBits_def Let_def retargetTo_def bigDiv_def min_def)
qed

lemma retargetTo_bounds:
  assumes "4 * Second \<le> TargetTimespan p" "0 \<le> old" "0 \<le> CompactToBig (MinBits p)"
  shows "0 \<le> retargetTo p old actual" "retargetTo p old actual \<le> CompactToBig (MinBits p)"
    "retargetTo p old actual \<le> 4 * old"
    "min (CompactToBig (MinBits p)) (old * (goDiv (TargetTimespan p) Second div 4) div goDiv (TargetTimespan p) Second)
       \<le> retargetTo p old actual"
proof -
  let ?tt = "goDiv (TargetTimespan p) Second"
  have "4 * Second div Second \<le> TargetTimespan p div Second"
    using assms(1) by (intro zdiv_mono1) (simp_all add: Second_def)
  then have tt: "4 \<le> ?tt" using assms(1) by (subst goDiv_pos) (auto simp: Second_def)
  note c = clampTimespan_bounds [OF tt, of actual]
  have up: "old * clampTimespan ?tt actual \<le> old * (4 * ?tt)"
    and lo: "old * (?tt div 4) \<le> old * clampTimespan ?tt actual"
    using c assms(2) by (auto intro: mult_left_mono)
  have "old * clampTimespan ?tt actual div ?tt \<le> old * (4 * ?tt) div ?tt"
    using up tt by (intro zdiv_mono1) auto
  also have "\<dots> = 4 * old" using tt by (simp add: mult.left_commute [of old])
  finally show "retargetTo p old actual \<le> 4 * old" by (simp add: retargetTo_def)
  have "0 \<le> old * clampTimespan ?tt actual div ?tt"
    using c assms(2) tt by (simp add: pos_imp_zdiv_nonneg_iff)
  with assms(3) show "0 \<le> retargetTo p old actual" by (simp add: retargetTo_def)
  show "retargetTo p old actual \<le> CompactToBig (MinBits p)" by (simp add: retargetTo_def)
  have "old * (?tt div 4) div ?tt \<le> old * clampTimespan ?tt actual div ?tt"
    using lo tt by (intro zdiv_mono1) auto
  then show "min (CompactToBig (MinBits p)) (old * (?tt div 4) div ?tt) \<le> retargetTo p old actual"
    by (simp add: retargetTo_def)
qed

end
