(* ===== verification/Miner.thy ===== *)
theory Miner
  imports Mempool_Props Pow
begin

text \<open>
  The miner (\<open>internal/miner/miner.go\<close>). \<open>MineOne\<close> is a function of the tip it reads, the
  pool's template, the readings of the clock and the state of the context at each round. Its
  loop over batches of nonces has no bound in the source, so the model has fuel and \<open>None\<close> says
  that the loop is still running. The consensus engine is the interface \<open>consensus_engine\<close>: the
  definitions take its operations as arguments.
\<close>

datatype mine_result =
    Mined Block
  | MineCancelled
  | MineEnginePanic
  | MineNilTx

definition buildCoinbase :: "bytes \<Rightarrow> u32 \<Rightarrow> u64 \<Rightarrow> Transaction" where
  "buildCoinbase rewardScript height subsidy =
     (let msg = [0x04] @ PutUint32 height @ ascii ''fairchain'' in
      \<lparr>tx_Version = 1,
       Inputs = [\<lparr>PreviousOutPoint = CoinbaseOutPoint, SignatureScript = msg, Sequence = 0xFFFFFFFF\<rparr>],
       Outputs = [\<lparr>Value = subsidy, PkScript = rewardScript\<rparr>],
       LockTime = 0\<rparr>)"

text \<open>\<open>uint32(m.timeSource.Now())\<close>, moved past the parent's timestamp.\<close>

definition mineTime :: "int \<Rightarrow> u32 \<Rightarrow> u32" where
  "mineTime now tipTime = (let ts = of_int now in if ts \<le> tipTime then tipTime + 1 else ts)"

fun mineBatches :: "(BlockHeader \<Rightarrow> hash \<Rightarrow> u64 \<Rightarrow> bool \<times> BlockHeader) \<Rightarrow> hash \<Rightarrow> hash \<Rightarrow> u32 \<Rightarrow> Transaction list
    \<Rightarrow> (nat \<Rightarrow> bool) \<Rightarrow> (nat \<Rightarrow> int) \<Rightarrow> nat \<Rightarrow> nat \<Rightarrow> BlockHeader \<Rightarrow> mine_result option" where
  "mineBatches sealHeader target merkle tipTime txs ctxDone clock 0 i header = None"
| "mineBatches sealHeader target merkle tipTime txs ctxDone clock (Suc fuel) i header =
     (if ctxDone i then Some MineCancelled
      else case sealHeader header target 100000 of (found, header) \<Rightarrow>
        if found then Some (Mined \<lparr>Header = header, Transactions = txs\<rparr>)
        else
          let header = (if Nonce header = 0
                        then header\<lparr>Timestamp := mineTime (clock (Suc i)) tipTime, MerkleRootH := merkle\<rparr>
                        else header)
          in mineBatches sealHeader target merkle tipTime txs ctxDone clock fuel (Suc i) header)"

text \<open>
  The block template: the coinbase pays subsidy and fees, with the wrapping addition of the
  source. Dereferencing a nil transaction of the template panics.
\<close>

definition mineTxs :: "ChainParams \<Rightarrow> bytes \<Rightarrow> u32 \<Rightarrow> BlockTemplateResult \<Rightarrow> Transaction list option" where
  "mineTxs p rewardScript newHeight tmpl =
     (if None \<in> set (bt_Transactions tmpl) then None
      else Some (buildCoinbase rewardScript newHeight (CalcSubsidy p newHeight + bt_TotalFees tmpl)
                 # map the (bt_Transactions tmpl)))"

definition MineOne :: "(BlockHeader \<Rightarrow> BlockHeader \<Rightarrow> u32 \<Rightarrow> (u32 \<Rightarrow> BlockHeader option) \<Rightarrow> ChainParams \<Rightarrow> BlockHeader option)
    \<Rightarrow> (BlockHeader \<Rightarrow> hash \<Rightarrow> u64 \<Rightarrow> bool \<times> BlockHeader) \<Rightarrow> (bytes \<Rightarrow> bytes)
    \<Rightarrow> hash \<Rightarrow> u32 \<Rightarrow> BlockHeader \<Rightarrow> (u32 \<Rightarrow> BlockHeader option) \<Rightarrow> ChainParams \<Rightarrow> bytes \<Rightarrow> BlockTemplateResult
    \<Rightarrow> (nat \<Rightarrow> bool) \<Rightarrow> (nat \<Rightarrow> int) \<Rightarrow> nat \<Rightarrow> mine_result option" where
  "MineOne prepareHeader sealHeader sha tipHash tipHeight tipHeader getAncestor p rewardScript tmpl ctxDone clock fuel =
     (let newHeight = tipHeight + 1 in
      case mineTxs p rewardScript newHeight tmpl of
        None \<Rightarrow> Some MineNilTx
      | Some txs \<Rightarrow>
          let merkle = ComputeMerkleRoot sha txs;
              header = \<lparr>hdr_Version = 1, PrevBlock = tipHash, MerkleRootH = merkle,
                        Timestamp = mineTime (clock 0) (Timestamp tipHeader), Bits = 0, Nonce = 0\<rparr> in
          (case prepareHeader header tipHeader tipHeight getAncestor p of
             None \<Rightarrow> Some MineEnginePanic
           | Some header \<Rightarrow>
               mineBatches sealHeader (CompactToHash (Bits header)) merkle (Timestamp tipHeader) txs
                 ctxDone clock fuel 0 header))"

section \<open>Mined blocks are valid headers\<close>

context consensus_engine
begin

lemma mineBatches_frame:
  assumes "mineBatches sealHeader target merkle tipTime txs ctxDone clock fuel i h = Some (Mined b)"
    and "MerkleRootH h = merkle"
  shows "\<exists>h1. sealHeader h1 target 100000 = (True, Header b) \<and> Bits h1 = Bits h \<and> PrevBlock h1 = PrevBlock h
     \<and> MerkleRootH (Header b) = merkle \<and> Transactions b = txs"
  using assms
proof (induction fuel arbitrary: i h)
  case 0
  then show ?case by simp
next
  case (Suc fuel)
  obtain found h1 where s: "sealHeader h target 100000 = (found, h1)" by fastforce
  note k = seal_keeps [OF s]
  have f1: "MerkleRootH h1 = MerkleRootH h" "Bits h1 = Bits h" "PrevBlock h1 = PrevBlock h"
    by (metis k BlockHeader.ext_inject BlockHeader.surjective BlockHeader.update_convs(6))+
  show ?case
  proof (cases found)
    case True
    then show ?thesis using Suc.prems s f1 by (auto split: if_splits)
  next
    case False
    let ?h = "if Nonce h1 = 0 then h1\<lparr>Timestamp := mineTime (clock (Suc i)) tipTime, MerkleRootH := merkle\<rparr> else h1"
    have "mineBatches sealHeader target merkle tipTime txs ctxDone clock fuel (Suc i) ?h = Some (Mined b)"
      using Suc.prems(1) s False by (auto simp: Let_def split: if_splits)
    moreover have "MerkleRootH ?h = merkle" "Bits ?h = Bits h" "PrevBlock ?h = PrevBlock h"
      using f1 Suc.prems(2) by simp_all
    ultimately show ?thesis using Suc.IH by metis
  qed
qed

text \<open>Whatever engine implements the interface, it accepts the header of a mined block.\<close>

lemma MineOne_valid:
  assumes "MineOne prepareHeader sealHeader sha (parentHash tipHeader) tipHeight tipHeader g p reward tmpl ctxDone clock fuel
      = Some (Mined b)"
  shows "validateHeader (Header b) tipHeader (tipHeight + 1) g p = Inr ()"
    and "mineTxs p reward (tipHeight + 1) tmpl = Some (Transactions b)"
    and "MerkleRootH (Header b) = ComputeMerkleRoot sha (Transactions b)"
proof -
  from assms obtain txs where txs: "mineTxs p reward (tipHeight + 1) tmpl = Some txs"
    by (auto simp: MineOne_def Let_def split: option.splits)
  let ?h0 = "\<lparr>hdr_Version = 1, PrevBlock = parentHash tipHeader, MerkleRootH = ComputeMerkleRoot sha txs,
     Timestamp = mineTime (clock 0) (Timestamp tipHeader), Bits = 0, Nonce = 0\<rparr>"
  from assms txs obtain h1 where pr: "prepareHeader ?h0 tipHeader tipHeight g p = Some h1"
    and mb: "mineBatches sealHeader (CompactToHash (Bits h1)) (ComputeMerkleRoot sha txs) (Timestamp tipHeader) txs
       ctxDone clock fuel 0 h1 = Some (Mined b)"
    by (auto simp: MineOne_def Let_def split: option.splits)
  have keep: "PrevBlock h1 = parentHash tipHeader" "MerkleRootH h1 = ComputeMerkleRoot sha txs"
    using prepare_keeps [OF pr] by (metis BlockHeader.select_convs(2,3) BlockHeader.update_convs(5))+
  from mineBatches_frame [OF mb keep(2)] obtain h2 where
    s: "sealHeader h2 (CompactToHash (Bits h1)) 100000 = (True, Header b)" "Bits h2 = Bits h1" "PrevBlock h2 = PrevBlock h1"
    and m: "MerkleRootH (Header b) = ComputeMerkleRoot sha txs" "Transactions b = txs" by blast
  show "validateHeader (Header b) tipHeader (tipHeight + 1) g p = Inr ()"
    by (rule sealed_valid [OF pr keep(1) s(2,3,1)])
  show "mineTxs p reward (tipHeight + 1) tmpl = Some (Transactions b)"
    and "MerkleRootH (Header b) = ComputeMerkleRoot sha (Transactions b)"
    using txs m by simp_all
qed

end

section \<open>Coinbases\<close>

lemma IsCoinbase_buildCoinbase [simp]: "IsCoinbase (buildCoinbase r h v)"
  by (simp add: buildCoinbase_def Let_def IsCoinbase_def)

lemma encodedHeight_PutUint32:
  "encodedHeight ([x] @ PutUint32 h @ r) 0 4 0 = h"
proof -
  have four: "(4 :: nat) = Suc (Suc (Suc (Suc 0)))" by simp
  have "encodedHeight ([x] @ PutUint32 h @ r) 0 4 0 = getLE (PutUint32 h)"
    unfolding four by (simp add: push_bit_or ac_simps)
  then show ?thesis by simp
qed

lemma coinbase_script_valid:
  "validateCoinbaseScriptSig (SignatureScript (Inputs (buildCoinbase r h v) ! 0)) h = Inr ()"
  using encodedHeight_PutUint32 [of 4 h "ascii ''fairchain''"]
  by (simp add: validateCoinbaseScriptSig_def buildCoinbase_def Let_def ascii_def del: putLE.simps)

section \<open>Mining ends\<close>

lemma withNonce_add: "withNonce (withNonce h a) b = withNonce h (a + b)"
  by (simp add: add.assoc)

lemma sealLoop_exhausted:
  assumes "\<forall>j<n. \<not> sealOk sha target (withNonce h j)" "unat (Nonce h) + n < 2 ^ 32"
  shows "sealLoop sha target n h = (False, withNonce h n)"
  using assms
proof (induction n arbitrary: h)
  case 0
  then show ?case by simp
next
  case (Suc n)
  let ?h = "h\<lparr>Nonce := Nonce h + 1\<rparr>"
  have sh: "withNonce ?h k = withNonce h (Suc k)" for k by (simp add: algebra_simps)
  have nz: "Nonce h + 1 \<noteq> 0" using Suc.prems(2) unfolding u32_wrap by simp
  have "\<forall>j<n. \<not> sealOk sha target (withNonce ?h j)" unfolding sh using Suc.prems(1) by blast
  moreover have "unat (Nonce ?h) + n < 2 ^ 32" using u32_increases [OF nz] Suc.prems(2) by simp
  ultimately have "sealLoop sha target n ?h = (False, withNonce ?h n)" by (rule Suc.IH)
  moreover have "\<not> sealOk sha target h" using Suc.prems(1) [rule_format, of 0] by simp
  ultimately show ?case using nz sh by (simp add: Let_def)
qed

text \<open>
  If some nonce in reach meets the target, enough fuel finds the first one: one round for each
  batch of 100000 nonces.
\<close>

lemma mineBatches_finds:
  assumes "\<forall>j<k. \<not> sealOk sha target (withNonce h j)" "sealOk sha target (withNonce h k)"
    and "unat (Nonce h) + k < 2 ^ 32" "k div 100000 < fuel" "\<forall>i. \<not> ctxDone i"
  shows "mineBatches (SealHeader sha) target merkle t txs ctxDone clock fuel i h
     = Some (Mined \<lparr>Header = withNonce h k, Transactions = txs\<rparr>)"
  using assms
proof (induction fuel arbitrary: k h i)
  case 0
  then show ?case by simp
next
  case (Suc fuel)
  have u: "unat (100000 :: u64) = 100000" by simp
  show ?case
  proof (cases "k < 100000")
    case True
    have "SealHeader sha h target 100000 = (True, withNonce h k)"
      unfolding SealHeader_def u sealLoop_found using True Suc.prems by blast
    then show ?thesis using Suc.prems(5) by simp
  next
    case False
    let ?h = "withNonce h 100000"
    have e: "SealHeader sha h target 100000 = (False, ?h)"
      unfolding SealHeader_def u by (rule sealLoop_exhausted) (use False Suc.prems in auto)
    have n: "unat (Nonce ?h) = unat (Nonce h) + 100000"
      using False Suc.prems(3) by (simp add: unat_word_ariths)
    then have nz: "Nonce ?h \<noteq> 0" by (metis add_is_0 unat_0 zero_neq_numeral)
    have sh: "withNonce ?h j = withNonce h (100000 + j)" for j by (rule withNonce_add)
    have k: "withNonce ?h (k - 100000) = withNonce h k" unfolding sh using False by simp
    have "(k - 100000) div 100000 < fuel" using False Suc.prems(4) by (simp add: le_div_geq)
    moreover have "\<forall>j<k - 100000. \<not> sealOk sha target (withNonce ?h j)"
      unfolding sh using Suc.prems(1) by (metis add.commute less_diff_conv)
    ultimately have "mineBatches (SealHeader sha) target merkle t txs ctxDone clock fuel (Suc i) ?h
        = Some (Mined \<lparr>Header = withNonce ?h (k - 100000), Transactions = txs\<rparr>)"
      using Suc.prems False n unfolding k by (intro Suc.IH [of "k - 100000" ?h, unfolded k]) simp_all
    moreover have "\<not> ctxDone i" using Suc.prems(5) by blast
    ultimately show ?thesis unfolding k using e nz by (simp del: of_nat_numeral)
  qed
qed

section \<open>Mined blocks pass the block rules\<close>

lemma zeroValueIndex_single: "zeroValueIndex [\<lparr>Value = v, PkScript = r\<rparr>] 0 = (if v = 0 then Some 0 else None)"
  by simp

lemma outputs_buildCoinbase: "Outputs (buildCoinbase r h v) = [\<lparr>Value = v, PkScript = r\<rparr>]"
  by (simp add: buildCoinbase_def Let_def)

text \<open>A coinbase that claims exactly subsidy and fees on top of validated transactions.\<close>

lemma mined_inputs_valid:
  assumes "blockTxs L p s h txs (Suc 0) {} 0 = Inr fees"
    and "Transactions b = buildCoinbase r h (CalcSubsidy p h + fees) # txs"
    and "unat (CalcSubsidy p h) + unat fees < 2 ^ 64"
  shows "ValidateTransactionInputs L b s h p =
     (if CalcSubsidy p h + fees = 0 then Inl (CoinbaseZeroValue 0) else Inr fees)"
proof -
  have "\<not> CalcSubsidy p h + fees < CalcSubsidy p h" using assms(3) by (simp add: add_wraps_iff)
  then show ?thesis
    using assms(1,2) by (simp add: ValidateTransactionInputs_def outputs_buildCoinbase Let_def)
qed

lemma mined_pool_valid:
  assumes inv: "mpInv (lib_sha L) m" and sync: "inSync L m"
    and o: "distinct order" "set order = dom (mp_txs m)"
    and fin: "finite (dom (mp_utxoSet m))"
    and cap: "unat (CalcSubsidy (mp_p m) (mp_tipHeight m + 1)) + setValue (mp_utxoSet m) < 2 ^ 64"
    and sub: "CalcSubsidy (mp_p m) (mp_tipHeight m + 1) \<noteq> 0"
  shows "\<exists>txs. mineTxs (mp_p m) reward (mp_tipHeight m + 1) (BlockTemplate m order) = Some txs
     \<and> ValidateTransactionInputs L \<lparr>Header = h, Transactions = txs\<rparr> (mp_utxoSet m) (mp_tipHeight m + 1) (mp_p m)
         = Inr (bt_TotalFees (BlockTemplate m order))"
proof -
  let ?bt = "BlockTemplate m order" and ?h = "mp_tipHeight m + 1" and ?p = "mp_p m"
  let ?es = "sortSlice entryLess (poolEntries m order)"
  have cap': "setValue (mp_utxoSet m) < 2 ^ 64" using cap by linarith
  note bt = BlockTemplate_valid [OF inv sync o fin cap']
  have ms: "mset ?es = mset (poolEntries m order)" by (rule mset_sortSlice)
  then have ss: "set ?es = set (poolEntries m order)" by (metis set_mset_mset)
  have d: "distinct (concat (map (\<lambda>e. map inKey (Inputs (te_Tx e))) ?es))"
    using pool_keys_distinct [OF inv sync o(1)] o(2) by (subst distinct_concat_mset [OF ms]) simp
  have "\<forall>e\<in>set ?es. ValidateSingleTransaction L (te_Tx e) (mp_utxoSet m) (mp_tipHeight m) (mp_p m) = Inr (te_Fee e)"
    unfolding ss using sync o(2) by (fastforce simp: inSync_def)
  from fees_bound [OF this d fin] have fees: "unat (bt_TotalFees ?bt) \<le> setValue (mp_utxoSet m)"
    using bt(2) by simp
  then have nw: "unat (CalcSubsidy ?p ?h) + unat (bt_TotalFees ?bt) < 2 ^ 64" using cap by linarith
  then have nz: "CalcSubsidy ?p ?h + bt_TotalFees ?bt \<noteq> 0"
  proof -
    have "unat (CalcSubsidy ?p ?h + bt_TotalFees ?bt) = unat (CalcSubsidy ?p ?h) + unat (bt_TotalFees ?bt)"
      using nw by (simp add: unat_word_ariths)
    then show ?thesis using sub by (metis add_is_0 unat_0 unat_eq_zero)
  qed
  let ?txs = "buildCoinbase reward ?h (CalcSubsidy ?p ?h + bt_TotalFees ?bt) # map te_Tx ?es"
  have "mineTxs ?p reward ?h ?bt = Some ?txs"
    by (simp add: mineTxs_def bt(1) image_iff)
  moreover have "ValidateTransactionInputs L \<lparr>Header = h, Transactions = ?txs\<rparr> (mp_utxoSet m) ?h ?p
      = Inr (bt_TotalFees ?bt)"
    using mined_inputs_valid [OF bt(3) _ nw] nz by simp
  ultimately show ?thesis by blast
qed

end
