(* ===== verification/Merkle_Props.thy ===== *)
theory Merkle_Props
  imports Hashing
begin

text \<open>
  The Merkle root commits to the list of transactions, also between lists of different length,
  when transaction hashes are distinct (the check \<open>ValidateBlockStructure\<close> makes before it
  compares roots, against CVE-2012-2459) and no serialized transaction has the 64 bytes of an
  inner node.
\<close>

function merkleDepth :: "nat \<Rightarrow> nat" where
  "merkleDepth n = (if n > 1 then Suc (merkleDepth ((n + 1) div 2)) else 0)"
  by pat_completeness auto
termination
  by (relation "measure id") auto

declare merkleDepth.simps [simp del]

lemma merkleDepth_0: "merkleDepth n = 0 \<longleftrightarrow> \<not> n > 1"
  by (subst merkleDepth.simps) simp

abbreviation merkleUp :: "(bytes \<Rightarrow> bytes) \<Rightarrow> hash list \<Rightarrow> hash list" where
  "merkleUp sha xs \<equiv> merkleNext sha (merklePad xs)"

lemma length_merkleUp: "length (merkleUp sha xs) = (length xs + 1) div 2"
  by (simp add: length_merkleNext length_merklePad)

lemma merkleDepth_up: "length xs > 1 \<Longrightarrow> merkleDepth (length xs) = Suc (merkleDepth (length (merkleUp sha xs)))"
  unfolding length_merkleUp by (subst merkleDepth.simps) simp

lemma merkleLoop_up: "length xs > 1 \<Longrightarrow> merkleLoop sha xs = merkleLoop sha (merkleUp sha xs)"
  by (subst merkleLoop.simps) simp

lemma merkleLoop_leaf: "length xs \<le> 1 \<Longrightarrow> merkleLoop sha xs = xs"
  by (subst merkleLoop.simps) simp

lemma merkleInputs_up:
  "length xs > 1 \<Longrightarrow> merkleInputs sha xs = merklePairs (merklePad xs) @ merkleInputs sha (merkleUp sha xs)"
  by (subst merkleInputs.simps) simp

section \<open>Pairs of distinct leaves\<close>

lemma merklePad_Cons2: "r \<noteq> [] \<Longrightarrow> merklePad (a # b # r) = a # b # merklePad r"
  by (simp add: merklePad_def)

lemma merklePairs_members:
  assumes "p \<in> set (merklePairs (merklePad xs))"
  shows "\<exists>x\<in>set xs. \<exists>y\<in>set xs. p = x @ y"
proof -
  have "\<exists>x\<in>set zs. \<exists>y\<in>set zs. p = x @ y" if "p \<in> set (merklePairs zs)" for zs
    using that by (induction zs rule: merklePairs.induct) auto
  from this [OF assms] obtain x y where "x \<in> set (merklePad xs)" "y \<in> set (merklePad xs)" "p = x @ y"
    by blast
  moreover have "set (merklePad xs) \<subseteq> set xs"
    by (cases "xs = []") (auto simp: merklePad_def)
  ultimately show ?thesis by blast
qed

lemma distinct_merklePairs:
  assumes "distinct xs" "list_all wf_hash xs"
  shows "distinct (merklePairs (merklePad xs))"
  using assms
proof (induction xs rule: merklePairs.induct)
  case (1 a b r)
  show ?case
  proof (cases "r = []")
    case True
    then show ?thesis by (simp add: merklePad_def)
  next
    case False
    have "a @ b \<notin> set (merklePairs (merklePad r))"
    proof
      assume "a @ b \<in> set (merklePairs (merklePad r))"
      then obtain x y where "x \<in> set r" "y \<in> set r" "a @ b = x @ y" using merklePairs_members by blast
      with 1(3) have "a = x" by (auto simp: wf_hash_def list_all_iff)
      with \<open>x \<in> set r\<close> 1(2) show False by simp
    qed
    with 1 False show ?thesis by (simp add: merklePad_Cons2)
  qed
next
  case "2_1"
  then show ?case by (simp add: merklePad_def)
next
  case "2_2"
  then show ?case by (simp add: merklePad_def)
qed

lemma merklePad_distinct_inj:
  assumes "merklePad xs = merklePad ys" "distinct xs" "distinct ys" "xs \<noteq> []" "ys \<noteq> []"
  shows "xs = ys"
proof -
  have mixed: "zs @ [last zs] \<noteq> ws" if "distinct ws" "zs \<noteq> []" for zs ws :: "hash list"
    using that by auto
  show ?thesis
    using assms mixed [of ys xs] mixed [of xs ys] by (auto simp: merklePad_def split: if_splits)
qed

section \<open>Injectivity\<close>

context digest
begin

lemma distinct_merkleUp:
  assumes "distinct xs" "list_all wf_hash xs" "inj_on (DoubleSHA256 sha) (set (merklePairs (merklePad xs)))"
  shows "distinct (merkleUp sha xs)"
  unfolding merkleNext_pairs using distinct_merklePairs [OF assms(1,2)] assms(3) by (simp add: distinct_map)

lemma merklePairs_pad_inj:
  assumes "merklePairs (merklePad xs) = merklePairs (merklePad ys)" "list_all wf_hash xs" "list_all wf_hash ys"
    and "xs \<noteq> []" "ys \<noteq> []" "length (merklePad xs) = length (merklePad ys)"
  shows "merklePad xs = merklePad ys"
proof (rule merklePairs_inj [OF assms(6) _ _ _ assms(1)])
  show "even (length (merklePad xs))" by (simp add: length_merklePad)
  show "list_all wf_hash (merklePad xs)" "list_all wf_hash (merklePad ys)"
    using assms(2-5) by (simp_all add: merklePad_wf)
qed

lemma merkleLoop_inj_depth:
  assumes "merkleDepth (length xs) = merkleDepth (length ys)" "xs \<noteq> []" "ys \<noteq> []"
    and "list_all wf_hash xs" "list_all wf_hash ys" "distinct xs" "distinct ys"
    and "inj_on (DoubleSHA256 sha) (set (merkleInputs sha xs) \<union> set (merkleInputs sha ys))"
    and "merkleLoop sha xs = merkleLoop sha ys"
  shows "xs = ys"
  using assms
proof (induction xs arbitrary: ys rule: measure_induct_rule [of length])
  case (less xs)
  show ?case
  proof (cases "length xs > 1")
    case False
    then have "\<not> length ys > 1" using less.prems(1) by (simp only: merkleDepth_0 [symmetric])
    with False less.prems(9) show ?thesis by (simp add: merkleLoop_leaf)
  next
    case True
    then have y: "length ys > 1"
      using less.prems(1) merkleDepth_0 by metis
    note px = merkleInputs_up [OF True, of sha] and py = merkleInputs_up [OF y, of sha]
    have ij: "inj_on (DoubleSHA256 sha) (set (merklePairs (merklePad xs)) \<union> set (merklePairs (merklePad ys)))"
      using less.prems(8) unfolding px py by (rule inj_on_subset) auto
    have "merkleUp sha xs = merkleUp sha ys"
    proof (rule less.IH)
      show "length (merkleUp sha xs) < length xs" using True by (simp add: length_merkleUp)
      show "merkleDepth (length (merkleUp sha xs)) = merkleDepth (length (merkleUp sha ys))"
        using less.prems(1) by (simp only: merkleDepth_up [OF True, of sha] merkleDepth_up [OF y, of sha] nat.inject)
      have "length (merkleUp sha xs) \<noteq> 0" "length (merkleUp sha ys) \<noteq> 0"
        using True y by (simp_all add: length_merkleUp)
      then show "merkleUp sha xs \<noteq> []" "merkleUp sha ys \<noteq> []" by auto
      show "distinct (merkleUp sha xs)" "distinct (merkleUp sha ys)"
        using ij less.prems(4-7) by (auto intro!: distinct_merkleUp elim: inj_on_subset)
      show "inj_on (DoubleSHA256 sha) (set (merkleInputs sha (merkleUp sha xs)) \<union> set (merkleInputs sha (merkleUp sha ys)))"
        using less.prems(8) unfolding px py by (rule inj_on_subset) auto
      show "merkleLoop sha (merkleUp sha xs) = merkleLoop sha (merkleUp sha ys)"
        using less.prems(9) by (simp only: merkleLoop_up [OF True, of sha] merkleLoop_up [OF y, of sha])
    qed (simp_all add: wf_merkleNext)
    then have eq: "merklePairs (merklePad xs) = merklePairs (merklePad ys)"
      unfolding merkleNext_pairs using inj_on_map_eq_map [OF ij] by blast
    have "length (merklePad zs) = 2 * length (merklePairs (merklePad zs))" for zs :: "hash list"
      using length_merkleNext [of sha "merklePad zs"] unfolding merkleNext_pairs length_map
      by (simp add: length_merklePad)
    then have "merklePad xs = merklePad ys"
      using merklePairs_pad_inj [OF eq less.prems(4,5,2,3)] eq by simp
    from merklePad_distinct_inj [OF this less.prems(6,7,2,3)] show ?thesis .
  qed
qed

text \<open>If one tree is deeper, a leaf of the other is the hash of 64 bytes.\<close>

lemma merkleLoop_deeper:
  assumes "merkleDepth (length xs) < merkleDepth (length ys)" "xs \<noteq> []"
    and "list_all wf_hash xs" "list_all wf_hash ys" "distinct xs" "distinct ys"
    and "inj_on (DoubleSHA256 sha) (set (merkleInputs sha xs) \<union> set (merkleInputs sha ys))"
    and "merkleLoop sha xs = merkleLoop sha ys"
  shows "\<exists>x\<in>set xs. \<exists>i\<in>set (merkleInputs sha ys). x = DoubleSHA256 sha i \<and> length i = 64"
  using assms
proof (induction ys rule: measure_induct_rule [of length])
  case (less ys)
  have y: "length ys > 1" using less.prems(1) merkleDepth_0 by (metis not_less_zero)
  note py = merkleInputs_up [OF y, of sha]
  let ?up = "merkleUp sha ys"
  have ne: "length ?up \<noteq> 0" using y by (simp add: length_merkleUp)
  have ij: "inj_on (DoubleSHA256 sha) (set (merklePairs (merklePad ys)))"
    using less.prems(7) unfolding py by (rule inj_on_subset) auto
  have d: "distinct ?up" using distinct_merkleUp [OF less.prems(6,4) ij] .
  have ij': "inj_on (DoubleSHA256 sha) (set (merkleInputs sha xs) \<union> set (merkleInputs sha ?up))"
    using less.prems(7) unfolding py by (rule inj_on_subset) auto
  have r: "merkleLoop sha xs = merkleLoop sha ?up"
    using less.prems(8) by (simp only: merkleLoop_up [OF y, of sha])
  have dep: "merkleDepth (length xs) \<le> merkleDepth (length ?up)"
    using less.prems(1) by (simp only: merkleDepth_up [OF y, of sha] less_Suc_eq_le)
  show ?case
  proof (cases "merkleDepth (length xs) = merkleDepth (length ?up)")
    case True
    have eq: "xs = ?up"
      by (rule merkleLoop_inj_depth [OF True less.prems(2) _ less.prems(3) _ less.prems(5) d ij' r])
         (use ne in \<open>auto simp: wf_merkleNext\<close>)
    obtain x where "x \<in> set xs" using less.prems(2) by (meson list.set_sel(1))
    then obtain i where i: "i \<in> set (merklePairs (merklePad ys))" "x = DoubleSHA256 sha i"
      unfolding eq merkleNext_pairs by auto
    from merklePairs_members [OF i(1)] less.prems(4) have "length i = 64"
      by (auto simp: list_all_iff wf_hash_def)
    with i \<open>x \<in> set xs\<close> show ?thesis unfolding py by auto
  next
    case False
    then have "merkleDepth (length xs) < merkleDepth (length ?up)" using dep by simp
    then have "\<exists>x\<in>set xs. \<exists>i\<in>set (merkleInputs sha ?up). x = DoubleSHA256 sha i \<and> length i = 64"
      by (intro less.IH less.prems d ij' r) (use y in \<open>simp_all add: length_merkleUp wf_merkleNext\<close>)
    then show ?thesis unfolding py by auto
  qed
qed

text \<open>Every byte string hashed for the root of \<open>txs\<close>.\<close>

abbreviation rootInputs :: "Transaction list \<Rightarrow> bytes set" where
  "rootInputs txs \<equiv> set (map SerializeToBytes txs) \<union> set (merkleInputs sha (map (HashTransaction sha) txs))"

lemma root_not_deeper:
  assumes "txs \<noteq> []" "distinct (map (HashTransaction sha) txs)" "distinct (map (HashTransaction sha) txs')"
    and "\<forall>tx\<in>set txs. length (SerializeToBytes tx) \<noteq> 64"
    and "inj_on (DoubleSHA256 sha) (rootInputs txs \<union> rootInputs txs')"
    and "merkleLoop sha (map (HashTransaction sha) txs) = merkleLoop sha (map (HashTransaction sha) txs')"
  shows "\<not> merkleDepth (length txs) < merkleDepth (length txs')"
proof
  assume lt: "merkleDepth (length txs) < merkleDepth (length txs')"
  have ij: "inj_on (DoubleSHA256 sha) (set (merkleInputs sha (map (HashTransaction sha) txs))
      \<union> set (merkleInputs sha (map (HashTransaction sha) txs')))"
    using assms(5) by (rule inj_on_subset) auto
  have "\<exists>x\<in>set (map (HashTransaction sha) txs).
      \<exists>i\<in>set (merkleInputs sha (map (HashTransaction sha) txs')). x = DoubleSHA256 sha i \<and> length i = 64"
    using lt assms(1-3,6) ij by (intro merkleLoop_deeper) (simp_all add: list_all_iff wf_HashTransaction)
  then obtain tx i where tx: "tx \<in> set txs" and i: "i \<in> set (merkleInputs sha (map (HashTransaction sha) txs'))"
    and eq: "DoubleSHA256 sha (SerializeToBytes tx) = DoubleSHA256 sha i" and len: "length i = 64"
    by (auto simp: HashTransaction_def)
  have "SerializeToBytes tx = i" using inj_onD [OF assms(5) eq] tx i by auto
  with len assms(4) tx show False by auto
qed

lemma ComputeMerkleRoot_inj:
  assumes "txs \<noteq> []" "txs' \<noteq> []"
    and "distinct (map (HashTransaction sha) txs)" "distinct (map (HashTransaction sha) txs')"
    and "\<forall>tx\<in>set txs \<union> set txs'. length (SerializeToBytes tx) \<noteq> 64"
    and ij: "inj_on (DoubleSHA256 sha) (rootInputs txs \<union> rootInputs txs')"
    and eq: "ComputeMerkleRoot sha txs = ComputeMerkleRoot sha txs'"
  shows "map SerializeToBytes txs = map SerializeToBytes txs'"
proof -
  let ?h = "map (HashTransaction sha)"
  have l: "length (merkleLoop sha (?h txs)) = 1" "length (merkleLoop sha (?h txs')) = 1"
    using assms(1,2) by (simp_all add: merkleLoop_length)
  have loop: "merkleLoop sha (?h txs) = merkleLoop sha (?h txs')"
    using eq l assms(1,2)
    by (intro nth_equalityI) (simp_all add: ComputeMerkleRoot_def MerkleRoot_def)
  have "\<not> merkleDepth (length txs) < merkleDepth (length txs')"
    using assms loop by (intro root_not_deeper) auto
  moreover have "\<not> merkleDepth (length txs') < merkleDepth (length txs)"
    using assms loop by (intro root_not_deeper) (auto simp: Un_commute)
  ultimately have dep: "merkleDepth (length (?h txs)) = merkleDepth (length (?h txs'))" by simp
  have "?h txs = ?h txs'"
    using assms(1-4) loop
    by (intro merkleLoop_inj_depth [OF dep])
       (auto simp: list_all_iff wf_HashTransaction intro: inj_on_subset [OF ij])
  then have "map (DoubleSHA256 sha) (map SerializeToBytes txs) = map (DoubleSHA256 sha) (map SerializeToBytes txs')"
    unfolding HashTransaction_def [abs_def] by (simp add: o_def)
  moreover have "inj_on (DoubleSHA256 sha) (set (map SerializeToBytes txs) \<union> set (map SerializeToBytes txs'))"
    using ij by (rule inj_on_subset) auto
  ultimately show ?thesis using inj_on_map_eq_map by blast
qed

end

end
