(* ===== verification/Examples.thy ===== *)
theory Examples
  imports Miner Merkle_Props Ledger
begin

text \<open>
  Concrete inputs: a small digest and signature scheme to run the model on, a set with one
  unspent P2PKH output, a transaction that spends it, and blocks on top of it. The facts below
  evaluate the model on them.
\<close>

text \<open>A digest with 32-byte results: the last 31 bytes in reverse and the length.\<close>

definition toySha :: "bytes \<Rightarrow> bytes" where
  "toySha bs = take 31 (rev bs @ replicate 31 0) @ [of_nat (length bs)]"

interpretation toy: digest toySha
  by unfold_locales (simp add: toySha_def)

definition toyLib :: "(byte, byte, byte) crypto_lib" where
  "toyLib = \<lparr>lib_sha = toySha, lib_ripemd160 = (\<lambda>bs. take 20 bs),
     ParseDERSignature = (\<lambda>bs. case bs of [b] \<Rightarrow> Some b | _ \<Rightarrow> None),
     ParsePubKey = (\<lambda>bs. if tl bs = replicate 32 0 then Some (hd bs) else None),
     sigVerify = (\<lambda>sg h pk. sg = pk + hd h),
     lib_PrivKeyFromBytes = hd,
     ecdsaSign = (\<lambda>sk h. sk + hd h),
     sigSerialize = (\<lambda>sg. [sg]),
     privPubKey = id,
     SerializeCompressed = (\<lambda>pk. pk # replicate 32 0)\<rparr>"

lemma toyLib_sha [simp]: "lib_sha toyLib = toySha"
  by (simp add: toyLib_def)

lemma toyLib_correct: "ecdsa_correct toyLib"
  by (simp add: ecdsa_correct_def toyLib_def CompressedPubSize_def)

definition exPub :: bytes where "exPub = 7 # replicate 32 0"
definition exPkScript :: bytes where "exPkScript = MakeP2PKHScript (Hash160 toyLib exPub)"
definition exOutPoint :: OutPoint where "exOutPoint = \<lparr>op_Hash = replicate 32 1, op_Index = 0\<rparr>"
definition exEntry :: UtxoEntry where
  "exEntry = \<lparr>ue_Value = 5000, ue_PkScript = exPkScript, ue_Height = 0, ue_IsCoinbase = False\<rparr>"
definition exKey :: bytes where "exKey = OutpointKey (replicate 32 1) 0"
definition exUtxo :: UtxoSet where "exUtxo = [exKey \<mapsto> exEntry]"

definition exUnsigned :: Transaction where
  "exUnsigned = \<lparr>tx_Version = 1,
     Inputs = [\<lparr>PreviousOutPoint = exOutPoint, SignatureScript = [], Sequence = 0\<rparr>],
     Outputs = [\<lparr>Value = 3000, PkScript = exPkScript\<rparr>], LockTime = 0\<rparr>"

definition exSigScript :: bytes where
  "exSigScript = (case SignInput toyLib exUnsigned 0 exPkScript 7 of Inr s \<Rightarrow> s | Inl _ \<Rightarrow> [])"

definition exTx :: Transaction where
  "exTx = exUnsigned\<lparr>Inputs := [\<lparr>PreviousOutPoint = exOutPoint, SignatureScript = exSigScript, Sequence = 0\<rparr>]\<rparr>"

definition exCoinbase :: Transaction where
  "exCoinbase = buildCoinbase [0x51] 1 5000002000"

definition exHeader :: BlockHeader where
  "exHeader = \<lparr>hdr_Version = 1, PrevBlock = ZeroHash, MerkleRootH = ComputeMerkleRoot toySha [exCoinbase, exTx],
     Timestamp = 1000, Bits = 0x207fffff, Nonce = 0\<rparr>"

definition exBlock :: Block where
  "exBlock = \<lparr>Header = exHeader, Transactions = [exCoinbase, exTx]\<rparr>"

lemma exBlock_structure: "isOk (ValidateBlockStructure toySha exBlock 1 Regtest)"
  by code_simp

definition exBlock2 :: Block where
  "exBlock2 = (let cb = buildCoinbase [0x51] 2 5000000000 in
     \<lparr>Header = exHeader\<lparr>MerkleRootH := ComputeMerkleRoot toySha [cb]\<rparr>, Transactions = [cb]\<rparr>)"

lemma exBlock2_structure: "isOk (ValidateBlockStructure toySha exBlock2 2 Regtest)"
  by code_simp

lemma exBlock_inputs: "ValidateTransactionInputs toyLib exBlock exUtxo 1 Regtest = Inr 2000"
  by code_simp

lemma exBlock_fresh:
  "\<forall>k\<in>set (concat (map (outputKeys toySha) (Transactions exBlock))). exUtxo k = None"
proof -
  have "list_all (\<lambda>k. exUtxo k = None) (concat (map (outputKeys toySha) (Transactions exBlock)))" by code_simp
  then show ?thesis by (simp only: list_all_iff)
qed

lemma exBlock_no_chain:
  "set (blockSpends (Transactions exBlock)) \<inter> set (concat (map (outputKeys toySha) (Transactions exBlock))) = {}"
proof -
  have "list_all (\<lambda>k. \<not> List.member (concat (map (outputKeys toySha) (Transactions exBlock))) k)
      (blockSpends (Transactions exBlock))" by code_simp
  then show ?thesis by (auto simp: list_all_iff)
qed

section \<open>A first block on mainnet\<close>

definition exMain :: Block where
  "exMain = (let cb = buildCoinbase [0x51] 1 5000000000 in
     \<lparr>Header = exHeader\<lparr>MerkleRootH := ComputeMerkleRoot toySha [cb]\<rparr>, Transactions = [cb]\<rparr>)"

lemma exMain_valid: "validBlock toyLib Mainnet Map.empty 1 exMain"
  by code_simp

lemma exMain_ledger: "\<exists>s. ledger toyLib Mainnet 1 s"
proof -
  have g: "ledger toyLib Mainnet 0 Map.empty"
    using ledger.genesis [of toyLib Mainnet] by (simp add: mainnet_genesis_empty)
  obtain undo s' where "ConnectBlock (lib_sha toyLib) Map.empty exMain 1 = (Inr undo, s')"
    using validBlock_connects [of toyLib exMain Map.empty 1 Mainnet] exMain_valid
    unfolding validBlock_def by blast
  with ledger.extend [OF g, of exMain undo s'] exMain_valid show ?thesis by auto
qed

section \<open>Collisions and retargets\<close>

lemma exBlock_not_64:
  "\<forall>tx\<in>set (Transactions exBlock) \<union> set (Transactions exBlock). length (SerializeToBytes tx) \<noteq> 64"
proof -
  have "list_all (\<lambda>tx. length (SerializeToBytes tx) \<noteq> 64) (Transactions exBlock)" by code_simp
  then show ?thesis by (simp add: list_all_iff)
qed

lemma exBlock_inj:
  "inj_on (DoubleSHA256 toySha)
     (set (map SerializeToBytes (Transactions exBlock)) \<union> set (merkleInputs toySha (map (HashTransaction toySha) (Transactions exBlock)))
      \<union> (set (map SerializeToBytes (Transactions exBlock))
          \<union> set (merkleInputs toySha (map (HashTransaction toySha) (Transactions exBlock)))))"
proof -
  let ?is = "map SerializeToBytes (Transactions exBlock) @ merkleInputs toySha (map (HashTransaction toySha) (Transactions exBlock))"
  have "distinct (map (DoubleSHA256 toySha) ?is)" by code_simp
  then have "inj_on (DoubleSHA256 toySha) (set ?is)" by (simp only: distinct_map)
  then show ?thesis by simp
qed

definition exFirst :: BlockHeader where
  "exFirst = exHeader\<lparr>Timestamp := 1000, Bits := 0x1e0fffff\<rparr>"

definition exTip :: BlockHeader where
  "exTip = exHeader\<lparr>Timestamp := 61000, Bits := 0x1e0fffff\<rparr>"

lemma exTip_target: "CompactToBig 0x1e0fffff = 0xfffff * 256 ^ 27"
  using CompactToBig_arith [of "0x1e0fffff" "0xfffff" 30] by simp

definition exTarget :: hash where
  "exTarget = replicate 31 0 @ [0x7f]"

lemma exSealed: "SealHeader toySha exHeader exTarget 1 = (True, exHeader)"
  by code_simp

section \<open>A pool and a mined block\<close>

definition exPool :: Mempool where
  "exPool = snd (AddTx toyLib (New Regtest exUtxo) exTx)"

definition exTxHash :: hash where
  "exTxHash = HashTransaction toySha exTx"

lemma exTx_single: "ValidateSingleTransaction toyLib exTx exUtxo 0 Regtest = Inr 2000"
  by code_simp

lemma exPool_eq:
  "exPool = (New Regtest exUtxo)\<lparr>mp_txs := [exTxHash \<mapsto> \<lparr>te_Tx = exTx, te_Hash = exTxHash, te_Fee = 2000,
       te_FeeRate = 2000 div of_nat (SerializeSize exTx), te_Size = SerializeSize exTx\<rparr>],
     mp_spentOutpoints := markSpent exTxHash (Inputs exTx) Map.empty\<rparr>"
proof -
  have "\<not> IsCoinbase exTx" "Inputs exTx \<noteq> []" "Outputs exTx \<noteq> []" "(1 :: u32) \<le> MaxMempoolSize Regtest"
    "MinRelayTxFee Regtest = 0" "MaxMempoolSize Regtest \<noteq> 0"
    by code_simp+
  then show ?thesis
    by (simp add: exPool_def AddTx_def New_def Let_def findConflict_None [THEN iffD2] exTx_single
        SerializeSize_pos exTxHash_def)
qed

lemma exPool_inv: "mpInv (lib_sha toyLib) exPool"
  unfolding exPool_def using mpInv_AddTx [OF mpInv_New, of toyLib Regtest exUtxo exTx]
  by (metis prod.collapse)

lemma exPool_sync: "inSync toyLib exPool"
  by (simp add: inSync_def exPool_eq New_def exTx_single)

lemma toy_pow: "LessOrEqual (HashBlockHeader toySha h) (CompactToHash 0x207fffff)"
proof -
  have "HashBlockHeader toySha h = toySha (toySha (Header_SerializeToBytes h))"
    by (simp add: HashBlockHeader_def DoubleSHA256_def)
  moreover have "\<exists>xs. toySha y = xs @ [32] \<and> length xs = 31" if "length y = 32" for y
    using that by (auto simp: toySha_def)
  ultimately obtain xs where x: "HashBlockHeader toySha h = xs @ [32]" "length xs = 31"
    using toy.length_sha by metis
  have "le_nat (xs @ [32]) = le_nat xs + 256 ^ 31 * 32" using x by (simp add: le_nat_append)
  also have "\<dots> < 256 ^ 31 * 33" using le_nat_less [of xs] x(2) by simp
  also have "\<dots> \<le> nat \<bar>CompactToBig 0x207fffff\<bar> mod 2 ^ 256"
    using CompactToBig_arith [of "0x207fffff" "0x7fffff" 32] by simp
  finally show ?thesis
    using LessOrEqual_le_nat [of "xs @ [32]", OF _ wf_CompactToHash] x
    by (simp add: wf_hash_def HashSize_def CompactToHash_le_nat)
qed

text \<open>On regtest every header meets the target with this digest, so the first nonce is taken.\<close>

definition exTemplate :: BlockTemplateResult where
  "exTemplate = \<lparr>bt_Transactions = [Some exTx], bt_TotalFees = 2000\<rparr>"

definition exMined :: "mine_result option" where
  "exMined = MineOne PrepareHeader (SealHeader toySha) toySha (HashBlockHeader toySha exHeader) 0 exHeader
     (\<lambda>_. None) Regtest [0x51] exTemplate (\<lambda>_. False) (\<lambda>_. 2000) 42950"

lemma exMined_ok: "\<exists>b. exMined = Some (Mined b)"
proof -
  have bits: "CalcNextBits exHeader 0 (\<lambda>_. None) Regtest = Some 0x207fffff"
    by (simp add: CalcNextBits_def Regtest_def)
  show ?thesis
    unfolding exMined_def MineOne_def Let_def mineTxs_def exTemplate_def PrepareHeader_def
    using mineBatches_finds [where k = 0 and target = "CompactToHash 0x207fffff" and fuel = 42950
        and ctxDone = "\<lambda>_. False"] toy_pow
    by (simp add: bits)
qed

end
