(* ===== verification/Protocol.thy ===== *)
theory Protocol
  imports Hashing
begin

text \<open>
  The wire protocol (\<open>internal/protocol/messages.go\<close>, \<open>checksum.go\<close>): the message header with
  its checksum and the payloads with their limits. Encoders write to a buffer and return its
  bytes; decoders read from the unread bytes. Go strings are byte strings. The timestamp of a
  version message is an \<open>int64\<close>, kept as its 64 bits, as the conversion on the wire does. Every
  payload is an instance of the interface \<open>codec\<close>.
\<close>

datatype proto_error =
    Decode decode_error
  | PayloadTooLarge u32
  | InvTooLong u64
  | LocatorTooLong u64
  | AddrTooLong u64
  | StringTooLong u64

abbreviation prd :: "nat \<Rightarrow> bytes \<Rightarrow> (proto_error, bytes \<times> bytes) res" where
  "prd n r \<equiv> mapErr Decode (rd n r)"

definition MaxPayloadSize :: u32 where "MaxPayloadSize = 4 * 1024 * 1024"
definition MessageHeaderSize :: nat where "MessageHeaderSize = 24"

record MessageHeader =
  mh_Magic :: bytes
  mh_Command :: bytes
  mh_Length :: u32
  mh_Checksum :: bytes

record InvVector =
  iv_Type :: u32
  iv_Hash :: hash

record VersionMsg =
  vm_Version :: u32
  vm_Services :: u64
  vm_Timestamp :: u64
  vm_AddrRecv :: bytes
  vm_AddrFrom :: bytes
  vm_Nonce :: u64
  vm_UserAgent :: bytes
  vm_StartHeight :: u32

record GetBlocksMsg =
  gb_Version :: u32
  BlockLocatorHashes :: "hash list"
  HashStop :: hash

section \<open>Message headers\<close>

definition doubleSHA256Checksum :: "(bytes \<Rightarrow> bytes) \<Rightarrow> bytes \<Rightarrow> bytes" where
  "doubleSHA256Checksum sha data = take 4 (sha (sha data))"

text \<open>\<open>copy(hdr.Command[:], cmd)\<close>: cut or padded with zeros to 12 bytes.\<close>

definition commandBytes :: "bytes \<Rightarrow> bytes" where
  "commandBytes cmd = take 12 cmd @ replicate (12 - length cmd) 0"

definition EncodeMessageHeader :: "(bytes \<Rightarrow> bytes) \<Rightarrow> bytes \<Rightarrow> bytes \<Rightarrow> bytes \<Rightarrow> bytes" where
  "EncodeMessageHeader sha magic cmd payload =
     magic @ commandBytes cmd @ PutUint32 (of_nat (length payload)) @ doubleSHA256Checksum sha payload"

definition DecodeMessageHeader :: "bytes \<Rightarrow> (proto_error, MessageHeader \<times> bytes) res" where
  "DecodeMessageHeader r =
     bindR (prd MessageHeaderSize r) (\<lambda>(buf, r).
       let hdr = \<lparr>mh_Magic = slice 0 4 buf, mh_Command = slice 4 16 buf,
                  mh_Length = getLE (slice 16 20 buf), mh_Checksum = slice 20 24 buf\<rparr> in
       if mh_Length hdr > MaxPayloadSize then Inl (PayloadTooLarge (mh_Length hdr))
       else Inr (hdr, r))"

text \<open>The command up to its first zero byte.\<close>

fun commandEnd :: "bytes \<Rightarrow> nat \<Rightarrow> nat" where
  "commandEnd [] i = i"
| "commandEnd (b # bs) i = (if b = 0 then i else commandEnd bs (i + 1))"

definition CommandString :: "MessageHeader \<Rightarrow> bytes" where
  "CommandString h = take (commandEnd (mh_Command h) 0) (mh_Command h)"

section \<open>Helpers\<close>

definition writeString :: "bytes \<Rightarrow> bytes" where
  "writeString s = WriteVarInt (of_nat (length s)) @ s"

definition readString :: "bytes \<Rightarrow> (proto_error, bytes \<times> bytes) res" where
  "readString r =
     bindR (mapErr Decode (ReadVarInt r)) (\<lambda>(n, r).
       if n > 1024 then Inl (StringTooLong n) else prd (unat n) r)"

definition encodeInvVector :: "InvVector \<Rightarrow> bytes" where
  "encodeInvVector iv = PutUint32 (iv_Type iv) @ iv_Hash iv"

definition decodeInvVector :: "bytes \<Rightarrow> (proto_error, InvVector \<times> bytes) res" where
  "decodeInvVector r =
     bindR (prd 4 r) (\<lambda>(t, r). bindR (prd 32 r) (\<lambda>(h, r). Inr (\<lparr>iv_Type = getLE t, iv_Hash = h\<rparr>, r)))"

section \<open>Payloads\<close>

definition VersionMsg_Encode :: "VersionMsg \<Rightarrow> bytes" where
  "VersionMsg_Encode m =
     PutUint32 (vm_Version m) @ PutUint64 (vm_Services m) @ PutUint64 (vm_Timestamp m)
     @ writeString (vm_AddrRecv m) @ writeString (vm_AddrFrom m) @ PutUint64 (vm_Nonce m)
     @ writeString (vm_UserAgent m) @ PutUint32 (vm_StartHeight m)"

definition VersionMsg_Decode :: "bytes \<Rightarrow> (proto_error, VersionMsg \<times> bytes) res" where
  "VersionMsg_Decode r =
     bindR (prd 20 r) (\<lambda>(buf, r).
     bindR (readString r) (\<lambda>(addrRecv, r).
     bindR (readString r) (\<lambda>(addrFrom, r).
     bindR (prd 8 r) (\<lambda>(nonceBuf, r).
     bindR (readString r) (\<lambda>(userAgent, r).
     bindR (prd 4 r) (\<lambda>(heightBuf, r).
       Inr (\<lparr>vm_Version = getLE (slice 0 4 buf), vm_Services = getLE (slice 4 12 buf),
             vm_Timestamp = getLE (slice 12 20 buf), vm_AddrRecv = addrRecv, vm_AddrFrom = addrFrom,
             vm_Nonce = getLE nonceBuf, vm_UserAgent = userAgent, vm_StartHeight = getLE heightBuf\<rparr>, r)))))))"

definition InvMsg_Encode :: "InvVector list \<Rightarrow> bytes" where
  "InvMsg_Encode invs = WriteVarInt (of_nat (length invs)) @ concat (map encodeInvVector invs)"

definition InvMsg_Decode :: "bytes \<Rightarrow> (proto_error, InvVector list \<times> bytes) res" where
  "InvMsg_Decode r =
     bindR (mapErr Decode (ReadVarInt r)) (\<lambda>(n, r).
       if n > 50000 then Inl (InvTooLong n) else readN (unat n) decodeInvVector r)"

definition GetDataMsg_Encode :: "InvVector list \<Rightarrow> bytes" where
  "GetDataMsg_Encode invs = InvMsg_Encode invs"

definition GetDataMsg_Decode :: "bytes \<Rightarrow> (proto_error, InvVector list \<times> bytes) res" where
  "GetDataMsg_Decode r = InvMsg_Decode r"

definition GetBlocksMsg_Encode :: "GetBlocksMsg \<Rightarrow> bytes" where
  "GetBlocksMsg_Encode m =
     PutUint32 (gb_Version m) @ WriteVarInt (of_nat (length (BlockLocatorHashes m)))
     @ concat (map id (BlockLocatorHashes m)) @ HashStop m"

definition GetBlocksMsg_Decode :: "bytes \<Rightarrow> (proto_error, GetBlocksMsg \<times> bytes) res" where
  "GetBlocksMsg_Decode r =
     bindR (prd 4 r) (\<lambda>(buf, r).
     bindR (mapErr Decode (ReadVarInt r)) (\<lambda>(n, r).
       if n > 500 then Inl (LocatorTooLong n)
       else bindR (readN (unat n) (prd 32) r) (\<lambda>(hs, r).
            bindR (prd 32 r) (\<lambda>(stop, r).
              Inr (\<lparr>gb_Version = getLE buf, BlockLocatorHashes = hs, HashStop = stop\<rparr>, r)))))"

definition AddrMsg_Encode :: "bytes list \<Rightarrow> bytes" where
  "AddrMsg_Encode addrs = WriteVarInt (of_nat (length addrs)) @ concat (map writeString addrs)"

definition AddrMsg_Decode :: "bytes \<Rightarrow> (proto_error, bytes list \<times> bytes) res" where
  "AddrMsg_Decode r =
     bindR (mapErr Decode (ReadVarInt r)) (\<lambda>(n, r).
       if n > 1000 then Inl (AddrTooLong n) else readN (unat n) readString r)"

definition PingMsg_Encode :: "u64 \<Rightarrow> bytes" where
  "PingMsg_Encode nonce = PutUint64 nonce"

definition PingMsg_Decode :: "bytes \<Rightarrow> (proto_error, u64 \<times> bytes) res" where
  "PingMsg_Decode r = bindR (prd 8 r) (\<lambda>(buf, r). Inr (getLE buf, r))"

definition PongMsg_Encode :: "u64 \<Rightarrow> bytes" where
  "PongMsg_Encode nonce = PutUint64 nonce"

definition PongMsg_Decode :: "bytes \<Rightarrow> (proto_error, u64 \<times> bytes) res" where
  "PongMsg_Decode r = bindR (prd 8 r) (\<lambda>(buf, r). Inr (getLE buf, r))"

section \<open>Every payload is a codec\<close>

definition wf_string :: "bytes \<Rightarrow> bool" where "wf_string s \<longleftrightarrow> length s \<le> 1024"
definition wf_inv :: "InvVector \<Rightarrow> bool" where "wf_inv iv \<longleftrightarrow> wf_hash (iv_Hash iv)"
definition wf_version :: "VersionMsg \<Rightarrow> bool" where
  "wf_version m \<longleftrightarrow> wf_string (vm_AddrRecv m) \<and> wf_string (vm_AddrFrom m) \<and> wf_string (vm_UserAgent m)"
definition wf_getblocks :: "GetBlocksMsg \<Rightarrow> bool" where
  "wf_getblocks m \<longleftrightarrow> length (BlockLocatorHashes m) \<le> 500 \<and> list_all wf_hash (BlockLocatorHashes m)
     \<and> wf_hash (HashStop m)"

lemma limit_u64:
  fixes n :: nat
  assumes "n \<le> m" "m < 2 ^ 63"
  shows "\<not> (of_nat m :: u64) < of_nat n" "unat (of_nat n :: u64) = n"
  using assms by (simp_all add: word_less_nat_alt)

lemmas limits_u64 [simplified] = limit_u64 [where m = 1024] limit_u64 [where m = 50000]
  limit_u64 [where m = 500] limit_u64 [where m = 1000]

lemma below_limit: "\<not> (k :: u64) < w \<Longrightarrow> unat w \<le> unat k"
  by (simp add: word_less_nat_alt)

interpretation str: codec writeString readString wf_string
proof unfold_locales
  fix x r
  assume "wf_string x"
  then show "readString (writeString x @ r) = Inr (x, r)"
    using limits_u64(1,2) [of "length x"]
    by (simp add: readString_def writeString_def WriteVarInt_def varint.dec_enc wf_string_def)
next
  fix bs x r
  assume "readString bs = Inr (x, r)"
  then show "wf_string x \<and> bs = writeString x @ r"
    using below_limit [of 1024]
    by (auto simp: readString_def writeString_def WriteVarInt_def wf_string_def res_simps
        split: if_splits dest!: varint.enc_dec)
qed

interpretation inv_vector: codec encodeInvVector decodeInvVector wf_inv
proof unfold_locales
  fix x r
  assume "wf_inv x"
  then show "decodeInvVector (encodeInvVector x @ r) = Inr (x, r)"
    by (simp add: decodeInvVector_def encodeInvVector_def wf_inv_def wf_hash_def)
next
  fix bs x r
  assume "decodeInvVector bs = Inr (x, r)"
  then show "wf_inv x \<and> bs = encodeInvVector x @ r"
    by (auto simp: decodeInvVector_def encodeInvVector_def wf_inv_def wf_hash_def res_simps)
qed

interpretation hash_item: codec id "prd 32" wf_hash
  by unfold_locales (auto simp: wf_hash_def res_simps)

interpretation inv_msg: codec InvMsg_Encode InvMsg_Decode "\<lambda>invs. length invs \<le> 50000 \<and> list_all wf_inv invs"
proof unfold_locales
  fix x r
  assume "length x \<le> 50000 \<and> list_all wf_inv x"
  then show "InvMsg_Decode (InvMsg_Encode x @ r) = Inr (x, r)"
    using limits_u64(3,4) [of "length x"] inv_vector.readN_enc [of x r]
    by (simp add: InvMsg_Decode_def InvMsg_Encode_def WriteVarInt_def varint.dec_enc)
next
  fix bs x r
  assume "InvMsg_Decode bs = Inr (x, r)"
  then show "(length x \<le> 50000 \<and> list_all wf_inv x) \<and> bs = InvMsg_Encode x @ r"
    using below_limit [of 50000]
    by (auto simp: InvMsg_Decode_def InvMsg_Encode_def WriteVarInt_def res_simps
        split: if_splits dest!: varint.enc_dec inv_vector.readN_dec)
qed

interpretation addr_msg: codec AddrMsg_Encode AddrMsg_Decode "\<lambda>as. length as \<le> 1000 \<and> list_all wf_string as"
proof unfold_locales
  fix x r
  assume "length x \<le> 1000 \<and> list_all wf_string x"
  then show "AddrMsg_Decode (AddrMsg_Encode x @ r) = Inr (x, r)"
    using limits_u64(7,8) [of "length x"] str.readN_enc [of x r]
    by (simp add: AddrMsg_Decode_def AddrMsg_Encode_def WriteVarInt_def varint.dec_enc)
next
  fix bs x r
  assume "AddrMsg_Decode bs = Inr (x, r)"
  then show "(length x \<le> 1000 \<and> list_all wf_string x) \<and> bs = AddrMsg_Encode x @ r"
    using below_limit [of 1000]
    by (auto simp: AddrMsg_Decode_def AddrMsg_Encode_def WriteVarInt_def res_simps
        split: if_splits dest!: varint.enc_dec str.readN_dec)
qed

interpretation getblocks: codec GetBlocksMsg_Encode GetBlocksMsg_Decode wf_getblocks
proof unfold_locales
  fix x r
  assume "wf_getblocks x"
  then show "GetBlocksMsg_Decode (GetBlocksMsg_Encode x @ r) = Inr (x, r)"
    using limits_u64(5,6) [of "length (BlockLocatorHashes x)"]
      hash_item.readN_enc [of "BlockLocatorHashes x" "HashStop x @ r"]
    by (simp add: GetBlocksMsg_Decode_def GetBlocksMsg_Encode_def WriteVarInt_def varint.dec_enc
        wf_getblocks_def wf_hash_def)
next
  fix bs x r
  assume "GetBlocksMsg_Decode bs = Inr (x, r)"
  then show "wf_getblocks x \<and> bs = GetBlocksMsg_Encode x @ r"
    using below_limit [of 500]
    by (auto simp: GetBlocksMsg_Decode_def GetBlocksMsg_Encode_def WriteVarInt_def res_simps wf_getblocks_def
        wf_hash_def split: if_splits dest!: varint.enc_dec hash_item.readN_dec)
qed

interpretation ping: codec PingMsg_Encode PingMsg_Decode "\<lambda>_. True"
  by unfold_locales (auto simp: PingMsg_Encode_def PingMsg_Decode_def res_simps)

interpretation pong: codec PongMsg_Encode PongMsg_Decode "\<lambda>_. True"
  by unfold_locales (auto simp: PongMsg_Encode_def PongMsg_Decode_def res_simps)

lemma slices_20:
  assumes "length a = 4" "length b = 8" "length (c :: 'a list) = 8"
  shows "slice 0 4 (a @ b @ c) = a" "slice 4 12 (a @ b @ c) = b" "slice 12 20 (a @ b @ c) = c"
  using assms by (simp_all add: slice_def)

lemma slices_20_append:
  assumes "length (buf :: 'a list) = 20"
  shows "slice 0 4 buf @ slice 4 12 buf @ slice 12 20 buf = buf"
proof -
  have "slice 0 4 buf @ slice 4 12 buf @ slice 12 20 buf
      = take 4 buf @ take 8 (drop 4 buf) @ drop 8 (drop 4 buf)"
    using assms by (simp add: slice_def)
  also have "\<dots> = buf" by (simp only: append_take_drop_id)
  finally show ?thesis .
qed

interpretation version: codec VersionMsg_Encode VersionMsg_Decode wf_version
proof unfold_locales
  fix x r
  assume wf: "wf_version x"
  let ?b = "PutUint32 (vm_Version x) @ PutUint64 (vm_Services x) @ PutUint64 (vm_Timestamp x)"
  have s: "slice 0 4 ?b = PutUint32 (vm_Version x)" "slice 4 12 ?b = PutUint64 (vm_Services x)"
    "slice 12 20 ?b = PutUint64 (vm_Timestamp x)"
    by (rule slices_20; simp)+
  have e: "VersionMsg_Encode x @ r = ?b @ writeString (vm_AddrRecv x) @ writeString (vm_AddrFrom x)
      @ PutUint64 (vm_Nonce x) @ writeString (vm_UserAgent x) @ PutUint32 (vm_StartHeight x) @ r"
    by (simp add: VersionMsg_Encode_def)
  have "prd 20 (?b @ tail) = Inr (?b, tail)" for tail
    using readFull_append [of ?b 20 tail] by simp
  then show "VersionMsg_Decode (VersionMsg_Encode x @ r) = Inr (x, r)"
    unfolding e VersionMsg_Decode_def using wf
    by (simp add: str.dec_enc wf_version_def s del: append_assoc)
next
  fix bs x r
  assume "VersionMsg_Decode bs = Inr (x, r)"
  then obtain buf ar af nb ua hb where
    b: "length buf = 20" "length nb = 8" "length hb = 4" "wf_string ar" "wf_string af" "wf_string ua"
    and bs: "bs = buf @ writeString ar @ writeString af @ nb @ writeString ua @ hb @ r"
    and x: "x = \<lparr>vm_Version = getLE (slice 0 4 buf), vm_Services = getLE (slice 4 12 buf),
             vm_Timestamp = getLE (slice 12 20 buf), vm_AddrRecv = ar, vm_AddrFrom = af,
             vm_Nonce = getLE nb, vm_UserAgent = ua, vm_StartHeight = getLE hb\<rparr>"
    by (auto simp: VersionMsg_Decode_def res_simps dest!: str.enc_dec)
  have "length (slice 0 4 buf) = 4" "length (slice 4 12 buf) = 8" "length (slice 12 20 buf) = 8"
    using b(1) by (simp_all add: slice_def)
  then show "wf_version x \<and> bs = VersionMsg_Encode x @ r"
    using b slices_20_append [OF b(1)]
    by (simp add: bs x VersionMsg_Encode_def wf_version_def)
qed

section \<open>Headers\<close>

lemma length_commandBytes [simp]: "length (commandBytes cmd) = 12"
  by (simp add: commandBytes_def)

lemma commandEnd_pad:
  "0 \<notin> set cmd \<Longrightarrow> commandEnd (cmd @ replicate n 0) i = i + length cmd"
  by (induction cmd arbitrary: i) (cases n; simp)+

lemma header_slices:
  assumes "length m = 4" "length c = 12" "length l = 4" "length (k :: bytes) = 4"
  shows "slice 0 4 (m @ c @ l @ k) = m" "slice 4 16 (m @ c @ l @ k) = c"
    "slice 16 20 (m @ c @ l @ k) = l" "slice 20 24 (m @ c @ l @ k) = k"
  using assms by (simp_all add: slice_def)

lemma DecodeMessageHeader_Encode:
  assumes "length magic = 4" "length payload \<le> 4194304" "length (doubleSHA256Checksum sha payload) = 4"
  shows "DecodeMessageHeader (EncodeMessageHeader sha magic cmd payload @ r) =
    Inr (\<lparr>mh_Magic = magic, mh_Command = commandBytes cmd, mh_Length = of_nat (length payload),
          mh_Checksum = doubleSHA256Checksum sha payload\<rparr>, r)"
proof -
  let ?b = "magic @ commandBytes cmd @ PutUint32 (of_nat (length payload)) @ doubleSHA256Checksum sha payload"
  note s = header_slices [of magic "commandBytes cmd" "PutUint32 (of_nat (length payload))"
      "doubleSHA256Checksum sha payload", OF assms(1) _ _ assms(3), simplified]
  have "prd MessageHeaderSize (?b @ r) = Inr (?b, r)"
    using readFull_append [of ?b MessageHeaderSize r] assms by (simp add: MessageHeaderSize_def)
  moreover have "\<not> (of_nat (length payload) :: u32) > MaxPayloadSize"
    using assms(2) by (simp add: MaxPayloadSize_def word_less_nat_alt)
  ultimately show ?thesis
    by (simp add: DecodeMessageHeader_def EncodeMessageHeader_def Let_def s del: append_assoc)
qed

end
