(* ===== verification/Timeadjust.thy ===== *)
theory Timeadjust
  imports Prelude
begin

text \<open>
  Network-adjusted time (\<open>internal/timeadjust/timeadjust.go\<close>). The local clock's reading is the
  argument \<open>now\<close>; an \<open>int64\<close> is an \<open>int\<close> with the wrap-around of the subtraction and the
  addition written out.
\<close>

record AdjustedClock =
  ac_offsets :: "int list"
  ac_known :: "bytes set"
  ac_median :: int
  ac_warned :: bool

definition MaxAllowedOffset :: int where "MaxAllowedOffset = 70 * 60"
definition MinSamples :: nat where "MinSamples = 5"
definition MaxSamples :: nat where "MaxSamples = 200"

definition wrap64 :: "int \<Rightarrow> int" where
  "wrap64 x = (x + 2 ^ 63) mod 2 ^ 64 - 2 ^ 63"

definition NewClock :: AdjustedClock where
  "NewClock = \<lparr>ac_offsets = [0], ac_known = {}, ac_median = 0, ac_warned = False\<rparr>"

definition recalcMedian :: "AdjustedClock \<Rightarrow> AdjustedClock" where
  "recalcMedian c =
     (let sorted = sort (ac_offsets c); med = sorted ! (length sorted div 2) in
      if length (ac_offsets c) \<ge> MinSamples then
        (if med > MaxAllowedOffset \<or> med < - MaxAllowedOffset
         then c\<lparr>ac_median := 0, ac_warned := True\<rparr>
         else c\<lparr>ac_median := med\<rparr>)
      else c)"

definition AddSample :: "AdjustedClock \<Rightarrow> bytes \<Rightarrow> int \<Rightarrow> int \<Rightarrow> AdjustedClock" where
  "AddSample c addr peerTime now =
     (if addr \<in> ac_known c then c
      else
        let c = c\<lparr>ac_known := insert addr (ac_known c)\<rparr>;
            offset = wrap64 (peerTime - now);
            offs = (if length (ac_offsets c) \<ge> MaxSamples then drop 1 (ac_offsets c) else ac_offsets c)
        in recalcMedian (c\<lparr>ac_offsets := offs @ [offset]\<rparr>))"

definition Now :: "AdjustedClock \<Rightarrow> int \<Rightarrow> int" where
  "Now c now = wrap64 (now + ac_median c)"

definition Offset :: "AdjustedClock \<Rightarrow> int" where
  "Offset c = ac_median c"

definition SampleCount :: "AdjustedClock \<Rightarrow> nat" where
  "SampleCount c = length (ac_offsets c)"

section \<open>The invariant\<close>

text \<open>The value that the median field has for a list of offsets.\<close>

definition medianOf :: "int list \<Rightarrow> int" where
  "medianOf offs =
     (let med = sort offs ! (length offs div 2) in
      if length offs < MinSamples \<or> \<bar>med\<bar> > MaxAllowedOffset then 0 else med)"

definition clockInv :: "AdjustedClock \<Rightarrow> bool" where
  "clockInv c \<longleftrightarrow> 1 \<le> length (ac_offsets c) \<and> length (ac_offsets c) \<le> MaxSamples
     \<and> ac_median c = medianOf (ac_offsets c)"

lemma medianOf_bound: "\<bar>medianOf offs\<bar> \<le> MaxAllowedOffset"
  by (simp add: medianOf_def Let_def MaxAllowedOffset_def)

lemma median_recalc:
  assumes "length (ac_offsets c) < MinSamples \<Longrightarrow> ac_median c = 0"
  shows "ac_median (recalcMedian c) = medianOf (ac_offsets c)" "ac_offsets (recalcMedian c) = ac_offsets c"
  using assms by (auto simp: recalcMedian_def medianOf_def Let_def abs_if MaxAllowedOffset_def)

lemma clockInv_NewClock: "clockInv NewClock"
  by (simp add: clockInv_def NewClock_def medianOf_def Let_def MinSamples_def MaxSamples_def)

lemma clockInv_AddSample:
  assumes "clockInv c"
  shows "clockInv (AddSample c addr t now)"
proof (cases "addr \<in> ac_known c")
  case True
  then show ?thesis using assms by (simp add: AddSample_def)
next
  case False
  let ?offs = "(if length (ac_offsets c) \<ge> MaxSamples then drop 1 (ac_offsets c) else ac_offsets c) @ [wrap64 (t - now)]"
  let ?c = "c\<lparr>ac_known := insert addr (ac_known c), ac_offsets := ?offs\<rparr>"
  have eq: "AddSample c addr t now = recalcMedian ?c" using False by (simp add: AddSample_def Let_def)
  have "ac_median ?c = 0" if "length (ac_offsets ?c) < MinSamples"
    using that assms by (auto simp: clockInv_def medianOf_def Let_def MinSamples_def MaxSamples_def split: if_splits)
  from median_recalc [OF this] show ?thesis
    using assms unfolding eq clockInv_def by (auto simp: MaxSamples_def)
qed

lemma clockInv_run: "clockInv (fold (\<lambda>(addr, peerTime, now) c. AddSample c addr peerTime now) samples NewClock)"
proof -
  have "clockInv c \<Longrightarrow> clockInv (fold (\<lambda>(addr, peerTime, now) c. AddSample c addr peerTime now) samples c)" for c
    by (induction samples arbitrary: c) (auto simp: clockInv_AddSample split: prod.splits)
  then show ?thesis using clockInv_NewClock by blast
qed

section \<open>A majority decides the median\<close>

lemma median_in_range:
  fixes xs :: "int list"
  assumes "2 * length (filter (\<lambda>x. a \<le> x \<and> x \<le> b) xs) > length xs"
  shows "a \<le> sort xs ! (length xs div 2) \<and> sort xs ! (length xs div 2) \<le> b"
proof -
  let ?P = "\<lambda>x. a \<le> x \<and> x \<le> b" and ?s = "sort xs" and ?m = "length xs div 2"
  have "mset (filter ?P ?s) = mset (filter ?P xs)" by simp
  then have cnt: "2 * length (filter ?P ?s) > length xs" using assms by (metis size_mset)
  have m: "?m < length ?s" using assms by (cases xs) auto
  have mono: "?s ! i \<le> ?s ! j" if "i \<le> j" "j < length ?s" for i j
    using that by (simp add: sorted_nth_mono)
  have split: "filter ?P ?s = filter ?P (take k ?s) @ filter ?P (drop k ?s)" for k
    by (metis append_take_drop_id filter_append)
  have lower: "a \<le> ?s ! ?m"
  proof (rule ccontr)
    assume "\<not> a \<le> ?s ! ?m"
    then have n: "?s ! ?m < a" by simp
    have "\<not> ?P x" if "x \<in> set (take (Suc ?m) ?s)" for x
    proof -
      from that obtain i where "i < length (take (Suc ?m) ?s)" "x = take (Suc ?m) ?s ! i" by (metis in_set_conv_nth)
      then have "i \<le> ?m" "x = ?s ! i" by simp_all
      with mono [of i ?m] m n show ?thesis by auto
    qed
    then have "filter ?P (take (Suc ?m) ?s) = []" by (simp add: filter_empty_conv)
    then have "length (filter ?P ?s) \<le> length (drop (Suc ?m) ?s)"
      unfolding split [of "Suc ?m"] using length_filter_le [of ?P "drop (Suc ?m) ?s"] by simp
    with cnt show False by simp
  qed
  have upper: "?s ! ?m \<le> b"
  proof (rule ccontr)
    assume n: "\<not> ?s ! ?m \<le> b"
    have "\<not> ?P x" if "x \<in> set (drop ?m ?s)" for x
    proof -
      from that obtain i where "i < length (drop ?m ?s)" "x = drop ?m ?s ! i" by (metis in_set_conv_nth)
      then have "?m + i < length ?s" "x = ?s ! (?m + i)" by simp_all
      with mono [of ?m "?m + i"] n show ?thesis by auto
    qed
    then have "filter ?P (drop ?m ?s) = []" by (simp add: filter_empty_conv)
    then have "length (filter ?P ?s) \<le> length (take ?m ?s)"
      unfolding split [of ?m] using length_filter_le [of ?P "take ?m ?s"] by simp
    with cnt show False by simp
  qed
  from lower upper show ?thesis ..
qed

lemma medianOf_majority:
  assumes "MinSamples \<le> length offs" "length offs < 2 * length (filter (\<lambda>x. a \<le> x \<and> x \<le> b) offs)"
    and "- MaxAllowedOffset \<le> a" "b \<le> MaxAllowedOffset"
  shows "a \<le> medianOf offs \<and> medianOf offs \<le> b"
  using median_in_range [of offs a b] assms by (auto simp: medianOf_def Let_def)

end
