(* ===== verification/Base58.thy ===== *)
theory Base58
  imports Target Keys Params
begin

text \<open>
  Base58, Base58Check, addresses and the wallet import format (\<open>internal/crypto/base58.go\<close>).
  A Go string is its list of bytes. \<open>big.Int.SetBytes\<close> and \<open>Bytes\<close> are \<open>setBytes\<close> and \<open>bigBytes\<close>.
\<close>

definition base58Alphabet :: bytes where
  "base58Alphabet = ascii ''123456789ABCDEFGHJKLMNPQRSTUVWXYZabcdefghijkmnopqrstuvwxyz''"

datatype base58_error =
    InvalidBase58Char
  | DecodedTooShort
  | InvalidChecksum
  | PayloadNot20
  | WIFVersionInvalid byte
  | WIFFlagInvalid byte
  | WIFLengthInvalid nat

section \<open>Encoding and decoding\<close>

fun b58Digits :: "nat \<Rightarrow> bytes" where
  "b58Digits x = (if x = 0 then [] else base58Alphabet ! (x mod 58) # b58Digits (x div 58))"

declare b58Digits.simps [simp del]

definition Base58Encode :: "bytes \<Rightarrow> bytes" where
  "Base58Encode b =
     rev (b58Digits (setBytes b) @ map (\<lambda>_. base58Alphabet ! 0) (takeWhile (\<lambda>byt. byt = 0x00) b))"

fun alphabetIndexFrom :: "bytes \<Rightarrow> byte \<Rightarrow> nat \<Rightarrow> int" where
  "alphabetIndexFrom [] c i = - 1"
| "alphabetIndexFrom (a # as) c i = (if a = c then int i else alphabetIndexFrom as c (Suc i))"

definition base58AlphabetIndex :: "byte \<Rightarrow> int" where
  "base58AlphabetIndex c = alphabetIndexFrom base58Alphabet c 0"

fun b58Accumulate :: "bytes \<Rightarrow> nat \<Rightarrow> (base58_error, nat) res" where
  "b58Accumulate [] acc = Inr acc"
| "b58Accumulate (c # cs) acc =
     (let idx = base58AlphabetIndex c in
      if idx < 0 then Inl InvalidBase58Char else b58Accumulate cs (acc * 58 + nat idx))"

definition Base58Decode :: "bytes \<Rightarrow> (base58_error, bytes) res" where
  "Base58Decode s =
     bindR (b58Accumulate s 0) (\<lambda>result.
       let numLeadingZeros = length (takeWhile (\<lambda>c. c = base58Alphabet ! 0) s) in
       Inr (replicate numLeadingZeros 0 @ bigBytes result))"

definition base58Checksum :: "(bytes \<Rightarrow> bytes) \<Rightarrow> bytes \<Rightarrow> bytes" where
  "base58Checksum sha payload = take 4 (sha (sha payload))"

definition Base58CheckEncode :: "(bytes \<Rightarrow> bytes) \<Rightarrow> byte \<Rightarrow> bytes \<Rightarrow> bytes" where
  "Base58CheckEncode sha version payload =
     (let versioned = version # payload in Base58Encode (versioned @ base58Checksum sha versioned))"

definition Base58CheckDecode :: "(bytes \<Rightarrow> bytes) \<Rightarrow> bytes \<Rightarrow> (base58_error, byte \<times> bytes) res" where
  "Base58CheckDecode sha address =
     bindR (Base58Decode address) (\<lambda>decoded.
       if length decoded < 5 then Inl DecodedTooShort
       else
         let version = decoded ! 0;
             payload = slice 1 (length decoded - 4) decoded;
             cksum = base58Checksum sha (take (length decoded - 4) decoded) in
         if cksum ! 0 \<noteq> decoded ! (length decoded - 4) \<or> cksum ! 1 \<noteq> decoded ! (length decoded - 3)
            \<or> cksum ! 2 \<noteq> decoded ! (length decoded - 2) \<or> cksum ! 3 \<noteq> decoded ! (length decoded - 1)
         then Inl InvalidChecksum
         else Inr (version, payload))"

definition PubKeyHashToAddress :: "(bytes \<Rightarrow> bytes) \<Rightarrow> bytes \<Rightarrow> byte \<Rightarrow> bytes" where
  "PubKeyHashToAddress sha pubKeyHash version = Base58CheckEncode sha version pubKeyHash"

definition AddressToPubKeyHash :: "(bytes \<Rightarrow> bytes) \<Rightarrow> bytes \<Rightarrow> (base58_error, byte \<times> bytes) res" where
  "AddressToPubKeyHash sha address =
     bindR (Base58CheckDecode sha address) (\<lambda>(ver, payload).
       if length payload \<noteq> PubKeyHashSize then Inl PayloadNot20 else Inr (ver, payload))"

definition WIFVersionMainnet :: byte where "WIFVersionMainnet = 0x80"
definition WIFVersionTestnet :: byte where "WIFVersionTestnet = 0xEF"

text \<open>The payload is a zeroed array of 33 bytes that the key is copied into.\<close>

definition EncodeWIF :: "(bytes \<Rightarrow> bytes) \<Rightarrow> bytes \<Rightarrow> byte \<Rightarrow> bytes" where
  "EncodeWIF sha privKey addrVersion =
     (let wifVersion = (if addrVersion \<noteq> 0x00 then WIFVersionTestnet else WIFVersionMainnet);
          payload = take 33 privKey @ replicate (33 - length privKey) 0
      in Base58CheckEncode sha wifVersion (payload[32 := 0x01]))"

definition DecodeWIF :: "(bytes \<Rightarrow> bytes) \<Rightarrow> bytes \<Rightarrow> (base58_error, bytes \<times> bool \<times> byte) res" where
  "DecodeWIF sha wif =
     bindR (Base58CheckDecode sha wif) (\<lambda>(ver, payload).
       if ver \<noteq> WIFVersionMainnet \<and> ver \<noteq> WIFVersionTestnet then Inl (WIFVersionInvalid ver)
       else if length payload = 33 then
         (if payload ! 32 \<noteq> 0x01 then Inl (WIFFlagInvalid (payload ! 32))
          else Inr (take 32 payload, True, ver))
       else if length payload = 32 then Inr (payload, False, ver)
       else Inl (WIFLengthInvalid (length payload)))"

definition WIFVersionForAddress :: "byte \<Rightarrow> byte" where
  "WIFVersionForAddress addrVersion = (if addrVersion = 0x00 then WIFVersionMainnet else WIFVersionTestnet)"

section \<open>The alphabet\<close>

lemma alphabet_index: "i < 58 \<Longrightarrow> base58AlphabetIndex (base58Alphabet ! i) = int i"
proof -
  assume i: "i < 58"
  have "list_all (\<lambda>i. base58AlphabetIndex (base58Alphabet ! i) = int i) [0..<58]" by code_simp
  with i show ?thesis by (simp only: list_all_iff) simp
qed

lemma alphabet_zero: "i < 58 \<Longrightarrow> base58Alphabet ! i = base58Alphabet ! 0 \<longleftrightarrow> i = 0"
  using alphabet_index [of i] alphabet_index [of 0] by force

section \<open>Round trips\<close>

lemma b58Accumulate_append:
  "b58Accumulate (xs @ ys) acc = bindR (b58Accumulate xs acc) (b58Accumulate ys)"
  by (induction xs arbitrary: acc) (simp_all add: Let_def)

lemma b58Accumulate_digits: "b58Accumulate (rev (b58Digits x)) 0 = Inr x"
proof (induction x rule: b58Digits.induct)
  case (1 x)
  show ?case
  proof (cases "x = 0")
    case True
    then show ?thesis by (simp add: b58Digits.simps)
  next
    case False
    then have "b58Digits x = base58Alphabet ! (x mod 58) # b58Digits (x div 58)"
      by (subst b58Digits.simps) simp
    then show ?thesis
      using 1 False alphabet_index [of "x mod 58"]
      by (simp add: b58Accumulate_append Let_def)
  qed
qed

lemma b58Accumulate_ones: "b58Accumulate (replicate n (base58Alphabet ! 0) @ ys) 0 = b58Accumulate ys 0"
  using alphabet_index [of 0] by (induction n) (simp_all add: Let_def)

text \<open>The most significant digit is not zero.\<close>

lemma b58Digits_last: "x \<noteq> 0 \<Longrightarrow> b58Digits x \<noteq> [] \<and> last (b58Digits x) \<noteq> base58Alphabet ! 0"
proof (induction x rule: b58Digits.induct)
  case (1 x)
  then have d: "b58Digits x = base58Alphabet ! (x mod 58) # b58Digits (x div 58)"
    by (subst b58Digits.simps) simp
  show ?case
  proof (cases "x div 58 = 0")
    case True
    then have "b58Digits (x div 58) = []" by (simp add: b58Digits.simps)
    moreover have "x mod 58 \<noteq> 0" using True 1(2) by auto
    ultimately show ?thesis using d alphabet_zero [of "x mod 58"] by simp
  next
    case False
    then show ?thesis using 1 d by simp
  qed
qed

lemma leDigits_le_nat:
  "bs = [] \<or> last bs \<noteq> 0 \<Longrightarrow> leDigits (le_nat bs) = bs"
proof (induction bs)
  case Nil
  then show ?case by (simp add: leDigits.simps)
next
  case (Cons b bs)
  have nz: "le_nat (b # bs) \<noteq> 0"
  proof
    assume z: "le_nat (b # bs) = 0"
    have "le_nat (b # bs) = le_nat (replicate (length (b # bs)) 0)" using z by simp
    then have "b # bs = replicate (length (b # bs)) 0" by (intro le_nat_inj) simp_all
    then show False using Cons.prems by (metis last_replicate length_0_conv list.distinct(1))
  qed
  have "leDigits (le_nat bs) = bs" using Cons by (cases bs) auto
  then show ?case using nz by (subst leDigits.simps) (simp add: add.commute)
qed

lemma bigBytes_setBytes: "bigBytes (setBytes b) = dropWhile (\<lambda>x. x = 0) b"
proof -
  let ?z = "takeWhile (\<lambda>x. x = 0) b" and ?d = "dropWhile (\<lambda>x. x = 0) b"
  have z: "?z = replicate (length ?z) 0"
    by (metis (full_types) replicate_eqI set_takeWhileD)
  have "setBytes b = le_nat (rev b)" using setBytes_rev [of "rev b"] by simp
  also have "rev b = rev ?d @ rev ?z" by (metis rev_append takeWhile_dropWhile_id)
  also have "le_nat (rev ?d @ rev ?z) = le_nat (rev ?d)"
    by (subst z) (simp add: le_nat_append)
  finally have s: "setBytes b = le_nat (rev ?d)" .
  have "rev ?d = [] \<or> last (rev ?d) \<noteq> 0"
    by (metis (mono_tags, lifting) hd_dropWhile last_rev rev_is_Nil_conv)
  from leDigits_le_nat [OF this] show ?thesis by (simp add: bigBytes_def s)
qed

lemma Base58Decode_Encode: "Base58Decode (Base58Encode b) = Inr b"
proof -
  let ?n = "length (takeWhile (\<lambda>x. x = 0) b)"
  have enc: "Base58Encode b = replicate ?n (base58Alphabet ! 0) @ rev (b58Digits (setBytes b))"
    by (simp add: Base58Encode_def map_replicate_const)
  have "takeWhile (\<lambda>c. c = base58Alphabet ! 0) (rev (b58Digits (setBytes b))) = []"
  proof (cases "setBytes b = 0")
    case True
    then show ?thesis by (simp add: b58Digits.simps)
  next
    case False
    from b58Digits_last [OF this] show ?thesis
      by (cases "rev (b58Digits (setBytes b))") (auto simp: last_rev [symmetric] simp del: last_rev)
  qed
  then have lz: "length (takeWhile (\<lambda>c. c = base58Alphabet ! 0) (Base58Encode b)) = ?n"
    unfolding enc by (simp add: takeWhile_append)
  have "replicate ?n 0 @ dropWhile (\<lambda>x. x = 0) b = b"
    by (metis (full_types) replicate_eqI set_takeWhileD takeWhile_dropWhile_id)
  moreover have "b58Accumulate (Base58Encode b) 0 = Inr (setBytes b)"
    unfolding enc by (simp add: b58Accumulate_ones b58Accumulate_digits)
  ultimately show ?thesis
    unfolding Base58Decode_def lz by (simp add: bigBytes_setBytes Let_def)
qed

context digest
begin

lemma Base58CheckDecode_Encode: "Base58CheckDecode sha (Base58CheckEncode sha v payload) = Inr (v, payload)"
proof -
  let ?c = "base58Checksum sha (v # payload)"
  let ?d = "(v # payload) @ ?c"
  have len: "length ?c = 4" by (simp add: base58Checksum_def length_sha)
  have tk: "take (length ?d - 4) ?d = v # payload" using len by simp
  have pl: "slice 1 (length ?d - 4) ?d = payload" using len by (simp add: slice_def)
  have n: "?d ! (length ?d - 4 + i) = ?c ! i" if "i < 4" for i
  proof -
    have "length ?d - 4 = length (v # payload)" using len by simp
    then show ?thesis by (simp only: nth_append_length_plus)
  qed
  have nth: "?d ! (length ?d - 4) = ?c ! 0" "?d ! (length ?d - 3) = ?c ! 1"
    "?d ! (length ?d - 2) = ?c ! 2" "?d ! (length ?d - 1) = ?c ! 3"
    using n [of 0] n [of 1] n [of 2] n [of 3] len by (simp_all add: numeral_eq_Suc)
  have "\<not> length ?d < 5" "?d ! 0 = v" using len by simp_all
  then show ?thesis
    unfolding Base58CheckDecode_def Base58CheckEncode_def Let_def Base58Decode_Encode bindR.simps tk pl nth
    by simp
qed

end

end
