(* ===== verification/Blockfile.thy ===== *)
theory Blockfile
  imports Target Utxo
begin

text \<open>
  The flat files of \<open>internal/store/blockfile.go\<close> and the index records of
  \<open>internal/store/blockindex.go\<close>. A file is the list of its bytes; \<open>blk*.dat\<close> and \<open>rev*.dat\<close>
  files are two maps from file numbers. The outcome of every future call that writes is given by
  a script: it may succeed, fail to open the file, fail to stat it, or fail after some bytes
  have been appended. An empty script means that all remaining calls succeed.
\<close>

section \<open>Errors\<close>

datatype kv_error = ErrNotFound | KvIo

datatype store_error =
    FileOpen
  | FileStat
  | FileWrite
  | FileRead io_error
  | BadMagic
  | SizeMismatch u32 u32
  | BadBlock decode_error
  | ChecksumMismatch
  | IndexTooShort nat
  | IndexHeader decode_error
  | Kv kv_error
  | CorruptBestBlock nat
  | CorruptTip nat
  | CorruptLastFile
  | NoData
  | WorkTooLarge

section \<open>Records of the block index\<close>

definition StatusValidHeader :: u32 where "StatusValidHeader = 1"
definition StatusValidTx :: u32 where "StatusValidTx = 4"
definition StatusHaveData :: u32 where "StatusHaveData = 16"
definition StatusHaveUndo :: u32 where "StatusHaveUndo = 32"

text \<open>\<open>ChainWork\<close> is a pointer, \<open>None\<close> for nil.\<close>

record DiskBlockIndex =
  di_Header :: BlockHeader
  di_Height :: u32
  di_Status :: u32
  di_TxCount :: u32
  di_FileNum :: u32
  di_DataPos :: u32
  di_DataSize :: u32
  di_UndoFile :: u32
  di_UndoPos :: u32
  di_UndoSize :: u32
  di_ChainWork :: "int option"

text \<open>
  The work is copied right-aligned into 32 bytes; \<open>workBytes[32-len(b):]\<close> panics when the number
  needs more, here \<open>None\<close>.
\<close>

definition workBytes :: "int option \<Rightarrow> bytes option" where
  "workBytes work =
     (case work of
        None \<Rightarrow> Some (replicate 32 0)
      | Some w \<Rightarrow> let b = bigBytes (nat \<bar>w\<bar>) in
          if length b > 32 then None else Some (replicate (32 - length b) 0 @ b))"

definition DiskBlockIndex_Serialize :: "DiskBlockIndex \<Rightarrow> bytes option" where
  "DiskBlockIndex_Serialize d =
     map_option (\<lambda>w.
       PutUint32 (di_Height d) @ PutUint32 (di_Status d) @ PutUint32 (di_TxCount d) @ PutUint32 (di_FileNum d)
       @ PutUint32 (di_DataPos d) @ PutUint32 (di_DataSize d) @ PutUint32 (di_UndoFile d)
       @ PutUint32 (di_UndoPos d) @ PutUint32 (di_UndoSize d)
       @ Header_SerializeToBytes (di_Header d) @ w) (workBytes (di_ChainWork d))"

text \<open>The nine \<open>binary.Read\<close> calls cannot fail after the length test, so their errors are not consulted.\<close>

definition DeserializeDiskBlockIndex :: "bytes \<Rightarrow> (store_error, DiskBlockIndex) res" where
  "DeserializeDiskBlockIndex data =
     (if length data < 36 + 80 + 32 then Inl (IndexTooShort (length data))
      else bindR (mapErr IndexHeader (Header_Deserialize (drop 36 data))) (\<lambda>(hdr, r).
        Inr \<lparr>di_Header = hdr, di_Height = getLE (slice 0 4 data), di_Status = getLE (slice 4 8 data),
             di_TxCount = getLE (slice 8 12 data), di_FileNum = getLE (slice 12 16 data),
             di_DataPos = getLE (slice 16 20 data), di_DataSize = getLE (slice 20 24 data),
             di_UndoFile = getLE (slice 24 28 data), di_UndoPos = getLE (slice 28 32 data),
             di_UndoSize = getLE (slice 32 36 data),
             di_ChainWork = Some (int (setBytes (take 32 r)))\<rparr>))"

section \<open>Flat files\<close>

datatype io = IoOk | StatFails | OpenFails | WriteFails nat

record BlockFileManager =
  bf_blk :: "u32 \<rightharpoonup> bytes"
  bf_rev :: "u32 \<rightharpoonup> bytes"
  bf_magic :: bytes
  bf_curFile :: u32
  bf_curSize :: nat
  bf_io :: "io list"

definition maxBlockFileSize :: nat where
  "maxBlockFileSize = 128 * 1024 * 1024"

fun nextIo :: "io list \<Rightarrow> io \<times> io list" where
  "nextIo [] = (IoOk, [])"
| "nextIo (x # xs) = (x, xs)"

text \<open>
  Opening a file with \<open>O_CREATE\<close> and \<open>O_APPEND\<close> and writing to it: whether all bytes were
  written, and the files afterwards.
\<close>

definition appendFile :: "io \<Rightarrow> (u32 \<rightharpoonup> bytes) \<Rightarrow> u32 \<Rightarrow> bytes \<Rightarrow> (store_error, unit) res \<times> (u32 \<rightharpoonup> bytes)" where
  "appendFile io files n data =
     (let f = (case files n of None \<Rightarrow> [] | Some f \<Rightarrow> f) in
      case io of
        OpenFails \<Rightarrow> (Inl FileOpen, files)
      | WriteFails k \<Rightarrow> if k < length data then (Inl FileWrite, files(n \<mapsto> f @ take k data))
                        else (Inr (), files(n \<mapsto> f @ data))
      | _ \<Rightarrow> (Inr (), files(n \<mapsto> f @ data)))"

definition frame :: "bytes \<Rightarrow> bytes \<Rightarrow> bytes" where
  "frame magic data = magic @ PutUint32 (of_nat (length data))"

definition rotateFile :: "BlockFileManager \<Rightarrow> nat \<Rightarrow> BlockFileManager" where
  "rotateFile b frameSize =
     (if bf_curSize b > 0 \<and> bf_curSize b + frameSize > maxBlockFileSize
      then b\<lparr>bf_curFile := bf_curFile b + 1, bf_curSize := 0\<rparr> else b)"

definition BF_WriteBlock :: "BlockFileManager \<Rightarrow> Block \<Rightarrow> (store_error, u32 \<times> u32 \<times> u32) res \<times> BlockFileManager" where
  "BF_WriteBlock b block =
     (let data = Block_SerializeToBytes block;
          frameSize = 8 + length data;
          b = rotateFile b frameSize;
          (io, rest) = nextIo (bf_io b);
          (r, files) = appendFile io (bf_blk b) (bf_curFile b) (frame (bf_magic b) data @ data);
          b' = b\<lparr>bf_blk := files, bf_io := rest\<rparr>
      in case r of
           Inl e \<Rightarrow> (Inl e, b')
         | Inr _ \<Rightarrow> (Inr (bf_curFile b, of_nat (bf_curSize b), of_nat (length data)),
                     b'\<lparr>bf_curSize := bf_curSize b + frameSize\<rparr>))"

text \<open>Reading a frame: the data and the rest of the file.\<close>

definition readFrame :: "bytes \<Rightarrow> (u32 \<rightharpoonup> bytes) \<Rightarrow> u32 \<Rightarrow> u32 \<Rightarrow> u32 \<Rightarrow> (store_error, bytes \<times> bytes) res" where
  "readFrame magic files fileNum offset sz =
     (case files fileNum of
        None \<Rightarrow> Inl FileOpen
      | Some f \<Rightarrow>
          bindR (mapErr FileRead (readFull 8 (drop (unat offset) f))) (\<lambda>(hdr, r).
            if take 4 hdr \<noteq> magic then Inl BadMagic
            else
              let dataSize = getLE (drop 4 hdr) in
              if sz > 0 \<and> dataSize \<noteq> sz then Inl (SizeMismatch dataSize sz)
              else mapErr FileRead (readFull (unat dataSize) r)))"

definition BF_ReadBlock :: "BlockFileManager \<Rightarrow> u32 \<Rightarrow> u32 \<Rightarrow> u32 \<Rightarrow> (store_error, Block) res" where
  "BF_ReadBlock b fileNum offset sz =
     bindR (readFrame (bf_magic b) (bf_blk b) fileNum offset sz) (\<lambda>(data, _).
     bindR (mapErr BadBlock (Block_Deserialize data)) (\<lambda>(block, _). Inr block))"

text \<open>
  The offset is the size that \<open>os.Stat\<close> reports, or 0 when it fails.
\<close>

definition BF_WriteUndo :: "(bytes \<Rightarrow> bytes) \<Rightarrow> BlockFileManager \<Rightarrow> u32 \<Rightarrow> bytes \<Rightarrow> (store_error, u32 \<times> u32) res \<times> BlockFileManager" where
  "BF_WriteUndo sha b fileNum undoData =
     (let (io, rest) = nextIo (bf_io b);
          curSize = (if io = StatFails then 0
                     else case bf_rev b fileNum of None \<Rightarrow> 0 | Some f \<Rightarrow> length f);
          (r, files) = appendFile io (bf_rev b) fileNum
             (frame (bf_magic b) undoData @ undoData @ DoubleSHA256 sha undoData);
          b' = b\<lparr>bf_rev := files, bf_io := rest\<rparr>
      in case r of Inl e \<Rightarrow> (Inl e, b')
         | Inr _ \<Rightarrow> (Inr (of_nat curSize, of_nat (length undoData)), b'))"

definition BF_ReadUndo :: "(bytes \<Rightarrow> bytes) \<Rightarrow> BlockFileManager \<Rightarrow> u32 \<Rightarrow> u32 \<Rightarrow> u32 \<Rightarrow> (store_error, bytes) res" where
  "BF_ReadUndo sha b fileNum offset sz =
     bindR (readFrame (bf_magic b) (bf_rev b) fileNum offset sz) (\<lambda>(data, r).
     bindR (mapErr FileRead (readFull HashSize r)) (\<lambda>(storedChecksum, _).
       if storedChecksum \<noteq> DoubleSHA256 sha data then Inl ChecksumMismatch else Inr data))"

definition CurrentFile :: "BlockFileManager \<Rightarrow> u32" where
  "CurrentFile b = bf_curFile b"

text \<open>
  The constructor looks for the highest block file, file by file; \<open>statFails\<close> says for which
  numbers \<open>os.Stat\<close> fails other than by the file's absence. The loop ends at the first
  missing number; if all numbers existed it would not end, hence the partial function.
\<close>

partial_function (option) scanFiles :: "(u32 \<Rightarrow> bool) \<Rightarrow> (u32 \<rightharpoonup> bytes) \<Rightarrow> u32 \<Rightarrow> u32 \<times> nat \<Rightarrow> (store_error, u32 \<times> nat) res option" where
  "scanFiles statFails files i cur =
     (if statFails i then Some (Inl FileStat)
      else case files i of
        None \<Rightarrow> Some (Inr cur)
      | Some f \<Rightarrow> scanFiles statFails files (i + 1) (i, length f))"

declare scanFiles.simps [code]

definition NewBlockFileManager :: "(u32 \<Rightarrow> bool) \<Rightarrow> (u32 \<rightharpoonup> bytes) \<Rightarrow> (u32 \<rightharpoonup> bytes) \<Rightarrow> bytes \<Rightarrow> io list \<Rightarrow> (store_error, BlockFileManager) res option" where
  "NewBlockFileManager statFails blk revs magic script =
     map_option (\<lambda>r. bindR r (\<lambda>(n, sz). Inr \<lparr>bf_blk = blk, bf_rev = revs, bf_magic = magic, bf_curFile = n, bf_curSize = sz, bf_io = script\<rparr>))
       (scanFiles statFails blk 0 (0, 0))"

section \<open>Index records are read back\<close>

definition wf_index :: "DiskBlockIndex \<Rightarrow> bool" where
  "wf_index d \<longleftrightarrow> wf_header (di_Header d) \<and> (\<exists>w. di_ChainWork d = Some w \<and> 0 \<le> w \<and> w < 2 ^ 256)"

lemma length_leDigits: "n < 256 ^ k \<Longrightarrow> length (leDigits n) \<le> k"
proof (induction k arbitrary: n)
  case 0
  then show ?case by (simp add: leDigits.simps)
next
  case (Suc k)
  then have "n div 256 < 256 ^ k" by (simp add: less_mult_imp_div_less mult.commute)
  from Suc.IH [OF this] show ?case by (subst leDigits.simps) simp
qed

lemma setBytes_zeros: "setBytes (replicate z 0 @ b) = setBytes b"
  by (induction z) (simp_all add: setBytes_def)

lemma workBytes_read:
  assumes "workBytes (Some w) = Some b" "0 \<le> w"
  shows "length b = 32" "int (setBytes b) = w"
proof -
  have "setBytes (bigBytes (nat w)) = nat w" by (simp add: bigBytes_def setBytes_rev)
  then show "length b = 32" "int (setBytes b) = w"
    using assms by (auto simp: workBytes_def Let_def setBytes_zeros split: if_splits)
qed

lemma workBytes_ok: "0 \<le> w \<Longrightarrow> w < 2 ^ 256 \<Longrightarrow> \<exists>b. workBytes (Some w) = Some b"
proof -
  assume "0 \<le> w" "w < 2 ^ 256"
  then have n: "nat w < 256 ^ 32" by (simp add: nat_less_iff)
  from length_leDigits [OF this] have "length (bigBytes (nat w)) \<le> 32" by (simp add: bigBytes_def)
  then show ?thesis using \<open>0 \<le> w\<close> by (auto simp: workBytes_def Let_def)
qed

text \<open>A record that was serialized is read back, unless its work is missing.\<close>

definition wf_record :: "DiskBlockIndex \<Rightarrow> bool" where
  "wf_record d \<longleftrightarrow> wf_header (di_Header d) \<and> (\<exists>w. di_ChainWork d = Some w \<and> 0 \<le> w)"

lemma record_read:
  assumes "wf_record d" "DiskBlockIndex_Serialize d = Some bs"
  shows "DeserializeDiskBlockIndex bs = Inr d"
proof -
  from assms(1) obtain w where wf: "wf_header (di_Header d)" and w: "di_ChainWork d = Some w" "0 \<le> w"
    by (auto simp: wf_record_def)
  obtain b where b: "workBytes (Some w) = Some b" using assms(2) w(1) by (auto simp: DiskBlockIndex_Serialize_def)
  note r = workBytes_read [OF b w(2)]
  let ?h = "Header_SerializeToBytes (di_Header d)"
  have h: "Header_Deserialize (?h @ b) = Inr (di_Header d, b)"
    using header.dec_enc [OF wf] by (simp add: Header_Serialize_def Header_SerializeToBytes_def)
  have l: "length ?h = 80" using length_Header_Serialize [OF wf]
    by (simp add: Header_Serialize_def Header_SerializeToBytes_def)
  have "bs = PutUint32 (di_Height d) @ PutUint32 (di_Status d) @ PutUint32 (di_TxCount d) @ PutUint32 (di_FileNum d)
       @ PutUint32 (di_DataPos d) @ PutUint32 (di_DataSize d) @ PutUint32 (di_UndoFile d)
       @ PutUint32 (di_UndoPos d) @ PutUint32 (di_UndoSize d) @ ?h @ b"
    using assms(2) b w(1) by (simp add: DiskBlockIndex_Serialize_def)
  then show ?thesis using r h l w by (simp add: DeserializeDiskBlockIndex_def slice_def)
qed

lemma index_roundtrip:
  assumes "wf_index d"
  shows "\<exists>bs. DiskBlockIndex_Serialize d = Some bs \<and> DeserializeDiskBlockIndex bs = Inr d"
proof -
  from assms obtain w where wf: "wf_header (di_Header d)" and w: "di_ChainWork d = Some w" "0 \<le> w" "w < 2 ^ 256"
    by (auto simp: wf_index_def)
  from workBytes_ok [OF w(2,3)] obtain bs where bs: "DiskBlockIndex_Serialize d = Some bs"
    by (auto simp: DiskBlockIndex_Serialize_def w(1))
  moreover have "wf_record d" using wf w by (simp add: wf_record_def)
  ultimately show ?thesis using record_read by blast
qed

section \<open>Files only grow\<close>

definition growsTo :: "(u32 \<rightharpoonup> bytes) \<Rightarrow> (u32 \<rightharpoonup> bytes) \<Rightarrow> bool" where
  "growsTo files files' \<longleftrightarrow> (\<forall>n f. files n = Some f \<longrightarrow> (\<exists>x. files' n = Some (f @ x)))"

lemma growsTo_refl [simp]: "growsTo f f"
  by (simp add: growsTo_def)

lemma growsTo_trans: "growsTo f g \<Longrightarrow> growsTo g h \<Longrightarrow> growsTo f h"
  unfolding growsTo_def by (metis append.assoc)

lemma appendFile_grows: "appendFile io files n data = (r, files') \<Longrightarrow> growsTo files files'"
  by (auto simp: appendFile_def growsTo_def Let_def split: io.splits option.splits if_splits)

lemma readFrame_grows:
  assumes "readFrame magic files n off sz = Inr (data, r)" "growsTo files files'"
  shows "\<exists>x. readFrame magic files' n off sz = Inr (data, r @ x)"
proof -
  from assms(1) obtain f hdr r0 where f: "files n = Some f" and h: "drop (unat off) f = hdr @ r0" "length hdr = 8"
    and m: "take 4 hdr = magic" and z: "\<not> (sz > 0 \<and> getLE (drop 4 hdr) \<noteq> sz)"
    and d: "r0 = data @ r" "length data = unat (getLE (drop 4 hdr) :: u32)"
    by (auto simp: readFrame_def res_simps Let_def split: option.splits if_splits)
  from assms(2) f obtain x where f': "files' n = Some (f @ x)" by (auto simp: growsTo_def)
  have "unat off \<le> length f" using h by (metis drop_all length_0_conv nat_le_linear append_is_Nil_conv zero_neq_numeral)
  then have "drop (unat off) (f @ x) = hdr @ data @ r @ x" using h d by simp
  then show ?thesis using f' h m z d by (simp add: readFrame_def Let_def)
qed

lemma readFrame_append:
  assumes "length magic = 4" "length f < 2 ^ 32" "length data < 2 ^ 32"
    and "files n = Some (f @ frame magic data @ data @ r)"
  shows "readFrame magic files n (of_nat (length f)) (of_nat (length data)) = Inr (data, r)"
proof -
  have "unat (of_nat (length data) :: u32) = length data" "unat (of_nat (length f) :: u32) = length f"
    using assms(2,3) by (simp_all add: unat_of_nat)
  moreover have "readFull 8 (frame magic data @ data @ r) = Inr (frame magic data, data @ r)"
    using assms(1) by (intro readFull_append) (simp add: frame_def)
  ultimately show ?thesis using assms by (simp add: readFrame_def) (simp add: frame_def Let_def)
qed

lemma BF_ReadBlock_grows:
  assumes "BF_ReadBlock b n off sz = Inr x" "growsTo (bf_blk b) (bf_blk b')" "bf_magic b' = bf_magic b"
  shows "BF_ReadBlock b' n off sz = Inr x"
proof -
  from assms(1) obtain data r where 1: "readFrame (bf_magic b) (bf_blk b) n off sz = Inr (data, r)"
    and 2: "bindR (mapErr BadBlock (Block_Deserialize data)) (\<lambda>(block, _). Inr block) = Inr x"
    by (auto simp: BF_ReadBlock_def res_simps)
  from readFrame_grows [OF 1 assms(2)] 2 show ?thesis by (auto simp: BF_ReadBlock_def assms(3))
qed

lemma BF_ReadUndo_grows:
  assumes "BF_ReadUndo sha b n off sz = Inr x" "growsTo (bf_rev b) (bf_rev b')" "bf_magic b' = bf_magic b"
  shows "BF_ReadUndo sha b' n off sz = Inr x"
proof -
  from assms(1) obtain data r where 1: "readFrame (bf_magic b) (bf_rev b) n off sz = Inr (data, r)"
    and "bindR (mapErr FileRead (readFull HashSize r)) (\<lambda>(storedChecksum, _).
       if storedChecksum \<noteq> DoubleSHA256 sha data then Inl ChecksumMismatch else Inr data) = Inr x"
    by (cases "readFrame (bf_magic b) (bf_rev b) n off sz") (auto simp: BF_ReadUndo_def)
  then obtain r' where 2: "readFull HashSize r = Inr (DoubleSHA256 sha data, r')" "x = data"
    by (cases "readFull HashSize r") (auto split: if_splits)
  from readFrame_grows [OF 1 assms(2)] obtain y where
    3: "readFrame (bf_magic b) (bf_rev b') n off sz = Inr (data, r @ y)" by blast
  have "readFull HashSize (r @ y) = Inr (DoubleSHA256 sha data, r' @ y)" using 2(1) by (simp add: readFull_eq_Inr)
  then show ?thesis using 2(2) 3 by (simp add: BF_ReadUndo_def assms(3))
qed

section \<open>What is written can be read\<close>

text \<open>
  The size that the manager keeps is the size of the current file, and no later file exists. A
  write that fails half-way breaks this: the file has grown and \<open>curSize\<close> has not.
\<close>

definition bfInv :: "BlockFileManager \<Rightarrow> bool" where
  "bfInv b \<longleftrightarrow> length (bf_magic b) = 4 \<and> bf_curSize b \<le> maxBlockFileSize
     \<and> (case bf_blk b (bf_curFile b) of None \<Rightarrow> bf_curSize b = 0 | Some f \<Rightarrow> bf_curSize b = length f)
     \<and> (\<forall>n>bf_curFile b. bf_blk b n = None)"

definition cleanIo :: "io list \<Rightarrow> bool" where
  "cleanIo script \<longleftrightarrow> list_all (\<lambda>x. x = IoOk \<or> x = OpenFails) script"

text \<open>The flat files are within their 32-bit addresses.\<close>

definition filesFit :: "BlockFileManager \<Rightarrow> bool" where
  "filesFit b \<longleftrightarrow> bf_blk b (- 1) = None \<and> (\<forall>n f. bf_rev b n = Some f \<longrightarrow> length f < 2 ^ 32)"

lemma nextIo_clean: "cleanIo script \<Longrightarrow> nextIo script = (x, rest) \<Longrightarrow> cleanIo rest \<and> (x = IoOk \<or> x = OpenFails)"
  by (cases script) (auto simp: cleanIo_def)

lemma BF_WriteBlock_frame:
  assumes "BF_WriteBlock b block = (r, b')"
  shows "bf_rev b' = bf_rev b" "bf_magic b' = bf_magic b" "growsTo (bf_blk b) (bf_blk b')"
proof -
  obtain x rest where n: "nextIo (bf_io b) = (x, rest)" by fastforce
  let ?data = "Block_SerializeToBytes block"
  let ?b = "rotateFile b (8 + length ?data)"
  have rb: "bf_blk ?b = bf_blk b" "bf_rev ?b = bf_rev b" "bf_magic ?b = bf_magic b" "bf_io ?b = bf_io b"
    by (simp_all add: rotateFile_def)
  obtain q files where a: "appendFile x (bf_blk b) (bf_curFile ?b) (frame (bf_magic b) ?data @ ?data) = (q, files)"
    by fastforce
  show "bf_rev b' = bf_rev b" "bf_magic b' = bf_magic b" "growsTo (bf_blk b) (bf_blk b')"
    using assms appendFile_grows [OF a] by (auto simp: BF_WriteBlock_def Let_def rb n a split: sum.splits)
qed

lemma BF_WriteUndo_frame:
  assumes "BF_WriteUndo sha b n undo = (r, b')"
  shows "bf_blk b' = bf_blk b" "bf_magic b' = bf_magic b" "growsTo (bf_rev b) (bf_rev b')"
    "bf_curFile b' = bf_curFile b" "bf_curSize b' = bf_curSize b"
proof -
  obtain x rest where n: "nextIo (bf_io b) = (x, rest)" by fastforce
  obtain q files where
    a: "appendFile x (bf_rev b) n (frame (bf_magic b) undo @ undo @ DoubleSHA256 sha undo) = (q, files)"
    by fastforce
  show "bf_blk b' = bf_blk b" "bf_magic b' = bf_magic b" "growsTo (bf_rev b) (bf_rev b')"
    "bf_curFile b' = bf_curFile b" "bf_curSize b' = bf_curSize b"
    using assms appendFile_grows [OF a] by (auto simp: BF_WriteUndo_def Let_def n a split: sum.splits)
qed

lemma filesFit_back:
  "filesFit b' \<Longrightarrow> growsTo (bf_blk b) (bf_blk b') \<Longrightarrow> growsTo (bf_rev b) (bf_rev b') \<Longrightarrow> filesFit b"
  unfolding filesFit_def growsTo_def
  by (metis add_lessD1 length_append not_None_eq)

lemma BF_WriteUndo_read:
  assumes "BF_WriteUndo sha b n undo = (Inr (off, sz), b')" "cleanIo (bf_io b)" "filesFit b'"
    and "length (bf_magic b) = 4" "digest sha"
  shows "BF_ReadUndo sha b' n off sz = Inr undo"
proof -
  obtain x rest where nx: "nextIo (bf_io b) = (x, rest)" by fastforce
  with nextIo_clean [OF assms(2)] have x: "x = IoOk \<or> x = OpenFails" by blast
  let ?f = "case bf_rev b n of None \<Rightarrow> [] | Some f \<Rightarrow> f"
  let ?all = "?f @ frame (bf_magic b) undo @ undo @ DoubleSHA256 sha undo"
  from assms(1) x have x1: "x = IoOk" and b': "bf_rev b' n = Some ?all" "bf_magic b' = bf_magic b"
    and o: "off = of_nat (length ?f)" "sz = of_nat (length undo)"
    by (auto simp: BF_WriteUndo_def appendFile_def nx Let_def split: sum.splits if_splits option.splits)
  have "length ?all < 2 ^ 32" using assms(3) b'(1) unfolding filesFit_def by blast
  then have "readFrame (bf_magic b) (bf_rev b') n off sz = Inr (undo, DoubleSHA256 sha undo)"
    unfolding o using assms(4) b'(1) by (intro readFrame_append) simp_all
  then show ?thesis
    by (simp add: BF_ReadUndo_def b'(2) readFull_def digest.length_DoubleSHA256 [OF assms(5)] HashSize_def)
qed

lemma bfInv_WriteUndo:
  "BF_WriteUndo sha b n undo = (r, b') \<Longrightarrow> bfInv b \<Longrightarrow> bfInv b'"
  using BF_WriteUndo_frame [of sha b n undo r b'] by (simp add: bfInv_def split: option.splits)

lemma cleanIo_WriteUndo: "BF_WriteUndo sha b n undo = (r, b') \<Longrightarrow> cleanIo (bf_io b) \<Longrightarrow> cleanIo (bf_io b')"
  by (cases "bf_io b") (auto simp: BF_WriteUndo_def Let_def cleanIo_def split: sum.splits prod.splits if_splits)

lemma cleanIo_WriteBlock: "BF_WriteBlock b x = (r, b') \<Longrightarrow> cleanIo (bf_io b) \<Longrightarrow> cleanIo (bf_io b')"
  by (cases "bf_io b")
     (auto simp: BF_WriteBlock_def Let_def cleanIo_def rotateFile_def split: sum.splits prod.splits if_splits)

lemma rotateFile_inv:
  assumes "bfInv b" "filesFit b" "k \<le> maxBlockFileSize"
  shows "bfInv (rotateFile b k)" "bf_curSize (rotateFile b k) + k \<le> maxBlockFileSize"
proof -
  have "bfInv (b\<lparr>bf_curFile := bf_curFile b + 1, bf_curSize := 0\<rparr>)" if "bf_curSize b > 0"
  proof -
    from that assms(1) have "bf_blk b (bf_curFile b) \<noteq> None" by (auto simp: bfInv_def split: option.splits)
    then have "bf_curFile b \<noteq> - 1" using assms(2) by (auto simp: filesFit_def)
    then have "bf_curFile b < bf_curFile b + 1" 
      using u32_increases [of "bf_curFile b"] by (simp add: eq_neg_iff_add_eq_0 word_less_nat_alt)
    with assms(1) show ?thesis by (auto simp: bfInv_def split: option.splits)
  qed
  then show "bfInv (rotateFile b k)" using assms(1) by (simp add: rotateFile_def)
  show "bf_curSize (rotateFile b k) + k \<le> maxBlockFileSize" using assms(3) by (auto simp: rotateFile_def)
qed

lemma BF_WriteBlock_inv:
  assumes inv: "bfInv b" and clean: "cleanIo (bf_io b)" and fit: "filesFit b'"
    and sz: "8 + length (Block_SerializeToBytes block) \<le> maxBlockFileSize"
    and w: "BF_WriteBlock b block = (r, b')"
  shows "bfInv b'" "r = Inr (f, off, n) \<Longrightarrow> wf_block block \<Longrightarrow> BF_ReadBlock b' f off n = Inr block"
proof -
  let ?data = "Block_SerializeToBytes block"
  let ?k = "8 + length ?data"
  let ?b = "rotateFile b ?k"
  have "filesFit b" using filesFit_back [OF fit] BF_WriteBlock_frame [OF w] by simp
  note rot = rotateFile_inv [OF inv this sz]
  have rb: "bf_blk ?b = bf_blk b" "bf_magic ?b = bf_magic b" "bf_io ?b = bf_io b"
    by (simp_all add: rotateFile_def)
  obtain x rest where nx: "nextIo (bf_io b) = (x, rest)" by fastforce
  with nextIo_clean [OF clean] have x: "x = IoOk \<or> x = OpenFails" by blast
  let ?f = "case bf_blk b (bf_curFile ?b) of None \<Rightarrow> [] | Some f \<Rightarrow> f"
  let ?all = "?f @ frame (bf_magic b) ?data @ ?data"
  have cs: "bf_curSize ?b = length ?f" using rot(1) by (auto simp: bfInv_def rb split: option.splits)
  have m: "length (bf_magic b) = 4" using inv by (simp add: bfInv_def)
  have len: "length ?all = bf_curSize ?b + ?k" using m cs by (simp add: frame_def)
  show "bfInv b'"
  proof (cases "x = IoOk")
    case True
    then have "b' = ?b\<lparr>bf_blk := (bf_blk b)(bf_curFile ?b \<mapsto> ?all), bf_io := rest, bf_curSize := bf_curSize ?b + ?k\<rparr>"
      using w by (simp add: BF_WriteBlock_def Let_def rb nx appendFile_def)
    then show ?thesis using rot len by (auto simp: bfInv_def rb)
  next
    case False
    then have "b' = ?b\<lparr>bf_blk := bf_blk b, bf_io := rest\<rparr>"
      using w x by (auto simp: BF_WriteBlock_def Let_def rb nx appendFile_def)
    then show ?thesis using rot(1) by (simp add: bfInv_def rb split: option.splits)
  qed
  show "BF_ReadBlock b' f off n = Inr block" if "r = Inr (f, off, n)" "wf_block block"
  proof -
    from that(1) w x have b': "bf_blk b' f = Some ?all" "bf_magic b' = bf_magic b"
      and o: "f = bf_curFile ?b" "off = of_nat (length ?f)" "n = of_nat (length ?data)"
      by (auto simp: BF_WriteBlock_def Let_def rb nx appendFile_def cs)
    have small: "length ?f < 2 ^ 32" "length ?data < 2 ^ 32"
      using rot(2) cs sz by (simp_all add: maxBlockFileSize_def)
    have "readFrame (bf_magic b) (bf_blk b') f off n = Inr (?data, [])"
      unfolding o(2,3) by (rule readFrame_append [OF m small]) (use b'(1) in simp)
    moreover have "Block_Deserialize ?data = Inr (block, [])"
      using block.dec_enc [OF that(2), of "[]"] by (simp add: Block_SerializeToBytes_def)
    ultimately show ?thesis by (simp add: BF_ReadBlock_def b'(2))
  qed
qed

text \<open>Opening a directory of consecutive block files finds the last one.\<close>

lemma scanFiles_run:
  assumes "\<forall>i<n. files (of_nat i) \<noteq> None" "files (of_nat n) = None" "k \<le> n" "n < 2 ^ 32"
  shows "scanFiles (\<lambda>_. False) files (of_nat k) cur =
    Some (Inr (if k = n then cur else (of_nat (n - 1), length (the (files (of_nat (n - 1)))))))"
  using assms(3)
proof (induction "n - k" arbitrary: k cur)
  case 0
  then show ?case using assms(2) by (subst scanFiles.simps) simp
next
  case (Suc m)
  then have k: "k < n" by simp
  then obtain f where f: "files (of_nat k) = Some f" using assms(1) by blast
  have "scanFiles (\<lambda>_. False) files (of_nat (Suc k)) (of_nat k, length f) =
      Some (Inr (if Suc k = n then (of_nat k, length f) else (of_nat (n - 1), length (the (files (of_nat (n - 1)))))))"
    using Suc k by (intro Suc.hyps(1)) simp_all
  then show ?case using k f by (subst scanFiles.simps) (auto simp: add.commute)
qed

section \<open>Any later writes\<close>

datatype file_op = AppendBlock Block | AppendUndo u32 bytes

fun runFiles :: "(bytes \<Rightarrow> bytes) \<Rightarrow> file_op list \<Rightarrow> BlockFileManager \<Rightarrow> BlockFileManager" where
  "runFiles sha [] b = b"
| "runFiles sha (AppendBlock block # ops) b = runFiles sha ops (snd (BF_WriteBlock b block))"
| "runFiles sha (AppendUndo f u # ops) b = runFiles sha ops (snd (BF_WriteUndo sha b f u))"

lemma runFiles_grows:
  "growsTo (bf_blk b) (bf_blk (runFiles sha ops b)) \<and> growsTo (bf_rev b) (bf_rev (runFiles sha ops b))
   \<and> bf_magic (runFiles sha ops b) = bf_magic b"
proof (induction sha ops b rule: runFiles.induct)
  case (1 sha b)
  then show ?case by (simp add: growsTo_refl)
next
  case (2 sha block ops b)
  obtain r b1 where w: "BF_WriteBlock b block = (r, b1)" by fastforce
  show ?case using 2 BF_WriteBlock_frame [OF w] growsTo_trans by (auto simp: w)
next
  case (3 sha f u ops b)
  obtain r b1 where w: "BF_WriteUndo sha b f u = (r, b1)" by fastforce
  show ?case using 3 BF_WriteUndo_frame [OF w] growsTo_trans by (auto simp: w)
qed

end
