(* ===== verification/Chain.thy ===== *)
theory Chain
  imports Store Pow
begin

text \<open>
  The chain manager of \<open>internal/chain/chain.go\<close>. Its mutable state is the record \<open>Chain\<close>; the
  fields that never change (parameters, consensus engine, store and the cryptographic library)
  are the record \<open>chain_env\<close>, with the Go interfaces \<open>consensus.Engine\<close> and
  \<open>store.BlockStore\<close> as records of functions. A method takes the state and returns its result
  and the new state. Go's map iteration, the clock and the choice of \<open>evictRandomOrphan\<close> are
  arguments: \<open>clock h\<close> is the time source's reading when the block with hash \<open>h\<close> is validated,
  which happens at most once in a call. A panic of a callee is one more error.
\<close>

section \<open>State\<close>

record ConsensusEngine =
  ce_ValidateHeader :: "BlockHeader \<Rightarrow> BlockHeader \<Rightarrow> u32 \<Rightarrow> (u32 \<Rightarrow> BlockHeader option) \<Rightarrow> ChainParams \<Rightarrow> (header_error, unit) res"
  ce_ValidateBlock :: "Block \<Rightarrow> u32 \<Rightarrow> ChainParams \<Rightarrow> (block_error, unit) res"

definition powEngine :: "(bytes \<Rightarrow> bytes) \<Rightarrow> ConsensusEngine" where
  "powEngine sha = \<lparr>ce_ValidateHeader = ValidateHeader sha, ce_ValidateBlock = ValidateBlock sha\<rparr>"

record ('sg, 'pk, 'sk, 's) chain_env =
  en_lib :: "('sg, 'pk, 'sk) crypto_lib"
  en_params :: ChainParams
  en_engine :: ConsensusEngine
  en_store :: "'s BlockStore"

record orphanBlock =
  ob_block :: Block
  ob_addedAt :: int

record 's Chain =
  ch_store :: 's
  ch_tipHash :: hash
  ch_tipHeight :: u32
  ch_tipWork :: int
  ch_heightByHash :: "hash \<rightharpoonup> u32"
  ch_hashByHeight :: "u32 \<rightharpoonup> hash"
  ch_orphans :: "(hash \<times> orphanBlock) list"
  ch_utxoSet :: UtxoSet

abbreviation en_sha :: "('sg, 'pk, 'sk, 's) chain_env \<Rightarrow> bytes \<Rightarrow> bytes" where
  "en_sha E \<equiv> lib_sha (en_lib E)"

definition MaxOrphanBlocks :: nat where "MaxOrphanBlocks = 100"
definition OrphanExpiry :: int where "OrphanExpiry = 20 * Minute"

definition NewChain :: "'s \<Rightarrow> 's Chain" where
  "NewChain s = \<lparr>ch_store = s, ch_tipHash = ZeroHash, ch_tipHeight = 0, ch_tipWork = 0,
     ch_heightByHash = Map.empty, ch_hashByHeight = Map.empty, ch_orphans = [], ch_utxoSet = NewSet\<rparr>"

datatype reorg_error =
    LoadBlock store_error
  | WalkDiverges
  | ForkBlockNil
  | ReorgTooDeep u32
  | LoadDisconnect u32 store_error
  | LoadIndex u32 store_error
  | NoUndo u32
  | ReadUndoFailed u32 store_error
  | BadUndo u32 utxo_error
  | PersistDisconnect u32 store_error
  | LoadNew hash store_error
  | ReorgInputs u32 inputs_error
  | ReorgConnect hash utxo_error
  | PersistConnect u32 store_error
  | ReorgTip store_error
  | ReorgIndex store_error
  | ReorgUndo store_error

datatype chain_error =
    AlreadyInChain hash
  | AlreadyOrphan hash
  | OrphanPow pow_error
  | OrphanStored hash
  | ParentHeader store_error
  | InvalidHeader header_error
  | InvalidTimestamp time_error
  | InvalidBlock block_error
  | ParentWork store_error
  | NilChainWork
  | StoreBlock store_error
  | InvalidInputs inputs_error
  | ConnectFailed utxo_error
  | StoreUndo store_error
  | StoreIndex store_error
  | PersistUtxo store_error
  | StoreTip store_error
  | ReorgFailed reorg_error
  | SideChainTooDeep reorg_error
  | SideChain hash u32

text \<open>\<open>bytes.Compare(a, b) < 0\<close>.\<close>

fun bytesLess :: "bytes \<Rightarrow> bytes \<Rightarrow> bool" where
  "bytesLess [] bs = (bs \<noteq> [])"
| "bytesLess (a # as) [] = False"
| "bytesLess (a # as) (b # bs) = (a < b \<or> a = b \<and> bytesLess as bs)"

section \<open>Lookups\<close>

definition Tip :: "'s Chain \<Rightarrow> hash \<times> u32" where
  "Tip c = (ch_tipHash c, ch_tipHeight c)"

definition TipHeader :: "('sg, 'pk, 'sk, 's) chain_env \<Rightarrow> 's Chain \<Rightarrow> (store_error, BlockHeader) res" where
  "TipHeader E c = st_GetHeader (en_store E) (ch_store c) (ch_tipHash c)"

datatype lookup_error = NoBlockAt u32 | Lookup store_error

definition GetHeaderByHeight :: "('sg, 'pk, 'sk, 's) chain_env \<Rightarrow> 's Chain \<Rightarrow> u32 \<Rightarrow> (lookup_error, BlockHeader) res" where
  "GetHeaderByHeight E c height =
     (case ch_hashByHeight c height of
        None \<Rightarrow> Inl (NoBlockAt height)
      | Some h \<Rightarrow> mapErr Lookup (st_GetHeader (en_store E) (ch_store c) h))"

definition GetBlockByHeight :: "('sg, 'pk, 'sk, 's) chain_env \<Rightarrow> 's Chain \<Rightarrow> u32 \<Rightarrow> (lookup_error, Block \<times> hash) res" where
  "GetBlockByHeight E c height =
     (case ch_hashByHeight c height of
        None \<Rightarrow> Inl (NoBlockAt height)
      | Some h \<Rightarrow> bindR (mapErr Lookup (st_GetBlock (en_store E) (ch_store c) h)) (\<lambda>b. Inr (b, h)))"

text \<open>\<open>GetAncestor\<close> and \<open>getAncestorUnsafe\<close> differ in locking only.\<close>

definition getAncestorUnsafe :: "('sg, 'pk, 'sk, 's) chain_env \<Rightarrow> 's Chain \<Rightarrow> u32 \<Rightarrow> BlockHeader option" where
  "getAncestorUnsafe E c height =
     (case ch_hashByHeight c height of
        None \<Rightarrow> None
      | Some hash \<Rightarrow> (case st_GetHeader (en_store E) (ch_store c) hash of Inl _ \<Rightarrow> None | Inr h \<Rightarrow> Some h))"

definition GetAncestor :: "('sg, 'pk, 'sk, 's) chain_env \<Rightarrow> 's Chain \<Rightarrow> u32 \<Rightarrow> BlockHeader option" where
  "GetAncestor E c height =
     (case ch_hashByHeight c height of
        None \<Rightarrow> None
      | Some hash \<Rightarrow> (case st_GetHeader (en_store E) (ch_store c) hash of Inl _ \<Rightarrow> None | Inr h \<Rightarrow> Some h))"

definition GetBlockHeight :: "'s Chain \<Rightarrow> hash \<Rightarrow> u32 option" where
  "GetBlockHeight c hash = ch_heightByHash c hash"

text \<open>
  The locator loop; \<open>n\<close> is the length of the list so far. The step is doubled with wrap-around,
  so that ending is a theorem and not a matter of the definition.
\<close>

partial_function (option) locatorLoop :: "(u32 \<rightharpoonup> hash) \<Rightarrow> u32 \<Rightarrow> u32 \<Rightarrow> nat \<Rightarrow> hash list option" where
  "locatorLoop m step height n =
     (case m height of
        None \<Rightarrow> Some []
      | Some h \<Rightarrow>
          if height = 0 then Some [h]
          else Option.bind (locatorLoop m (if n + 1 > 10 then step * 2 else step)
                 (if height < step then 0 else height - step) (n + 1))
               (\<lambda>r. Some (h # r)))"

declare locatorLoop.simps [code]

definition BlockLocator :: "'s Chain \<Rightarrow> hash list option" where
  "BlockLocator c = locatorLoop (ch_hashByHeight c) 1 (ch_tipHeight c) 0"

definition FindMainChainHash :: "'s Chain \<Rightarrow> hash \<Rightarrow> u32 option" where
  "FindMainChainHash c hash =
     (case ch_heightByHash c hash of
        None \<Rightarrow> None
      | Some height \<Rightarrow>
          (case ch_hashByHeight c height of
             None \<Rightarrow> None
           | Some mainHash \<Rightarrow> if mainHash \<noteq> hash then None else Some height))"

definition HasBlock :: "('sg, 'pk, 'sk, 's) chain_env \<Rightarrow> 's Chain \<Rightarrow> hash \<Rightarrow> bool" where
  "HasBlock E c hash =
     (if ch_heightByHash c hash \<noteq> None then True
      else if map_of (ch_orphans c) hash \<noteq> None then True
      else case st_HasBlock (en_store E) (ch_store c) hash of Inl _ \<Rightarrow> False | Inr has \<Rightarrow> has)"

definition HasBlockOnChain :: "'s Chain \<Rightarrow> hash \<Rightarrow> bool" where
  "HasBlockOnChain c hash = (ch_heightByHash c hash \<noteq> None)"

definition Chain_GetBlock :: "('sg, 'pk, 'sk, 's) chain_env \<Rightarrow> 's Chain \<Rightarrow> hash \<Rightarrow> (store_error, Block) res" where
  "Chain_GetBlock E c hash = st_GetBlock (en_store E) (ch_store c) hash"

definition workForParentChain :: "('sg, 'pk, 'sk, 's) chain_env \<Rightarrow> 's Chain \<Rightarrow> hash \<Rightarrow> (chain_error, int) res" where
  "workForParentChain E c blockHash =
     (case st_GetBlockIndex (en_store E) (ch_store c) blockHash of
        Inl e \<Rightarrow> Inl (ParentWork e)
      | Inr rec \<Rightarrow> (case di_ChainWork rec of None \<Rightarrow> Inl NilChainWork | Some w \<Rightarrow> Inr w))"

text \<open>The walk of \<open>buildAncestorLookup\<close>, by recursion on the height.\<close>

fun ancestorWalk :: "('sg, 'pk, 'sk, 's) chain_env \<Rightarrow> 's Chain \<Rightarrow> hash \<Rightarrow> nat \<Rightarrow> (u32 \<rightharpoonup> BlockHeader) \<Rightarrow> (u32 \<rightharpoonup> BlockHeader)" where
  "ancestorWalk E c current h ancestors =
     (if ch_hashByHeight c (of_nat h) = Some current then ancestors
      else case st_GetHeader (en_store E) (ch_store c) current of
             Inl _ \<Rightarrow> ancestors
           | Inr header \<Rightarrow>
               let ancestors = ancestors(of_nat h \<mapsto> header) in
               if IsZero (PrevBlock header) then ancestors
               else case h of 0 \<Rightarrow> ancestors | Suc h' \<Rightarrow> ancestorWalk E c (PrevBlock header) h' ancestors)"

declare ancestorWalk.simps [simp del]

definition buildAncestorLookup :: "('sg, 'pk, 'sk, 's) chain_env \<Rightarrow> 's Chain \<Rightarrow> hash \<Rightarrow> u32 \<Rightarrow> u32 \<Rightarrow> BlockHeader option" where
  "buildAncestorLookup E c parentHash parentHeight =
     (let ancestors = ancestorWalk E c parentHash (unat parentHeight) Map.empty in
      (\<lambda>height. case ancestors height of Some hdr \<Rightarrow> Some hdr | None \<Rightarrow> getAncestorUnsafe E c height))"

section \<open>Writing the chainstate\<close>

fun putOutputs :: "UtxoSet \<Rightarrow> hash \<Rightarrow> nat list \<Rightarrow> ChainstateWriteBatch \<Rightarrow> ChainstateWriteBatch" where
  "putOutputs s txHash [] wb = wb"
| "putOutputs s txHash (i # is) wb =
     putOutputs s txHash is
       (case Set_Get s txHash (of_nat i) of
          None \<Rightarrow> wb
        | Some entry \<Rightarrow> wb_PutUtxo wb txHash (of_nat i) (UtxoEntry_Serialize entry))"

definition connectBatch :: "(bytes \<Rightarrow> bytes) \<Rightarrow> UtxoSet \<Rightarrow> Block \<Rightarrow> BlockUndoData \<Rightarrow> hash \<Rightarrow> ChainstateWriteBatch" where
  "connectBatch sha s block undo blockHash =
     (let wb = fold (\<lambda>tx. putOutputs s (HashTransaction sha tx) [0..<length (Outputs tx)]) (Transactions block) NewWriteBatch;
          wb = fold (\<lambda>so wb. wb_DeleteUtxo wb (op_Hash (so_OutPoint so)) (op_Index (so_OutPoint so))) undo wb
      in wb_PutBestBlock wb blockHash)"

definition persistUtxoChanges :: "('sg, 'pk, 'sk, 's) chain_env \<Rightarrow> 's Chain \<Rightarrow> Block \<Rightarrow> BlockUndoData \<Rightarrow> hash \<Rightarrow> (store_error, unit) res \<times> 's Chain" where
  "persistUtxoChanges E c block undo blockHash =
     (case st_FlushUtxoBatch (en_store E) (ch_store c) (connectBatch (en_sha E) (ch_utxoSet c) block undo blockHash) of
        (r, s) \<Rightarrow> (r, c\<lparr>ch_store := s\<rparr>))"

definition disconnectBatch :: "(bytes \<Rightarrow> bytes) \<Rightarrow> Block \<Rightarrow> BlockUndoData \<Rightarrow> hash \<Rightarrow> ChainstateWriteBatch" where
  "disconnectBatch sha block undo newBestHash =
     (let wb = fold (\<lambda>tx wb. fold (\<lambda>i wb. wb_DeleteUtxo wb (HashTransaction sha tx) (of_nat i)) [0..<length (Outputs tx)] wb)
                 (Transactions block) NewWriteBatch;
          wb = fold (\<lambda>so wb. wb_PutUtxo wb (op_Hash (so_OutPoint so)) (op_Index (so_OutPoint so)) (UtxoEntry_Serialize (so_Entry so))) undo wb
      in wb_PutBestBlock wb newBestHash)"

definition persistUtxoDisconnect :: "('sg, 'pk, 'sk, 's) chain_env \<Rightarrow> 's Chain \<Rightarrow> Block \<Rightarrow> BlockUndoData \<Rightarrow> hash \<Rightarrow> (store_error, unit) res \<times> 's Chain" where
  "persistUtxoDisconnect E c block undo newBestHash =
     (case st_FlushUtxoBatch (en_store E) (ch_store c) (disconnectBatch (en_sha E) block undo newBestHash) of
        (r, s) \<Rightarrow> (r, c\<lparr>ch_store := s\<rparr>))"

definition extendChain :: "('sg, 'pk, 'sk, 's) chain_env \<Rightarrow> 's Chain \<Rightarrow> hash \<Rightarrow> u32 \<Rightarrow> int \<Rightarrow> (store_error, unit) res \<times> 's Chain" where
  "extendChain E c hash height work =
     (case st_PutChainTip (en_store E) (ch_store c) hash height of
        (Inl e, s) \<Rightarrow> (Inl e, c\<lparr>ch_store := s\<rparr>)
      | (Inr _, s) \<Rightarrow> (Inr (), c\<lparr>ch_store := s,
           ch_heightByHash := (ch_heightByHash c)(hash \<mapsto> height),
           ch_hashByHeight := (ch_hashByHeight c)(height \<mapsto> hash),
           ch_tipHash := hash, ch_tipHeight := height, ch_tipWork := work\<rparr>))"

section \<open>Reorganisation\<close>

text \<open>
  \<open>cloneUtxoSet\<close> copies every entry under the key rebuilt from its hash and index, which is the
  same key.
\<close>

definition cloneUtxoSet :: "UtxoSet \<Rightarrow> UtxoSet" where
  "cloneUtxoSet src = Entries src"

definition restoreSnapshot :: "'s Chain \<Rightarrow> 's Chain \<Rightarrow> 's Chain" where
  "restoreSnapshot snap c = c\<lparr>
     ch_heightByHash := ch_heightByHash snap, ch_hashByHeight := ch_hashByHeight snap,
     ch_tipHash := ch_tipHash snap, ch_tipHeight := ch_tipHeight snap, ch_tipWork := ch_tipWork snap,
     ch_utxoSet := cloneUtxoSet (ch_utxoSet snap)\<rparr>"

text \<open>
  The walk from the new tip back to the active chain. Every step goes to a block of smaller
  height, so that the new tip's height bounds the number of steps; \<open>WalkDiverges\<close> stands for a
  store whose blocks form a cycle, on which the loop of the source does not end.
\<close>

fun reorgWalk :: "('sg, 'pk, 'sk, 's) chain_env \<Rightarrow> 's Chain \<Rightarrow> nat \<Rightarrow> hash \<Rightarrow> hash list \<Rightarrow> (reorg_error, hash list) res" where
  "reorgWalk E c 0 current newChain = Inl WalkDiverges"
| "reorgWalk E c (Suc fuel) current newChain =
     (case st_GetBlock (en_store E) (ch_store c) current of
        Inl e \<Rightarrow> Inl (LoadBlock e)
      | Inr block \<Rightarrow>
          let prevHash = PrevBlock (Header block) in
          if (case ch_heightByHash c prevHash of
                None \<Rightarrow> False
              | Some parentHeight \<Rightarrow>
                  (case ch_hashByHeight c parentHeight of None \<Rightarrow> ZeroHash | Some h \<Rightarrow> h) = prevHash)
          then Inr newChain
          else reorgWalk E c fuel prevHash (newChain @ [prevHash]))"

definition disconnectOne :: "('sg, 'pk, 'sk, 's) chain_env \<Rightarrow> u32 \<Rightarrow> 's Chain \<Rightarrow> (reorg_error, unit) res \<times> 's Chain" where
  "disconnectOne E h c =
     (case ch_hashByHeight c h of
        None \<Rightarrow> (Inr (), c)
      | Some hash \<Rightarrow>
        (case st_GetBlock (en_store E) (ch_store c) hash of
           Inl e \<Rightarrow> (Inl (LoadDisconnect h e), c)
         | Inr block \<Rightarrow>
        (case st_GetBlockIndex (en_store E) (ch_store c) hash of
           Inl e \<Rightarrow> (Inl (LoadIndex h e), c)
         | Inr rec \<Rightarrow>
             if di_Status rec AND StatusHaveUndo = 0 then (Inl (NoUndo h), c)
             else
        (case st_ReadUndo (en_store E) (ch_store c) (di_UndoFile rec) (di_UndoPos rec) (di_UndoSize rec) of
           Inl e \<Rightarrow> (Inl (ReadUndoFailed h e), c)
         | Inr undoBytes \<Rightarrow>
        (case DeserializeUndoData undoBytes of
           Inl e \<Rightarrow> (Inl (BadUndo h e), c)
         | Inr undoData \<Rightarrow>
             let c = c\<lparr>ch_utxoSet := DisconnectBlock (en_sha E) (ch_utxoSet c) block undoData\<rparr> in
        (case persistUtxoDisconnect E c block undoData (PrevBlock (Header block)) of
           (Inl e, c) \<Rightarrow> (Inl (PersistDisconnect h e), c)
         | (Inr _, c) \<Rightarrow> (Inr (), c)))))))"

fun disconnectLoop :: "('sg, 'pk, 'sk, 's) chain_env \<Rightarrow> u32 list \<Rightarrow> 's Chain \<Rightarrow> (reorg_error, unit) res \<times> 's Chain" where
  "disconnectLoop E [] c = (Inr (), c)"
| "disconnectLoop E (h # hs) c =
     (case disconnectOne E h c of
        (Inl e, c) \<Rightarrow> (Inl e, c)
      | (Inr _, c) \<Rightarrow> disconnectLoop E hs c)"

definition heightsAbove :: "u32 \<Rightarrow> u32 \<Rightarrow> u32 list" where
  "heightsAbove fork tip = map of_nat [Suc (unat fork)..<Suc (unat tip)]"

definition removeOne :: "u32 \<Rightarrow> 's Chain \<Rightarrow> 's Chain" where
  "removeOne h c =
     (case ch_hashByHeight c h of
        None \<Rightarrow> c
      | Some hash \<Rightarrow> c\<lparr>ch_heightByHash := (ch_heightByHash c)(hash := None),
                      ch_hashByHeight := (ch_hashByHeight c)(h := None)\<rparr>)"

definition connectOne :: "('sg, 'pk, 'sk, 's) chain_env \<Rightarrow> u32 \<Rightarrow> hash \<Rightarrow> 's Chain \<Rightarrow> (reorg_error, BlockUndoData) res \<times> 's Chain" where
  "connectOne E h blockHash c =
     (case st_GetBlock (en_store E) (ch_store c) blockHash of
        Inl e \<Rightarrow> (Inl (LoadNew blockHash e), c)
      | Inr block \<Rightarrow>
        (case ValidateTransactionInputs (en_lib E) block (ch_utxoSet c) h (en_params E) of
           Inl e \<Rightarrow> (Inl (ReorgInputs h e), c)
         | Inr _ \<Rightarrow>
        (case ConnectBlock (en_sha E) (ch_utxoSet c) block h of
           (Inl e, u) \<Rightarrow> (Inl (ReorgConnect blockHash e), c\<lparr>ch_utxoSet := u\<rparr>)
         | (Inr undoData, u) \<Rightarrow>
        (case persistUtxoChanges E (c\<lparr>ch_utxoSet := u\<rparr>) block undoData blockHash of
           (Inl e, c) \<Rightarrow> (Inl (PersistConnect h e), c)
         | (Inr _, c) \<Rightarrow> (Inr undoData, c\<lparr>ch_heightByHash := (ch_heightByHash c)(blockHash \<mapsto> h),
                           ch_hashByHeight := (ch_hashByHeight c)(h \<mapsto> blockHash)\<rparr>)))))"

fun connectLoop :: "('sg, 'pk, 'sk, 's) chain_env \<Rightarrow> u32 \<Rightarrow> hash list \<Rightarrow> 's Chain \<Rightarrow> (reorg_error, (hash \<times> BlockUndoData) list) res \<times> 's Chain" where
  "connectLoop E h [] c = (Inr [], c)"
| "connectLoop E h (hash # hs) c =
     (case connectOne E h hash c of
        (Inl e, c) \<Rightarrow> (Inl e, c)
      | (Inr undo, c) \<Rightarrow>
          (case connectLoop E (h + 1) hs c of
             (Inl e, c) \<Rightarrow> (Inl e, c)
           | (Inr rest, c) \<Rightarrow> (Inr ((hash, undo) # rest), c)))"

definition withUndo :: "DiskBlockIndex \<Rightarrow> u32 \<Rightarrow> u32 \<Rightarrow> u32 \<Rightarrow> DiskBlockIndex" where
  "withUndo rec fileNum undoOffset undoSize =
     rec\<lparr>di_UndoFile := fileNum, di_UndoPos := undoOffset, di_UndoSize := undoSize,
         di_Status := di_Status rec OR (StatusHaveUndo OR StatusValidTx)\<rparr>"

fun undoWriteLoop :: "('sg, 'pk, 'sk, 's) chain_env \<Rightarrow> (hash \<times> BlockUndoData) list \<Rightarrow> 's Chain \<Rightarrow> (reorg_error, unit) res \<times> 's Chain" where
  "undoWriteLoop E [] c = (Inr (), c)"
| "undoWriteLoop E ((hash, undoData) # rest) c =
     (case st_GetBlockIndex (en_store E) (ch_store c) hash of
        Inl e \<Rightarrow> (Inl (ReorgIndex e), c)
      | Inr rec \<Rightarrow>
        (case st_WriteUndo (en_store E) (ch_store c) (di_FileNum rec) (SerializeUndoData undoData) of
           (Inl e, s) \<Rightarrow> (Inl (ReorgUndo e), c\<lparr>ch_store := s\<rparr>)
         | (Inr (undoOffset, undoSize), s) \<Rightarrow>
        (case st_PutBlockIndex (en_store E) s hash (withUndo rec (di_FileNum rec) undoOffset undoSize) of
           (Inl e, s) \<Rightarrow> (Inl (ReorgIndex e), c\<lparr>ch_store := s\<rparr>)
         | (Inr _, s) \<Rightarrow> undoWriteLoop E rest (c\<lparr>ch_store := s\<rparr>))))"

definition reorgBody :: "('sg, 'pk, 'sk, 's) chain_env \<Rightarrow> hash \<Rightarrow> u32 \<Rightarrow> int \<Rightarrow> 's Chain \<Rightarrow> (reorg_error, unit) res \<times> 's Chain" where
  "reorgBody E newTipHash newTipHeight newWork c =
     (case reorgWalk E c (Suc (unat newTipHeight)) newTipHash [newTipHash] of
        Inl e \<Rightarrow> (Inl e, c)
      | Inr newChain \<Rightarrow>
        (case st_GetBlock (en_store E) (ch_store c) (last newChain) of
           Inl e \<Rightarrow> (Inl ForkBlockNil, c)
         | Inr forkBlock \<Rightarrow>
             let forkParentHeight = (case ch_heightByHash c (PrevBlock (Header forkBlock)) of None \<Rightarrow> 0 | Some h \<Rightarrow> h);
                 oldTipHeight = ch_tipHeight c;
                 reorgDepth = oldTipHeight - forkParentHeight in
             if MaxReorgDepth (en_params E) > 0 \<and> reorgDepth > MaxReorgDepth (en_params E)
             then (Inl (ReorgTooDeep reorgDepth), c)
             else
        (case disconnectLoop E (rev (heightsAbove forkParentHeight oldTipHeight)) c of
           (Inl e, c) \<Rightarrow> (Inl e, c)
         | (Inr _, c) \<Rightarrow>
             let c = fold removeOne (heightsAbove forkParentHeight oldTipHeight) c in
        (case connectLoop E (forkParentHeight + 1) (rev newChain) c of
           (Inl e, c) \<Rightarrow> (Inl e, c)
         | (Inr connected, c) \<Rightarrow>
        (case st_PutChainTip (en_store E) (ch_store c) newTipHash newTipHeight of
           (Inl e, s) \<Rightarrow> (Inl (ReorgTip e), c\<lparr>ch_store := s\<rparr>)
         | (Inr _, s) \<Rightarrow>
             undoWriteLoop E connected
               (c\<lparr>ch_store := s, ch_tipHash := newTipHash, ch_tipHeight := newTipHeight, ch_tipWork := newWork\<rparr>))))))"

text \<open>The deferred function restores the in-memory snapshot on every error.\<close>

definition reorg :: "('sg, 'pk, 'sk, 's) chain_env \<Rightarrow> hash \<Rightarrow> u32 \<Rightarrow> int \<Rightarrow> 's Chain \<Rightarrow> (reorg_error, unit) res \<times> 's Chain" where
  "reorg E newTipHash newTipHeight newWork c =
     (case reorgBody E newTipHash newTipHeight newWork c of
        (Inl e, c') \<Rightarrow> (Inl e, restoreSnapshot c c')
      | (Inr _, c') \<Rightarrow> (Inr (), c'))"

section \<open>Processing a block\<close>

text \<open>
  The checks that \<open>ProcessBlock\<close> and \<open>processOrphans\<close> make on a block whose parent is known,
  up to the total work of its chain.
\<close>

definition checkBlock :: "('sg, 'pk, 'sk, 's) chain_env \<Rightarrow> 's Chain \<Rightarrow> int \<Rightarrow> Block \<Rightarrow> u32 \<Rightarrow> (chain_error, int) res" where
  "checkBlock E c now block parentHeight =
     (let newHeight = parentHeight + 1; prev = PrevBlock (Header block) in
      bindR (mapErr ParentHeader (st_GetHeader (en_store E) (ch_store c) prev)) (\<lambda>parentHeader.
      let getAncestor = buildAncestorLookup E c prev parentHeight in
      bindR (mapErr InvalidHeader
        (ce_ValidateHeader (en_engine E) (Header block) parentHeader newHeight getAncestor (en_params E))) (\<lambda>_.
      bindR (mapErr InvalidTimestamp
        (ValidateHeaderTimestamp (Header block) parentHeader (of_int now) getAncestor parentHeight (en_params E))) (\<lambda>_.
      bindR (mapErr InvalidBlock (ce_ValidateBlock (en_engine E) block newHeight (en_params E))) (\<lambda>_.
      bindR (workForParentChain E c prev) (\<lambda>parentWork.
        Inr (parentWork + CalcWork (Bits (Header block)))))))))"

definition newRecord :: "Block \<Rightarrow> u32 \<Rightarrow> u32 \<times> u32 \<times> u32 \<Rightarrow> int \<Rightarrow> DiskBlockIndex" where
  "newRecord block newHeight loc newWork =
     (case loc of (fileNum, offset, sz) \<Rightarrow>
       \<lparr>di_Header = Header block, di_Height = newHeight, di_Status = StatusHaveData OR StatusValidHeader,
        di_TxCount = of_nat (length (Transactions block)), di_FileNum = fileNum, di_DataPos = offset,
        di_DataSize = sz, di_UndoFile = 0, di_UndoPos = 0, di_UndoSize = 0, di_ChainWork = Some newWork\<rparr>)"

definition preferred :: "'s Chain \<Rightarrow> hash \<Rightarrow> int \<Rightarrow> bool" where
  "preferred c blockHash newWork \<longleftrightarrow>
     newWork > ch_tipWork c \<or> newWork = ch_tipWork c \<and> bytesLess blockHash (ch_tipHash c)"

text \<open>
  Extending the active chain, as in \<open>ProcessBlock\<close>. A failure of \<open>extendChain\<close> is returned
  without disconnecting the block again.
\<close>

definition connectTip :: "('sg, 'pk, 'sk, 's) chain_env \<Rightarrow> 's Chain \<Rightarrow> Block \<Rightarrow> hash \<Rightarrow> u32 \<Rightarrow> int \<Rightarrow> DiskBlockIndex
    \<Rightarrow> (chain_error, unit) res \<times> 's Chain" where
  "connectTip E c block blockHash newHeight newWork rec =
     (case ValidateTransactionInputs (en_lib E) block (ch_utxoSet c) newHeight (en_params E) of
        Inl e \<Rightarrow> (Inl (InvalidInputs e), c)
      | Inr _ \<Rightarrow>
        (case ConnectBlock (en_sha E) (ch_utxoSet c) block newHeight of
           (Inl e, u) \<Rightarrow> (Inl (ConnectFailed e), c\<lparr>ch_utxoSet := u\<rparr>)
         | (Inr undoData, u) \<Rightarrow>
             let back = DisconnectBlock (en_sha E) u block undoData in
        (case st_WriteUndo (en_store E) (ch_store c) (di_FileNum rec) (SerializeUndoData undoData) of
           (Inl e, s) \<Rightarrow> (Inl (StoreUndo e), c\<lparr>ch_store := s, ch_utxoSet := back\<rparr>)
         | (Inr (undoOffset, undoSize), s) \<Rightarrow>
        (case st_PutBlockIndex (en_store E) s blockHash (withUndo rec (di_FileNum rec) undoOffset undoSize) of
           (Inl e, s) \<Rightarrow> (Inl (StoreIndex e), c\<lparr>ch_store := s, ch_utxoSet := back\<rparr>)
         | (Inr _, s) \<Rightarrow>
        (case persistUtxoChanges E (c\<lparr>ch_store := s, ch_utxoSet := u\<rparr>) block undoData blockHash of
           (Inl e, c) \<Rightarrow> (Inl (PersistUtxo e), c\<lparr>ch_utxoSet := back\<rparr>)
         | (Inr _, c) \<Rightarrow>
        (case extendChain E c blockHash newHeight newWork of
           (Inl e, c) \<Rightarrow> (Inl (StoreTip e), c)
         | (Inr _, c) \<Rightarrow> (Inr (), c)))))))"

text \<open>
  The same for an orphan: a failed undo write is ignored and the record keeps no undo location.
\<close>

definition connectOrphanTip :: "('sg, 'pk, 'sk, 's) chain_env \<Rightarrow> 's Chain \<Rightarrow> Block \<Rightarrow> hash \<Rightarrow> u32 \<Rightarrow> int \<Rightarrow> DiskBlockIndex
    \<Rightarrow> bool \<times> 's Chain" where
  "connectOrphanTip E c block blockHash newHeight newWork rec =
     (case ValidateTransactionInputs (en_lib E) block (ch_utxoSet c) newHeight (en_params E) of
        Inl e \<Rightarrow> (False, c)
      | Inr _ \<Rightarrow>
        (case ConnectBlock (en_sha E) (ch_utxoSet c) block newHeight of
           (Inl e, u) \<Rightarrow> (False, c\<lparr>ch_utxoSet := u\<rparr>)
         | (Inr undoData, u) \<Rightarrow>
             let back = DisconnectBlock (en_sha E) u block undoData;
                 (w, s) = st_WriteUndo (en_store E) (ch_store c) (di_FileNum rec) (SerializeUndoData undoData);
                 rec = (case w of Inl _ \<Rightarrow> rec
                        | Inr (undoOffset, undoSize) \<Rightarrow> withUndo rec (di_FileNum rec) undoOffset undoSize) in
        (case st_PutBlockIndex (en_store E) s blockHash rec of
           (Inl e, s) \<Rightarrow> (False, c\<lparr>ch_store := s, ch_utxoSet := back\<rparr>)
         | (Inr _, s) \<Rightarrow>
        (case persistUtxoChanges E (c\<lparr>ch_store := s, ch_utxoSet := u\<rparr>) block undoData blockHash of
           (Inl e, c) \<Rightarrow> (False, c\<lparr>ch_utxoSet := back\<rparr>)
         | (Inr _, c) \<Rightarrow>
        (case extendChain E c blockHash newHeight newWork of
           (Inl e, c) \<Rightarrow> (False, c)
         | (Inr _, c) \<Rightarrow> (True, c))))))"

section \<open>Orphans\<close>

definition evictExpiredOrphans :: "int \<Rightarrow> (hash \<times> orphanBlock) list \<Rightarrow> (hash \<times> orphanBlock) list" where
  "evictExpiredOrphans now orphans = filter (\<lambda>(h, ob). \<not> (now - ob_addedAt ob > OrphanExpiry)) orphans"

text \<open>The map's iteration yields some entry first: the one at \<open>pick\<close>.\<close>

definition evictRandomOrphan :: "nat \<Rightarrow> (hash \<times> orphanBlock) list \<Rightarrow> (hash \<times> orphanBlock) list" where
  "evictRandomOrphan pick orphans =
     (let i = pick mod length orphans in take i orphans @ drop (Suc i) orphans)"

datatype orphan_outcome = OrphanSkipped | OrphanAdded | OrphanReorged

definition processOrphan :: "('sg, 'pk, 'sk, 's) chain_env \<Rightarrow> (hash \<Rightarrow> int) \<Rightarrow> hash \<times> Block \<Rightarrow> 's Chain \<Rightarrow> orphan_outcome \<times> 's Chain" where
  "processOrphan E clock entry c =
     (let blockHash = fst entry; orphan = snd entry in
      case ch_heightByHash c (PrevBlock (Header orphan)) of
        None \<Rightarrow> (OrphanSkipped, c)
      | Some parentHeight \<Rightarrow>
        (case checkBlock E c (clock blockHash) orphan parentHeight of
           Inl _ \<Rightarrow> (OrphanSkipped, c)
         | Inr newWork \<Rightarrow>
        (case st_WriteBlock (en_store E) (ch_store c) blockHash orphan of
           (Inl _, s) \<Rightarrow> (OrphanSkipped, c\<lparr>ch_store := s\<rparr>)
         | (Inr loc, s) \<Rightarrow>
             let newHeight = parentHeight + 1; rec = newRecord orphan newHeight loc newWork; c = c\<lparr>ch_store := s\<rparr> in
             if PrevBlock (Header orphan) = ch_tipHash c then
               (case connectOrphanTip E c orphan blockHash newHeight newWork rec of
                  (ok, c) \<Rightarrow> (if ok then OrphanAdded else OrphanSkipped, c))
             else
               let s = snd (st_PutBlockIndex (en_store E) s blockHash rec);
                   c1 = c\<lparr>ch_store := s, ch_heightByHash := (ch_heightByHash c)(blockHash \<mapsto> newHeight)\<rparr> in
               if preferred c blockHash newWork then
                 (case reorg E blockHash newHeight newWork c1 of
                    (Inl (ReorgTooDeep d), c) \<Rightarrow> (OrphanSkipped, c)
                  | (Inl e, c) \<Rightarrow> (OrphanSkipped, c\<lparr>ch_heightByHash := (ch_heightByHash c)(blockHash := None)\<rparr>)
                  | (Inr _, c) \<Rightarrow> (OrphanReorged, c))
               else (OrphanAdded, c1))))"

text \<open>The entries for one parent, and the queue afterwards.\<close>

fun orphanEntries :: "('sg, 'pk, 'sk, 's) chain_env \<Rightarrow> (hash \<Rightarrow> int) \<Rightarrow> (hash \<times> Block) list \<Rightarrow> hash list \<Rightarrow> 's Chain \<Rightarrow> hash list \<times> 's Chain" where
  "orphanEntries E clock [] queue c = (queue, c)"
| "orphanEntries E clock (e # es) queue c =
     (case processOrphan E clock e c of
        (OrphanSkipped, c) \<Rightarrow> orphanEntries E clock es queue c
      | (OrphanAdded, c) \<Rightarrow> orphanEntries E clock es (queue @ [fst e]) c
      | (OrphanReorged, c) \<Rightarrow> ([fst e], c))"

text \<open>The orphans of one parent, and the pool without them.\<close>

definition orphansOf :: "hash \<Rightarrow> (hash \<times> orphanBlock) list \<Rightarrow> (hash \<times> Block) list" where
  "orphansOf parent orphans =
     sortSlice (\<lambda>x y. bytesLess (fst x) (fst y))
       (map (\<lambda>(h, ob). (h, ob_block ob)) (filter (\<lambda>(h, ob). PrevBlock (Header (ob_block ob)) = parent) orphans))"

definition otherOrphans :: "hash \<Rightarrow> (hash \<times> orphanBlock) list \<Rightarrow> (hash \<times> orphanBlock) list" where
  "otherOrphans parent orphans = filter (\<lambda>(h, ob). PrevBlock (Header (ob_block ob)) \<noteq> parent) orphans"

lemma length_otherOrphans: "length (otherOrphans parent orphans) \<le> length orphans"
  by (simp add: otherOrphans_def)

lemma length_otherOrphans_less:
  assumes "orphansOf parent orphans \<noteq> []"
  shows "length (otherOrphans parent orphans) < length orphans"
proof -
  have "filter (\<lambda>(h, ob). PrevBlock (Header (ob_block ob)) = parent) orphans \<noteq> []"
    using assms by (auto simp: orphansOf_def sortSlice_def)
  then show ?thesis unfolding otherOrphans_def
    by (induction orphans) (auto simp: le_imp_less_Suc split: if_splits)
qed

text \<open>
  The queue loop. The orphans of a parent leave the pool before they are processed, and
  processing does not touch the pool, so that the pool is passed beside the rest of the state.
\<close>

function orphanLoop :: "('sg, 'pk, 'sk, 's) chain_env \<Rightarrow> (hash \<Rightarrow> int) \<Rightarrow> hash list \<Rightarrow> (hash \<times> orphanBlock) list \<Rightarrow> 's Chain \<Rightarrow> 's Chain" where
  "orphanLoop E clock [] orphans c = c\<lparr>ch_orphans := orphans\<rparr>"
| "orphanLoop E clock (parent # queue) orphans c =
     (case orphanEntries E clock (orphansOf parent orphans) queue c of
        (queue', c') \<Rightarrow> orphanLoop E clock queue' (otherOrphans parent orphans) c')"
  by pat_completeness auto

termination
proof (relation "measures [\<lambda>(E, clock, queue, orphans, c). length orphans, \<lambda>(E, clock, queue, orphans, c). length queue]", goal_cases)
  case 1
  then show ?case by simp
next
  case (2 E clock parent queue orphans c queue' c')
  then show ?case
    using length_otherOrphans_less [of parent orphans] length_otherOrphans [of parent orphans]
    by (cases "orphansOf parent orphans") auto
qed

definition processOrphans :: "('sg, 'pk, 'sk, 's) chain_env \<Rightarrow> (hash \<Rightarrow> int) \<Rightarrow> hash \<Rightarrow> 's Chain \<Rightarrow> 's Chain" where
  "processOrphans E clock parentHash c = orphanLoop E clock [parentHash] (ch_orphans c) c"

section \<open>ProcessBlock\<close>

text \<open>The height and the error that \<open>ProcessBlock\<close> returns; \<open>wall\<close> is the reading of \<open>time.Now\<close>.\<close>

definition ProcessBlock :: "('sg, 'pk, 'sk, 's) chain_env \<Rightarrow> (hash \<Rightarrow> int) \<Rightarrow> int \<Rightarrow> nat \<Rightarrow> Block \<Rightarrow> 's Chain \<Rightarrow> (u32 \<times> chain_error option) \<times> 's Chain" where
  "ProcessBlock E clock wall pick block c =
     (let blockHash = HashBlockHeader (en_sha E) (Header block); prev = PrevBlock (Header block) in
      if ch_heightByHash c blockHash \<noteq> None then ((0, Some (AlreadyInChain blockHash)), c)
      else if map_of (ch_orphans c) blockHash \<noteq> None then ((0, Some (AlreadyOrphan blockHash)), c)
      else case ch_heightByHash c prev of
        None \<Rightarrow>
          (case ValidateProofOfWork blockHash (Bits (Header block)) of
             Inl e \<Rightarrow> ((0, Some (OrphanPow e)), c)
           | Inr _ \<Rightarrow>
               let orphans = evictExpiredOrphans wall (ch_orphans c);
                   orphans = (if length orphans \<ge> MaxOrphanBlocks then evictRandomOrphan pick orphans else orphans)
               in ((0, Some (OrphanStored blockHash)),
                   c\<lparr>ch_orphans := orphans @ [(blockHash, \<lparr>ob_block = block, ob_addedAt = wall\<rparr>)]\<rparr>))
      | Some parentHeight \<Rightarrow>
        (case checkBlock E c (clock blockHash) block parentHeight of
           Inl e \<Rightarrow> ((0, Some e), c)
         | Inr newWork \<Rightarrow>
        (case st_WriteBlock (en_store E) (ch_store c) blockHash block of
           (Inl e, s) \<Rightarrow> ((0, Some (StoreBlock e)), c\<lparr>ch_store := s\<rparr>)
         | (Inr loc, s) \<Rightarrow>
             let newHeight = parentHeight + 1; rec = newRecord block newHeight loc newWork; c = c\<lparr>ch_store := s\<rparr> in
             if prev = ch_tipHash c then
               (case connectTip E c block blockHash newHeight newWork rec of
                  (Inl e, c) \<Rightarrow> ((0, Some e), c)
                | (Inr _, c) \<Rightarrow> ((newHeight, None), processOrphans E clock blockHash c))
             else
               (case st_PutBlockIndex (en_store E) s blockHash rec of
                  (Inl e, s) \<Rightarrow> ((0, Some (StoreIndex e)), c\<lparr>ch_store := s\<rparr>)
                | (Inr _, s) \<Rightarrow>
                    let c = c\<lparr>ch_store := s\<rparr> in
                    if preferred c blockHash newWork then
                      (case reorg E blockHash newHeight newWork c of
                         (Inl (ReorgTooDeep d), c) \<Rightarrow>
                           ((newHeight, Some (SideChainTooDeep (ReorgTooDeep d))),
                            processOrphans E clock blockHash
                              (c\<lparr>ch_heightByHash := (ch_heightByHash c)(blockHash \<mapsto> newHeight)\<rparr>))
                       | (Inl e, c) \<Rightarrow> ((0, Some (ReorgFailed e)), c)
                       | (Inr _, c) \<Rightarrow> ((newHeight, None), processOrphans E clock blockHash c))
                    else
                      ((newHeight, Some (SideChain blockHash newHeight)),
                       processOrphans E clock blockHash
                         (c\<lparr>ch_heightByHash := (ch_heightByHash c)(blockHash \<mapsto> newHeight)\<rparr>))))))"

end
