(* ===== verification/Store_Contract.thy ===== *)
theory Store_Contract
  imports Store
begin

text \<open>
  What the store promises. The locale \<open>leveldb\<close> states the documented behaviour of the database;
  the locale \<open>block_store\<close> states what the chain relies on: a record that was put is read back, a
  block or undo record is read back at the location that was returned for it, batches are applied
  as a whole or not at all, and everything else stays as it was. The two predicates of the
  contract are \<open>good\<close>, that the flat files are in step with the manager and no write will be cut
  short, and \<open>fits\<close>, that the flat files are within their 32-bit addresses.
\<close>

section \<open>The contracts\<close>

locale leveldb =
  fixes K :: "'db kv_lib" and contents :: "'db \<Rightarrow> bytes \<rightharpoonup> bytes"
  assumes kvGet: "kv_get K db k = (case contents db k of None \<Rightarrow> Inl ErrNotFound | Some v \<Rightarrow> Inr v)"
    and kvPut: "kv_put K db k v = (r, db') \<Longrightarrow>
      contents db' = (if r = Inr () then (contents db)(k \<mapsto> v) else contents db)"
    and kvWrite: "kv_write K db ops = (r, db') \<Longrightarrow>
      contents db' = (if r = Inr () then applyBatch ops (contents db) else contents db)"
    and kvIter: "\<exists>kvs. kv_iter K db p = (kvs, None) \<and> distinct (map fst kvs)
      \<and> map_of kvs = (\<lambda>k. if hasPrefix p k then contents db k else None)"

definition sameIndex :: "'s BlockStore \<Rightarrow> 's \<Rightarrow> 's \<Rightarrow> bool" where
  "sameIndex S s s' \<longleftrightarrow> st_GetBlockIndex S s' = st_GetBlockIndex S s"

definition sameTip :: "'s BlockStore \<Rightarrow> 's \<Rightarrow> 's \<Rightarrow> bool" where
  "sameTip S s s' \<longleftrightarrow> st_GetChainTip S s' = st_GetChainTip S s"

definition keepsFiles :: "'s BlockStore \<Rightarrow> 's \<Rightarrow> 's \<Rightarrow> bool" where
  "keepsFiles S s s' \<longleftrightarrow>
     (\<forall>f p n b. st_ReadBlock S s f p n = Inr b \<longrightarrow> st_ReadBlock S s' f p n = Inr b)
     \<and> (\<forall>f p n u. st_ReadUndo S s f p n = Inr u \<longrightarrow> st_ReadUndo S s' f p n = Inr u)"

definition storable :: "Block \<Rightarrow> bool" where
  "storable b \<longleftrightarrow> wf_block b \<and> 8 + length (Block_SerializeToBytes b) \<le> maxBlockFileSize"

locale block_store =
  fixes S :: "'s BlockStore" and good :: "'s \<Rightarrow> bool" and fits :: "'s \<Rightarrow> bool" and cs :: "'s \<Rightarrow> bytes \<rightharpoonup> bytes"
  assumes getBlock: "st_GetBlock S s h = bindR (st_GetBlockIndex S s h) (\<lambda>rec.
        if di_Status rec AND StatusHaveData = 0 then Inl NoData
        else st_ReadBlock S s (di_FileNum rec) (di_DataPos rec) (di_DataSize rec))"
    and getHeader: "st_GetHeader S s h = bindR (st_GetBlockIndex S s h) (\<lambda>rec. Inr (di_Header rec))"
    and bestBlock: "st_GetBestBlock S s = (case cs s keyBestBlock of None \<Rightarrow> Inl (Kv ErrNotFound)
        | Some d \<Rightarrow> if length d \<noteq> HashSize then Inl (CorruptBestBlock (length d)) else Inr d)"
    and forEachUtxo: "\<exists>kvs. st_ForEachUtxo S s = (utxoEntries kvs, None) \<and> distinct (map fst kvs)
        \<and> map_of kvs = (\<lambda>k. if hasPrefix [prefixUTXO] k then cs s k else None)"
    and forEachIndex: "(\<forall>x. wf_hash x \<longrightarrow> isOk (st_GetBlockIndex S s x) \<or> st_GetBlockIndex S s x = Inl (Kv ErrNotFound)) \<Longrightarrow>
        \<exists>recs. st_ForEachBlockIndex S s = (recs, None) \<and> distinct (map fst recs)
          \<and> (\<forall>x rec. (x, rec) \<in> set recs \<longleftrightarrow> wf_hash x \<and> st_GetBlockIndex S s x = Inr rec)"
    and putIndex: "st_PutBlockIndex S s h rec = (r, s') \<Longrightarrow>
        keepsFiles S s s' \<and> sameTip S s s' \<and> cs s' = cs s \<and> good s' = good s \<and> fits s' = fits s
        \<and> (\<forall>h'. h' \<noteq> h \<or> r \<noteq> Inr () \<longrightarrow> st_GetBlockIndex S s' h' = st_GetBlockIndex S s h')
        \<and> (r = Inr () \<and> wf_record rec \<longrightarrow> st_GetBlockIndex S s' h = Inr rec)"
    and putTip: "st_PutChainTip S s h height = (r, s') \<Longrightarrow>
        keepsFiles S s s' \<and> sameIndex S s s' \<and> cs s' = cs s \<and> good s' = good s \<and> fits s' = fits s
        \<and> (r \<noteq> Inr () \<longrightarrow> sameTip S s s')
        \<and> (r = Inr () \<and> wf_hash h \<longrightarrow> st_GetChainTip S s' = Inr (h, height))"
    and flush: "st_FlushUtxoBatch S s wb = (r, s') \<Longrightarrow>
        keepsFiles S s s' \<and> sameIndex S s s' \<and> sameTip S s s' \<and> good s' = good s \<and> fits s' = fits s
        \<and> cs s' = (if r = Inr () then applyBatch wb (cs s) else cs s)"
    and writeBlock: "st_WriteBlock S s h b = (rb, s') \<Longrightarrow>
        keepsFiles S s s' \<and> sameIndex S s s' \<and> sameTip S s s' \<and> cs s' = cs s \<and> (fits s' \<longrightarrow> fits s)
        \<and> (good s \<and> fits s' \<and> storable b \<longrightarrow> good s'
            \<and> (\<forall>f p n. rb = Inr (f, p, n) \<longrightarrow> st_ReadBlock S s' f p n = Inr b))"
    and writeUndo: "st_WriteUndo S s f u = (ru, s') \<Longrightarrow>
        keepsFiles S s s' \<and> sameIndex S s s' \<and> sameTip S s s' \<and> cs s' = cs s \<and> (fits s' \<longrightarrow> fits s)
        \<and> (good s \<and> fits s' \<longrightarrow> good s'
            \<and> (\<forall>p n. ru = Inr (p, n) \<longrightarrow> st_ReadUndo S s' f p n = Inr u))"

section \<open>FileStore satisfies the contract\<close>

definition fsGood :: "'db FileStore \<Rightarrow> bool" where
  "fsGood fs \<longleftrightarrow> bfInv (fs_files fs) \<and> cleanIo (bf_io (fs_files fs))"

definition fsFits :: "'db FileStore \<Rightarrow> bool" where
  "fsFits fs \<longleftrightarrow> filesFit (fs_files fs)"

lemma keepsFiles_files:
  assumes "growsTo (bf_blk (fs_files fs)) (bf_blk (fs_files fs'))" "growsTo (bf_rev (fs_files fs)) (bf_rev (fs_files fs'))"
    and "bf_magic (fs_files fs') = bf_magic (fs_files fs)"
  shows "keepsFiles (fileStore sha K) fs fs'"
  using BF_ReadBlock_grows [OF _ assms(1,3)] BF_ReadUndo_grows [OF _ assms(2,3)]
  by (auto simp: keepsFiles_def fileStore_def FS_ReadBlock_def FS_ReadUndo_def)

lemmas fs_defs = fileStore_def FS_GetBlock_def FS_GetHeader_def FS_GetBlockIndex_def FS_ReadBlock_def
  FS_GetBestBlock_def CS_GetBestBlock_def FS_ForEachUtxo_def CS_ForEachUtxo_def FS_PutBlockIndex_def
  FS_PutChainTip_def FS_GetChainTip_def FS_FlushUtxoBatch_def CS_Flush_def FS_WriteBlock_def FS_WriteUndo_def
  FS_ReadUndo_def sameIndex_def sameTip_def fsGood_def fsFits_def

context leveldb
begin

lemma fs_putIndex:
  assumes "FS_PutBlockIndex K fs h rec = (r, fs')"
  shows "fs_files fs' = fs_files fs" "fs_chainstate fs' = fs_chainstate fs"
    "FS_GetChainTip K fs' = FS_GetChainTip K fs"
    "h' \<noteq> h \<or> r \<noteq> Inr () \<Longrightarrow> FS_GetBlockIndex K fs' h' = FS_GetBlockIndex K fs h'"
    "r = Inr () \<Longrightarrow> wf_record rec \<Longrightarrow> FS_GetBlockIndex K fs' h = Inr rec"
proof -
  consider (panic) "DiskBlockIndex_Serialize rec = None" "r = Inl WorkTooLarge" "fs' = fs"
    | (put) bs q db where "DiskBlockIndex_Serialize rec = Some bs" "kv_put K (fs_index fs) (blockIndexKey h) bs = (q, db)"
        "r = liftKv q" "fs' = fs\<lparr>fs_index := db\<rparr>"
    using assms by (auto simp: FS_PutBlockIndex_def BI_PutBlockIndex_def split: option.splits prod.splits)
  note cases = this
  have c: "contents (fs_index fs') = (if r = Inr () then (contents (fs_index fs))(blockIndexKey h \<mapsto> the (DiskBlockIndex_Serialize rec))
      else contents (fs_index fs))"
  proof (cases rule: cases)
    case panic
    then show ?thesis by simp
  next
    case put
    then show ?thesis using kvPut [OF put(2)] by (cases q) (auto simp: liftKv_def)
  qed
  show "fs_files fs' = fs_files fs" "fs_chainstate fs' = fs_chainstate fs"
    using cases by (cases; simp)+
  show "FS_GetChainTip K fs' = FS_GetChainTip K fs"
    by (simp add: FS_GetChainTip_def kvGet c keyChainTip_def blockIndexKey_def)
  show "FS_GetBlockIndex K fs' h' = FS_GetBlockIndex K fs h'" if "h' \<noteq> h \<or> r \<noteq> Inr ()"
    using that by (auto simp: FS_GetBlockIndex_def BI_GetBlockIndex_def kvGet c blockIndexKey_def)
  show "FS_GetBlockIndex K fs' h = Inr rec" if "r = Inr ()" "wf_record rec"
  proof -
    have "DiskBlockIndex_Serialize rec \<noteq> None"
    proof (cases rule: cases)
      case panic
      then show ?thesis using that(1) by simp
    qed simp
    then obtain bs where "DiskBlockIndex_Serialize rec = Some bs" by blast
    then show ?thesis using record_read [OF that(2)] that(1)
      by (simp add: FS_GetBlockIndex_def BI_GetBlockIndex_def kvGet c liftKv_def)
  qed
qed

text \<open>The iteration hands out the records under their hashes, if all of them can be decoded.\<close>

lemma indexEntries_run:
  assumes "distinct (map fst kvs)" "\<forall>(k, v)\<in>set kvs. k = 0x62 # drop 1 k \<and> (length k = 33 \<longrightarrow> isOk (DeserializeDiskBlockIndex v))"
  shows "\<exists>recs. indexEntries kvs None = (recs, None) \<and> distinct (map fst recs)
    \<and> (\<forall>x rec. (x, rec) \<in> set recs \<longleftrightarrow> (\<exists>v. (0x62 # x, v) \<in> set kvs \<and> length x = 32 \<and> DeserializeDiskBlockIndex v = Inr rec))"
  using assms
proof (induction kvs)
  case Nil
  then show ?case by simp
next
  case (Cons kv kvs)
  obtain k v where kv: "kv = (k, v)" by fastforce
  obtain recs where recs: "indexEntries kvs None = (recs, None)" "distinct (map fst recs)"
    "\<forall>x rec. (x, rec) \<in> set recs \<longleftrightarrow> (\<exists>v. (0x62 # x, v) \<in> set kvs \<and> length x = 32 \<and> DeserializeDiskBlockIndex v = Inr rec)"
    using Cons by auto
  obtain x where x: "k = 0x62 # x" using Cons.prems(2) kv by auto
  show ?case
  proof (cases "length k = 33")
    case False
    then show ?thesis using recs by (intro exI [of _ recs]) (auto simp: kv x HashSize_def)
  next
    case True
    then obtain rec where rec: "DeserializeDiskBlockIndex v = Inr rec" using Cons.prems(2) kv by (auto simp: isOk_iff)
    have "x \<notin> fst ` set recs" using recs(3) Cons.prems(1) by (force simp: kv x)
    then show ?thesis using recs True rec by (intro exI [of _ "(x, rec) # recs"]) (auto simp: kv x HashSize_def)
  qed
qed

lemma fs_forEachIndex:
  assumes "\<forall>x. wf_hash x \<longrightarrow> isOk (FS_GetBlockIndex K fs x) \<or> FS_GetBlockIndex K fs x = Inl (Kv ErrNotFound)"
  shows "\<exists>recs. FS_ForEachBlockIndex K fs = (recs, None) \<and> distinct (map fst recs)
    \<and> (\<forall>x rec. (x, rec) \<in> set recs \<longleftrightarrow> wf_hash x \<and> FS_GetBlockIndex K fs x = Inr rec)"
proof -
  obtain kvs where it: "kv_iter K (fs_index fs) [0x62] = (kvs, None)" "distinct (map fst kvs)"
    "map_of kvs = (\<lambda>k. if hasPrefix [0x62] k then contents (fs_index fs) k else None)"
    using kvIter by blast
  have mem: "(k, v) \<in> set kvs \<longleftrightarrow> hasPrefix [0x62] k \<and> contents (fs_index fs) k = Some v" for k v
    unfolding map_of_eq_Some_iff [OF it(2), symmetric] it(3) by simp
  have get: "FS_GetBlockIndex K fs x = (case contents (fs_index fs) (0x62 # x) of None \<Rightarrow> Inl (Kv ErrNotFound) | Some v \<Rightarrow> DeserializeDiskBlockIndex v)" for x
    by (simp add: FS_GetBlockIndex_def BI_GetBlockIndex_def kvGet blockIndexKey_def liftKv_def split: option.split)
  have dec: "isOk (DeserializeDiskBlockIndex v)" if v: "contents (fs_index fs) (0x62 # x) = Some v" and x: "length x = 32" for x v
  proof -
    have "DeserializeDiskBlockIndex v \<noteq> Inl (Kv ErrNotFound)"
      by (cases "Header_Deserialize (drop 36 v)") (auto simp: DeserializeDiskBlockIndex_def)
    then show ?thesis using assms get [of x] v x by (auto simp: wf_hash_def HashSize_def)
  qed
  have "\<forall>(k, v)\<in>set kvs. k = 0x62 # drop 1 k \<and> (length k = 33 \<longrightarrow> isOk (DeserializeDiskBlockIndex v))"
  proof clarify
    fix k v assume "(k, v) \<in> set kvs"
    then have p: "hasPrefix [0x62] k" "contents (fs_index fs) k = Some v" by (simp_all add: mem)
    then obtain x where k: "k = 0x62 # x" by (cases k) (auto simp: hasPrefix_def)
    then show "k = 0x62 # drop 1 k \<and> (length k = 33 \<longrightarrow> isOk (DeserializeDiskBlockIndex v))" using dec p(2) by simp
  qed
  from indexEntries_run [OF it(2) this] obtain recs where recs: "indexEntries kvs None = (recs, None)" "distinct (map fst recs)"
    "\<forall>x rec. (x, rec) \<in> set recs \<longleftrightarrow> (\<exists>v. (0x62 # x, v) \<in> set kvs \<and> length x = 32 \<and> DeserializeDiskBlockIndex v = Inr rec)"
    by blast
  have "(x, rec) \<in> set recs \<longleftrightarrow> wf_hash x \<and> FS_GetBlockIndex K fs x = Inr rec" for x rec
    unfolding recs(3) [rule_format] get mem wf_hash_def HashSize_def
    by (cases "contents (fs_index fs) (0x62 # x)") (auto simp: hasPrefix_def)
  moreover have "FS_ForEachBlockIndex K fs = (recs, None)" by (simp add: FS_ForEachBlockIndex_def ForEachBlock_def it(1) recs(1))
  ultimately show ?thesis using recs(2) by blast
qed

lemma fs_putTip:
  assumes "FS_PutChainTip K fs h height = (r, fs')"
  shows "fs_files fs' = fs_files fs" "fs_chainstate fs' = fs_chainstate fs"
    "FS_GetBlockIndex K fs' = FS_GetBlockIndex K fs"
    "r \<noteq> Inr () \<Longrightarrow> FS_GetChainTip K fs' = FS_GetChainTip K fs"
    "r = Inr () \<Longrightarrow> wf_hash h \<Longrightarrow> FS_GetChainTip K fs' = Inr (h, height)"
proof -
  obtain q db where p: "kv_put K (fs_index fs) keyChainTip (h @ rev (PutUint32 height)) = (q, db)"
    and r: "r = liftKv q" "fs' = fs\<lparr>fs_index := db\<rparr>"
    using assms by (auto simp: FS_PutChainTip_def split: prod.splits)
  have c: "contents (fs_index fs') = (if r = Inr () then (contents (fs_index fs))(keyChainTip \<mapsto> h @ rev (PutUint32 height))
      else contents (fs_index fs))"
    using kvPut [OF p] r by (cases q) (auto simp: liftKv_def)
  show "fs_files fs' = fs_files fs" "fs_chainstate fs' = fs_chainstate fs" by (simp_all add: r)
  show "FS_GetBlockIndex K fs' = FS_GetBlockIndex K fs"
    by (rule ext) (simp add: FS_GetBlockIndex_def BI_GetBlockIndex_def kvGet c keyChainTip_def blockIndexKey_def)
  show "FS_GetChainTip K fs' = FS_GetChainTip K fs" if "r \<noteq> Inr ()"
    using that by (simp add: FS_GetChainTip_def kvGet c)
  show "FS_GetChainTip K fs' = Inr (h, height)" if "r = Inr ()" "wf_hash h"
    using that by (simp add: FS_GetChainTip_def kvGet c liftKv_def wf_hash_def HashSize_def)
qed

end

locale file_store = leveldb K contents + digest sha for K :: "'db kv_lib" and contents and sha
begin

lemma fs_writeBlock:
  assumes "FS_WriteBlock fs h b = (r, fs')"
  shows "fs_index fs' = fs_index fs" "fs_chainstate fs' = fs_chainstate fs"
    "keepsFiles (fileStore sha K) fs fs'" "fsFits fs' \<Longrightarrow> fsFits fs"
    "fsGood fs \<Longrightarrow> fsFits fs' \<Longrightarrow> storable b \<Longrightarrow> fsGood fs'"
    "fsGood fs \<Longrightarrow> fsFits fs' \<Longrightarrow> storable b \<Longrightarrow> r = Inr (f, p, n) \<Longrightarrow> FS_ReadBlock fs' f p n = Inr b"
proof -
  obtain bf where w: "BF_WriteBlock (fs_files fs) b = (r, bf)" and fs': "fs' = fs\<lparr>fs_files := bf\<rparr>"
    using assms by (auto simp: FS_WriteBlock_def split: prod.splits)
  note fr = BF_WriteBlock_frame [OF w]
  show "fs_index fs' = fs_index fs" "fs_chainstate fs' = fs_chainstate fs" by (simp_all add: fs')
  show "keepsFiles (fileStore sha K) fs fs'" by (rule keepsFiles_files) (simp_all add: fs' fr)
  show "fsFits fs' \<Longrightarrow> fsFits fs" using filesFit_back [of bf "fs_files fs"] fr by (simp add: fs' fsFits_def)
  show "fsGood fs \<Longrightarrow> fsFits fs' \<Longrightarrow> storable b \<Longrightarrow> fsGood fs'"
    using BF_WriteBlock_inv(1) [OF _ _ _ _ w] cleanIo_WriteBlock [OF w] by (simp add: fs' fsGood_def fsFits_def storable_def)
  show "fsGood fs \<Longrightarrow> fsFits fs' \<Longrightarrow> storable b \<Longrightarrow> r = Inr (f, p, n) \<Longrightarrow> FS_ReadBlock fs' f p n = Inr b"
    using BF_WriteBlock_inv(2) [OF _ _ _ _ w, of f p n] by (simp add: fs' fsGood_def fsFits_def storable_def FS_ReadBlock_def)
qed

lemma fs_writeUndo:
  assumes "FS_WriteUndo sha fs f u = (r, fs')"
  shows "fs_index fs' = fs_index fs" "fs_chainstate fs' = fs_chainstate fs"
    "keepsFiles (fileStore sha K) fs fs'" "fsFits fs' \<Longrightarrow> fsFits fs"
    "fsGood fs \<Longrightarrow> fsGood fs'"
    "fsGood fs \<Longrightarrow> fsFits fs' \<Longrightarrow> r = Inr (p, n) \<Longrightarrow> FS_ReadUndo sha fs' f p n = Inr u"
proof -
  obtain bf where w: "BF_WriteUndo sha (fs_files fs) f u = (r, bf)" and fs': "fs' = fs\<lparr>fs_files := bf\<rparr>"
    using assms by (auto simp: FS_WriteUndo_def split: prod.splits)
  note fr = BF_WriteUndo_frame [OF w]
  show "fs_index fs' = fs_index fs" "fs_chainstate fs' = fs_chainstate fs" by (simp_all add: fs')
  show "keepsFiles (fileStore sha K) fs fs'" by (rule keepsFiles_files) (simp_all add: fs' fr)
  show "fsFits fs' \<Longrightarrow> fsFits fs" using filesFit_back [of bf "fs_files fs"] fr by (simp add: fs' fsFits_def)
  show "fsGood fs \<Longrightarrow> fsGood fs'" using bfInv_WriteUndo [OF w] cleanIo_WriteUndo [OF w] by (simp add: fs' fsGood_def)
  show "fsGood fs \<Longrightarrow> fsFits fs' \<Longrightarrow> r = Inr (p, n) \<Longrightarrow> FS_ReadUndo sha fs' f p n = Inr u"
    using BF_WriteUndo_read [of sha "fs_files fs" f u p n bf] w digest_axioms
    by (simp add: fs' fsGood_def fsFits_def FS_ReadUndo_def bfInv_def)
qed

lemma fs_flush:
  assumes "FS_FlushUtxoBatch K fs wb = (r, fs')"
  shows "fs_files fs' = fs_files fs" "fs_index fs' = fs_index fs"
    "contents (fs_chainstate fs') = (if r = Inr () then applyBatch wb (contents (fs_chainstate fs)) else contents (fs_chainstate fs))"
proof -
  obtain q db where w: "kv_write K (fs_chainstate fs) wb = (q, db)" and r: "r = liftKv q" "fs' = fs\<lparr>fs_chainstate := db\<rparr>"
    using assms by (auto simp: FS_FlushUtxoBatch_def CS_Flush_def split: prod.splits)
  show "fs_files fs' = fs_files fs" "fs_index fs' = fs_index fs" by (simp_all add: r)
  show "contents (fs_chainstate fs') = (if r = Inr () then applyBatch wb (contents (fs_chainstate fs)) else contents (fs_chainstate fs))"
    using kvWrite [OF w] r by (cases q) (auto simp: liftKv_def)
qed

lemma keepsFiles_same: "fs_files fs' = fs_files fs \<Longrightarrow> keepsFiles (fileStore sha K) fs fs'"
  by (rule keepsFiles_files) simp_all

lemma fs_ops [simp]:
  "st_GetBlock (fileStore sha K) = FS_GetBlock K" "st_GetHeader (fileStore sha K) = FS_GetHeader K"
  "st_GetBlockIndex (fileStore sha K) = FS_GetBlockIndex K" "st_ReadBlock (fileStore sha K) = FS_ReadBlock"
  "st_GetBestBlock (fileStore sha K) = FS_GetBestBlock K" "st_ForEachUtxo (fileStore sha K) = FS_ForEachUtxo K"
  "st_PutBlockIndex (fileStore sha K) = FS_PutBlockIndex K" "st_PutChainTip (fileStore sha K) = FS_PutChainTip K"
  "st_GetChainTip (fileStore sha K) = FS_GetChainTip K" "st_FlushUtxoBatch (fileStore sha K) = FS_FlushUtxoBatch K"
  "st_WriteBlock (fileStore sha K) = FS_WriteBlock" "st_WriteUndo (fileStore sha K) = FS_WriteUndo sha"
  "st_ReadUndo (fileStore sha K) = FS_ReadUndo sha" "st_ForEachBlockIndex (fileStore sha K) = FS_ForEachBlockIndex K"
  by (simp_all add: fileStore_def)

end

sublocale file_store \<subseteq> store: block_store "fileStore sha K" fsGood fsFits "\<lambda>fs. contents (fs_chainstate fs)"
proof (unfold_locales, goal_cases)
  case (1 s h)
  show ?case unfolding fs_ops FS_GetBlock_def FS_GetBlockIndex_def FS_ReadBlock_def ..
next
  case (2 s h)
  show ?case by (simp add: FS_GetHeader_def FS_GetBlockIndex_def)
next
  case (3 s)
  then show ?case
    by (simp add: FS_GetBestBlock_def CS_GetBestBlock_def kvGet liftKv_def split: option.split)
next
  case (4 s)
  obtain kvs where "kv_iter K (fs_chainstate s) [prefixUTXO] = (kvs, None)" "distinct (map fst kvs)"
    "map_of kvs = (\<lambda>k. if hasPrefix [prefixUTXO] k then contents (fs_chainstate s) k else None)"
    using kvIter by blast
  then show ?case by (auto simp: FS_ForEachUtxo_def CS_ForEachUtxo_def)
next
  case (5 s)
  then show ?case using fs_forEachIndex by simp
next
  case (6 s h rec r s')
  then have w: "FS_PutBlockIndex K s h rec = (r, s')" by simp
  show ?case using fs_putIndex [OF w] keepsFiles_same [OF fs_putIndex(1) [OF w]]
    by (simp add: sameTip_def fsGood_def fsFits_def)
next
  case (7 s h height r s')
  then have w: "FS_PutChainTip K s h height = (r, s')" by simp
  show ?case using fs_putTip [OF w] keepsFiles_same [OF fs_putTip(1) [OF w]]
    by (simp add: sameTip_def sameIndex_def fsGood_def fsFits_def)
next
  case (8 s wb r s')
  then have w: "FS_FlushUtxoBatch K s wb = (r, s')" by simp
  show ?case using fs_flush [OF w] keepsFiles_same [OF fs_flush(1) [OF w]]
    by (auto simp: sameTip_def sameIndex_def fsGood_def fsFits_def FS_GetBlockIndex_def FS_GetChainTip_def)
next
  case (9 s h b rb s')
  then have w: "FS_WriteBlock s h b = (rb, s')" by simp
  show ?case using fs_writeBlock [OF w]
    by (auto simp: sameTip_def sameIndex_def FS_GetBlockIndex_def FS_GetChainTip_def)
next
  case (10 s f u ru s')
  then have w: "FS_WriteUndo sha s f u = (ru, s')" by simp
  show ?case using fs_writeUndo [OF w]
    by (auto simp: sameTip_def sameIndex_def FS_GetBlockIndex_def FS_GetChainTip_def)
qed

section \<open>A database in memory\<close>

text \<open>
  An instance of the database contract: an association list and a script that says which of the
  coming writes fail; writes of the chain tip always succeed.
\<close>

type_synonym mem_db = "(bytes \<times> bytes) list \<times> bool list"

definition memWrite :: "mem_db \<Rightarrow> ((bytes \<times> bytes) list \<Rightarrow> (bytes \<times> bytes) list) \<Rightarrow> (kv_error, unit) res \<times> mem_db" where
  "memWrite db f =
     (case snd db of
        True # fails \<Rightarrow> (Inl KvIo, (fst db, fails))
      | False # fails \<Rightarrow> (Inr (), (f (fst db), fails))
      | [] \<Rightarrow> (Inr (), (f (fst db), [])))"

fun memOp :: "batch_op \<Rightarrow> (bytes \<times> bytes) list \<Rightarrow> (bytes \<times> bytes) list" where
  "memOp (BatchPut k v) xs = AList.update k v xs"
| "memOp (BatchDelete k) xs = AList.delete k xs"

definition memKv :: "mem_db kv_lib" where
  "memKv = \<lparr>
     kv_get = \<lambda>db k. (case map_of (fst db) k of None \<Rightarrow> Inl ErrNotFound | Some v \<Rightarrow> Inr v),
     kv_has = \<lambda>db k. Inr (map_of (fst db) k \<noteq> None),
     kv_put = \<lambda>db k v. if k = keyChainTip then (Inr (), (memOp (BatchPut k v) (fst db), snd db))
                       else memWrite db (memOp (BatchPut k v)),
     kv_delete = \<lambda>db k. memWrite db (memOp (BatchDelete k)),
     kv_write = \<lambda>db ops. memWrite db (fold memOp ops),
     kv_iter = \<lambda>db p. (filter (\<lambda>(k, v). hasPrefix p k) (AList.clearjunk (fst db)), None)\<rparr>"

lemma map_of_memOp: "map_of (memOp op xs) = applyOp op (map_of xs)"
  by (cases op) (simp_all add: update_conv' delete_conv')

lemma map_of_fold_memOp: "map_of (fold memOp ops xs) = applyBatch ops (map_of xs)"
  by (induction ops arbitrary: xs) (simp_all add: applyBatch_def map_of_memOp)

lemma map_of_memWrite:
  assumes "memWrite db f = (r, db')"
  shows "map_of (fst db') = (if r = Inr () then map_of (f (fst db)) else map_of (fst db))"
  using assms by (auto simp: memWrite_def split: list.splits bool.splits)

lemma map_of_prefix: "map_of (filter (\<lambda>(k, v). hasPrefix p k) xs) = (\<lambda>k. if hasPrefix p k then map_of xs k else None)"
  by (induction xs) (auto simp: fun_eq_iff)

interpretation memdb: file_store memKv "\<lambda>db. map_of (fst db)" Sum256
proof (unfold_locales, goal_cases)
  case (1 db k)
  then show ?case by (simp add: memKv_def)
next
  case (2 db k v r db')
  then show ?case using map_of_memWrite [of db "memOp (BatchPut k v)" r db'] by (auto simp: memKv_def map_of_memOp simp del: memOp.simps split: if_splits)
next
  case (3 db ops r db')
  then show ?case using map_of_memWrite [of db "fold memOp ops" r db'] by (simp add: memKv_def map_of_fold_memOp)
next
  case (4 db p)
  have "distinct (map fst (filter (\<lambda>(k, v). hasPrefix p k) (AList.clearjunk (fst db))))"
    by (simp add: distinct_map_filter)
  then show ?case by (auto simp: memKv_def map_of_clearjunk map_of_prefix)
qed

end
