(* ===== verification/History.thy ===== *)
theory History
  imports Ledger
begin

text \<open>
  The ledger with its blocks: \<open>history L p hs s\<close> says that \<open>hs\<close> is a chain of blocks, each with
  the undo data of its connection, that starts at the genesis block, is linked by the header
  hashes, and leads to the set \<open>s\<close>, every block being valid where it stands. This is the
  specification of the active chain of \<open>internal/chain\<close>. When the digest does not collide on the
  transactions of the chain, no transaction identifier repeats (the height in the coinbase script
  does what BIP30 asks for), so that disconnecting the last block restores the set before it.
\<close>

section \<open>Histories\<close>

abbreviation blockHash :: "(bytes \<Rightarrow> bytes) \<Rightarrow> Block \<Rightarrow> hash" where
  "blockHash sha b \<equiv> HashBlockHeader sha (Header b)"

inductive history :: "('sg, 'pk, 'sk) crypto_lib \<Rightarrow> ChainParams \<Rightarrow> (Block \<times> BlockUndoData) list \<Rightarrow> UtxoSet \<Rightarrow> bool" for L p where
  genesis: "history L p [(GenesisBlock p, [])] (ConnectGenesis (lib_sha L) NewSet (GenesisBlock p))"
| extend: "history L p hs s \<Longrightarrow> PrevBlock (Header b) = blockHash (lib_sha L) (fst (last hs)) \<Longrightarrow>
     validBlock L p s (of_nat (length hs)) b \<Longrightarrow>
     ConnectBlock (lib_sha L) s b (of_nat (length hs)) = (Inr undo, s') \<Longrightarrow> history L p (hs @ [(b, undo)]) s'"

inductive_cases history_snocE: "history L p (hs @ [(b, undo)]) s"

lemma history_ledger: "history L p hs s \<Longrightarrow> hs \<noteq> [] \<and> ledger L p (length hs - 1) s"
proof (induction rule: history.induct)
  case genesis
  then show ?case by (simp add: ledger.genesis)
next
  case (extend hs s b undo s')
  then obtain n where n: "length hs = Suc n" by (cases "length hs") auto
  then show ?case using extend ledger.extend [of L p n s b undo s'] by simp
qed

lemma history_nonempty: "history L p hs s \<Longrightarrow> hs \<noteq> []"
  using history_ledger by blast

lemma history_hd: "history L p hs s \<Longrightarrow> hd hs = (GenesisBlock p, [])"
  by (induction rule: history.induct) (auto dest: history_nonempty)

lemma history_take: "history L p hs s \<Longrightarrow> 0 < k \<Longrightarrow> k \<le> length hs \<Longrightarrow> \<exists>t. history L p (take k hs) t"
proof (induction arbitrary: k rule: history.induct)
  case genesis
  then show ?case using history.genesis [of L p] by (cases k) auto
next
  case (extend hs s b undo s')
  show ?case
  proof (cases "k \<le> length hs")
    case True
    then show ?thesis using extend.IH extend.prems by simp
  next
    case False
    then have "take k (hs @ [(b, undo)]) = hs @ [(b, undo)]" using extend.prems by simp
    then show ?thesis using history.extend [OF extend.hyps] by metis
  qed
qed

text \<open>The genesis transactions are coinbases that carry no block height.\<close>

definition genesisApart :: "ChainParams \<Rightarrow> bool" where
  "genesisApart p \<longleftrightarrow> Transactions (GenesisBlock p) \<noteq> [] \<and> (\<forall>tx\<in>set (Transactions (GenesisBlock p)). IsCoinbase tx
     \<and> (\<forall>h>0. \<not> isOk (validateCoinbaseScriptSig (SignatureScript (Inputs tx ! 0)) h)))"

section \<open>Transaction identifiers do not repeat\<close>

definition txsOf :: "(Block \<times> BlockUndoData) list \<Rightarrow> Transaction set" where
  "txsOf hs = (\<Union>h\<in>set hs. set (Transactions (fst h)))"

lemma txsOf_snoc [simp]: "txsOf (hs @ [h]) = txsOf hs \<union> set (Transactions (fst h))"
  by (auto simp: txsOf_def)

lemma txsOf_single [simp]: "txsOf [h] = set (Transactions (fst h))"
  by (simp add: txsOf_def)

definition keysOf :: "(bytes \<Rightarrow> bytes) \<Rightarrow> Transaction set \<Rightarrow> bytes set" where
  "keysOf sha T = {OutpointKey (HashTransaction sha tx) i |tx i. tx \<in> T}"

lemma keysOf_Un: "keysOf sha (A \<union> B) = keysOf sha A \<union> keysOf sha B"
  by (auto simp: keysOf_def)

lemma outputKeys_keysOf: "set (concat (map (outputKeys sha) txs)) \<subseteq> keysOf sha (set txs)"
  by (auto simp: outputKeys_def keysOf_def)

lemma blockAdds_keysOf: "fst ` set (blockAdds sha h txs) \<subseteq> keysOf sha (set txs)"
proof -
  have "fst ` set (blockAdds sha h txs) = set (concat (map (outputKeys sha) txs))"
    using arg_cong [OF keys_blockAdds [where sha = sha and h = h and txs = txs], of set] by simp
  then show ?thesis using outputKeys_keysOf by simp
qed

text \<open>
  What a history keeps: every unspent output comes from a transaction of the chain, the inputs of
  the chain's transactions are spent and came from the chain, and every coinbase after the
  genesis block carries the height of its block.
\<close>

definition historyInv :: "(bytes \<Rightarrow> bytes) \<Rightarrow> ChainParams \<Rightarrow> (Block \<times> BlockUndoData) list \<Rightarrow> UtxoSet \<Rightarrow> bool" where
  "historyInv sha p hs s \<longleftrightarrow>
     dom s \<subseteq> keysOf sha (txsOf hs)
     \<and> (\<forall>tx\<in>txsOf hs. \<forall>k\<in>set (txSpends tx). s k = None \<and> k \<in> keysOf sha (txsOf hs))
     \<and> (\<forall>tx\<in>txsOf hs. IsCoinbase tx \<longrightarrow> tx \<in> set (Transactions (GenesisBlock p))
          \<or> (\<exists>n<length hs. 0 < n \<and> isOk (validateCoinbaseScriptSig (SignatureScript (Inputs tx ! 0)) (of_nat n))))"

lemma validateCoinbaseScriptSig_height:
  "isOk (validateCoinbaseScriptSig sig k) \<Longrightarrow> isOk (validateCoinbaseScriptSig sig k') \<Longrightarrow> k = k'"
  by (auto simp: validateCoinbaseScriptSig_def Let_def split: if_splits)

lemma validBlock_txs:
  assumes "validBlock L p s height b" "tx \<in> set (Transactions b)"
  shows "IsCoinbase tx \<Longrightarrow> height > 0 \<Longrightarrow> isOk (validateCoinbaseScriptSig (SignatureScript (Inputs tx ! 0)) height)"
    and "\<not> IsCoinbase tx \<Longrightarrow> txSpends tx \<noteq> [] \<and> (\<forall>k\<in>set (txSpends tx). s k \<noteq> None)"
proof -
  from assms(1) obtain u fees where bs: "ValidateBlockStructure (lib_sha L) b height p = Inr u"
    and ti: "ValidateTransactionInputs L b s height p = Inr fees"
    by (auto simp: validBlock_def isOk_iff)
  from ValidateBlockStructure_ok [OF bs] obtain cb txs where
    "Transactions b = cb # txs" "list_all (\<lambda>tx. \<not> IsCoinbase tx) txs"
    "height > 0 \<longrightarrow> isOk (validateCoinbaseScriptSig (SignatureScript (Inputs cb ! 0)) height)" by blast
  then show "IsCoinbase tx \<Longrightarrow> height > 0 \<Longrightarrow> isOk (validateCoinbaseScriptSig (SignatureScript (Inputs tx ! 0)) height)"
    using assms(2) by (auto simp: list_all_iff)
  assume nc: "\<not> IsCoinbase tx"
  then obtain sp fee sp' where t: "blockTx L p s height tx sp = Inr (fee, sp')"
    using ValidateTransactionInputs_ok(4) [OF ti] assms(2) by blast
  then have "Inputs tx \<noteq> []" by (auto simp: blockTx_def)
  then show "txSpends tx \<noteq> [] \<and> (\<forall>k\<in>set (txSpends tx). s k \<noteq> None)"
    using nc blockTx_ok(5) [OF t] by (auto simp: txSpends_def spendable_def)
qed

lemma historyInv_fresh:
  assumes inv: "historyInv sha p hs s" and v: "validBlock L p s (of_nat (length hs)) b"
    and ne: "hs \<noteq> []" and n: "length hs < 2 ^ 32" and ap: "genesisApart p" and tx: "tx \<in> set (Transactions b)"
  shows "tx \<notin> txsOf hs"
proof
  assume old: "tx \<in> txsOf hs"
  have pos: "(of_nat (length hs) :: u32) > 0"
    using ne n by (simp add: word_less_nat_alt)
  show False
  proof (cases "IsCoinbase tx")
    case True
    note now = validBlock_txs(1) [OF v tx True pos]
    have "tx \<notin> set (Transactions (GenesisBlock p))" using now ap pos by (auto simp: genesisApart_def)
    then obtain k where k: "k < length hs" "isOk (validateCoinbaseScriptSig (SignatureScript (Inputs tx ! 0)) (of_nat k))"
      using inv old True by (auto simp: historyInv_def)
    then have "(of_nat k :: u32) = of_nat (length hs)" using now validateCoinbaseScriptSig_height by blast
    then have "unat (of_nat k :: u32) = unat (of_nat (length hs) :: u32)" by simp
    then show False using k(1) n by (simp add:)
  next
    case False
    then show False using validBlock_txs(2) [OF v tx False] inv old
      by (cases "txSpends tx") (auto simp: historyInv_def)
  qed
qed

context digest
begin

lemma keysOf_disjoint:
  assumes "inj_on (HashTransaction sha) (A \<union> B)" "A \<inter> B = {}"
  shows "keysOf sha A \<inter> keysOf sha B = {}"
proof -
  show ?thesis using assms wf_HashTransaction by (fastforce simp: keysOf_def OutpointKey_inj dest: inj_onD)
qed

lemma historyInv_genesis:
  assumes "genesisApart p"
  shows "historyInv sha p [(GenesisBlock p, [])] (ConnectGenesis sha NewSet (GenesisBlock p))"
proof -
  have go: "dom (genesisOutputs (HashTransaction sha tx) cb outs i s) \<subseteq> dom s \<union> keysOf sha {tx}" for tx cb outs i s
  proof (induction "HashTransaction sha tx" cb outs i s rule: genesisOutputs.induct)
    case (2 cb out outs i s)
    then show ?case by (auto simp: Set_Add_def keysOf_def split: if_splits)
  qed simp
  have fo: "dom (fold (\<lambda>tx s. genesisOutputs (HashTransaction sha tx) (IsCoinbase tx) (Outputs tx) 0 s) txs s)
      \<subseteq> dom s \<union> keysOf sha (set txs)" for txs s
  proof (induction txs arbitrary: s)
    case (Cons tx txs)
    let ?s = "genesisOutputs (HashTransaction sha tx) (IsCoinbase tx) (Outputs tx) 0 s"
    have "dom ?s \<union> keysOf sha (set txs) \<subseteq> dom s \<union> keysOf sha (set (tx # txs))"
      using go [of tx "IsCoinbase tx" "Outputs tx" 0 s] keysOf_Un [of sha "{tx}" "set txs"] by auto
    with Cons [of ?s] show ?case by (simp, blast)
  qed simp
  have "dom (ConnectGenesis sha NewSet (GenesisBlock p)) \<subseteq> keysOf sha (set (Transactions (GenesisBlock p)))"
    using fo [of "Transactions (GenesisBlock p)" NewSet] by (simp add: ConnectGenesis_def NewSet_def)
  then show ?thesis using assms by (auto simp: historyInv_def genesisApart_def txSpends_def)
qed

text \<open>The outputs of a new block are fresh, and the block spends none of them.\<close>

lemma historyInv_new_keys:
  assumes inv: "historyInv sha p hs s" and v: "validBlock L p s (of_nat (length hs)) b"
    and ne: "hs \<noteq> []" and n: "length hs < 2 ^ 32" and ap: "genesisApart p"
    and inj: "inj_on (HashTransaction sha) (txsOf hs \<union> set (Transactions b))"
  shows "keysOf sha (txsOf hs) \<inter> keysOf sha (set (Transactions b)) = {}"
    and "dom s \<inter> keysOf sha (set (Transactions b)) = {}"
    and "set (blockSpends (Transactions b)) \<subseteq> dom s"
proof -
  have "txsOf hs \<inter> set (Transactions b) = {}" using historyInv_fresh [OF inv v ne n ap] by blast
  from keysOf_disjoint [OF inj this]
  show d: "keysOf sha (txsOf hs) \<inter> keysOf sha (set (Transactions b)) = {}" .
  show "dom s \<inter> keysOf sha (set (Transactions b)) = {}" using d inv by (auto simp: historyInv_def)
  show "set (blockSpends (Transactions b)) \<subseteq> dom s"
    using v ValidateTransactionInputs_ok(3) by (fastforce simp: validBlock_def isOk_iff spendable_def)
qed

lemma historyInv_extend:
  assumes inv: "historyInv sha p hs s" and v: "validBlock L p s (of_nat (length hs)) b"
    and ne: "hs \<noteq> []" and n: "length hs < 2 ^ 32" and ap: "genesisApart p"
    and inj: "inj_on (HashTransaction sha) (txsOf hs \<union> set (Transactions b))"
    and c: "ConnectBlock sha s b (of_nat (length hs)) = (Inr undo, s')"
  shows "historyInv sha p (hs @ [(b, undo)]) s'"
proof -
  note new = historyInv_new_keys [OF inv v ne n ap inj]
  let ?adds = "blockAdds sha (of_nat (length hs)) (Transactions b)"
  have s': "s' = applyBlock s (blockSpends (Transactions b)) ?adds" using ConnectBlock_effect(1) [OF c] .
  note ad = blockAdds_keysOf [of sha "of_nat (length hs)" "Transactions b"]
  have look: "s' k = (if k \<in> set (blockSpends (Transactions b)) then None else s k)"
    if "k \<notin> keysOf sha (set (Transactions b))" for k
  proof -
    have "map_of (rev ?adds) k = None" using that ad by (auto simp: map_of_eq_None_iff)
    then show ?thesis by (simp add: s' applyBlock_def)
  qed
  have dom: "dom s' \<subseteq> dom s \<union> keysOf sha (set (Transactions b))"
    using look by (auto split: if_splits)
  have spent: "s' k = None \<and> k \<in> keysOf sha (txsOf hs \<union> set (Transactions b))"
    if tx: "tx \<in> txsOf hs \<union> set (Transactions b)" and k: "k \<in> set (txSpends tx)" for tx k
  proof -
    have old: "k \<in> keysOf sha (txsOf hs)"
    proof (cases "tx \<in> txsOf hs")
      case True
      then show ?thesis using inv k by (auto simp: historyInv_def)
    next
      case False
      then have "k \<in> set (blockSpends (Transactions b))" using tx k by (auto simp: blockSpends_def)
      then show ?thesis using new(3) inv by (auto simp: historyInv_def)
    qed
    then have nk: "k \<notin> keysOf sha (set (Transactions b))" using new(1) by blast
    have "s k = None \<or> k \<in> set (blockSpends (Transactions b))"
      using tx k inv by (auto simp: historyInv_def blockSpends_def)
    then show ?thesis using look [OF nk] old by (auto simp: keysOf_Un)
  qed
  have pos: "(of_nat (length hs) :: u32) > 0" using ne n by (simp add: word_less_nat_alt)
  have cb: "\<exists>k<Suc (length hs). 0 < k \<and> isOk (validateCoinbaseScriptSig (SignatureScript (Inputs tx ! 0)) (of_nat k))"
    if "tx \<in> set (Transactions b)" "IsCoinbase tx" for tx
    using validBlock_txs(1) [OF v that pos] ne by blast
  have "dom s' \<subseteq> keysOf sha (txsOf hs \<union> set (Transactions b))"
    using dom inv unfolding historyInv_def keysOf_Un by blast
  moreover have "tx \<in> set (Transactions (GenesisBlock p))
      \<or> (\<exists>k<Suc (length hs). 0 < k \<and> isOk (validateCoinbaseScriptSig (SignatureScript (Inputs tx ! 0)) (of_nat k)))"
    if "tx \<in> txsOf hs \<union> set (Transactions b)" "IsCoinbase tx" for tx
  proof (cases "tx \<in> txsOf hs")
    case True
    then show ?thesis using inv that(2) less_SucI unfolding historyInv_def by blast
  next
    case False
    then show ?thesis using cb that by blast
  qed
  ultimately show ?thesis using spent unfolding historyInv_def by simp
qed

end

section \<open>Disconnecting the last block\<close>

text \<open>The assumptions on the digest: 32 bytes, and no collision on the transactions of a universe of blocks.\<close>

locale tx_universe = digest sha for sha +
  fixes p :: ChainParams and U :: "Block set"
  assumes genesisIn: "GenesisBlock p \<in> U"
    and apart: "genesisApart p"
    and txInj: "inj_on (HashTransaction sha) (\<Union>b\<in>U. set (Transactions b))"
begin

lemma history_inv:
  assumes "history L p hs s" "lib_sha L = sha" "fst ` set hs \<subseteq> U" "length hs \<le> 2 ^ 32"
  shows "historyInv sha p hs s"
  using assms
proof (induction rule: history.induct)
  case genesis
  then show ?case using historyInv_genesis [OF apart] by simp
next
  case (extend hs s b undo s')
  have inj: "inj_on (HashTransaction sha) (txsOf hs \<union> set (Transactions b))"
    by (rule inj_on_subset [OF txInj]) (use extend.prems in \<open>auto simp: txsOf_def\<close>)
  show ?case
    using historyInv_extend [OF extend.IH extend.hyps(3) _ _ apart inj] extend.hyps extend.prems history_nonempty [OF extend.hyps(1)]
    by simp
qed

lemma history_disconnect:
  assumes h: "history L p hs s" and L: "lib_sha L = sha" and U: "fst ` set hs \<subseteq> U" "b \<in> U"
    and n: "length hs < 2 ^ 32" and v: "validBlock L p s (of_nat (length hs)) b"
    and c: "ConnectBlock sha s b (of_nat (length hs)) = (Inr undo, s')"
  shows "DisconnectBlock sha s' b undo = s"
proof -
  have inv: "historyInv sha p hs s" using history_inv [OF h L U(1)] n by simp
  have inj: "inj_on (HashTransaction sha) (txsOf hs \<union> set (Transactions b))"
    by (rule inj_on_subset [OF txInj]) (use U in \<open>auto simp: txsOf_def\<close>)
  note new = historyInv_new_keys [OF inv v history_nonempty [OF h] n apart inj]
  let ?adds = "fst ` set (blockAdds sha (of_nat (length hs)) (Transactions b))"
  have "?adds \<subseteq> keysOf sha (set (Transactions b))"
    by (rule blockAdds_keysOf)
  then have a: "?adds \<inter> dom s = {}" using new(2) by blast
  moreover have "set (blockSpends (Transactions b)) \<inter> ?adds = {}" using a new(3) by blast
  ultimately show ?thesis using Disconnect_Connect_iff [OF c] by blast
qed

end

section \<open>Sizes\<close>

definition wf_set :: "UtxoSet \<Rightarrow> bool" where
  "wf_set s \<longleftrightarrow> (\<forall>k e. s k = Some e \<longrightarrow> wf_entry e)"

lemma wf_set_upd: "wf_set s \<Longrightarrow> wf_entry e \<Longrightarrow> wf_set (s(k \<mapsto> e))"
  by (simp add: wf_set_def)

lemma wf_mkEntry: "wf_output out \<Longrightarrow> wf_entry (mkEntry h cb out)"
  by (simp add: mkEntry_def wf_entry_def wf_output_def)

lemma wf_set_genesisOutputs:
  "wf_set s \<Longrightarrow> list_all wf_output outs \<Longrightarrow> wf_set (genesisOutputs h cb outs i s)"
  by (induction h cb outs i s rule: genesisOutputs.induct) (simp_all add: Set_Add_def wf_set_upd wf_mkEntry)

lemma wf_set_genesis:
  "list_all wf_tx txs \<Longrightarrow> wf_set s \<Longrightarrow>
     wf_set (fold (\<lambda>tx s. genesisOutputs (HashTransaction sha tx) (IsCoinbase tx) (Outputs tx) 0 s) txs s)"
  by (induction txs arbitrary: s) (simp_all add: wf_tx_def wf_set_genesisOutputs)

lemma wf_set_empty: "wf_set NewSet"
  by (simp add: wf_set_def NewSet_def)

lemma wf_blockAdds: "(k, e) \<in> set (blockAdds sha h txs) \<Longrightarrow> list_all wf_tx txs \<Longrightarrow> wf_entry e"
  by (induction txs)
     (auto simp: txAdds_def wf_tx_def list_all_iff wf_mkEntry dest!: set_zip_rightD)

lemma length_blockSpends: "list_all wf_tx txs \<Longrightarrow> k \<in> set (blockSpends txs) \<Longrightarrow> length k = 36"
  by (induction txs)
     (auto simp: txSpends_def wf_tx_def wf_input_def list_all_iff OutpointKey_def wf_hash_def split: if_splits)

text \<open>Every input takes at least eight bytes, for its index and its sequence number.\<close>

lemma txSpends_size: "8 * length (txSpends tx) \<le> length (Tx_Serialize tx)"
proof -
  have "8 * length is \<le> length (concat (map TxInput_Serialize is))" for "is"
    by (induction "is") (simp_all add: TxInput_Serialize_def)
  from this [of "Inputs tx"] show ?thesis by (simp add: txSpends_def Tx_Serialize_def)
qed

lemma blockSpends_size: "8 * length (blockSpends (Transactions b)) \<le> length (Block_SerializeToBytes b)"
proof -
  have "8 * length (blockSpends txs) \<le> length (concat (map Tx_Serialize txs))" for txs
    using txSpends_size by (induction txs) (simp_all add: add_mono distrib_left)
  from this [of "Transactions b"] show ?thesis by (simp add: Block_SerializeToBytes_def Block_Serialize_def)
qed

section \<open>A history is determined by its last block\<close>

definition accepted :: "(bytes \<Rightarrow> bytes) \<Rightarrow> ChainParams \<Rightarrow> Block \<Rightarrow> bool" where
  "accepted sha p b \<longleftrightarrow> b = GenesisBlock p \<or> (\<exists>h. isOk (ValidateBlockStructure sha b h p))"

lemma structure_height:
  assumes "isOk (ValidateBlockStructure sha b h p)" "isOk (ValidateBlockStructure sha b h' p)" "h > 0" "h' > 0"
  shows "h = h'"
proof -
  have "isOk (validateCoinbaseScriptSig (SignatureScript (Inputs (Transactions b ! 0) ! 0)) k)"
    if "isOk (ValidateBlockStructure sha b k p)" "k > 0" for k
    using that ValidateBlockStructure_ok [of sha b k p] by (fastforce simp: isOk_iff)
  then show ?thesis using assms validateCoinbaseScriptSig_height by blast
qed

lemma genesis_not_higher:
  assumes "genesisApart p" "h > 0"
  shows "\<not> isOk (ValidateBlockStructure sha (GenesisBlock p) h p)"
proof
  assume "isOk (ValidateBlockStructure sha (GenesisBlock p) h p)"
  then obtain u where "ValidateBlockStructure sha (GenesisBlock p) h p = Inr u" by (auto simp: isOk_iff)
  from ValidateBlockStructure_ok [OF this] obtain cb txs where
    "Transactions (GenesisBlock p) = cb # txs" "isOk (validateCoinbaseScriptSig (SignatureScript (Inputs cb ! 0)) h)"
    using assms(2) by blast
  then show False using assms by (auto simp: genesisApart_def)
qed

locale block_universe = tx_universe sha p U for sha p U +
  assumes blockInj: "inj_on (blockHash sha) {b \<in> U. accepted sha p b}"
    and wfBlocks: "b \<in> U \<Longrightarrow> wf_block b \<and> length (Block_SerializeToBytes b) < 2 ^ 32"
    and sizeLimit: "MaxBlockSize p \<le> 8000000"
    and genesisRoot: "PrevBlock (Header (GenesisBlock p)) = ZeroHash"
    and noZero: "b \<in> U \<Longrightarrow> accepted sha p b \<Longrightarrow> blockHash sha b \<noteq> ZeroHash"
begin

lemma same_block:
  "b \<in> U \<Longrightarrow> b' \<in> U \<Longrightarrow> accepted sha p b \<Longrightarrow> accepted sha p b' \<Longrightarrow> blockHash sha b = blockHash sha b' \<Longrightarrow> b = b'"
  using blockInj by (auto dest: inj_onD)

lemma of_nat_pos: "hs \<noteq> [] \<Longrightarrow> length hs < 2 ^ 32 \<Longrightarrow> (of_nat (length hs) :: u32) > 0"
  by (simp add: word_less_nat_alt)

lemma extended_not_genesis:
  assumes "validBlock L p s (of_nat (length hs)) b" "hs \<noteq> []" "length hs < 2 ^ 32" "lib_sha L = sha"
  shows "b \<noteq> GenesisBlock p" "accepted sha p b"
  using assms genesis_not_higher [OF apart of_nat_pos [OF assms(2,3)], of sha] by (auto simp: validBlock_def accepted_def)

lemma history_accepted:
  assumes "history L p hs s" "lib_sha L = sha" "length hs \<le> 2 ^ 32"
  shows "accepted sha p (fst (last hs))"
  using assms(1)
proof (cases rule: history.cases)
  case genesis
  then show ?thesis by (simp add: accepted_def)
next
  case (extend hs' s' b undo)
  then show ?thesis using extended_not_genesis(2) [OF extend(4)] history_nonempty [OF extend(2)] assms(2,3) by simp
qed

lemma history_unique:
  assumes "history L p hs s" "history L p hs' s'" "lib_sha L = sha"
    and "fst ` set hs \<subseteq> U" "fst ` set hs' \<subseteq> U" "length hs \<le> 2 ^ 32" "length hs' \<le> 2 ^ 32"
    and "blockHash sha (fst (last hs)) = blockHash sha (fst (last hs'))"
  shows "hs = hs' \<and> s = s'"
  using assms
proof (induction arbitrary: hs' s' rule: history.induct)
  case genesis
  from genesis.prems(1) show ?case
  proof (cases rule: history.cases)
    case genesis
    then show ?thesis by simp
  next
    case (extend hs s b undo)
    have ne: "hs \<noteq> []" "length hs < 2 ^ 32" using extend(1,2) genesis.prems(6) history_nonempty by auto
    note e = extended_not_genesis [OF extend(4) ne genesis.prems(2)]
    have "b = GenesisBlock p"
      by (rule same_block) (use genesis.prems extend(1) e(2) in \<open>auto simp: accepted_def\<close>)
    then show ?thesis using e(1) by simp
  qed
next
  case (extend hs s b undo s1)
  have ne: "hs \<noteq> []" "length hs < 2 ^ 32" using extend.hyps(1) extend.prems(5) history_nonempty by auto
  note e = extended_not_genesis [OF extend.hyps(3) ne extend.prems(2)]
  note link = extend.hyps(2) and conn = extend.hyps(4) and IH = extend.IH
  from extend.prems(1) show ?case
  proof (cases rule: history.cases)
    case genesis
    have "b = GenesisBlock p"
      by (rule same_block) (use extend.prems genesis(1) e(2) in \<open>auto simp: accepted_def\<close>)
    then show ?thesis using e(1) by simp
  next
    case (extend hs2 s2 b2 undo2)
    have ne2: "hs2 \<noteq> []" "length hs2 < 2 ^ 32" using extend(1,2) \<open>length hs' \<le> 2 ^ 32\<close> history_nonempty by auto
    note e2 = extended_not_genesis [OF extend(4) ne2 \<open>lib_sha L = sha\<close>]
    have b: "b = b2"
      by (rule same_block) (use \<open>fst ` set (hs @ [(b, undo)]) \<subseteq> U\<close> \<open>fst ` set hs' \<subseteq> U\<close> extend(1) e(2) e2(2)
          \<open>blockHash sha (fst (last (hs @ [(b, undo)]))) = _\<close> in auto)
    have "hs = hs2 \<and> s = s2"
    proof (rule IH)
      show "history L p hs2 s2" by (rule extend(2))
      show "blockHash sha (fst (last hs)) = blockHash sha (fst (last hs2))"
        using link extend(3) b \<open>lib_sha L = sha\<close> by simp
    qed (use extend.prems extend in auto)
    then show ?thesis using conn extend b by auto
  qed
qed

lemma history_distinct:
  assumes h: "history L p hs s" "lib_sha L = sha" "fst ` set hs \<subseteq> U" "length hs \<le> 2 ^ 32"
    and ij: "i < length hs" "j < length hs" "blockHash sha (fst (hs ! i)) = blockHash sha (fst (hs ! j))"
  shows "i = j"
proof -
  obtain t t' where t: "history L p (take (Suc i) hs) t" "history L p (take (Suc j) hs) t'"
    using history_take [OF h(1)] ij(1,2) by (meson Suc_leI zero_less_Suc)
  have l: "last (take (Suc k) hs) = hs ! k" if "k < length hs" for k
    using that by (simp add: take_Suc_conv_app_nth)
  have "take (Suc i) hs = take (Suc j) hs"
    using history_unique [OF t h(2)] h(3,4) ij l by (auto dest: in_set_takeD)
  then have "length (take (Suc i) hs) = length (take (Suc j) hs)" by simp
  then show ?thesis using ij by simp
qed

text \<open>The scripts of a history are short, so that its undo data can be stored and read back.\<close>

lemma history_entries:
  assumes "history L p hs s" "lib_sha L = sha" "fst ` set hs \<subseteq> U"
  shows "wf_set s"
  using assms
proof (induction rule: history.induct)
  case genesis
  then show ?case using wfBlocks [OF genesisIn] by (simp add: ConnectGenesis_def wf_block_def wf_set_genesis wf_set_empty)
next
  case (extend hs s b undo s')
  have wf: "list_all wf_tx (Transactions b)" using extend.prems wfBlocks by (simp add: wf_block_def)
  show ?case using ConnectBlock_effect(1) [OF extend.hyps(4)] extend.IH extend.prems wf_blockAdds [OF _ wf]
    by (auto simp: wf_set_def applyBlock_def split: if_splits option.splits dest!: map_of_SomeD)
qed

lemma history_undo_readable:
  assumes h: "history L p hs s" and L: "lib_sha L = sha" and U: "fst ` set hs \<subseteq> U" "b \<in> U"
    and v: "validBlock L p s (of_nat (length hs)) b"
    and c: "ConnectBlock sha s b (of_nat (length hs)) = (Inr undo, s')"
  shows "DeserializeUndoData (SerializeUndoData undo) = Inr undo"
proof (rule DeserializeUndoData_Serialize)
  note eff = ConnectBlock_effect [OF c]
  have wf: "list_all wf_tx (Transactions b)" and small: "length (Block_SerializeToBytes b) < 2 ^ 32"
    using wfBlocks [OF U(2)] by (simp_all add: wf_block_def)
  show "list_all wf_spent undo"
  proof (unfold list_all_iff, rule ballI)
    fix so assume so: "so \<in> set undo"
    have "set (blockSpends (Transactions b)) = soKey ` set undo" using arg_cong [OF eff(2), of set] by simp
    with so have "soKey so \<in> set (blockSpends (Transactions b))" by simp
    then have "length (soKey so) = 36" by (rule length_blockSpends [OF wf])
    moreover have "wf_entry (so_Entry so)"
    proof (cases "s (soKey so) = Some (so_Entry so)")
      case True
      then show ?thesis using history_entries [OF h L U(1)] unfolding wf_set_def by blast
    next
      case False
      then show ?thesis using eff(4) so wf_blockAdds [OF _ wf] by blast
    qed
    ultimately show "wf_spent so" by (simp add: wf_spent_def OutpointKey_def wf_hash_def)
  qed
  have "\<not> (of_nat (length (Block_SerializeToBytes b)) :: u32) > MaxBlockSize p"
    using v L by (auto simp: validBlock_def ValidateBlockStructure_def isOk_iff res_simps Let_def split: if_splits)
  then have "length (Block_SerializeToBytes b) \<le> unat (MaxBlockSize p)"
    using small by (simp add: word_less_nat_alt)
  also have "\<dots> \<le> 8000000" using sizeLimit by (simp add: word_le_nat_alt)
  finally have "8 * length (blockSpends (Transactions b)) \<le> 8000000"
    using blockSpends_size [of b] by linarith
  moreover have "length undo = length (blockSpends (Transactions b))" using arg_cong [OF eff(2), of length] by simp
  ultimately show "length undo \<le> 1000000" by linarith
qed

end

end
