(* ===== verification/Chain_Inv.thy ===== *)
theory Chain_Inv
  imports Chain Store_Contract History
begin

text \<open>
  The invariant of the chain manager. The store's index describes a tree of blocks: every record
  leads to the stored block, its height and work follow from its parent's record, and its undo
  location, if it has one, holds the undo data of the block. The state in memory describes one
  branch of that tree, the active chain, as a \<open>history\<close> whose set is \<open>utxoSet\<close>.
\<close>

section \<open>The block tree in the store\<close>

text \<open>The height and total work of a block, from the record of its parent.\<close>

definition placed :: "('sg, 'pk, 'sk, 's) chain_env \<Rightarrow> 's \<Rightarrow> Block \<Rightarrow> u32 \<Rightarrow> int \<Rightarrow> bool" where
  "placed E s b h w \<longleftrightarrow>
     (if b = GenesisBlock (en_params E) then h = 0 \<and> w = CalcWork (Bits (Header b))
      else isOk (ValidateBlockStructure (en_sha E) b h (en_params E)) \<and>
        (\<exists>prec w'. st_GetBlockIndex (en_store E) s (PrevBlock (Header b)) = Inr prec
           \<and> unat h = Suc (unat (di_Height prec)) \<and> di_ChainWork prec = Some w'
           \<and> w = w' + CalcWork (Bits (Header b))))"

definition sited :: "('sg, 'pk, 'sk, 's) chain_env \<Rightarrow> Block set \<Rightarrow> nat \<Rightarrow> 's \<Rightarrow> hash \<Rightarrow> u32 \<Rightarrow> int \<Rightarrow> bool" where
  "sited E U n s x h w \<longleftrightarrow> (\<exists>b\<in>U. accepted (en_sha E) (en_params E) b \<and> blockHash (en_sha E) b = x
     \<and> placed E s b h w \<and> unat h \<le> n \<and> 0 \<le> w)"

definition undoStored :: "('sg, 'pk, 'sk, 's) chain_env \<Rightarrow> Block set \<Rightarrow> 's \<Rightarrow> hash \<Rightarrow> DiskBlockIndex \<Rightarrow> bool" where
  "undoStored E U s x rec \<longleftrightarrow> di_Status rec AND StatusHaveUndo = 0 \<or>
     (\<forall>hs b u t. history (en_lib E) (en_params E) (hs @ [(b, u)]) t \<and> blockHash (en_sha E) b = x
        \<and> fst ` set (hs @ [(b, u)]) \<subseteq> U \<and> length hs < 2 ^ 32
        \<longrightarrow> st_ReadUndo (en_store E) s (di_UndoFile rec) (di_UndoPos rec) (di_UndoSize rec) = Inr (SerializeUndoData u))"

definition recOk :: "('sg, 'pk, 'sk, 's) chain_env \<Rightarrow> Block set \<Rightarrow> nat \<Rightarrow> 's \<Rightarrow> hash \<Rightarrow> DiskBlockIndex \<Rightarrow> bool" where
  "recOk E U n s x rec \<longleftrightarrow> (\<exists>b\<in>U. \<exists>w. accepted (en_sha E) (en_params E) b \<and> blockHash (en_sha E) b = x
     \<and> di_Header rec = Header b \<and> di_Status rec AND StatusHaveData \<noteq> 0
     \<and> st_ReadBlock (en_store E) s (di_FileNum rec) (di_DataPos rec) (di_DataSize rec) = Inr b
     \<and> di_ChainWork rec = Some w \<and> placed E s b (di_Height rec) w \<and> unat (di_Height rec) \<le> n \<and> 0 \<le> w
     \<and> undoStored E U s x rec)"

definition indexOk :: "('sg, 'pk, 'sk, 's) chain_env \<Rightarrow> Block set \<Rightarrow> nat \<Rightarrow> 's \<Rightarrow> bool" where
  "indexOk E U n s \<longleftrightarrow> (\<forall>x rec. st_GetBlockIndex (en_store E) s x = Inr rec \<longrightarrow> recOk E U n s x rec)"

text \<open>Heights and works that a later store keeps.\<close>

definition keepsIndex :: "('sg, 'pk, 'sk, 's) chain_env \<Rightarrow> 's \<Rightarrow> 's \<Rightarrow> bool" where
  "keepsIndex E s s' \<longleftrightarrow> (\<forall>x rec. st_GetBlockIndex (en_store E) s x = Inr rec \<longrightarrow>
     (\<exists>rec'. st_GetBlockIndex (en_store E) s' x = Inr rec' \<and> di_Height rec' = di_Height rec
        \<and> di_ChainWork rec' = di_ChainWork rec))"

lemma keepsIndex_refl [simp]: "keepsIndex E s s"
  by (simp add: keepsIndex_def)

lemma keepsIndex_trans: "keepsIndex E s s' \<Longrightarrow> keepsIndex E s' s'' \<Longrightarrow> keepsIndex E s s''"
  unfolding keepsIndex_def by metis

lemma keepsIndex_same: "sameIndex (en_store E) s s' \<Longrightarrow> keepsIndex E s s'"
  by (simp add: sameIndex_def keepsIndex_def)

lemma placed_keeps:
  assumes "placed E s b h w" "keepsIndex E s s'"
  shows "placed E s' b h w"
proof (cases "b = GenesisBlock (en_params E)")
  case True
  then show ?thesis using assms(1) by (simp add: placed_def)
next
  case False
  then obtain prec w' where p: "st_GetBlockIndex (en_store E) s (PrevBlock (Header b)) = Inr prec"
    "unat h = Suc (unat (di_Height prec))" "di_ChainWork prec = Some w'" "w = w' + CalcWork (Bits (Header b))"
    "isOk (ValidateBlockStructure (en_sha E) b h (en_params E))"
    using assms(1) by (auto simp: placed_def)
  obtain prec' where "st_GetBlockIndex (en_store E) s' (PrevBlock (Header b)) = Inr prec'"
    "di_Height prec' = di_Height prec" "di_ChainWork prec' = di_ChainWork prec"
    using assms(2) p(1) unfolding keepsIndex_def by blast
  then show ?thesis using False p by (simp add: placed_def)
qed

lemma sited_keeps:
  assumes "sited E U n s x h w" "keepsIndex E s s'" "n \<le> m"
  shows "sited E U m s' x h w"
proof -
  obtain b where b: "b \<in> U" "accepted (en_sha E) (en_params E) b" "blockHash (en_sha E) b = x" "placed E s b h w" "unat h \<le> n" "0 \<le> w"
    using assms(1) by (auto simp: sited_def)
  with placed_keeps [OF b(4) assms(2)] assms(3) show ?thesis by (auto simp: sited_def)
qed

lemma recOk_sited: "recOk E U n s x rec \<Longrightarrow> di_ChainWork rec = Some w \<Longrightarrow> sited E U n s x (di_Height rec) w"
  by (auto simp: recOk_def sited_def)

lemma recOk_mono: "recOk E U n s x rec \<Longrightarrow> n \<le> m \<Longrightarrow> recOk E U m s x rec"
  by (fastforce simp: recOk_def)

lemma indexOk_mono: "indexOk E U n s \<Longrightarrow> n \<le> m \<Longrightarrow> indexOk E U m s"
  by (auto simp: indexOk_def intro: recOk_mono)

lemma undoStored_keeps:
  assumes "undoStored E U s x rec" "keepsFiles (en_store E) s s'"
  shows "undoStored E U s' x rec"
  using assms unfolding undoStored_def keepsFiles_def by blast

lemma recOk_keeps:
  assumes "recOk E U n s x rec" "keepsIndex E s s'" "keepsFiles (en_store E) s s'"
  shows "recOk E U n s' x rec"
proof -
  from assms(1) obtain b w where b: "b \<in> U" "accepted (en_sha E) (en_params E) b" "blockHash (en_sha E) b = x"
    "di_Header rec = Header b" "di_Status rec AND StatusHaveData \<noteq> 0"
    "st_ReadBlock (en_store E) s (di_FileNum rec) (di_DataPos rec) (di_DataSize rec) = Inr b"
    "di_ChainWork rec = Some w" "placed E s b (di_Height rec) w" "unat (di_Height rec) \<le> n" "0 \<le> w" "undoStored E U s x rec"
    unfolding recOk_def by blast
  moreover have "st_ReadBlock (en_store E) s' (di_FileNum rec) (di_DataPos rec) (di_DataSize rec) = Inr b"
    using b(6) assms(3) unfolding keepsFiles_def by blast
  ultimately show ?thesis unfolding recOk_def
    using placed_keeps [OF b(8) assms(2)] undoStored_keeps [OF b(11) assms(3)] by blast
qed

lemma indexOk_keeps:
  assumes "indexOk E U n s" "sameIndex (en_store E) s s'" "keepsFiles (en_store E) s s'"
  shows "indexOk E U n s'"
  using assms recOk_keeps [OF _ keepsIndex_same [OF assms(2)] assms(3)]
  unfolding indexOk_def by (simp add: sameIndex_def)

section \<open>The active chain\<close>

definition chainWork :: "(Block \<times> BlockUndoData) list \<Rightarrow> int" where
  "chainWork hs = (\<Sum>h\<leftarrow>hs. CalcWork (Bits (Header (fst h))))"

lemma chainWork_simps [simp]:
  "chainWork [] = 0" "chainWork (hs @ hs') = chainWork hs + chainWork hs'" "chainWork (h # hs) = CalcWork (Bits (Header (fst h))) + chainWork hs"
  by (simp_all add: chainWork_def)

lemma chainWork_nonneg: "0 \<le> chainWork hs"
  by (induction hs) (simp_all add: chainWork_def CalcWork_nonneg)

definition heightMap :: "(bytes \<Rightarrow> bytes) \<Rightarrow> (Block \<times> BlockUndoData) list \<Rightarrow> u32 \<rightharpoonup> hash" where
  "heightMap sha hs h = (if unat h < length hs then Some (blockHash sha (fst (hs ! unat h))) else None)"

text \<open>The maps describe the chain \<open>hs\<close> and the set is the one it leads to.\<close>

definition branch :: "('sg, 'pk, 'sk, 's) chain_env \<Rightarrow> Block set \<Rightarrow> (Block \<times> BlockUndoData) list \<Rightarrow> 's Chain \<Rightarrow> bool" where
  "branch E U hs c \<longleftrightarrow> history (en_lib E) (en_params E) hs (ch_utxoSet c)
     \<and> fst ` set hs \<subseteq> U \<and> length hs \<le> 2 ^ 32
     \<and> ch_hashByHeight c = heightMap (en_sha E) hs
     \<and> (\<forall>i<length hs. ch_heightByHash c (blockHash (en_sha E) (fst (hs ! i))) = Some (of_nat i))"

definition activeChain :: "('sg, 'pk, 'sk, 's) chain_env \<Rightarrow> Block set \<Rightarrow> (Block \<times> BlockUndoData) list \<Rightarrow> 's Chain \<Rightarrow> bool" where
  "activeChain E U hs c \<longleftrightarrow> branch E U hs c
     \<and> ch_tipHash c = blockHash (en_sha E) (fst (last hs)) \<and> ch_tipHeight c = of_nat (length hs - 1)
     \<and> ch_tipWork c = chainWork hs"

lemmas active_defs = activeChain_def branch_def

definition chainInv :: "('sg, 'pk, 'sk, 's) chain_env \<Rightarrow> ('s \<Rightarrow> bool) \<Rightarrow> Block set \<Rightarrow> nat \<Rightarrow> 's Chain \<Rightarrow> bool" where
  "chainInv E good U n c \<longleftrightarrow> good (ch_store c) \<and> indexOk E U n (ch_store c)
     \<and> (\<forall>x h. ch_heightByHash c x = Some h \<longrightarrow> (\<exists>w. sited E U n (ch_store c) x h w))
     \<and> (\<exists>hs. activeChain E U hs c)"

lemma chainInv_store:
  assumes "chainInv E good U n c" "n \<le> m" "good s'" "indexOk E U m s'" "keepsIndex E (ch_store c) s'"
  shows "chainInv E good U m (c\<lparr>ch_store := s'\<rparr>)"
proof -
  have "\<exists>w. sited E U m s' x h w" if hx: "ch_heightByHash c x = Some h" for x h
  proof -
    obtain w where "sited E U n (ch_store c) x h w" using assms(1) hx by (auto simp: chainInv_def)
    then show ?thesis using sited_keeps [OF _ assms(5,2)] by blast
  qed
  then show ?thesis using assms unfolding chainInv_def active_defs by simp
qed

lemma chainInv_same:
  assumes "chainInv E good U n c" "sameIndex (en_store E) (ch_store c) s'" "keepsFiles (en_store E) (ch_store c) s'" "good s'"
  shows "chainInv E good U n (c\<lparr>ch_store := s'\<rparr>)"
proof (rule chainInv_store [OF assms(1) order_refl assms(4)])
  show "indexOk E U n s'" using indexOk_keeps [OF _ assms(2,3)] assms(1) by (simp add: chainInv_def)
  show "keepsIndex E (ch_store c) s'" by (rule keepsIndex_same [OF assms(2)])
qed

lemma chainInv_mono:
  assumes "chainInv E good U n c" "n \<le> m"
  shows "chainInv E good U m c"
proof -
  have "indexOk E U m (ch_store c)" 
    by (rule indexOk_mono [OF _ assms(2)]) (use assms(1) in \<open>simp add: chainInv_def\<close>)
  from chainInv_store [OF assms _ this keepsIndex_refl] assms(1) show ?thesis by (simp add: chainInv_def)
qed

section \<open>The manager over a store that keeps its contract\<close>

locale chain_manager = block_store "en_store E" good fits cs + block_universe "en_sha E" "en_params E" U
  for E :: "('sg, 'pk, 'sk, 's) chain_env" and good fits cs U +
  assumes engine: "en_engine E = powEngine (en_sha E)"
    and storableBlocks: "b \<in> U \<Longrightarrow> storable b"
    and work: "b \<in> U \<Longrightarrow> 0 < CalcWork (Bits (Header b))"
    and tipWrites: "st_PutChainTip (en_store E) s h k = (r, s') \<Longrightarrow> r = Inr ()"
begin

lemma sited_unique:
  assumes "indexOk E U n s" "sited E U n s x h w" "sited E U m s x h' w'"
  shows "h = h' \<and> w = w'"
proof -
  obtain b where b: "b \<in> U" "accepted (en_sha E) (en_params E) b" "blockHash (en_sha E) b = x" "placed E s b h w"
    using assms(2) by (auto simp: sited_def)
  obtain b' where b': "b' \<in> U" "accepted (en_sha E) (en_params E) b'" "blockHash (en_sha E) b' = x" "placed E s b' h' w'"
    using assms(3) by (auto simp: sited_def)
  have "b = b'" by (rule same_block) (use b b' in auto)
  then show ?thesis using b(4) b'(4) by (auto simp: placed_def word_unat_eq_iff split: if_splits)
qed

text \<open>A block in the index, read back.\<close>

lemma recOk_block:
  assumes "indexOk E U n s" "st_GetBlock (en_store E) s x = Inr b"
  shows "b \<in> U" "accepted (en_sha E) (en_params E) b" "blockHash (en_sha E) b = x" "\<exists>h w. placed E s b h w \<and> unat h \<le> n \<and> 0 \<le> w"
proof -
  obtain rec where r: "st_GetBlockIndex (en_store E) s x = Inr rec" "di_Status rec AND StatusHaveData \<noteq> 0"
    "st_ReadBlock (en_store E) s (di_FileNum rec) (di_DataPos rec) (di_DataSize rec) = Inr b"
    using assms(2) by (auto simp: getBlock res_simps split: if_splits)
  have "recOk E U n s x rec" using assms(1) r(1) by (simp add: indexOk_def)
  then show "b \<in> U" "accepted (en_sha E) (en_params E) b" "blockHash (en_sha E) b = x" "\<exists>h w. placed E s b h w \<and> unat h \<le> n \<and> 0 \<le> w"
    using r(3) by (auto simp: recOk_def)
qed

text \<open>
  The index places a child of the last block of a history one above it, and by induction the last
  block of a history where the history has it.
\<close>

lemma placed_child:
  assumes h: "history (en_lib E) (en_params E) hs t" "fst ` set hs \<subseteq> U" "length hs \<le> 2 ^ 32" and ix: "indexOk E U n s"
    and b: "b \<noteq> GenesisBlock (en_params E)" "placed E s b h w" "PrevBlock (Header b) = blockHash (en_sha E) (fst (last hs))"
    and IH: "\<And>h w. placed E s (fst (last hs)) h w \<Longrightarrow> unat h = length hs - 1 \<and> w = chainWork hs"
  shows "unat h = length hs" "w = chainWork hs + CalcWork (Bits (Header b))"
proof -
  from b obtain prec w' where p: "st_GetBlockIndex (en_store E) s (PrevBlock (Header b)) = Inr prec"
    "unat h = Suc (unat (di_Height prec))" "di_ChainWork prec = Some w'" "w = w' + CalcWork (Bits (Header b))"
    by (auto simp: placed_def)
  have "recOk E U n s (PrevBlock (Header b)) prec" using ix p(1) by (simp add: indexOk_def)
  then obtain b' where b': "b' \<in> U" "accepted (en_sha E) (en_params E) b'" "blockHash (en_sha E) b' = PrevBlock (Header b)"
    "placed E s b' (di_Height prec) w'"
    using p(3) by (auto simp: recOk_def)
  have "fst (last hs) \<in> U" using h(2) history_nonempty [OF h(1)] by auto
  then have "b' = fst (last hs)"
    by (intro same_block) (use b' b(3) history_accepted [OF h(1) refl h(3)] in auto)
  then have "unat (di_Height prec) = length hs - 1 \<and> w' = chainWork hs" using IH b'(4) by simp
  then show "unat h = length hs" "w = chainWork hs + CalcWork (Bits (Header b))"
    using p history_nonempty [OF h(1)] by auto
qed

lemma history_placed:
  assumes "history (en_lib E) (en_params E) hs t" "fst ` set hs \<subseteq> U" "length hs \<le> 2 ^ 32"
    and "indexOk E U n s" "placed E s (fst (last hs)) h w"
  shows "unat h = length hs - 1 \<and> w = chainWork hs"
  using assms
proof (induction arbitrary: h w rule: history.induct)
  case genesis
  then show ?case by (simp add: placed_def)
next
  case (extend hs t b u t')
  have ne: "hs \<noteq> []" "length hs < 2 ^ 32" using extend.hyps(1) extend.prems(2) history_nonempty by auto
  have "b \<noteq> GenesisBlock (en_params E)" by (rule extended_not_genesis [OF extend.hyps(3) ne refl])
  then have "unat h = length hs" "w = chainWork hs + CalcWork (Bits (Header b))"
    using placed_child [OF extend.hyps(1) _ _ extend.prems(3) _ _ extend.hyps(2)] extend by auto
  then show ?case by simp
qed

section \<open>Writing the index and the undo files\<close>

lemma index_put:
  assumes ix: "indexOk E U n s" "n \<le> m" and rec: "recOk E U m s x rec"
    and put: "st_PutBlockIndex (en_store E) s x rec = (r, s')"
  shows "indexOk E U m s'" "keepsIndex E s s'" "r = Inr () \<Longrightarrow> st_GetBlockIndex (en_store E) s' x = Inr rec"
    "keepsFiles (en_store E) s s'" "good s' = good s" "fits s' = fits s"
proof -
  note law = putIndex [OF put]
  from rec obtain b w where b: "b \<in> U" "di_Header rec = Header b" "di_ChainWork rec = Some w" "0 \<le> w"
    by (auto simp: recOk_def)
  have "wf_record rec" using b wfBlocks [OF b(1)] by (simp add: wf_record_def wf_block_def)
  then show new: "r = Inr () \<Longrightarrow> st_GetBlockIndex (en_store E) s' x = Inr rec" using law by simp
  show kf: "keepsFiles (en_store E) s s'" "good s' = good s" "fits s' = fits s" using law by simp_all
  have old: "st_GetBlockIndex (en_store E) s' y = st_GetBlockIndex (en_store E) s y" if "y \<noteq> x \<or> r \<noteq> Inr ()" for y
    using law that by blast
  have same: "di_Height rec = di_Height q \<and> di_ChainWork rec = di_ChainWork q" if "st_GetBlockIndex (en_store E) s x = Inr q" for q
  proof -
    have "recOk E U n s x q" using ix(1) that by (simp add: indexOk_def)
    moreover from this obtain w' where "di_ChainWork q = Some w'" by (auto simp: recOk_def)
    ultimately have "sited E U n s x (di_Height q) w'" by (simp add: recOk_sited)
    from sited_unique [OF ix(1) this recOk_sited [OF rec b(3)]] show ?thesis using b(3) \<open>di_ChainWork q = Some w'\<close> by simp
  qed
  show keeps: "keepsIndex E s s'"
    unfolding keepsIndex_def
  proof (intro allI impI)
    fix y q assume q: "st_GetBlockIndex (en_store E) s y = Inr q"
    show "\<exists>rec'. st_GetBlockIndex (en_store E) s' y = Inr rec' \<and> di_Height rec' = di_Height q \<and> di_ChainWork rec' = di_ChainWork q"
    proof (cases "y \<noteq> x \<or> r \<noteq> Inr ()")
      case True
      then show ?thesis using old q by simp
    next
      case False
      then show ?thesis using new same q by auto
    qed
  qed
  show "indexOk E U m s'"
    unfolding indexOk_def
  proof (intro allI impI)
    fix y q assume q: "st_GetBlockIndex (en_store E) s' y = Inr q"
    have "recOk E U m s y q"
    proof (cases "y \<noteq> x \<or> r \<noteq> Inr ()")
      case True
      then have "recOk E U n s y q" using old q ix(1) by (simp add: indexOk_def)
      then show ?thesis by (rule recOk_mono [OF _ ix(2)])
    next
      case False
      then show ?thesis using new q rec by auto
    qed
    then show "recOk E U m s' y q" using recOk_keeps keeps kf(1) by metis
  qed
qed

lemma status_bits:
  "(a OR (StatusHaveUndo OR StatusValidTx)) AND StatusHaveData = a AND StatusHaveData"
  by (simp add: StatusHaveUndo_def StatusValidTx_def StatusHaveData_def bit.conj_disj_distrib2)

lemma newRecord_status:
  "di_Status (newRecord b h loc w) AND StatusHaveUndo = 0" "di_Status (newRecord b h loc w) AND StatusHaveData \<noteq> 0"
  by (simp_all add: newRecord_def StatusHaveUndo_def StatusHaveData_def StatusValidHeader_def split: prod.splits)

lemma newRecord_fields [simp]:
  "di_Header (newRecord b h loc w) = Header b" "di_Height (newRecord b h loc w) = h" "di_ChainWork (newRecord b h loc w) = Some w"
  "di_FileNum (newRecord b h (f, p, z) w) = f" "di_DataPos (newRecord b h (f, p, z) w) = p" "di_DataSize (newRecord b h (f, p, z) w) = z"
  by (simp_all add: newRecord_def split: prod.splits)

text \<open>Undo data written for a block is the undo data of the only history that ends with it.\<close>

lemma withUndo_ok:
  assumes rec: "recOk E U n s x rec" and h: "history (en_lib E) (en_params E) (hs @ [(b, u)]) t"
    and x: "blockHash (en_sha E) b = x" and U: "fst ` set (hs @ [(b, u)]) \<subseteq> U" and len: "length hs < 2 ^ 32"
    and rd: "st_ReadUndo (en_store E) s f p sz = Inr (SerializeUndoData u)"
  shows "recOk E U n s x (withUndo rec f p sz)"
proof -
  have "u' = u" if "history (en_lib E) (en_params E) (hs' @ [(b', u')]) t'" "blockHash (en_sha E) b' = x"
    "fst ` set (hs' @ [(b', u')]) \<subseteq> U" "length hs' < 2 ^ 32" for hs' b' u' t'
    using history_unique [OF that(1) h refl that(3) U] that(2,4) x len by simp
  then have "undoStored E U s x (withUndo rec f p sz)"
    using rd by (auto simp: undoStored_def withUndo_def)
  then show ?thesis using rec by (auto simp: recOk_def withUndo_def status_bits)
qed

lemma write_undo:
  assumes w: "st_WriteUndo (en_store E) s f u = (r, s')" and g: "good s" "fits s'"
  shows "keepsFiles (en_store E) s s'" "sameIndex (en_store E) s s'" "good s'" "fits s"
    "r = Inr (p, sz) \<Longrightarrow> st_ReadUndo (en_store E) s' f p sz = Inr u"
  using writeUndo [OF w] g by auto

section \<open>A block that passed its checks\<close>

lemma checkBlock_ok:
  assumes inv: "chainInv E good U n c" and ph: "ch_heightByHash c (PrevBlock (Header b)) = Some ph"
    and ck: "checkBlock E c now b ph = Inr w" and n: "n < 2 ^ 32 - 1"
  shows "placed E (ch_store c) b (ph + 1) w" "unat (ph + 1) = Suc (unat ph)" "unat ph \<le> n" "0 \<le> w"
    "accepted (en_sha E) (en_params E) b"
proof -
  let ?s = "ch_store c"
  have ix: "indexOk E U n ?s" using inv by (simp add: chainInv_def)
  obtain w0 where s0: "sited E U n ?s (PrevBlock (Header b)) ph w0" using inv ph by (auto simp: chainInv_def)
  from ck obtain w' where st: "isOk (ValidateBlockStructure (en_sha E) b (ph + 1) (en_params E))"
    and pw: "workForParentChain E c (PrevBlock (Header b)) = Inr w'" and w: "w = w' + CalcWork (Bits (Header b))"
    by (auto simp: checkBlock_def res_simps Let_def engine powEngine_def ValidateBlock_def isOk_iff)
  from pw obtain prec where prec: "st_GetBlockIndex (en_store E) ?s (PrevBlock (Header b)) = Inr prec" "di_ChainWork prec = Some w'"
    by (auto simp: workForParentChain_def split: sum.splits option.splits)
  have "recOk E U n ?s (PrevBlock (Header b)) prec" using ix prec(1) by (simp add: indexOk_def)
  from recOk_sited [OF this prec(2)] have s1: "sited E U n ?s (PrevBlock (Header b)) (di_Height prec) w'" .
  have h: "di_Height prec = ph" using sited_unique [OF ix s1 s0] by simp
  have "unat ph \<le> n" "0 \<le> w'" using s1 h by (auto simp: sited_def)
  then show "unat ph \<le> n" "0 \<le> w" using w CalcWork_nonneg [of "Bits (Header b)"] by simp_all
  then show u: "unat (ph + 1) = Suc (unat ph)" using n by (simp add: unat_word_ariths)
  then have "ph + 1 > 0" by (simp add: word_less_nat_alt)
  from genesis_not_higher [OF apart this] st have "b \<noteq> GenesisBlock (en_params E)" by auto
  then show "placed E ?s b (ph + 1) w" using st prec w h u by (auto simp: placed_def)
  show "accepted (en_sha E) (en_params E) b" using st by (auto simp: accepted_def)
qed

lemma newRecord_ok:
  assumes inv: "chainInv E good U n c" and ph: "ch_heightByHash c (PrevBlock (Header b)) = Some ph"
    and ck: "checkBlock E c now b ph = Inr w" and n: "n < 2 ^ 32 - 1" and b: "b \<in> U"
    and wr: "st_WriteBlock (en_store E) (ch_store c) (blockHash (en_sha E) b) b = (rb, s')" and f: "fits s'"
  shows "chainInv E good U n (c\<lparr>ch_store := s'\<rparr>)" "fits (ch_store c)"
    "rb = Inr loc \<Longrightarrow> recOk E U (Suc n) s' (blockHash (en_sha E) b) (newRecord b (ph + 1) loc w)"
proof -
  note ok = checkBlock_ok [OF inv ph ck n]
  note law = writeBlock [OF wr]
  have g: "good (ch_store c)" and ix: "indexOk E U n (ch_store c)" using inv by (simp_all add: chainInv_def)
  have keeps: "keepsIndex E (ch_store c) s'" using law by (simp add: keepsIndex_same)
  have good': "good s'" and read: "\<And>f p n. rb = Inr (f, p, n) \<Longrightarrow> st_ReadBlock (en_store E) s' f p n = Inr b"
    using law g f storableBlocks [OF b] by blast+
  have "indexOk E U n s'" using indexOk_keeps [OF ix] law by simp
  then show "chainInv E good U n (c\<lparr>ch_store := s'\<rparr>)" by (intro chainInv_store [OF inv _ good']) (simp_all add: keeps)
  show "fits (ch_store c)" using law f by blast
  assume "rb = Inr loc"
  then show "recOk E U (Suc n) s' (blockHash (en_sha E) b) (newRecord b (ph + 1) loc w)"
    using b ok read placed_keeps [OF ok(1) keeps] newRecord_status [of b "ph + 1" loc w]
    by (cases loc) (auto simp: recOk_def undoStored_def)
qed

section \<open>Extending the active chain\<close>

lemma branch_extend:
  assumes a: "branch E U hs c" and h: "history (en_lib E) (en_params E) (hs @ [(b, u)]) t"
    and b: "b \<in> U" and len: "length hs < 2 ^ 32" and nh: "unat nh = length hs"
    and c': "ch_utxoSet c' = t" "ch_heightByHash c' = (ch_heightByHash c)(blockHash (en_sha E) b \<mapsto> nh)"
      "ch_hashByHeight c' = (ch_hashByHeight c)(nh \<mapsto> blockHash (en_sha E) b)"
  shows "branch E U (hs @ [(b, u)]) c'"
proof -
  let ?hs = "hs @ [(b, u)]"
  have U: "fst ` set ?hs \<subseteq> U" using a b by (auto simp: branch_def)
  have nh': "nh = of_nat (length hs)" using nh by (simp flip: nh)
  have ne: "blockHash (en_sha E) (fst (hs ! i)) \<noteq> blockHash (en_sha E) b" if "i < length hs" for i
    using history_distinct [OF h refl U, of i "length hs"] that len by (auto simp: nth_append)
  have "ch_heightByHash c' (blockHash (en_sha E) (fst (?hs ! i))) = Some (of_nat i)" if "i < length ?hs" for i
  proof (cases "i < length hs")
    case True
    then show ?thesis using a ne [OF True] by (simp add: c' branch_def nth_append)
  next
    case False
    then have "i = length hs" using that by simp
    then show ?thesis by (simp add: c' nh' nth_append)
  qed
  moreover have "ch_hashByHeight c' = heightMap (en_sha E) ?hs"
  proof
    fix k show "ch_hashByHeight c' k = heightMap (en_sha E) ?hs k"
      using a nh word_unat_eq_iff [of k nh] by (auto simp: c' branch_def heightMap_def nth_append)
  qed
  ultimately show ?thesis using h U len c'(1) by (simp add: branch_def)
qed

lemma restore_utxo [simp]: "c\<lparr>ch_store := s, ch_utxoSet := ch_utxoSet c\<rparr> = c\<lparr>ch_store := s\<rparr>"
  by (cases c) simp

lemma inv_good: "chainInv E good U n c \<Longrightarrow> good (ch_store c)"
  by (simp add: chainInv_def)

lemma indexOk_inv: "chainInv E good U n c \<Longrightarrow> indexOk E U n (ch_store c)"
  by (simp add: chainInv_def)

text \<open>A stored child of a chain stands one above it, and connecting it extends the history.\<close>

lemma child_height:
  assumes h: "history (en_lib E) (en_params E) hs s" "fst ` set hs \<subseteq> U" "length hs \<le> 2 ^ 32"
    and ix: "indexOk E U n st" and pl: "placed E st b nh w"
    and prev: "PrevBlock (Header b) = blockHash (en_sha E) (fst (last hs))"
  shows "b \<noteq> GenesisBlock (en_params E)" "unat nh = length hs" "w = chainWork hs + CalcWork (Bits (Header b))"
    "length hs < 2 ^ 32" "nh = of_nat (length hs)"
proof -
  have "fst (last hs) \<in> U" using h(2) history_nonempty [OF h(1)] by auto
  then have "PrevBlock (Header b) \<noteq> ZeroHash" using noZero history_accepted [OF h(1) refl h(3)] prev by simp
  then show ng: "b \<noteq> GenesisBlock (en_params E)" using genesisRoot by auto
  note pc = placed_child [OF h ix ng pl prev history_placed [OF h ix]]
  show "unat nh = length hs" "w = chainWork hs + CalcWork (Bits (Header b))" using pc by simp_all
  show "length hs < 2 ^ 32" using pc(1) u32_bound [of nh] by simp
  show "nh = of_nat (length hs)" by (simp flip: pc(1))
qed

lemma connect_child:
  assumes h: "history (en_lib E) (en_params E) hs s" "fst ` set hs \<subseteq> U" "length hs \<le> 2 ^ 32"
    and ix: "indexOk E U n st" and b: "b \<in> U" "placed E st b nh w"
    and prev: "PrevBlock (Header b) = blockHash (en_sha E) (fst (last hs))"
    and v: "ValidateTransactionInputs (en_lib E) b s nh (en_params E) = Inr fees"
  obtains undo t where "ConnectBlock (en_sha E) s b nh = (Inr undo, t)" "history (en_lib E) (en_params E) (hs @ [(b, undo)]) t"
    "DisconnectBlock (en_sha E) t b undo = s"
proof -
  note ch = child_height [OF h ix b(2) prev]
  have vb: "validBlock (en_lib E) (en_params E) s (of_nat (length hs)) b"
    using v b(2) ch(1,5) by (auto simp: validBlock_def isOk_iff placed_def)
  obtain undo t where ct: "ConnectBlock (en_sha E) s b nh = (Inr undo, t)"
    using validBlock_connects [of "en_lib E" b s nh "en_params E" "en_sha E"] v by (auto simp: isOk_iff)
  note ct' = ct [unfolded ch(5)]
  show ?thesis
  proof (rule that [OF ct])
    show "history (en_lib E) (en_params E) (hs @ [(b, undo)]) t" by (rule history.extend [OF h(1) prev vb ct'])
    show "DisconnectBlock (en_sha E) t b undo = s" by (rule history_disconnect [OF h(1) refl h(2) b(1) ch(4) vb ct'])
  qed
qed

lemma recOk_placed:
  assumes "recOk E U n s (blockHash (en_sha E) b) rec" "b \<in> U" "accepted (en_sha E) (en_params E) b"
  shows "\<exists>w. di_ChainWork rec = Some w \<and> placed E s b (di_Height rec) w"
proof -
  from assms(1) obtain b' w where b': "b' \<in> U" "accepted (en_sha E) (en_params E) b'" "blockHash (en_sha E) b' = blockHash (en_sha E) b"
    "di_ChainWork rec = Some w" "placed E s b' (di_Height rec) w"
    by (auto simp: recOk_def)
  have "b' = b" by (rule same_block) (use b' assms in auto)
  then show ?thesis using b' by auto
qed

text \<open>The last step of both ways to extend the chain.\<close>

lemma extendChain_inv:
  assumes inv: "chainInv E good U n c" and a: "activeChain E U hs c"
    and h: "history (en_lib E) (en_params E) (hs @ [(b, u)]) t" and b: "b \<in> U" and len: "length hs < 2 ^ 32"
    and nh: "unat nh = length hs" and w: "w = chainWork hs + CalcWork (Bits (Header b))"
    and st: "good s" "indexOk E U (Suc n) s" "keepsIndex E (ch_store c) s"
    and sit: "sited E U (Suc n) s (blockHash (en_sha E) b) nh w"
    and ex: "extendChain E (c\<lparr>ch_store := s, ch_utxoSet := t\<rparr>) (blockHash (en_sha E) b) nh w = (r, c')"
  shows "chainInv E good U (Suc n) c'" "r = Inr ()" "fits (ch_store c') = fits s" "ch_orphans c' = ch_orphans c"
proof -
  obtain q s' where p: "st_PutChainTip (en_store E) s (blockHash (en_sha E) b) nh = (q, s')" by (cases "st_PutChainTip (en_store E) s (blockHash (en_sha E) b) nh")
  note q = tipWrites [OF p] and law = putTip [OF p]
  have c': "r = Inr ()" "c' = c\<lparr>ch_store := s',
     ch_heightByHash := (ch_heightByHash c)(blockHash (en_sha E) b \<mapsto> nh),
     ch_hashByHeight := (ch_hashByHeight c)(nh \<mapsto> blockHash (en_sha E) b),
     ch_tipHash := blockHash (en_sha E) b, ch_tipHeight := nh, ch_tipWork := w, ch_utxoSet := t\<rparr>"
    using ex p q by (auto simp: extendChain_def)
  have k: "keepsIndex E s s'" using law by (simp add: keepsIndex_same)
  have ix: "indexOk E U (Suc n) s'" using indexOk_keeps [OF st(2)] law by simp
  have "\<exists>w. sited E U (Suc n) s' x h' w" if hx: "ch_heightByHash c' x = Some h'" for x h'
  proof (cases "x = blockHash (en_sha E) b")
    case True
    then show ?thesis using hx c' sited_keeps [OF sit k] by auto
  next
    case False
    then obtain w where "sited E U n (ch_store c) x h' w" using hx c' inv by (auto simp: chainInv_def)
    then show ?thesis using sited_keeps [OF _ keepsIndex_trans [OF st(3) k], of U n x h' w "Suc n"] by auto
  qed
  moreover have "branch E U (hs @ [(b, u)]) c'"
    by (rule branch_extend [OF _ h b len nh]) (use a in \<open>simp_all add: activeChain_def c'\<close>)
  then have "activeChain E U (hs @ [(b, u)]) c'"
    using w nh by (simp add: activeChain_def c' flip: nh)
  ultimately show "chainInv E good U (Suc n) c'" using ix st(1) law c' by (auto simp: chainInv_def)
  show "r = Inr ()" "fits (ch_store c') = fits s" "ch_orphans c' = ch_orphans c" using c' law by simp_all
qed

lemma persist_frame:
  "persistUtxoChanges E c b undo x = (r, c') \<Longrightarrow> fits (ch_store c') = fits (ch_store c)"
  by (auto simp: persistUtxoChanges_def split: prod.splits dest!: flush)

lemma extendChain_frame:
  "extendChain E c x h w = (r, c') \<Longrightarrow> fits (ch_store c') = fits (ch_store c)"
  by (auto simp: extendChain_def split: prod.splits sum.splits dest!: putTip)

text \<open>The common part: from the record with its undo location to the end.\<close>

lemma persist_extend:
  assumes inv: "chainInv E good U n c" and a: "activeChain E U hs c"
    and h: "history (en_lib E) (en_params E) (hs @ [(b, undo)]) t" and b: "b \<in> U" and len: "length hs < 2 ^ 32"
    and nh: "unat nh = length hs" and w: "w = chainWork hs + CalcWork (Bits (Header b))"
    and st: "good s1" "indexOk E U n s1" "keepsIndex E (ch_store c) s1"
    and rec: "recOk E U (Suc n) s1 (blockHash (en_sha E) b) rec" "di_Height rec = nh" "di_ChainWork rec = Some w"
    and put: "st_PutBlockIndex (en_store E) s1 (blockHash (en_sha E) b) rec = (q, s2)"
  shows "chainInv E good U (Suc n) (c\<lparr>ch_store := s2\<rparr>)"
    and "q = Inr () \<Longrightarrow> persistUtxoChanges E (c\<lparr>ch_store := s2, ch_utxoSet := t\<rparr>) b undo (blockHash (en_sha E) b) = (q', c3) \<Longrightarrow>
      \<exists>s3. c3 = c\<lparr>ch_store := s3, ch_utxoSet := t\<rparr> \<and> chainInv E good U (Suc n) (c\<lparr>ch_store := s3\<rparr>) \<and> fits s3 = fits s1
        \<and> (extendChain E c3 (blockHash (en_sha E) b) nh w = (r, c') \<longrightarrow>
             chainInv E good U (Suc n) c' \<and> r = Inr () \<and> fits (ch_store c') = fits s1 \<and> ch_orphans c' = ch_orphans c)"
proof -
  note ip = index_put [OF st(2) le_SucI [OF order_refl] rec(1) put]
  have k2: "keepsIndex E (ch_store c) s2" using keepsIndex_trans [OF st(3) ip(2)] .
  have g2: "good s2" using ip(5) st(1) by simp
  show i2: "chainInv E good U (Suc n) (c\<lparr>ch_store := s2\<rparr>)"
    by (rule chainInv_store [OF inv le_SucI [OF order_refl] g2 ip(1) k2])
  assume q: "q = Inr ()" and pu: "persistUtxoChanges E (c\<lparr>ch_store := s2, ch_utxoSet := t\<rparr>) b undo (blockHash (en_sha E) b) = (q', c3)"
  then obtain s3 where fl: "st_FlushUtxoBatch (en_store E) s2 (connectBatch (en_sha E) t b undo (blockHash (en_sha E) b)) = (q', s3)"
    and c3: "c3 = c\<lparr>ch_store := s3, ch_utxoSet := t\<rparr>"
    by (auto simp: persistUtxoChanges_def split: prod.splits)
  note law = flush [OF fl]
  have k3: "keepsIndex E s2 s3" using law by (simp add: keepsIndex_same)
  have ix3: "indexOk E U (Suc n) s3" using indexOk_keeps [OF ip(1)] law by simp
  have g3: "good s3" using law g2 by simp
  note kc3 = keepsIndex_trans [OF k2 k3]
  have i3: "chainInv E good U (Suc n) (c\<lparr>ch_store := s3\<rparr>)"
    by (rule chainInv_store [OF inv le_SucI [OF order_refl] g3 ix3 kc3])
  have "st_GetBlockIndex (en_store E) s2 (blockHash (en_sha E) b) = Inr rec" using ip(3) q by simp
  then have "recOk E U (Suc n) s2 (blockHash (en_sha E) b) rec" using ip(1) by (simp add: indexOk_def)
  from recOk_sited [OF this rec(3)] have sit: "sited E U (Suc n) s3 (blockHash (en_sha E) b) nh w"
    using sited_keeps [OF _ k3] rec(2) by blast
  note ex = extendChain_inv [OF inv a h b len nh w g3 ix3 kc3 sit]
  show "\<exists>s3. c3 = c\<lparr>ch_store := s3, ch_utxoSet := t\<rparr> \<and> chainInv E good U (Suc n) (c\<lparr>ch_store := s3\<rparr>) \<and> fits s3 = fits s1
        \<and> (extendChain E c3 (blockHash (en_sha E) b) nh w = (r, c') \<longrightarrow>
             chainInv E good U (Suc n) c' \<and> r = Inr () \<and> fits (ch_store c') = fits s1 \<and> ch_orphans c' = ch_orphans c)"
    using c3 i3 ex law ip(6) by auto
qed

lemma extend_tail:
  assumes inv: "chainInv E good U n c" and a: "activeChain E U hs c" and b: "b \<in> U"
    and hist: "history (en_lib E) (en_params E) (hs @ [(b, undo)]) t"
    and nh: "unat nh = length hs" "w = chainWork hs + CalcWork (Bits (Header b))" "length hs < 2 ^ 32"
    and rec: "recOk E U (Suc n) (ch_store c) (blockHash (en_sha E) b) rec" "di_Height rec = nh" "di_ChainWork rec = Some w"
    and wu: "st_WriteUndo (en_store E) (ch_store c) (di_FileNum rec) (SerializeUndoData undo) = (ru, s1)"
    and rec': "rec' = rec \<or> (\<exists>p sz. ru = Inr (p, sz) \<and> rec' = withUndo rec (di_FileNum rec) p sz)"
    and put: "st_PutBlockIndex (en_store E) s1 (blockHash (en_sha E) b) rec' = (q, s2)"
    and pu: "persistUtxoChanges E (c\<lparr>ch_store := s2, ch_utxoSet := t\<rparr>) b undo (blockHash (en_sha E) b) = (q', c3)"
    and ex: "extendChain E c3 (blockHash (en_sha E) b) nh w = (q'', c4)"
    and c': "c' = (if q \<noteq> Inr () then c\<lparr>ch_store := s2\<rparr> else if q' \<noteq> Inr () then c3\<lparr>ch_utxoSet := ch_utxoSet c\<rparr> else c4)"
    and f: "fits (ch_store c')"
  shows "chainInv E good U (Suc n) c' \<and> fits (ch_store c) \<and> ch_orphans c' = ch_orphans c"
proof -
  have "fits s1 = fits (ch_store c')"
    using c' putIndex [OF put] persist_frame [OF pu] extendChain_frame [OF ex] by auto
  then have f1: "fits s1" using f by simp
  note u = write_undo [OF wu inv_good [OF inv] f1]
  have U: "fst ` set (hs @ [(b, undo)]) \<subseteq> U" using a b by (simp add: active_defs)
  have r1: "recOk E U (Suc n) s1 (blockHash (en_sha E) b) rec"
    by (rule recOk_keeps [OF rec(1) keepsIndex_same [OF u(2)] u(1)])
  have rec1: "recOk E U (Suc n) s1 (blockHash (en_sha E) b) rec'"
    using rec' r1 withUndo_ok [OF r1 hist refl U nh(3) u(5)] by auto
  have fld: "di_Height rec' = nh" "di_ChainWork rec' = Some w" using rec rec' by (auto simp: withUndo_def)
  note pe = persist_extend [OF inv a hist b nh(3,1,2) u(3) indexOk_keeps [OF indexOk_inv [OF inv] u(2,1)] keepsIndex_same [OF u(2)]
      rec1 fld put]
  show ?thesis
  proof (cases "q = Inr ()")
    case False
    then show ?thesis using c' pe(1) u(4) by simp
  next
    case True
    from pe(2) [OF True pu, of q'' c4] obtain s3 where "c3 = c\<lparr>ch_store := s3, ch_utxoSet := t\<rparr>"
      "chainInv E good U (Suc n) (c\<lparr>ch_store := s3\<rparr>)" "chainInv E good U (Suc n) c4" "ch_orphans c4 = ch_orphans c"
      using ex by blast
    then show ?thesis using c' True u(4) by simp
  qed
qed

lemma connectTip_inv:
  assumes inv: "chainInv E good U n c" and b: "b \<in> U" "accepted (en_sha E) (en_params E) b"
    and rec: "recOk E U (Suc n) (ch_store c) (blockHash (en_sha E) b) rec" "di_Height rec = nh" "di_ChainWork rec = Some w"
    and prev: "PrevBlock (Header b) = ch_tipHash c"
    and ct: "connectTip E c b (blockHash (en_sha E) b) nh w rec = (r, c')" and f: "fits (ch_store c')"
  shows "chainInv E good U (Suc n) c' \<and> fits (ch_store c) \<and> ch_orphans c' = ch_orphans c"
proof -
  obtain hs where a: "activeChain E U hs c" using inv by (auto simp: chainInv_def)
  then have h: "history (en_lib E) (en_params E) hs (ch_utxoSet c)" "fst ` set hs \<subseteq> U" "length hs \<le> 2 ^ 32"
    and tip: "PrevBlock (Header b) = blockHash (en_sha E) (fst (last hs))" using prev by (simp_all add: active_defs)
  have pl: "placed E (ch_store c) b nh w" using recOk_placed [OF rec(1) b] rec by simp
  have mono: "chainInv E good U (Suc n) c" by (rule chainInv_mono [OF inv]) simp
  show ?thesis
  proof (cases "ValidateTransactionInputs (en_lib E) b (ch_utxoSet c) nh (en_params E)")
    case (Inl e)
    then show ?thesis using ct f mono by (simp add: connectTip_def)
  next
    case (Inr fees)
    note nh = child_height(2-4) [OF h indexOk_inv [OF inv] pl tip]
    from connect_child [OF h indexOk_inv [OF inv] b(1) pl tip Inr]
    obtain undo t where cb: "ConnectBlock (en_sha E) (ch_utxoSet c) b nh = (Inr undo, t)"
      and hist: "history (en_lib E) (en_params E) (hs @ [(b, undo)]) t"
      and undone: "DisconnectBlock (en_sha E) t b undo = ch_utxoSet c" by blast
    obtain ru s1 where wu: "st_WriteUndo (en_store E) (ch_store c) (di_FileNum rec) (SerializeUndoData undo) = (ru, s1)" by fastforce
    note step = ct [unfolded connectTip_def Inr sum.case cb prod.case undone Let_def wu]
    show ?thesis
    proof (cases ru)
      case (Inl e)
      then have c': "c' = c\<lparr>ch_store := s1\<rparr>" using step by simp
      have "fits s1" using f c' by simp
      note u = write_undo [OF wu inv_good [OF inv] this]
      show ?thesis using chainInv_same [OF mono u(2,1,3)] u(4) by (simp add: c')
    next
      case (Inr loc)
      obtain p sz where loc: "loc = (p, sz)" by fastforce
      obtain q s2 where put: "st_PutBlockIndex (en_store E) s1 (blockHash (en_sha E) b) (withUndo rec (di_FileNum rec) p sz) = (q, s2)" by fastforce
      obtain q' c3 where pu: "persistUtxoChanges E (c\<lparr>ch_store := s2, ch_utxoSet := t\<rparr>) b undo (blockHash (en_sha E) b) = (q', c3)" by fastforce
      obtain q'' c4 where ex: "extendChain E c3 (blockHash (en_sha E) b) nh w = (q'', c4)" by fastforce
      have c': "c' = (if q \<noteq> Inr () then c\<lparr>ch_store := s2\<rparr> else if q' \<noteq> Inr () then c3\<lparr>ch_utxoSet := ch_utxoSet c\<rparr> else c4)"
        using step Inr loc put pu ex by (auto split: sum.splits)
      show ?thesis
        by (rule extend_tail [OF inv a b(1) hist nh rec wu _ put pu ex c' f]) (use Inr loc in simp)
    qed
  qed
qed

lemma connectOrphanTip_inv:
  assumes inv: "chainInv E good U n c" and b: "b \<in> U" "accepted (en_sha E) (en_params E) b"
    and rec: "recOk E U (Suc n) (ch_store c) (blockHash (en_sha E) b) rec" "di_Height rec = nh" "di_ChainWork rec = Some w"
    and prev: "PrevBlock (Header b) = ch_tipHash c"
    and ct: "connectOrphanTip E c b (blockHash (en_sha E) b) nh w rec = (ok, c')" and f: "fits (ch_store c')"
  shows "chainInv E good U (Suc n) c' \<and> fits (ch_store c) \<and> ch_orphans c' = ch_orphans c"
proof -
  obtain hs where a: "activeChain E U hs c" using inv by (auto simp: chainInv_def)
  then have h: "history (en_lib E) (en_params E) hs (ch_utxoSet c)" "fst ` set hs \<subseteq> U" "length hs \<le> 2 ^ 32"
    and tip: "PrevBlock (Header b) = blockHash (en_sha E) (fst (last hs))" using prev by (simp_all add: active_defs)
  have pl: "placed E (ch_store c) b nh w" using recOk_placed [OF rec(1) b] rec by simp
  have mono: "chainInv E good U (Suc n) c" by (rule chainInv_mono [OF inv]) simp
  show ?thesis
  proof (cases "ValidateTransactionInputs (en_lib E) b (ch_utxoSet c) nh (en_params E)")
    case (Inl e)
    then show ?thesis using ct f mono by (simp add: connectOrphanTip_def)
  next
    case (Inr fees)
    note nh = child_height(2-4) [OF h indexOk_inv [OF inv] pl tip]
    from connect_child [OF h indexOk_inv [OF inv] b(1) pl tip Inr]
    obtain undo t where cb: "ConnectBlock (en_sha E) (ch_utxoSet c) b nh = (Inr undo, t)"
      and hist: "history (en_lib E) (en_params E) (hs @ [(b, undo)]) t"
      and undone: "DisconnectBlock (en_sha E) t b undo = ch_utxoSet c" by blast
    obtain ru s1 where wu: "st_WriteUndo (en_store E) (ch_store c) (di_FileNum rec) (SerializeUndoData undo) = (ru, s1)" by fastforce
    note step = ct [unfolded connectOrphanTip_def Inr sum.case cb prod.case undone Let_def wu]
    define rec' where "rec' = (case ru of Inl _ \<Rightarrow> rec | Inr (p, sz) \<Rightarrow> withUndo rec (di_FileNum rec) p sz)"
    obtain q s2 where put: "st_PutBlockIndex (en_store E) s1 (blockHash (en_sha E) b) rec' = (q, s2)" by fastforce
    obtain q' c3 where pu: "persistUtxoChanges E (c\<lparr>ch_store := s2, ch_utxoSet := t\<rparr>) b undo (blockHash (en_sha E) b) = (q', c3)" by fastforce
    obtain q'' c4 where ex: "extendChain E c3 (blockHash (en_sha E) b) nh w = (q'', c4)" by fastforce
    have c': "c' = (if q \<noteq> Inr () then c\<lparr>ch_store := s2\<rparr> else if q' \<noteq> Inr () then c3\<lparr>ch_utxoSet := ch_utxoSet c\<rparr> else c4)"
      using step [folded rec'_def] put pu ex by (auto split: sum.splits)
    show ?thesis
      by (rule extend_tail [OF inv a b(1) hist nh rec wu _ put pu ex c' f])
         (auto simp: rec'_def split: sum.splits prod.splits)
  qed
qed

end

end
