(* ===== verification/Chain_Reorg.thy ===== *)
theory Chain_Reorg
  imports Chain_Inv
begin

text \<open>
  Reorganisation. A failed \<open>reorg\<close> gives back the state in memory; a successful one leaves the
  active chain on the new branch, with the set that replaying the branch gives: the old blocks
  are disconnected with their stored undo data down to the fork, and the new ones are validated
  and connected.
\<close>

section \<open>What a reorganisation leaves alone\<close>

definition sameMaps :: "'s Chain \<Rightarrow> 's Chain \<Rightarrow> bool" where
  "sameMaps c c' \<longleftrightarrow> ch_heightByHash c' = ch_heightByHash c \<and> ch_hashByHeight c' = ch_hashByHeight c
     \<and> ch_orphans c' = ch_orphans c \<and> ch_tipHash c' = ch_tipHash c \<and> ch_tipHeight c' = ch_tipHeight c
     \<and> ch_tipWork c' = ch_tipWork c"

lemma sameMaps_refl [simp]: "sameMaps c c"
  by (simp add: sameMaps_def)

lemma sameMaps_trans: "sameMaps c c' \<Longrightarrow> sameMaps c' c'' \<Longrightarrow> sameMaps c c''"
  by (simp add: sameMaps_def)

lemma disconnectOne_frame: "disconnectOne E h c = (r, c') \<Longrightarrow> sameMaps c c'"
  by (auto simp: disconnectOne_def persistUtxoDisconnect_def Let_def sameMaps_def
      split: option.splits sum.splits prod.splits if_splits)

lemma disconnectLoop_frame: "disconnectLoop E hs c = (r, c') \<Longrightarrow> sameMaps c c'"
  by (induction hs arbitrary: c)
     (auto split: prod.splits sum.splits dest!: disconnectOne_frame intro: sameMaps_trans)

lemma removeOne_orphans [simp]: "ch_orphans (removeOne h c) = ch_orphans c" "ch_store (removeOne h c) = ch_store c"
    "ch_utxoSet (removeOne h c) = ch_utxoSet c"
  by (simp_all add: removeOne_def split: option.splits)

lemma fold_removeOne_orphans [simp]: "ch_orphans (fold removeOne hs c) = ch_orphans c"
    "ch_store (fold removeOne hs c) = ch_store c" "ch_utxoSet (fold removeOne hs c) = ch_utxoSet c"
  by (induction hs arbitrary: c) simp_all

lemma connectOne_orphans: "connectOne E h x c = (r, c') \<Longrightarrow> ch_orphans c' = ch_orphans c"
  by (auto simp: connectOne_def persistUtxoChanges_def split: sum.splits prod.splits)

lemma connectLoop_orphans: "connectLoop E h xs c = (r, c') \<Longrightarrow> ch_orphans c' = ch_orphans c"
  by (induction E h xs c arbitrary: r c' rule: connectLoop.induct)
     (auto split: sum.splits prod.splits dest!: connectOne_orphans)

lemma undoWriteLoop_frame: "undoWriteLoop E xs c = (r, c') \<Longrightarrow> sameMaps c c' \<and> ch_utxoSet c' = ch_utxoSet c"
  by (induction E xs c arbitrary: r c' rule: undoWriteLoop.induct)
     (fastforce simp: sameMaps_def split: sum.splits prod.splits)+

lemma reorgBody_orphans:
  assumes "reorgBody E x h w c = (r, c')"
  shows "ch_orphans c' = ch_orphans c"
  using assms
  by (auto simp: reorgBody_def Let_def split: sum.splits prod.splits if_splits
      dest!: disconnectLoop_frame connectLoop_orphans undoWriteLoop_frame simp: sameMaps_def)

lemma reorg_failure_restores:
  assumes "reorg E x h w c = (Inl e, c')"
  shows "c' = c\<lparr>ch_store := ch_store c'\<rparr>"
proof -
  obtain c1 where "reorgBody E x h w c = (Inl e, c1)" "c' = restoreSnapshot c c1"
    using assms by (auto simp: reorg_def split: prod.splits sum.splits)
  moreover from this(1) have "ch_orphans c1 = ch_orphans c" by (rule reorgBody_orphans)
  ultimately show ?thesis by (simp add: restoreSnapshot_def cloneUtxoSet_def Entries_def)
qed

section \<open>The walk to the fork\<close>

text \<open>Stored blocks, each the child of the one before.\<close>

fun linkedFwd :: "('sg, 'pk, 'sk, 's) chain_env \<Rightarrow> 's \<Rightarrow> hash \<Rightarrow> hash list \<Rightarrow> bool" where
  "linkedFwd E s prev [] = True"
| "linkedFwd E s prev (x # xs) =
     ((\<exists>b. st_GetBlock (en_store E) s x = Inr b \<and> PrevBlock (Header b) = prev) \<and> linkedFwd E s x xs)"

text \<open>A change of the store that concerns neither the index nor the files.\<close>

definition quiet :: "'s BlockStore \<Rightarrow> ('s \<Rightarrow> bool) \<Rightarrow> ('s \<Rightarrow> bool) \<Rightarrow> 's \<Rightarrow> 's \<Rightarrow> bool" where
  "quiet S good fits s s' \<longleftrightarrow> sameIndex S s s' \<and> keepsFiles S s s' \<and> good s' = good s \<and> fits s' = fits s"

lemma quiet_refl [simp]: "quiet S good fits s s"
  by (simp add: quiet_def sameIndex_def keepsFiles_def)

lemma quiet_trans: "quiet S good fits s s' \<Longrightarrow> quiet S good fits s' s'' \<Longrightarrow> quiet S good fits s s''"
  by (simp add: quiet_def sameIndex_def keepsFiles_def)

text \<open>The state after a reorganisation, before the snapshot is restored on an error.\<close>

definition reorgPost :: "('sg, 'pk, 'sk, 's) chain_env \<Rightarrow> ('s \<Rightarrow> bool) \<Rightarrow> ('s \<Rightarrow> bool) \<Rightarrow> Block set \<Rightarrow> nat \<Rightarrow> 's Chain \<Rightarrow> hash \<Rightarrow> int \<Rightarrow> 'e + unit \<Rightarrow> 's Chain \<Rightarrow> bool" where
  "reorgPost E good fits U n c x w r c' \<longleftrightarrow>
     good (ch_store c') \<and> indexOk E U n (ch_store c') \<and> keepsIndex E (ch_store c) (ch_store c') \<and> fits (ch_store c)
     \<and> (r = Inr () \<longrightarrow> chainInv E good U n c' \<and> ch_tipHash c' = x \<and> ch_tipWork c' = w)"

context chain_manager
begin

lemma onMain:
  assumes inv: "chainInv E good U n c" and a: "activeChain E U hs c" and ph: "ch_heightByHash c x = Some ph"
    and eq: "(case ch_hashByHeight c ph of None \<Rightarrow> ZeroHash | Some h \<Rightarrow> h) = x"
  shows "unat ph < length hs \<and> x = blockHash (en_sha E) (fst (hs ! unat ph))"
proof (cases "ch_hashByHeight c ph")
  case None
  obtain w where "sited E U n (ch_store c) x ph w" using inv ph by (auto simp: chainInv_def)
  then have "x \<noteq> ZeroHash" using noZero by (auto simp: sited_def)
  then show ?thesis using None eq by simp
next
  case (Some y)
  then show ?thesis using a eq by (auto simp: active_defs heightMap_def split: if_splits)
qed

lemma reorgWalk_path:
  assumes inv: "chainInv E good U n c" and a: "activeChain E U hs c"
    and w: "reorgWalk E c fuel cur acc = Inr nc" and l: "acc \<noteq> []" "last acc = cur"
    and acc: "\<And>b. st_GetBlock (en_store E) (ch_store c) cur = Inr b \<Longrightarrow> linkedFwd E (ch_store c) (PrevBlock (Header b)) (rev acc)"
  shows "\<exists>i<length hs. linkedFwd E (ch_store c) (blockHash (en_sha E) (fst (hs ! i))) (rev nc) \<and> nc \<noteq> [] \<and> hd nc = hd acc"
  using w l acc
proof (induction fuel arbitrary: cur acc)
  case 0
  then show ?case by simp
next
  case (Suc fuel)
  obtain b where b: "st_GetBlock (en_store E) (ch_store c) cur = Inr b"
    using Suc.prems(1) by (auto split: sum.splits)
  let ?prev = "PrevBlock (Header b)"
  let ?main = "case ch_heightByHash c ?prev of None \<Rightarrow> False
    | Some ph \<Rightarrow> (case ch_hashByHeight c ph of None \<Rightarrow> ZeroHash | Some h \<Rightarrow> h) = ?prev"
  show ?case
  proof (cases ?main)
    case True
    then obtain ph where ph: "ch_heightByHash c ?prev = Some ph" "(case ch_hashByHeight c ph of None \<Rightarrow> ZeroHash | Some h \<Rightarrow> h) = ?prev"
      by (auto split: option.splits)
    have "nc = acc" using Suc.prems(1) b True by (simp add: Let_def)
    then show ?thesis using onMain [OF inv a ph] Suc.prems(2,4) b by auto
  next
    case False
    then have w: "reorgWalk E c fuel ?prev (acc @ [?prev]) = Inr nc" using Suc.prems(1) b by (simp add: Let_def)
    have "linkedFwd E (ch_store c) (PrevBlock (Header b')) (rev (acc @ [?prev]))"
      if "st_GetBlock (en_store E) (ch_store c) ?prev = Inr b'" for b'
      using that Suc.prems(4) [OF b] by simp
    from Suc.IH [OF w _ _ this] Suc.prems(2) show ?thesis by simp
  qed
qed

section \<open>Disconnecting down to the fork\<close>

lemma flush_quiet: "st_FlushUtxoBatch (en_store E) s wb = (r, s') \<Longrightarrow> quiet (en_store E) good fits s s'"
  using flush by (simp add: quiet_def)

lemma disconnectOne_quiet:
  assumes "disconnectOne E h c = (r, c')"
  shows "quiet (en_store E) good fits (ch_store c) (ch_store c')"
  using assms
  by (auto simp: disconnectOne_def persistUtxoDisconnect_def Let_def
      split: option.splits sum.splits prod.splits if_splits dest!: flush_quiet)

lemma disconnectLoop_quiet:
  "disconnectLoop E hs c = (r, c') \<Longrightarrow> quiet (en_store E) good fits (ch_store c) (ch_store c')"
  by (induction hs arbitrary: c)
     (auto split: prod.splits sum.splits dest!: disconnectOne_quiet intro: quiet_trans)

lemma disconnectOne_history:
  assumes ix: "indexOk E U n (ch_store c)" and h: "history (en_lib E) (en_params E) (hs @ [(b, u)]) (ch_utxoSet c)"
    and ne: "hs \<noteq> []" and U: "fst ` set (hs @ [(b, u)]) \<subseteq> U" and len: "length hs < 2 ^ 32"
    and at: "ch_hashByHeight c k = Some (blockHash (en_sha E) b)"
    and d: "disconnectOne E k c = (Inr (), c')"
  shows "history (en_lib E) (en_params E) hs (ch_utxoSet c')"
proof -
  from h obtain s where hs: "history (en_lib E) (en_params E) hs s" "validBlock (en_lib E) (en_params E) s (of_nat (length hs)) b"
    "ConnectBlock (en_sha E) s b (of_nat (length hs)) = (Inr u, ch_utxoSet c)"
    using ne by (cases rule: history_snocE) auto
  have bU: "b \<in> U" "fst ` set hs \<subseteq> U" using U by auto
  note undo = history_undo_readable [OF hs(1) refl bU(2,1) hs(2,3)]
  note back' = history_disconnect [OF hs(1) refl bU(2,1) len hs(2,3)]
  from d at obtain b' rec bytes u' where r:
    "st_GetBlock (en_store E) (ch_store c) (blockHash (en_sha E) b) = Inr b'"
    "st_GetBlockIndex (en_store E) (ch_store c) (blockHash (en_sha E) b) = Inr rec" "di_Status rec AND StatusHaveUndo \<noteq> 0"
    "st_ReadUndo (en_store E) (ch_store c) (di_UndoFile rec) (di_UndoPos rec) (di_UndoSize rec) = Inr bytes"
    "DeserializeUndoData bytes = Inr u'" "ch_utxoSet c' = DisconnectBlock (en_sha E) (ch_utxoSet c) b' u'"
    by (auto simp: disconnectOne_def persistUtxoDisconnect_def Let_def split: sum.splits prod.splits if_splits)
  have "accepted (en_sha E) (en_params E) b" using history_accepted [OF h refl] len by simp
  then have "b' = b" by (intro same_block) (use recOk_block [OF ix r(1)] bU in auto)
  moreover have "recOk E U n (ch_store c) (blockHash (en_sha E) b) rec" using ix r(2) by (simp add: indexOk_def)
  then have "undoStored E U (ch_store c) (blockHash (en_sha E) b) rec" by (auto simp: recOk_def)
  then have "bytes = SerializeUndoData u" using r(3,4) h U len by (fastforce simp: undoStored_def)
  ultimately show ?thesis using r(5,6) undo back' hs(1) by simp
qed

lemma disconnectLoop_history:
  assumes "indexOk E U n (ch_store c)" and "history (en_lib E) (en_params E) (pre @ post) (ch_utxoSet c)"
    and "pre \<noteq> []" and "fst ` set (pre @ post) \<subseteq> U" and "length (pre @ post) \<le> 2 ^ 32"
    and "\<forall>i<length (pre @ post). ch_hashByHeight c (of_nat i) = Some (blockHash (en_sha E) (fst ((pre @ post) ! i)))"
    and "disconnectLoop E (rev (map of_nat [length pre..<length (pre @ post)])) c = (Inr (), c')"
  shows "history (en_lib E) (en_params E) pre (ch_utxoSet c')"
  using assms
proof (induction post arbitrary: c rule: rev_induct)
  case Nil
  then show ?case by simp
next
  case (snoc x post)
  obtain b u where x: "x = (b, u)" by fastforce
  let ?k = "of_nat (length (pre @ post)) :: u32"
  have "[length pre..<length (pre @ post @ [x])] = [length pre..<length (pre @ post)] @ [length (pre @ post)]" by simp
  then obtain c1 where d: "disconnectOne E ?k c = (Inr (), c1)"
    and r: "disconnectLoop E (rev (map of_nat [length pre..<length (pre @ post)])) c1 = (Inr (), c')"
    using snoc.prems(7) by (auto split: prod.splits sum.splits)
  have q: "quiet (en_store E) good fits (ch_store c) (ch_store c1)" by (rule disconnectOne_quiet [OF d])
  have m: "sameMaps c c1" by (rule disconnectOne_frame [OF d])
  have "history (en_lib E) (en_params E) (pre @ post) (ch_utxoSet c1)"
    by (rule disconnectOne_history [OF snoc.prems(1) _ _ _ _ _ d]) (use snoc.prems x in \<open>auto simp: nth_append\<close>)
  moreover have "indexOk E U n (ch_store c1)"
    using indexOk_keeps [OF snoc.prems(1)] q by (simp add: quiet_def)
  moreover have "\<forall>i<length (pre @ post). ch_hashByHeight c1 (of_nat i) = Some (blockHash (en_sha E) (fst ((pre @ post) ! i)))"
    using snoc.prems(6) m nth_append [of "pre @ post" "[x]"] by (simp add: sameMaps_def)
  ultimately show ?case
    using snoc.IH [of c1] snoc.prems(3-5) r by simp
qed

section \<open>Leaving the old branch\<close>

lemma fold_removeOne:
  assumes "\<forall>i. k \<le> i \<and> i < m \<longrightarrow> ch_hashByHeight c (of_nat i) = Some (f i)" "m \<le> 2 ^ 32"
  shows "ch_hashByHeight (fold removeOne (map of_nat [k..<m]) c) = (\<lambda>h. if k \<le> unat h \<and> unat h < m then None else ch_hashByHeight c h)
    \<and> ch_heightByHash (fold removeOne (map of_nat [k..<m]) c) = (\<lambda>x. if x \<in> f ` {k..<m} then None else ch_heightByHash c x)"
  using assms
proof (induction m)
  case 0
  then show ?case by simp
next
  case (Suc m)
  show ?case
  proof (cases "k \<le> m")
    case False
    then have "[k..<Suc m] = []" "{k..<Suc m} = {}" by simp_all
    then show ?thesis using False by (auto simp: fun_eq_iff)
  next
    case True
    define d where "d = fold removeOne (map of_nat [k..<m]) c"
    have IH: "ch_hashByHeight d = (\<lambda>h. if k \<le> unat h \<and> unat h < m then None else ch_hashByHeight c h)"
      "ch_heightByHash d = (\<lambda>x. if x \<in> f ` {k..<m} then None else ch_heightByHash c x)"
      using Suc unfolding d_def by simp_all
    have u: "unat (of_nat m :: u32) = m" using Suc.prems(2) by simp
    have e: "unat h = m \<longleftrightarrow> h = of_nat m" for h :: u32 using u word_unat_eq_iff [of h "of_nat m"] by auto
    have "ch_hashByHeight d (of_nat m) = Some (f m)" using IH(1) Suc.prems(1) True u by simp
    then have r: "removeOne (of_nat m) d = d\<lparr>ch_heightByHash := (ch_heightByHash d)(f m := None), ch_hashByHeight := (ch_hashByHeight d)(of_nat m := None)\<rparr>"
      by (simp add: removeOne_def)
    have fo: "fold removeOne (map of_nat [k..<Suc m]) c = removeOne (of_nat m) d" using True by (simp add: d_def)
    have im: "f ` {k..<Suc m} = insert (f m) (f ` {k..<m})" using True by (simp add: atLeastLessThanSuc)
    have "k \<le> unat h \<and> unat h < Suc m \<longleftrightarrow> h = of_nat m \<or> k \<le> unat h \<and> unat h < m" for h :: u32
      using e [of h] True by (auto simp: less_Suc_eq)
    then show ?thesis unfolding fo r im by (auto simp: IH fun_eq_iff)
  qed
qed

lemma fold_removeOne_tip [simp]:
  "ch_tipHash (fold removeOne hs c) = ch_tipHash c" "ch_tipHeight (fold removeOne hs c) = ch_tipHeight c"
  "ch_tipWork (fold removeOne hs c) = ch_tipWork c"
  by (induction hs arbitrary: c) (simp_all add: removeOne_def split: option.splits)

lemma leave_branch:
  assumes a: "branch E U (pre @ post) c" and ne: "pre \<noteq> []"
    and m: "sameMaps c c1" and h: "history (en_lib E) (en_params E) pre (ch_utxoSet c1)"
    and c2: "c2 = fold removeOne (map of_nat [length pre..<length (pre @ post)]) c1"
  shows "branch E U pre c2" "ch_heightByHash c2 x = Some k \<Longrightarrow> ch_heightByHash c x = Some k"
proof -
  let ?hs = "pre @ post" and ?f = "\<lambda>i. blockHash (en_sha E) (fst ((pre @ post) ! i))"
  have U: "fst ` set ?hs \<subseteq> U" and len: "length ?hs \<le> 2 ^ 32"
    and hm: "ch_hashByHeight c1 = heightMap (en_sha E) ?hs" and hh: "ch_heightByHash c1 = ch_heightByHash c"
    and hi: "\<forall>i<length ?hs. ch_heightByHash c1 (?f i) = Some (of_nat i)"
    and hist: "history (en_lib E) (en_params E) ?hs (ch_utxoSet c)"
    using a m by (simp_all add: branch_def sameMaps_def)
  have at: "ch_hashByHeight c1 (of_nat i) = Some (?f i)" if "i < length ?hs" for i
    using that len hm by (simp add: heightMap_def)
  note fr = fold_removeOne [of "length pre" "length ?hs" c1 ?f, folded c2]
  have "ch_hashByHeight c2 = heightMap (en_sha E) pre"
    using fr at len hm by (auto simp: heightMap_def nth_append fun_eq_iff)
  moreover have "ch_heightByHash c2 (blockHash (en_sha E) (fst (pre ! i))) = Some (of_nat i)" if i: "i < length pre" for i
  proof -
    have "?f i \<notin> ?f ` {length pre..<length ?hs}"
      using history_distinct [OF hist refl U len, of i] i by fastforce
    moreover have "ch_heightByHash c1 (?f i) = Some (of_nat i)" using hi i by simp
    ultimately have "ch_heightByHash c2 (?f i) = Some (of_nat i)" using fr at len by simp
    then show ?thesis using i by (simp add: nth_append)
  qed
  ultimately show "branch E U pre c2" using h U len by (auto simp: branch_def c2)
  show "ch_heightByHash c2 x = Some k \<Longrightarrow> ch_heightByHash c x = Some k"
    using fr at len hh by (auto split: if_splits)
qed

section \<open>Connecting the new branch\<close>

lemma connectOne_branch:
  assumes br: "branch E U hs c" and ix: "indexOk E U n (ch_store c)"
    and b: "st_GetBlock (en_store E) (ch_store c) x = Inr b" "PrevBlock (Header b) = blockHash (en_sha E) (fst (last hs))"
    and co: "connectOne E (of_nat (length hs)) x c = (Inr u, c')"
  shows "branch E U (hs @ [(b, u)]) c' \<and> blockHash (en_sha E) b = x \<and> length hs < 2 ^ 32
    \<and> ch_heightByHash c' = (ch_heightByHash c)(x \<mapsto> of_nat (length hs)) \<and> (\<exists>w. sited E U n (ch_store c) x (of_nat (length hs)) w)"
proof -
  have h: "history (en_lib E) (en_params E) hs (ch_utxoSet c)" "fst ` set hs \<subseteq> U" "length hs \<le> 2 ^ 32"
    using br by (simp_all add: branch_def)
  note r = recOk_block [OF ix b(1)]
  from r(4) obtain nh w where pl: "placed E (ch_store c) b nh w" "unat nh \<le> n" "0 \<le> w" by blast
  note ch = child_height [OF h ix pl(1) b(2)]
  obtain fees t s' where v: "ValidateTransactionInputs (en_lib E) b (ch_utxoSet c) nh (en_params E) = Inr fees"
    and cb: "ConnectBlock (en_sha E) (ch_utxoSet c) b nh = (Inr u, t)"
    and c': "c' = c\<lparr>ch_utxoSet := t, ch_store := s', ch_heightByHash := (ch_heightByHash c)(x \<mapsto> nh), ch_hashByHeight := (ch_hashByHeight c)(nh \<mapsto> x)\<rparr>"
    using co b(1) unfolding ch(5) [symmetric]
    by (auto simp: connectOne_def persistUtxoChanges_def split: sum.splits prod.splits)
  from connect_child [OF h ix r(1) pl(1) b(2) v] cb
  have "history (en_lib E) (en_params E) (hs @ [(b, u)]) t" by auto
  from branch_extend [OF br this r(1) ch(4,2)] c' r(3)
  have "branch E U (hs @ [(b, u)]) c'" by simp
  moreover have "sited E U n (ch_store c) x (of_nat (length hs)) w"
    using r pl ch(5) by (auto simp: sited_def)
  ultimately show ?thesis using r(3) ch(4,5) c' by auto
qed

lemma connectOne_quiet:
  "connectOne E h x c = (r, c') \<Longrightarrow> quiet (en_store E) good fits (ch_store c) (ch_store c')"
  by (auto simp: connectOne_def persistUtxoChanges_def split: sum.splits prod.splits dest!: flush_quiet)

lemma connectLoop_quiet:
  "connectLoop E h xs c = (r, c') \<Longrightarrow> quiet (en_store E) good fits (ch_store c) (ch_store c')"
  by (induction xs arbitrary: h c r c')
     (auto split: prod.splits sum.splits dest!: connectOne_quiet intro: quiet_trans)

lemma linkedFwd_quiet:
  "linkedFwd E s prev xs \<Longrightarrow> quiet (en_store E) good fits s s' \<Longrightarrow> linkedFwd E s' prev xs"
proof (induction xs arbitrary: prev)
  case (Cons x xs)
  then obtain b where b: "st_GetBlock (en_store E) s x = Inr b" "PrevBlock (Header b) = prev" by auto
  then have "st_GetBlock (en_store E) s' x = Inr b"
    using Cons.prems(2) by (auto simp: getBlock res_simps quiet_def sameIndex_def keepsFiles_def split: if_splits)
  then show ?case using Cons b by auto
qed simp

lemma connectLoop_branch:
  assumes "branch E U pre c" and "indexOk E U n (ch_store c)"
    and "linkedFwd E (ch_store c) (blockHash (en_sha E) (fst (last pre))) xs"
    and "connectLoop E (of_nat (length pre)) xs c = (Inr conn, c')"
  shows "\<exists>post. branch E U (pre @ post) c' \<and> map (\<lambda>(b, u). (blockHash (en_sha E) b, u)) post = conn \<and> map fst conn = xs
    \<and> (\<forall>x h. ch_heightByHash c' x = Some h \<longrightarrow> ch_heightByHash c x = Some h \<or> (\<exists>w. sited E U n (ch_store c) x h w))
    \<and> ch_orphans c' = ch_orphans c"
  using assms
proof (induction xs arbitrary: pre c conn)
  case Nil
  then show ?case by (intro exI [of _ "[]"]) auto
next
  case (Cons x xs)
  obtain u c1 rest where co: "connectOne E (of_nat (length pre)) x c = (Inr u, c1)"
    and cl: "connectLoop E (of_nat (length pre) + 1) xs c1 = (Inr rest, c')" and conn: "conn = (x, u) # rest"
    using Cons.prems(4) by (auto split: prod.splits sum.splits)
  from Cons.prems(3) obtain b where b: "st_GetBlock (en_store E) (ch_store c) x = Inr b"
    "PrevBlock (Header b) = blockHash (en_sha E) (fst (last pre))" by auto
  note one = connectOne_branch [OF Cons.prems(1,2) b co]
  have q: "quiet (en_store E) good fits (ch_store c) (ch_store c1)" by (rule connectOne_quiet [OF co])
  have ix: "indexOk E U n (ch_store c1)" using indexOk_keeps [OF Cons.prems(2)] q by (simp add: quiet_def)
  have lk: "linkedFwd E (ch_store c1) (blockHash (en_sha E) (fst (last (pre @ [(b, u)])))) xs"
    using linkedFwd_quiet [OF _ q, of x xs] Cons.prems(3) one by simp
  obtain post where post: "branch E U ((pre @ [(b, u)]) @ post) c'" "map (\<lambda>(b, u). (blockHash (en_sha E) b, u)) post = rest" "map fst rest = xs"
    "\<forall>x h. ch_heightByHash c' x = Some h \<longrightarrow> ch_heightByHash c1 x = Some h \<or> (\<exists>w. sited E U n (ch_store c1) x h w)"
    "ch_orphans c' = ch_orphans c1"
    using Cons.IH [OF _ ix lk, of rest] one cl by (auto simp: add.commute)
  have k: "keepsIndex E (ch_store c1) (ch_store c)" using q by (simp add: quiet_def sameIndex_def keepsIndex_def)
  have "ch_heightByHash c y = Some h \<or> (\<exists>w. sited E U n (ch_store c) y h w)" if "ch_heightByHash c' y = Some h" for y h
    using post(4) that one sited_keeps [OF _ k order_refl, of U n y h] by (cases "y = x") fastforce+
  then show ?case
    using post(1-3,5) one conn connectOne_orphans [OF co] by (intro exI [of _ "(b, u) # post"]) auto
qed

section \<open>Writing the undo data of the new branch\<close>

lemma writes_fit:
  "st_WriteUndo (en_store E) s f u = (ru, s') \<Longrightarrow> fits s' \<Longrightarrow> fits s"
  "st_PutBlockIndex (en_store E) s x rec = (r, s') \<Longrightarrow> fits s' \<Longrightarrow> fits s"
  using writeUndo putIndex by blast+

lemma undoWriteLoop_fits: "undoWriteLoop E xs c = (r, c') \<Longrightarrow> fits (ch_store c') \<Longrightarrow> fits (ch_store c)"
proof (induction xs arbitrary: c)
  case (Cons y xs)
  obtain x u where y: "y = (x, u)" by fastforce
  have "fits s" if "undoWriteLoop E xs (c\<lparr>ch_store := s\<rparr>) = (r, c')" for s
    using Cons.IH [OF that] Cons.prems(2) by simp
  then show ?case
    using Cons.prems by (auto simp: y split: sum.splits prod.splits dest: writes_fit)
qed simp

lemma undoWriteLoop_inv:
  assumes "undoWriteLoop E xs c = (r, c')" "fits (ch_store c')" "good (ch_store c)" "indexOk E U n (ch_store c)"
    and "\<forall>(x, u)\<in>set xs. \<exists>hs b t. history (en_lib E) (en_params E) (hs @ [(b, u)]) t \<and> blockHash (en_sha E) b = x
       \<and> fst ` set (hs @ [(b, u)]) \<subseteq> U \<and> length hs < 2 ^ 32"
  shows "good (ch_store c') \<and> indexOk E U n (ch_store c') \<and> keepsIndex E (ch_store c) (ch_store c')"
  using assms
proof (induction xs arbitrary: c)
  case Nil
  then show ?case by simp
next
  case (Cons y xs)
  obtain x u where y: "y = (x, u)" by fastforce
  show ?case
  proof (cases "st_GetBlockIndex (en_store E) (ch_store c) x")
    case (Inl e)
    then show ?thesis using Cons.prems by (simp add: y)
  next
    case (Inr rec)
    obtain ru s1 where wu: "st_WriteUndo (en_store E) (ch_store c) (di_FileNum rec) (SerializeUndoData u) = (ru, s1)" by fastforce
    have rok: "recOk E U n (ch_store c) x rec" using Cons.prems(4) Inr by (simp add: indexOk_def)
    show ?thesis
    proof (cases ru)
      case (Inl e)
      then have c': "c' = c\<lparr>ch_store := s1\<rparr>" using Cons.prems(1) Inr wu by (simp add: y)
      note w = write_undo [OF wu Cons.prems(3)]
      show ?thesis using w Cons.prems(2) c' indexOk_keeps [OF Cons.prems(4)] keepsIndex_same by simp
    next
      case (Inr loc)
      obtain p sz where loc: "loc = (p, sz)" by fastforce
      obtain q s2 where put: "st_PutBlockIndex (en_store E) s1 x (withUndo rec (di_FileNum rec) p sz) = (q, s2)" by fastforce
      have rest: "c' = c\<lparr>ch_store := s2\<rparr> \<or> undoWriteLoop E xs (c\<lparr>ch_store := s2\<rparr>) = (r, c')"
        using Cons.prems(1) \<open>st_GetBlockIndex _ _ x = Inr rec\<close> wu Inr loc put by (auto simp: y split: sum.splits)
      have f2: "fits s2" using rest Cons.prems(2) undoWriteLoop_fits [of xs "c\<lparr>ch_store := s2\<rparr>" r c'] by auto
      then have f1: "fits s1" using putIndex [OF put] by simp
      note w = write_undo [OF wu Cons.prems(3) f1]
      note k1 = keepsIndex_same [OF w(2)]
      obtain hs b t where hb: "history (en_lib E) (en_params E) (hs @ [(b, u)]) t" "blockHash (en_sha E) b = x"
        "fst ` set (hs @ [(b, u)]) \<subseteq> U" "length hs < 2 ^ 32" using Cons.prems(5) by (auto simp: y)
      have "recOk E U n s1 x (withUndo rec (di_FileNum rec) p sz)"
        by (rule withUndo_ok [OF recOk_keeps [OF rok k1 w(1)] hb]) (use w(5) Inr loc in simp)
      note ip = index_put [OF indexOk_keeps [OF Cons.prems(4) w(2,1)] order_refl this put]
      have k2: "keepsIndex E (ch_store c) s2" by (rule keepsIndex_trans [OF k1 ip(2)])
      show ?thesis
        using rest Cons.IH [of "c\<lparr>ch_store := s2\<rparr>"] Cons.prems(2,5) ip w(3) k2 keepsIndex_trans [OF k2] by auto
    qed
  qed
qed

section \<open>The whole reorganisation\<close>

lemma heightsAbove_chain:
  "i < n \<Longrightarrow> n \<le> 2 ^ 32 \<Longrightarrow> heightsAbove (of_nat i) (of_nat (n - 1)) = map of_nat [Suc i..<n]"
  by (cases n) (simp_all add: heightsAbove_def del: upt_Suc)

lemma sited_history:
  assumes h: "history (en_lib E) (en_params E) hs t" "fst ` set hs \<subseteq> U" "length hs \<le> 2 ^ 32" and ix: "indexOk E U n s"
    and sit: "sited E U m s (blockHash (en_sha E) (fst (last hs))) h w"
  shows "unat h = length hs - 1 \<and> w = chainWork hs"
proof -
  obtain b where b: "b \<in> U" "accepted (en_sha E) (en_params E) b" "blockHash (en_sha E) b = blockHash (en_sha E) (fst (last hs))" "placed E s b h w"
    using sit by (auto simp: sited_def)
  have "fst (last hs) \<in> U" using h(2) history_nonempty [OF h(1)] by auto
  then have "b = fst (last hs)" by (intro same_block) (use b history_accepted [OF h(1) refl h(3)] in auto)
  then show ?thesis using history_placed [OF h ix] b(4) by simp
qed

lemma history_undos:
  assumes h: "history (en_lib E) (en_params E) hs t" "fst ` set hs \<subseteq> U" "length hs \<le> 2 ^ 32" and x: "(b, u) \<in> set hs"
  shows "\<exists>hs' b' t. history (en_lib E) (en_params E) (hs' @ [(b', u)]) t \<and> blockHash (en_sha E) b' = blockHash (en_sha E) b
    \<and> fst ` set (hs' @ [(b', u)]) \<subseteq> U \<and> length hs' < 2 ^ 32"
proof -
  obtain k where k: "k < length hs" "hs ! k = (b, u)" using x by (auto simp: in_set_conv_nth)
  obtain t' where "history (en_lib E) (en_params E) (take (Suc k) hs) t'" using history_take [OF h(1), of "Suc k"] k(1) by auto
  moreover have tk: "take (Suc k) hs = take k hs @ [(b, u)]" using k by (simp add: take_Suc_conv_app_nth)
  moreover have "set (take k hs @ [(b, u)]) \<subseteq> set hs" unfolding tk [symmetric] by (rule set_take_subset)
  then have "fst ` set (take k hs @ [(b, u)]) \<subseteq> U" using h(2) by blast
  ultimately show ?thesis using k(1) h(3) by (intro exI [of _ "take k hs"] exI [of _ b] exI [of _ t']) auto
qed

text \<open>From the fork to the end: what has been written, and the new active chain on success.\<close>

lemma reorg_finish:
  assumes inv: "chainInv E good U n c" and sit: "sited E U n (ch_store c) x h w"
    and q2: "quiet (en_store E) good fits (ch_store c) (ch_store c2)"
    and br: "branch E U pre c2" and hh: "\<And>y k. ch_heightByHash c2 y = Some k \<Longrightarrow> ch_heightByHash c y = Some k"
    and lk: "linkedFwd E (ch_store c2) (blockHash (en_sha E) (fst (last pre))) xs" and xs: "xs \<noteq> []" "last xs = x"
    and cl: "connectLoop E (of_nat (length pre)) xs c2 = (Inr conn, c3)"
    and pt: "st_PutChainTip (en_store E) (ch_store c3) x h = (rt, s4)"
    and uw: "undoWriteLoop E conn (c3\<lparr>ch_store := s4, ch_tipHash := x, ch_tipHeight := h, ch_tipWork := w\<rparr>) = (r, c')"
    and f: "fits (ch_store c')"
  shows "good (ch_store c') \<and> indexOk E U n (ch_store c') \<and> keepsIndex E (ch_store c) (ch_store c') \<and> fits (ch_store c)
    \<and> chainInv E good U n c' \<and> ch_tipHash c' = x \<and> ch_tipWork c' = w"
proof -
  have ix: "indexOk E U n (ch_store c2)" using indexOk_keeps [OF indexOk_inv [OF inv]] q2 by (simp add: quiet_def)
  obtain post where post: "branch E U (pre @ post) c3" "map (\<lambda>(b, u). (blockHash (en_sha E) b, u)) post = conn" "map fst conn = xs"
    and hc: "\<forall>y k. ch_heightByHash c3 y = Some k \<longrightarrow> ch_heightByHash c2 y = Some k \<or> (\<exists>w. sited E U n (ch_store c2) y k w)"
    using connectLoop_branch [OF br ix lk cl] by blast
  let ?hs = "pre @ post"
  have hist: "history (en_lib E) (en_params E) ?hs (ch_utxoSet c3)" "fst ` set ?hs \<subseteq> U" "length ?hs \<le> 2 ^ 32"
    using post(1) by (simp_all add: branch_def)
  have ne: "post \<noteq> []" using post(2,3) xs(1) by auto
  have tip: "blockHash (en_sha E) (fst (last ?hs)) = x"
    using post(2,3) xs ne by (auto simp: last_map case_prod_unfold)
  let ?c4 = "c3\<lparr>ch_store := s4, ch_tipHash := x, ch_tipHeight := h, ch_tipWork := w\<rparr>"
  have q3: "quiet (en_store E) good fits (ch_store c) (ch_store c3)"
    by (rule quiet_trans [OF q2 connectLoop_quiet [OF cl]])
  have "quiet (en_store E) good fits (ch_store c3) s4" using putTip [OF pt] by (simp add: quiet_def)
  from quiet_trans [OF q3 this] have q4: "quiet (en_store E) good fits (ch_store c) s4" .
  have ix4: "indexOk E U n s4" using indexOk_keeps [OF indexOk_inv [OF inv]] q4 by (simp add: quiet_def)
  have g4: "good s4" using q4 inv_good [OF inv] by (simp add: quiet_def)
  have k4: "keepsIndex E (ch_store c) s4" using q4 by (simp add: quiet_def keepsIndex_same)
  have undo: "\<forall>(x, u)\<in>set conn. \<exists>hs b t. history (en_lib E) (en_params E) (hs @ [(b, u)]) t \<and> blockHash (en_sha E) b = x
       \<and> fst ` set (hs @ [(b, u)]) \<subseteq> U \<and> length hs < 2 ^ 32"
  proof (clarify)
    fix y v assume "(y, v) \<in> set conn"
    then obtain b where b: "(b, v) \<in> set post" "y = blockHash (en_sha E) b" using post(2) by auto
    then have "(b, v) \<in> set ?hs" by simp
    from history_undos [OF hist this] b(2)
    show "\<exists>hs b t. history (en_lib E) (en_params E) (hs @ [(b, v)]) t \<and> blockHash (en_sha E) b = y
       \<and> fst ` set (hs @ [(b, v)]) \<subseteq> U \<and> length hs < 2 ^ 32" by simp
  qed
  have uwi: "good (ch_store c')" "indexOk E U n (ch_store c')" "keepsIndex E s4 (ch_store c')"
    using undoWriteLoop_inv [OF uw f _ _ undo, of n] g4 ix4 by simp_all
  have m: "sameMaps ?c4 c'" "ch_utxoSet c' = ch_utxoSet c3" using undoWriteLoop_frame [OF uw] by simp_all
  have "fits s4" using undoWriteLoop_fits [OF uw f] by simp
  then have f0: "fits (ch_store c)" using q4 by (simp add: quiet_def)
  have kc': "keepsIndex E (ch_store c) (ch_store c')" using keepsIndex_trans [OF k4] uwi by blast
  have "sited E U n (ch_store c') x h w" by (rule sited_keeps [OF sit kc' order_refl])
  then have "unat h = length ?hs - 1 \<and> w = chainWork ?hs"
    using sited_history [OF hist, of n "ch_store c'"] uwi tip by simp
  then have hw: "h = of_nat (length ?hs - 1)" "w = chainWork ?hs" by (metis of_nat_unat_id, blast)
  then have "activeChain E U ?hs c'"
    using post(1) m tip by (simp add: active_defs sameMaps_def)
  moreover have "\<exists>w. sited E U n (ch_store c') y k w" if hy: "ch_heightByHash c' y = Some k" for y k
  proof -
    have "ch_heightByHash c3 y = Some k" using hy m by (simp add: sameMaps_def)
    then have "ch_heightByHash c y = Some k \<or> (\<exists>w. sited E U n (ch_store c2) y k w)" using hc hh by blast
    moreover have "keepsIndex E (ch_store c2) (ch_store c)" using q2 by (simp add: quiet_def sameIndex_def keepsIndex_def)
    ultimately have "ch_heightByHash c y = Some k \<or> (\<exists>w. sited E U n (ch_store c) y k w)"
      using sited_keeps [of E U n "ch_store c2" y k _ "ch_store c" n] by blast
    then obtain w' where "sited E U n (ch_store c) y k w'" using inv unfolding chainInv_def by metis
    then show ?thesis using sited_keeps [OF _ kc' order_refl] by blast
  qed
  ultimately show ?thesis using uwi kc' f0 m by (auto simp: chainInv_def sameMaps_def)
qed

lemma reorgPost_quiet:
  assumes inv: "chainInv E good U n c" and "quiet (en_store E) good fits (ch_store c) (ch_store c')" "r \<noteq> Inr ()" "fits (ch_store c')"
  shows "reorgPost E good fits U n c x w r c'"
  using assms indexOk_keeps [OF indexOk_inv [OF inv]] by (simp add: reorgPost_def quiet_def chainInv_def keepsIndex_same)

lemma reorg_from_fork:
  assumes inv: "chainInv E good U n c" and sit: "sited E U n (ch_store c) x h w"
    and a: "activeChain E U hs c" and i: "i < length hs"
    and lk: "linkedFwd E (ch_store c) (blockHash (en_sha E) (fst (hs ! i))) xs" and xs: "xs \<noteq> []" "last xs = x"
    and ks: "ks = map of_nat [Suc i..<length hs]"
    and d: "disconnectLoop E (rev ks) c = (q1, c1)"
    and cl: "connectLoop E (of_nat i + 1) xs (fold removeOne ks c1) = (q2, c3)"
    and pt: "st_PutChainTip (en_store E) (ch_store c3) x h = (q3, s4)"
    and uw: "undoWriteLoop E conn (c3\<lparr>ch_store := s4, ch_tipHash := x, ch_tipHeight := h, ch_tipWork := w\<rparr>) = (q4, c4)"
    and out: "q1 = Inr () \<and> q2 = Inr conn \<and> (r, c') = (q4, c4) \<or> r \<noteq> Inr () \<and> c' = c1 \<or> q1 = Inr () \<and> r \<noteq> Inr () \<and> c' = c3"
    and f: "fits (ch_store c')"
  shows "reorgPost E good fits U n c x w r c'"
proof -
  let ?pre = "take (Suc i) hs" and ?post = "drop (Suc i) hs"
  have pre: "?pre \<noteq> []" "last ?pre = hs ! i" "length ?pre = Suc i" "?pre @ ?post = hs"
    using i last_snoc [of "take i hs" "hs ! i"] take_Suc_conv_app_nth [OF i] append_take_drop_id [of "Suc i" hs] by simp_all
  have br: "branch E U hs c" using a by (simp add: activeChain_def)
  note dq = disconnectLoop_quiet [OF d] and dm = disconnectLoop_frame [OF d]
  let ?c2 = "fold removeOne ks c1"
  have q2: "quiet (en_store E) good fits (ch_store c) (ch_store ?c2)" using dq by simp
  have q3: "quiet (en_store E) good fits (ch_store c) (ch_store c3)" by (rule quiet_trans [OF q2 connectLoop_quiet [OF cl]])
  consider (ended) "q1 = Inr ()" "q2 = Inr conn" "r = q4" "c' = c4" | (failed) "r \<noteq> Inr ()" "c' = c1 \<or> c' = c3"
    using out by auto
  then show ?thesis
  proof cases
    case failed
    then show ?thesis using reorgPost_quiet [OF inv _ failed(1) f] dq q3 by auto
  next
    case ended
    have hp: "history (en_lib E) (en_params E) ?pre (ch_utxoSet c1)"
    proof (rule disconnectLoop_history [OF indexOk_inv [OF inv]])
      show "disconnectLoop E (rev (map of_nat [length ?pre..<length (?pre @ ?post)])) c = (Inr (), c1)"
        using d ended(1) unfolding pre(3,4) ks by simp
    qed (use br pre in \<open>auto simp: branch_def heightMap_def\<close>)
    have "branch E U (?pre @ ?post) c" using br by simp
    note lb = leave_branch [OF this pre(1) dm hp, of ?c2]
    have e: "?c2 = fold removeOne (map of_nat [length ?pre..<length (?pre @ ?post)]) c1" unfolding pre(3,4) ks ..
    have cl': "connectLoop E (of_nat (length ?pre)) xs ?c2 = (Inr conn, c3)" using cl ended(2) pre(3) by (simp add: add.commute)
    have lk': "linkedFwd E (ch_store ?c2) (blockHash (en_sha E) (fst (last ?pre))) xs"
      using linkedFwd_quiet [OF lk q2] pre(2) by simp
    have "fits (ch_store c4)" using f ended(4) by simp
    from reorg_finish [OF inv sit q2 lb(1) [OF e] lb(2) [OF e] lk' xs cl' pt uw this]
    show ?thesis using ended by (simp add: reorgPost_def)
  qed
qed

lemma reorgBody_inv:
  assumes inv: "chainInv E good U n c" and sit: "sited E U n (ch_store c) x h w"
    and rb: "reorgBody E x h w c = (r, c')" and f: "fits (ch_store c')"
  shows "reorgPost E good fits U n c x w r c'"
proof -
  obtain hs where a: "activeChain E U hs c" using inv by (auto simp: chainInv_def)
  show ?thesis
  proof (cases "reorgWalk E c (Suc (unat h)) x [x]")
    case (Inl e)
    then show ?thesis using rb f by (intro reorgPost_quiet [OF inv]) (auto simp: reorgBody_def)
  next
    case (Inr nc)
    from reorgWalk_path [OF inv a Inr] obtain i where i: "i < length hs"
      and lk: "linkedFwd E (ch_store c) (blockHash (en_sha E) (fst (hs ! i))) (rev nc)" and nc: "nc \<noteq> []" "hd nc = x"
      by auto
    obtain b where b: "st_GetBlock (en_store E) (ch_store c) (last nc) = Inr b" "PrevBlock (Header b) = blockHash (en_sha E) (fst (hs ! i))"
      using lk nc(1) by (cases nc rule: rev_cases) auto
    have ph: "ch_heightByHash c (PrevBlock (Header b)) = Some (of_nat i)"
      using a i b(2) by (auto simp: active_defs)
    define ks where "ks = (map of_nat [Suc i..<length hs] :: u32 list)"
    have ha: "heightsAbove (of_nat i) (ch_tipHeight c) = ks"
      using heightsAbove_chain [OF i] a by (simp add: active_defs ks_def)
    obtain q1 c1 where d: "disconnectLoop E (rev ks) c = (q1, c1)" by fastforce
    obtain q2 c3 where cl: "connectLoop E (of_nat i + 1) (rev nc) (fold removeOne ks c1) = (q2, c3)" by fastforce
    obtain q3 s4 where pt: "st_PutChainTip (en_store E) (ch_store c3) x h = (q3, s4)" by fastforce
    obtain q4 c4 where uw: "undoWriteLoop E (case q2 of Inr conn \<Rightarrow> conn | _ \<Rightarrow> []) (c3\<lparr>ch_store := s4, ch_tipHash := x, ch_tipHeight := h, ch_tipWork := w\<rparr>) = (q4, c4)" by fastforce
    show ?thesis
    proof (cases "MaxReorgDepth (en_params E) > 0 \<and> ch_tipHeight c - of_nat i > MaxReorgDepth (en_params E)")
      case True
      then show ?thesis using rb f Inr b ph by (intro reorgPost_quiet [OF inv]) (auto simp: reorgBody_def Let_def)
    next
      case False
      note body = rb [unfolded reorgBody_def Inr sum.case b(1) ph option.case ha Let_def if_not_P [OF False] d prod.case cl pt]
      show ?thesis
      proof (rule reorg_from_fork [OF inv sit a i lk _ _ ks_def d cl pt uw _ f])
        show "rev nc \<noteq> []" "last (rev nc) = x" using nc by (simp_all add: last_rev)
        show "q1 = Inr () \<and> q2 = Inr (case q2 of Inr conn \<Rightarrow> conn | _ \<Rightarrow> []) \<and> (r, c') = (q4, c4) \<or> r \<noteq> Inr () \<and> c' = c1 \<or> q1 = Inr () \<and> r \<noteq> Inr () \<and> c' = c3"
          using body uw tipWrites [OF pt] by (cases q1; cases q2) auto
      qed
    qed
  qed
qed

lemma reorg_inv:
  assumes inv: "chainInv E good U n c" and sit: "sited E U n (ch_store c) x h w"
    and re: "reorg E x h w c = (r, c')" and f: "fits (ch_store c')"
  shows "chainInv E good U n c' \<and> fits (ch_store c) \<and> ch_orphans c' = ch_orphans c \<and> keepsIndex E (ch_store c) (ch_store c')
    \<and> (case r of Inr _ \<Rightarrow> ch_tipHash c' = x \<and> ch_tipWork c' = w | Inl _ \<Rightarrow> c' = c\<lparr>ch_store := ch_store c'\<rparr>)"
proof -
  obtain c1 where rb: "reorgBody E x h w c = (r, c1)" and st: "ch_store c' = ch_store c1"
    and ok: "r = Inr () \<Longrightarrow> c' = c1"
    using re by (cases "reorgBody E x h w c") (auto simp: reorg_def restoreSnapshot_def split: sum.splits)
  note post = reorgBody_inv [OF inv sit rb f [unfolded st], unfolded reorgPost_def]
  show ?thesis
  proof (cases r)
    case (Inl e)
    then have c': "c' = c\<lparr>ch_store := ch_store c'\<rparr>" using reorg_failure_restores re by simp
    have "chainInv E good U n (c\<lparr>ch_store := ch_store c'\<rparr>)"
      by (rule chainInv_store [OF inv order_refl]) (use post st in simp_all)
    moreover have "ch_orphans c' = ch_orphans c" by (subst c') simp
    moreover have "keepsIndex E (ch_store c) (ch_store c')" using post st by simp
    ultimately show ?thesis using post Inl c' by simp
  next
    case (Inr v)
    then show ?thesis using post ok reorgBody_orphans [OF rb] by simp
  qed
qed

end

end
