(* ===== verification/Chain_Props.thy ===== *)
theory Chain_Props
  imports Chain_Reorg
begin

text \<open>
  \<open>ProcessBlock\<close> as a whole: the chain invariant over every branch of the method and over the
  orphans it connects, the work of the tip, and the bounds of the orphan pool.
\<close>

section \<open>The order of equal work\<close>

lemma bytesLess_irrefl: "\<not> bytesLess x x"
  by (induction x) simp_all

lemma preferred_store [simp]: "preferred (c\<lparr>ch_store := s\<rparr>) x w = preferred c x w"
  by (simp add: preferred_def)

lemma preferred_work: "preferred c x w \<Longrightarrow> ch_tipWork c \<le> w"
  by (auto simp: preferred_def)

lemma extendChain_work: "extendChain E c x h w = (r, c') \<Longrightarrow> ch_tipWork c' = ch_tipWork c \<or> ch_tipWork c' = w"
  by (auto simp: extendChain_def split: sum.splits prod.splits)

lemma persist_work: "persistUtxoChanges E c b undo x = (r, c') \<Longrightarrow> ch_tipWork c' = ch_tipWork c"
  by (auto simp: persistUtxoChanges_def split: prod.splits)

lemma connectTip_work: "connectTip E c b x h w rec = (r, c') \<Longrightarrow> ch_tipWork c' = ch_tipWork c \<or> ch_tipWork c' = w"
  by (auto simp: connectTip_def Let_def split: sum.splits prod.splits dest!: persist_work extendChain_work)

lemma connectOrphanTip_work: "connectOrphanTip E c b x h w rec = (ok, c') \<Longrightarrow> ch_tipWork c' = ch_tipWork c \<or> ch_tipWork c' = w"
  by (auto simp: connectOrphanTip_def Let_def split: sum.splits prod.splits dest!: persist_work extendChain_work)

context chain_manager
begin

section \<open>The height map\<close>

lemma chainInv_addHeight:
  assumes inv: "chainInv E good U n c" and sit: "sited E U n (ch_store c) x h w"
  shows "chainInv E good U n (c\<lparr>ch_heightByHash := (ch_heightByHash c)(x \<mapsto> h)\<rparr>)"
proof -
  obtain hs where a: "activeChain E U hs c" using inv by (auto simp: chainInv_def)
  have "h = of_nat i" if i: "i < length hs" "blockHash (en_sha E) (fst (hs ! i)) = x" for i
  proof -
    have "ch_heightByHash c x = Some (of_nat i)" using a i by (auto simp: active_defs)
    then obtain w' where "sited E U n (ch_store c) x (of_nat i) w'" using inv by (auto simp: chainInv_def)
    from sited_unique [OF indexOk_inv [OF inv] sit this] show ?thesis by simp
  qed
  then have "activeChain E U hs (c\<lparr>ch_heightByHash := (ch_heightByHash c)(x \<mapsto> h)\<rparr>)"
    using a by (simp add: active_defs)
  then show ?thesis using inv sit by (auto simp: chainInv_def)
qed

definition offMain :: "hash \<Rightarrow> 's Chain \<Rightarrow> bool" where
  "offMain x c \<longleftrightarrow> (\<forall>h. ch_hashByHeight c h \<noteq> Some x)"

lemma chainInv_delHeight:
  assumes inv: "chainInv E good U n c" and off: "offMain x c"
  shows "chainInv E good U n (c\<lparr>ch_heightByHash := (ch_heightByHash c)(x := None)\<rparr>)"
proof -
  obtain hs where a: "activeChain E U hs c" using inv by (auto simp: chainInv_def)
  have "blockHash (en_sha E) (fst (hs ! i)) \<noteq> x" if i: "i < length hs" for i
  proof -
    have "ch_hashByHeight c (of_nat i) = Some (blockHash (en_sha E) (fst (hs ! i)))"
      using a i by (simp add: active_defs heightMap_def)
    then show ?thesis using off by (auto simp: offMain_def)
  qed
  then have "activeChain E U hs (c\<lparr>ch_heightByHash := (ch_heightByHash c)(x := None)\<rparr>)"
    using a by (simp add: active_defs)
  then show ?thesis using inv by (auto simp: chainInv_def)
qed

lemma preferred_offMain:
  assumes inv: "chainInv E good U n c" and sit: "sited E U n (ch_store c) x h w" and pr: "preferred c x w"
  shows "offMain x c"
  unfolding offMain_def
proof (intro allI notI)
  fix k assume k: "ch_hashByHeight c k = Some x"
  obtain hs where a: "activeChain E U hs c" using inv by (auto simp: chainInv_def)
  then have h: "history (en_lib E) (en_params E) hs (ch_utxoSet c)" "fst ` set hs \<subseteq> U" "length hs \<le> 2 ^ 32"
    and tip: "ch_tipHash c = blockHash (en_sha E) (fst (last hs))" "ch_tipWork c = chainWork hs"
    by (simp_all add: active_defs)
  let ?i = "unat k"
  have i: "?i < length hs" "x = blockHash (en_sha E) (fst (hs ! ?i))"
    using a k by (auto simp: active_defs heightMap_def split: if_splits)
  obtain t where t: "history (en_lib E) (en_params E) (take (Suc ?i) hs) t" using history_take [OF h(1), of "Suc ?i"] i(1) by auto
  have l: "last (take (Suc ?i) hs) = hs ! ?i" using i(1) by (simp add: take_Suc_conv_app_nth)
  have sub: "fst ` set (take (Suc ?i) hs) \<subseteq> U" using h(2) set_take_subset [of "Suc ?i" hs] by blast
  have w: "w = chainWork (take (Suc ?i) hs)"
    using sited_history [OF t sub _ indexOk_inv [OF inv], of n h w] sit i(2) l h(3) by simp
  have split: "chainWork hs = w + chainWork (drop (Suc ?i) hs)"
    unfolding w chainWork_simps(2) [symmetric] append_take_drop_id ..
  show False
  proof (cases "drop (Suc ?i) hs")
    case Nil
    then have "last hs = hs ! ?i" using l i(1) by simp
    then show False using pr i(2) tip split Nil bytesLess_irrefl by (auto simp: preferred_def)
  next
    case (Cons y ys)
    then have "y \<in> set hs" using set_drop_subset [of "Suc ?i" hs] by auto
    then have "0 < CalcWork (Bits (Header (fst y)))" using work h(2) by auto
    then show False using pr split tip(2) Cons chainWork_nonneg [of ys] by (auto simp: preferred_def)
  qed
qed

section \<open>Room in the files\<close>

text \<open>Files only grow: when they are within their limits after an operation, they were before it.\<close>

lemma fits_back:
  "st_WriteBlock (en_store E) s x b = (rb, s') \<Longrightarrow> fits s' \<Longrightarrow> fits s"
  "st_PutChainTip (en_store E) s x h = (r, s') \<Longrightarrow> fits s' \<Longrightarrow> fits s"
  using writeBlock putTip by blast+

lemma connectTip_fits: "connectTip E c b x h w rec = (r, c') \<Longrightarrow> fits (ch_store c') \<Longrightarrow> fits (ch_store c)"
  by (auto simp: connectTip_def Let_def split: sum.splits prod.splits dest!: extendChain_frame persist_frame dest: writes_fit)

lemma connectOrphanTip_fits: "connectOrphanTip E c b x h w rec = (ok, c') \<Longrightarrow> fits (ch_store c') \<Longrightarrow> fits (ch_store c)"
  by (auto simp: connectOrphanTip_def Let_def split: sum.splits prod.splits dest!: extendChain_frame persist_frame dest: writes_fit)

lemma quiet_fits:
  "disconnectLoop E hs c = (r, c') \<Longrightarrow> fits (ch_store c') = fits (ch_store c)"
  "connectLoop E h xs c = (rc, c') \<Longrightarrow> fits (ch_store c') = fits (ch_store c)"
  using disconnectLoop_quiet connectLoop_quiet by (auto simp: quiet_def)

lemma reorgBody_fits: "reorgBody E x h w c = (r, c') \<Longrightarrow> fits (ch_store c') \<Longrightarrow> fits (ch_store c)"
  by (auto simp: reorgBody_def Let_def split: sum.splits prod.splits if_splits
      dest!: quiet_fits undoWriteLoop_fits dest: fits_back)

lemma reorg_fits: "reorg E x h w c = (r, c') \<Longrightarrow> fits (ch_store c') \<Longrightarrow> fits (ch_store c)"
  by (auto simp: reorg_def restoreSnapshot_def split: sum.splits prod.splits dest: reorgBody_fits)

end

section \<open>The ways through the method\<close>

lemma processOrphan_cases:
  assumes po: "processOrphan E clock (x, b) c = (out, c')"
  obtains (skip) "c' = c"
  | (failed) ph w rb s1 where "ch_heightByHash c (PrevBlock (Header b)) = Some ph" "checkBlock E c (clock x) b ph = Inr w"
      "st_WriteBlock (en_store E) (ch_store c) x b = (rb, s1)" "c' = c\<lparr>ch_store := s1\<rparr>"
  | (tip) ph w loc s1 ok where "ch_heightByHash c (PrevBlock (Header b)) = Some ph" "checkBlock E c (clock x) b ph = Inr w"
      "st_WriteBlock (en_store E) (ch_store c) x b = (Inr loc, s1)" "PrevBlock (Header b) = ch_tipHash c"
      "connectOrphanTip E (c\<lparr>ch_store := s1\<rparr>) b x (ph + 1) w (newRecord b (ph + 1) loc w) = (ok, c')"
  | (side) ph w loc s1 q s2 where "ch_heightByHash c (PrevBlock (Header b)) = Some ph" "checkBlock E c (clock x) b ph = Inr w"
      "st_WriteBlock (en_store E) (ch_store c) x b = (Inr loc, s1)"
      "st_PutBlockIndex (en_store E) s1 x (newRecord b (ph + 1) loc w) = (q, s2)"
      "c' = c\<lparr>ch_store := s2, ch_heightByHash := (ch_heightByHash c)(x \<mapsto> ph + 1)\<rparr>"
  | (switch) ph w loc s1 q s2 r c2 where "ch_heightByHash c (PrevBlock (Header b)) = Some ph" "checkBlock E c (clock x) b ph = Inr w"
      "st_WriteBlock (en_store E) (ch_store c) x b = (Inr loc, s1)"
      "st_PutBlockIndex (en_store E) s1 x (newRecord b (ph + 1) loc w) = (q, s2)" "preferred c x w"
      "reorg E x (ph + 1) w (c\<lparr>ch_store := s2, ch_heightByHash := (ch_heightByHash c)(x \<mapsto> ph + 1)\<rparr>) = (r, c2)"
      "c' = c2 \<or> (\<exists>e. r = Inl e) \<and> c' = c2\<lparr>ch_heightByHash := (ch_heightByHash c2)(x := None)\<rparr>"
proof (cases "ch_heightByHash c (PrevBlock (Header b))")
  case None
  then show ?thesis using po skip by (simp add: processOrphan_def)
next
  case ph: (Some ph)
  show ?thesis
  proof (cases "checkBlock E c (clock x) b ph")
    case (Inl e)
    then show ?thesis using po ph skip by (simp add: processOrphan_def)
  next
    case ck: (Inr w)
    obtain rb s1 where wr: "st_WriteBlock (en_store E) (ch_store c) x b = (rb, s1)" by fastforce
    show ?thesis
    proof (cases rb)
      case (Inl e)
      then show ?thesis using po ph ck wr failed by (simp add: processOrphan_def)
    next
      case loc: (Inr loc)
      note body = po [unfolded processOrphan_def Let_def fst_conv snd_conv ph option.case ck sum.case wr prod.case loc]
      obtain q s2 where put: "st_PutBlockIndex (en_store E) s1 x (newRecord b (ph + 1) loc w) = (q, s2)" by fastforce
      obtain r c2 where re: "reorg E x (ph + 1) w (c\<lparr>ch_store := s2, ch_heightByHash := (ch_heightByHash c)(x \<mapsto> ph + 1)\<rparr>) = (r, c2)" by fastforce
      have pr: "preferred (c\<lparr>ch_store := s1\<rparr>) x w = preferred c x w" by (simp add: preferred_def)
      show ?thesis
      proof (cases "PrevBlock (Header b) = ch_tipHash c")
        case True
        obtain ok c2 where co: "connectOrphanTip E (c\<lparr>ch_store := s1\<rparr>) b x (ph + 1) w (newRecord b (ph + 1) loc w) = (ok, c2)" by fastforce
        then have "c2 = c'" using body True by simp
        then show ?thesis using tip [OF ph ck wr [unfolded loc] True] co by simp
      next
        case nt: False
        show ?thesis
        proof (cases "preferred c x w")
          case False
          then show ?thesis using body nt pr put by (intro side [OF ph ck wr [unfolded loc] put]) auto
        next
          case True
          then show ?thesis using body nt pr put re
            by (intro switch [OF ph ck wr [unfolded loc] put True re]) (auto split: sum.splits reorg_error.splits)
        qed
      qed
    qed
  qed
qed

context chain_manager
begin

section \<open>Orphans\<close>

text \<open>What processing one block keeps: the invariant, the orphan pool, and the work of the tip.\<close>

definition kept :: "nat \<Rightarrow> 's Chain \<Rightarrow> 's Chain \<Rightarrow> bool" where
  "kept m c c' \<longleftrightarrow> chainInv E good U m c' \<and> ch_orphans c' = ch_orphans c \<and> ch_tipWork c \<le> ch_tipWork c'"

lemma tip_child_work:
  assumes inv: "chainInv E good U n c" and pl: "placed E (ch_store c) b nh w" and prev: "PrevBlock (Header b) = ch_tipHash c"
  shows "ch_tipWork c \<le> w"
proof -
  obtain hs where a: "activeChain E U hs c" using inv by (auto simp: chainInv_def)
  then have h: "history (en_lib E) (en_params E) hs (ch_utxoSet c)" "fst ` set hs \<subseteq> U" "length hs \<le> 2 ^ 32"
    and tip: "PrevBlock (Header b) = blockHash (en_sha E) (fst (last hs))" "ch_tipWork c = chainWork hs"
    using prev by (simp_all add: active_defs)
  show ?thesis using child_height(3) [OF h indexOk_inv [OF inv] pl tip(1)] tip(2) CalcWork_nonneg [of "Bits (Header b)"] by simp
qed

lemma processOrphan_fits:
  assumes "processOrphan E clock (x, b) c = (out, c')" "fits (ch_store c')"
  shows "fits (ch_store c)"
  using assms(1)
proof (cases rule: processOrphan_cases)
  case (switch ph w loc s1 q s2 r c2)
  then have "fits (ch_store c2)" using assms(2) by auto
  from reorg_fits [OF switch(6) this] show ?thesis using switch writes_fit fits_back by simp
next
  case (tip ph w loc s1 ok)
  show ?thesis using connectOrphanTip_fits [OF tip(5) assms(2)] fits_back(1) [OF tip(3)] by simp
qed (use assms(2) connectOrphanTip_fits writes_fit fits_back in auto)

text \<open>A checked block that is stored beside the active chain.\<close>

lemma side_block:
  assumes inv: "chainInv E good U n c" and rec: "recOk E U (Suc n) (ch_store c) x rec" "di_ChainWork rec = Some w"
    and put: "st_PutBlockIndex (en_store E) (ch_store c) x rec = (q, s2)"
  shows "chainInv E good U (Suc n) (c\<lparr>ch_store := s2\<rparr>)" "sited E U (Suc n) s2 x (di_Height rec) w"
    "chainInv E good U (Suc n) (c\<lparr>ch_store := s2, ch_heightByHash := (ch_heightByHash c)(x \<mapsto> di_Height rec)\<rparr>)"
proof -
  note ip = index_put [OF indexOk_inv [OF inv] le_SucI [OF order_refl] rec(1) put]
  show i: "chainInv E good U (Suc n) (c\<lparr>ch_store := s2\<rparr>)"
    by (rule chainInv_store [OF inv le_SucI [OF order_refl] _ ip(1,2)]) (use ip(5) inv_good [OF inv] in simp)
  show s: "sited E U (Suc n) s2 x (di_Height rec) w" by (rule sited_keeps [OF recOk_sited [OF rec] ip(2) order_refl])
  from chainInv_addHeight [OF i, of x "di_Height rec" w] s
  show "chainInv E good U (Suc n) (c\<lparr>ch_store := s2, ch_heightByHash := (ch_heightByHash c)(x \<mapsto> di_Height rec)\<rparr>)" by simp
qed

lemma processOrphan_kept:
  assumes inv: "chainInv E good U n c" and n: "n < 2 ^ 32 - 1" and b: "b \<in> U"
    and po: "processOrphan E clock (blockHash (en_sha E) b, b) c = (out, c')" and f: "fits (ch_store c')"
  shows "kept (Suc n) c c'"
  using po
proof (cases rule: processOrphan_cases)
  case skip
  then show ?thesis using chainInv_mono [OF inv, of "Suc n"] by (simp add: kept_def)
next
  case (failed ph w rb s1)
  then have "fits s1" using f by simp
  from newRecord_ok(1) [OF inv failed(1,2) n b failed(3) this] chainInv_mono [of E good U n c' "Suc n"] failed(4)
  show ?thesis by (simp add: kept_def)
next
  case (tip ph w loc s1 ok)
  have "fits s1" using connectOrphanTip_fits [OF tip(5) f] by simp
  note nr = newRecord_ok [OF inv tip(1,2) n b tip(3) this]
  note ck = checkBlock_ok [OF inv tip(1,2) n]
  have "chainInv E good U (Suc n) c' \<and> ch_orphans c' = ch_orphans c"
    using connectOrphanTip_inv [OF nr(1) b ck(5) _ _ _ _ tip(5) f] nr(3) [OF refl] tip(4) by simp
  moreover have "ch_tipWork c \<le> ch_tipWork c'"
    using connectOrphanTip_work [OF tip(5)] tip_child_work [OF inv ck(1) tip(4)] by auto
  ultimately show ?thesis by (simp add: kept_def)
next
  case (side ph w loc s1 q s2)
  then have "fits s2" using f by simp
  then have "fits s1" using writes_fit(2) [OF side(4)] by simp
  note nr = newRecord_ok [OF inv side(1,2) n b side(3) this]
  from side_block(3) [OF nr(1), of "blockHash (en_sha E) b" "newRecord b (ph + 1) loc w" w q s2, simplified, OF nr(3) [OF refl] side(4)] side(5)
  show ?thesis by (simp add: kept_def)
next
  case (switch ph w loc s1 q s2 r c2)
  let ?x = "blockHash (en_sha E) b" and ?c1 = "c\<lparr>ch_store := s2, ch_heightByHash := (ch_heightByHash c)(blockHash (en_sha E) b \<mapsto> ph + 1)\<rparr>"
  have f2: "fits (ch_store c2)" using switch(7) f by auto
  have "fits s2" using reorg_fits [OF switch(6) f2] by simp
  then have "fits s1" using writes_fit(2) [OF switch(4)] by simp
  note nr = newRecord_ok [OF inv switch(1,2) n b switch(3) this]
  note sb = side_block [OF nr(1), of ?x "newRecord b (ph + 1) loc w" w q s2, simplified, OF nr(3) [OF refl] switch(4)]
  have sit: "sited E U (Suc n) (ch_store ?c1) ?x (ph + 1) w" using sb(2) by simp
  note ri = reorg_inv [OF sb(3) sit switch(6) f2]
  show ?thesis
  proof (cases r)
    case (Inr v)
    then show ?thesis using ri switch(7) preferred_work [OF switch(5)] by (auto simp: kept_def)
  next
    case (Inl e)
    then have c2: "c2 = ?c1\<lparr>ch_store := ch_store c2\<rparr>" using ri by simp
    have "offMain ?x ?c1" by (rule preferred_offMain [OF sb(3) sit]) (use switch(5) in \<open>simp add: preferred_def\<close>)
    then have "offMain ?x c2" by (subst c2) (simp add: offMain_def)
    then have "chainInv E good U (Suc n) (c2\<lparr>ch_heightByHash := (ch_heightByHash c2)(?x := None)\<rparr>)"
      using chainInv_delHeight ri by simp
    moreover have "ch_tipWork c2 = ch_tipWork c" by (subst c2) simp
    ultimately show ?thesis using ri switch(7) by (auto simp: kept_def)
  qed
qed

lemma orphanEntries_fits:
  "orphanEntries E clock es queue c = (queue', c') \<Longrightarrow> fits (ch_store c') \<Longrightarrow> fits (ch_store c)"
proof (induction es arbitrary: queue c)
  case (Cons e es)
  obtain out c1 where po: "processOrphan E clock (fst e, snd e) c = (out, c1)" by fastforce
  then have "fits (ch_store c1)" using Cons by (auto split: orphan_outcome.splits)
  then show ?case using processOrphan_fits [OF po] by simp
qed simp

lemma orphanEntries_kept:
  assumes "chainInv E good U n c" "n + length es < 2 ^ 32" "\<forall>(x, b)\<in>set es. b \<in> U \<and> x = blockHash (en_sha E) b"
    and "orphanEntries E clock es queue c = (queue', c')" "fits (ch_store c')"
  shows "kept (n + length es) c c'"
  using assms
proof (induction es arbitrary: queue c n)
  case Nil
  then show ?case by (simp add: kept_def)
next
  case (Cons e es)
  obtain b where e: "e = (blockHash (en_sha E) b, b)" "b \<in> U" using Cons.prems(3) by (cases e) auto
  obtain out c1 where po: "processOrphan E clock e c = (out, c1)" by fastforce
  have rest: "out = OrphanReorged \<and> c' = c1 \<or> (\<exists>q. orphanEntries E clock es q c1 = (queue', c'))"
    using Cons.prems(4) po by (auto split: orphan_outcome.splits)
  then have f1: "fits (ch_store c1)" using Cons.prems(5) orphanEntries_fits by blast
  have k: "kept (Suc n) c c1"
    by (rule processOrphan_kept [OF Cons.prems(1) _ e(2) po [unfolded e] f1]) (use Cons.prems(2) in simp)
  show ?case
  proof (cases "out = OrphanReorged \<and> c' = c1")
    case True
    then show ?thesis using k chainInv_mono [of E good U "Suc n" c1 "n + length (e # es)"] by (simp add: kept_def)
  next
    case False
    then obtain q where "orphanEntries E clock es q c1 = (queue', c')" using rest by blast
    from Cons.IH [OF _ _ _ this Cons.prems(5), of "Suc n"] k Cons.prems(2,3) show ?thesis by (auto simp: kept_def)
  qed
qed

text \<open>The pool holds blocks under their own hashes.\<close>

definition poolOk :: "(hash \<times> orphanBlock) list \<Rightarrow> bool" where
  "poolOk os \<longleftrightarrow> (\<forall>(x, ob)\<in>set os. ob_block ob \<in> U \<and> x = blockHash (en_sha E) (ob_block ob))"

lemma set_orphansOf: "set (orphansOf parent os) = (\<lambda>(x, ob). (x, ob_block ob)) ` {(x, ob) \<in> set os. PrevBlock (Header (ob_block ob)) = parent}"
proof -
  have "set (sortSlice le xs) = set xs" for le and xs :: "(hash \<times> Block) list"
    by (metis mset_sortSlice set_mset_mset)
  then show ?thesis by (auto simp: orphansOf_def)
qed

lemma length_orphans_split: "length (orphansOf parent os) + length (otherOrphans parent os) = length os"
proof -
  have "length (sortSlice le xs) = length xs" for le and xs :: "(hash \<times> Block) list"
    by (metis mset_sortSlice size_mset)
  then have "length (orphansOf parent os) = length (filter (\<lambda>(h, ob). PrevBlock (Header (ob_block ob)) = parent) os)"
    by (simp add: orphansOf_def)
  then show ?thesis
    using sum_length_filter_compl [of "\<lambda>(h, ob). PrevBlock (Header (ob_block ob)) = parent" os]
    by (simp add: otherOrphans_def case_prod_unfold)
qed

lemma orphanLoop_fits: "E' = E \<Longrightarrow> fits (ch_store (orphanLoop E' clock queue os c)) \<Longrightarrow> fits (ch_store c)"
proof (induction E' clock queue os c rule: orphanLoop.induct)
  case (2 E' clock parent queue os c)
  obtain q c1 where oe: "orphanEntries E clock (orphansOf parent os) queue c = (q, c1)" by fastforce
  then have "fits (ch_store c1)" using 2 by simp
  then show ?case using orphanEntries_fits [OF oe] by simp
qed simp

lemma orphanLoop_inv:
  assumes "E' = E" "chainInv E good U n c" "n + length os < 2 ^ 32" "poolOk os" "fits (ch_store (orphanLoop E' clock queue os c))"
  shows "\<exists>m. chainInv E good U m (orphanLoop E' clock queue os c)
      \<and> m + length (ch_orphans (orphanLoop E' clock queue os c)) \<le> n + length os
      \<and> set (ch_orphans (orphanLoop E' clock queue os c)) \<subseteq> set os
      \<and> ch_tipWork c \<le> ch_tipWork (orphanLoop E' clock queue os c)"
  using assms
proof (induction E' clock queue os c arbitrary: n rule: orphanLoop.induct)
  case (1 E' clock os c)
  then show ?case by (intro exI [of _ n]) (simp add: chainInv_def active_defs)
next
  case (2 E' clock parent queue os c)
  obtain q c1 where oe: "orphanEntries E clock (orphansOf parent os) queue c = (q, c1)" by fastforce
  let ?rest = "otherOrphans parent os" and ?out = "orphanLoop E clock q (otherOrphans parent os) c1"
  have out: "orphanLoop E' clock (parent # queue) os c = ?out" using oe 2(2) by simp
  have f1: "fits (ch_store c1)" by (rule orphanLoop_fits [OF refl]) (use 2(6) out in simp)
  have len: "length (orphansOf parent os) + length ?rest = length os" by (rule length_orphans_split)
  have "\<forall>(x, b)\<in>set (orphansOf parent os). b \<in> U \<and> x = blockHash (en_sha E) b"
    using 2(5) by (auto simp: poolOk_def set_orphansOf)
  from orphanEntries_kept [OF 2(3) _ this oe f1] 2(4) len
  have k: "kept (n + length (orphansOf parent os)) c c1" by simp
  have "poolOk ?rest" using 2(5) by (auto simp: poolOk_def otherOrphans_def)
  with 2(1) [of q c1 "n + length (orphansOf parent os)"] 2(2,4,6) out oe k len
  obtain m where m: "chainInv E good U m ?out" "m + length (ch_orphans ?out) \<le> n + length os"
    "set (ch_orphans ?out) \<subseteq> set ?rest" "ch_tipWork c1 \<le> ch_tipWork ?out"
    by (auto simp: kept_def)
  moreover have "set ?rest \<subseteq> set os" by (auto simp: otherOrphans_def)
  ultimately show ?case using k out by (intro exI [of _ m]) (auto simp: kept_def)
qed

end

section \<open>ProcessBlock\<close>

lemma ProcessBlock_cases:
  fixes E c b x
  defines "x \<equiv> blockHash (en_sha E) b"
  assumes pb: "ProcessBlock E clock wall pick b c = (res, c')"
  obtains (reject) "c' = c"
  | (orphan) "ch_heightByHash c x = None" "map_of (ch_orphans c) x = None" "ch_heightByHash c (PrevBlock (Header b)) = None"
      "c' = c\<lparr>ch_orphans := (let os = evictExpiredOrphans wall (ch_orphans c) in
         if length os \<ge> MaxOrphanBlocks then evictRandomOrphan pick os else os) @ [(x, \<lparr>ob_block = b, ob_addedAt = wall\<rparr>)]\<rparr>"
  | (failed) ph w rb s1 where "ch_heightByHash c (PrevBlock (Header b)) = Some ph" "checkBlock E c (clock x) b ph = Inr w"
      "st_WriteBlock (en_store E) (ch_store c) x b = (rb, s1)" "c' = c\<lparr>ch_store := s1\<rparr>"
  | (tip) ph w loc s1 r c1 where "ch_heightByHash c (PrevBlock (Header b)) = Some ph" "checkBlock E c (clock x) b ph = Inr w"
      "st_WriteBlock (en_store E) (ch_store c) x b = (Inr loc, s1)" "PrevBlock (Header b) = ch_tipHash c"
      "connectTip E (c\<lparr>ch_store := s1\<rparr>) b x (ph + 1) w (newRecord b (ph + 1) loc w) = (r, c1)"
      "c' = c1 \<or> c' = processOrphans E clock x c1"
  | (side) ph w loc s1 q s2 where "ch_heightByHash c (PrevBlock (Header b)) = Some ph" "checkBlock E c (clock x) b ph = Inr w"
      "st_WriteBlock (en_store E) (ch_store c) x b = (Inr loc, s1)"
      "st_PutBlockIndex (en_store E) s1 x (newRecord b (ph + 1) loc w) = (q, s2)"
      "c' = c\<lparr>ch_store := s2\<rparr> \<or> c' = processOrphans E clock x (c\<lparr>ch_store := s2, ch_heightByHash := (ch_heightByHash c)(x \<mapsto> ph + 1)\<rparr>)"
      "PrevBlock (Header b) \<noteq> ch_tipHash c"
  | (switch) ph w loc s1 q s2 r c2 where "ch_heightByHash c (PrevBlock (Header b)) = Some ph" "checkBlock E c (clock x) b ph = Inr w"
      "st_WriteBlock (en_store E) (ch_store c) x b = (Inr loc, s1)"
      "st_PutBlockIndex (en_store E) s1 x (newRecord b (ph + 1) loc w) = (q, s2)" "preferred c x w"
      "reorg E x (ph + 1) w (c\<lparr>ch_store := s2\<rparr>) = (r, c2)"
      "c' = c2 \<or> c' = processOrphans E clock x c2
        \<or> (\<exists>e. r = Inl e) \<and> c' = processOrphans E clock x (c2\<lparr>ch_heightByHash := (ch_heightByHash c2)(x \<mapsto> ph + 1)\<rparr>)"
      "PrevBlock (Header b) \<noteq> ch_tipHash c"
proof -
  note pb1 = pb [unfolded ProcessBlock_def Let_def x_def [symmetric]]
  consider (old) "ch_heightByHash c x \<noteq> None \<or> map_of (ch_orphans c) x \<noteq> None"
    | (new) "ch_heightByHash c x = None" "map_of (ch_orphans c) x = None" by blast
  then show ?thesis
  proof cases
    case old
    then have "c' = c" using pb1 by (cases "ch_heightByHash c x"; cases "map_of (ch_orphans c) x") auto
    then show ?thesis by (rule reject)
  next
    case new
  show ?thesis
  proof (cases "ch_heightByHash c (PrevBlock (Header b))")
    case None
    then show ?thesis
    proof (cases "ValidateProofOfWork x (Bits (Header b))")
      case (Inl e)
      then show ?thesis using pb1 new None reject by auto
    next
      case (Inr v)
      then show ?thesis using pb1 new None by (intro orphan) (auto simp: Let_def)
    qed
  next
    case ph: (Some ph)
    show ?thesis
    proof (cases "checkBlock E c (clock x) b ph")
      case (Inl e)
      then show ?thesis using pb1 new ph reject by auto
    next
      case ck: (Inr w)
      obtain rb s1 where wr: "st_WriteBlock (en_store E) (ch_store c) x b = (rb, s1)" by fastforce
      show ?thesis
      proof (cases rb)
        case (Inl e)
        then show ?thesis using pb1 new ph ck wr failed by auto
      next
        case loc: (Inr loc)
        note body = pb1 new ph ck wr loc
        obtain q s2 where put: "st_PutBlockIndex (en_store E) s1 x (newRecord b (ph + 1) loc w) = (q, s2)" by fastforce
        obtain r c2 where re: "reorg E x (ph + 1) w (c\<lparr>ch_store := s2\<rparr>) = (r, c2)" by fastforce
        obtain r1 c1 where ct: "connectTip E (c\<lparr>ch_store := s1\<rparr>) b x (ph + 1) w (newRecord b (ph + 1) loc w) = (r1, c1)" by fastforce
        show ?thesis
        proof (cases "PrevBlock (Header b) = ch_tipHash c")
          case True
          then show ?thesis using body ct by (intro tip [OF ph ck wr [unfolded loc] True ct]) (auto split: sum.splits)
        next
          case nt: False
          show ?thesis
          proof (cases "preferred c x w \<and> q = Inr ()")
            case False
            then show ?thesis using body nt put by (intro side [OF ph ck wr [unfolded loc] put]) (auto split: sum.splits)
          next
            case True
            then show ?thesis using body nt put re
              by (intro switch [OF ph ck wr [unfolded loc] put _ re]) (auto split: sum.splits reorg_error.splits)
          qed
        qed
      qed
    qed
  qed
  qed
qed

lemma evict_sets:
  "set (evictExpiredOrphans wall os) \<subseteq> set os" "set (evictRandomOrphan pick os) \<subseteq> set os"
  "length (evictExpiredOrphans wall os) \<le> length os" "length (evictRandomOrphan pick os) \<le> length os"
  using set_take_subset set_drop_subset
  by (fastforce simp: evictExpiredOrphans_def evictRandomOrphan_def Let_def min_def)+

context chain_manager
begin

text \<open>What \<open>ProcessBlock\<close> keeps; \<open>m\<close> bounds the heights and the pool together.\<close>

definition stepped :: "nat \<Rightarrow> 's Chain \<Rightarrow> 's Chain \<Rightarrow> bool" where
  "stepped N c c' \<longleftrightarrow> (\<exists>m. chainInv E good U m c' \<and> m + length (ch_orphans c') \<le> N)
     \<and> poolOk (ch_orphans c') \<and> ch_tipWork c \<le> ch_tipWork c'"

lemma kept_stepped:
  assumes "kept (Suc n) c c'" "poolOk (ch_orphans c)"
  shows "stepped (Suc (n + length (ch_orphans c))) c c'"
  using assms unfolding kept_def stepped_def by fastforce

lemma processOrphans_stepped:
  assumes k: "kept (Suc n) c c1" and pool: "poolOk (ch_orphans c)" and N: "n + length (ch_orphans c) < 2 ^ 32 - 1"
    and f: "fits (ch_store (processOrphans E clock x c1))"
  shows "stepped (Suc (n + length (ch_orphans c))) c (processOrphans E clock x c1)"
proof -
  have os: "ch_orphans c1 = ch_orphans c" and inv: "chainInv E good U (Suc n) c1" and w: "ch_tipWork c \<le> ch_tipWork c1"
    using k by (simp_all add: kept_def)
  from orphanLoop_inv [OF refl inv, of "ch_orphans c" clock "[x]"] N pool f
  obtain m where "chainInv E good U m (processOrphans E clock x c1)"
    "m + length (ch_orphans (processOrphans E clock x c1)) \<le> Suc n + length (ch_orphans c)"
    "set (ch_orphans (processOrphans E clock x c1)) \<subseteq> set (ch_orphans c)"
    "ch_tipWork c1 \<le> ch_tipWork (processOrphans E clock x c1)"
    by (auto simp: processOrphans_def os)
  then show ?thesis using pool w unfolding stepped_def poolOk_def by (auto intro!: exI [of _ m])
qed

lemma processOrphans_fits: "fits (ch_store (processOrphans E clock x c)) \<Longrightarrow> fits (ch_store c)"
  unfolding processOrphans_def by (rule orphanLoop_fits [OF refl])

lemma either_stepped:
  assumes "kept (Suc n) c c1" "poolOk (ch_orphans c)" "n + length (ch_orphans c) < 2 ^ 32 - 1"
    and "c' = c1 \<or> c' = processOrphans E clock x c1" "fits (ch_store c')"
  shows "stepped (Suc (n + length (ch_orphans c))) c c'"
  using assms kept_stepped processOrphans_stepped by metis

lemma ProcessBlock_stepped:
  assumes inv: "chainInv E good U n c" and pool: "poolOk (ch_orphans c)" and N: "n + length (ch_orphans c) < 2 ^ 32 - 1"
    and b: "b \<in> U" and pb: "ProcessBlock E clock wall pick b c = (res, c')" and f: "fits (ch_store c')"
  shows "stepped (Suc (n + length (ch_orphans c))) c c'"
  using pb
proof (cases rule: ProcessBlock_cases)
  case reject
  then show ?thesis using inv pool by (auto simp: stepped_def)
next
  case orphan
  let ?os = "evictExpiredOrphans wall (ch_orphans c)"
  define os where "os = (if length ?os \<ge> MaxOrphanBlocks then evictRandomOrphan pick ?os else ?os)"
  have os: "set os \<subseteq> set (ch_orphans c)" "length os \<le> length (ch_orphans c)"
    using evict_sets(1,3) [of wall "ch_orphans c"] evict_sets(2,4) [of pick ?os] by (auto simp: os_def)
  have c': "c' = c\<lparr>ch_orphans := os @ [(blockHash (en_sha E) b, \<lparr>ob_block = b, ob_addedAt = wall\<rparr>)]\<rparr>"
    using orphan(4) by (simp add: os_def Let_def)
  have "chainInv E good U n c'" using inv by (simp add: c' chainInv_def active_defs)
  moreover have "poolOk (ch_orphans c')" using pool os(1) b by (auto simp: c' poolOk_def)
  ultimately show ?thesis using os(2) by (auto simp: stepped_def c' intro!: exI [of _ n])
next
  case (failed ph w rb s1)
  then have "fits s1" using f by simp
  from newRecord_ok(1) [OF inv failed(1,2) _ b failed(3) this] N failed(4)
  show ?thesis using pool by (auto simp: stepped_def intro!: exI [of _ n])
next
  case (tip ph w loc s1 r c1)
  have n: "n < 2 ^ 32 - 1" using N by simp
  have f1: "fits (ch_store c1)" using tip(6) f processOrphans_fits by auto
  have "fits s1" using connectTip_fits [OF tip(5) f1] by simp
  note nr = newRecord_ok [OF inv tip(1,2) n b tip(3) this]
  note ck = checkBlock_ok [OF inv tip(1,2) n]
  have "chainInv E good U (Suc n) c1 \<and> ch_orphans c1 = ch_orphans c"
    using connectTip_inv [OF nr(1) b ck(5) _ _ _ _ tip(5) f1] nr(3) [OF refl] tip(4) by simp
  moreover have "ch_tipWork c \<le> ch_tipWork c1"
    using connectTip_work [OF tip(5)] tip_child_work [OF inv ck(1) tip(4)] by auto
  ultimately have "kept (Suc n) c c1" by (simp add: kept_def)
  then show ?thesis by (rule either_stepped [OF _ pool N tip(6) f])
next
  case (side ph w loc s1 q s2)
  let ?x = "blockHash (en_sha E) b"
  have n: "n < 2 ^ 32 - 1" using N by simp
  have "fits s2" using side(5) f processOrphans_fits by fastforce
  then have "fits s1" using writes_fit(2) [OF side(4)] by simp
  note nr = newRecord_ok [OF inv side(1,2) n b side(3) this]
  note sb = side_block [OF nr(1), of ?x "newRecord b (ph + 1) loc w" w q s2, simplified, OF nr(3) [OF refl] side(4)]
  have "kept (Suc n) c (c\<lparr>ch_store := s2\<rparr>)"
    "kept (Suc n) c (c\<lparr>ch_store := s2, ch_heightByHash := (ch_heightByHash c)(?x \<mapsto> ph + 1)\<rparr>)"
    using sb(1,3) by (simp_all add: kept_def)
  then show ?thesis using either_stepped [OF _ pool N _ f] side(5) by metis
next
  case (switch ph w loc s1 q s2 r c2)
  let ?x = "blockHash (en_sha E) b" and ?c1 = "c\<lparr>ch_store := s2\<rparr>"
  have n: "n < 2 ^ 32 - 1" using N by simp
  have f2: "fits (ch_store c2)" using switch(7) f processOrphans_fits by fastforce
  have "fits s2" using reorg_fits [OF switch(6) f2] by simp
  then have "fits s1" using writes_fit(2) [OF switch(4)] by simp
  note nr = newRecord_ok [OF inv switch(1,2) n b switch(3) this]
  note sb = side_block [OF nr(1), of ?x "newRecord b (ph + 1) loc w" w q s2, simplified, OF nr(3) [OF refl] switch(4)]
  have sit: "sited E U (Suc n) (ch_store ?c1) ?x (ph + 1) w" using sb(2) by simp
  note ri = reorg_inv [OF sb(1) sit switch(6) f2]
  have same: "c2 = ?c1\<lparr>ch_store := ch_store c2\<rparr>" if "r = Inl e" for e using ri that by simp
  have w2: "ch_tipWork c \<le> ch_tipWork c2"
  proof (cases r)
    case (Inl e)
    show ?thesis by (subst same [OF Inl]) simp
  qed (use ri preferred_work [OF switch(5)] in simp)
  then have k2: "kept (Suc n) c c2" using ri by (simp add: kept_def)
  have "sited E U (Suc n) (ch_store c2) ?x (ph + 1) w" using sited_keeps [OF sit] ri by simp
  from chainInv_addHeight [OF _ this] ri w2
  have k3: "kept (Suc n) c (c2\<lparr>ch_heightByHash := (ch_heightByHash c2)(?x \<mapsto> ph + 1)\<rparr>)" by (simp add: kept_def)
  show ?thesis using either_stepped [OF k2 pool N _ f] either_stepped [OF k3 pool N _ f] switch(7) by metis
qed

end

end
