(* ===== verification/Chain_Init.thy ===== *)
theory Chain_Init
  imports Chain
begin

text \<open>
  Starting a chain (\<open>Init\<close>, \<open>initGenesis\<close>, \<open>rebuildUtxoSet\<close> and their helpers) and the two
  reports \<open>GetChainInfo\<close> and \<open>TxOutSetInfo\<close> of \<open>internal/chain/chain.go\<close>. The order in which
  Go ranges over the UTXO map is an argument, as in the \<open>Utxo\<close> theory. Of \<open>ChainInfo\<close> the two
  floating-point fields, \<open>Difficulty\<close> and the constant \<open>VerificationProg\<close>, are left out.
\<close>

section \<open>Loading and rebuilding the UTXO set\<close>

datatype init_error =
    GenesisHashMismatch hash hash
  | StoreGenesis store_error
  | RebuildIndex store_error
  | WalkChain u32 store_error
  | WalkChainstate u32 store_error
  | AdvanceTip store_error
  | MissingHash u32
  | LoadForRebuild u32 store_error
  | RebuildConnect u32 utxo_error
  | FlushUtxos store_error

datatype load_error = BadUtxo hash u32 utxo_error | IterUtxos store_error

fun loadEntries :: "((hash \<times> u32) \<times> bytes) list \<Rightarrow> store_error option \<Rightarrow> UtxoSet \<Rightarrow> (load_error, unit) res \<times> UtxoSet" where
  "loadEntries [] None s = (Inr (), s)"
| "loadEntries [] (Some e) s = (Inl (IterUtxos e), s)"
| "loadEntries (((txHash, index), data) # kvs) err s =
     (case DeserializeUtxoEntry data of
        Inl e \<Rightarrow> (Inl (BadUtxo txHash index e), s)
      | Inr entry \<Rightarrow> loadEntries kvs err (Set_Add s txHash index entry))"

definition loadUtxoSetFromChainstate :: "('sg, 'pk, 'sk, 's) chain_env \<Rightarrow> 's Chain \<Rightarrow> (load_error, unit) res \<times> 's Chain" where
  "loadUtxoSetFromChainstate E c =
     (case st_ForEachUtxo (en_store E) (ch_store c) of
        (kvs, err) \<Rightarrow> (case loadEntries kvs err (ch_utxoSet c) of (r, s) \<Rightarrow> (r, c\<lparr>ch_utxoSet := s\<rparr>)))"

definition flushUtxoSetToChainstate :: "('sg, 'pk, 'sk, 's) chain_env \<Rightarrow> (UtxoSet \<Rightarrow> bytes list) \<Rightarrow> 's Chain \<Rightarrow> (store_error, unit) res \<times> 's Chain" where
  "flushUtxoSetToChainstate E order c =
     (let wb = ForEach (\<lambda>txHash index entry wb. wb_PutUtxo wb txHash index (UtxoEntry_Serialize entry))
                 (ch_utxoSet c) (order (ch_utxoSet c)) NewWriteBatch;
          wb = wb_PutBestBlock wb (ch_tipHash c)
      in case st_FlushUtxoBatch (en_store E) (ch_store c) wb of (r, s) \<Rightarrow> (r, c\<lparr>ch_store := s\<rparr>))"

definition rebuildOne :: "('sg, 'pk, 'sk, 's) chain_env \<Rightarrow> u32 \<Rightarrow> 's Chain \<Rightarrow> (init_error, unit) res \<times> 's Chain" where
  "rebuildOne E h c =
     (case ch_hashByHeight c h of
        None \<Rightarrow> (Inl (MissingHash h), c)
      | Some hash \<Rightarrow>
        (case st_GetBlock (en_store E) (ch_store c) hash of
           Inl e \<Rightarrow> (Inl (LoadForRebuild h e), c)
         | Inr block \<Rightarrow>
             if h = 0 then (Inr (), c\<lparr>ch_utxoSet := ConnectGenesis (en_sha E) (ch_utxoSet c) block\<rparr>)
             else (case ConnectBlock (en_sha E) (ch_utxoSet c) block h of
                     (Inl e, u) \<Rightarrow> (Inl (RebuildConnect h e), c\<lparr>ch_utxoSet := u\<rparr>)
                   | (Inr _, u) \<Rightarrow> (Inr (), c\<lparr>ch_utxoSet := u\<rparr>))))"

fun rebuildLoop :: "('sg, 'pk, 'sk, 's) chain_env \<Rightarrow> u32 list \<Rightarrow> 's Chain \<Rightarrow> (init_error, unit) res \<times> 's Chain" where
  "rebuildLoop E [] c = (Inr (), c)"
| "rebuildLoop E (h # hs) c =
     (case rebuildOne E h c of
        (Inl e, c) \<Rightarrow> (Inl e, c)
      | (Inr _, c) \<Rightarrow> rebuildLoop E hs c)"

text \<open>The heights from 0 to the tip; the tip is taken to be below \<open>2\<^sup>32 - 1\<close>, where the counter would wrap.\<close>

definition rebuildUtxoSet :: "('sg, 'pk, 'sk, 's) chain_env \<Rightarrow> (UtxoSet \<Rightarrow> bytes list) \<Rightarrow> 's Chain \<Rightarrow> (init_error, unit) res \<times> 's Chain" where
  "rebuildUtxoSet E order c =
     (case rebuildLoop E (map of_nat [0..<Suc (unat (ch_tipHeight c))]) c of
        (Inl e, c) \<Rightarrow> (Inl e, c)
      | (Inr _, c) \<Rightarrow>
          (case flushUtxoSetToChainstate E order c of
             (r, c) \<Rightarrow> (mapErr FlushUtxos r, c)))"

section \<open>Genesis\<close>

definition genesisRecord :: "Block \<Rightarrow> u32 \<times> u32 \<times> u32 \<Rightarrow> DiskBlockIndex" where
  "genesisRecord g loc =
     (case loc of (fileNum, offset, sz) \<Rightarrow>
       \<lparr>di_Header = Header g, di_Height = 0, di_Status = StatusHaveData OR StatusValidHeader OR StatusValidTx,
        di_TxCount = of_nat (length (Transactions g)), di_FileNum = fileNum, di_DataPos = offset,
        di_DataSize = sz, di_UndoFile = 0, di_UndoPos = 0, di_UndoSize = 0,
        di_ChainWork = Some (CalcWork (Bits (Header g)))\<rparr>)"

definition initGenesis :: "('sg, 'pk, 'sk, 's) chain_env \<Rightarrow> (UtxoSet \<Rightarrow> bytes list) \<Rightarrow> 's Chain \<Rightarrow> (init_error, unit) res \<times> 's Chain" where
  "initGenesis E order c =
     (let p = en_params E; g = GenesisBlock p; genesisHash = HashBlockHeader (en_sha E) (Header g) in
      if \<not> IsZero (GenesisHash p) \<and> genesisHash \<noteq> GenesisHash p
      then (Inl (GenesisHashMismatch genesisHash (GenesisHash p)), c)
      else
      (case st_WriteBlock (en_store E) (ch_store c) genesisHash g of
         (Inl e, s) \<Rightarrow> (Inl (StoreGenesis e), c\<lparr>ch_store := s\<rparr>)
       | (Inr loc, s) \<Rightarrow>
      (case st_PutBlockIndex (en_store E) s genesisHash (genesisRecord g loc) of
         (Inl e, s) \<Rightarrow> (Inl (StoreGenesis e), c\<lparr>ch_store := s\<rparr>)
       | (Inr _, s) \<Rightarrow>
      (case st_PutChainTip (en_store E) s genesisHash 0 of
         (Inl e, s) \<Rightarrow> (Inl (StoreGenesis e), c\<lparr>ch_store := s\<rparr>)
       | (Inr _, s) \<Rightarrow>
           let c = c\<lparr>ch_store := s, ch_tipHash := genesisHash, ch_tipHeight := 0,
                 ch_tipWork := CalcWork (Bits (Header g)),
                 ch_heightByHash := (ch_heightByHash c)(genesisHash \<mapsto> 0),
                 ch_hashByHeight := (ch_hashByHeight c)(0 \<mapsto> genesisHash),
                 ch_utxoSet := ConnectGenesis (en_sha E) (ch_utxoSet c) g\<rparr>
           in (case flushUtxoSetToChainstate E order c of
                 (r, c) \<Rightarrow> (mapErr FlushUtxos r, c))))))"

section \<open>Init\<close>

text \<open>
  The walk from a tip to height 0: it enters every block into \<open>hashByHeight\<close> and adds up the
  work. The two walks of \<open>Init\<close> differ in the error only.
\<close>

fun initWalk :: "('sg, 'pk, 'sk, 's) chain_env \<Rightarrow> (u32 \<Rightarrow> store_error \<Rightarrow> init_error) \<Rightarrow> nat \<Rightarrow> hash \<Rightarrow> 's Chain \<Rightarrow> (init_error, unit) res \<times> 's Chain" where
  "initWalk E err h current c =
     (let c = c\<lparr>ch_hashByHeight := (ch_hashByHeight c)(of_nat h \<mapsto> current)\<rparr> in
      case st_GetBlockIndex (en_store E) (ch_store c) current of
        Inl e \<Rightarrow> (Inl (err (of_nat h) e), c)
      | Inr rec \<Rightarrow>
          let c = c\<lparr>ch_tipWork := ch_tipWork c + CalcWork (Bits (di_Header rec))\<rparr> in
          (case h of
             0 \<Rightarrow> (Inr (), c)
           | Suc h' \<Rightarrow> initWalk E err h' (PrevBlock (di_Header rec)) c))"

declare initWalk.simps [simp del]

definition indexHeights :: "(hash \<times> DiskBlockIndex) list \<Rightarrow> (hash \<rightharpoonup> u32) \<Rightarrow> (hash \<rightharpoonup> u32)" where
  "indexHeights recs m =
     fold (\<lambda>(hash, rec) m. if di_Status rec AND StatusHaveData \<noteq> 0 then m(hash \<mapsto> di_Height rec) else m) recs m"

text \<open>Loading with the rebuild as the way out of a failure.\<close>

definition loadOrRebuild :: "('sg, 'pk, 'sk, 's) chain_env \<Rightarrow> (UtxoSet \<Rightarrow> bytes list) \<Rightarrow> 's Chain \<Rightarrow> (init_error, unit) res \<times> 's Chain" where
  "loadOrRebuild E order c =
     (case loadUtxoSetFromChainstate E c of
        (Inl _, c) \<Rightarrow> rebuildUtxoSet E order c
      | (Inr _, c) \<Rightarrow> (Inr (), c))"

definition advanceTip :: "('sg, 'pk, 'sk, 's) chain_env \<Rightarrow> (UtxoSet \<Rightarrow> bytes list) \<Rightarrow> hash \<Rightarrow> u32 \<Rightarrow> 's Chain \<Rightarrow> (init_error, unit) res \<times> 's Chain" where
  "advanceTip E order bestBlock bestBlockHeight c =
     (case initWalk E WalkChainstate (unat bestBlockHeight) bestBlock (c\<lparr>ch_hashByHeight := Map.empty, ch_tipWork := 0\<rparr>) of
        (Inl e, c) \<Rightarrow> (Inl e, c)
      | (Inr _, c) \<Rightarrow>
          let c = c\<lparr>ch_tipHash := bestBlock, ch_tipHeight := bestBlockHeight\<rparr> in
          (case st_PutChainTip (en_store E) (ch_store c) bestBlock bestBlockHeight of
             (Inl e, s) \<Rightarrow> (Inl (AdvanceTip e), c\<lparr>ch_store := s\<rparr>)
           | (Inr _, s) \<Rightarrow> loadOrRebuild E order (c\<lparr>ch_store := s\<rparr>)))"

definition Init :: "('sg, 'pk, 'sk, 's) chain_env \<Rightarrow> (UtxoSet \<Rightarrow> bytes list) \<Rightarrow> 's Chain \<Rightarrow> (init_error, unit) res \<times> 's Chain" where
  "Init E order c =
     (case st_GetChainTip (en_store E) (ch_store c) of
        Inl _ \<Rightarrow> initGenesis E order c
      | Inr (tipHash, tipHeight) \<Rightarrow>
        (case st_ForEachBlockIndex (en_store E) (ch_store c) of
           (recs, err) \<Rightarrow>
             let c = c\<lparr>ch_tipHash := tipHash, ch_tipHeight := tipHeight, ch_tipWork := 0,
                   ch_heightByHash := indexHeights recs (ch_heightByHash c)\<rparr> in
        (case err of
           Some e \<Rightarrow> (Inl (RebuildIndex e), c)
         | None \<Rightarrow>
        (case initWalk E WalkChain (unat tipHeight) tipHash c of
           (Inl e, c) \<Rightarrow> (Inl e, c)
         | (Inr _, c) \<Rightarrow>
        (case st_GetBestBlock (en_store E) (ch_store c) of
           Inl _ \<Rightarrow> rebuildUtxoSet E order c
         | Inr bestBlock \<Rightarrow>
             if bestBlock \<noteq> tipHash then
               (case ch_heightByHash c bestBlock of
                  Some bestBlockHeight \<Rightarrow>
                    if bestBlockHeight > tipHeight then advanceTip E order bestBlock bestBlockHeight c
                    else rebuildUtxoSet E order c
                | None \<Rightarrow> rebuildUtxoSet E order c)
             else loadOrRebuild E order c)))))"

section \<open>Reports\<close>

record ChainInfo =
  ci_Network :: string
  ci_Height :: u32
  ci_BestHash :: hash
  ci_GenesisHash :: hash
  ci_Bits :: u32
  ci_Chainwork :: int
  ci_MedianTimePast :: u32
  ci_RetargetEpoch :: u32
  ci_EpochProgress :: u32
  ci_EpochBlocksLeft :: u32
  ci_RetargetInterval :: u32

definition GetChainInfo :: "('sg, 'pk, 'sk, 's) chain_env \<Rightarrow> 's Chain \<Rightarrow> ChainInfo" where
  "GetChainInfo E c =
     (let p = en_params E; interval = RetargetInterval p;
          timestamps = medianCollect (ch_tipHeight c) (getAncestorUnsafe E c) 0 11 in
      \<lparr>ci_Network = Name p, ci_Height = ch_tipHeight c, ci_BestHash = ch_tipHash c,
       ci_GenesisHash = GenesisHash p,
       ci_Bits = (case st_GetHeader (en_store E) (ch_store c) (ch_tipHash c) of Inl _ \<Rightarrow> 0 | Inr h \<Rightarrow> Bits h),
       ci_Chainwork = ch_tipWork c,
       ci_MedianTimePast = (if length timestamps > 0 then insSort timestamps ! (length timestamps div 2) else 0),
       ci_RetargetEpoch = (if interval > 0 then ch_tipHeight c div interval else 0),
       ci_EpochProgress = (if interval > 0 then ch_tipHeight c mod interval else 0),
       ci_EpochBlocksLeft = (if interval > 0 then interval - ch_tipHeight c mod interval else 0),
       ci_RetargetInterval = interval\<rparr>)"

record TxOutSetInfoResult =
  ti_Height :: u32
  ti_BestHash :: hash
  ti_TxOuts :: nat
  ti_TotalValue :: u64

definition TxOutSetInfo :: "(UtxoSet \<Rightarrow> bytes list) \<Rightarrow> 's Chain \<Rightarrow> TxOutSetInfoResult" where
  "TxOutSetInfo order c =
     \<lparr>ti_Height = ch_tipHeight c, ti_BestHash = ch_tipHash c, ti_TxOuts = Set_Count (ch_utxoSet c),
      ti_TotalValue = TotalValue (ch_utxoSet c) (order (ch_utxoSet c))\<rparr>"

end
