(* ===== verification/Chain_Run.thy ===== *)
theory Chain_Run
  imports Chain_Props Chain_Init
begin

text \<open>
  A node's life: \<open>Init\<close> on an empty store, then blocks given to \<open>ProcessBlock\<close> in some order, at
  some times and with some choice of evicted orphans. The method holds the chain's lock throughout,
  so that concurrent callers give such a sequence. The chain invariant holds all along.
\<close>

record delivery =
  dl_clock :: "hash \<Rightarrow> int"
  dl_wall :: int
  dl_pick :: nat
  dl_block :: Block

fun deliverAll :: "('sg, 'pk, 'sk, 's) chain_env \<Rightarrow> delivery list \<Rightarrow> 's Chain \<Rightarrow> 's Chain" where
  "deliverAll E [] c = c"
| "deliverAll E (d # ds) c = deliverAll E ds (snd (ProcessBlock E (dl_clock d) (dl_wall d) (dl_pick d) (dl_block d) c))"

text \<open>A store with no tip and no index records.\<close>

definition emptyStore :: "'s BlockStore \<Rightarrow> 's \<Rightarrow> bool" where
  "emptyStore S s \<longleftrightarrow> \<not> isOk (st_GetChainTip S s) \<and> (\<forall>x. \<not> isOk (st_GetBlockIndex S s x))"

lemma genesisRecord_fields [simp]:
  "di_Header (genesisRecord g loc) = Header g" "di_Height (genesisRecord g loc) = 0"
  "di_ChainWork (genesisRecord g loc) = Some (CalcWork (Bits (Header g)))"
  "di_FileNum (genesisRecord g (f, p, z)) = f" "di_DataPos (genesisRecord g (f, p, z)) = p" "di_DataSize (genesisRecord g (f, p, z)) = z"
  by (simp_all add: genesisRecord_def split: prod.splits)

lemma genesisRecord_status:
  "di_Status (genesisRecord g loc) AND StatusHaveUndo = 0" "di_Status (genesisRecord g loc) AND StatusHaveData \<noteq> 0"
  by (simp_all add: genesisRecord_def StatusHaveUndo_def StatusHaveData_def StatusValidHeader_def StatusValidTx_def split: prod.splits)

lemma flush_frame:
  assumes "flushUtxoSetToChainstate E order c = (r, c')"
  obtains wb q where "st_FlushUtxoBatch (en_store E) (ch_store c) wb = (q, ch_store c')" "c' = c\<lparr>ch_store := ch_store c'\<rparr>" "r = q"
  using assms by (auto simp: flushUtxoSetToChainstate_def Let_def split: prod.splits)

context chain_manager
begin

lemma genesis_active:
  assumes s: "good s" "indexOk E U 0 s" "sited E U 0 s (blockHash (en_sha E) (GenesisBlock (en_params E))) 0 (CalcWork (Bits (Header (GenesisBlock (en_params E)))))"
    and c: "c = (NewChain s)\<lparr>ch_tipHash := blockHash (en_sha E) (GenesisBlock (en_params E)), ch_tipHeight := 0,
                 ch_tipWork := CalcWork (Bits (Header (GenesisBlock (en_params E)))),
                 ch_heightByHash := [blockHash (en_sha E) (GenesisBlock (en_params E)) \<mapsto> 0],
                 ch_hashByHeight := [0 \<mapsto> blockHash (en_sha E) (GenesisBlock (en_params E))],
                 ch_utxoSet := ConnectGenesis (en_sha E) NewSet (GenesisBlock (en_params E))\<rparr>"
  shows "chainInv E good U 0 c"
proof -
  have "activeChain E U [(GenesisBlock (en_params E), [])] c"
    using history.genesis [of "en_lib E" "en_params E"] genesisIn
    by (auto simp: active_defs c NewChain_def heightMap_def fun_eq_iff unat_eq_0)
  then show ?thesis using s by (auto simp: chainInv_def c NewChain_def)
qed

lemma initGenesis_inv:
  assumes g: "good s" and em: "emptyStore (en_store E) s"
    and ig: "initGenesis E order (NewChain s) = (Inr (), c)" and f: "fits (ch_store c)"
  shows "chainInv E good U 0 c \<and> ch_orphans c = [] \<and> ch_tipHash c = blockHash (en_sha E) (GenesisBlock (en_params E))"
proof -
  let ?g = "GenesisBlock (en_params E)"
  let ?x = "blockHash (en_sha E) ?g"
  obtain rb s1 where w: "st_WriteBlock (en_store E) s ?x ?g = (rb, s1)" by fastforce
  obtain loc where loc: "rb = Inr loc"
    using ig w by (cases rb) (auto simp: initGenesis_def NewChain_def Let_def split: if_splits)
  obtain q s2 where p: "st_PutBlockIndex (en_store E) s1 ?x (genesisRecord ?g loc) = (q, s2)" by fastforce
  obtain q3 s3 where t: "st_PutChainTip (en_store E) s2 ?x 0 = (q3, s3)" by fastforce
  define c0 where "c0 = (NewChain s3)\<lparr>ch_tipHash := ?x, ch_tipHeight := 0, ch_tipWork := CalcWork (Bits (Header ?g)),
      ch_heightByHash := [?x \<mapsto> 0], ch_hashByHeight := [0 \<mapsto> ?x], ch_utxoSet := ConnectGenesis (en_sha E) NewSet ?g\<rparr>"
  have q: "q = Inr ()" "q3 = Inr ()" and fl: "flushUtxoSetToChainstate E order c0 = (Inr (), c)"
    using ig w loc p t
    by (auto simp: initGenesis_def NewChain_def Let_def c0_def res_simps split: if_splits sum.splits prod.splits)
  from fl obtain wb q4 where fb: "st_FlushUtxoBatch (en_store E) s3 wb = (q4, ch_store c)" and c: "c = c0\<lparr>ch_store := ch_store c\<rparr>"
    by (rule flush_frame) (simp add: c0_def NewChain_def)
  have fits: "fits s3" "fits s1" using flush [OF fb] f putTip [OF t] putIndex [OF p] by simp_all
  note law = writeBlock [OF w]
  have ix: "indexOk E U 0 s1" using em law by (auto simp: indexOk_def sameIndex_def emptyStore_def isOk_iff)
  have g1: "good s1" and rd: "\<And>f p n. rb = Inr (f, p, n) \<Longrightarrow> st_ReadBlock (en_store E) s1 f p n = Inr ?g"
    using law g fits(2) storableBlocks [OF genesisIn] by blast+
  have rec: "recOk E U 0 s1 ?x (genesisRecord ?g loc)"
    using genesisIn rd loc genesisRecord_status [of ?g loc] CalcWork_nonneg [of "Bits (Header ?g)"]
    by (cases loc) (auto simp: recOk_def undoStored_def accepted_def placed_def)
  note ip = index_put [OF ix order_refl rec p]
  have k: "keepsIndex E s2 (ch_store c)" "keepsFiles (en_store E) s2 (ch_store c)" "sameIndex (en_store E) s2 (ch_store c)" 
    using flush [OF fb] putTip [OF t] by (auto simp: sameIndex_def keepsIndex_def keepsFiles_def)
  have "good (ch_store c)" using flush [OF fb] putTip [OF t] putIndex [OF p] g1 by simp
  moreover have "indexOk E U 0 (ch_store c)" by (rule indexOk_keeps [OF ip(1) k(3,2)])
  moreover have "sited E U 0 (ch_store c) ?x 0 (CalcWork (Bits (Header ?g)))"
    using sited_keeps [OF recOk_sited [OF rec, of "CalcWork (Bits (Header ?g))"] keepsIndex_trans [OF ip(2) k(1)] order_refl] by simp
  moreover have "c = (NewChain (ch_store c))\<lparr>ch_tipHash := ?x, ch_tipHeight := 0, ch_tipWork := CalcWork (Bits (Header ?g)),
      ch_heightByHash := [?x \<mapsto> 0], ch_hashByHeight := [0 \<mapsto> ?x], ch_utxoSet := ConnectGenesis (en_sha E) NewSet ?g\<rparr>"
    using c by (simp add: c0_def NewChain_def)
  ultimately have "chainInv E good U 0 c" by (rule genesis_active)
  moreover have "ch_orphans c = []" "ch_tipHash c = ?x" by (subst c; simp add: c0_def NewChain_def)+
  ultimately show ?thesis by simp
qed

lemma ProcessBlock_fits:
  assumes "ProcessBlock E clock wall pick b c = (res, c')" "fits (ch_store c')"
  shows "fits (ch_store c)"
  using assms(1)
proof (cases rule: ProcessBlock_cases)
  case (tip ph w loc s1 r c1)
  then have "fits (ch_store c1)" using assms(2) processOrphans_fits by auto
  from connectTip_fits [OF tip(5) this] show ?thesis using fits_back(1) [OF tip(3)] by simp
next
  case (side ph w loc s1 q s2)
  then have "fits s2" using assms(2) processOrphans_fits by fastforce
  then show ?thesis using side writes_fit fits_back by simp
next
  case (switch ph w loc s1 q s2 r c2)
  then have "fits (ch_store c2)" using assms(2) processOrphans_fits by fastforce
  from reorg_fits [OF switch(6) this] show ?thesis using switch writes_fit fits_back by simp
qed (use assms(2) fits_back in auto)

lemma deliverAll_fits: "fits (ch_store (deliverAll E ds c)) \<Longrightarrow> fits (ch_store c)"
proof (induction ds arbitrary: c)
  case (Cons d ds)
  obtain res c1 where pb: "ProcessBlock E (dl_clock d) (dl_wall d) (dl_pick d) (dl_block d) c = (res, c1)" by fastforce
  then show ?case using ProcessBlock_fits [OF pb] Cons by simp
qed simp

lemma deliverAll_stepped:
  assumes "chainInv E good U n c" "poolOk (ch_orphans c)" "n + length (ch_orphans c) + length ds < 2 ^ 32"
    and "dl_block ` set ds \<subseteq> U" "fits (ch_store (deliverAll E ds c))"
  shows "stepped (n + length (ch_orphans c) + length ds) c (deliverAll E ds c)"
  using assms
proof (induction ds arbitrary: c n)
  case Nil
  then show ?case by (auto simp: stepped_def)
next
  case (Cons d ds)
  obtain res c1 where pb: "ProcessBlock E (dl_clock d) (dl_wall d) (dl_pick d) (dl_block d) c = (res, c1)" by fastforce
  then have out: "deliverAll E (d # ds) c = deliverAll E ds c1" by simp
  have f1: "fits (ch_store c1)" by (rule deliverAll_fits) (use Cons.prems(5) out in simp)
  have "stepped (Suc (n + length (ch_orphans c))) c c1"
    by (rule ProcessBlock_stepped [OF Cons.prems(1,2) _ _ pb f1]) (use Cons.prems in auto)
  then obtain m where m: "chainInv E good U m c1" "m + length (ch_orphans c1) \<le> Suc (n + length (ch_orphans c))"
    "poolOk (ch_orphans c1)" "ch_tipWork c \<le> ch_tipWork c1"
    by (auto simp: stepped_def)
  have "stepped (m + length (ch_orphans c1) + length ds) c1 (deliverAll E ds c1)"
    by (rule Cons.IH [OF m(1,3)]) (use Cons.prems m(2) out in auto)
  then show ?case using m(2,4) unfolding stepped_def out by fastforce
qed

text \<open>The active chain after any such life.\<close>

lemma life_active:
  assumes "good s" "emptyStore (en_store E) s" "Init E order (NewChain s) = (Inr (), c0)"
    and "dl_block ` set ds \<subseteq> U" "length ds < 2 ^ 32" "fits (ch_store (deliverAll E ds c0))"
  shows "\<exists>hs. activeChain E U hs (deliverAll E ds c0)" "ch_tipWork c0 \<le> ch_tipWork (deliverAll E ds c0)"
proof -
  have ig: "initGenesis E order (NewChain s) = (Inr (), c0)"
    using assms(2,3) by (auto simp: Init_def emptyStore_def NewChain_def isOk_iff split: sum.splits)
  have "chainInv E good U 0 c0 \<and> ch_orphans c0 = []"
    using initGenesis_inv [OF assms(1,2) ig deliverAll_fits [OF assms(6)]] by simp
  then have "stepped (length ds) c0 (deliverAll E ds c0)"
    using deliverAll_stepped [of 0 c0 ds] assms(4-6) by (simp add: poolOk_def)
  then show "\<exists>hs. activeChain E U hs (deliverAll E ds c0)" "ch_tipWork c0 \<le> ch_tipWork (deliverAll E ds c0)"
    by (auto simp: stepped_def chainInv_def)
qed

end

section \<open>The chain over the file store\<close>

context file_store
begin

lemma contract: "block_store (fileStore sha K) fsGood fsFits (\<lambda>fs. contents (fs_chainstate fs))"
  by (rule store.block_store_axioms)

end

lemma file_manager:
  assumes db: "file_store K contents (lib_sha L)" and tip: "\<forall>db v. fst (kv_put K db keyChainTip v) = Inr ()"
    and E: "E = \<lparr>en_lib = L, en_params = p, en_engine = powEngine (lib_sha L), en_store = fileStore (lib_sha L) K\<rparr>"
    and U: "block_universe (lib_sha L) p U" "\<forall>b\<in>U. storable b \<and> 0 < CalcWork (Bits (Header b))"
  shows "chain_manager E fsGood fsFits (\<lambda>fs. contents (fs_chainstate fs)) U"
proof (intro chain_manager.intro)
  show "block_store (en_store E) fsGood fsFits (\<lambda>fs. contents (fs_chainstate fs))"
    using file_store.contract [OF db] by (simp add: E)
  show "block_universe (en_sha E) (en_params E) U" using U(1) by (simp add: E)
  have "r = Inr ()" if "FS_PutChainTip K s h k = (r, s')" for s h k r s'
    using that tip by (auto simp: FS_PutChainTip_def liftKv_def split: prod.splits) (metis fst_conv mapErr.simps(2))
  then show "chain_manager_axioms E U"
    using U(2) by unfold_locales (auto simp: E fileStore_def)
qed

end
