(* ===== verification/Chain_Bounds.thy ===== *)
theory Chain_Bounds
  imports Chain_Run
begin

text \<open>
  Bounds that hold of the chain manager over any store: the length of a block locator and the end
  of the loop that computes it, the size of the orphan pool, and what a failed reorganisation leaves.
\<close>

section \<open>The block locator\<close>

text \<open>Once the steps double, the remaining height plus the step stays below \<open>2\<^sup>32\<close>, so that the step does not wrap before height 0.\<close>

lemma locator_doubling:
  assumes "\<forall>i\<le>limit. m i \<noteq> None" "height \<le> limit" "11 \<le> n" "n \<le> 41 \<or> height = 0" "step = 2 ^ (n - 10)" 
    "height = 0 \<or> unat height + 2 ^ (n - 10) < 2 ^ 32"
  shows "\<exists>xs. locatorLoop m step height n = Some xs \<and> xs \<noteq> [] \<and> hd xs = the (m height) \<and> last xs = the (m 0)
     \<and> length xs \<le> Suc (42 - n) \<and> set xs \<subseteq> ran m"
  using assms
proof (induction "42 - n" arbitrary: step height n)
  case 0
  then have "height = 0" by auto
  moreover obtain h where "m 0 = Some h" using 0(2) [rule_format, of 0] by auto
  ultimately show ?case by (subst locatorLoop.simps) (auto simp: ran_def)
next
  case (Suc k)
  obtain h where h: "m height = Some h" using Suc.prems(1,2) by blast
  show ?case
  proof (cases "height = 0")
    case True
    then show ?thesis using h by (subst locatorLoop.simps) (auto simp: ran_def)
  next
    case False
    let ?next = "if height < step then 0 else height - step"
    have n: "n \<le> 41" and H: "unat height + 2 ^ (n - 10) < 2 ^ 32" using Suc.prems False by auto
    have "(2 :: nat) ^ (n - 10) \<le> 2 ^ 31" using n by (intro power_increasing) auto
    moreover have "step = of_nat (2 ^ (n - 10))" using Suc.prems(5) by simp
    ultimately have us: "unat step = 2 ^ (n - 10)" by (simp only: unat_of_nat) simp
    have dom: "?next \<le> limit" using Suc.prems(2) word_sub_le [of step height] by (auto simp: not_less intro: order.trans)
    have nx: "?next = 0 \<or> unat ?next + 2 ^ (Suc n - 10) < 2 ^ 32"
    proof (cases "height < step")
      case False
      then have "unat (height - step) = unat height - 2 ^ (n - 10)" "2 ^ (n - 10) \<le> unat height"
        using us by (simp_all add: unat_sub word_le_nat_alt not_less)
      moreover have "Suc n - 10 = Suc (n - 10)" using Suc.prems(3) by simp
      ultimately show ?thesis using H False by simp
    qed simp
    have small: "Suc n \<le> 41 \<or> ?next = 0"
    proof (rule disjCI)
      assume "?next \<noteq> 0"
      then have "2 ^ (Suc n - 10) < (2 :: nat) ^ 32" using nx by linarith
      then show "Suc n \<le> 41" using power_less_imp_less_exp [of "2 :: nat" "Suc n - 10" 32] by simp
    qed
    have "Suc n - 10 = Suc (n - 10)" using Suc.prems(3) by simp
    then have "step * 2 = 2 ^ (Suc n - 10)" using Suc.prems(5) by (simp only: power_Suc mult.commute)
    moreover have "k = 42 - Suc n" using Suc.hyps(2) by simp
    ultimately
    obtain xs where xs: "locatorLoop m (step * 2) ?next (Suc n) = Some xs" "xs \<noteq> []" "last xs = the (m 0)" "length xs \<le> Suc (42 - Suc n)" "set xs \<subseteq> ran m"
      using Suc.hyps(1) [of "Suc n" ?next "step * 2", OF _ Suc.prems(1) dom _ small _ nx] Suc.prems(3) by auto
    have "locatorLoop m step height n = Some (h # xs)"
      using h False xs(1) Suc.prems(3) by (subst locatorLoop.simps) simp
    then show ?thesis using xs h n by (auto simp: ran_def)
  qed
qed

text \<open>The consecutive entries before that.\<close>

lemma locator_steps:
  assumes "\<forall>i\<le>limit. m i \<noteq> None" "height \<le> limit" "n \<le> 11" "unat height + n < 2 ^ 32"
  shows "\<exists>xs. locatorLoop m (if n = 11 then 2 else 1) height n = Some xs \<and> xs \<noteq> [] \<and> hd xs = the (m height) \<and> last xs = the (m 0)
     \<and> length xs \<le> 43 - n \<and> set xs \<subseteq> ran m"
  using assms
proof (induction "11 - n" arbitrary: height n)
  case 0
  then have n: "n = 11" by simp
  show ?case using locator_doubling [OF 0(2,3), of 11 2] 0(5) by (simp add: n)
next
  case (Suc k)
  obtain h where h: "m height = Some h" using Suc.prems(1,2) by blast
  show ?case
  proof (cases "height = 0")
    case True
    then show ?thesis using h Suc.hyps(2) by (subst locatorLoop.simps) (auto simp: ran_def)
  next
    case False
    then have "\<not> height < 1" by (simp add: word_less_1)
    have u: "unat (height - 1) = unat height - 1" "0 < unat height" using False by (simp_all add: unat_minus_one unat_gt_0)
    have "height - 1 \<le> height" by (rule word_sub_le) (use \<open>\<not> height < 1\<close> not_less in blast)
    then have "height - 1 \<le> limit" using Suc.prems(2) by simp
    moreover have "k = 11 - Suc n" "n \<le> 10" using Suc.hyps(2) by simp_all
    ultimately
    obtain xs where xs: "locatorLoop m (if Suc n = 11 then 2 else 1) (height - 1) (Suc n) = Some xs" "xs \<noteq> []"
      "last xs = the (m 0)" "length xs \<le> 43 - Suc n" "set xs \<subseteq> ran m"
      using Suc.hyps(1) [of "Suc n" "height - 1", OF _ Suc.prems(1)] Suc.hyps(2) Suc.prems(3,4) u by auto
    have e: "(10 < n + 1) = (n = 10)" using Suc.hyps(2) by auto
    have "locatorLoop m 1 height n = Some (h # xs)"
      using h False xs(1) \<open>\<not> height < 1\<close> by (subst locatorLoop.simps) (simp add: e [simplified] split: if_splits)
    then show ?thesis using xs h Suc.hyps(2) by (auto simp: ran_def)
  qed
qed


lemma BlockLocator_total:
  assumes "\<forall>i\<le>ch_tipHeight c. ch_hashByHeight c i \<noteq> None"
  shows "\<exists>xs. BlockLocator c = Some xs \<and> xs \<noteq> [] \<and> hd xs = the (ch_hashByHeight c (ch_tipHeight c)) \<and> last xs = the (ch_hashByHeight c 0)
    \<and> length xs \<le> 43 \<and> set xs \<subseteq> ran (ch_hashByHeight c)"
  using locator_steps [OF assms order_refl, of 0] u32_bound [of "ch_tipHeight c"] by (simp add: BlockLocator_def)

section \<open>The orphan pool\<close>

definition poolBound :: "(hash \<times> orphanBlock) list \<Rightarrow> bool" where
  "poolBound os \<longleftrightarrow> length os \<le> MaxOrphanBlocks \<and> distinct (map fst os)"

lemma poolBound_filter: "poolBound os \<Longrightarrow> poolBound (filter P os)"
  unfolding poolBound_def by (meson distinct_map_filter le_trans length_filter_le)

lemma poolBound_orphanLoop: "poolBound os \<Longrightarrow> poolBound (ch_orphans (orphanLoop E clock queue os c))"
proof (induction E clock queue os c rule: orphanLoop.induct)
  case (2 E clock parent queue os c)
  obtain q c' where "orphanEntries E clock (orphansOf parent os) queue c = (q, c')" by fastforce
  then show ?case using 2(1) [of q c'] 2(2) by (simp add: otherOrphans_def poolBound_filter)
qed simp

lemma evictRandomOrphan_length: "os \<noteq> [] \<Longrightarrow> length (evictRandomOrphan pick os) = length os - 1"
proof -
  assume "os \<noteq> []"
  then have "pick mod length os < length os" by simp
  then show ?thesis by (simp add: evictRandomOrphan_def Let_def)
qed

lemma evictRandomOrphan_distinct: "distinct (map fst os) \<Longrightarrow> distinct (map fst (evictRandomOrphan pick os))"
  by (simp add: evictRandomOrphan_def Let_def take_map [symmetric] drop_map [symmetric] set_take_disj_set_drop_if_distinct)

lemma poolBound_add:
  assumes "poolBound os" "map_of os x = None"
  shows "poolBound ((let os = evictExpiredOrphans wall os in
     if length os \<ge> MaxOrphanBlocks then evictRandomOrphan pick os else os) @ [(x, ob)])"
proof -
  let ?os = "evictExpiredOrphans wall os"
  let ?keep = "if length ?os \<ge> MaxOrphanBlocks then evictRandomOrphan pick ?os else ?os"
  have b: "poolBound ?os" using assms(1) by (simp add: evictExpiredOrphans_def poolBound_filter)
  have "x \<notin> fst ` set os" using assms(2) by (simp add: map_of_eq_None_iff)
  moreover have "set ?keep \<subseteq> set os" using evict_sets(1) [of wall os] evict_sets(2) [of pick ?os] by auto
  ultimately have "x \<notin> fst ` set ?keep" by blast
  moreover have "distinct (map fst ?keep)" using b evictRandomOrphan_distinct by (simp add: poolBound_def)
  moreover have "length ?keep < MaxOrphanBlocks"
    using b evictRandomOrphan_length [of ?os pick] by (cases "?os = []") (auto simp: poolBound_def MaxOrphanBlocks_def)
  ultimately show ?thesis by (auto simp: poolBound_def Let_def)
qed

lemma connectTip_orphans: "connectTip E c b x h w rec = (r, c') \<Longrightarrow> ch_orphans c' = ch_orphans c"
  by (auto simp: connectTip_def Let_def persistUtxoChanges_def extendChain_def split: sum.splits prod.splits)

lemma reorg_orphans: "reorg E x h w c = (r, c') \<Longrightarrow> ch_orphans c' = ch_orphans c"
  by (auto simp: reorg_def restoreSnapshot_def split: sum.splits prod.splits dest: reorgBody_orphans)

lemma ProcessBlock_poolBound:
  assumes b: "poolBound (ch_orphans c)" and pb: "ProcessBlock E clock wall pick block c = (res, c')"
  shows "poolBound (ch_orphans c')"
proof -
  have po: "poolBound (ch_orphans (processOrphans E clock x d))" if "ch_orphans d = ch_orphans c" for x d
    unfolding processOrphans_def that by (rule poolBound_orphanLoop [OF b])
  show ?thesis using pb
  proof (cases rule: ProcessBlock_cases)
    case orphan
    then show ?thesis using poolBound_add [OF b orphan(2)] by simp
  next
    case (tip ph w loc s1 r c1)
    then show ?thesis using connectTip_orphans [OF tip(5)] po b by auto
  next
    case (side ph w loc s1 q s2)
    then show ?thesis using po b by auto
  next
    case (switch ph w loc s1 q s2 r c2)
    then show ?thesis using reorg_orphans [OF switch(6)] po b by auto
  qed (use b in auto)
qed

lemma deliverAll_poolBound: "poolBound (ch_orphans c) \<Longrightarrow> poolBound (ch_orphans (deliverAll E ds c))"
proof (induction ds arbitrary: c)
  case (Cons d ds)
  obtain res c' where pb: "ProcessBlock E (dl_clock d) (dl_wall d) (dl_pick d) (dl_block d) c = (res, c')" by fastforce
  then show ?case using Cons.IH [OF ProcessBlock_poolBound [OF Cons.prems pb]] by simp
qed simp

section \<open>Refused for its depth\<close>

lemma reorg_parts_not_deep [simp]:
  "disconnectLoop E hs c \<noteq> (Inl (ReorgTooDeep d), c')" "connectLoop E h xs c \<noteq> (Inl (ReorgTooDeep d), c')"
  "undoWriteLoop E us c \<noteq> (Inl (ReorgTooDeep d), c')" "reorgWalk E c fuel cur acc \<noteq> Inl (ReorgTooDeep d)"
proof -
  show "disconnectLoop E hs c \<noteq> (Inl (ReorgTooDeep d), c')"
    by (induction hs arbitrary: c) (auto simp: disconnectOne_def Let_def split: sum.splits prod.splits option.splits if_splits)
  show "connectLoop E h xs c \<noteq> (Inl (ReorgTooDeep d), c')"
    by (induction xs arbitrary: h c) (auto simp: connectOne_def Let_def split: sum.splits prod.splits)
  show "undoWriteLoop E us c \<noteq> (Inl (ReorgTooDeep d), c')"
    by (induction us arbitrary: c) (auto split: sum.splits prod.splits)
  show "reorgWalk E c fuel cur acc \<noteq> Inl (ReorgTooDeep d)"
    by (induction fuel arbitrary: cur acc) (auto simp: Let_def split: sum.splits option.splits if_splits)
qed

lemma restoreSnapshot_same: "restoreSnapshot c c = c"
  by (cases c) (simp add: restoreSnapshot_def cloneUtxoSet_def Entries_def)

lemma reorg_too_deep:
  assumes "reorg E x h w c = (Inl (ReorgTooDeep d), c')"
  shows "c' = c"
proof -
  obtain c1 where rb: "reorgBody E x h w c = (Inl (ReorgTooDeep d), c1)" and c': "c' = restoreSnapshot c c1"
    using assms by (auto simp: reorg_def split: sum.splits prod.splits)
  have "c1 = c"
    using rb by (auto simp: reorgBody_def Let_def simp del: reorgWalk.simps split: sum.splits prod.splits if_splits)
  then show ?thesis using c' by (simp add: restoreSnapshot_same)
qed

end
