(* ===== verification/Chainstate.thy ===== *)
theory Chainstate
  imports Chain_Run
begin

text \<open>
  The chainstate database against the set in memory: the batches that \<open>persistUtxoChanges\<close> and
  \<open>persistUtxoDisconnect\<close> write do to the database what \<open>ConnectBlock\<close> and \<open>DisconnectBlock\<close>
  do to the set, and a node that starts again on a store that is in step recovers its state.
\<close>

section \<open>Batches\<close>

definition mirrors :: "(bytes \<rightharpoonup> bytes) \<Rightarrow> UtxoSet \<Rightarrow> bool" where
  "mirrors m s \<longleftrightarrow> (\<forall>k. m (prefixUTXO # k) = map_option UtxoEntry_Serialize (s k))"

lemma applyBatch_append [simp]: "applyBatch (xs @ ys) m = applyBatch ys (applyBatch xs m)"
  by (simp add: applyBatch_def)

lemma applyBatch_best [simp]: "applyBatch (wb_PutBestBlock wb x) m = (applyBatch wb m)(keyBestBlock \<mapsto> x)"
  by (simp add: wb_PutBestBlock_def) (simp add: applyBatch_def)

lemma applyBatch_Nil [simp]: "applyBatch [] m = m"
  by (simp add: applyBatch_def)

lemma best_not_utxo [simp]: "keyBestBlock \<noteq> prefixUTXO # k" "prefixUTXO # k \<noteq> keyBestBlock"
  by (simp_all add: keyBestBlock_def prefixUTXO_def)

lemma utxoKey_OutpointKey: "utxoKey h i = prefixUTXO # OutpointKey h i"
  by (simp add: utxoKey_def OutpointKey_def)

lemma apply_deletes: "applyBatch (map BatchDelete ks) m = (\<lambda>k. if k \<in> set ks then None else m k)"
  by (induction ks arbitrary: m) (auto simp: applyBatch_def fun_eq_iff)

lemma apply_puts: "applyBatch (map (\<lambda>(k, v). BatchPut k v) kvs) m = m ++ map_of (rev kvs)"
  by (induction kvs arbitrary: m) (auto simp: applyBatch_def map_add_def fun_eq_iff split: option.splits)

lemma fold_append: "fold (\<lambda>x wb. wb @ f x) xs wb = wb @ concat (map f xs)"
  by (induction xs arbitrary: wb) simp_all

definition putsOf :: "UtxoSet \<Rightarrow> bytes list \<Rightarrow> (bytes \<times> bytes) list" where
  "putsOf s ks = concat (map (\<lambda>k. case s k of None \<Rightarrow> [] | Some e \<Rightarrow> [(prefixUTXO # k, UtxoEntry_Serialize e)]) ks)"

lemma putOutputs_eq:
  "putOutputs s h is wb = wb @ map (\<lambda>(k, v). BatchPut k v) (putsOf s (map (\<lambda>i. OutpointKey h (of_nat i)) is))"
  by (induction "is" arbitrary: wb) (auto simp: putsOf_def wb_PutUtxo_def Set_Get_def utxoKey_OutpointKey split: option.splits)

lemma map_of_putsOf: "map_of (rev (putsOf s ks)) (prefixUTXO # k) = (if k \<in> set ks then map_option UtxoEntry_Serialize (s k) else None)"
  by (induction ks) (auto simp: putsOf_def map_add_def split: option.splits)

section \<open>The batches follow the set\<close>

lemma connectBatch_mirrors:
  assumes c: "ConnectBlock sha s b height = (Inr undo, s')" and m: "mirrors m s"
  shows "mirrors (applyBatch (connectBatch sha s' b undo x) m) s'"
proof -
  let ?keys = "concat (map (outputKeys sha) (Transactions b))"
  note eff = ConnectBlock_effect [OF c]
  have puts: "fold (\<lambda>tx. putOutputs s' (HashTransaction sha tx) [0..<length (Outputs tx)]) txs wb
      = wb @ map (\<lambda>(k, v). BatchPut k v) (putsOf s' (concat (map (outputKeys sha) txs)))" for txs wb
    by (induction txs arbitrary: wb) (simp_all add: putOutputs_eq outputKeys_def putsOf_def)
  have dels: "fold (\<lambda>so wb. wb_DeleteUtxo wb (op_Hash (so_OutPoint so)) (op_Index (so_OutPoint so))) us wb
      = wb @ map BatchDelete (map (\<lambda>so. prefixUTXO # soKey so) us)" for us wb
    by (induction us arbitrary: wb) (simp_all add: wb_DeleteUtxo_def utxoKey_OutpointKey)
  have keys: "soKey ` set undo = set (blockSpends (Transactions b))" using arg_cong [OF eff(2), of set] by simp
  have adds: "set ?keys = fst ` set (blockAdds sha height (Transactions b))" by (metis keys_blockAdds list.set_map)
  have "applyBatch (connectBatch sha s' b undo x) m (prefixUTXO # k) = map_option UtxoEntry_Serialize (s' k)" for k
  proof (cases "k \<in> set (blockSpends (Transactions b))")
    case True
    then have "s' k = None" by (simp add: eff(1) applyBlock_def)
    moreover have "prefixUTXO # k \<in> set (map (\<lambda>so. prefixUTXO # soKey so) undo)" using True keys by auto
    ultimately show ?thesis
      by (simp add: connectBatch_def Let_def puts dels apply_deletes NewWriteBatch_def del: set_map map_map)
  next
    case False
    then have "prefixUTXO # k \<notin> set (map (\<lambda>so. prefixUTXO # soKey so) undo)" using keys by auto
    then have l: "applyBatch (connectBatch sha s' b undo x) m (prefixUTXO # k)
        = (m ++ map_of (rev (putsOf s' ?keys))) (prefixUTXO # k)"
      by (simp add: connectBatch_def Let_def puts dels apply_deletes apply_puts NewWriteBatch_def del: set_map map_map)
    show ?thesis
    proof (cases "k \<in> set ?keys")
      case True
      then obtain e where "map_of (rev (blockAdds sha height (Transactions b))) k = Some e"
        using adds by (metis map_of_eq_None_iff not_None_eq set_rev)
      then have "s' k = Some e" using False by (simp add: eff(1) applyBlock_def)
      then show ?thesis unfolding l using True by (simp add: map_add_def map_of_putsOf)
    next
      case no: False
      then have "map_of (rev (blockAdds sha height (Transactions b))) k = None"
        unfolding adds by (simp add: map_of_eq_None_iff)
      then have "s' k = s k" using False by (simp add: eff(1) applyBlock_def)
      then show ?thesis unfolding l using no m by (simp add: map_add_def map_of_putsOf mirrors_def)
    qed
  qed
  then show ?thesis by (simp add: mirrors_def)
qed

lemma disconnectBatch_mirrors:
  assumes m: "mirrors m s"
  shows "mirrors (applyBatch (disconnectBatch sha b undo x) m) (DisconnectBlock sha s b undo)"
proof -
  let ?keys = "concat (map (outputKeys sha) (Transactions b))"
  let ?um = "map_of (rev (map (\<lambda>so. (soKey so, so_Entry so)) undo))"
  have one: "fold (\<lambda>i wb. wb_DeleteUtxo wb h (of_nat i)) is wb = wb @ map BatchDelete (map (\<lambda>i. prefixUTXO # OutpointKey h (of_nat i)) is)" for h "is" wb
    by (induction "is" arbitrary: wb) (simp_all add: wb_DeleteUtxo_def utxoKey_OutpointKey)
  have dels: "fold (\<lambda>tx wb. fold (\<lambda>i wb. wb_DeleteUtxo wb (HashTransaction sha tx) (of_nat i)) [0..<length (Outputs tx)] wb) txs wb
      = wb @ map BatchDelete (map ((#) prefixUTXO) (concat (map (outputKeys sha) txs)))" for txs wb
    by (induction txs arbitrary: wb) (simp_all add: one outputKeys_def o_def)
  have puts: "fold (\<lambda>so wb. wb_PutUtxo wb (op_Hash (so_OutPoint so)) (op_Index (so_OutPoint so)) (UtxoEntry_Serialize (so_Entry so))) us wb
      = wb @ map (\<lambda>(k, v). BatchPut k v) (map (\<lambda>so. (prefixUTXO # soKey so, UtxoEntry_Serialize (so_Entry so))) us)" for us wb
    by (induction us arbitrary: wb) (simp_all add: wb_PutUtxo_def utxoKey_OutpointKey)
  have um: "map_of (rev (map (\<lambda>so. (prefixUTXO # soKey so, UtxoEntry_Serialize (so_Entry so))) undo)) (prefixUTXO # k)
      = map_option UtxoEntry_Serialize (?um k)" for k
    by (induction undo) (auto simp: map_add_def split: option.splits)
  have adds: "set ?keys = fst ` set (blockAdds sha 0 (Transactions b))" by (metis keys_blockAdds list.set_map)
  have "applyBatch (disconnectBatch sha b undo x) m (prefixUTXO # k) = map_option UtxoEntry_Serialize (DisconnectBlock sha s b undo k)" for k
    using m unfolding DisconnectBlock_eq [where height = 0] adds [symmetric] mirrors_def
    by (auto simp: disconnectBatch_def Let_def dels puts apply_deletes apply_puts NewWriteBatch_def map_add_def um image_iff
        simp del: map_map split: option.splits)
  then show ?thesis by (simp add: mirrors_def)
qed

section \<open>Loading\<close>

lemma loadEntries_run:
  assumes "\<forall>(k, v)\<in>set kvs. \<exists>k' e. k = prefixUTXO # k' \<and> length k' = 36 \<and> s k' = Some e \<and> v = UtxoEntry_Serialize e \<and> wf_entry e"
  shows "loadEntries (utxoEntries kvs) None acc = (Inr (), \<lambda>k. if prefixUTXO # k \<in> fst ` set kvs then s k else acc k)"
  using assms
proof (induction kvs arbitrary: acc)
  case Nil
  then show ?case by (simp add: utxoEntries_def)
next
  case (Cons kv kvs)
  then obtain k e where kv: "kv = (prefixUTXO # k, UtxoEntry_Serialize e)" "length k = 36" "s k = Some e" "wf_entry e"
    by (cases kv) auto
  have "utxoEntries (kv # kvs) = ((take 32 k, getLE (drop 32 k)), UtxoEntry_Serialize e) # utxoEntries kvs"
    using kv by (simp add: utxoEntries_def slice_def HashSize_def)
  moreover have "Set_Add acc (take 32 k) (getLE (drop 32 k)) e = acc(k \<mapsto> e)"
    using kv(2) by (simp add: Set_Add_def OutpointKey_split)
  moreover have "loadEntries (utxoEntries kvs) None (acc(k \<mapsto> e))
      = (Inr (), \<lambda>j. if prefixUTXO # j \<in> fst ` set kvs then s j else (acc(k \<mapsto> e)) j)"
    using Cons.IH Cons.prems by simp
  ultimately show ?case using kv by (auto simp: DeserializeUtxoEntry_Serialize)
qed

lemma load_mirrored:
  assumes "mirrors m s" "wf_set s" "wf_keys s" "map_of kvs = (\<lambda>k. if hasPrefix [prefixUTXO] k then m k else None)" "distinct (map fst kvs)"
  shows "loadEntries (utxoEntries kvs) None NewSet = (Inr (), s)"
proof -
  have "\<exists>k' e. k = prefixUTXO # k' \<and> length k' = 36 \<and> s k' = Some e \<and> v = UtxoEntry_Serialize e \<and> wf_entry e"
    if kv: "(k, v) \<in> set kvs" for k v
  proof -
    have "map_of kvs k = Some v" using assms(5) kv by simp
    then have p: "hasPrefix [prefixUTXO] k" "m k = Some v" using assms(4) by (auto split: if_splits)
    then obtain k' where k: "k = prefixUTXO # k'" by (cases k) (auto simp: hasPrefix_def)
    then obtain e where "s k' = Some e" "v = UtxoEntry_Serialize e" using assms(1) p(2) by (auto simp: mirrors_def)
    then show ?thesis using k assms(2,3) by (auto simp: wf_set_def wf_keys_def)
  qed
  then have "\<forall>(k, v)\<in>set kvs. \<exists>k' e. k = prefixUTXO # k' \<and> length k' = 36 \<and> s k' = Some e \<and> v = UtxoEntry_Serialize e \<and> wf_entry e"
    by blast
  from loadEntries_run [OF this, of NewSet]
  have "loadEntries (utxoEntries kvs) None NewSet = (Inr (), \<lambda>k. if prefixUTXO # k \<in> fst ` set kvs then s k else NewSet k)" .
  moreover have mem: "prefixUTXO # k \<in> fst ` set kvs" if "s k \<noteq> None" for k
  proof -
    have "map_of kvs (prefixUTXO # k) \<noteq> None" using that assms(1,4) by (auto simp: hasPrefix_def mirrors_def)
    then show ?thesis by (simp add: map_of_eq_None_iff)
  qed
  have "(\<lambda>k. if prefixUTXO # k \<in> fst ` set kvs then s k else NewSet k) = s"
  proof
    fix k show "(if prefixUTXO # k \<in> fst ` set kvs then s k else NewSet k) = s k"
      using mem [of k] by (cases "s k") (simp_all add: NewSet_def)
  qed
  ultimately show ?thesis by simp
qed

text \<open>Writing the whole set: \<open>flushUtxoSetToChainstate\<close> puts every entry that the iteration visits.\<close>

lemma ForEach_puts:
  assumes "set order \<subseteq> dom s" "wf_keys s"
  shows "ForEach (\<lambda>txHash index entry wb. wb_PutUtxo wb txHash index (UtxoEntry_Serialize entry)) s order wb
    = wb @ map (\<lambda>(k, v). BatchPut k v) (putsOf s order)"
  using assms(1)
proof (induction order arbitrary: wb)
  case (Cons k order)
  then obtain e where "s k = Some e" "length k = 36" using assms(2) by (auto simp: wf_keys_def)
  then show ?case using Cons
    by (simp add: ForEach_def splitKey_def wb_PutUtxo_def utxoKey_OutpointKey OutpointKey_split putsOf_def)
qed (simp add: ForEach_def putsOf_def)

lemma flushBatch_mirrors:
  assumes "set order = dom s" "wf_keys s" "\<forall>k. m (prefixUTXO # k) = None"
  shows "mirrors (applyBatch (ForEach (\<lambda>txHash index entry wb. wb_PutUtxo wb txHash index (UtxoEntry_Serialize entry)) s order NewWriteBatch) m) s"
  using assms by (auto simp: mirrors_def ForEach_puts NewWriteBatch_def apply_puts map_add_def map_of_putsOf split: option.splits)

text \<open>The loop of \<open>cloneUtxoSet\<close>, which adds every entry under the hash and index of its key, copies the set.\<close>

lemma ForEach_adds:
  assumes "set order \<subseteq> dom s" "wf_keys s"
  shows "ForEach (\<lambda>txHash index entry dst. Set_Add dst txHash index entry) s order dst = (\<lambda>k. if k \<in> set order then s k else dst k)"
  using assms(1)
proof (induction order arbitrary: dst)
  case (Cons k order)
  then obtain e where "s k = Some e" "length k = 36" using assms(2) by (auto simp: wf_keys_def)
  then show ?case using Cons
    by (simp add: ForEach_def splitKey_def Set_Add_def OutpointKey_split) (auto simp: fun_eq_iff)
qed (simp add: ForEach_def)

lemma cloneUtxoSet_loop:
  assumes "set order = dom s" "wf_keys s"
  shows "cloneUtxoSet s = ForEach (\<lambda>txHash index entry dst. Set_Add dst txHash index entry) s order NewSet"
proof -
  have "(\<lambda>k. if k \<in> dom s then s k else NewSet k) = s" by (auto simp: NewSet_def fun_eq_iff domIff)
  then show ?thesis using assms by (simp add: ForEach_adds cloneUtxoSet_def Entries_def)
qed

section \<open>A store in step with the memory\<close>

definition decodable :: "'s BlockStore \<Rightarrow> 's \<Rightarrow> bool" where
  "decodable S s \<longleftrightarrow> (\<forall>x. wf_hash x \<longrightarrow> isOk (st_GetBlockIndex S s x) \<or> st_GetBlockIndex S s x = Inl (Kv ErrNotFound))"

definition inStep :: "('sg, 'pk, 'sk, 's) chain_env \<Rightarrow> ('s \<Rightarrow> bytes \<rightharpoonup> bytes) \<Rightarrow> 's Chain \<Rightarrow> bool" where
  "inStep E cs c \<longleftrightarrow> st_GetChainTip (en_store E) (ch_store c) = Inr (ch_tipHash c, ch_tipHeight c)
     \<and> cs (ch_store c) keyBestBlock = Some (ch_tipHash c)
     \<and> mirrors (cs (ch_store c)) (ch_utxoSet c)
     \<and> isOk (st_GetBlockIndex (en_store E) (ch_store c) (ch_tipHash c))
     \<and> decodable (en_store E) (ch_store c)"

lemma wf_keys_upd: "wf_keys s \<Longrightarrow> length k = 36 \<Longrightarrow> wf_keys (s(k \<mapsto> e))"
  by (simp add: wf_keys_def)

lemma length_OutpointKey: "wf_hash h \<Longrightarrow> length (OutpointKey h i) = 36"
  by (simp add: OutpointKey_def wf_hash_def HashSize_def)

lemma genesisOutputs_keys: "wf_hash h \<Longrightarrow> wf_keys s \<Longrightarrow> wf_keys (genesisOutputs h cb outs i s)"
  by (induction h cb outs i s rule: genesisOutputs.induct) (simp_all add: Set_Add_def wf_keys_upd length_OutpointKey)

lemma blockAdds_keys36:
  assumes "\<And>tx. wf_hash (HashTransaction sha tx)" "(k, e) \<in> set (blockAdds sha h txs)"
  shows "length k = 36"
proof -
  have "k \<in> set (concat (map (outputKeys sha) txs))" using assms(2) keys_blockAdds [of sha h txs] by (metis fst_conv image_eqI list.set_map)
  then show ?thesis by (auto simp: outputKeys_def length_OutpointKey assms(1))
qed

lemma indexHeights_lookup:
  assumes "distinct (map fst recs)" "\<forall>(x, rec)\<in>set recs. di_Status rec AND StatusHaveData \<noteq> 0"
  shows "indexHeights recs m x = (case map_of recs x of Some rec \<Rightarrow> Some (di_Height rec) | None \<Rightarrow> m x)"
  using assms
proof (induction recs arbitrary: m)
  case (Cons r recs)
  obtain y rec where r: "r = (y, rec)" by fastforce
  have "indexHeights (r # recs) m = indexHeights recs (m(y \<mapsto> di_Height rec))"
    using Cons.prems(2) by (simp add: indexHeights_def r)
  moreover have "map_of recs y = None" using Cons.prems(1) by (simp add: r map_of_eq_None_iff)
  ultimately show ?case using Cons.IH [of "m(y \<mapsto> di_Height rec)"] Cons.prems
    by (cases "x = y") (simp_all add: r fun_upd_def split: option.split)
qed (simp add: indexHeights_def)

lemma processOrphans_empty: "ch_orphans c = [] \<Longrightarrow> processOrphans E clock x c = c"
  by (cases c) (simp add: processOrphans_def orphansOf_def otherOrphans_def sortSlice_def)

text \<open>Deliveries each of which is a child of the tip at its time.\<close>

fun onTip :: "('sg, 'pk, 'sk, 's) chain_env \<Rightarrow> delivery list \<Rightarrow> 's Chain \<Rightarrow> bool" where
  "onTip E [] c \<longleftrightarrow> True"
| "onTip E (d # ds) c \<longleftrightarrow> PrevBlock (Header (dl_block d)) = ch_tipHash c
     \<and> onTip E ds (snd (ProcessBlock E (dl_clock d) (dl_wall d) (dl_pick d) (dl_block d) c))"

context chain_manager
begin

lemma history_keys: "history (en_lib E) (en_params E) hs s \<Longrightarrow> wf_keys s"
proof (induction rule: history.induct)
  case genesis
  have "wf_keys s \<Longrightarrow> wf_keys (fold (\<lambda>tx s. genesisOutputs (HashTransaction (en_sha E) tx) (IsCoinbase tx) (Outputs tx) 0 s) txs s)" for txs s
    by (induction txs arbitrary: s) (simp_all add: genesisOutputs_keys wf_HashTransaction)
  from this [of NewSet] show ?case by (simp add: ConnectGenesis_def wf_keys_def NewSet_def)
next
  case (extend hs s b undo s')
  show ?case
    unfolding wf_keys_def
  proof
    fix k assume "k \<in> dom s'"
    then have "k \<in> dom s \<or> (\<exists>e. (k, e) \<in> set (blockAdds (en_sha E) (of_nat (length hs)) (Transactions b)))"
      using ConnectBlock_effect(1) [OF extend.hyps(4)]
      by (auto simp: applyBlock_def dom_def split: if_splits option.splits dest!: map_of_SomeD)
    then show "length k = 36" using extend.IH blockAdds_keys36 [OF wf_HashTransaction] by (auto simp: wf_keys_def)
  qed
qed

lemma index_header:
  assumes ix: "indexOk E U n s" and rec: "st_GetBlockIndex (en_store E) s (blockHash (en_sha E) b) = Inr rec"
    and b: "b \<in> U" "accepted (en_sha E) (en_params E) b"
  shows "di_Header rec = Header b"
proof -
  have "recOk E U n s (blockHash (en_sha E) b) rec" using ix rec by (simp add: indexOk_def)
  then obtain b' where b': "b' \<in> U" "accepted (en_sha E) (en_params E) b'" "blockHash (en_sha E) b' = blockHash (en_sha E) b" "di_Header rec = Header b'"
    by (auto simp: recOk_def)
  have "b' = b" by (rule same_block) (use b b' in auto)
  then show ?thesis using b'(4) by simp
qed

lemma inStep_same:
  assumes "inStep E cs c" "sameTip (en_store E) (ch_store c) s'" "sameIndex (en_store E) (ch_store c) s'" "cs s' = cs (ch_store c)"
  shows "inStep E cs (c\<lparr>ch_store := s'\<rparr>)"
  using assms by (simp add: inStep_def sameTip_def sameIndex_def decodable_def)

lemma inStep_put:
  assumes "inStep E cs c" "wf_record rec" "st_PutBlockIndex (en_store E) (ch_store c) x rec = (r, s')"
  shows "inStep E cs (c\<lparr>ch_store := s'\<rparr>)" "r = Inr () \<Longrightarrow> st_GetBlockIndex (en_store E) s' x = Inr rec"
proof -
  note law = putIndex [OF assms(3)]
  show "st_GetBlockIndex (en_store E) s' x = Inr rec" if "r = Inr ()" using law that assms(2) by simp
  then have get: "st_GetBlockIndex (en_store E) s' y = (if y = x \<and> r = Inr () then Inr rec else st_GetBlockIndex (en_store E) (ch_store c) y)" for y
    using law by auto
  have "decodable (en_store E) s'" using assms(1) by (simp add: inStep_def decodable_def get)
  then show "inStep E cs (c\<lparr>ch_store := s'\<rparr>)" using assms(1) law by (simp add: inStep_def sameTip_def get)
qed

text \<open>The tail of a block that extends the tip: whatever fails, the set that is kept is the one on disk.\<close>

lemma connectTip_inStep:
  assumes inv: "chainInv E good U n c" and b: "b \<in> U" "accepted (en_sha E) (en_params E) b"
    and rec: "recOk E U (Suc n) (ch_store c) (blockHash (en_sha E) b) rec" "di_Height rec = nh" "di_ChainWork rec = Some w"
    and prev: "PrevBlock (Header b) = ch_tipHash c"
    and ct: "connectTip E c b (blockHash (en_sha E) b) nh w rec = (r, c')"
    and st: "inStep E cs c"
  shows "inStep E cs c'"
proof (cases "ValidateTransactionInputs (en_lib E) b (ch_utxoSet c) nh (en_params E)")
  case (Inl e)
  then show ?thesis using ct st by (simp add: connectTip_def)
next
  case (Inr fees)
  obtain hs where a: "activeChain E U hs c" using inv by (auto simp: chainInv_def)
  then have h: "history (en_lib E) (en_params E) hs (ch_utxoSet c)" "fst ` set hs \<subseteq> U" "length hs \<le> 2 ^ 32"
    and tip: "PrevBlock (Header b) = blockHash (en_sha E) (fst (last hs))" using prev by (simp_all add: active_defs)
  have pl: "placed E (ch_store c) b nh w" using recOk_placed [OF rec(1) b] rec by simp
  let ?x = "blockHash (en_sha E) b"
  from connect_child [OF h indexOk_inv [OF inv] b(1) pl tip Inr]
  obtain undo t where cb: "ConnectBlock (en_sha E) (ch_utxoSet c) b nh = (Inr undo, t)"
    and undone: "DisconnectBlock (en_sha E) t b undo = ch_utxoSet c" by blast
  obtain ru s1 where wu: "st_WriteUndo (en_store E) (ch_store c) (di_FileNum rec) (SerializeUndoData undo) = (ru, s1)" by fastforce
  note step = ct [unfolded connectTip_def Inr sum.case cb prod.case undone Let_def wu]
  have st1: "inStep E cs (c\<lparr>ch_store := s1\<rparr>)"
    using inStep_same [OF st, of s1] writeUndo [OF wu] by simp
  show ?thesis
  proof (cases ru)
    case (Inl e)
    then show ?thesis using step st1 by simp
  next
    case (Inr loc)
    obtain p sz where loc: "loc = (p, sz)" by fastforce
    let ?rec = "withUndo rec (di_FileNum rec) p sz"
    obtain q s2 where put: "st_PutBlockIndex (en_store E) s1 ?x ?rec = (q, s2)" by fastforce
    have wfr: "wf_record ?rec"
      using rec(1) wfBlocks by (auto simp: recOk_def wf_record_def withUndo_def wf_block_def)
    have st2: "inStep E cs (c\<lparr>ch_store := s2\<rparr>)" and ok2: "q = Inr () \<Longrightarrow> st_GetBlockIndex (en_store E) s2 ?x = Inr ?rec"
      using inStep_put [OF st1 wfr, of ?x q s2] put by simp_all
    show ?thesis
    proof (cases q)
      case (Inl e)
      then show ?thesis using step st2 \<open>ru = Inr loc\<close> loc put by simp
    next
      case q: (Inr u)
      obtain q' s3 where fl: "st_FlushUtxoBatch (en_store E) s2 (connectBatch (en_sha E) t b undo ?x) = (q', s3)" by fastforce
      obtain q4 s4 where pt: "st_PutChainTip (en_store E) s3 ?x nh = (q4, s4)" by fastforce
      have q4: "q4 = Inr ()" by (rule tipWrites [OF pt])
      note fl' = flush [OF fl] and pt' = putTip [OF pt]
      have c': "c' = (case q' of Inl e \<Rightarrow> c\<lparr>ch_store := s3\<rparr>
         | Inr _ \<Rightarrow> c\<lparr>ch_store := s4, ch_utxoSet := t, ch_heightByHash := (ch_heightByHash c)(?x \<mapsto> nh),
             ch_hashByHeight := (ch_hashByHeight c)(nh \<mapsto> ?x), ch_tipHash := ?x, ch_tipHeight := nh, ch_tipWork := w\<rparr>)"
        using step \<open>ru = Inr loc\<close> loc put q fl pt q4 by (auto simp: persistUtxoChanges_def extendChain_def split: sum.splits)
      show ?thesis
      proof (cases q')
        case (Inl e)
        then show ?thesis using inStep_same [OF st2, of s3] fl' c' by simp
      next
        case (Inr v)
        have "cs s4 = applyBatch (connectBatch (en_sha E) t b undo ?x) (cs s2)" using Inr fl' pt' by simp
        moreover have "mirrors (cs s2) (ch_utxoSet c)" using st2 by (simp add: inStep_def)
        from connectBatch_mirrors [OF cb this] have "mirrors (applyBatch (connectBatch (en_sha E) t b undo ?x) (cs s2)) t" .
        moreover have "applyBatch (connectBatch (en_sha E) t b undo ?x) m keyBestBlock = Some ?x" for m
          by (simp add: connectBatch_def Let_def)
        moreover have "st_GetBlockIndex (en_store E) s4 = st_GetBlockIndex (en_store E) s2" using fl' pt' by (simp add: sameIndex_def)
        ultimately show ?thesis using c' Inr q ok2 q4 pt' st2 wf_HashBlockHeader [of "Header b"]
          by (simp add: inStep_def isOk_iff decodable_def)
      qed
    qed
  qed
qed

text \<open>The walk of \<open>Init\<close> down a history whose last block is in the index.\<close>

lemma initWalk_history:
  assumes "history (en_lib E) (en_params E) hs t" "fst ` set hs \<subseteq> U" "length hs \<le> 2 ^ 32"
    and "indexOk E U n (ch_store c)" "isOk (st_GetBlockIndex (en_store E) (ch_store c) (blockHash (en_sha E) (fst (last hs))))"
  shows "initWalk E err (length hs - 1) (blockHash (en_sha E) (fst (last hs))) c
    = (Inr (), c\<lparr>ch_hashByHeight := (\<lambda>h. if unat h < length hs then heightMap (en_sha E) hs h else ch_hashByHeight c h),
                 ch_tipWork := ch_tipWork c + chainWork hs\<rparr>)"
  using assms
proof (induction arbitrary: c rule: history.induct)
  case genesis
  let ?x = "blockHash (en_sha E) (GenesisBlock (en_params E))"
  obtain rec where rec: "st_GetBlockIndex (en_store E) (ch_store c) ?x = Inr rec" using genesis.prems(4) by (auto simp: isOk_iff)
  have "di_Header rec = Header (GenesisBlock (en_params E))"
    using index_header [OF genesis.prems(3) rec genesisIn] by (simp add: accepted_def)
  then show ?case
    by (subst initWalk.simps) (auto simp: Let_def rec heightMap_def fun_eq_iff unat_eq_0)
next
  case (extend hs s b undo s')
  let ?x = "blockHash (en_sha E) b"
  have ne: "hs \<noteq> []" "length hs < 2 ^ 32" using history_nonempty [OF extend.hyps(1)] extend.prems(2) by auto
  have b: "b \<in> U" using extend.prems(1) by simp
  note g = extended_not_genesis [OF extend.hyps(3) ne refl]
  obtain rec where rec: "st_GetBlockIndex (en_store E) (ch_store c) ?x = Inr rec" using extend.prems(4) by (auto simp: isOk_iff)
  have hd: "di_Header rec = Header b" by (rule index_header [OF extend.prems(3) rec b g(2)])
  have "recOk E U n (ch_store c) ?x rec" using extend.prems(3) rec by (simp add: indexOk_def)
  from recOk_placed [OF this b g(2)] g(1) have "isOk (st_GetBlockIndex (en_store E) (ch_store c) (PrevBlock (Header b)))"
    by (auto simp: placed_def isOk_iff)
  then have pr: "isOk (st_GetBlockIndex (en_store E) (ch_store c) (blockHash (en_sha E) (fst (last hs))))" using extend.hyps(2) by simp
  have len: "length (hs @ [(b, undo)]) - 1 = Suc (length hs - 1)" using ne(1) by (cases hs) simp_all
  let ?c1 = "c\<lparr>ch_hashByHeight := (ch_hashByHeight c)(of_nat (length hs) \<mapsto> ?x), ch_tipWork := ch_tipWork c + CalcWork (Bits (Header b))\<rparr>"
  have "initWalk E err (length (hs @ [(b, undo)]) - 1) ?x c = initWalk E err (length hs - 1) (blockHash (en_sha E) (fst (last hs))) ?c1"
    unfolding len using ne(1) by (subst initWalk.simps) (cases "length hs"; simp add: Let_def rec hd extend.hyps(2))
  also have "\<dots> = (Inr (), ?c1\<lparr>ch_hashByHeight := (\<lambda>h. if unat h < length hs then heightMap (en_sha E) hs h else ch_hashByHeight ?c1 h),
                 ch_tipWork := ch_tipWork ?c1 + chainWork hs\<rparr>)"
    by (rule extend.IH) (use extend.prems ne pr in auto)
  finally show ?case
    using ne(2) word_unat_eq_iff [of _ "of_nat (length hs) :: u32"]
    by (auto simp: heightMap_def fun_eq_iff nth_append unat_of_nat)
qed

lemma history_indexed:
  assumes "history (en_lib E) (en_params E) hs t" "fst ` set hs \<subseteq> U" "length hs \<le> 2 ^ 32"
    and "indexOk E U n s" "isOk (st_GetBlockIndex (en_store E) s (blockHash (en_sha E) (fst (last hs))))"
  shows "\<forall>i<length hs. \<exists>rec. st_GetBlockIndex (en_store E) s (blockHash (en_sha E) (fst (hs ! i))) = Inr rec \<and> unat (di_Height rec) = i"
  using assms
proof (induction rule: history.induct)
  case genesis
  let ?g = "GenesisBlock (en_params E)"
  obtain rec where rec: "st_GetBlockIndex (en_store E) s (blockHash (en_sha E) ?g) = Inr rec" using genesis.prems(4) by (auto simp: isOk_iff)
  have "recOk E U n s (blockHash (en_sha E) ?g) rec" using genesis.prems(3) rec by (simp add: indexOk_def)
  from recOk_placed [OF this genesisIn] have "di_Height rec = 0" by (auto simp: placed_def accepted_def)
  then show ?case using rec by simp
next
  case (extend hs t b undo t')
  let ?x = "blockHash (en_sha E) b"
  have ne: "hs \<noteq> []" "length hs < 2 ^ 32" using history_nonempty [OF extend.hyps(1)] extend.prems(2) by auto
  have b: "b \<in> U" using extend.prems(1) by simp
  note g = extended_not_genesis [OF extend.hyps(3) ne refl]
  obtain rec where rec: "st_GetBlockIndex (en_store E) s ?x = Inr rec" using extend.prems(4) by (auto simp: isOk_iff)
  have "recOk E U n s ?x rec" using extend.prems(3) rec by (simp add: indexOk_def)
  then obtain w where w: "placed E s b (di_Height rec) w" using recOk_placed [OF _ b g(2)] by blast
  have h: "history (en_lib E) (en_params E) (hs @ [(b, undo)]) t'" by (rule history.extend [OF extend.hyps])
  have "unat (di_Height rec) = length hs" using history_placed [OF h extend.prems(1-3)] w by simp
  moreover have "isOk (st_GetBlockIndex (en_store E) s (blockHash (en_sha E) (fst (last hs))))"
    using w g(1) extend.hyps(2) by (auto simp: placed_def isOk_iff)
  then have "\<forall>i<length hs. \<exists>rec. st_GetBlockIndex (en_store E) s (blockHash (en_sha E) (fst (hs ! i))) = Inr rec \<and> unat (di_Height rec) = i"
    using extend.IH extend.prems by simp
  ultimately show ?case using rec by (auto simp: nth_append less_Suc_eq)
qed

text \<open>The first start.\<close>

lemma initGenesis_inStep:
  assumes em: "\<forall>k. cs s (prefixUTXO # k) = None" "\<forall>x. st_GetBlockIndex (en_store E) s x = Inl (Kv ErrNotFound)"
    and ord: "set (order (ch_utxoSet c)) = dom (ch_utxoSet c)"
    and ig: "initGenesis E order (NewChain s) = (Inr (), c)"
  shows "inStep E cs c"
proof -
  let ?g = "GenesisBlock (en_params E)"
  let ?x = "blockHash (en_sha E) ?g"
  obtain rb s1 where w: "st_WriteBlock (en_store E) s ?x ?g = (rb, s1)" by fastforce
  obtain loc where loc: "rb = Inr loc"
    using ig w by (cases rb) (auto simp: initGenesis_def NewChain_def Let_def split: if_splits)
  let ?rec = "genesisRecord ?g loc"
  obtain q s2 where p: "st_PutBlockIndex (en_store E) s1 ?x ?rec = (q, s2)" by fastforce
  obtain q3 s3 where t: "st_PutChainTip (en_store E) s2 ?x 0 = (q3, s3)" by fastforce
  let ?t = "ConnectGenesis (en_sha E) NewSet ?g"
  define c0 where "c0 = (NewChain s3)\<lparr>ch_tipHash := ?x, ch_tipHeight := 0, ch_tipWork := CalcWork (Bits (Header ?g)),
      ch_heightByHash := [?x \<mapsto> 0], ch_hashByHeight := [0 \<mapsto> ?x], ch_utxoSet := ?t\<rparr>"
  have q: "q = Inr ()" "q3 = Inr ()" and fl: "flushUtxoSetToChainstate E order c0 = (Inr (), c)"
    using ig w loc p t
    by (auto simp: initGenesis_def NewChain_def Let_def c0_def res_simps split: if_splits sum.splits prod.splits)
  let ?wb = "ForEach (\<lambda>txHash index entry wb. wb_PutUtxo wb txHash index (UtxoEntry_Serialize entry)) ?t (order ?t) NewWriteBatch"
  obtain s4 where fb: "st_FlushUtxoBatch (en_store E) s3 (wb_PutBestBlock ?wb ?x) = (Inr (), s4)" and c: "c = c0\<lparr>ch_store := s4\<rparr>"
    using fl by (auto simp: flushUtxoSetToChainstate_def Let_def c0_def NewChain_def split: prod.splits)
  note l1 = writeBlock [OF w] and l2 = putIndex [OF p] and l3 = putTip [OF t] and l4 = flush [OF fb]
  have wfr: "wf_record ?rec" using wfBlocks [OF genesisIn] by (simp add: wf_record_def wf_block_def CalcWork_nonneg)
  have cs: "cs s4 = applyBatch (wb_PutBestBlock ?wb ?x) (cs s)" using l1 l2 l3 l4 by simp
  have get: "st_GetBlockIndex (en_store E) s4 y = (if y = ?x then Inr ?rec else Inl (Kv ErrNotFound))" for y
    using l1 l2 l3 l4 em(2) wfr q by (auto simp: sameIndex_def)
  have "wf_keys ?t" by (rule history_keys [OF history.genesis])
  moreover have "set (order ?t) = dom ?t" using ord c by (simp add: c0_def)
  ultimately have "mirrors (applyBatch ?wb (cs s)) ?t" using em(1) by (intro flushBatch_mirrors) simp_all
  then have "mirrors (cs s4) ?t" by (simp add: cs mirrors_def)
  then show ?thesis
    using l3 l4 q(2) wf_HashBlockHeader [of "Header ?g"] cs
    by (simp add: inStep_def c c0_def sameTip_def get isOk_iff decodable_def)
qed

lemma Init_recovers:
  assumes inv: "chainInv E good U n c" and st: "inStep E cs c"
  shows "\<exists>c'. Init E order (NewChain (ch_store c)) = (Inr (), c') \<and> chainInv E good U n c'
     \<and> c' = c\<lparr>ch_heightByHash := ch_heightByHash c', ch_orphans := []\<rparr>
     \<and> (\<forall>x rec. wf_hash x \<and> st_GetBlockIndex (en_store E) (ch_store c) x = Inr rec \<longrightarrow> ch_heightByHash c' x = Some (di_Height rec))"
proof -
  let ?s = "ch_store c"
  obtain hs where a: "activeChain E U hs c" using inv by (auto simp: chainInv_def)
  then have h: "history (en_lib E) (en_params E) hs (ch_utxoSet c)" "fst ` set hs \<subseteq> U" "length hs \<le> 2 ^ 32"
    and tip: "ch_tipHash c = blockHash (en_sha E) (fst (last hs))" "ch_tipHeight c = of_nat (length hs - 1)" "ch_tipWork c = chainWork hs"
    and maps: "ch_hashByHeight c = heightMap (en_sha E) hs"
    by (simp_all add: active_defs)
  have ix: "indexOk E U n ?s" by (rule indexOk_inv [OF inv])
  have s: "st_GetChainTip (en_store E) ?s = Inr (ch_tipHash c, ch_tipHeight c)" "cs ?s keyBestBlock = Some (ch_tipHash c)"
    "mirrors (cs ?s) (ch_utxoSet c)" "isOk (st_GetBlockIndex (en_store E) ?s (ch_tipHash c))"
    and dec: "decodable (en_store E) ?s" using st by (simp_all add: inStep_def)
  obtain recs where recs: "st_ForEachBlockIndex (en_store E) ?s = (recs, None)" "distinct (map fst recs)"
    "\<And>x rec. (x, rec) \<in> set recs \<longleftrightarrow> wf_hash x \<and> st_GetBlockIndex (en_store E) ?s x = Inr rec"
    using forEachIndex [of ?s] dec unfolding decodable_def by blast
  have data: "\<forall>(x, rec)\<in>set recs. di_Status rec AND StatusHaveData \<noteq> 0"
    using ix recs(3) by (auto simp: indexOk_def recOk_def)
  let ?hb = "indexHeights recs Map.empty"
  have hb: "?hb x = Some k \<longleftrightarrow> wf_hash x \<and> (\<exists>rec. st_GetBlockIndex (en_store E) ?s x = Inr rec \<and> k = di_Height rec)" for x k
    using recs(2,3) map_of_eq_Some_iff [OF recs(2)]
    by (auto simp: indexHeights_lookup [OF recs(2) data] split: option.splits)
  have tipb: "blockHash (en_sha E) (fst (last hs)) = ch_tipHash c" using tip(1) by simp
  have ul: "unat (ch_tipHeight c) = length hs - 1"
    using h(3) history_nonempty [OF h(1)] by (simp add: tip(2) unat_of_nat) 
  let ?c0 = "(NewChain ?s)\<lparr>ch_tipHash := ch_tipHash c, ch_tipHeight := ch_tipHeight c, ch_tipWork := 0, ch_heightByHash := ?hb\<rparr>"
  let ?c1 = "?c0\<lparr>ch_hashByHeight := heightMap (en_sha E) hs, ch_tipWork := chainWork hs\<rparr>"
  have walk: "initWalk E err (unat (ch_tipHeight c)) (ch_tipHash c) ?c0 = (Inr (), ?c1)" for err
  proof -
    have eq: "(\<lambda>h. if unat h < length hs then heightMap (en_sha E) hs h else ch_hashByHeight ?c0 h) = heightMap (en_sha E) hs"
      by (auto simp: heightMap_def fun_eq_iff NewChain_def)
    have "indexOk E U n (ch_store ?c0)" "isOk (st_GetBlockIndex (en_store E) (ch_store ?c0) (blockHash (en_sha E) (fst (last hs))))"
      using ix s(4) tip(1) by (simp_all add: NewChain_def)
    from initWalk_history [OF h this, of err] show ?thesis unfolding ul tipb eq by simp
  qed
  obtain kvs where kvs: "st_ForEachUtxo (en_store E) ?s = (utxoEntries kvs, None)" "distinct (map fst kvs)"
    "map_of kvs = (\<lambda>k. if hasPrefix [prefixUTXO] k then cs ?s k else None)"
    using forEachUtxo by blast
  have load: "loadOrRebuild E order ?c1 = (Inr (), ?c1\<lparr>ch_utxoSet := ch_utxoSet c\<rparr>)"
    using load_mirrored [OF s(3) history_entries [OF h(1) refl h(2)] history_keys [OF h(1)] kvs(3,2)]
    by (simp add: loadOrRebuild_def loadUtxoSetFromChainstate_def NewChain_def kvs(1))
  have best: "st_GetBestBlock (en_store E) ?s = Inr (ch_tipHash c)"
    using wf_HashBlockHeader [of "Header (fst (last hs))"] by (simp add: bestBlock s(2) tip(1) wf_hash_def HashSize_def)
  let ?c' = "?c1\<lparr>ch_utxoSet := ch_utxoSet c\<rparr>"
  have init: "Init E order (NewChain ?s) = (Inr (), ?c')"
    using s(1) recs(1) walk best load by (simp add: Init_def NewChain_def Let_def)
  have same: "?c' = c\<lparr>ch_heightByHash := ?hb, ch_orphans := []\<rparr>"
    by (cases c) (use tip maps in \<open>simp add: NewChain_def\<close>)
  have "branch E U hs ?c'"
  proof -
    have "?hb (blockHash (en_sha E) (fst (hs ! i))) = Some (of_nat i)" if "i < length hs" for i
    proof -
      obtain rec where "st_GetBlockIndex (en_store E) ?s (blockHash (en_sha E) (fst (hs ! i))) = Inr rec" "unat (di_Height rec) = i"
        using history_indexed [OF h ix] s(4) \<open>i < length hs\<close> unfolding tip(1) by blast
      moreover from this(2) have "di_Height rec = of_nat i" by auto
      ultimately show ?thesis unfolding hb using wf_HashBlockHeader by simp
    qed
    then show ?thesis unfolding same using h maps by (simp add: branch_def)
  qed
  then have "activeChain E U hs ?c'" unfolding same using tip by (simp add: activeChain_def)
  moreover have "\<exists>w. sited E U n ?s x k w" if k: "?hb x = Some k" for x k
  proof -
    obtain rec where "st_GetBlockIndex (en_store E) ?s x = Inr rec" "k = di_Height rec" using k unfolding hb by blast
    moreover from this(1) have "recOk E U n ?s x rec" using ix by (simp add: indexOk_def)
    moreover from this obtain w where "di_ChainWork rec = Some w" by (auto simp: recOk_def)
    ultimately show ?thesis using recOk_sited [of E U n ?s x rec w] by blast
  qed
  ultimately have "chainInv E good U n ?c'" unfolding same using inv ix by (auto simp: chainInv_def)
  then show ?thesis using init same hb by (intro exI [of _ ?c']) (auto simp: NewChain_def)
qed

text \<open>A block on the tip, with no orphans in the pool: the state stays in step, whatever becomes of the block.\<close>

lemma ProcessBlock_inStep:
  assumes inv: "chainInv E good U n c" and os: "ch_orphans c = []" and N: "n < 2 ^ 32 - 1" and b: "b \<in> U"
    and prev: "PrevBlock (Header b) = ch_tipHash c" and st: "inStep E cs c"
    and pb: "ProcessBlock E clock wall pick b c = (res, c')" and f: "fits (ch_store c')"
  shows "inStep E cs c'" "ch_orphans c' = []"
proof -
  obtain hs where a: "activeChain E U hs c" using inv by (auto simp: chainInv_def)
  then have "hs \<noteq> []" using history_nonempty by (auto simp: active_defs)
  then have known: "ch_heightByHash c (ch_tipHash c) \<noteq> None" using a by (simp add: active_defs last_conv_nth)
  have "inStep E cs c' \<and> ch_orphans c' = []"
    using pb
  proof (cases rule: ProcessBlock_cases)
    case reject
    then show ?thesis using st os by simp
  next
    case orphan
    then show ?thesis using known prev by simp
  next
    case (failed ph w rb s1)
    then show ?thesis using inStep_same [OF st, of s1] writeBlock [OF failed(3)] os by simp
  next
    case (tip ph w loc s1 r c1)
    have f1: "fits (ch_store c1)" using tip(6) f processOrphans_fits by auto
    have "fits s1" using connectTip_fits [OF tip(5) f1] by simp
    note nr = newRecord_ok [OF inv tip(1,2) N b tip(3) this]
    note ck = checkBlock_ok [OF inv tip(1,2) N]
    have o1: "ch_orphans c1 = []"
      using connectTip_inv [OF nr(1) b ck(5) _ _ _ _ tip(5) f1] nr(3) [OF refl] tip(4) os by simp
    have st1: "inStep E cs (c\<lparr>ch_store := s1\<rparr>)" using inStep_same [OF st, of s1] writeBlock [OF tip(3)] by simp
    have "inStep E cs c1"
      using connectTip_inStep [OF nr(1) b ck(5) _ _ _ _ tip(5) st1] nr(3) [OF refl] tip(4) by simp
    moreover have "processOrphans E clock (blockHash (en_sha E) b) c1 = c1" using o1 by (rule processOrphans_empty)
    ultimately show ?thesis using tip(6) o1 by auto
  qed (use prev in simp_all)
  then show "inStep E cs c'" "ch_orphans c' = []" by simp_all
qed

lemma onTip_inStep:
  assumes "chainInv E good U n c" "ch_orphans c = []" "n + length ds < 2 ^ 32" "dl_block ` set ds \<subseteq> U"
    and "onTip E ds c" "inStep E cs c" "fits (ch_store (deliverAll E ds c))"
  shows "inStep E cs (deliverAll E ds c)"
  using assms
proof (induction ds arbitrary: c n)
  case (Cons d ds)
  obtain res c1 where pb: "ProcessBlock E (dl_clock d) (dl_wall d) (dl_pick d) (dl_block d) c = (res, c1)" by fastforce
  then have out: "deliverAll E (d # ds) c = deliverAll E ds c1" by simp
  have f1: "fits (ch_store c1)" by (rule deliverAll_fits) (use Cons.prems(7) out in simp)
  have n: "n < 2 ^ 32 - 1" and b: "dl_block d \<in> U" and prev: "PrevBlock (Header (dl_block d)) = ch_tipHash c" and tl: "onTip E ds c1"
    using Cons.prems(3-5) pb by simp_all
  note one = ProcessBlock_inStep [OF Cons.prems(1,2) n b prev Cons.prems(6) pb f1]
  have "stepped (Suc (n + length (ch_orphans c))) c c1"
    by (rule ProcessBlock_stepped [OF Cons.prems(1) _ _ b pb f1]) (use n Cons.prems(2) in \<open>simp_all add: poolOk_def\<close>)
  then obtain m where "chainInv E good U m c1" "m \<le> Suc n" using Cons.prems(2) one(2) by (auto simp: stepped_def)
  then show ?case unfolding out using Cons.IH [of m c1] one tl Cons.prems(3,4,7) out by simp
qed simp

lemma restart_recovers:
  assumes "good s" "emptyStore (en_store E) s" "\<forall>k. cs s (prefixUTXO # k) = None" "\<forall>x. st_GetBlockIndex (en_store E) s x = Inl (Kv ErrNotFound)"
    and "Init E order (NewChain s) = (Inr (), c0)" "set (order (ch_utxoSet c0)) = dom (ch_utxoSet c0)"
    and "dl_block ` set ds \<subseteq> U" "length ds < 2 ^ 32" "onTip E ds c0" "fits (ch_store (deliverAll E ds c0))"
  shows "\<exists>c'. Init E order' (NewChain (ch_store (deliverAll E ds c0))) = (Inr (), c')
     \<and> c' = (deliverAll E ds c0)\<lparr>ch_heightByHash := ch_heightByHash c', ch_orphans := []\<rparr>
     \<and> (\<exists>hs. activeChain E U hs c')"
proof -
  have ig: "initGenesis E order (NewChain s) = (Inr (), c0)"
    using assms(2,5) by (auto simp: Init_def emptyStore_def NewChain_def isOk_iff split: sum.splits)
  have g: "chainInv E good U 0 c0" "ch_orphans c0 = []"
    using initGenesis_inv [OF assms(1,2) ig deliverAll_fits [OF assms(10)]] by simp_all
  have "inStep E cs c0" by (rule initGenesis_inStep [OF assms(3,4,6) ig])
  from onTip_inStep [OF g _ assms(7,9) this assms(10)] assms(8)
  have st: "inStep E cs (deliverAll E ds c0)" by simp
  have "stepped (length ds) c0 (deliverAll E ds c0)"
    using deliverAll_stepped [of 0 c0 ds] g assms(7,8,10) by (simp add: poolOk_def)
  then obtain m where "chainInv E good U m (deliverAll E ds c0)" by (auto simp: stepped_def)
  from Init_recovers [OF this st, of order'] show ?thesis unfolding chainInv_def by blast
qed

end

end
