(* ===== verification/Chain_Examples.thy ===== *)
theory Chain_Examples
  imports Chain_Bounds Chainstate Examples
begin

text \<open>
  A network and a node to run the chain on: regtest with a small genesis block, the file store
  over the database in memory, and a first block. The locales of the chain are interpreted on it.
\<close>

section \<open>The network\<close>

definition exGenesis :: Block where
  "exGenesis = (let b = BuildGenesisBlock \<lparr>NetworkName = ''regtest'', CoinbaseMessage = ascii ''genesis'', gc_Timestamp = 1000,
        gc_Bits = 0x207fffff, gc_Version = 1, Reward = 5000000000, RewardScript = [0x51], ExtraOutputs = []\<rparr> in
     b\<lparr>Header := (Header b)\<lparr>MerkleRootH := ComputeMerkleRoot toySha (Transactions b)\<rparr>\<rparr>)"

definition exNet :: ChainParams where
  "exNet = InitGenesis Regtest exGenesis (HashBlockHeader toySha (Header exGenesis))"

definition exFirstBlock :: Block where
  "exFirstBlock = (let txs = [buildCoinbase [0x51] 1 5000000000] in
     \<lparr>Header = \<lparr>hdr_Version = 1, PrevBlock = HashBlockHeader toySha (Header exGenesis), MerkleRootH = ComputeMerkleRoot toySha txs,
        Timestamp = 2000, Bits = 0x207fffff, Nonce = 0\<rparr>, Transactions = txs\<rparr>)"

definition exBlocks :: "Block set" where
  "exBlocks = {exGenesis, exFirstBlock}"

lemma exNet_simps [simp]: "GenesisBlock exNet = exGenesis" "MaxBlockSize exNet = 4000000" "InitialSubsidy exNet = 5000000000"
  by (simp_all add: exNet_def InitGenesis_def Regtest_def)

lemma exGenesis_root: "PrevBlock (Header exGenesis) = ZeroHash"
  by (simp add: exGenesis_def BuildGenesisBlock_def Let_def)

lemma exBlocks_bits: "b \<in> exBlocks \<Longrightarrow> Bits (Header b) = 0x207fffff"
  by (auto simp: exBlocks_def exGenesis_def exFirstBlock_def BuildGenesisBlock_def Let_def)

lemma exBlocks_hashes: "distinct (map (HashBlockHeader toySha) [Header exGenesis, Header exFirstBlock])"
  "list_all (\<lambda>b. HashBlockHeader toySha (Header b) \<noteq> ZeroHash) [exGenesis, exFirstBlock]"
  "distinct (map (HashTransaction toySha) (Transactions exGenesis @ Transactions exFirstBlock))"
  by code_simp+

lemma wf_coinbase:
  "length sg \<le> 10000 \<Longrightarrow> length pk \<le> 10000 \<Longrightarrow> wf_tx \<lparr>tx_Version = v,
     Inputs = [\<lparr>PreviousOutPoint = CoinbaseOutPoint, SignatureScript = sg, Sequence = n\<rparr>],
     Outputs = [\<lparr>Value = a, PkScript = pk\<rparr>], LockTime = l\<rparr>"
  by (simp add: wf_tx_def wf_input_def wf_output_def CoinbaseOutPoint_def wf_hash_def ZeroHash_def HashSize_def)

lemma exBlocks_wf: "wf_block exGenesis" "wf_block exFirstBlock"
  "length (Block_SerializeToBytes exGenesis) < 1000" "length (Block_SerializeToBytes exFirstBlock) < 1000"
proof -
  show "length (Block_SerializeToBytes exGenesis) < 1000" "length (Block_SerializeToBytes exFirstBlock) < 1000"
    by code_simp+
  have "wf_header (Header exGenesis)" "wf_header (Header exFirstBlock)" by code_simp+
  moreover have "length (Transactions exGenesis) \<le> 50000 \<and> list_all wf_tx (Transactions exGenesis)"
    "length (Transactions exFirstBlock) \<le> 50000 \<and> list_all wf_tx (Transactions exFirstBlock)"
    by (simp_all add: exGenesis_def exFirstBlock_def BuildGenesisBlock_def buildCoinbase_def Let_def wf_coinbase ascii_def)
  ultimately show "wf_block exGenesis" "wf_block exFirstBlock" by (simp_all add: wf_block_def)
qed

lemma exGenesis_apart: "genesisApart exNet"
proof -
  have t: "Transactions exGenesis \<noteq> []" "list_all IsCoinbase (Transactions exGenesis)"
    "list_all (\<lambda>tx. unat (SignatureScript (Inputs tx ! 0) ! 0) > 4) (Transactions exGenesis)"
    by code_simp+
  have "\<not> isOk (validateCoinbaseScriptSig s h)" if "unat (s ! 0) > 4" for s h
    using that by (simp add: validateCoinbaseScriptSig_def Let_def isOk_iff)
  then show ?thesis using t by (auto simp: genesisApart_def list_all_iff)
qed

lemma exWork: "0 < CalcWork 0x207fffff"
  using CompactToBig_arith [of "0x207fffff" "0x7fffff" 32] by (simp add: CalcWork_def)

interpretation exUniverse: block_universe toySha exNet exBlocks
proof (unfold_locales, goal_cases)
  case 1
  then show ?case by (simp add: exBlocks_def)
next
  case 2
  then show ?case by (rule exGenesis_apart)
next
  case 3
  have "inj_on (HashTransaction toySha) (set (Transactions exGenesis @ Transactions exFirstBlock))"
    using exBlocks_hashes(3) unfolding distinct_map by (rule conjunct2)
  then show ?case by (simp add: exBlocks_def)
next
  case 4
  have "HashBlockHeader toySha (Header exGenesis) \<noteq> HashBlockHeader toySha (Header exFirstBlock)"
    using exBlocks_hashes(1) by simp
  then show ?case by (auto simp: inj_on_def exBlocks_def)
next
  case (5 b)
  then show ?case using exBlocks_wf by (auto simp: exBlocks_def)
next
  case 6
  then show ?case by simp
next
  case 7
  then show ?case by (simp add: exGenesis_root)
next
  case (8 b)
  then show ?case using exBlocks_hashes(2) by (auto simp: exBlocks_def)
qed

section \<open>The node\<close>

definition exEnv :: "(byte, byte, byte, mem_db FileStore) chain_env" where
  "exEnv = \<lparr>en_lib = toyLib, en_params = exNet, en_engine = powEngine toySha, en_store = fileStore toySha memKv\<rparr>"

lemma exEnv_simps [simp]: "en_lib exEnv = toyLib" "en_params exEnv = exNet" "en_engine exEnv = powEngine toySha"
    "en_store exEnv = fileStore toySha memKv"
  by (simp_all add: exEnv_def)

interpretation exDb: file_store memKv "\<lambda>db. map_of (fst db)" toySha
  by (rule file_store.intro [OF memdb.leveldb_axioms toy.digest_axioms])

interpretation exNode: chain_manager exEnv fsGood fsFits "\<lambda>fs. map_of (fst (fs_chainstate fs))" exBlocks
proof (intro chain_manager.intro, goal_cases)
  case 1
  then show ?case using exDb.store.block_store_axioms by simp
next
  case 2
  then show ?case using exUniverse.block_universe_axioms by simp
next
  case 3
  then show ?case
  proof (unfold_locales, goal_cases)
    case 1
    then show ?case by simp
  next
    case (2 b)
    then show ?case using exBlocks_wf by (auto simp: exBlocks_def storable_def maxBlockFileSize_def)
  next
    case (3 b)
    then show ?case using exBlocks_bits exWork by simp
  next
    case (4 s h k r s')
    then show ?case by (auto simp: fileStore_def FS_PutChainTip_def memKv_def liftKv_def split: prod.splits)
  qed
qed

definition exStore :: "mem_db FileStore" where
  "exStore = \<lparr>fs_files = \<lparr>bf_blk = Map.empty, bf_rev = Map.empty, bf_magic = NetworkMagic exNet, bf_curFile = 0, bf_curSize = 0, bf_io = []\<rparr>,
     fs_index = ([], []), fs_chainstate = ([], [])\<rparr>"


definition exOrder :: "UtxoSet \<Rightarrow> bytes list" where
  "exOrder s = [OutpointKey (HashTransaction toySha (Transactions exGenesis ! 0)) 0]"

definition exStart :: "mem_db FileStore Chain" where
  "exStart = snd (Init exEnv exOrder (NewChain exStore))"

text \<open>The state that \<open>initGenesis\<close> leaves on a store without failures.\<close>

lemma exStore_good: "fsGood exStore" "emptyStore (fileStore toySha memKv) exStore"
  by (auto simp: fsGood_def bfInv_def cleanIo_def exStore_def exNet_def InitGenesis_def Regtest_def maxBlockFileSize_def
      emptyStore_def fileStore_def FS_GetChainTip_def FS_GetBlockIndex_def BI_GetBlockIndex_def memKv_def liftKv_def isOk_iff res_simps)

lemma memKv_ops:
  "kv_get memKv ([], []) k = Inl ErrNotFound" "kv_put memKv (xs, []) k v = (Inr (), (AList.update k v xs, []))"
  "kv_write memKv (xs, []) ops = (Inr (), (fold memOp ops xs, []))"
  by (simp_all add: memKv_def memWrite_def)

lemma exWriteGenesis:
  "FS_WriteBlock exStore h exGenesis = (Inr (0, 0, of_nat (length (Block_SerializeToBytes exGenesis))),
     exStore\<lparr>fs_files := (fs_files exStore)\<lparr>bf_blk := [0 \<mapsto> frame (NetworkMagic exNet) (Block_SerializeToBytes exGenesis) @ Block_SerializeToBytes exGenesis],
       bf_curSize := 8 + length (Block_SerializeToBytes exGenesis)\<rparr>\<rparr>)"
  by (simp add: FS_WriteBlock_def BF_WriteBlock_def exStore_def rotateFile_def appendFile_def Let_def)

lemma exGenesisRecord: "\<exists>bs. DiskBlockIndex_Serialize (genesisRecord exGenesis loc) = Some bs"
proof -
  have "CalcWork (Bits (Header exGenesis)) = 2"
    using CompactToBig_arith [of "0x207fffff" "0x7fffff" 32] exBlocks_bits [of exGenesis] by (simp add: CalcWork_def exBlocks_def)
  then show ?thesis using workBytes_ok [of 2] by (auto simp: DiskBlockIndex_Serialize_def)
qed

lemma exInit: "Init exEnv exOrder (NewChain exStore) = (Inr (), exStart)"
  "ch_heightByHash exStart = [ch_tipHash exStart \<mapsto> 0]" "ch_orphans exStart = []"
  "bf_rev (fs_files (ch_store exStart)) = Map.empty" "bf_curFile (fs_files (ch_store exStart)) = 0"
  "bf_blk (fs_files (ch_store exStart)) n = None \<or> n = 0" "length (bf_magic (fs_files (ch_store exStart))) = 4"
  "ch_utxoSet exStart = ConnectGenesis toySha NewSet exGenesis" "ch_tipHash exStart = HashBlockHeader toySha (Header exGenesis)"
proof -
  let ?r = "Init exEnv exOrder (NewChain exStore)"
  let ?fs = "(fs_files exStore)\<lparr>bf_blk := [0 \<mapsto> frame (NetworkMagic exNet) (Block_SerializeToBytes exGenesis) @ Block_SerializeToBytes exGenesis],
       bf_curSize := 8 + length (Block_SerializeToBytes exGenesis)\<rparr>"
  obtain bs where bs: "DiskBlockIndex_Serialize (genesisRecord exGenesis (0, 0, of_nat (length (Block_SerializeToBytes exGenesis)))) = Some bs"
    using exGenesisRecord by blast
  have gh: "GenesisHash exNet = HashBlockHeader toySha (Header exGenesis)" by (simp add: exNet_def InitGenesis_def)
  have db: "fs_index exStore = ([], [])" "fs_chainstate exStore = ([], [])" by (simp_all add: exStore_def)
  have tip: "FS_GetChainTip memKv exStore = Inl (Kv ErrNotFound)" by (simp add: FS_GetChainTip_def db memKv_ops liftKv_def)
  have put: "FS_PutBlockIndex memKv (exStore\<lparr>fs_files := ?fs\<rparr>) h (genesisRecord exGenesis (0, 0, of_nat (length (Block_SerializeToBytes exGenesis))))
      = (Inr (), exStore\<lparr>fs_files := ?fs, fs_index := ([(blockIndexKey h, bs)], [])\<rparr>)" for h
    by (simp add: FS_PutBlockIndex_def BI_PutBlockIndex_def bs db memKv_ops liftKv_def)
  have fl: "\<exists>cs. flushUtxoSetToChainstate exEnv exOrder c = (Inr (), c\<lparr>ch_store := (ch_store c)\<lparr>fs_chainstate := cs\<rparr>\<rparr>)"
    if "fs_chainstate (ch_store c) = ([], [])" for c
    using that by (simp add: flushUtxoSetToChainstate_def Let_def FS_FlushUtxoBatch_def CS_Flush_def liftKv_def memKv_ops(3)) blast
  then obtain g where g: "flushUtxoSetToChainstate exEnv exOrder c = (Inr (), c\<lparr>ch_store := (ch_store c)\<lparr>fs_chainstate := g c\<rparr>\<rparr>)"
    if "fs_chainstate (ch_store c) = ([], [])" for c
    by metis
  have "fst ?r = Inr () \<and> ch_heightByHash (snd ?r) = [ch_tipHash (snd ?r) \<mapsto> 0] \<and> ch_orphans (snd ?r) = []
    \<and> fs_files (ch_store (snd ?r)) = ?fs \<and> ch_utxoSet (snd ?r) = ConnectGenesis toySha NewSet exGenesis
    \<and> ch_tipHash (snd ?r) = HashBlockHeader toySha (Header exGenesis)"
    unfolding Init_def initGenesis_def
    by (auto simp: g NewChain_def tip gh exWriteGenesis put FS_PutChainTip_def memKv_ops liftKv_def Let_def db split: prod.splits)
  then show "?r = (Inr (), exStart)" "ch_heightByHash exStart = [ch_tipHash exStart \<mapsto> 0]" "ch_orphans exStart = []"
    "bf_rev (fs_files (ch_store exStart)) = Map.empty" "bf_curFile (fs_files (ch_store exStart)) = 0"
    "bf_blk (fs_files (ch_store exStart)) n = None \<or> n = 0" "length (bf_magic (fs_files (ch_store exStart))) = 4"
    "ch_utxoSet exStart = ConnectGenesis toySha NewSet exGenesis" "ch_tipHash exStart = HashBlockHeader toySha (Header exGenesis)"
    by (auto simp: exStart_def exStore_def prod_eq_iff exNet_def InitGenesis_def Regtest_def)
qed

lemma exOrder_all: "set (exOrder (ch_utxoSet exStart)) = dom (ch_utxoSet exStart)"
proof -
  have "\<not> isLegacyPlaceholder [0x51]" by code_simp
  then show ?thesis
    by (simp add: exOrder_def exInit ConnectGenesis_def exGenesis_def BuildGenesisBlock_def Let_def Set_Add_def NewSet_def)
qed

lemma exStore_empty: "map_of (fst (fs_chainstate exStore)) k = None" "st_GetBlockIndex (en_store exEnv) exStore x = Inl (Kv ErrNotFound)"
  by (simp_all add: exStore_def fileStore_def FS_GetBlockIndex_def BI_GetBlockIndex_def memKv_ops liftKv_def)

section \<open>The first block\<close>

definition exDelivery :: delivery where
  "exDelivery = \<lparr>dl_clock = (\<lambda>_. 3000), dl_wall = 0, dl_pick = 0, dl_block = exFirstBlock\<rparr>"

lemma exDelivery_onTip: "onTip exEnv [exDelivery] exStart"
  by (simp add: exDelivery_def exInit exFirstBlock_def Let_def)

text \<open>Whatever becomes of the first block, the files stay small: it writes one frame to each of two empty files.\<close>

lemma exWriteBlock_fits:
  assumes "FS_WriteBlock (ch_store exStart) x b = (r, s)"
  shows "fsFits s" "bf_rev (fs_files s) = Map.empty" "length (bf_magic (fs_files s)) = 4"
proof -
  obtain bf where w: "BF_WriteBlock (fs_files (ch_store exStart)) b = (r, bf)" and s: "fs_files s = bf"
    using assms by (auto simp: FS_WriteBlock_def split: prod.splits)
  have rot: "bf_curFile (rotateFile (fs_files (ch_store exStart)) k) \<in> {0, 1}" for k
    by (simp add: rotateFile_def exInit)
  have "(- 1 :: u32) \<notin> {0, 1}" by simp
  then have "bf_blk bf (- 1) = None"
    using w rot [of "8 + length (Block_SerializeToBytes b)"] exInit(6) [of "- 1"]
    by (auto simp: BF_WriteBlock_def Let_def appendFile_def rotateFile_def split: prod.splits sum.splits io.splits if_splits)
  moreover show "bf_rev (fs_files s) = Map.empty" using BF_WriteBlock_frame(1) [OF w] by (simp add: s exInit)
  ultimately show "fsFits s" by (simp add: fsFits_def filesFit_def s)
  show "length (bf_magic (fs_files s)) = 4" using BF_WriteBlock_frame(2) [OF w] by (simp add: s exInit)
qed

lemma small_undo_fits:
  assumes "FS_WriteUndo toySha s f u = (r, s')" "fsFits s" "bf_rev (fs_files s) = Map.empty" "length u < 2 ^ 31"
    "length (bf_magic (fs_files s)) = 4"
  shows "fsFits s'"
proof -
  obtain bf where w: "BF_WriteUndo toySha (fs_files s) f u = (r, bf)" and s: "fs_files s' = bf"
    using assms(1) by (auto simp: FS_WriteUndo_def split: prod.splits)
  have "length v < 2 ^ 32" if "bf_rev bf n = Some v" for n v
    using w that fun_cong [OF assms(3)] assms(4,5) toy.length_sha
    by (auto simp: BF_WriteUndo_def Let_def appendFile_def frame_def DoubleSHA256_def split: prod.splits sum.splits io.splits if_splits)
  then show ?thesis using BF_WriteUndo_frame(1) [OF w] assms(2) by (auto simp: fsFits_def filesFit_def s)
qed

lemma exConnect_fits:
  assumes ct: "connectTip exEnv (exStart\<lparr>ch_store := s\<rparr>) exFirstBlock x h w rec = (r, c')"
    and f: "fsFits s" "bf_rev (fs_files s) = Map.empty" "length (bf_magic (fs_files s)) = 4"
  shows "fsFits (ch_store c')"
proof -
  have "length (SerializeUndoData undo) < 2 ^ 31" if "ConnectBlock toySha t exFirstBlock h = (Inr undo, u)" for undo t u
  proof -
    have "blockSpends (Transactions exFirstBlock) = []" by code_simp
    then have "undo = []" using ConnectBlock_effect(2) [OF that] by simp
    then show ?thesis by (simp add: SerializeUndoData_def length_PutVarInt VarIntSize_def)
  qed
  note undo = small_undo_fits [OF _ f(1,2) this f(3)]
  have put: "FS_PutBlockIndex memKv t y q = (e, t') \<Longrightarrow> fsFits t' = fsFits t" for t y q e t'
    using exNode.putIndex [of t y q e t'] by simp
  show ?thesis using ct f(1)
    by (auto simp: connectTip_def Let_def split: sum.splits prod.splits
        dest!: put exNode.persist_frame exNode.extendChain_frame dest: undo)
qed

lemma exDelivery_fits: "fsFits (ch_store (deliverAll exEnv [exDelivery] exStart))"
proof -
  obtain res c' where pb: "ProcessBlock exEnv (\<lambda>_. 3000) 0 0 exFirstBlock exStart = (res, c')" by fastforce
  have f0: "fsFits (ch_store exStart)"
    using exInit(4) exInit(6) [of "- 1"] by (simp add: fsFits_def filesFit_def)
  have "fsFits (ch_store c')"
    using pb
  proof (cases rule: ProcessBlock_cases)
    case (failed ph w rb s1)
    then show ?thesis using exWriteBlock_fits by simp
  next
    case (tip ph w loc s1 r c1)
    then have w: "FS_WriteBlock (ch_store exStart) (blockHash toySha exFirstBlock) exFirstBlock = (Inr loc, s1)" by simp
    have c1: "fsFits (ch_store c1)" by (rule exConnect_fits [OF tip(5) exWriteBlock_fits [OF w]])
    have "processOrphans exEnv (\<lambda>_. 3000) y c1 = c1" for y
      by (rule processOrphans_empty) (use connectTip_orphans [OF tip(5)] exInit(3) in simp)
    then show ?thesis using tip(6) c1 by auto
  next
    case (side ph w loc s1 q s2)
    then show ?thesis using exInit(2) by (auto split: if_splits)
  next
    case (switch ph w loc s1 q s2 r c2)
    then show ?thesis using exInit(2) by (auto split: if_splits)
  qed (use f0 in auto)
  then show ?thesis using pb by (simp add: exDelivery_def)
qed

end
