(* ===== verification/Peer.thy ===== *)
theory Peer
  imports Protocol Timeadjust Params
begin

text \<open>
  One remote node (\<open>internal/p2p/peer.go\<close>). A peer is a record; its connection is the list of bytes
  that can still be read and the list of bytes written so far, its send channel a list of at most
  \<open>peerSendQueueSize\<close> messages, its closed \<open>done\<close> channel a flag. A \<open>time.Time\<close> is an \<open>int\<close> of
  nanoseconds, the argument \<open>now\<close> is the reading of the clock, an \<open>int32\<close> is an \<open>int\<close> with the
  wrap-around written out. Mutexes and atomics make each method one step.
\<close>

section \<open>Data\<close>

definition wrap32 :: "int \<Rightarrow> int" where
  "wrap32 x = (x + 2 ^ 31) mod 2 ^ 32 - 2 ^ 31"

definition Unix :: "int \<Rightarrow> int" where
  "Unix now = now div Second"

record outMsg =
  om_cmd :: bytes
  om_payload :: bytes

record Peer =
  pe_addr :: bytes
  pe_inbound :: bool
  pe_magic :: bytes
  pe_id :: int
  pe_connType :: string
  pe_version :: "VersionMsg option"
  pe_connectedAt :: int
  pe_lastRecv :: int
  pe_lastSend :: int
  pe_pingNonce :: u64
  pe_pingSent :: int
  pe_lastPong :: int
  pe_pingLatency :: duration
  pe_minPingLatency :: duration
  pe_lastBlockTime :: int
  pe_lastTxTime :: int
  pe_syncedHeaders :: int
  pe_syncedBlocks :: int
  pe_banScore :: int
  pe_msgCount :: int
  pe_windowStart :: int
  pe_getaddrResponded :: bool
  pe_knownInv :: "hash set"
  pe_sendQueue :: "outMsg list"
  pe_bytesRecv :: int
  pe_bytesSent :: int
  pe_done :: bool
  pe_reader :: bytes
  pe_written :: bytes

definition peerSendQueueSize :: nat where "peerSendQueueSize = 1024"
definition PingInterval :: duration where "PingInterval = 2 * Minute"
definition PongTimeout :: duration where "PongTimeout = 20 * Minute"
definition BanThreshold :: int where "BanThreshold = 100"
definition BanDuration :: duration where "BanDuration = 24 * Hour"
definition RateLimitWindow :: duration where "RateLimitWindow = 10 * Second"
definition RateLimitMaxMsgs :: int where "RateLimitMaxMsgs = 500"

text \<open>The zero value of \<open>time.Time\<close>: the first of January of the year 1.\<close>

definition zeroTime :: int where "zeroTime = - 62135596800 * Second"

text \<open>A new peer on a connection from \<open>addr\<close> that will deliver \<open>input\<close>.\<close>

definition NewPeer :: "int \<Rightarrow> bytes \<Rightarrow> bytes \<Rightarrow> bool \<Rightarrow> bytes \<Rightarrow> Peer" where
  "NewPeer now addr input inbound magic =
     \<lparr>pe_addr = addr, pe_inbound = inbound, pe_magic = magic, pe_id = 0,
      pe_connType = (if inbound then ''inbound'' else ''outbound-full-relay''), pe_version = None,
      pe_connectedAt = now, pe_lastRecv = Unix now, pe_lastSend = Unix now,
      pe_pingNonce = 0, pe_pingSent = zeroTime, pe_lastPong = now, pe_pingLatency = 0, pe_minPingLatency = 0,
      pe_lastBlockTime = 0, pe_lastTxTime = 0, pe_syncedHeaders = -1, pe_syncedBlocks = -1,
      pe_banScore = 0, pe_msgCount = 0, pe_windowStart = now, pe_getaddrResponded = False,
      pe_knownInv = {}, pe_sendQueue = [], pe_bytesRecv = 0, pe_bytesSent = 0, pe_done = False,
      pe_reader = input, pe_written = []\<rparr>"

section \<open>Heights and liveness\<close>

definition SetStartHeightIfGreater :: "u32 \<Rightarrow> Peer \<Rightarrow> Peer" where
  "SetStartHeightIfGreater height p =
     (case pe_version p of
        None \<Rightarrow> p
      | Some v \<Rightarrow> if height > vm_StartHeight v then p\<lparr>pe_version := Some (v\<lparr>vm_StartHeight := height\<rparr>)\<rparr> else p)"

definition BestHeight :: "Peer \<Rightarrow> u32" where
  "BestHeight p = (case pe_version p of None \<Rightarrow> 0 | Some v \<Rightarrow> vm_StartHeight v)"

definition SetPingNonce :: "int \<Rightarrow> u64 \<Rightarrow> Peer \<Rightarrow> Peer" where
  "SetPingNonce now nonce p = p\<lparr>pe_pingNonce := nonce, pe_pingSent := now\<rparr>"

definition HandlePong :: "int \<Rightarrow> u64 \<Rightarrow> Peer \<Rightarrow> bool \<times> Peer" where
  "HandlePong now nonce p =
     (if pe_pingNonce p = 0 \<or> nonce \<noteq> pe_pingNonce p then (False, p)
      else
        let latency = now - pe_pingSent p in
        (True, p\<lparr>pe_pingLatency := latency,
                 pe_minPingLatency := (if pe_minPingLatency p = 0 \<or> latency < pe_minPingLatency p then latency else pe_minPingLatency p),
                 pe_lastPong := now, pe_pingNonce := 0\<rparr>))"

definition PongOverdue :: "int \<Rightarrow> Peer \<Rightarrow> bool" where
  "PongOverdue now p = (if pe_pingNonce p = 0 then False else now - pe_pingSent p > PongTimeout)"

definition StampLastBlock :: "int \<Rightarrow> Peer \<Rightarrow> Peer" where
  "StampLastBlock now p = p\<lparr>pe_lastBlockTime := Unix now\<rparr>"

definition StampLastTx :: "int \<Rightarrow> Peer \<Rightarrow> Peer" where
  "StampLastTx now p = p\<lparr>pe_lastTxTime := Unix now\<rparr>"

text \<open>The calls convert a \<open>uint32\<close> height by \<open>int32(height)\<close>.\<close>

definition SetSyncedHeaders :: "u32 \<Rightarrow> Peer \<Rightarrow> Peer" where
  "SetSyncedHeaders h p = p\<lparr>pe_syncedHeaders := wrap32 (uint h)\<rparr>"

definition SetSyncedBlocks :: "u32 \<Rightarrow> Peer \<Rightarrow> Peer" where
  "SetSyncedBlocks h p = p\<lparr>pe_syncedBlocks := wrap32 (uint h)\<rparr>"

section \<open>Misbehaviour and rate limit\<close>

definition AddBanScore :: "int \<Rightarrow> Peer \<Rightarrow> int \<times> Peer" where
  "AddBanScore delta p = (let s = wrap32 (pe_banScore p + delta) in (s, p\<lparr>pe_banScore := s\<rparr>))"

definition BanScore :: "Peer \<Rightarrow> int" where
  "BanScore p = pe_banScore p"

definition CheckRateLimit :: "int \<Rightarrow> Peer \<Rightarrow> bool \<times> Peer" where
  "CheckRateLimit now p =
     (let p = (if now - pe_windowStart p > RateLimitWindow then p\<lparr>pe_msgCount := 0, pe_windowStart := now\<rparr> else p);
          p = p\<lparr>pe_msgCount := wrap32 (pe_msgCount p + 1)\<rparr>
      in (pe_msgCount p \<le> RateLimitMaxMsgs, p))"

definition MarkGetAddrResponded :: "Peer \<Rightarrow> bool \<times> Peer" where
  "MarkGetAddrResponded p =
     (if pe_getaddrResponded p then (False, p) else (True, p\<lparr>pe_getaddrResponded := True\<rparr>))"

section \<open>Inventory\<close>

text \<open>
  A set that has grown past 10000 loses the first 2001 entries that the iteration over the map
  yields; \<open>ord\<close> lists a map in the order of that iteration.
\<close>

definition AddKnownInventory :: "(hash set \<Rightarrow> hash list) \<Rightarrow> hash \<Rightarrow> Peer \<Rightarrow> Peer" where
  "AddKnownInventory ord h p =
     (let known = insert h (pe_knownInv p) in
      p\<lparr>pe_knownInv := (if card known > 10000 then known - set (take 2001 (ord known)) else known)\<rparr>)"

definition HasKnownInventory :: "hash \<Rightarrow> Peer \<Rightarrow> bool" where
  "HasKnownInventory h p \<longleftrightarrow> h \<in> pe_knownInv p"

section \<open>Sending\<close>

text \<open>
  The \<open>select\<close> of a send. With room in the channel and the peer open the message is queued, with a
  full channel it is dropped; when there is room and the peer is closed both cases are ready and
  \<open>race\<close> says whether the runtime picks the send.
\<close>

definition canSend :: "(outMsg \<Rightarrow> bool) \<Rightarrow> outMsg \<Rightarrow> Peer \<Rightarrow> bool" where
  "canSend race msg p \<longleftrightarrow> length (pe_sendQueue p) < peerSendQueueSize \<and> (pe_done p \<longrightarrow> race msg)"

definition TrySendMessage :: "(outMsg \<Rightarrow> bool) \<Rightarrow> bytes \<Rightarrow> bytes \<Rightarrow> Peer \<Rightarrow> bool \<times> Peer" where
  "TrySendMessage race cmd payload p =
     (let msg = \<lparr>om_cmd = cmd, om_payload = payload\<rparr> in
      if canSend race msg p then (True, p\<lparr>pe_sendQueue := pe_sendQueue p @ [msg]\<rparr>) else (False, p))"

definition SendMessage :: "(outMsg \<Rightarrow> bool) \<Rightarrow> bytes \<Rightarrow> bytes \<Rightarrow> Peer \<Rightarrow> Peer" where
  "SendMessage race cmd payload p =
     (let msg = \<lparr>om_cmd = cmd, om_payload = payload\<rparr> in
      if canSend race msg p then p\<lparr>pe_sendQueue := pe_sendQueue p @ [msg]\<rparr> else p)"

definition SendLowPriority :: "(outMsg \<Rightarrow> bool) \<Rightarrow> bytes \<Rightarrow> bytes \<Rightarrow> Peer \<Rightarrow> Peer" where
  "SendLowPriority race cmd payload p =
     (if length (pe_sendQueue p) > peerSendQueueSize div 2 then p
      else
        let msg = \<lparr>om_cmd = cmd, om_payload = payload\<rparr> in
        if canSend race msg p then p\<lparr>pe_sendQueue := pe_sendQueue p @ [msg]\<rparr> else p)"

definition Close :: "Peer \<Rightarrow> Peer" where
  "Close p = p\<lparr>pe_done := True\<rparr>"

text \<open>
  One turn of \<open>WriteLoop\<close> that takes a message from the channel. The writes to the connection go
  through, or one of them fails after some bytes and the loop closes the peer and ends: the flag
  says whether it goes on.
\<close>

datatype conn_io = WriteAll | HeaderFails nat | PayloadFails nat

definition writeNext :: "(bytes \<Rightarrow> bytes) \<Rightarrow> conn_io \<Rightarrow> int \<Rightarrow> Peer \<Rightarrow> bool \<times> Peer" where
  "writeNext sha io now p =
     (case pe_sendQueue p of
        [] \<Rightarrow> (True, p)
      | msg # queue \<Rightarrow>
          let hdr = EncodeMessageHeader sha (pe_magic p) (om_cmd msg) (om_payload msg);
              p = p\<lparr>pe_sendQueue := queue\<rparr> in
          (case io of
             HeaderFails k \<Rightarrow> (False, Close (p\<lparr>pe_written := pe_written p @ take k hdr\<rparr>))
           | PayloadFails k \<Rightarrow> (False, Close (p\<lparr>pe_written := pe_written p @ hdr @ take k (om_payload msg)\<rparr>))
           | WriteAll \<Rightarrow>
               (True, p\<lparr>pe_written := pe_written p @ hdr @ om_payload msg,
                        pe_bytesSent := wrap64 (pe_bytesSent p + int (MessageHeaderSize + length (om_payload msg))),
                        pe_lastSend := Unix now\<rparr>)))"

section \<open>Receiving\<close>

definition doubleSHA256First4 :: "(bytes \<Rightarrow> bytes) \<Rightarrow> bytes \<Rightarrow> bytes" where
  "doubleSHA256First4 sha data = take 4 (sha (sha data))"

datatype read_error =
    ReadHeader proto_error
  | WrongMagic bytes
  | ReadPayload decode_error
  | BadChecksum

text \<open>
  \<open>ReadMessage\<close>: a connection that ends or times out in the middle of a message is an error. The bytes
  consumed before an error stay consumed.
\<close>

definition ReadMessage :: "(bytes \<Rightarrow> bytes) \<Rightarrow> int \<Rightarrow> Peer \<Rightarrow> (read_error, MessageHeader \<times> bytes) res \<times> Peer" where
  "ReadMessage sha now p =
     (case DecodeMessageHeader (pe_reader p) of
        Inl e \<Rightarrow> (Inl (ReadHeader e), p\<lparr>pe_reader := drop MessageHeaderSize (pe_reader p)\<rparr>)
      | Inr (hdr, r) \<Rightarrow>
          if mh_Magic hdr \<noteq> pe_magic p then (Inl (WrongMagic (mh_Magic hdr)), p\<lparr>pe_reader := r\<rparr>)
          else case rd (unat (mh_Length hdr)) r of
                 Inl e \<Rightarrow> (Inl (ReadPayload e), p\<lparr>pe_reader := []\<rparr>)
               | Inr (payload, r) \<Rightarrow>
                   if mh_Checksum hdr \<noteq> doubleSHA256First4 sha payload then (Inl BadChecksum, p\<lparr>pe_reader := r\<rparr>)
                   else (Inr (hdr, payload),
                         p\<lparr>pe_reader := r,
                           pe_bytesRecv := wrap64 (pe_bytesRecv p + int (MessageHeaderSize + length payload)),
                           pe_lastRecv := Unix now\<rparr>))"

end
