(* ===== verification/Wallet.thy ===== *)
theory Wallet
  imports Base58 Timeadjust Script Utxo
begin

text \<open>
  The wallet (\<open>internal/wallet/hdwallet.go\<close>, \<open>keystore.go\<close>): keys derived from a mnemonic, the
  wallet file, encryption with a passphrase, and the operations on scripts and unspent outputs.
  The packages \<open>hdkeychain\<close>, \<open>bip39\<close> and \<open>scrypt\<close>, the curve package and the block cipher are
  fields of \<open>wallet_lib\<close>. The wallet file is represented by the value that its JSON text carries;
  a text that \<open>json.Unmarshal\<close> refuses is \<open>Garbled\<close>. The file is a part of the state, with a
  script of what becomes of the next accesses to it; random bytes and readings of the clock are
  arguments. The mutex makes the operations atomic.
\<close>

section \<open>State\<close>

record ('sg, 'pk, 'sk, 'xk) wallet_lib =
  wl_crypto :: "('sg, 'pk, 'sk) crypto_lib"
  wl_privSerialize :: "'sk \<Rightarrow> bytes"
  wl_NewMaster :: "bytes \<Rightarrow> 'xk option"
  wl_Derive :: "'xk \<Rightarrow> u32 \<Rightarrow> 'xk option"
  wl_ECPrivKey :: "'xk \<Rightarrow> bytes option"
  wl_NewMnemonic :: "bytes \<Rightarrow> bytes option"
  wl_IsMnemonicValid :: "bytes \<Rightarrow> bool"
  wl_NewSeed :: "bytes \<Rightarrow> bytes"
  wl_scrypt :: "bytes \<Rightarrow> bytes \<Rightarrow> int \<Rightarrow> int \<Rightarrow> int \<Rightarrow> nat \<Rightarrow> bytes option"
  wl_newCipher :: "bytes \<Rightarrow> bool"
  wl_cbcEncrypt :: "bytes \<Rightarrow> bytes \<Rightarrow> bytes \<Rightarrow> bytes"
  wl_cbcDecrypt :: "bytes \<Rightarrow> bytes \<Rightarrow> bytes \<Rightarrow> bytes"

abbreviation wl_sha :: "('sg, 'pk, 'sk, 'xk) wallet_lib \<Rightarrow> bytes \<Rightarrow> bytes" where
  "wl_sha L \<equiv> lib_sha (wl_crypto L)"

definition bip44Purpose :: u32 where "bip44Purpose = 44"
definition bip44CoinType :: u32 where "bip44CoinType = 0"
definition HardenedKeyStart :: u32 where "HardenedKeyStart = 0x80000000"

record WalletData =
  wd_Mnemonic :: bytes
  wd_Seed :: string
  wd_NextExternalIdx :: u32
  wd_NextChangeIdx :: u32
  wd_Encrypted :: bool
  wd_EncryptedData :: string
  wd_Salt :: string
  wd_IV :: string
  wd_ScryptN :: int
  wd_ScryptR :: int
  wd_ScryptP :: int

record 'sk DerivedKey =
  dk_PrivKey :: 'sk
  dk_PubKey :: bytes
  dk_PubKeyHash :: bytes
  dk_Path :: string
  dk_IsChange :: bool
  dk_Index :: u32

datatype wallet_file = NoFile | EmptyFile | Garbled | Json WalletData

text \<open>What becomes of an access to the file: a failed write may leave anything behind.\<close>

datatype disk_io = DiskOk | ReadFails | MkdirFails | SaveFails wallet_file

record ('xk, 'sk) HDWallet =
  w_mnemonic :: bytes
  w_seed :: bytes
  w_accountKey :: "'xk option"
  w_externalKey :: "'xk option"
  w_changeKey :: "'xk option"
  w_externalKeys :: "'sk DerivedKey list"
  w_changeKeys :: "'sk DerivedKey list"
  w_nextExternalIdx :: u32
  w_nextChangeIdx :: u32
  w_keysByHash :: "bytes \<rightharpoonup> 'sk DerivedKey"
  w_keysByAddress :: "bytes \<rightharpoonup> 'sk DerivedKey"
  w_addrVersion :: byte
  w_encrypted :: bool
  w_locked :: bool
  w_unlockUntil :: "int option"
  w_encKey :: bytes
  w_file :: wallet_file
  w_io :: "disk_io list"

datatype wallet_error =
    GenerateEntropy
  | GenerateMnemonic
  | InvalidMnemonic
  | DeriveFailed string
  | DeriveChild bool u32
  | ExtractKey
  | NilKeyPanic
  | ParseWallet
  | ReadWallet
  | CreateWalletDir
  | WriteWallet
  | DecodeSeed
  | DecodeSalt
  | DecodeIV
  | DecodeCiphertext
  | AddressNotFound bytes
  | InvalidPrivKey
  | BadPrivKey key_error
  | AlreadyEncrypted
  | NotEncrypted
  | EmptyPassphrase
  | GenerateSalt
  | DeriveAesKey
  | EncryptFailed
  | IncorrectPassphrase
  | WalletLocked
  | SignFailed nat key_error
  | CbcPanic

text \<open>Strings are bytes; the hex functions are stated on characters.\<close>

definition strOf :: "bytes \<Rightarrow> string" where
  "strOf bs = map (\<lambda>b. char_of (unat b)) bs"

text \<open>Sequencing of operations that may fail, over the state.\<close>

fun bindS :: "('e, 'a) res \<times> 's \<Rightarrow> ('a \<Rightarrow> 's \<Rightarrow> ('e, 'b) res \<times> 's) \<Rightarrow> ('e, 'b) res \<times> 's" where
  "bindS (Inl e, s) f = (Inl e, s)"
| "bindS (Inr x, s) f = f x s"

lemma bindS_eq_Inr [res_simps]: "bindS m f = (Inr y, s') \<longleftrightarrow> (\<exists>x s. m = (Inr x, s) \<and> f x s = (Inr y, s'))"
  by (cases "(m, f)" rule: bindS.cases) auto

lemma bindS_cong [fundef_cong]:
  "m = m' \<Longrightarrow> (\<And>x s. m' = (Inr x, s) \<Longrightarrow> f x s = g x s) \<Longrightarrow> bindS m f = bindS m' g"
  by (cases "(m', f)" rule: bindS.cases) auto

fun nextDisk :: "disk_io list \<Rightarrow> disk_io \<times> disk_io list" where
  "nextDisk [] = (DiskOk, [])"
| "nextDisk (x # xs) = (x, xs)"

text \<open>\<open>os.ReadFile\<close>, \<open>os.MkdirAll\<close> and \<open>os.WriteFile\<close> on the wallet's path.\<close>

definition readWallet :: "('xk, 'sk) HDWallet \<Rightarrow> wallet_file option \<times> ('xk, 'sk) HDWallet" where
  "readWallet w =
     (case nextDisk (w_io w) of
        (io, rest) \<Rightarrow> (if io \<noteq> ReadFails \<and> w_file w \<noteq> NoFile then Some (w_file w) else None, w\<lparr>w_io := rest\<rparr>))"

definition mkdirWallet :: "('xk, 'sk) HDWallet \<Rightarrow> (wallet_error, unit) res \<times> ('xk, 'sk) HDWallet" where
  "mkdirWallet w =
     (case nextDisk (w_io w) of
        (io, rest) \<Rightarrow> (if io = MkdirFails then Inl CreateWalletDir else Inr (), w\<lparr>w_io := rest\<rparr>))"

definition writeWallet :: "WalletData \<Rightarrow> ('xk, 'sk) HDWallet \<Rightarrow> (wallet_error, unit) res \<times> ('xk, 'sk) HDWallet" where
  "writeWallet wd w =
     (case nextDisk (w_io w) of
        (SaveFails f, rest) \<Rightarrow> (Inl WriteWallet, w\<lparr>w_file := f, w_io := rest\<rparr>)
      | (_, rest) \<Rightarrow> (Inr (), w\<lparr>w_file := Json wd, w_io := rest\<rparr>))"

section \<open>Saving\<close>

definition plainData :: "('xk, 'sk) HDWallet \<Rightarrow> WalletData" where
  "plainData w = \<lparr>wd_Mnemonic = w_mnemonic w, wd_Seed = hexEncode (w_seed w),
     wd_NextExternalIdx = w_nextExternalIdx w, wd_NextChangeIdx = w_nextChangeIdx w,
     wd_Encrypted = False, wd_EncryptedData = [], wd_Salt = [], wd_IV = [], wd_ScryptN = 0, wd_ScryptR = 0, wd_ScryptP = 0\<rparr>"

definition savePreservingEncryption :: "('xk, 'sk) HDWallet \<Rightarrow> (wallet_error, unit) res \<times> ('xk, 'sk) HDWallet" where
  "savePreservingEncryption w =
     (case readWallet w of
        (None, w) \<Rightarrow> (Inl ReadWallet, w)
      | (Some f, w) \<Rightarrow>
          (case f of
             Json wd \<Rightarrow> writeWallet (wd\<lparr>wd_NextExternalIdx := w_nextExternalIdx w, wd_NextChangeIdx := w_nextChangeIdx w\<rparr>) w
           | _ \<Rightarrow> (Inl ParseWallet, w)))"

definition save :: "('xk, 'sk) HDWallet \<Rightarrow> (wallet_error, unit) res \<times> ('xk, 'sk) HDWallet" where
  "save w = (if w_encrypted w then savePreservingEncryption w else bindS (mkdirWallet w) (\<lambda>_ w. writeWallet (plainData w) w))"

section \<open>Deriving keys\<close>

definition deriveR :: "('sg, 'pk, 'sk, 'xk) wallet_lib \<Rightarrow> string \<Rightarrow> 'xk \<Rightarrow> u32 \<Rightarrow> (wallet_error, 'xk) res" where
  "deriveR L what k i = (case wl_Derive L k i of None \<Rightarrow> Inl (DeriveFailed what) | Some k' \<Rightarrow> Inr k')"

definition deriveAccountKeys :: "('sg, 'pk, 'sk, 'xk) wallet_lib \<Rightarrow> ('xk, 'sk) HDWallet \<Rightarrow> (wallet_error, unit) res \<times> ('xk, 'sk) HDWallet" where
  "deriveAccountKeys L w =
     bindS (bindR (case wl_NewMaster L (w_seed w) of None \<Rightarrow> Inl (DeriveFailed ''master key'') | Some k \<Rightarrow> Inr k) (\<lambda>masterKey.
            bindR (deriveR L ''purpose'' masterKey (HardenedKeyStart + bip44Purpose)) (\<lambda>purpose.
            bindR (deriveR L ''coin type'' purpose (HardenedKeyStart + bip44CoinType)) (\<lambda>coinType.
              deriveR L ''account'' coinType (HardenedKeyStart + 0)))), w) (\<lambda>account w.
     let w = w\<lparr>w_accountKey := Some account\<rparr> in
     bindS (deriveR L ''external chain'' account 0, w) (\<lambda>external w.
     let w = w\<lparr>w_externalKey := Some external\<rparr> in
     bindS (deriveR L ''change chain'' account 1, w) (\<lambda>change w.
       (Inr (), w\<lparr>w_changeKey := Some change\<rparr>))))"

text \<open>\<open>%d\<close> of \<open>fmt.Sprintf\<close> for an unsigned number.\<close>

fun decimal :: "nat \<Rightarrow> string" where
  "decimal n = (if n < 10 then [char_of (48 + n)] else decimal (n div 10) @ [char_of (48 + n mod 10)])"

definition keyPath :: "bool \<Rightarrow> u32 \<Rightarrow> string" where
  "keyPath isChange index = ''m/44'/0'/0'/'' @ decimal (if isChange then 1 else 0) @ ''/'' @ decimal (unat index)"

definition mkKey :: "('sg, 'pk, 'sk, 'xk) wallet_lib \<Rightarrow> 'sk \<Rightarrow> string \<Rightarrow> bool \<Rightarrow> u32 \<Rightarrow> 'sk DerivedKey" where
  "mkKey L privKey path isChange index =
     (let pubKey = SerializeCompressed (wl_crypto L) (privPubKey (wl_crypto L) privKey) in
      \<lparr>dk_PrivKey = privKey, dk_PubKey = pubKey, dk_PubKeyHash = PubKeyHash (wl_crypto L) pubKey,
       dk_Path = path, dk_IsChange = isChange, dk_Index = index\<rparr>)"

definition keyAddress :: "('sg, 'pk, 'sk, 'xk) wallet_lib \<Rightarrow> ('xk, 'sk) HDWallet \<Rightarrow> 'sk DerivedKey \<Rightarrow> bytes" where
  "keyAddress L w dk = PubKeyHashToAddress (wl_sha L) (dk_PubKeyHash dk) (w_addrVersion w)"

definition addKey :: "('sg, 'pk, 'sk, 'xk) wallet_lib \<Rightarrow> 'sk DerivedKey \<Rightarrow> ('xk, 'sk) HDWallet \<Rightarrow> ('xk, 'sk) HDWallet" where
  "addKey L dk w =
     (let w = (if dk_IsChange dk then w\<lparr>w_changeKeys := w_changeKeys w @ [dk]\<rparr>
               else w\<lparr>w_externalKeys := w_externalKeys w @ [dk]\<rparr>)
      in w\<lparr>w_keysByHash := (w_keysByHash w)(dk_PubKeyHash dk \<mapsto> dk),
           w_keysByAddress := (w_keysByAddress w)(keyAddress L w dk \<mapsto> dk)\<rparr>)"

definition registerKey :: "('sg, 'pk, 'sk, 'xk) wallet_lib \<Rightarrow> 'xk \<Rightarrow> bool \<Rightarrow> u32 \<Rightarrow> ('xk, 'sk) HDWallet
    \<Rightarrow> (wallet_error, 'sk DerivedKey) res \<times> ('xk, 'sk) HDWallet" where
  "registerKey L extKey isChange index w =
     (case wl_ECPrivKey L extKey of
        None \<Rightarrow> (Inl ExtractKey, w)
      | Some ecPrivKey \<Rightarrow>
          let dk = mkKey L (lib_PrivKeyFromBytes (wl_crypto L) ecPrivKey) (keyPath isChange index) isChange index in
          (Inr dk, addKey L dk w))"

text \<open>On a wallet without its chain keys the call of \<open>Derive\<close> dereferences a nil pointer.\<close>

definition deriveExternal :: "('sg, 'pk, 'sk, 'xk) wallet_lib \<Rightarrow> u32 \<Rightarrow> ('xk, 'sk) HDWallet
    \<Rightarrow> (wallet_error, 'sk DerivedKey) res \<times> ('xk, 'sk) HDWallet" where
  "deriveExternal L index w =
     (case w_externalKey w of
        None \<Rightarrow> (Inl NilKeyPanic, w)
      | Some k \<Rightarrow> (case wl_Derive L k index of
            None \<Rightarrow> (Inl (DeriveChild False index), w)
          | Some child \<Rightarrow> registerKey L child False index w))"

definition deriveChange :: "('sg, 'pk, 'sk, 'xk) wallet_lib \<Rightarrow> u32 \<Rightarrow> ('xk, 'sk) HDWallet
    \<Rightarrow> (wallet_error, 'sk DerivedKey) res \<times> ('xk, 'sk) HDWallet" where
  "deriveChange L index w =
     (case w_changeKey w of
        None \<Rightarrow> (Inl NilKeyPanic, w)
      | Some k \<Rightarrow> (case wl_Derive L k index of
            None \<Rightarrow> (Inl (DeriveChild True index), w)
          | Some child \<Rightarrow> registerKey L child True index w))"

definition DeriveNextExternal :: "('sg, 'pk, 'sk, 'xk) wallet_lib \<Rightarrow> ('xk, 'sk) HDWallet \<Rightarrow> (wallet_error, 'sk DerivedKey) res \<times> ('xk, 'sk) HDWallet" where
  "DeriveNextExternal L w =
     bindS (deriveExternal L (w_nextExternalIdx w) w) (\<lambda>dk w.
     bindS (save (w\<lparr>w_nextExternalIdx := w_nextExternalIdx w + 1\<rparr>)) (\<lambda>_ w. (Inr dk, w)))"

definition DeriveNextChange :: "('sg, 'pk, 'sk, 'xk) wallet_lib \<Rightarrow> ('xk, 'sk) HDWallet \<Rightarrow> (wallet_error, 'sk DerivedKey) res \<times> ('xk, 'sk) HDWallet" where
  "DeriveNextChange L w =
     bindS (deriveChange L (w_nextChangeIdx w) w) (\<lambda>dk w.
     bindS (save (w\<lparr>w_nextChangeIdx := w_nextChangeIdx w + 1\<rparr>)) (\<lambda>_ w. (Inr dk, w)))"

definition GetNewAddress :: "('sg, 'pk, 'sk, 'xk) wallet_lib \<Rightarrow> ('xk, 'sk) HDWallet \<Rightarrow> (wallet_error, bytes) res \<times> ('xk, 'sk) HDWallet" where
  "GetNewAddress L w = bindS (DeriveNextExternal L w) (\<lambda>dk w. (Inr (keyAddress L w dk), w))"

definition GetChangeAddress :: "('sg, 'pk, 'sk, 'xk) wallet_lib \<Rightarrow> ('xk, 'sk) HDWallet \<Rightarrow> (wallet_error, bytes) res \<times> ('xk, 'sk) HDWallet" where
  "GetChangeAddress L w = bindS (DeriveNextChange L w) (\<lambda>dk w. (Inr (keyAddress L w dk), w))"

definition GetCurrentChangeAddress :: "('sg, 'pk, 'sk, 'xk) wallet_lib \<Rightarrow> ('xk, 'sk) HDWallet \<Rightarrow> (wallet_error, bytes) res \<times> ('xk, 'sk) HDWallet" where
  "GetCurrentChangeAddress L w =
     (if length (w_changeKeys w) > 0 then (Inr (keyAddress L w (w_changeKeys w ! (length (w_changeKeys w) - 1))), w)
      else GetChangeAddress L w)"

section \<open>Creating and loading\<close>

fun rederive :: "(u32 \<Rightarrow> ('xk, 'sk) HDWallet \<Rightarrow> (wallet_error, 'sk DerivedKey) res \<times> ('xk, 'sk) HDWallet) \<Rightarrow> u32 list
    \<Rightarrow> ('xk, 'sk) HDWallet \<Rightarrow> (wallet_error, unit) res \<times> ('xk, 'sk) HDWallet" where
  "rederive f [] w = (Inr (), w)"
| "rederive f (i # is) w = bindS (f i w) (\<lambda>_ w. rederive f is w)"

definition upTo :: "u32 \<Rightarrow> u32 list" where
  "upTo n = map of_nat [0..<unat n]"

definition loadSeedAndDerive :: "('sg, 'pk, 'sk, 'xk) wallet_lib \<Rightarrow> bytes \<Rightarrow> string \<Rightarrow> ('xk, 'sk) HDWallet \<Rightarrow> (wallet_error, unit) res \<times> ('xk, 'sk) HDWallet" where
  "loadSeedAndDerive L mnemonic seedHex w =
     (case hexDecode seedHex of
        None \<Rightarrow> (Inl DecodeSeed, w)
      | Some seedBytes \<Rightarrow>
          bindS (deriveAccountKeys L (w\<lparr>w_mnemonic := mnemonic, w_seed := seedBytes\<rparr>)) (\<lambda>_ w.
          bindS (rederive (deriveExternal L) (upTo (w_nextExternalIdx w)) w) (\<lambda>_ w.
            rederive (deriveChange L) (upTo (w_nextChangeIdx w)) w)))"

definition loadFromJSON :: "('sg, 'pk, 'sk, 'xk) wallet_lib \<Rightarrow> wallet_file \<Rightarrow> ('xk, 'sk) HDWallet \<Rightarrow> (wallet_error, unit) res \<times> ('xk, 'sk) HDWallet" where
  "loadFromJSON L f w =
     (case f of
        Json wd \<Rightarrow>
          let w = w\<lparr>w_nextExternalIdx := wd_NextExternalIdx wd, w_nextChangeIdx := wd_NextChangeIdx wd\<rparr> in
          if wd_Encrypted wd then
            let w = w\<lparr>w_encrypted := True, w_locked := True\<rparr> in
            if wd_Seed wd \<noteq> [] \<and> wd_Mnemonic wd \<noteq> [] then loadSeedAndDerive L (wd_Mnemonic wd) (wd_Seed wd) w
            else (Inr (), w)
          else loadSeedAndDerive L (wd_Mnemonic wd) (wd_Seed wd) w
      | _ \<Rightarrow> (Inl ParseWallet, w))"

definition createNew :: "('sg, 'pk, 'sk, 'xk) wallet_lib \<Rightarrow> bytes option \<Rightarrow> bytes \<Rightarrow> ('xk, 'sk) HDWallet \<Rightarrow> (wallet_error, unit) res \<times> ('xk, 'sk) HDWallet" where
  "createNew L entropy mnemonic w =
     bindS (if mnemonic = [] then
              (case entropy of
                 None \<Rightarrow> Inl GenerateEntropy
               | Some e \<Rightarrow> (case wl_NewMnemonic L e of None \<Rightarrow> Inl GenerateMnemonic | Some m \<Rightarrow> Inr m))
            else Inr mnemonic, w) (\<lambda>mnemonic w.
     if \<not> wl_IsMnemonicValid L mnemonic then (Inl InvalidMnemonic, w)
     else
       bindS (deriveAccountKeys L (w\<lparr>w_mnemonic := mnemonic, w_seed := wl_NewSeed L mnemonic\<rparr>)) (\<lambda>_ w.
       bindS (DeriveNextExternal L w) (\<lambda>_ w. save w)))"

definition emptyWallet :: "byte \<Rightarrow> wallet_file \<Rightarrow> disk_io list \<Rightarrow> ('xk, 'sk) HDWallet" where
  "emptyWallet addrVersion f io =
     \<lparr>w_mnemonic = [], w_seed = [], w_accountKey = None, w_externalKey = None, w_changeKey = None,
      w_externalKeys = [], w_changeKeys = [], w_nextExternalIdx = 0, w_nextChangeIdx = 0,
      w_keysByHash = Map.empty, w_keysByAddress = Map.empty, w_addrVersion = addrVersion,
      w_encrypted = False, w_locked = False, w_unlockUntil = None, w_encKey = [], w_file = f, w_io = io\<rparr>"

text \<open>
  A file that cannot be read is treated like one that does not exist: the new wallet is written
  over it.
\<close>

definition NewHDWallet :: "('sg, 'pk, 'sk, 'xk) wallet_lib \<Rightarrow> bytes option \<Rightarrow> byte \<Rightarrow> wallet_file \<Rightarrow> disk_io list
    \<Rightarrow> (wallet_error, unit) res \<times> ('xk, 'sk) HDWallet" where
  "NewHDWallet L entropy addrVersion f io =
     (case readWallet (emptyWallet addrVersion f io) of
        (Some g, w) \<Rightarrow> if g \<noteq> EmptyFile then loadFromJSON L g w else createNew L entropy [] w
      | (None, w) \<Rightarrow> createNew L entropy [] w)"

definition NewHDWalletFromMnemonic :: "('sg, 'pk, 'sk, 'xk) wallet_lib \<Rightarrow> bytes option \<Rightarrow> byte \<Rightarrow> bytes \<Rightarrow> wallet_file \<Rightarrow> disk_io list
    \<Rightarrow> (wallet_error, unit) res \<times> ('xk, 'sk) HDWallet" where
  "NewHDWalletFromMnemonic L entropy addrVersion mnemonic f io = createNew L entropy mnemonic (emptyWallet addrVersion f io)"

section \<open>Looking up keys\<close>

definition GetKeyForAddress :: "('xk, 'sk) HDWallet \<Rightarrow> bytes \<Rightarrow> 'sk DerivedKey option" where
  "GetKeyForAddress w address = w_keysByAddress w address"

definition GetKeyForPubKeyHash :: "('xk, 'sk) HDWallet \<Rightarrow> bytes \<Rightarrow> 'sk DerivedKey option" where
  "GetKeyForPubKeyHash w h = w_keysByHash w h"

definition KeyForScript :: "('xk, 'sk) HDWallet \<Rightarrow> bytes \<Rightarrow> 'sk DerivedKey option" where
  "KeyForScript w pkScript = (case ExtractP2PKHHash pkScript of None \<Rightarrow> None | Some h \<Rightarrow> w_keysByHash w h)"

definition IsOurScript :: "('xk, 'sk) HDWallet \<Rightarrow> bytes \<Rightarrow> bool" where
  "IsOurScript w pkScript \<longleftrightarrow> (case ExtractP2PKHHash pkScript of None \<Rightarrow> False | Some h \<Rightarrow> w_keysByHash w h \<noteq> None)"

definition AllAddresses :: "('sg, 'pk, 'sk, 'xk) wallet_lib \<Rightarrow> ('xk, 'sk) HDWallet \<Rightarrow> bytes list" where
  "AllAddresses L w = map (keyAddress L w) (w_externalKeys w) @ map (keyAddress L w) (w_changeKeys w)"

definition ExternalAddresses :: "('sg, 'pk, 'sk, 'xk) wallet_lib \<Rightarrow> ('xk, 'sk) HDWallet \<Rightarrow> bytes list" where
  "ExternalAddresses L w = map (keyAddress L w) (w_externalKeys w)"

definition GetDefaultAddress :: "('sg, 'pk, 'sk, 'xk) wallet_lib \<Rightarrow> ('xk, 'sk) HDWallet \<Rightarrow> bytes" where
  "GetDefaultAddress L w = (if w_externalKeys w = [] then [] else keyAddress L w (w_externalKeys w ! 0))"

definition GetDefaultP2PKHScript :: "('xk, 'sk) HDWallet \<Rightarrow> bytes option" where
  "GetDefaultP2PKHScript w = (if w_externalKeys w = [] then None else Some (MakeP2PKHScript (dk_PubKeyHash (w_externalKeys w ! 0))))"

definition MiningKeyCompat :: "('xk, 'sk) HDWallet \<Rightarrow> bytes option \<times> bytes" where
  "MiningKeyCompat w =
     (if w_externalKeys w = [] then (None, replicate PubKeyHashSize 0)
      else let dk = w_externalKeys w ! 0 in (Some (MakeP2PKHScript (dk_PubKeyHash dk)), dk_PubKeyHash dk))"

definition KeyCount :: "('xk, 'sk) HDWallet \<Rightarrow> nat" where
  "KeyCount w = length (w_externalKeys w) + length (w_changeKeys w)"

definition AddressVersion :: "('xk, 'sk) HDWallet \<Rightarrow> byte" where
  "AddressVersion w = w_addrVersion w"

section \<open>Encryption\<close>

definition scryptN :: int where "scryptN = 32768"
definition scryptR :: int where "scryptR = 8"
definition scryptP :: int where "scryptP = 1"
definition keyLen :: nat where "keyLen = 32"
definition saltLen :: nat where "saltLen = 16"
definition aesBlockSize :: nat where "aesBlockSize = 16"

definition pkcs7Pad :: "bytes \<Rightarrow> nat \<Rightarrow> bytes" where
  "pkcs7Pad data blockSize =
     (let padding = blockSize - length data mod blockSize in data @ replicate padding (of_nat padding))"

definition pkcs7Unpad :: "bytes \<Rightarrow> nat \<Rightarrow> bytes option" where
  "pkcs7Unpad data blockSize =
     (if length data = 0 \<or> length data mod blockSize \<noteq> 0 then None
      else
        let padLen = unat (data ! (length data - 1)) in
        if padLen = 0 \<or> padLen > blockSize then None
        else if list_all (\<lambda>i. data ! i = of_nat padLen) [length data - padLen..<length data]
        then Some (take (length data - padLen) data) else None)"

definition aesEncrypt :: "('sg, 'pk, 'sk, 'xk) wallet_lib \<Rightarrow> bytes option \<Rightarrow> bytes \<Rightarrow> bytes \<Rightarrow> (bytes \<times> bytes) option" where
  "aesEncrypt L rnd key plaintext =
     (if \<not> wl_newCipher L key then None
      else case rnd of
             None \<Rightarrow> None
           | Some iv \<Rightarrow> Some (wl_cbcEncrypt L key iv (pkcs7Pad plaintext aesBlockSize), iv))"

text \<open>\<open>NewCBCDecrypter\<close> panics on an initialisation vector that is not one block long.\<close>

definition aesDecrypt :: "('sg, 'pk, 'sk, 'xk) wallet_lib \<Rightarrow> bytes \<Rightarrow> bytes \<Rightarrow> bytes \<Rightarrow> (wallet_error, bytes) res" where
  "aesDecrypt L key iv ciphertext =
     (if \<not> wl_newCipher L key then Inl IncorrectPassphrase
      else if length ciphertext mod aesBlockSize \<noteq> 0 then Inl IncorrectPassphrase
      else if length iv \<noteq> aesBlockSize then Inl CbcPanic
      else case pkcs7Unpad (wl_cbcDecrypt L key iv ciphertext) aesBlockSize of
             None \<Rightarrow> Inl IncorrectPassphrase
           | Some p \<Rightarrow> Inr p)"

text \<open>
  The iteration over a string goes by UTF-8 sequences; a byte that starts none is replaced by
  U+FFFD. \<open>runeLen\<close> is the length of the sequence that the bytes start with, 0 for none.
\<close>

definition isCont :: "byte \<Rightarrow> bool" where
  "isCont b \<longleftrightarrow> 0x80 \<le> b \<and> b \<le> 0xBF"

definition runeLen :: "bytes \<Rightarrow> nat" where
  "runeLen s =
     (let a = s ! 0; b = s ! 1 in
      if a < 0x80 then 1
      else if 0xC2 \<le> a \<and> a \<le> 0xDF \<and> length s \<ge> 2 \<and> isCont b then 2
      else if 0xE0 \<le> a \<and> a \<le> 0xEF \<and> length s \<ge> 3 \<and> isCont b \<and> (a = 0xE0 \<longrightarrow> 0xA0 \<le> b) \<and> (a = 0xED \<longrightarrow> b \<le> 0x9F)
        \<and> isCont (s ! 2) then 3
      else if 0xF0 \<le> a \<and> a \<le> 0xF4 \<and> length s \<ge> 4 \<and> isCont b \<and> (a = 0xF0 \<longrightarrow> 0x90 \<le> b) \<and> (a = 0xF4 \<longrightarrow> b \<le> 0x8F)
        \<and> isCont (s ! 2) \<and> isCont (s ! 3) then 4
      else 0)"

function chunks :: "bytes \<Rightarrow> bytes list" where
  "chunks s = (if s = [] then [] else take (max 1 (runeLen s)) s # chunks (drop (max 1 (runeLen s)) s))"
  by pat_completeness auto
termination
  by (relation "measure length") auto

declare chunks.simps [simp del]

definition runeText :: "bytes \<Rightarrow> bytes" where
  "runeText c = (if runeLen c = 0 then [0xEF, 0xBF, 0xBD] else c)"

definition runes :: "bytes \<Rightarrow> bytes list" where
  "runes s = map runeText (chunks s)"

fun splitLoop :: "bytes list \<Rightarrow> bytes list \<Rightarrow> bytes \<Rightarrow> bytes list" where
  "splitLoop [] parts current = (if current \<noteq> [] then parts @ [current] else parts)"
| "splitLoop (c # cs) parts current =
     (if c = [0x0A] then splitLoop cs (parts @ [current]) [] else splitLoop cs parts (current @ c))"

definition splitOnNewline :: "bytes \<Rightarrow> bytes list" where
  "splitOnNewline s = splitLoop (runes s) [] []"

definition wipe :: "('xk, 'sk) HDWallet \<Rightarrow> ('xk, 'sk) HDWallet" where
  "wipe w = w\<lparr>w_locked := True, w_encKey := [], w_seed := replicate (length (w_seed w)) 0, w_mnemonic := [], w_unlockUntil := None\<rparr>"

definition IsEncrypted :: "('xk, 'sk) HDWallet \<Rightarrow> bool" where
  "IsEncrypted w = w_encrypted w"

definition IsLocked :: "int \<Rightarrow> ('xk, 'sk) HDWallet \<Rightarrow> bool \<times> ('xk, 'sk) HDWallet" where
  "IsLocked now w =
     (if \<not> w_encrypted w then (False, w)
      else if w_locked w then (True, w)
      else case w_unlockUntil w of
             Some t \<Rightarrow> if now > t then (True, wipe w) else (False, w)
           | None \<Rightarrow> (False, w))"

definition RequireUnlocked :: "int \<Rightarrow> ('xk, 'sk) HDWallet \<Rightarrow> (wallet_error, unit) res \<times> ('xk, 'sk) HDWallet" where
  "RequireUnlocked now w =
     (if \<not> IsEncrypted w then (Inr (), w)
      else case IsLocked now w of (l, w) \<Rightarrow> (if l then Inl WalletLocked else Inr (), w))"

definition Mnemonic :: "int \<Rightarrow> ('xk, 'sk) HDWallet \<Rightarrow> bytes \<times> ('xk, 'sk) HDWallet" where
  "Mnemonic now w = (case IsLocked now w of (l, w) \<Rightarrow> (if l then [] else w_mnemonic w, w))"

definition saveEncrypted :: "bytes \<Rightarrow> bytes \<Rightarrow> bytes \<Rightarrow> ('xk, 'sk) HDWallet \<Rightarrow> (wallet_error, unit) res \<times> ('xk, 'sk) HDWallet" where
  "saveEncrypted ciphertext salt iv w =
     bindS (mkdirWallet w) (\<lambda>_ w. writeWallet \<lparr>wd_Mnemonic = [], wd_Seed = [], wd_NextExternalIdx = w_nextExternalIdx w, wd_NextChangeIdx = w_nextChangeIdx w,
       wd_Encrypted = True, wd_EncryptedData = hexEncode ciphertext, wd_Salt = hexEncode salt, wd_IV = hexEncode iv,
       wd_ScryptN = scryptN, wd_ScryptR = scryptR, wd_ScryptP = scryptP\<rparr> w)"

definition plaintextOf :: "('xk, 'sk) HDWallet \<Rightarrow> bytes" where
  "plaintextOf w = w_mnemonic w @ [0x0A] @ map of_char (hexEncode (w_seed w))"

definition EncryptWallet :: "('sg, 'pk, 'sk, 'xk) wallet_lib \<Rightarrow> bytes option \<Rightarrow> bytes option \<Rightarrow> bytes \<Rightarrow> ('xk, 'sk) HDWallet
    \<Rightarrow> (wallet_error, unit) res \<times> ('xk, 'sk) HDWallet" where
  "EncryptWallet L rndSalt rndIv passphrase w =
     (if w_encrypted w then (Inl AlreadyEncrypted, w)
      else if passphrase = [] then (Inl EmptyPassphrase, w)
      else case rndSalt of
        None \<Rightarrow> (Inl GenerateSalt, w)
      | Some salt \<Rightarrow>
          (case wl_scrypt L passphrase salt scryptN scryptR scryptP keyLen of
             None \<Rightarrow> (Inl DeriveAesKey, w)
           | Some aesKey \<Rightarrow>
               (case aesEncrypt L rndIv aesKey (plaintextOf w) of
                  None \<Rightarrow> (Inl EncryptFailed, w)
                | Some (ciphertext, iv) \<Rightarrow>
                    saveEncrypted ciphertext salt iv (w\<lparr>w_encrypted := True, w_locked := True, w_encKey := []\<rparr>))))"

definition hexR :: "wallet_error \<Rightarrow> string \<Rightarrow> (wallet_error, bytes) res" where
  "hexR e s = (case hexDecode s of None \<Rightarrow> Inl e | Some b \<Rightarrow> Inr b)"

definition orDefault :: "int \<Rightarrow> int \<Rightarrow> int" where
  "orDefault x d = (if x = 0 then d else x)"

text \<open>Reading the passphrase's key and the two lines of plaintext from the data of the file.\<close>

definition decryptData :: "('sg, 'pk, 'sk, 'xk) wallet_lib \<Rightarrow> bytes \<Rightarrow> WalletData \<Rightarrow> (wallet_error, bytes \<times> bytes \<times> bytes) res" where
  "decryptData L passphrase wd =
     bindR (hexR DecodeSalt (wd_Salt wd)) (\<lambda>salt.
     bindR (hexR DecodeIV (wd_IV wd)) (\<lambda>iv.
     bindR (hexR DecodeCiphertext (wd_EncryptedData wd)) (\<lambda>ciphertext.
     case wl_scrypt L passphrase salt (orDefault (wd_ScryptN wd) scryptN) (orDefault (wd_ScryptR wd) scryptR) (orDefault (wd_ScryptP wd) scryptP) keyLen of
       None \<Rightarrow> Inl DeriveAesKey
     | Some aesKey \<Rightarrow>
         bindR (aesDecrypt L aesKey iv ciphertext) (\<lambda>plaintext.
           case splitOnNewline plaintext of
             mnemonic # seedHex # _ \<Rightarrow>
               if \<not> wl_IsMnemonicValid L mnemonic then Inl IncorrectPassphrase else Inr (aesKey, mnemonic, seedHex)
           | _ \<Rightarrow> Inl IncorrectPassphrase))))"

text \<open>The multiplication of the timeout is one of 64-bit integers.\<close>

definition WalletPassphrase :: "('sg, 'pk, 'sk, 'xk) wallet_lib \<Rightarrow> int \<Rightarrow> bytes \<Rightarrow> int \<Rightarrow> ('xk, 'sk) HDWallet
    \<Rightarrow> (wallet_error, unit) res \<times> ('xk, 'sk) HDWallet" where
  "WalletPassphrase L now passphrase timeoutSecs w =
     (if \<not> w_encrypted w then (Inl NotEncrypted, w)
      else case readWallet w of
        (None, w) \<Rightarrow> (Inl ReadWallet, w)
      | (Some f, w) \<Rightarrow>
          (case f of
             Json wd \<Rightarrow>
               bindS (decryptData L passphrase wd, w) (\<lambda>(aesKey, mnemonic, seedHex) w.
               bindS (if w_seed w = [] then loadSeedAndDerive L mnemonic (strOf seedHex) w else (Inr (), w)) (\<lambda>_ w.
                 (Inr (), w\<lparr>w_locked := False, w_encKey := aesKey,
                    w_unlockUntil := (if timeoutSecs > 0 then Some (now + wrap64 (timeoutSecs * 1000000000)) else None)\<rparr>)))
           | _ \<Rightarrow> (Inl ParseWallet, w)))"

definition WalletLock :: "('xk, 'sk) HDWallet \<Rightarrow> (wallet_error, unit) res \<times> ('xk, 'sk) HDWallet" where
  "WalletLock w = (if \<not> w_encrypted w then (Inl NotEncrypted, w) else (Inr (), wipe w))"

section \<open>Single keys\<close>

definition DumpPrivKey :: "('sg, 'pk, 'sk, 'xk) wallet_lib \<Rightarrow> int \<Rightarrow> bytes \<Rightarrow> ('xk, 'sk) HDWallet \<Rightarrow> (wallet_error, bytes) res \<times> ('xk, 'sk) HDWallet" where
  "DumpPrivKey L now address w =
     bindS (RequireUnlocked now w) (\<lambda>_ w.
       case w_keysByAddress w address of
         None \<Rightarrow> (Inl (AddressNotFound address), w)
       | Some dk \<Rightarrow> (Inr (EncodeWIF (wl_sha L) (wl_privSerialize L (dk_PrivKey dk)) (w_addrVersion w)), w))"

definition ImportPrivKey :: "('sg, 'pk, 'sk, 'xk) wallet_lib \<Rightarrow> bytes \<Rightarrow> ('xk, 'sk) HDWallet \<Rightarrow> (wallet_error, bytes) res \<times> ('xk, 'sk) HDWallet" where
  "ImportPrivKey L privKeyStr w =
     bindS (bindR (case DecodeWIF (wl_sha L) privKeyStr of
                     Inr (wifKey, _, _) \<Rightarrow> Inr wifKey
                   | Inl _ \<Rightarrow> hexR InvalidPrivKey (strOf privKeyStr)) (\<lambda>privBytes.
            mapErr BadPrivKey (PrivKeyFromBytes (wl_crypto L) privBytes)), w) (\<lambda>privKey w.
     let dk = mkKey L privKey ''imported'' False 0; addr = keyAddress L w dk in
     if w_keysByHash w (dk_PubKeyHash dk) \<noteq> None then (Inr addr, w)
     else (Inr addr, addKey L dk w))"

section \<open>Unspent outputs\<close>

record UnspentOutput =
  uo_TxHash :: hash
  uo_Index :: u32
  uo_Value :: u64
  uo_Height :: u32
  uo_Confirmations :: u32
  uo_Address :: bytes
  uo_PkScript :: bytes
  uo_IsCoinbase :: bool

definition confirmations :: "u32 \<Rightarrow> u32 \<Rightarrow> u32" where
  "confirmations tipHeight height = (if tipHeight \<ge> height then tipHeight - height + 1 else 0)"

text \<open>The iterators are calls of \<open>ForEach\<close> on the set of the chain.\<close>

definition FindUnspent :: "('sg, 'pk, 'sk, 'xk) wallet_lib \<Rightarrow> ('xk, 'sk) HDWallet \<Rightarrow> UtxoSet \<Rightarrow> bytes list \<Rightarrow> u32 \<Rightarrow> UnspentOutput list" where
  "FindUnspent L w s order tipHeight =
     ForEach (\<lambda>txHash index e results.
       case ExtractP2PKHHash (ue_PkScript e) of
         None \<Rightarrow> results
       | Some h \<Rightarrow>
           if w_keysByHash w h = None then results
           else results @ [\<lparr>uo_TxHash = txHash, uo_Index = index, uo_Value = ue_Value e, uo_Height = ue_Height e,
             uo_Confirmations = confirmations tipHeight (ue_Height e), uo_Address = PubKeyHashToAddress (wl_sha L) h (w_addrVersion w),
             uo_PkScript = ue_PkScript e, uo_IsCoinbase = ue_IsCoinbase e\<rparr>]) s order []"

definition GetBalance :: "('xk, 'sk) HDWallet \<Rightarrow> UtxoSet \<Rightarrow> bytes list \<Rightarrow> u32 \<Rightarrow> u32 \<Rightarrow> u32 \<Rightarrow> u64" where
  "GetBalance w s order tipHeight minConf coinbaseMaturity =
     ForEach (\<lambda>txHash index e total.
       case ExtractP2PKHHash (ue_PkScript e) of
         None \<Rightarrow> total
       | Some h \<Rightarrow>
           let confs = confirmations tipHeight (ue_Height e) in
           if w_keysByHash w h = None then total
           else if confs < minConf then total
           else if ue_IsCoinbase e \<and> confs < coinbaseMaturity then total
           else total + ue_Value e) s order 0"

definition setSigScript :: "Transaction \<Rightarrow> nat \<Rightarrow> bytes \<Rightarrow> Transaction" where
  "setSigScript tx i sigScript = tx\<lparr>Inputs := (Inputs tx)[i := (Inputs tx ! i)\<lparr>SignatureScript := sigScript\<rparr>]\<rparr>"

text \<open>\<open>getPrevScript\<close> returns nil for an unknown output.\<close>

fun signLoop :: "('sg, 'pk, 'sk, 'xk) wallet_lib \<Rightarrow> ('xk, 'sk) HDWallet \<Rightarrow> (hash \<Rightarrow> u32 \<Rightarrow> bytes option) \<Rightarrow> nat list \<Rightarrow> nat \<Rightarrow> Transaction
    \<Rightarrow> (wallet_error option \<times> nat) \<times> Transaction" where
  "signLoop L w getPrevScript [] nSigned tx = ((None, nSigned), tx)"
| "signLoop L w getPrevScript (i # is) nSigned tx =
     (let inp = Inputs tx ! i in
      if length (SignatureScript inp) > 0 then signLoop L w getPrevScript is (Suc nSigned) tx
      else case getPrevScript (op_Hash (PreviousOutPoint inp)) (op_Index (PreviousOutPoint inp)) of
        None \<Rightarrow> signLoop L w getPrevScript is nSigned tx
      | Some prevScript \<Rightarrow>
          (case KeyForScript w prevScript of
             None \<Rightarrow> signLoop L w getPrevScript is nSigned tx
           | Some dk \<Rightarrow>
               (case SignInput (wl_crypto L) tx (int i) prevScript (dk_PrivKey dk) of
                  Inl e \<Rightarrow> ((Some (SignFailed i e), nSigned), tx)
                | Inr sigScript \<Rightarrow> signLoop L w getPrevScript is (Suc nSigned) (setSigScript tx i sigScript))))"

text \<open>The result: the number of signed inputs, whether the transaction is complete, the error, and the transaction.\<close>

definition SignRawTransaction :: "('sg, 'pk, 'sk, 'xk) wallet_lib \<Rightarrow> int \<Rightarrow> Transaction \<Rightarrow> (hash \<Rightarrow> u32 \<Rightarrow> bytes option) \<Rightarrow> ('xk, 'sk) HDWallet
    \<Rightarrow> ((nat \<times> bool \<times> wallet_error option) \<times> Transaction) \<times> ('xk, 'sk) HDWallet" where
  "SignRawTransaction L now tx getPrevScript w =
     (case RequireUnlocked now w of
        (Inl e, w) \<Rightarrow> (((0, False, Some e), tx), w)
      | (Inr _, w) \<Rightarrow>
          (case signLoop L w getPrevScript [0..<length (Inputs tx)] 0 tx of
             ((Some e, n), tx) \<Rightarrow> (((n, False, Some e), tx), w)
           | ((None, n), tx) \<Rightarrow> (((n, n = length (Inputs tx), None), tx), w)))"

definition OutpointFromKey :: "bytes \<Rightarrow> hash \<times> u32" where
  "OutpointFromKey key = (take 32 key, getLE (drop 32 key))"

section \<open>The mining key file\<close>

record 'sk KeyStore =
  ks_privKey :: "'sk option"
  ks_pubKey :: bytes

datatype key_io = KeyFileOk | KeyMkdirFails | KeyWriteFails "bytes option"

datatype keystore_error = DecodeMiningKey | ParseMiningKey key_error | GenerateKeyFailed | CreateKeyDir | WriteMiningKey

text \<open>\<open>strings.TrimSpace\<close>: the white space of Unicode is cut off at both ends.\<close>

definition isSpaceRune :: "bytes \<Rightarrow> bool" where
  "isSpaceRune c \<longleftrightarrow> c \<in> set ([[0x09], [0x0A], [0x0B], [0x0C], [0x0D], [0x20], [0xC2, 0x85], [0xC2, 0xA0], [0xE1, 0x9A, 0x80],
     [0xE2, 0x80, 0xA8], [0xE2, 0x80, 0xA9], [0xE2, 0x80, 0xAF], [0xE2, 0x81, 0x9F], [0xE3, 0x80, 0x80]]
     @ map (\<lambda>b. [0xE2, 0x80, of_nat b]) [0x80..<0x8B])"

definition TrimSpace :: "bytes \<Rightarrow> bytes" where
  "TrimSpace s = concat (rev (dropWhile isSpaceRune (rev (dropWhile isSpaceRune (chunks s)))))"

text \<open>\<open>secp256k1.GeneratePrivateKey\<close> gives a key or an error.\<close>

definition GenerateKeyPair :: "('sg, 'pk, 'sk, 'xk) wallet_lib \<Rightarrow> 'sk option \<Rightarrow> (bytes \<times> bytes) option" where
  "GenerateKeyPair L rnd =
     (case rnd of
        None \<Rightarrow> None
      | Some key \<Rightarrow> Some (wl_privSerialize L key, SerializeCompressed (wl_crypto L) (privPubKey (wl_crypto L) key)))"

text \<open>
  The key file is the text of the file, or \<open>None\<close> when it cannot be read, whatever the reason;
  the result carries the file that is left.
\<close>

definition LoadOrCreate :: "('sg, 'pk, 'sk, 'xk) wallet_lib \<Rightarrow> 'sk option \<Rightarrow> key_io \<Rightarrow> bytes option
    \<Rightarrow> (keystore_error, 'sk KeyStore) res \<times> bytes option" where
  "LoadOrCreate L rnd io f =
     (case f of
        Some (b # bs) \<Rightarrow>
          (case hexDecode (strOf (TrimSpace (b # bs))) of
             None \<Rightarrow> (Inl DecodeMiningKey, f)
           | Some privBytes \<Rightarrow>
               (case PrivKeyFromBytes (wl_crypto L) privBytes of
                  Inl e \<Rightarrow> (Inl (ParseMiningKey e), f)
                | Inr priv \<Rightarrow> (Inr \<lparr>ks_privKey = Some priv,
                      ks_pubKey = SerializeCompressed (wl_crypto L) (privPubKey (wl_crypto L) priv)\<rparr>, f)))
      | _ \<Rightarrow>
          (case GenerateKeyPair L rnd of
             None \<Rightarrow> (Inl GenerateKeyFailed, f)
           | Some (privBytes, pubBytes) \<Rightarrow>
               (case io of
                  KeyMkdirFails \<Rightarrow> (Inl CreateKeyDir, f)
                | KeyWriteFails g \<Rightarrow> (Inl WriteMiningKey, g)
                | KeyFileOk \<Rightarrow> (Inr \<lparr>ks_privKey = (case PrivKeyFromBytes (wl_crypto L) privBytes of Inl _ \<Rightarrow> None | Inr k \<Rightarrow> Some k),
                        ks_pubKey = pubBytes\<rparr>, Some (map of_char (hexEncode privBytes))))))"

definition KS_PubKeyHash :: "('sg, 'pk, 'sk, 'xk) wallet_lib \<Rightarrow> 'sk KeyStore \<Rightarrow> bytes" where
  "KS_PubKeyHash L ks = PubKeyHash (wl_crypto L) (ks_pubKey ks)"

definition KS_P2PKHScript :: "('sg, 'pk, 'sk, 'xk) wallet_lib \<Rightarrow> 'sk KeyStore \<Rightarrow> bytes" where
  "KS_P2PKHScript L ks = MakeP2PKHScript (KS_PubKeyHash L ks)"

end
