(* ===== verification/Peerstore.thy ===== *)
theory Peerstore
  imports Block Wallet "HOL-Library.AList"
begin

text \<open>
  The peer database: the interface \<open>PeerStore\<close> of \<open>internal/store/store.go\<close> as a record of functions over a
  state, \<open>BoltStore\<close> of \<open>bolt.go\<close> with its legacy block buckets, the text file of \<open>peerdump.go\<close>, and
  \<open>internal/p2p/discovery/discovery.go\<close>. The database is the third-party package bbolt: one transaction
  with one access to a bucket is a field of \<open>bolt_lib\<close>, and its documented behaviour is the locale
  \<open>bbolt\<close>. What the clients rely on is the locale \<open>peer_store\<close>.
\<close>

section \<open>Interface and database\<close>

datatype bolt_error = BoltFailed | BoltNotFound | BoltCorrupt | BoltDecode decode_error

record 'd PeerStore =
  ps_GetPeers :: "'d \<Rightarrow> (bolt_error, bytes list) res"
  ps_PutPeer :: "bytes \<Rightarrow> 'd \<Rightarrow> (bolt_error, unit) res \<times> 'd"
  ps_RemovePeer :: "bytes \<Rightarrow> 'd \<Rightarrow> (bolt_error, unit) res \<times> 'd"

record 'b bolt_lib =
  bo_create :: "bytes \<Rightarrow> 'b \<Rightarrow> (bolt_error, unit) res \<times> 'b"
  bo_get :: "bytes \<Rightarrow> bytes \<Rightarrow> 'b \<Rightarrow> (bolt_error, bytes option) res"
  bo_keys :: "bytes \<Rightarrow> 'b \<Rightarrow> (bolt_error, bytes list) res"
  bo_put :: "bytes \<Rightarrow> bytes \<Rightarrow> bytes \<Rightarrow> 'b \<Rightarrow> (bolt_error, unit) res \<times> 'b"
  bo_delete :: "bytes \<Rightarrow> bytes \<Rightarrow> 'b \<Rightarrow> (bolt_error, unit) res \<times> 'b"

definition blocksBucket :: bytes where "blocksBucket = ascii ''blocks''"
definition headersBucket :: bytes where "headersBucket = ascii ''headers''"
definition heightIndexBucket :: bytes where "heightIndexBucket = ascii ''heightindex''"
definition hashIndexBucket :: bytes where "hashIndexBucket = ascii ''hashindex''"
definition chainStateBucket :: bytes where "chainStateBucket = ascii ''chainstate''"
definition peersBucket :: bytes where "peersBucket = ascii ''peers''"
definition utxoBucket :: bytes where "utxoBucket = ascii ''utxos''"
definition undoBucket :: bytes where "undoBucket = ascii ''undodata''"
definition chainTipKey :: bytes where "chainTipKey = ascii ''tip''"

text \<open>\<open>NewBoltStore\<close> creates the missing buckets in one transaction; \<open>db\<close> is the opened database.\<close>

fun createBuckets :: "'b bolt_lib \<Rightarrow> bytes list \<Rightarrow> 'b \<Rightarrow> (bolt_error, unit) res \<times> 'b" where
  "createBuckets L [] db = (Inr (), db)"
| "createBuckets L (b # bs) db =
     (case bo_create L b db of (Inl e, db) \<Rightarrow> (Inl e, db) | (Inr _, db) \<Rightarrow> createBuckets L bs db)"

definition NewBoltStore :: "'b bolt_lib \<Rightarrow> 'b \<Rightarrow> (bolt_error, unit) res \<times> 'b" where
  "NewBoltStore L db =
     (case createBuckets L [blocksBucket, headersBucket, heightIndexBucket, hashIndexBucket, chainStateBucket,
              peersBucket, utxoBucket, undoBucket] db of
        (Inl e, _) \<Rightarrow> (Inl e, db)
      | (Inr _, db') \<Rightarrow> (Inr (), db'))"

definition BS_GetPeers :: "'b bolt_lib \<Rightarrow> 'b \<Rightarrow> (bolt_error, bytes list) res" where
  "BS_GetPeers L db = bo_keys L peersBucket db"

definition BS_PutPeer :: "'b bolt_lib \<Rightarrow> bytes \<Rightarrow> 'b \<Rightarrow> (bolt_error, unit) res \<times> 'b" where
  "BS_PutPeer L addr db = bo_put L peersBucket addr [1] db"

definition BS_RemovePeer :: "'b bolt_lib \<Rightarrow> bytes \<Rightarrow> 'b \<Rightarrow> (bolt_error, unit) res \<times> 'b" where
  "BS_RemovePeer L addr db = bo_delete L peersBucket addr db"

definition boltStore :: "'b bolt_lib \<Rightarrow> 'b PeerStore" where
  "boltStore L = \<lparr>ps_GetPeers = BS_GetPeers L, ps_PutPeer = BS_PutPeer L, ps_RemovePeer = BS_RemovePeer L\<rparr>"

section \<open>Legacy block buckets\<close>

definition LegacyHasBlock :: "'b bolt_lib \<Rightarrow> hash \<Rightarrow> 'b \<Rightarrow> (bolt_error, bool) res" where
  "LegacyHasBlock L hash db = bindR (bo_get L blocksBucket hash db) (\<lambda>d. Inr (d \<noteq> None))"

definition legacyGet :: "'b bolt_lib \<Rightarrow> bytes \<Rightarrow> bytes \<Rightarrow> 'b \<Rightarrow> (bolt_error, bytes) res" where
  "legacyGet L bucket key db =
     bindR (bo_get L bucket key db) (\<lambda>d. case d of None \<Rightarrow> Inl BoltNotFound | Some data \<Rightarrow> Inr data)"

definition LegacyGetBlock :: "'b bolt_lib \<Rightarrow> hash \<Rightarrow> 'b \<Rightarrow> (bolt_error, Block) res" where
  "LegacyGetBlock L hash db =
     bindR (legacyGet L blocksBucket hash db) (\<lambda>data.
     bindR (mapErr BoltDecode (Block_Deserialize data)) (\<lambda>(block, _). Inr block))"

definition LegacyGetHeader :: "'b bolt_lib \<Rightarrow> hash \<Rightarrow> 'b \<Rightarrow> (bolt_error, BlockHeader) res" where
  "LegacyGetHeader L hash db =
     bindR (legacyGet L headersBucket hash db) (\<lambda>data.
     bindR (mapErr BoltDecode (Header_Deserialize data)) (\<lambda>(header, _). Inr header))"

definition heightToBytes :: "u32 \<Rightarrow> bytes" where
  "heightToBytes h = rev (PutUint32 h)"

definition LegacyGetBlockByHeight :: "'b bolt_lib \<Rightarrow> u32 \<Rightarrow> 'b \<Rightarrow> (bolt_error, hash) res" where
  "LegacyGetBlockByHeight L height db =
     bindR (legacyGet L heightIndexBucket (heightToBytes height) db) (\<lambda>data.
       if length data \<noteq> HashSize then Inl BoltCorrupt else Inr data)"

definition LegacyGetChainTip :: "'b bolt_lib \<Rightarrow> 'b \<Rightarrow> (bolt_error, hash \<times> u32) res" where
  "LegacyGetChainTip L db =
     bindR (legacyGet L chainStateBucket chainTipKey db) (\<lambda>data.
       if length data \<noteq> HashSize + 4 then Inl BoltCorrupt
       else Inr (take HashSize data, getLE (rev (drop HashSize data))))"

definition LegacyGetUndoData :: "'b bolt_lib \<Rightarrow> hash \<Rightarrow> 'b \<Rightarrow> (bolt_error, bytes) res" where
  "LegacyGetUndoData L h db = legacyGet L undoBucket h db"

definition LegacyHasData :: "'b bolt_lib \<Rightarrow> 'b \<Rightarrow> bool" where
  "LegacyHasData L db = (case bo_get L chainStateBucket chainTipKey db of Inr (Some _) \<Rightarrow> True | _ \<Rightarrow> False)"

section \<open>The text file of peers\<close>

text \<open>
  The file that \<open>DumpPeersDat\<close> leaves: unchanged without peers or on an error, else one address per line.
  \<open>ok\<close> says whether the file can be created.
\<close>

definition DumpPeersDat :: "'d PeerStore \<Rightarrow> bool \<Rightarrow> 'd \<Rightarrow> bytes option \<Rightarrow> bytes option" where
  "DumpPeersDat S ok d f =
     (case ps_GetPeers S d of
        Inl _ \<Rightarrow> f
      | Inr peers \<Rightarrow>
          if peers = [] then f
          else if \<not> ok then f
          else Some (concat (map (\<lambda>addr. addr @ [0x0A]) peers)))"

text \<open>
  The lines that \<open>bufio.Scanner\<close> yields: a carriage return before the line feed is cut, a last line
  without line feed counts unless it is empty, and a line of 65536 bytes or more ends the scan.
\<close>

definition dropCR :: "bytes \<Rightarrow> bytes" where
  "dropCR line = (if line \<noteq> [] \<and> last line = 0x0D then butlast line else line)"

function scanLines :: "bytes \<Rightarrow> bytes list" where
  "scanLines data =
     (if data = [] then []
      else
        let line = takeWhile (\<lambda>b. b \<noteq> 0x0A) data in
        if length line \<ge> 65536 then []
        else dropCR line # scanLines (drop (Suc (length line)) data))"
  by pat_completeness auto
termination
  by (relation "measure length") auto

declare scanLines.simps [simp del]

fun mergeLines :: "'d PeerStore \<Rightarrow> bytes list \<Rightarrow> bytes set \<Rightarrow> 'd \<Rightarrow> 'd" where
  "mergeLines S [] known d = d"
| "mergeLines S (line # lines) known d =
     (let addr = TrimSpace line in
      if addr = [] \<or> addr \<in> known then mergeLines S lines known d
      else case ps_PutPeer S addr d of
             (Inl _, d) \<Rightarrow> mergeLines S lines known d
           | (Inr _, d) \<Rightarrow> mergeLines S lines (insert addr known) d)"

definition LoadPeersDat :: "'d PeerStore \<Rightarrow> bytes option \<Rightarrow> 'd \<Rightarrow> 'd" where
  "LoadPeersDat S f d =
     (case f of
        None \<Rightarrow> d
      | Some data \<Rightarrow>
          mergeLines S (scanLines data) (case ps_GetPeers S d of Inl _ \<Rightarrow> {} | Inr existing \<Rightarrow> set existing) d)"

section \<open>Discovery\<close>

fun dedupLoop :: "bytes set \<Rightarrow> bytes list \<Rightarrow> bytes list" where
  "dedupLoop seen [] = []"
| "dedupLoop seen (a # as) = (if a \<in> seen then dedupLoop seen as else a # dedupLoop (insert a seen) as)"

definition deduplicate :: "bytes list \<Rightarrow> bytes list" where
  "deduplicate addrs = dedupLoop {} addrs"

definition Bootstrap :: "'d PeerStore \<Rightarrow> bytes list \<Rightarrow> 'd \<Rightarrow> bytes list" where
  "Bootstrap S seeds d = deduplicate (seeds @ (case ps_GetPeers S d of Inl _ \<Rightarrow> [] | Inr stored \<Rightarrow> stored))"

definition Discovery_AddPeer :: "'d PeerStore \<Rightarrow> bytes \<Rightarrow> 'd \<Rightarrow> 'd" where
  "Discovery_AddPeer S addr d = snd (ps_PutPeer S addr d)"

definition Discovery_RemovePeer :: "'d PeerStore \<Rightarrow> bytes \<Rightarrow> 'd \<Rightarrow> 'd" where
  "Discovery_RemovePeer S addr d = snd (ps_RemovePeer S addr d)"

lemma set_dedupLoop: "set (dedupLoop seen as) = set as - seen \<and> distinct (dedupLoop seen as)"
  by (induction "as" arbitrary: seen) auto

section \<open>Contracts\<close>

text \<open>What bbolt documents: a transaction takes effect as a whole or not at all, and keys are listed once each.\<close>

locale bbolt =
  fixes L :: "'b bolt_lib" and contents :: "'b \<Rightarrow> bytes \<Rightarrow> bytes \<rightharpoonup> bytes"
  assumes boGet: "bo_get L b k db = Inr (contents db b k)"
    and boKeys: "\<exists>ks. bo_keys L b db = Inr ks \<and> distinct ks \<and> set ks = dom (contents db b)"
    and boPut: "bo_put L b k v db = (r, db') \<Longrightarrow>
      contents db' = (if r = Inr () then (contents db)(b := (contents db b)(k \<mapsto> v)) else contents db)"
    and boDelete: "bo_delete L b k db = (r, db') \<Longrightarrow>
      contents db' = (if r = Inr () then (contents db)(b := (contents db b)(k := None)) else contents db)"

text \<open>What the clients of a peer store rely on.\<close>

locale peer_store =
  fixes S :: "'d PeerStore" and peers :: "'d \<Rightarrow> bytes set"
  assumes getPeers: "\<exists>ps. ps_GetPeers S d = Inr ps \<and> distinct ps \<and> set ps = peers d"
    and putPeer: "ps_PutPeer S a d = (r, d') \<Longrightarrow> peers d' = (if r = Inr () then insert a (peers d) else peers d)"
    and removePeer: "ps_RemovePeer S a d = (r, d') \<Longrightarrow> peers d' = (if r = Inr () then peers d - {a} else peers d)"
begin

lemma mergeLines_peers:
  assumes "\<And>a d. fst (ps_PutPeer S a d) = Inr ()" "known = peers d"
  shows "peers (mergeLines S lines known d) = peers d \<union> (TrimSpace ` set lines - {[]})"
  using assms(2)
proof (induction lines arbitrary: known d)
  case (Cons line lines)
  obtain d' where p: "ps_PutPeer S (TrimSpace line) d = (Inr (), d')" using assms(1) by (metis prod.collapse)
  have "peers d' = insert (TrimSpace line) (peers d)" using putPeer [OF p] by simp
  then show ?case using Cons.IH [of known d] Cons.IH [of "insert (TrimSpace line) known" d'] Cons.prems p by (auto simp: Let_def)
qed simp

lemma Bootstrap_addrs: "set (Bootstrap S seeds d) = set seeds \<union> peers d" "distinct (Bootstrap S seeds d)"
  using getPeers [of d] set_dedupLoop by (auto simp: Bootstrap_def deduplicate_def)

lemma LoadPeersDat_merges:
  assumes "\<And>a d. fst (ps_PutPeer S a d) = Inr ()"
  shows "peers (LoadPeersDat S (Some data) d) = peers d \<union> (TrimSpace ` set (scanLines data) - {[]})"
proof -
  obtain ps where "ps_GetPeers S d = Inr ps" "set ps = peers d" using getPeers by blast
  then show ?thesis by (simp add: LoadPeersDat_def mergeLines_peers [OF assms])
qed

end

sublocale bbolt \<subseteq> bolt: peer_store "boltStore L" "\<lambda>db. dom (contents db peersBucket)"
proof
  show "\<exists>ps. ps_GetPeers (boltStore L) db = Inr ps \<and> distinct ps \<and> set ps = dom (contents db peersBucket)" for db
    using boKeys [of peersBucket db] by (simp add: boltStore_def BS_GetPeers_def)
  show "dom (contents d' peersBucket) = (if r = Inr () then insert a (dom (contents d peersBucket)) else dom (contents d peersBucket))"
    if "ps_PutPeer (boltStore L) a d = (r, d')" for a d r d'
    using boPut [of peersBucket a "[1]" d r d'] that by (simp add: boltStore_def BS_PutPeer_def)
  show "dom (contents d' peersBucket) = (if r = Inr () then dom (contents d peersBucket) - {a} else dom (contents d peersBucket))"
    if "ps_RemovePeer (boltStore L) a d = (r, d')" for a d r d'
    using boDelete [of peersBucket a d r d'] that by (simp add: boltStore_def BS_RemovePeer_def)
qed

text \<open>A database in memory: association lists per bucket.\<close>

definition memBolt :: "(bytes \<Rightarrow> (bytes \<times> bytes) list) bolt_lib" where
  "memBolt = \<lparr>bo_create = (\<lambda>b db. (Inr (), db)), bo_get = (\<lambda>b k db. Inr (map_of (db b) k)),
     bo_keys = (\<lambda>b db. Inr (remdups (map fst (db b)))),
     bo_put = (\<lambda>b k v db. (Inr (), db(b := AList.update k v (db b)))),
     bo_delete = (\<lambda>b k db. (Inr (), db(b := AList.delete k (db b))))\<rparr>"

interpretation memBolt: bbolt memBolt "\<lambda>db b. map_of (db b)"
  by unfold_locales (auto simp: memBolt_def dom_map_of_conv_image_fst update_conv' delete_conv' intro!: ext)

section \<open>The text file is read back\<close>

text \<open>An address that a line can carry: printable ASCII without spaces, not empty and not too long.\<close>

definition plainAddr :: "bytes \<Rightarrow> bool" where
  "plainAddr a \<longleftrightarrow> a \<noteq> [] \<and> length a < 65536 \<and> (\<forall>b\<in>set a. 0x20 < b \<and> b < 0x7F)"

lemma chunks_plain: "\<forall>b\<in>set a. 0x20 < b \<and> b < 0x7F \<Longrightarrow> chunks a = map (\<lambda>b. [b]) a"
proof (induction a)
  case (Cons b a)
  then have "b < 0x80" by (auto intro: order_less_trans)
  then have "runeLen (b # a) = 1" by (simp add: runeLen_def)
  then show ?case using Cons by (simp add: chunks.simps [of "b # a"])
qed (simp add: chunks.simps)

lemma not_space_plain: "0x20 < b \<Longrightarrow> \<not> isSpaceRune [b]"
  by (auto simp: isSpaceRune_def)

lemma TrimSpace_plain: "plainAddr a \<Longrightarrow> TrimSpace a = a"
proof -
  assume p: "plainAddr a"
  have n: "\<forall>c\<in>set (map (\<lambda>b. [b]) a). \<not> isSpaceRune c" using p not_space_plain by (auto simp: plainAddr_def)
  then have d: "dropWhile isSpaceRune (map (\<lambda>b. [b]) a) = map (\<lambda>b. [b]) a" "dropWhile isSpaceRune (rev (map (\<lambda>b. [b]) a)) = rev (map (\<lambda>b. [b]) a)"
    by (metis dropWhile_eq_self_iff list.set_sel(1) set_rev)+
  show "TrimSpace a = a" using p unfolding TrimSpace_def plainAddr_def by (simp add: chunks_plain d [simplified])
qed

lemma scanLines_dump: "list_all plainAddr as \<Longrightarrow> scanLines (concat (map (\<lambda>a. a @ [0x0A]) as)) = as"
proof (induction "as")
  case (Cons a as)
  let ?rest = "concat (map (\<lambda>a. a @ [0x0A]) as)"
  have p: "plainAddr a" using Cons.prems by simp
  then have "takeWhile (\<lambda>b. b \<noteq> 0x0A) (a @ 0x0A # ?rest) = a" by (subst takeWhile_append2) (auto simp: plainAddr_def)
  moreover have "0x20 < last a" using p last_in_set [of a] unfolding plainAddr_def by blast
  moreover have "last a \<noteq> 0x0D" using calculation(2) by auto
  ultimately show ?case using Cons p by (subst scanLines.simps) (simp add: Let_def dropCR_def plainAddr_def)
qed (simp add: scanLines.simps)

text \<open>A store that is dumped and loaded into another one leaves its addresses there.\<close>

context peer_store
begin

lemma dump_load:
  assumes "\<And>a d. fst (ps_PutPeer S a d) = Inr ()" "\<forall>a\<in>peers d. plainAddr a" "peers d \<noteq> {}"
  shows "peers (LoadPeersDat S (DumpPeersDat S True d f) d') = peers d' \<union> peers d"
proof -
  obtain ps where ps: "ps_GetPeers S d = Inr ps" "set ps = peers d" using getPeers by blast
  then have dump: "DumpPeersDat S True d f = Some (concat (map (\<lambda>a. a @ [0x0A]) ps))" using assms(3) by (auto simp: DumpPeersDat_def)
  have "scanLines (concat (map (\<lambda>a. a @ [0x0A]) ps)) = ps" using assms(2) ps(2) by (intro scanLines_dump) (auto simp: list_all_iff)
  moreover have "TrimSpace ` peers d - {[]} = peers d" using assms(2) TrimSpace_plain by (force simp: plainAddr_def)
  ultimately show ?thesis unfolding dump by (simp add: LoadPeersDat_merges [OF assms(1)] ps(2))
qed

end

lemma peers_file_roundtrip:
  assumes "\<forall>a\<in>set (map fst (db peersBucket)). plainAddr a" "db peersBucket \<noteq> []"
  shows "dom (map_of (LoadPeersDat (boltStore memBolt) (DumpPeersDat (boltStore memBolt) True db f) db' peersBucket))
     = dom (map_of (db' peersBucket)) \<union> dom (map_of (db peersBucket))"
  by (rule memBolt.bolt.dump_load) (use assms in \<open>auto simp: boltStore_def BS_PutPeer_def memBolt_def dom_map_of_conv_image_fst\<close>)

end
