(* ===== verification/P2p.thy ===== *)
theory P2p
  imports Peer Peerstore Chain_Bounds Mempool_Props
begin

text \<open>
  The peer manager (\<open>internal/p2p/manager.go\<close>): the table of peers, bans, reconnection backoff, the
  handshake, the dispatch of messages and their handlers, relay and block download. The manager is a
  record that holds the chain, the pool, the peer store and the peers under their addresses, and a
  handler is a function on it. Each handler runs as one step at one reading of the clock. What the
  runtime chooses (the order of map iterations, random numbers, \<open>select\<close>) and what happens outside
  (clock, text of storage errors) are fields of \<open>net_env\<close>. Logging and metrics are left out.
\<close>

section \<open>Bounded sets of hashes\<close>

record boundedHashSet =
  bs_items :: "hash set"
  bs_order :: "hash list"
  bs_cap :: nat

definition newBoundedHashSet :: "nat \<Rightarrow> boundedHashSet" where
  "newBoundedHashSet capacity = \<lparr>bs_items = {}, bs_order = [], bs_cap = capacity\<rparr>"

text \<open>
  The insertion that \<open>Add\<close> and \<open>AddOrHas\<close> share. A full set gives up the oldest entry of \<open>order\<close>;
  \<open>order[0]\<close> exists there as long as the capacity is positive (lemma \<open>bs_order_nonempty\<close>).
\<close>

definition insertBounded :: "hash \<Rightarrow> boundedHashSet \<Rightarrow> boundedHashSet" where
  "insertBounded h s =
     (let s = (if card (bs_items s) \<ge> bs_cap s
               then s\<lparr>bs_order := tl (bs_order s), bs_items := bs_items s - {hd (bs_order s)}\<rparr>
               else s)
      in s\<lparr>bs_items := insert h (bs_items s), bs_order := bs_order s @ [h]\<rparr>)"

definition bs_Add :: "hash \<Rightarrow> boundedHashSet \<Rightarrow> boundedHashSet" where
  "bs_Add h s = (if h \<in> bs_items s then s else insertBounded h s)"

definition bs_Has :: "hash \<Rightarrow> boundedHashSet \<Rightarrow> bool" where
  "bs_Has h s \<longleftrightarrow> h \<in> bs_items s"

definition bs_AddOrHas :: "hash \<Rightarrow> boundedHashSet \<Rightarrow> bool \<times> boundedHashSet" where
  "bs_AddOrHas h s = (if h \<in> bs_items s then (True, s) else (False, insertBounded h s))"

definition bs_Remove :: "hash \<Rightarrow> boundedHashSet \<Rightarrow> boundedHashSet" where
  "bs_Remove h s = s\<lparr>bs_items := bs_items s - {h}\<rparr>"

section \<open>The manager\<close>

record ('sg, 'pk, 'sk, 's, 'd) net_env =
  ne_chain :: "('sg, 'pk, 'sk, 's) chain_env"
  ne_peerStore :: "'d PeerStore"
  ne_now :: int
  ne_clock :: "hash \<Rightarrow> int"
  ne_pick :: nat
  ne_staleSet :: "UtxoSet option"
  ne_peerOrder :: "bytes set \<Rightarrow> bytes list"
  ne_invOrder :: "hash set \<Rightarrow> hash list"
  ne_rand :: "nat \<Rightarrow> u64"
  ne_randSync :: "nat \<Rightarrow> u64"
  ne_race :: "bytes \<Rightarrow> outMsg \<Rightarrow> bool"
  ne_storeText :: "store_error \<Rightarrow> string"

record ('s, 'd) Manager =
  mg_chain :: "'s Chain"
  mg_mempool :: Mempool
  mg_store :: 'd
  mg_listenAddr :: bytes
  mg_maxInbound :: int
  mg_maxOutbound :: int
  mg_seedPeers :: "bytes list"
  mg_connectOnly :: "bytes list"
  mg_noSeedNodes :: bool
  mg_timeSampler :: "AdjustedClock option"
  mg_peers :: "bytes \<rightharpoonup> Peer"
  mg_localNonce :: u64
  mg_bestPeerHeight :: u32
  mg_banned :: "bytes \<rightharpoonup> int"
  mg_backoff :: "bytes \<rightharpoonup> int"
  mg_backoffN :: "bytes \<rightharpoonup> int"
  mg_nextPeerID :: int
  mg_manualPeers :: "bytes set"
  mg_seenBlocks :: boundedHashSet
  mg_seenTxs :: boundedHashSet
  mg_lastSyncReq :: int

definition maxSeenBlocks :: nat where "maxSeenBlocks = 10000"
definition maxSeenTxs :: nat where "maxSeenTxs = 50000"
definition backoffBase :: duration where "backoffBase = 5 * Second"
definition backoffMax :: duration where "backoffMax = 10 * Minute"

abbreviation ne_sha :: "('sg, 'pk, 'sk, 's, 'd) net_env \<Rightarrow> bytes \<Rightarrow> bytes" where
  "ne_sha N \<equiv> en_sha (ne_chain N)"

text \<open>\<open>opts\<close> is the option pointer: the addresses of \<open>-connect\<close> and the flag \<open>-noseednode\<close>.\<close>

definition NewManager :: "'s Chain \<Rightarrow> Mempool \<Rightarrow> 'd \<Rightarrow> bytes \<Rightarrow> int \<Rightarrow> int \<Rightarrow> bytes list \<Rightarrow> AdjustedClock option
    \<Rightarrow> (bytes list \<times> bool) option \<Rightarrow> u64 \<Rightarrow> ('s, 'd) Manager" where
  "NewManager c mp ps listenAddr maxIn maxOut seeds ts opts nonce =
     \<lparr>mg_chain = c, mg_mempool = mp, mg_store = ps, mg_listenAddr = listenAddr, mg_maxInbound = maxIn,
      mg_maxOutbound = maxOut, mg_seedPeers = seeds,
      mg_connectOnly = (case opts of None \<Rightarrow> [] | Some (only, _) \<Rightarrow> only),
      mg_noSeedNodes = (case opts of None \<Rightarrow> False | Some (_, noSeed) \<Rightarrow> noSeed),
      mg_timeSampler = ts, mg_peers = Map.empty, mg_localNonce = nonce, mg_bestPeerHeight = 0,
      mg_banned = Map.empty, mg_backoff = Map.empty, mg_backoffN = Map.empty, mg_nextPeerID = 0,
      mg_manualPeers = {}, mg_seenBlocks = newBoundedHashSet maxSeenBlocks,
      mg_seenTxs = newBoundedHashSet maxSeenTxs, mg_lastSyncReq = zeroTime\<rparr>"

text \<open>A change of the peer that is registered under an address.\<close>

definition updPeer :: "bytes \<Rightarrow> (Peer \<Rightarrow> Peer) \<Rightarrow> ('s, 'd) Manager \<Rightarrow> ('s, 'd) Manager" where
  "updPeer a f m = m\<lparr>mg_peers := (mg_peers m)(a := map_option f (mg_peers m a))\<rparr>"

text \<open>The peers in the order in which an iteration over the map yields them.\<close>

definition rangePeers :: "('sg, 'pk, 'sk, 's, 'd) net_env \<Rightarrow> ('s, 'd) Manager \<Rightarrow> Peer list" where
  "rangePeers N m = List.map_filter (mg_peers m) (ne_peerOrder N (dom (mg_peers m)))"

definition sendTo :: "('sg, 'pk, 'sk, 's, 'd) net_env \<Rightarrow> bytes \<Rightarrow> bytes \<Rightarrow> bytes \<Rightarrow> ('s, 'd) Manager \<Rightarrow> ('s, 'd) Manager" where
  "sendTo N a cmd payload m = updPeer a (SendMessage (ne_race N a) cmd payload) m"

definition knowsTo :: "('sg, 'pk, 'sk, 's, 'd) net_env \<Rightarrow> bytes \<Rightarrow> hash \<Rightarrow> ('s, 'd) Manager \<Rightarrow> ('s, 'd) Manager" where
  "knowsTo N a h m = updPeer a (AddKnownInventory (ne_invOrder N) h) m"

section \<open>Queries\<close>

definition PeerCount :: "('s, 'd) Manager \<Rightarrow> nat" where
  "PeerCount m = card (dom (mg_peers m))"

definition IsSyncing :: "('s, 'd) Manager \<Rightarrow> bool" where
  "IsSyncing m = (if mg_bestPeerHeight m = 0 then False else snd (Tip (mg_chain m)) + 5 < mg_bestPeerHeight m)"

definition BestPeerHeight :: "('s, 'd) Manager \<Rightarrow> u32" where
  "BestPeerHeight m = mg_bestPeerHeight m"

definition PeerAddrs :: "('sg, 'pk, 'sk, 's, 'd) net_env \<Rightarrow> ('s, 'd) Manager \<Rightarrow> bytes list" where
  "PeerAddrs N m = ne_peerOrder N (dom (mg_peers m))"

definition ConnectionCounts :: "('sg, 'pk, 'sk, 's, 'd) net_env \<Rightarrow> ('s, 'd) Manager \<Rightarrow> nat \<times> nat" where
  "ConnectionCounts N m =
     fold (\<lambda>p (inbound, outbound). if pe_inbound p then (inbound + 1, outbound) else (inbound, outbound + 1)) (rangePeers N m) (0, 0)"

definition outboundCount :: "('sg, 'pk, 'sk, 's, 'd) net_env \<Rightarrow> ('s, 'd) Manager \<Rightarrow> nat" where
  "outboundCount N m = fold (\<lambda>p count. if \<not> pe_inbound p then count + 1 else count) (rangePeers N m) 0"

section \<open>Bans and backoff\<close>

text \<open>The host part of \<open>net.SplitHostPort\<close>; \<open>None\<close> is an error. The argument is the position of the last colon.\<close>

fun lastColon :: "bytes \<Rightarrow> nat option" where
  "lastColon [] = None"
| "lastColon (b # bs) =
     (case lastColon bs of Some i \<Rightarrow> Some (Suc i) | None \<Rightarrow> if b = 0x3A then Some 0 else None)"

definition firstIndex :: "byte \<Rightarrow> bytes \<Rightarrow> nat option" where
  "firstIndex c s = (let i = length (takeWhile (\<lambda>b. b \<noteq> c) s) in if i < length s then Some i else None)"

definition SplitHostPort :: "bytes \<Rightarrow> bytes option" where
  "SplitHostPort hostport =
     (case lastColon hostport of
        None \<Rightarrow> None
      | Some i \<Rightarrow>
          if hd hostport = 0x5B then
            (case firstIndex 0x5D hostport of
               None \<Rightarrow> None
             | Some e \<Rightarrow>
                 if e + 1 \<noteq> i then None
                 else if 0x5B \<in> set (drop 1 hostport) \<or> 0x5D \<in> set (drop (e + 1) hostport) then None
                 else Some (take (e - 1) (drop 1 hostport)))
          else if 0x3A \<in> set (take i hostport) then None
          else if 0x5B \<in> set hostport \<or> 0x5D \<in> set hostport then None
          else Some (take i hostport))"

definition extractIP :: "bytes \<Rightarrow> bytes" where
  "extractIP addr = (case SplitHostPort addr of None \<Rightarrow> addr | Some host \<Rightarrow> host)"

definition BanPeer :: "int \<Rightarrow> bytes \<Rightarrow> ('s, 'd) Manager \<Rightarrow> ('s, 'd) Manager" where
  "BanPeer now addr m = m\<lparr>mg_banned := (mg_banned m)(extractIP addr \<mapsto> now + BanDuration)\<rparr>"

definition IsBanned :: "int \<Rightarrow> bytes \<Rightarrow> ('s, 'd) Manager \<Rightarrow> bool \<times> ('s, 'd) Manager" where
  "IsBanned now addr m =
     (let ip = extractIP addr in
      case mg_banned m ip of
        None \<Rightarrow> (False, m)
      | Some expiry \<Rightarrow> if now > expiry then (False, m\<lparr>mg_banned := (mg_banned m)(ip := None)\<rparr>) else (True, m))"

definition addMisbehavior :: "int \<Rightarrow> bytes \<Rightarrow> int \<Rightarrow> ('s, 'd) Manager \<Rightarrow> ('s, 'd) Manager" where
  "addMisbehavior now a score m =
     (if mg_connectOnly m \<noteq> [] then m
      else case mg_peers m a of
        None \<Rightarrow> m
      | Some p \<Rightarrow>
          (case AddBanScore score p of
             (newScore, p') \<Rightarrow>
               let m = updPeer a (\<lambda>_. p') m in
               if newScore \<ge> BanThreshold then updPeer a Close (BanPeer now (pe_addr p') m) else m))"

definition canReconnect :: "int \<Rightarrow> bytes \<Rightarrow> ('s, 'd) Manager \<Rightarrow> bool" where
  "canReconnect now addr m = (case mg_backoff m addr of None \<Rightarrow> True | Some nxt \<Rightarrow> now > nxt)"

definition recordConnectFailure :: "int \<Rightarrow> bytes \<Rightarrow> ('s, 'd) Manager \<Rightarrow> ('s, 'd) Manager" where
  "recordConnectFailure now addr m =
     (let n = (case mg_backoffN m addr of None \<Rightarrow> 0 | Some k \<Rightarrow> k) + 1;
          delay = backoffBase * 2 ^ nat (min n 10);
          delay = (if delay > backoffMax then backoffMax else delay)
      in m\<lparr>mg_backoffN := (mg_backoffN m)(addr \<mapsto> n), mg_backoff := (mg_backoff m)(addr \<mapsto> now + delay)\<rparr>)"

definition recordConnectSuccess :: "bytes \<Rightarrow> ('s, 'd) Manager \<Rightarrow> ('s, 'd) Manager" where
  "recordConnectSuccess addr m =
     m\<lparr>mg_backoff := (mg_backoff m)(addr := None), mg_backoffN := (mg_backoffN m)(addr := None)\<rparr>"

section \<open>Shuffling and relay\<close>

text \<open>The Fisher-Yates loop; \<open>rnd i\<close> is the random number drawn at index \<open>i\<close>.\<close>

fun shuffleFrom :: "(nat \<Rightarrow> u64) \<Rightarrow> nat \<Rightarrow> 'a list \<Rightarrow> 'a list" where
  "shuffleFrom rnd 0 xs = xs"
| "shuffleFrom rnd (Suc i) xs =
     (let j = unat (rnd (Suc i)) mod Suc (Suc i) in
      shuffleFrom rnd i (xs[Suc i := xs ! j, j := xs ! Suc i]))"

definition shufflePeers :: "(nat \<Rightarrow> u64) \<Rightarrow> 'a list \<Rightarrow> 'a list" where
  "shufflePeers rnd xs = shuffleFrom rnd (length xs - 1) xs"

definition CmdVersion :: bytes where "CmdVersion = ascii ''version''"
definition CmdVerack :: bytes where "CmdVerack = ascii ''verack''"
definition CmdPing :: bytes where "CmdPing = ascii ''ping''"
definition CmdPong :: bytes where "CmdPong = ascii ''pong''"
definition CmdInv :: bytes where "CmdInv = ascii ''inv''"
definition CmdGetData :: bytes where "CmdGetData = ascii ''getdata''"
definition CmdBlock :: bytes where "CmdBlock = ascii ''block''"
definition CmdTx :: bytes where "CmdTx = ascii ''tx''"
definition CmdGetBlocks :: bytes where "CmdGetBlocks = ascii ''getblocks''"
definition CmdAddr :: bytes where "CmdAddr = ascii ''addr''"
definition CmdGetAddr :: bytes where "CmdGetAddr = ascii ''getaddr''"

definition InvTypeBlock :: u32 where "InvTypeBlock = 1"
definition InvTypeTx :: u32 where "InvTypeTx = 2"
definition ProtocolVersion :: u32 where "ProtocolVersion = 1"
definition UserAgent :: bytes where "UserAgent = ascii ''/fairchain:0.4.0/''"

definition maxDirectPush :: nat where "maxDirectPush = 3"

text \<open>The peers that do not know a hash yet, by address.\<close>

definition eligiblePeers :: "('sg, 'pk, 'sk, 's, 'd) net_env \<Rightarrow> hash \<Rightarrow> ('s, 'd) Manager \<Rightarrow> bytes list" where
  "eligiblePeers N h m = map pe_addr (filter (\<lambda>p. \<not> HasKnownInventory h p) (rangePeers N m))"

fun pushLoop :: "('sg, 'pk, 'sk, 's, 'd) net_env \<Rightarrow> hash \<Rightarrow> bytes \<Rightarrow> bytes \<Rightarrow> nat \<Rightarrow> bytes list \<Rightarrow> ('s, 'd) Manager \<Rightarrow> ('s, 'd) Manager" where
  "pushLoop N h blockBytes invPayload i [] m = m"
| "pushLoop N h blockBytes invPayload i (a # as) m =
     (let m = knowsTo N a h m;
          m = (if i < maxDirectPush then sendTo N a CmdBlock blockBytes m else sendTo N a CmdInv invPayload m)
      in pushLoop N h blockBytes invPayload (i + 1) as m)"

definition BroadcastBlock :: "('sg, 'pk, 'sk, 's, 'd) net_env \<Rightarrow> hash \<Rightarrow> Block \<Rightarrow> ('s, 'd) Manager \<Rightarrow> ('s, 'd) Manager" where
  "BroadcastBlock N h block m =
     (let m = m\<lparr>mg_seenBlocks := bs_Add h (mg_seenBlocks m)\<rparr>;
          eligible = shufflePeers (ne_rand N) (eligiblePeers N h m)
      in pushLoop N h (Block_SerializeToBytes block) (InvMsg_Encode [\<lparr>iv_Type = InvTypeBlock, iv_Hash = h\<rparr>]) 0 eligible m)"

definition BroadcastTx :: "('sg, 'pk, 'sk, 's, 'd) net_env \<Rightarrow> hash \<Rightarrow> ('s, 'd) Manager \<Rightarrow> ('s, 'd) Manager" where
  "BroadcastTx N h m =
     (let m = m\<lparr>mg_seenTxs := bs_Add h (mg_seenTxs m)\<rparr>;
          payload = InvMsg_Encode [\<lparr>iv_Type = InvTypeTx, iv_Hash = h\<rparr>]
      in fold (\<lambda>a m. sendTo N a CmdInv payload (knowsTo N a h m)) (eligiblePeers N h m) m)"

section \<open>Block download\<close>

text \<open>The first candidate whose channel accepts the request gets it.\<close>

fun trySendFirst :: "('sg, 'pk, 'sk, 's, 'd) net_env \<Rightarrow> bytes \<Rightarrow> bytes \<Rightarrow> bytes list \<Rightarrow> ('s, 'd) Manager \<Rightarrow> ('s, 'd) Manager" where
  "trySendFirst N cmd payload [] m = m"
| "trySendFirst N cmd payload (a # as) m =
     (case mg_peers m a of
        None \<Rightarrow> trySendFirst N cmd payload as m
      | Some p \<Rightarrow>
          (case TrySendMessage (ne_race N a) cmd payload p of
             (True, p') \<Rightarrow> updPeer a (\<lambda>_. p') m
           | (False, _) \<Rightarrow> trySendFirst N cmd payload as m))"

text \<open>
  At most one request per 500 milliseconds. The locator's loop always ends (lemma
  \<open>BlockLocator_ends\<close>); the preferred peer comes first, the others follow in random order.
\<close>

definition requestBlocks :: "('sg, 'pk, 'sk, 's, 'd) net_env \<Rightarrow> bytes \<Rightarrow> ('s, 'd) Manager \<Rightarrow> ('s, 'd) Manager" where
  "requestBlocks N a m =
     (if ne_now N - mg_lastSyncReq m < 500000000 then m
      else
        let m = m\<lparr>mg_lastSyncReq := ne_now N\<rparr> in
        case BlockLocator (mg_chain m) of
          None \<Rightarrow> m
        | Some locator \<Rightarrow>
            if locator = [] then m
            else
              let payload = GetBlocksMsg_Encode \<lparr>gb_Version = ProtocolVersion, BlockLocatorHashes = locator, HashStop = ZeroHash\<rparr>;
                  candidates = filter (\<lambda>b. b \<noteq> a) (map pe_addr (rangePeers N m))
              in trySendFirst N CmdGetBlocks payload (a # shufflePeers (ne_randSync N) candidates) m)"

end
