(* ===== verification/Numtext.thy ===== *)
theory Numtext
  imports Wallet
begin

text \<open>
  Numbers in text: the parts of \<open>strconv\<close> and \<open>fmt\<close> that the RPC server and the configuration use.
\<close>

definition isDigit :: "byte \<Rightarrow> bool" where
  "isDigit b \<longleftrightarrow> 0x30 \<le> b \<and> b \<le> 0x39"

definition digitValue :: "byte \<Rightarrow> nat" where
  "digitValue b = unat (b - 0x30)"

definition decimalValue :: "bytes \<Rightarrow> nat" where
  "decimalValue bs = fold (\<lambda>b n. 10 * n + digitValue b) bs 0"

text \<open>
  \<open>fmt.Sscanf(s, "%d", &n)\<close> for an unsigned number of \<open>w\<close> bits: white space other than a newline is
  skipped, at least one digit has to follow, and what comes after the digits is ignored.
\<close>

definition skipSpace :: "bytes \<Rightarrow> bytes" where
  "skipSpace s = concat (dropWhile (\<lambda>c. isSpaceRune c \<and> c \<noteq> [0x0A]) (chunks s))"

definition scanUint32 :: "bytes \<Rightarrow> u32 option" where
  "scanUint32 s =
     (let tok = takeWhile isDigit (skipSpace s) in
      if tok = [] \<or> decimalValue tok \<ge> 2 ^ 32 then None else Some (of_nat (decimalValue tok)))"

text \<open>The same for a variable of type \<open>int\<close>, which may carry a sign.\<close>

definition scanInt :: "bytes \<Rightarrow> int option" where
  "scanInt s =
     (let t = skipSpace s; sign = (t \<noteq> [] \<and> (hd t = 0x2B \<or> hd t = 0x2D)); neg = (sign \<and> hd t = 0x2D);
          tok = takeWhile isDigit (if sign then tl t else t); v = int (decimalValue tok) in
      if tok = [] then None
      else if neg then (if v > 2 ^ 63 then None else Some (- v))
      else if v \<ge> 2 ^ 63 then None else Some v)"

text \<open>\<open>strconv.ParseUint(s, 10, w)\<close>: the value comes with the error; an overflow stops the loop with the largest value.\<close>

datatype num_error = ErrSyntax | ErrRange

fun parseDigits :: "nat \<Rightarrow> bytes \<Rightarrow> nat \<Rightarrow> num_error option \<times> nat" where
  "parseDigits maxVal [] n = (None, n)"
| "parseDigits maxVal (b # bs) n =
     (if \<not> isDigit b then (Some ErrSyntax, 0)
      else let n1 = 10 * n + digitValue b in
        if n1 > maxVal then (Some ErrRange, maxVal) else parseDigits maxVal bs n1)"

definition ParseUint :: "nat \<Rightarrow> bytes \<Rightarrow> num_error option \<times> nat" where
  "ParseUint w s = (if s = [] then (Some ErrSyntax, 0) else parseDigits (2 ^ w - 1) s 0)"

definition ParseInt64 :: "bytes \<Rightarrow> num_error option \<times> int" where
  "ParseInt64 s =
     (if s = [] then (Some ErrSyntax, 0)
      else
        let neg = (hd s = 0x2D); ds = (if hd s = 0x2B \<or> hd s = 0x2D then tl s else s) in
        case ParseUint 64 ds of
          (Some ErrSyntax, _) \<Rightarrow> (Some ErrSyntax, 0)
        | (_, un) \<Rightarrow>
            if \<not> neg \<and> un \<ge> 2 ^ 63 then (Some ErrRange, 2 ^ 63 - 1)
            else if neg \<and> un > 2 ^ 63 then (Some ErrRange, - (2 ^ 63))
            else (None, if neg then - int un else int un))"

text \<open>\<open>%08x\<close> and \<open>%064x\<close>: hexadecimal digits, padded with zeros on the left.\<close>

fun hexNat :: "nat \<Rightarrow> string" where
  "hexNat n = (if n < 16 then [hexDigit n] else hexNat (n div 16) @ [hexDigit (n mod 16)])"

declare hexNat.simps [simp del]

definition padHex :: "nat \<Rightarrow> nat \<Rightarrow> bytes" where
  "padHex k n = ascii (replicate (k - length (hexNat n)) (CHR ''0'') @ hexNat n)"

end
