(* ===== verification/Paths.thy ===== *)
theory Paths
  imports Wallet
begin

text \<open>
  Paths as texts: the parts of \<open>path/filepath\<close> and \<open>strings\<close> on Unix that the configuration and the
  RPC server use.
\<close>

fun splitOn :: "byte \<Rightarrow> bytes \<Rightarrow> bytes \<Rightarrow> bytes list" where
  "splitOn sep [] cur = [cur]"
| "splitOn sep (b # bs) cur = (if b = sep then cur # splitOn sep bs [] else splitOn sep bs (cur @ [b]))"

fun joinSlash :: "bytes list \<Rightarrow> bytes" where
  "joinSlash [] = []"
| "joinSlash [c] = c"
| "joinSlash (c # d # cs) = c @ [0x2F] @ joinSlash (d # cs)"

definition dotDot :: bytes where "dotDot = [0x2E, 0x2E]"

definition isAbs :: "bytes \<Rightarrow> bool" where
  "isAbs p \<longleftrightarrow> p \<noteq> [] \<and> hd p = 0x2F"

text \<open>
  \<open>filepath.Clean\<close>: empty and dot components are dropped, a component before dot-dot is removed with
  it, and dot-dot at the root is dropped.
\<close>

definition cleanStep :: "bool \<Rightarrow> bytes \<Rightarrow> bytes list \<Rightarrow> bytes list" where
  "cleanStep rooted c out =
     (if c = [] \<or> c = [0x2E] then out
      else if c = dotDot then
        (if out \<noteq> [] \<and> last out \<noteq> dotDot then butlast out else if rooted then out else out @ [c])
      else out @ [c])"

definition cleanPath :: "bytes \<Rightarrow> bytes" where
  "cleanPath p =
     (let out = fold (cleanStep (isAbs p)) (splitOn 0x2F p []) [] in
      if isAbs p then 0x2F # joinSlash out else if out = [] then [0x2E] else joinSlash out)"

definition joinPath :: "bytes list \<Rightarrow> bytes" where
  "joinPath elems = (case dropWhile (\<lambda>e. e = []) elems of [] \<Rightarrow> [] | es \<Rightarrow> cleanPath (joinSlash es))"

fun containsSub :: "bytes \<Rightarrow> bytes \<Rightarrow> bool" where
  "containsSub s [] = (s = [])"
| "containsSub s (b # bs) = (take (length s) (b # bs) = s \<or> containsSub s bs)"

section \<open>Components\<close>

definition components :: "bytes \<Rightarrow> bytes list" where
  "components p = splitOn 0x2F p []"

lemma splitOn_acc: "splitOn sep bs cur = (cur @ hd (splitOn sep bs [])) # tl (splitOn sep bs [])"
proof (induction bs arbitrary: cur)
  case (Cons b bs)
  show ?case using Cons [of "cur @ [b]"] Cons [of "[b]"] by simp
qed simp

lemma splitOn_noSep: "sep \<notin> set c \<Longrightarrow> splitOn sep (c @ bs) cur = splitOn sep bs (cur @ c)"
  by (induction c arbitrary: cur) auto

lemma components_join:
  "cs \<noteq> [] \<Longrightarrow> \<forall>c\<in>set cs. 0x2F \<notin> set c \<Longrightarrow> components (joinSlash cs) = cs"
proof (induction cs rule: joinSlash.induct)
  case (2 c)
  then show ?case using splitOn_noSep [of "0x2F" c "[]" "[]"] by (simp add: components_def)
next
  case (3 c d cs)
  then show ?case using splitOn_noSep [of "0x2F" c "[0x2F] @ joinSlash (d # cs)" "[]"] by (simp add: components_def)
qed simp

lemma splitOn_free: "sep \<notin> set cur \<Longrightarrow> c \<in> set (splitOn sep bs cur) \<Longrightarrow> sep \<notin> set c"
  by (induction sep bs cur rule: splitOn.induct) (auto split: if_splits)

text \<open>The components that \<open>Clean\<close> keeps of a relative path: dot-dots first, then proper names.\<close>

definition proper :: "bytes \<Rightarrow> bool" where
  "proper c \<longleftrightarrow> c \<noteq> [] \<and> c \<noteq> [0x2E] \<and> c \<noteq> dotDot \<and> 0x2F \<notin> set c"

definition cleanedParts :: "bytes list \<Rightarrow> bool" where
  "cleanedParts out \<longleftrightarrow> (\<exists>n names. out = replicate n dotDot @ names \<and> list_all proper names)"

lemma dotDot_free: "0x2F \<notin> set dotDot" "dotDot \<noteq> []"
  by (simp_all add: dotDot_def)

lemma cleanStep_cleaned:
  assumes "cleanedParts out" "0x2F \<notin> set c"
  shows "cleanedParts (cleanStep False c out)"
proof -
  obtain n names where out: "out = replicate n dotDot @ names" "list_all proper names" using assms(1) by (auto simp: cleanedParts_def)
  consider "c = [] \<or> c = [0x2E]" | "c = dotDot" | "proper c" using assms(2) by (auto simp: proper_def)
  then show ?thesis
  proof cases
    case 1
    then show ?thesis using assms(1) by (simp add: cleanStep_def)
  next
    case 2
    show ?thesis
    proof (cases "names = []")
      case True
      then have "cleanStep False c out = replicate (Suc n) dotDot @ []"
        using 2 out by (auto simp: cleanStep_def dotDot_def replicate_append_same)
      then show ?thesis unfolding cleanedParts_def by (intro exI [of _ "Suc n"] exI [of _ "[]"]) simp
    next
      case False
      then have "last names \<noteq> dotDot" using out(2) by (auto simp: list_all_iff proper_def)
      then have "cleanStep False c out = replicate n dotDot @ butlast names" using False 2 out
        by (auto simp: cleanStep_def dotDot_def butlast_append)
      moreover have "list_all proper (butlast names)" using out(2) by (auto simp: list_all_iff dest: in_set_butlastD)
      ultimately show ?thesis unfolding cleanedParts_def by blast
    qed
  next
    case 3
    then have "cleanStep False c out = replicate n dotDot @ (names @ [c])" "list_all proper (names @ [c])"
      using out by (auto simp: cleanStep_def proper_def)
    then show ?thesis unfolding cleanedParts_def by blast
  qed
qed

lemma cleaned_fold:
  "cleanedParts out \<Longrightarrow> \<forall>c\<in>set cs. 0x2F \<notin> set c \<Longrightarrow> cleanedParts (fold (cleanStep False) cs out)"
  by (induction cs arbitrary: out) (auto intro: cleanStep_cleaned)

text \<open>
  A relative path whose cleaned form does not start with dot-dot consists of proper names only, or is the
  working directory itself: it stays below the working directory.
\<close>

definition below :: "bytes \<Rightarrow> bool" where
  "below p \<longleftrightarrow> p = [0x2E] \<or> list_all proper (components p) \<and> \<not> isAbs p"

lemma cleanPath_below:
  assumes "\<not> isAbs p" "take 2 (cleanPath p) \<noteq> dotDot"
  shows "below (cleanPath p)"
proof -
  define out where "out = fold (cleanStep False) (splitOn 0x2F p []) []"
  have free: "\<forall>c\<in>set (splitOn 0x2F p []). 0x2F \<notin> set c" using splitOn_free by force
  have e: "cleanedParts []" unfolding cleanedParts_def by (intro exI [of _ 0] exI [of _ "[]"]) simp
  then obtain n names where out': "out = replicate n dotDot @ names" "list_all proper names"
    using cleaned_fold [OF e free] by (auto simp: cleanedParts_def out_def)
  have c: "cleanPath p = (if out = [] then [0x2E] else joinSlash out)" using assms(1) by (simp add: cleanPath_def out_def)
  show ?thesis
  proof (cases "out = []")
    case False
    have "n = 0"
    proof (rule ccontr)
      assume "n \<noteq> 0"
      then obtain k where "n = Suc k" by (cases n) auto
      then have "out = dotDot # (replicate k dotDot @ names)" using out' by simp
      then have "take 2 (joinSlash out) = dotDot" by (cases "replicate k dotDot @ names") (auto simp: dotDot_def)
      then show False using assms(2) c False by simp
    qed
    then have o: "out = names" using out' by simp
    have "components (cleanPath p) = names" using c False o out'(2) components_join [of names] by (auto simp: list_all_iff proper_def)
    moreover have "\<not> isAbs (joinSlash names)"
      using out'(2) o False by (cases names rule: joinSlash.cases) (auto simp: isAbs_def proper_def hd_in_set dest: hd_in_set)
    ultimately show ?thesis using c o out'(2) False by (auto simp: below_def)
  qed (simp add: c below_def)
qed

end
