(* ===== verification/Netaddr.thy ===== *)
theory Netaddr
  imports P2p Numtext Paths
begin

text \<open>
  Addresses in text: \<open>net.ParseIP\<close>, which is \<open>netip.ParseAddr\<close> without zones, as far as the peer information
  uses it. An address is its 16 bytes; one of IPv4 is mapped into IPv6.
\<close>

section \<open>IPv4\<close>

text \<open>A field of a dotted quad: digits, at most 255, without a leading zero.\<close>

definition parseOctet :: "bytes \<Rightarrow> byte option" where
  "parseOctet f =
     (if f = [] \<or> \<not> list_all isDigit f \<or> (length f > 1 \<and> hd f = 0x30) \<or> decimalValue f > 255 then None
      else Some (of_nat (decimalValue f)))"

definition parseIPv4 :: "bytes \<Rightarrow> bytes option" where
  "parseIPv4 s =
     (case map parseOctet (splitOn 0x2E s []) of
        [Some a, Some b, Some c, Some d] \<Rightarrow> Some [a, b, c, d]
      | _ \<Rightarrow> None)"

section \<open>IPv6\<close>

definition isHexByte :: "byte \<Rightarrow> bool" where
  "isHexByte b \<longleftrightarrow> isDigit b \<or> (0x61 \<le> b \<and> b \<le> 0x66) \<or> (0x41 \<le> b \<and> b \<le> 0x46)"

definition hexByteValue :: "byte \<Rightarrow> nat" where
  "hexByteValue b = unat (if isDigit b then b - 0x30 else if 0x61 \<le> b then b - 0x57 else b - 0x37)"

definition hexGroup :: "bytes \<Rightarrow> nat" where
  "hexGroup g = fold (\<lambda>b n. 16 * n + hexByteValue b) g 0"

text \<open>
  The loop over the groups: \<open>ip\<close> are the bytes so far, \<open>ell\<close> is the position of the double colon. The result
  is \<open>None\<close> for an error, else bytes and position when the whole text is used.
\<close>

function parseGroups :: "bytes \<Rightarrow> bytes \<Rightarrow> nat option \<Rightarrow> (bytes \<times> nat option) option" where
  "parseGroups s ip ell =
     (if length ip \<ge> 16 then (if s = [] then Some (ip, ell) else None)
      else
        let g = takeWhile isHexByte s; rest = drop (length g) s in
        if g = [] \<or> length g > 4 then None
        else if rest \<noteq> [] \<and> hd rest = 0x2E then
          (if (ell = None \<and> length ip \<noteq> 12) \<or> length ip + 4 > 16 then None
           else map_option (\<lambda>q. (ip @ q, ell)) (parseIPv4 s))
        else
          let ip = ip @ [of_nat (hexGroup g div 256), of_nat (hexGroup g)] in
          if rest = [] then Some (ip, ell)
          else if hd rest \<noteq> 0x3A \<or> length rest = 1 then None
          else
            let s = tl rest in
            if hd s \<noteq> 0x3A then parseGroups s ip ell
            else if ell \<noteq> None then None
            else if tl s = [] then Some (ip, Some (length ip))
            else parseGroups (tl s) ip (Some (length ip)))"
  by pat_completeness auto

termination
proof (relation "measure (\<lambda>(s, _, _). length s)", goal_cases)
  case 1
  then show ?case by simp
next
  case (2 s ip ell g rest ip' s')
  then have "length s' < length rest" by (cases rest) auto
  moreover have "length rest \<le> length s" using 2 by simp
  ultimately show ?case by simp
next
  case (3 s ip ell g rest ip' s')
  then have "length (tl s') < length rest" by (cases rest) auto
  moreover have "length rest \<le> length s" using 3 by simp
  ultimately show ?case by simp
qed

declare parseGroups.simps [simp del]

definition parseIPv6 :: "bytes \<Rightarrow> bytes option" where
  "parseIPv6 s =
     (if take 2 s = [0x3A, 0x3A] \<and> length s = 2 then Some (replicate 16 0)
      else
        let (s, ell) = (if take 2 s = [0x3A, 0x3A] then (drop 2 s, Some 0) else (s, None)) in
        case parseGroups s [] ell of
          None \<Rightarrow> None
        | Some (ip, ell) \<Rightarrow>
            if length ip < 16 then
              (case ell of None \<Rightarrow> None | Some e \<Rightarrow> Some (take e ip @ replicate (16 - length ip) 0 @ drop e ip))
            else if ell \<noteq> None then None
            else Some ip)"

text \<open>A text with a percent sign is an error before any dot or colon, and otherwise has a zone, or is an error.\<close>

definition ParseIP :: "bytes \<Rightarrow> bytes option" where
  "ParseIP s =
     (case filter (\<lambda>b. b = 0x2E \<or> b = 0x3A \<or> b = 0x25) s of
        [] \<Rightarrow> None
      | c # _ \<Rightarrow>
          if c = 0x2E then map_option (\<lambda>q. replicate 10 0 @ [0xFF, 0xFF] @ q) (parseIPv4 s)
          else if c = 0x3A then (if 0x25 \<in> set s then None else parseIPv6 s)
          else None)"

text \<open>\<open>ip.To4() != nil\<close> for 16 bytes.\<close>

definition isV4 :: "bytes \<Rightarrow> bool" where
  "isV4 ip \<longleftrightarrow> take 12 ip = replicate 10 0 @ [0xFF, 0xFF]"

definition classifyNetwork :: "bytes \<Rightarrow> bytes" where
  "classifyNetwork addr =
     (case ParseIP (case SplitHostPort addr of None \<Rightarrow> addr | Some host \<Rightarrow> host) of
        None \<Rightarrow> ascii ''unknown''
      | Some ip \<Rightarrow> if isV4 ip then ascii ''ipv4'' else ascii ''ipv6'')"

section \<open>Facts\<close>

lemma parseIPv4_length: "parseIPv4 s = Some q \<Longrightarrow> length q = 4"
  by (auto simp: parseIPv4_def split: list.splits option.splits)

lemma parseGroups_length: "parseGroups s ip ell = Some (q, e) \<Longrightarrow> length ip \<le> 16 \<Longrightarrow> even (length ip) \<Longrightarrow>
    (\<forall>i. ell = Some i \<longrightarrow> i \<le> length ip) \<Longrightarrow> length q \<le> 16 \<and> (\<forall>i. e = Some i \<longrightarrow> i \<le> length q)"
proof (induction s ip ell rule: parseGroups.induct)
  case (1 s ip ell)
  let ?g = "takeWhile isHexByte s"
  let ?rest = "drop (length ?g) s" and ?ip = "ip @ [of_nat (hexGroup ?g div 256), of_nat (hexGroup ?g)]"
  show ?case
  proof (cases "length ip \<ge> 16")
    case True
    then show ?thesis using 1(4,6) 1(3) [unfolded parseGroups.simps [of s ip ell]] by (auto split: if_splits)
  next
    case False
    then have two: "length ?ip \<le> 16" "even (length ?ip)" using 1(5) by (auto elim!: evenE)
    have three: "\<forall>i. ell = Some i \<longrightarrow> i \<le> Suc (Suc (length ip))" using 1(6) le_SucI by auto
    note ih = 1(1) [OF False refl refl _ _ refl _ _ refl] 1(2) [OF False refl refl _ _ refl _ _ refl]
    show ?thesis
      using 1(6) 1(3) [unfolded parseGroups.simps [of s ip ell]] False two three ih
      by (auto simp: Let_def parseIPv4_length split: if_splits)
  qed
qed

lemma ParseIP_length: "ParseIP s = Some ip \<Longrightarrow> length ip = 16"
  by (auto simp: ParseIP_def parseIPv6_def Let_def parseIPv4_length dest!: parseGroups_length split: list.splits if_splits option.splits prod.splits)

end
