(* ===== verification/P2p_Handlers.thy ===== *)
theory P2p_Handlers
  imports P2p
begin

text \<open>
  The message handlers of the peer manager (\<open>internal/p2p/manager.go\<close>): inventory, data, blocks,
  transactions, block requests and addresses, and the dispatch on the command of a message.
\<close>

section \<open>Inventory and data\<close>

definition neededInv :: "('s, 'd) Manager \<Rightarrow> InvVector \<Rightarrow> bool" where
  "neededInv m iv \<longleftrightarrow>
     (if iv_Type iv = InvTypeBlock then \<not> HasBlockOnChain (mg_chain m) (iv_Hash iv)
      else if iv_Type iv = InvTypeTx then \<not> HasTx (mg_mempool m) (iv_Hash iv)
      else False)"

definition handleInv :: "('sg, 'pk, 'sk, 's, 'd) net_env \<Rightarrow> bytes \<Rightarrow> InvVector list \<Rightarrow> ('s, 'd) Manager \<Rightarrow> ('s, 'd) Manager" where
  "handleInv N a invs m =
     (let needed = filter (neededInv m) invs;
          m = fold (\<lambda>iv. knowsTo N a (iv_Hash iv)) invs m
      in if needed \<noteq> [] then sendTo N a CmdGetData (GetDataMsg_Encode needed) m else m)"

definition sendData :: "('sg, 'pk, 'sk, 's, 'd) net_env \<Rightarrow> bytes \<Rightarrow> InvVector \<Rightarrow> ('s, 'd) Manager \<Rightarrow> ('s, 'd) Manager" where
  "sendData N a iv m =
     (if iv_Type iv = InvTypeBlock then
        (case Chain_GetBlock (ne_chain N) (mg_chain m) (iv_Hash iv) of
           Inl _ \<Rightarrow> m
         | Inr block \<Rightarrow> sendTo N a CmdBlock (Block_SerializeToBytes block) m)
      else if iv_Type iv = InvTypeTx then
        (case GetTx (mg_mempool m) (iv_Hash iv) of
           None \<Rightarrow> m
         | Some tx \<Rightarrow> sendTo N a CmdTx (SerializeToBytes tx) m)
      else m)"

definition handleGetData :: "('sg, 'pk, 'sk, 's, 'd) net_env \<Rightarrow> bytes \<Rightarrow> InvVector list \<Rightarrow> ('s, 'd) Manager \<Rightarrow> ('s, 'd) Manager" where
  "handleGetData N a invs m = fold (sendData N a) invs m"

section \<open>Blocks and transactions\<close>

fun containsStr :: "string \<Rightarrow> string \<Rightarrow> bool" where
  "containsStr [] sub = (sub = [])"
| "containsStr (c # s) sub = (take (length sub) (c # s) = sub \<or> containsStr s sub)"

text \<open>
  Which errors of \<open>ProcessBlock\<close> have a text with one of the phrases that the handler looks for. The
  texts are those of the \<open>Errorf\<close> calls in \<open>chain.go\<close>, \<open>validation.go\<close>, \<open>txvalidation.go\<close>, \<open>engine.go\<close>
  and \<open>target.go\<close>; hashes in them are hexadecimal. The text of a storage error comes from the operating
  system and the database.
\<close>

fun storeErrorOf :: "chain_error \<Rightarrow> store_error option" where
  "storeErrorOf (ParentHeader e) = Some e"
| "storeErrorOf (ParentWork e) = Some e"
| "storeErrorOf (StoreBlock e) = Some e"
| "storeErrorOf (StoreUndo e) = Some e"
| "storeErrorOf (StoreIndex e) = Some e"
| "storeErrorOf (PersistUtxo e) = Some e"
| "storeErrorOf (StoreTip e) = Some e"
| "storeErrorOf (ReorgFailed (LoadBlock e)) = Some e"
| "storeErrorOf (ReorgFailed (LoadDisconnect h e)) = Some e"
| "storeErrorOf (ReorgFailed (LoadIndex h e)) = Some e"
| "storeErrorOf (ReorgFailed (ReadUndoFailed h e)) = Some e"
| "storeErrorOf (ReorgFailed (PersistDisconnect h e)) = Some e"
| "storeErrorOf (ReorgFailed (LoadNew h e)) = Some e"
| "storeErrorOf (ReorgFailed (PersistConnect h e)) = Some e"
| "storeErrorOf (ReorgFailed (ReorgTip e)) = Some e"
| "storeErrorOf (ReorgFailed (ReorgIndex e)) = Some e"
| "storeErrorOf (ReorgFailed (ReorgUndo e)) = Some e"
| "storeErrorOf e = None"

definition errorContains :: "(store_error \<Rightarrow> string) \<Rightarrow> chain_error \<Rightarrow> string \<Rightarrow> bool" where
  "errorContains txt e phrase =
     (case storeErrorOf e of
        Some se \<Rightarrow> containsStr (txt se) phrase
      | None \<Rightarrow>
          (case e of
             AlreadyInChain _ \<Rightarrow> phrase = ''already in chain''
           | InvalidBlock (MerkleMismatch _ _) \<Rightarrow> phrase = ''merkle''
           | InvalidTimestamp (UnknownTimestampRule rule) \<Rightarrow> containsStr (''unknown timestamp rule: '' @ rule) phrase
           | _ \<Rightarrow> False))"

definition penalty :: "(store_error \<Rightarrow> string) \<Rightarrow> chain_error \<Rightarrow> int" where
  "penalty txt e =
     (if errorContains txt e ''proof of work'' \<or> errorContains txt e ''merkle'' \<or> errorContains txt e ''bits mismatch''
      then 100 else 10)"

definition isSideChain :: "chain_error \<Rightarrow> bool" where
  "isSideChain e = (case e of SideChain _ _ \<Rightarrow> True | SideChainTooDeep _ \<Rightarrow> True | _ \<Rightarrow> False)"

definition isOrphanErr :: "chain_error \<Rightarrow> bool" where
  "isOrphanErr e = (case e of AlreadyOrphan _ \<Rightarrow> True | OrphanStored _ \<Rightarrow> True | _ \<Rightarrow> False)"

text \<open>
  The block is given to the chain; the pool reads the set of unspent outputs through a pointer, which
  is the chain's set unless an earlier rollback has replaced that object (\<open>ne_staleSet\<close>).
\<close>

definition chainStep :: "('sg, 'pk, 'sk, 's, 'd) net_env \<Rightarrow> Block \<Rightarrow> ('s, 'd) Manager \<Rightarrow> (u32 \<times> chain_error option) \<times> ('s, 'd) Manager" where
  "chainStep N block m =
     (case ProcessBlock (ne_chain N) (ne_clock N) (ne_now N) (ne_pick N) block (mg_chain m) of
        (r, c) \<Rightarrow> (r, m\<lparr>mg_chain := c,
           mg_mempool := (mg_mempool m)\<lparr>mp_utxoSet := (case ne_staleSet N of None \<Rightarrow> ch_utxoSet c | Some s \<Rightarrow> s)\<rparr>\<rparr>))"

definition blockRejected :: "('sg, 'pk, 'sk, 's, 'd) net_env \<Rightarrow> bytes \<Rightarrow> hash \<Rightarrow> chain_error \<Rightarrow> ('s, 'd) Manager \<Rightarrow> ('s, 'd) Manager" where
  "blockRejected N a bhash e m =
     (if isSideChain e then m
      else
        let m = m\<lparr>mg_seenBlocks := bs_Remove bhash (mg_seenBlocks m)\<rparr> in
        if isOrphanErr e then requestBlocks N a m
        else if errorContains (ne_storeText N) e ''already in chain'' then m
        else addMisbehavior (ne_now N) a (penalty (ne_storeText N) e) m)"

definition blockAccepted :: "('sg, 'pk, 'sk, 's, 'd) net_env \<Rightarrow> bytes \<Rightarrow> hash \<Rightarrow> Block \<Rightarrow> u32 \<Rightarrow> ('s, 'd) Manager \<Rightarrow> ('s, 'd) Manager" where
  "blockAccepted N a bhash block height m =
     (let confirmed = map (HashTransaction (ne_sha N)) (Transactions block);
          m = m\<lparr>mg_mempool := SetTipHeight (RemoveTxs (mg_mempool m) confirmed) height\<rparr>;
          m = updPeer a (\<lambda>p. SetSyncedHeaders height (SetSyncedBlocks height
                (StampLastBlock (ne_now N) (SetStartHeightIfGreater height p)))) m;
          m = (if height > mg_bestPeerHeight m then m\<lparr>mg_bestPeerHeight := height\<rparr> else m);
          m = BroadcastBlock N bhash block m
      in if (case mg_peers m a of None \<Rightarrow> 0 | Some p \<Rightarrow> BestHeight p) > height then requestBlocks N a m else m)"

definition handleBlock :: "('sg, 'pk, 'sk, 's, 'd) net_env \<Rightarrow> bytes \<Rightarrow> Block \<Rightarrow> ('s, 'd) Manager \<Rightarrow> ('s, 'd) Manager" where
  "handleBlock N a block m =
     (let bhash = HashBlockHeader (ne_sha N) (Header block);
          m = knowsTo N a bhash m in
      case bs_AddOrHas bhash (mg_seenBlocks m) of
        (True, _) \<Rightarrow> m
      | (False, seen) \<Rightarrow>
          (case chainStep N block (m\<lparr>mg_seenBlocks := seen\<rparr>) of
             ((height, Some e), m) \<Rightarrow> blockRejected N a bhash e m
           | ((height, None), m) \<Rightarrow> blockAccepted N a bhash block height m))"

definition handleTx :: "('sg, 'pk, 'sk, 's, 'd) net_env \<Rightarrow> bytes \<Rightarrow> Transaction \<Rightarrow> ('s, 'd) Manager \<Rightarrow> ('s, 'd) Manager" where
  "handleTx N a tx m =
     (let txHash = HashTransaction (ne_sha N) tx;
          m = knowsTo N a txHash m in
      case bs_AddOrHas txHash (mg_seenTxs m) of
        (True, _) \<Rightarrow> m
      | (False, seen) \<Rightarrow>
          let m = m\<lparr>mg_seenTxs := seen\<rparr> in
          (case AddTx (en_lib (ne_chain N)) (mg_mempool m) tx of
             (Inl _, mp) \<Rightarrow> m\<lparr>mg_mempool := mp\<rparr>
           | (Inr _, mp) \<Rightarrow> BroadcastTx N txHash (updPeer a (StampLastTx (ne_now N)) (m\<lparr>mg_mempool := mp\<rparr>))))"

section \<open>Requests for blocks\<close>

definition locatorStart :: "'s Chain \<Rightarrow> hash list \<Rightarrow> u32" where
  "locatorStart c hashes =
     (case List.map_filter (FindMainChainHash c) hashes of [] \<Rightarrow> 0 | height # _ \<Rightarrow> height)"

text \<open>The loop sends at most 500 blocks; \<open>room\<close> is what is left of them. The height is incremented with wrap-around.\<close>

fun getBlocksLoop :: "('sg, 'pk, 'sk, 's, 'd) net_env \<Rightarrow> bytes \<Rightarrow> hash \<Rightarrow> u32 \<Rightarrow> nat \<Rightarrow> u32 \<Rightarrow> ('s, 'd) Manager \<Rightarrow> ('s, 'd) Manager" where
  "getBlocksLoop N a hashStop tipHeight 0 h m = m"
| "getBlocksLoop N a hashStop tipHeight (Suc room) h m =
     (if \<not> h \<le> tipHeight then m
      else case GetHeaderByHeight (ne_chain N) (mg_chain m) h of
        Inl _ \<Rightarrow> m
      | Inr header \<Rightarrow>
          let hash = HashBlockHeader (ne_sha N) header in
          (case Chain_GetBlock (ne_chain N) (mg_chain m) hash of
             Inl _ \<Rightarrow> m
           | Inr block \<Rightarrow>
               let m = sendTo N a CmdBlock (Block_SerializeToBytes block) (knowsTo N a hash m) in
               if hash = hashStop then m else getBlocksLoop N a hashStop tipHeight room (h + 1) m))"

definition handleGetBlocks :: "('sg, 'pk, 'sk, 's, 'd) net_env \<Rightarrow> bytes \<Rightarrow> GetBlocksMsg \<Rightarrow> ('s, 'd) Manager \<Rightarrow> ('s, 'd) Manager" where
  "handleGetBlocks N a msg m =
     (let tipHeight = snd (Tip (mg_chain m)); startHeight = locatorStart (mg_chain m) (BlockLocatorHashes msg)
      in getBlocksLoop N a (HashStop msg) tipHeight 500 (startHeight + 1) m)"

section \<open>Addresses\<close>

text \<open>One of the two loops of \<open>gatherAddresses\<close>; the flag says whether the limit was reached, which ends the function.\<close>

fun gatherLoop :: "nat \<Rightarrow> bytes \<Rightarrow> bytes list \<Rightarrow> bytes set \<Rightarrow> bytes list \<Rightarrow> bool \<times> bytes set \<times> bytes list" where
  "gatherLoop limit self [] seen addrs = (False, seen, addrs)"
| "gatherLoop limit self (a # as) seen addrs =
     (if a = self then gatherLoop limit self as seen addrs
      else if a \<in> seen then gatherLoop limit self as seen addrs
      else
        let seen = insert a seen; addrs = addrs @ [a] in
        if length addrs \<ge> limit then (True, seen, addrs) else gatherLoop limit self as seen addrs)"

definition advertised :: "Peer \<Rightarrow> bytes" where
  "advertised p =
     (case pe_version p of
        None \<Rightarrow> pe_addr p
      | Some v \<Rightarrow> if vm_AddrFrom v \<noteq> [] then vm_AddrFrom v else pe_addr p)"

definition storedPeers :: "('sg, 'pk, 'sk, 's, 'd) net_env \<Rightarrow> ('s, 'd) Manager \<Rightarrow> bytes list" where
  "storedPeers N m = (case ps_GetPeers (ne_peerStore N) (mg_store m) of Inl _ \<Rightarrow> [] | Inr stored \<Rightarrow> stored)"

definition gatherAddresses :: "('sg, 'pk, 'sk, 's, 'd) net_env \<Rightarrow> nat \<Rightarrow> ('s, 'd) Manager \<Rightarrow> bytes list" where
  "gatherAddresses N limit m =
     (case gatherLoop limit (mg_listenAddr m) (map advertised (rangePeers N m)) {} [] of
        (True, seen, addrs) \<Rightarrow> addrs
      | (False, seen, addrs) \<Rightarrow> snd (snd (gatherLoop limit (mg_listenAddr m) (storedPeers N m) seen addrs)))"

definition handleGetAddr :: "('sg, 'pk, 'sk, 's, 'd) net_env \<Rightarrow> bytes \<Rightarrow> ('s, 'd) Manager \<Rightarrow> ('s, 'd) Manager" where
  "handleGetAddr N a m =
     (case mg_peers m a of
        None \<Rightarrow> m
      | Some p \<Rightarrow>
          (case MarkGetAddrResponded p of
             (False, _) \<Rightarrow> m
           | (True, p') \<Rightarrow>
               let m = updPeer a (\<lambda>_. p') m; addrs = gatherAddresses N 1000 m in
               if addrs = [] then m else sendTo N a CmdAddr (AddrMsg_Encode addrs) m))"

definition putPeer :: "('sg, 'pk, 'sk, 's, 'd) net_env \<Rightarrow> bytes \<Rightarrow> ('s, 'd) Manager \<Rightarrow> ('s, 'd) Manager" where
  "putPeer N addr m = m\<lparr>mg_store := snd (ps_PutPeer (ne_peerStore N) addr (mg_store m))\<rparr>"

definition learnAddr :: "('sg, 'pk, 'sk, 's, 'd) net_env \<Rightarrow> bytes \<Rightarrow> ('s, 'd) Manager \<Rightarrow> ('s, 'd) Manager" where
  "learnAddr N addr m =
     (case IsBanned (ne_now N) addr m of
        (banned, m) \<Rightarrow> if \<not> banned \<and> addr \<noteq> mg_listenAddr m then putPeer N addr m else m)"

section \<open>Dispatch\<close>

definition handlePong :: "('sg, 'pk, 'sk, 's, 'd) net_env \<Rightarrow> bytes \<Rightarrow> u64 \<Rightarrow> ('s, 'd) Manager \<Rightarrow> ('s, 'd) Manager" where
  "handlePong N a nonce m =
     (case mg_peers m a of
        None \<Rightarrow> m
      | Some p \<Rightarrow>
          (case HandlePong (ne_now N) nonce p of
             (True, p') \<Rightarrow> updPeer a (\<lambda>_. p') m
           | (False, _) \<Rightarrow> addMisbehavior (ne_now N) a 1 m))"

definition decoded :: "('e, 'a \<times> bytes) res \<Rightarrow> ('s, 'd) Manager \<Rightarrow> ('a \<Rightarrow> ('s, 'd) Manager) \<Rightarrow> ('s, 'd) Manager" where
  "decoded r bad good = (case r of Inl _ \<Rightarrow> bad | Inr (x, _) \<Rightarrow> good x)"

definition handleMessage :: "('sg, 'pk, 'sk, 's, 'd) net_env \<Rightarrow> bytes \<Rightarrow> MessageHeader \<Rightarrow> bytes \<Rightarrow> ('s, 'd) Manager \<Rightarrow> ('s, 'd) Manager" where
  "handleMessage N a hdr payload m =
     (let cmd = CommandString hdr; bad = (\<lambda>score. addMisbehavior (ne_now N) a score m) in
      if cmd = CmdPing then decoded (PingMsg_Decode payload) (bad 1) (\<lambda>nonce. sendTo N a CmdPong (PongMsg_Encode nonce) m)
      else if cmd = CmdPong then decoded (PongMsg_Decode payload) (bad 1) (\<lambda>nonce. handlePong N a nonce m)
      else if cmd = CmdInv then decoded (InvMsg_Decode payload) (bad 20) (\<lambda>invs. handleInv N a invs m)
      else if cmd = CmdGetData then decoded (GetDataMsg_Decode payload) (bad 20) (\<lambda>invs. handleGetData N a invs m)
      else if cmd = CmdBlock then decoded (Block_Deserialize payload) (bad 20) (\<lambda>block. handleBlock N a block m)
      else if cmd = CmdTx then decoded (Tx_Deserialize payload) (bad 10) (\<lambda>tx. handleTx N a tx m)
      else if cmd = CmdGetBlocks then decoded (GetBlocksMsg_Decode payload) (bad 10) (\<lambda>msg. handleGetBlocks N a msg m)
      else if cmd = CmdAddr then decoded (AddrMsg_Decode payload) (bad 10) (\<lambda>addrs. fold (learnAddr N) addrs m)
      else if cmd = CmdGetAddr then handleGetAddr N a m
      else m)"

end
