(* ===== verification/P2p_Net.thy ===== *)
theory P2p_Net
  imports P2p_Handlers
begin

text \<open>
  Connections of the peer manager (\<open>internal/p2p/manager.go\<close>): accepting, dialling and eviction, the
  handshake, the life of a peer from registration to disconnection, and one tick of each of the
  periodic loops. A goroutine that serves a new peer is its \<open>startPeer\<close>, any number of \<open>readStep\<close>s and
  one \<open>disconnectPeer\<close>.
\<close>

section \<open>Handshake\<close>

datatype handshake_error =
    SendVersionFailed
  | ReadVersionFailed read_error
  | ExpectedVersion bytes
  | DecodeVersionFailed proto_error
  | SelfConnection
  | ReadVerackFailed read_error
  | ExpectedVerack bytes
  | SendVerackFailed

text \<open>A write of a message to the connection, past the send channel.\<close>

definition writeConn :: "conn_io \<Rightarrow> bytes \<Rightarrow> bytes \<Rightarrow> Peer \<Rightarrow> bool \<times> Peer" where
  "writeConn io hdr payload p =
     (case io of
        WriteAll \<Rightarrow> (True, p\<lparr>pe_written := pe_written p @ hdr @ payload\<rparr>)
      | HeaderFails k \<Rightarrow> (False, p\<lparr>pe_written := pe_written p @ take k hdr\<rparr>)
      | PayloadFails k \<Rightarrow> (False, p\<lparr>pe_written := pe_written p @ hdr @ take k payload\<rparr>))"

definition ourVersion :: "int \<Rightarrow> bytes \<Rightarrow> ('s, 'd) Manager \<Rightarrow> VersionMsg" where
  "ourVersion now addr m =
     \<lparr>vm_Version = ProtocolVersion, vm_Services = 1, vm_Timestamp = of_int (Unix now), vm_AddrRecv = addr,
      vm_AddrFrom = mg_listenAddr m, vm_Nonce = mg_localNonce m, vm_UserAgent = UserAgent,
      vm_StartHeight = snd (Tip (mg_chain m))\<rparr>"

definition sendVersion :: "('sg, 'pk, 'sk, 's, 'd) net_env \<Rightarrow> conn_io \<Rightarrow> ('s, 'd) Manager \<Rightarrow> Peer \<Rightarrow> (handshake_error, unit) res \<times> Peer" where
  "sendVersion N io m p =
     (let payload = VersionMsg_Encode (ourVersion (ne_now N) (pe_addr p) m);
          hdr = EncodeMessageHeader (ne_sha N) (NetworkMagic (en_params (ne_chain N))) CmdVersion payload in
      case writeConn io hdr payload p of
        (True, p) \<Rightarrow> (Inr (), p)
      | (False, p) \<Rightarrow> (Inl SendVersionFailed, p))"

definition sendVerack :: "('sg, 'pk, 'sk, 's, 'd) net_env \<Rightarrow> conn_io \<Rightarrow> Peer \<Rightarrow> (handshake_error, unit) res \<times> Peer" where
  "sendVerack N io p =
     (let hdr = EncodeMessageHeader (ne_sha N) (NetworkMagic (en_params (ne_chain N))) CmdVerack [] in
      case writeConn io hdr [] p of
        (True, p) \<Rightarrow> (Inr (), p)
      | (False, p) \<Rightarrow> (Inl SendVerackFailed, p))"

definition readVerack :: "('sg, 'pk, 'sk, 's, 'd) net_env \<Rightarrow> Peer \<Rightarrow> (handshake_error, unit) res \<times> Peer" where
  "readVerack N p =
     (case ReadMessage (ne_sha N) (ne_now N) p of
        (Inl e, p) \<Rightarrow> (Inl (ReadVerackFailed e), p)
      | (Inr (hdr, _), p) \<Rightarrow>
          if CommandString hdr \<noteq> CmdVerack then (Inl (ExpectedVerack (CommandString hdr)), p) else (Inr (), p))"

definition readAndProcessVersion :: "('sg, 'pk, 'sk, 's, 'd) net_env \<Rightarrow> Peer \<Rightarrow> ('s, 'd) Manager
    \<Rightarrow> (handshake_error, unit) res \<times> Peer \<times> ('s, 'd) Manager" where
  "readAndProcessVersion N p m =
     (case ReadMessage (ne_sha N) (ne_now N) p of
        (Inl e, p) \<Rightarrow> (Inl (ReadVersionFailed e), p, m)
      | (Inr (hdr, payload), p) \<Rightarrow>
          if CommandString hdr \<noteq> CmdVersion then (Inl (ExpectedVersion (CommandString hdr)), p, m)
          else case VersionMsg_Decode payload of
            Inl e \<Rightarrow> (Inl (DecodeVersionFailed e), p, m)
          | Inr (v, _) \<Rightarrow>
              if vm_Nonce v = mg_localNonce m then (Inl SelfConnection, p, m)
              else
                let p = p\<lparr>pe_version := Some v\<rparr> in
                (Inr (), p,
                 (case mg_timeSampler m of
                    None \<Rightarrow> m
                  | Some clk \<Rightarrow>
                      if vm_Timestamp v \<noteq> 0
                      then m\<lparr>mg_timeSampler := Some (AddSample clk (pe_addr p) (sint (vm_Timestamp v)) (Unix (ne_now N)))\<rparr>
                      else m)))"

text \<open>Outbound peers hear our version first; \<open>io\<close> and \<open>io'\<close> are the fates of the two messages that are sent.\<close>

definition handshakeOutbound :: "('sg, 'pk, 'sk, 's, 'd) net_env \<Rightarrow> conn_io \<Rightarrow> conn_io \<Rightarrow> Peer \<Rightarrow> ('s, 'd) Manager
    \<Rightarrow> (handshake_error, unit) res \<times> Peer \<times> ('s, 'd) Manager" where
  "handshakeOutbound N io io' p m =
     (case sendVersion N io m p of
        (Inl e, p) \<Rightarrow> (Inl e, p, m)
      | (Inr _, p) \<Rightarrow>
          (case readAndProcessVersion N p m of
             (Inl e, p, m) \<Rightarrow> (Inl e, p, m)
           | (Inr _, p, m) \<Rightarrow>
               (case readVerack N p of
                  (Inl e, p) \<Rightarrow> (Inl e, p, m)
                | (Inr _, p) \<Rightarrow> (case sendVerack N io' p of (r, p) \<Rightarrow> (r, p, m)))))"

definition handshakeInbound :: "('sg, 'pk, 'sk, 's, 'd) net_env \<Rightarrow> conn_io \<Rightarrow> conn_io \<Rightarrow> Peer \<Rightarrow> ('s, 'd) Manager
    \<Rightarrow> (handshake_error, unit) res \<times> Peer \<times> ('s, 'd) Manager" where
  "handshakeInbound N io io' p m =
     (case readAndProcessVersion N p m of
        (Inl e, p, m) \<Rightarrow> (Inl e, p, m)
      | (Inr _, p, m) \<Rightarrow>
          (case sendVersion N io m p of
             (Inl e, p) \<Rightarrow> (Inl e, p, m)
           | (Inr _, p) \<Rightarrow>
               (case sendVerack N io' p of
                  (Inl e, p) \<Rightarrow> (Inl e, p, m)
                | (Inr _, p) \<Rightarrow> (case readVerack N p of (r, p) \<Rightarrow> (r, p, m)))))"

definition handshake :: "('sg, 'pk, 'sk, 's, 'd) net_env \<Rightarrow> conn_io \<Rightarrow> conn_io \<Rightarrow> Peer \<Rightarrow> ('s, 'd) Manager
    \<Rightarrow> (handshake_error, unit) res \<times> Peer \<times> ('s, 'd) Manager" where
  "handshake N io io' p m = (if pe_inbound p then handshakeInbound N io io' p m else handshakeOutbound N io io' p m)"

section \<open>The life of a peer\<close>

text \<open>The deferred function of \<open>handlePeer\<close>.\<close>

definition disconnectPeer :: "('sg, 'pk, 'sk, 's, 'd) net_env \<Rightarrow> bytes \<Rightarrow> ('s, 'd) Manager \<Rightarrow> ('s, 'd) Manager" where
  "disconnectPeer N a m =
     (let m = m\<lparr>mg_peers := (mg_peers m)(a := None)\<rparr>;
          best = fold (\<lambda>p best. case pe_version p of None \<Rightarrow> best | Some v \<Rightarrow> if vm_StartHeight v > best then vm_StartHeight v else best)
                   (rangePeers N m) 0
      in m\<lparr>mg_bestPeerHeight := best\<rparr>)"

definition registerPeer :: "Peer \<Rightarrow> ('s, 'd) Manager \<Rightarrow> ('s, 'd) Manager" where
  "registerPeer p m =
     (let m = m\<lparr>mg_nextPeerID := wrap32 (mg_nextPeerID m + 1)\<rparr>;
          p = p\<lparr>pe_id := mg_nextPeerID m\<rparr>;
          p = (if pe_addr p \<in> mg_manualPeers m then p\<lparr>pe_connType := ''manual''\<rparr> else p);
          m = m\<lparr>mg_peers := (mg_peers m)(pe_addr p \<mapsto> p)\<rparr>
      in if BestHeight p > mg_bestPeerHeight m then m\<lparr>mg_bestPeerHeight := BestHeight p\<rparr> else m)"

definition rememberPeer :: "('sg, 'pk, 'sk, 's, 'd) net_env \<Rightarrow> Peer \<Rightarrow> ('s, 'd) Manager \<Rightarrow> ('s, 'd) Manager" where
  "rememberPeer N p m =
     (let listenAddr = (case pe_version p of None \<Rightarrow> [] | Some v \<Rightarrow> vm_AddrFrom v) in
      if listenAddr \<noteq> [] \<and> listenAddr \<noteq> mg_listenAddr m then putPeer N listenAddr m
      else if pe_addr p \<noteq> mg_listenAddr m then putPeer N (pe_addr p) m
      else m)"

text \<open>\<open>handlePeer\<close> up to its message loop; a failed handshake runs the deferred function at once.\<close>

definition startPeer :: "('sg, 'pk, 'sk, 's, 'd) net_env \<Rightarrow> conn_io \<Rightarrow> conn_io \<Rightarrow> Peer \<Rightarrow> ('s, 'd) Manager \<Rightarrow> ('s, 'd) Manager" where
  "startPeer N io io' p m =
     (case handshake N io io' p m of
        (Inl e, p, m) \<Rightarrow>
          disconnectPeer N (pe_addr p)
            (if \<not> pe_inbound p then recordConnectFailure (ne_now N) (pe_addr p) m else m)
      | (Inr _, p, m) \<Rightarrow>
          let a = pe_addr p;
              m = rememberPeer N p (registerPeer p (recordConnectSuccess a m));
              m = sendTo N a CmdGetAddr [] m
          in if BestHeight p > snd (Tip (mg_chain m)) then requestBlocks N a m else m)"

text \<open>One turn of the message loop of \<open>handlePeer\<close>.\<close>

definition readStep :: "('sg, 'pk, 'sk, 's, 'd) net_env \<Rightarrow> bytes \<Rightarrow> ('s, 'd) Manager \<Rightarrow> ('s, 'd) Manager" where
  "readStep N a m =
     (case mg_peers m a of
        None \<Rightarrow> m
      | Some p \<Rightarrow>
          if pe_done p then disconnectPeer N a m
          else case ReadMessage (ne_sha N) (ne_now N) p of
            (Inl e, p) \<Rightarrow> disconnectPeer N a (updPeer a (\<lambda>_. p) m)
          | (Inr (hdr, payload), p) \<Rightarrow>
              (case CheckRateLimit (ne_now N) p of
                 (True, p) \<Rightarrow> handleMessage N a hdr payload (updPeer a (\<lambda>_. p) m)
               | (False, p) \<Rightarrow>
                   let m = addMisbehavior (ne_now N) a 10 (updPeer a (\<lambda>_. p) m) in
                   if (case mg_peers m a of None \<Rightarrow> 0 | Some p \<Rightarrow> BanScore p) \<ge> BanThreshold
                   then disconnectPeer N a m
                   else handleMessage N a hdr payload m))"

text \<open>One turn of the goroutine \<open>WriteLoop\<close> of a peer.\<close>

definition writeStep :: "('sg, 'pk, 'sk, 's, 'd) net_env \<Rightarrow> conn_io \<Rightarrow> bytes \<Rightarrow> ('s, 'd) Manager \<Rightarrow> ('s, 'd) Manager" where
  "writeStep N io a m = updPeer a (\<lambda>p. snd (writeNext (ne_sha N) io (ne_now N) p)) m"

section \<open>Accepting and dialling\<close>

text \<open>\<open>None\<close> is the index panic on an empty list of inbound peers.\<close>

definition maybeEvictInbound :: "('sg, 'pk, 'sk, 's, 'd) net_env \<Rightarrow> ('s, 'd) Manager \<Rightarrow> ('s, 'd) Manager option" where
  "maybeEvictInbound N m =
     (let inbound = filter pe_inbound (rangePeers N m) in
      if int (length inbound) < mg_maxInbound m then Some m
      else case sortSlice (\<lambda>p q. pe_pingLatency p > pe_pingLatency q) inbound of
             [] \<Rightarrow> None
           | victim # _ \<Rightarrow> Some (updPeer (pe_addr victim) Close m))"

text \<open>One connection that \<open>acceptLoop\<close> takes: the manager and the peer for which a goroutine is started.\<close>

definition acceptConn :: "('sg, 'pk, 'sk, 's, 'd) net_env \<Rightarrow> bytes \<Rightarrow> bytes \<Rightarrow> ('s, 'd) Manager \<Rightarrow> (Peer option \<times> ('s, 'd) Manager) option" where
  "acceptConn N addr input m =
     (case IsBanned (ne_now N) addr m of
        (True, m) \<Rightarrow> Some (None, m)
      | (False, m) \<Rightarrow>
          let inboundCount = length (filter pe_inbound (rangePeers N m));
              peer = NewPeer (ne_now N) addr input True (NetworkMagic (en_params (ne_chain N))) in
          if int inboundCount \<ge> mg_maxInbound m then Option.bind (maybeEvictInbound N m) (\<lambda>m. Some (Some peer, m))
          else Some (Some peer, m))"

text \<open>\<open>dial\<close> is the outcome of \<open>net.DialTimeout\<close>: the input of the connection, or a failure.\<close>

definition connectPeer :: "('sg, 'pk, 'sk, 's, 'd) net_env \<Rightarrow> (bytes \<Rightarrow> bytes option) \<Rightarrow> bytes \<Rightarrow> ('s, 'd) Manager \<Rightarrow> Peer option \<times> ('s, 'd) Manager" where
  "connectPeer N dial addr m =
     (if addr = mg_listenAddr m then (None, m)
      else if mg_peers m addr \<noteq> None then (None, m)
      else if list_ex (\<lambda>p. case pe_version p of None \<Rightarrow> False | Some v \<Rightarrow> vm_AddrFrom v = addr) (rangePeers N m) then (None, m)
      else case IsBanned (ne_now N) addr m of
        (True, m) \<Rightarrow> (None, m)
      | (False, m) \<Rightarrow>
          (case dial addr of
             None \<Rightarrow> (None, recordConnectFailure (ne_now N) addr m)
           | Some input \<Rightarrow> (Some (NewPeer (ne_now N) addr input False (NetworkMagic (en_params (ne_chain N)))), m)))"

text \<open>Dialling a list of addresses, as \<open>connectSeeds\<close> does; the peers are those whose goroutines start.\<close>

fun connectAll :: "('sg, 'pk, 'sk, 's, 'd) net_env \<Rightarrow> (bytes \<Rightarrow> bytes option) \<Rightarrow> bytes list \<Rightarrow> ('s, 'd) Manager \<Rightarrow> Peer list \<times> ('s, 'd) Manager" where
  "connectAll N dial [] m = ([], m)"
| "connectAll N dial (a # as) m =
     (case connectPeer N dial a m of
        (p, m) \<Rightarrow> (case connectAll N dial as m of (ps, m) \<Rightarrow> (case p of None \<Rightarrow> ps | Some p \<Rightarrow> p # ps, m)))"

definition configuredSeeds :: "('sg, 'pk, 'sk, 's, 'd) net_env \<Rightarrow> ('s, 'd) Manager \<Rightarrow> bytes list" where
  "configuredSeeds N m = mg_seedPeers m @ (if \<not> mg_noSeedNodes m then map ascii (SeedNodes (en_params (ne_chain N))) else [])"

definition connectSeeds :: "('sg, 'pk, 'sk, 's, 'd) net_env \<Rightarrow> (bytes \<Rightarrow> bytes option) \<Rightarrow> ('s, 'd) Manager \<Rightarrow> Peer list \<times> ('s, 'd) Manager" where
  "connectSeeds N dial m =
     (if mg_connectOnly m \<noteq> [] then connectAll N dial (mg_connectOnly m) m
      else connectAll N dial (configuredSeeds N m @ storedPeers N m) m)"

text \<open>
  The condition under which \<open>reconnectLoop\<close> dials an address, and its three loops: over a fixed list, over
  the stored addresses up to the outbound limit, and over the stored addresses until the first attempt.
\<close>

definition wantsDial :: "('sg, 'pk, 'sk, 's, 'd) net_env \<Rightarrow> bytes set \<Rightarrow> bytes \<Rightarrow> ('s, 'd) Manager \<Rightarrow> bool \<times> ('s, 'd) Manager" where
  "wantsDial N connected addr m =
     (if addr \<in> connected then (False, m)
      else case IsBanned (ne_now N) addr m of
             (True, m) \<Rightarrow> (False, m)
           | (False, m) \<Rightarrow> (canReconnect (ne_now N) addr m, m))"

fun dialFixed :: "('sg, 'pk, 'sk, 's, 'd) net_env \<Rightarrow> (bytes \<Rightarrow> bytes option) \<Rightarrow> bytes list \<Rightarrow> bytes set \<Rightarrow> ('s, 'd) Manager
    \<Rightarrow> Peer list \<times> bytes set \<times> ('s, 'd) Manager" where
  "dialFixed N dial [] connected m = ([], connected, m)"
| "dialFixed N dial (a # as) connected m =
     (case wantsDial N connected a m of
        (False, m) \<Rightarrow> dialFixed N dial as connected m
      | (True, m) \<Rightarrow>
          (case connectPeer N dial a m of
             (p, m) \<Rightarrow>
               (case dialFixed N dial as (insert a connected) m of
                  (ps, r) \<Rightarrow> (case p of None \<Rightarrow> ps | Some p \<Rightarrow> p # ps, r))))"

fun dialMesh :: "('sg, 'pk, 'sk, 's, 'd) net_env \<Rightarrow> (bytes \<Rightarrow> bytes option) \<Rightarrow> bytes list \<Rightarrow> int \<Rightarrow> bytes set \<Rightarrow> ('s, 'd) Manager
    \<Rightarrow> Peer list \<times> ('s, 'd) Manager" where
  "dialMesh N dial [] outCount connected m = ([], m)"
| "dialMesh N dial (a # as) outCount connected m =
     (if outCount \<ge> mg_maxOutbound m then ([], m)
      else case wantsDial N connected a m of
        (False, m) \<Rightarrow> dialMesh N dial as outCount connected m
      | (True, m) \<Rightarrow>
          if a = mg_listenAddr m then dialMesh N dial as outCount connected m
          else case connectPeer N dial a m of
            (p, m) \<Rightarrow>
              (case dialMesh N dial as (outCount + 1) (insert a connected) m of
                 (ps, m) \<Rightarrow> (case p of None \<Rightarrow> ps | Some p \<Rightarrow> p # ps, m)))"

fun dialOne :: "('sg, 'pk, 'sk, 's, 'd) net_env \<Rightarrow> (bytes \<Rightarrow> bytes option) \<Rightarrow> bytes list \<Rightarrow> bytes set \<Rightarrow> ('s, 'd) Manager
    \<Rightarrow> Peer list \<times> ('s, 'd) Manager" where
  "dialOne N dial [] connected m = ([], m)"
| "dialOne N dial (a # as) connected m =
     (case wantsDial N connected a m of
        (False, m) \<Rightarrow> dialOne N dial as connected m
      | (True, m) \<Rightarrow> (case connectPeer N dial a m of (p, m) \<Rightarrow> (case p of None \<Rightarrow> [] | Some p \<Rightarrow> [p], m)))"

definition connectedAddrs :: "('sg, 'pk, 'sk, 's, 'd) net_env \<Rightarrow> ('s, 'd) Manager \<Rightarrow> bytes set" where
  "connectedAddrs N m = set (concat (map (\<lambda>p. pe_addr p #
     (case pe_version p of None \<Rightarrow> [] | Some v \<Rightarrow> if vm_AddrFrom v \<noteq> [] then [vm_AddrFrom v] else [])) (rangePeers N m)))"

definition reconnectTick :: "('sg, 'pk, 'sk, 's, 'd) net_env \<Rightarrow> (bytes \<Rightarrow> bytes option) \<Rightarrow> ('s, 'd) Manager \<Rightarrow> Peer list \<times> ('s, 'd) Manager" where
  "reconnectTick N dial m =
     (let outCount = int (outboundCount N m); connected = connectedAddrs N m in
      if outCount \<ge> mg_maxOutbound m then ([], m)
      else if mg_connectOnly m \<noteq> [] then
        (case dialFixed N dial (mg_connectOnly m) connected m of
           (ps, connected, m) \<Rightarrow> (case dialMesh N dial (storedPeers N m) outCount connected m of (qs, m) \<Rightarrow> (ps @ qs, m)))
      else
        (case dialFixed N dial (configuredSeeds N m) connected m of
           (ps, connected, m) \<Rightarrow> (case dialOne N dial (storedPeers N m) connected m of (qs, m) \<Rightarrow> (ps @ qs, m))))"

section \<open>Manual connections and shutdown\<close>

datatype node_error = NodeBanned bytes | AlreadyConnected bytes | PeerNotFound bytes

text \<open>\<open>AddNode\<close> starts \<open>connectPeer\<close> in a goroutine when it succeeds.\<close>

definition AddNode :: "('sg, 'pk, 'sk, 's, 'd) net_env \<Rightarrow> bytes \<Rightarrow> ('s, 'd) Manager \<Rightarrow> (node_error, unit) res \<times> ('s, 'd) Manager" where
  "AddNode N addr m =
     (case IsBanned (ne_now N) addr m of
        (True, m) \<Rightarrow> (Inl (NodeBanned addr), m)
      | (False, m) \<Rightarrow>
          if mg_peers m addr \<noteq> None then (Inl (AlreadyConnected addr), m)
          else (Inr (), m\<lparr>mg_manualPeers := insert addr (mg_manualPeers m)\<rparr>))"

definition DisconnectNode :: "bytes \<Rightarrow> ('s, 'd) Manager \<Rightarrow> (node_error, unit) res \<times> ('s, 'd) Manager" where
  "DisconnectNode addr m =
     (if mg_peers m addr = None then (Inl (PeerNotFound addr), m) else (Inr (), updPeer addr Close m))"

definition Stop :: "('sg, 'pk, 'sk, 's, 'd) net_env \<Rightarrow> ('s, 'd) Manager \<Rightarrow> ('s, 'd) Manager" where
  "Stop N m = fold (\<lambda>p. updPeer (pe_addr p) Close) (rangePeers N m) m"

section \<open>Periodic work\<close>

text \<open>\<open>nonce i\<close> is the random nonce for the \<open>i\<close>-th peer.\<close>

fun pingLoop :: "('sg, 'pk, 'sk, 's, 'd) net_env \<Rightarrow> (nat \<Rightarrow> u64) \<Rightarrow> nat \<Rightarrow> bytes list \<Rightarrow> ('s, 'd) Manager \<Rightarrow> ('s, 'd) Manager" where
  "pingLoop N nonce i [] m = m"
| "pingLoop N nonce i (a # as) m =
     pingLoop N nonce (i + 1) as
       (sendTo N a CmdPing (PingMsg_Encode (nonce i)) (updPeer a (SetPingNonce (ne_now N) (nonce i)) m))"

definition pingTick :: "('sg, 'pk, 'sk, 's, 'd) net_env \<Rightarrow> (nat \<Rightarrow> u64) \<Rightarrow> ('s, 'd) Manager \<Rightarrow> ('s, 'd) Manager" where
  "pingTick N nonce m = pingLoop N nonce 0 (map pe_addr (rangePeers N m)) m"

definition pruneBans :: "int \<Rightarrow> (bytes \<rightharpoonup> int) \<Rightarrow> (bytes \<rightharpoonup> int)" where
  "pruneBans now banned = (\<lambda>ip. case banned ip of None \<Rightarrow> None | Some expiry \<Rightarrow> if now > expiry then None else Some expiry)"

definition livenessTick :: "('sg, 'pk, 'sk, 's, 'd) net_env \<Rightarrow> ('s, 'd) Manager \<Rightarrow> ('s, 'd) Manager" where
  "livenessTick N m =
     (let m = fold (\<lambda>p. if PongOverdue (ne_now N) p then updPeer (pe_addr p) Close else id) (rangePeers N m) m
      in m\<lparr>mg_banned := pruneBans (ne_now N) (mg_banned m)\<rparr>)"

definition addrTick :: "('sg, 'pk, 'sk, 's, 'd) net_env \<Rightarrow> ('s, 'd) Manager \<Rightarrow> ('s, 'd) Manager" where
  "addrTick N m =
     (let addrs = gatherAddresses N 10 m in
      if addrs = [] then m
      else fold (\<lambda>a. updPeer a (SendLowPriority (ne_race N a) CmdAddr (AddrMsg_Encode addrs)))
             (take 2 (shufflePeers (ne_rand N) (map pe_addr (rangePeers N m)))) m)"

text \<open>The peer with the greatest height, the first of them in the order of the iteration.\<close>

definition bestPeer :: "Peer list \<Rightarrow> Peer option \<times> u32" where
  "bestPeer ps = fold (\<lambda>p (sync, best). if BestHeight p > best then (Some p, BestHeight p) else (sync, best)) ps (None, 0)"

definition syncTick :: "('sg, 'pk, 'sk, 's, 'd) net_env \<Rightarrow> ('s, 'd) Manager \<Rightarrow> ('s, 'd) Manager" where
  "syncTick N m =
     (case bestPeer (rangePeers N m) of
        (None, _) \<Rightarrow> m
      | (Some p, best) \<Rightarrow> if best > snd (Tip (mg_chain m)) then requestBlocks N (pe_addr p) m else m)"

section \<open>Steps\<close>

text \<open>What the goroutines of the manager do, one step at a time, each in its own environment.\<close>

datatype net_event =
    AcceptEv bytes bytes conn_io conn_io
  | DialEv bytes "bytes option" conn_io conn_io
  | ReadEv bytes
  | WriteEv bytes conn_io
  | DisconnectEv bytes
  | PingEv "nat \<Rightarrow> u64"
  | LivenessEv
  | AddrEv
  | SyncEv
  | AddNodeEv bytes
  | DropNodeEv bytes

fun netStep :: "('sg, 'pk, 'sk, 's, 'd) net_env \<Rightarrow> net_event \<Rightarrow> ('s, 'd) Manager \<Rightarrow> ('s, 'd) Manager option" where
  "netStep N (AcceptEv addr input io io') m =
     map_option (\<lambda>(p, m). case p of None \<Rightarrow> m | Some p \<Rightarrow> startPeer N io io' p m) (acceptConn N addr input m)"
| "netStep N (DialEv addr input io io') m =
     (case connectPeer N (\<lambda>_. input) addr m of (p, m) \<Rightarrow> Some (case p of None \<Rightarrow> m | Some p \<Rightarrow> startPeer N io io' p m))"
| "netStep N (ReadEv a) m = Some (readStep N a m)"
| "netStep N (WriteEv a io) m = Some (writeStep N io a m)"
| "netStep N (DisconnectEv a) m = Some (disconnectPeer N a m)"
| "netStep N (PingEv nonce) m = Some (pingTick N nonce m)"
| "netStep N LivenessEv m = Some (livenessTick N m)"
| "netStep N AddrEv m = Some (addrTick N m)"
| "netStep N SyncEv m = Some (syncTick N m)"
| "netStep N (AddNodeEv addr) m = Some (snd (AddNode N addr m))"
| "netStep N (DropNodeEv addr) m = Some (snd (DisconnectNode addr m))"

fun netRun :: "(('sg, 'pk, 'sk, 's, 'd) net_env \<times> net_event) list \<Rightarrow> ('s, 'd) Manager \<Rightarrow> ('s, 'd) Manager option" where
  "netRun [] m = Some m"
| "netRun ((N, ev) # evs) m = Option.bind (netStep N ev m) (netRun evs)"

end
