(* ===== verification/P2p_Props.thy ===== *)
theory P2p_Props
  imports P2p_Net "HOL-Library.Sublist"
begin

text \<open>
  Properties of the peer manager: the bounds that every peer keeps, what the handlers leave alone, and
  the simulation of the whole manager by deliveries of blocks to the chain and operations on the pool.
\<close>

section \<open>Peers\<close>

text \<open>The bounds on what a peer holds, and where the bytes it can still deliver come from.\<close>

definition peerOk :: "bytes set \<Rightarrow> Peer \<Rightarrow> bool" where
  "peerOk I p \<longleftrightarrow> length (pe_sendQueue p) \<le> peerSendQueueSize \<and> finite (pe_knownInv p) \<and> card (pe_knownInv p) \<le> 10000
     \<and> (\<exists>input\<in>I. suffix (pe_reader p) input)"

definition mapOrder :: "(hash set \<Rightarrow> hash list) \<Rightarrow> bool" where
  "mapOrder ord \<longleftrightarrow> (\<forall>S. finite S \<longrightarrow> distinct (ord S) \<and> set (ord S) = S)"

lemma peerOk_NewPeer: "input \<in> I \<Longrightarrow> peerOk I (NewPeer now addr input inbound magic)"
  by (auto simp: peerOk_def NewPeer_def)

lemma peerOk_AddKnown:
  assumes "mapOrder ord" "peerOk I p"
  shows "peerOk I (AddKnownInventory ord h p)"
proof -
  let ?known = "insert h (pe_knownInv p)"
  have fin: "finite ?known" and c: "card ?known \<le> 10001"
    using assms(2) card_insert_le_m1 by (auto simp: peerOk_def card_insert_if)
  have o: "distinct (ord ?known)" "set (ord ?known) = ?known" using assms(1) fin unfolding mapOrder_def by blast+
  have "card (?known - set (take 2001 (ord ?known))) \<le> 10000" if "card ?known > 10000"
  proof -
    have l: "length (ord ?known) = card ?known" using o distinct_card by metis
    have "card (set (take 2001 (ord ?known))) = 2001"
      using distinct_card [OF distinct_take [OF o(1)], of 2001] l that by simp
    moreover have "set (take 2001 (ord ?known)) \<subseteq> ?known" using set_take_subset o(2) by metis
    ultimately have "card (?known - set (take 2001 (ord ?known))) = card ?known - 2001" by (simp add: card_Diff_subset)
    then show ?thesis using c by simp
  qed
  then show ?thesis using assms(2) fin by (auto simp: peerOk_def AddKnownInventory_def Let_def)
qed

lemma peerOk_Send [simp]:
  "peerOk I p \<Longrightarrow> peerOk I (SendMessage race cmd payload p)"
  "peerOk I p \<Longrightarrow> peerOk I (SendLowPriority race cmd payload p)"
  "peerOk I p \<Longrightarrow> peerOk I (snd (TrySendMessage race cmd payload p))"
  by (auto simp: peerOk_def SendMessage_def SendLowPriority_def TrySendMessage_def canSend_def Let_def)

lemma peerOk_fields [simp]:
  "peerOk I p \<Longrightarrow> peerOk I (Close p)"
  "peerOk I p \<Longrightarrow> peerOk I (SetStartHeightIfGreater height p)"
  "peerOk I p \<Longrightarrow> peerOk I (StampLastBlock now p)" "peerOk I p \<Longrightarrow> peerOk I (StampLastTx now p)"
  "peerOk I p \<Longrightarrow> peerOk I (SetSyncedHeaders height p)" "peerOk I p \<Longrightarrow> peerOk I (SetSyncedBlocks height p)"
  "peerOk I p \<Longrightarrow> peerOk I (SetPingNonce now nonce p)"
  "peerOk I p \<Longrightarrow> peerOk I (snd (HandlePong now nonce p))" "peerOk I p \<Longrightarrow> peerOk I (snd (AddBanScore delta p))"
  "peerOk I p \<Longrightarrow> peerOk I (snd (CheckRateLimit now p))" "peerOk I p \<Longrightarrow> peerOk I (snd (MarkGetAddrResponded p))"
  by (simp_all add: peerOk_def Close_def SetStartHeightIfGreater_def StampLastBlock_def StampLastTx_def SetSyncedHeaders_def
      SetSyncedBlocks_def SetPingNonce_def HandlePong_def AddBanScore_def CheckRateLimit_def MarkGetAddrResponded_def Let_def split: option.splits)

lemma addr_fields [simp]:
  "pe_addr (Close p) = pe_addr p" "pe_addr (SetStartHeightIfGreater height p) = pe_addr p"
  "pe_addr (StampLastBlock now p) = pe_addr p" "pe_addr (StampLastTx now p) = pe_addr p"
  "pe_addr (SetSyncedHeaders height p) = pe_addr p" "pe_addr (SetSyncedBlocks height p) = pe_addr p"
  "pe_addr (SetPingNonce now nonce p) = pe_addr p" "pe_addr (AddKnownInventory ord h p) = pe_addr p"
  "pe_addr (snd (HandlePong now nonce p)) = pe_addr p" "pe_addr (snd (AddBanScore delta p)) = pe_addr p"
  "pe_addr (snd (CheckRateLimit now p)) = pe_addr p" "pe_addr (snd (MarkGetAddrResponded p)) = pe_addr p"
  "pe_addr (SendMessage race cmd payload p) = pe_addr p" "pe_addr (SendLowPriority race cmd payload p) = pe_addr p"
  "pe_addr (snd (TrySendMessage race cmd payload p)) = pe_addr p" "pe_addr (NewPeer now addr input inbound magic) = addr"
  by (simp_all add: Close_def SetStartHeightIfGreater_def StampLastBlock_def StampLastTx_def SetSyncedHeaders_def
      SetSyncedBlocks_def SetPingNonce_def HandlePong_def AddBanScore_def CheckRateLimit_def MarkGetAddrResponded_def Let_def
      AddKnownInventory_def SendMessage_def SendLowPriority_def TrySendMessage_def NewPeer_def split: option.splits)

lemma writeNext_ok [simp]: "peerOk I p \<Longrightarrow> peerOk I (snd (writeNext sha io now p))" "pe_addr (snd (writeNext sha io now p)) = pe_addr p"
  by (auto simp: writeNext_def peerOk_def Close_def Let_def split: list.splits conn_io.splits)

text \<open>Reading: the reader moves on, and a payload is a stretch of the input.\<close>

lemma DecodeMessageHeader_suffix: "DecodeMessageHeader r = Inr (hdr, r') \<Longrightarrow> suffix r' r"
  by (auto simp: DecodeMessageHeader_def Let_def res_simps suffix_def split: if_splits)

lemma peerOk_reader:
  assumes "peerOk I p" "suffix r (pe_reader p)"
  shows "peerOk I (p\<lparr>pe_reader := r\<rparr>)" "peerOk I (p\<lparr>pe_reader := r, pe_bytesRecv := x, pe_lastRecv := y\<rparr>)"
proof -
  obtain input where i: "input \<in> I" "suffix (pe_reader p) input" using assms(1) by (auto simp: peerOk_def)
  then have "suffix r input" using assms(2) suffix_order.trans by blast
  then show "peerOk I (p\<lparr>pe_reader := r\<rparr>)" "peerOk I (p\<lparr>pe_reader := r, pe_bytesRecv := x, pe_lastRecv := y\<rparr>)"
    using assms(1) i(1) by (auto simp: peerOk_def)
qed

lemma ReadMessage_ok:
  assumes "peerOk I p" "ReadMessage sha now p = (r, p')"
  shows "peerOk I p'" "pe_addr p' = pe_addr p" "r = Inr (hdr, payload) \<Longrightarrow> \<exists>input\<in>I. sublist payload input"
proof -
  note ok = peerOk_reader [OF assms(1)]
  show "peerOk I p'"
  proof (cases "DecodeMessageHeader (pe_reader p)")
    case (Inl e)
    then show ?thesis using assms(2) ok(1) [OF suffix_drop] by (auto simp: ReadMessage_def)
  next
    case (Inr q)
    obtain hdr r' where q: "q = (hdr, r')" by fastforce
    have s: "suffix r' (pe_reader p)" using DecodeMessageHeader_suffix Inr q by blast
    have s': "suffix r'' (pe_reader p)" if "rd (unat (mh_Length hdr)) r' = Inr (payload, r'')" for payload r''
      using that s by (auto simp: res_simps suffix_def)
    show ?thesis
      using assms(2) Inr q ok(1) [OF s] ok(1) [of "[]"] ok [OF s']
      by (auto simp: ReadMessage_def split: sum.splits if_splits)
  qed
  show "pe_addr p' = pe_addr p"
    using assms(2) by (auto simp: ReadMessage_def split: sum.splits if_splits)
  assume r: "r = Inr (hdr, payload)"
  then obtain r1 r2 where "suffix r1 (pe_reader p)" "r1 = payload @ r2"
    using assms(2) by (auto simp: ReadMessage_def res_simps split: sum.splits if_splits dest!: DecodeMessageHeader_suffix)
  moreover obtain input where "input \<in> I" "suffix (pe_reader p) input" using assms(1) by (auto simp: peerOk_def)
  ultimately obtain zs where "input = zs @ payload @ r2" by (auto simp: suffix_def)
  then show "\<exists>input\<in>I. sublist payload input" using \<open>input \<in> I\<close> by (auto simp: sublist_def)
qed

section \<open>The manager\<close>

definition seenOk :: "boundedHashSet \<Rightarrow> bool" where
  "seenOk s \<longleftrightarrow> 0 < bs_cap s \<and> bs_items s \<subseteq> set (bs_order s)"

lemma seenOk_ops [simp]:
  "0 < cap \<Longrightarrow> seenOk (newBoundedHashSet cap)" "seenOk s \<Longrightarrow> seenOk (bs_Add h s)"
  "seenOk s \<Longrightarrow> seenOk (snd (bs_AddOrHas h s))" "seenOk s \<Longrightarrow> seenOk (bs_Remove h s)"
proof -
  have ins: "seenOk (insertBounded h s)" if "seenOk s" for h s
    using that by (cases "bs_order s") (auto simp: seenOk_def insertBounded_def Let_def)
  show "0 < cap \<Longrightarrow> seenOk (newBoundedHashSet cap)" "seenOk s \<Longrightarrow> seenOk (bs_Add h s)"
    "seenOk s \<Longrightarrow> seenOk (snd (bs_AddOrHas h s))" "seenOk s \<Longrightarrow> seenOk (bs_Remove h s)"
    using ins by (auto simp: newBoundedHashSet_def bs_Add_def bs_AddOrHas_def bs_Remove_def seenOk_def)
qed

text \<open>The index \<open>order[0]\<close> of an eviction exists.\<close>

lemma bs_order_nonempty: "seenOk s \<Longrightarrow> card (bs_items s) \<ge> bs_cap s \<Longrightarrow> bs_order s \<noteq> []"
  by (auto simp: seenOk_def)

definition netOk :: "bytes set \<Rightarrow> ('s, 'd) Manager \<Rightarrow> bool" where
  "netOk I m \<longleftrightarrow> (\<forall>a p. mg_peers m a = Some p \<longrightarrow> pe_addr p = a \<and> peerOk I p)
     \<and> seenOk (mg_seenBlocks m) \<and> seenOk (mg_seenTxs m) \<and> (\<forall>clk. mg_timeSampler m = Some clk \<longrightarrow> clockInv clk)"

text \<open>What most of the manager does: it leaves chain and pool alone and keeps the bounds.\<close>

definition netQuiet :: "bytes set \<Rightarrow> ('s, 'd) Manager \<Rightarrow> ('s, 'd) Manager \<Rightarrow> bool" where
  "netQuiet I m m' \<longleftrightarrow> netOk I m' \<and> mg_chain m' = mg_chain m \<and> mg_mempool m' = mg_mempool m \<and> mg_maxInbound m' = mg_maxInbound m"

lemma netQuiet_refl: "netOk I m \<Longrightarrow> netQuiet I m m"
  by (simp add: netQuiet_def)

lemma netQuiet_trans: "netQuiet I m m' \<Longrightarrow> netQuiet I m' m'' \<Longrightarrow> netQuiet I m m''"
  by (simp add: netQuiet_def)

lemma netQuiet_updPeer:
  assumes "netOk I m" "\<And>p. peerOk I p \<Longrightarrow> mg_peers m a = Some p \<Longrightarrow> peerOk I (f p) \<and> pe_addr (f p) = pe_addr p"
  shows "netQuiet I m (updPeer a f m)"
  using assms by (auto simp: netQuiet_def netOk_def updPeer_def)

lemma netQuiet_fold:
  assumes "netOk I m" "\<And>x m. x \<in> set xs \<Longrightarrow> netOk I m \<Longrightarrow> netQuiet I m (f x m)"
  shows "netQuiet I m (fold f xs m)"
  using assms
proof (induction xs arbitrary: m)
  case (Cons x xs)
  have q: "netQuiet I m (f x m)" using Cons.prems by simp
  have "netQuiet I (f x m) (fold f xs (f x m))" using Cons.IH [of "f x m"] Cons.prems q by (simp add: netQuiet_def)
  then show ?case using netQuiet_trans [OF q] by simp
qed (simp add: netQuiet_refl)

lemma netQuiet_netOk: "netQuiet I m m' \<Longrightarrow> netOk I m'"
  by (simp add: netQuiet_def)

text \<open>Updates of the other fields.\<close>

lemma netQuiet_fields [simp]:
  "netOk I m \<Longrightarrow> netQuiet I m (m\<lparr>mg_banned := x1\<rparr>)" "netOk I m \<Longrightarrow> netQuiet I m (m\<lparr>mg_store := x2\<rparr>)"
  "netOk I m \<Longrightarrow> netQuiet I m (m\<lparr>mg_bestPeerHeight := x3\<rparr>)" "netOk I m \<Longrightarrow> netQuiet I m (m\<lparr>mg_lastSyncReq := x4\<rparr>)"
  "netOk I m \<Longrightarrow> netQuiet I m (m\<lparr>mg_manualPeers := x5\<rparr>)"
  "netOk I m \<Longrightarrow> seenOk s \<Longrightarrow> netQuiet I m (m\<lparr>mg_seenBlocks := s\<rparr>)"
  "netOk I m \<Longrightarrow> seenOk s \<Longrightarrow> netQuiet I m (m\<lparr>mg_seenTxs := s\<rparr>)"
  "netOk I m \<Longrightarrow> netQuiet I m (m\<lparr>mg_backoff := x6, mg_backoffN := x7\<rparr>)"
  "netOk I m \<Longrightarrow> netQuiet I m (m\<lparr>mg_backoffN := x7, mg_backoff := x6\<rparr>)"
  by (auto simp: netQuiet_def netOk_def)

lemma netQuiet_sendTo [simp]: "netOk I m \<Longrightarrow> netQuiet I m (sendTo N a cmd payload m)"
  unfolding sendTo_def by (rule netQuiet_updPeer) auto

lemma netQuiet_knowsTo [simp]: "mapOrder (ne_invOrder N) \<Longrightarrow> netOk I m \<Longrightarrow> netQuiet I m (knowsTo N a h m)"
  unfolding knowsTo_def by (rule netQuiet_updPeer) (auto simp: peerOk_AddKnown)

lemma netQuiet_set [simp]:
  assumes "netOk I m" "mg_peers m a = Some p" "peerOk I p'" "pe_addr p' = a"
  shows "netQuiet I m (updPeer a (\<lambda>_. p') m)"
  using assms by (intro netQuiet_updPeer) (auto simp: netOk_def)

lemma netQuiet_addMisbehavior [simp]:
  assumes "netOk I m"
  shows "netQuiet I m (addMisbehavior now a score m)"
proof (cases "mg_peers m a")
  case (Some p)
  then have p: "peerOk I p" "pe_addr p = a" using assms by (auto simp: netOk_def)
  let ?p = "snd (AddBanScore score p)"
  have q: "netQuiet I m (updPeer a (\<lambda>_. ?p) m)" using assms p Some by (intro netQuiet_set) auto
  let ?b = "\<lambda>x. BanPeer now x (updPeer a (\<lambda>_. ?p) m)"
  have b: "netQuiet I (updPeer a (\<lambda>_. ?p) m) (?b x)" for x using netQuiet_netOk [OF q] by (simp add: BanPeer_def)
  have "netQuiet I (?b x) (updPeer a Close (?b x))" for x using netQuiet_netOk [OF b] by (intro netQuiet_updPeer) auto
  then have c: "netQuiet I m (updPeer a Close (?b x))" for x using netQuiet_trans q b by blast
  obtain sc p2 where p2: "AddBanScore score p = (sc, p2)" by fastforce
  show ?thesis using Some assms q c [of "pe_addr p2"]
    by (auto simp: addMisbehavior_def Let_def netQuiet_refl p2)
qed (simp add: addMisbehavior_def netQuiet_refl assms)

lemma netQuiet_IsBanned [simp]: "netOk I m \<Longrightarrow> netQuiet I m (snd (IsBanned now addr m))"
  by (auto simp: IsBanned_def Let_def netQuiet_refl split: option.splits)

lemma netQuiet_trySendFirst [simp]: "netOk I m \<Longrightarrow> netQuiet I m (trySendFirst N cmd payload as m)"
proof (induction as)
  case (Cons a as)
  show ?case
  proof (cases "mg_peers m a")
    case (Some p)
    then have p: "peerOk I p" "pe_addr p = a" using Cons.prems by (auto simp: netOk_def)
    have "netQuiet I m (updPeer a (\<lambda>_. snd (TrySendMessage (ne_race N a) cmd payload p)) m)"
      using Cons.prems p Some by (intro netQuiet_set) auto
    then show ?thesis using Some Cons by (auto split: prod.splits bool.splits)
  qed (simp add: Cons)
qed (simp add: netQuiet_refl)

lemma netQuiet_requestBlocks [simp]: "netOk I m \<Longrightarrow> netQuiet I m (requestBlocks N a m)"
proof -
  assume n: "netOk I m"
  have q: "netQuiet I m (m\<lparr>mg_lastSyncReq := ne_now N\<rparr>)" using n by simp
  show ?thesis
    using n q netQuiet_trans [OF q netQuiet_trySendFirst [OF netQuiet_netOk [OF q]]]
    by (auto simp: requestBlocks_def Let_def netQuiet_refl simp del: trySendFirst.simps split: option.splits)
qed

lemma netQuiet_pushLoop: "mapOrder (ne_invOrder N) \<Longrightarrow> netOk I m \<Longrightarrow> netQuiet I m (pushLoop N h bb ip i as m)"
proof (induction as arbitrary: i m)
  case (Cons a as)
  have k: "netQuiet I m (knowsTo N a h m)" using Cons.prems by simp
  then have s: "netQuiet I m (sendTo N a cmd payload (knowsTo N a h m))" for cmd payload
    using netQuiet_trans netQuiet_sendTo netQuiet_netOk by blast
  note t = netQuiet_trans [OF s Cons.IH [OF Cons.prems(1) netQuiet_netOk [OF s]]]
  show ?case by (simp add: Let_def t)
qed (simp add: netQuiet_refl)

lemma netQuiet_BroadcastBlock [simp]:
  assumes "mapOrder (ne_invOrder N)" "netOk I m"
  shows "netQuiet I m (BroadcastBlock N h block m)"
proof -
  have q: "netQuiet I m (m\<lparr>mg_seenBlocks := bs_Add h (mg_seenBlocks m)\<rparr>)"
    using assms(2) by (intro netQuiet_fields) (auto simp: netOk_def)
  show ?thesis unfolding BroadcastBlock_def Let_def
    by (rule netQuiet_trans [OF q netQuiet_pushLoop [OF assms(1) netQuiet_netOk [OF q]]])
qed

lemma netQuiet_BroadcastTx [simp]:
  assumes "mapOrder (ne_invOrder N)" "netOk I m"
  shows "netQuiet I m (BroadcastTx N h m)"
proof -
  have q: "netQuiet I m (m\<lparr>mg_seenTxs := bs_Add h (mg_seenTxs m)\<rparr>)"
    using assms(2) by (intro netQuiet_fields) (auto simp: netOk_def)
  have "netQuiet I m (sendTo N a cmd payload (knowsTo N a h m))" if "netOk I m" for m a cmd payload
    using netQuiet_trans netQuiet_sendTo netQuiet_knowsTo [OF assms(1) that] netQuiet_netOk by blast
  then show ?thesis unfolding BroadcastTx_def Let_def
    by (intro netQuiet_trans [OF q] netQuiet_fold netQuiet_netOk [OF q])
qed

section \<open>Handlers that only talk\<close>

lemma netQuiet_handleInv [simp]:
  assumes "mapOrder (ne_invOrder N)" "netOk I m"
  shows "netQuiet I m (handleInv N a invs m)"
proof -
  have q: "netQuiet I m (fold (\<lambda>iv. knowsTo N a (iv_Hash iv)) invs m)"
    using assms by (intro netQuiet_fold netQuiet_knowsTo)
  note t = netQuiet_trans [OF q netQuiet_sendTo [OF netQuiet_netOk [OF q]]]
  show ?thesis by (simp add: handleInv_def Let_def q t)
qed

lemma netQuiet_handleGetData [simp]: "netOk I m \<Longrightarrow> netQuiet I m (handleGetData N a invs m)"
  unfolding handleGetData_def
  by (rule netQuiet_fold) (auto simp: sendData_def netQuiet_refl split: sum.splits option.splits)

lemma netQuiet_getBlocksLoop:
  "mapOrder (ne_invOrder N) \<Longrightarrow> netOk I m \<Longrightarrow> netQuiet I m (getBlocksLoop N a hashStop tipHeight room h m)"
proof (induction room arbitrary: h m)
  case (Suc room)
  have k: "netQuiet I m (knowsTo N a x m)" for x using Suc.prems by simp
  have s: "netQuiet I m (sendTo N a cmd payload (knowsTo N a x m))" for x cmd payload
    using netQuiet_trans [OF k netQuiet_sendTo [OF netQuiet_netOk [OF k]]] .
  note t = netQuiet_trans [OF s Suc.IH [OF Suc.prems(1) netQuiet_netOk [OF s]]]
  show ?case using Suc.prems by (auto simp: netQuiet_refl Let_def s t split: sum.splits)
qed (simp add: netQuiet_refl)

lemma netQuiet_handleGetBlocks [simp]:
  "mapOrder (ne_invOrder N) \<Longrightarrow> netOk I m \<Longrightarrow> netQuiet I m (handleGetBlocks N a msg m)"
  by (simp add: handleGetBlocks_def Let_def netQuiet_getBlocksLoop)

lemma netQuiet_handleGetAddr [simp]:
  assumes "netOk I m"
  shows "netQuiet I m (handleGetAddr N a m)"
proof (cases "mg_peers m a")
  case (Some p)
  then have p: "peerOk I p" "pe_addr p = a" using assms by (auto simp: netOk_def)
  have q: "netQuiet I m (updPeer a (\<lambda>_. snd (MarkGetAddrResponded p)) m)"
    using assms p Some by (intro netQuiet_set) auto
  note t = netQuiet_trans [OF q netQuiet_sendTo [OF netQuiet_netOk [OF q]]]
  obtain ok p2 where p2: "MarkGetAddrResponded p = (ok, p2)" by fastforce
  show ?thesis using Some assms q
    by (auto simp: handleGetAddr_def Let_def netQuiet_refl p2 t [unfolded p2 snd_conv] split: bool.splits)
qed (simp add: handleGetAddr_def netQuiet_refl assms)

lemma netQuiet_putPeer [simp]: "netOk I m \<Longrightarrow> netQuiet I m (putPeer N addr m)"
  by (simp add: putPeer_def)

lemma netQuiet_learnAddr:
  assumes "netOk I m"
  shows "netQuiet I m (learnAddr N addr m)"
proof -
  have q: "netQuiet I m (snd (IsBanned (ne_now N) addr m))" using assms by simp
  note t = netQuiet_trans [OF q netQuiet_putPeer [OF netQuiet_netOk [OF q], of N]]
  show ?thesis using q t by (auto simp: learnAddr_def split: prod.splits)
qed

lemma netQuiet_handlePong [simp]:
  assumes "netOk I m"
  shows "netQuiet I m (handlePong N a nonce m)"
proof (cases "mg_peers m a")
  case (Some p)
  then have p: "peerOk I p" "pe_addr p = a" using assms by (auto simp: netOk_def)
  have q: "netQuiet I m (updPeer a (\<lambda>_. snd (HandlePong (ne_now N) nonce p)) m)"
    using assms p Some by (intro netQuiet_set) auto
  show ?thesis using Some assms q
    by (auto simp: handlePong_def split: prod.splits bool.splits)
qed (simp add: handlePong_def netQuiet_refl assms)

section \<open>The simulation\<close>

text \<open>A block that stands as a message payload somewhere in the bytes of a connection.\<close>

definition fromInput :: "bytes set \<Rightarrow> Block \<Rightarrow> bool" where
  "fromInput I b \<longleftrightarrow> (\<exists>input\<in>I. \<exists>payload r. sublist payload input \<and> Block_Deserialize payload = Inr (b, r))"

text \<open>
  One step of the manager: at most one block that came in over a connection is given to the chain, the
  pool goes through operations of its own, and the bounds hold again.
\<close>

definition nodeStep :: "('sg, 'pk, 'sk, 's) chain_env \<Rightarrow> bytes set \<Rightarrow> ('s, 'd) Manager \<Rightarrow> ('s, 'd) Manager \<Rightarrow> bool" where
  "nodeStep E I m m' \<longleftrightarrow> netOk I m' \<and> mg_maxInbound m' = mg_maxInbound m
     \<and> (\<exists>ds. length ds \<le> 1 \<and> (\<forall>d\<in>set ds. fromInput I (dl_block d)) \<and> mg_chain m' = deliverAll E ds (mg_chain m))
     \<and> (\<exists>ops. mg_mempool m' = fold (mempoolStep (en_lib E)) ops (mg_mempool m))"

lemma nodeStep_quiet: "netQuiet I m m' \<Longrightarrow> nodeStep E I m m'"
  unfolding netQuiet_def nodeStep_def by (metis deliverAll.simps(1) empty_iff fold_simps(1) le_zero_eq length_greater_0_conv list.set(1) list.size(3) nat_le_linear)

lemma nodeStep_then_quiet: "nodeStep E I m m' \<Longrightarrow> netQuiet I m' m'' \<Longrightarrow> nodeStep E I m m''"
  by (simp add: netQuiet_def nodeStep_def)

lemma quiet_then_nodeStep: "netQuiet I m m' \<Longrightarrow> nodeStep E I m' m'' \<Longrightarrow> nodeStep E I m m''"
  by (simp add: netQuiet_def nodeStep_def)

text \<open>What the pool goes through: the operations \<open>ops\<close>.\<close>

lemma nodeStepI:
  assumes "netOk I m'" "mg_maxInbound m' = mg_maxInbound m" "length ds \<le> 1" "\<And>d. d \<in> set ds \<Longrightarrow> fromInput I (dl_block d)"
    "mg_chain m' = deliverAll E ds (mg_chain m)" "mg_mempool m' = fold (mempoolStep (en_lib E)) ops (mg_mempool m)"
  shows "nodeStep E I m m'"
  using assms unfolding nodeStep_def by blast

lemma nodeStep_chain_pool:
  assumes "nodeStep E I m m'" "mp = fold (mempoolStep (en_lib E)) ops (mg_mempool m')"
  shows "nodeStep E I m (m'\<lparr>mg_mempool := mp\<rparr>)"
proof -
  obtain ds ops' where d: "length ds \<le> 1" "\<forall>d\<in>set ds. fromInput I (dl_block d)" "mg_chain m' = deliverAll E ds (mg_chain m)"
    "mg_mempool m' = fold (mempoolStep (en_lib E)) ops' (mg_mempool m)"
    using assms(1) by (auto simp: nodeStep_def)
  then have "mp = fold (mempoolStep (en_lib E)) (ops' @ ops) (mg_mempool m)" using assms(2) by simp
  then show ?thesis using assms(1) d by (intro nodeStepI [of _ _ _ ds _ "ops' @ ops"]) (auto simp: nodeStep_def netOk_def)
qed

lemma nodeStep_pool:
  assumes "netOk I m" "mp = fold (mempoolStep (en_lib E)) ops (mg_mempool m)"
  shows "nodeStep E I m (m\<lparr>mg_mempool := mp\<rparr>)"
  by (rule nodeStep_chain_pool [OF nodeStep_quiet [OF netQuiet_refl [OF assms(1)]] assms(2)])

lemma nodeStep_handleTx:
  assumes "mapOrder (ne_invOrder N)" "netOk I m"
  shows "nodeStep (ne_chain N) I m (handleTx N a tx m)"
proof -
  define h where "h = HashTransaction (ne_sha N) tx"
  define m1 where "m1 = knowsTo N a h m"
  define m2 where "m2 = m1\<lparr>mg_seenTxs := snd (bs_AddOrHas h (mg_seenTxs m1))\<rparr>"
  define mp where "mp = snd (AddTx (en_lib (ne_chain N)) (mg_mempool m1) tx)"
  have q1: "netQuiet I m m1" using assms by (simp add: m1_def)
  have q2: "netQuiet I m1 m2" using netQuiet_netOk [OF q1] unfolding m2_def by (intro netQuiet_fields) (auto simp: netOk_def)
  have q: "netQuiet I m m2" by (rule netQuiet_trans [OF q1 q2])
  have p: "nodeStep (ne_chain N) I m2 (m2\<lparr>mg_mempool := mp\<rparr>)"
    by (rule nodeStep_pool [OF netQuiet_netOk [OF q], of _ _ "[OpAdd tx]"]) (simp add: mp_def m2_def)
  then have n: "netOk I (m2\<lparr>mg_mempool := mp\<rparr>)" by (simp add: nodeStep_def)
  have u: "netQuiet I (m2\<lparr>mg_mempool := mp\<rparr>) (updPeer a (StampLastTx (ne_now N)) (m2\<lparr>mg_mempool := mp\<rparr>))"
    by (rule netQuiet_updPeer [OF n]) auto
  note b = netQuiet_trans [OF u netQuiet_BroadcastTx [OF assms(1) netQuiet_netOk [OF u], of h]]
  note P = quiet_then_nodeStep [OF q p]
  note B = nodeStep_then_quiet [OF P b]
  obtain seen2 where s: "bs_AddOrHas h (mg_seenTxs m1) = (False, seen2) \<or> bs_AddOrHas h (mg_seenTxs m1) = (True, seen2)"
    by (metis (full_types) prod.exhaust)
  obtain r mp2 where r: "AddTx (en_lib (ne_chain N)) (mg_mempool m1) tx = (r, mp2)" by fastforce
  show ?thesis
    using s
  proof
    assume s: "bs_AddOrHas h (mg_seenTxs m1) = (True, seen2)"
    then have "handleTx N a tx m = m1" by (simp add: handleTx_def Let_def h_def [symmetric] m1_def [symmetric])
    then show ?thesis using nodeStep_quiet [OF q1, of "ne_chain N"] by simp
  next
    assume s: "bs_AddOrHas h (mg_seenTxs m1) = (False, seen2)"
    then have e: "m1\<lparr>mg_seenTxs := seen2, mg_mempool := mp2\<rparr> = m2\<lparr>mg_mempool := mp2\<rparr>" by (simp add: m2_def)
    have "handleTx N a tx m = (case r of Inl _ \<Rightarrow> m2\<lparr>mg_mempool := mp\<rparr>
         | Inr _ \<Rightarrow> BroadcastTx N h (updPeer a (StampLastTx (ne_now N)) (m2\<lparr>mg_mempool := mp\<rparr>)))"
      using s r by (simp add: handleTx_def Let_def h_def [symmetric] m1_def [symmetric] mp_def e split: sum.splits)
    then show ?thesis using P B by (cases r) simp_all
  qed
qed

text \<open>A block is one delivery; the pool sees the new set, loses the confirmed transactions and moves its tip.\<close>

lemma nodeStep_chainStep:
  assumes "netOk I m" "fromInput I block" "chainStep N block m = (r, m')"
  shows "nodeStep (ne_chain N) I m m'"
proof -
  let ?d = "\<lparr>dl_clock = ne_clock N, dl_wall = ne_now N, dl_pick = ne_pick N, dl_block = block\<rparr>"
  obtain c where c: "ProcessBlock (ne_chain N) (ne_clock N) (ne_now N) (ne_pick N) block (mg_chain m) = (r, c)"
    using assms(3) by (auto simp: chainStep_def split: prod.splits)
  define s where "s = (case ne_staleSet N of None \<Rightarrow> ch_utxoSet c | Some s \<Rightarrow> s)"
  have m': "m' = m\<lparr>mg_chain := c, mg_mempool := (mg_mempool m)\<lparr>mp_utxoSet := s\<rparr>\<rparr>"
    using assms(3) c by (simp add: chainStep_def s_def)
  show ?thesis unfolding m'
    by (rule nodeStepI [of _ _ _ "[?d]" _ "[OpUtxo s]"]) (use assms(1,2) c in \<open>auto simp: netOk_def\<close>)
qed

lemma netQuiet_blockRejected:
  assumes "netOk I m"
  shows "netQuiet I m (blockRejected N a h e m)"
proof -
  have q: "netQuiet I m (m\<lparr>mg_seenBlocks := bs_Remove h (mg_seenBlocks m)\<rparr>)"
    using assms by (intro netQuiet_fields) (auto simp: netOk_def)
  note t = netQuiet_trans [OF q netQuiet_requestBlocks [OF netQuiet_netOk [OF q], of N]]
    netQuiet_trans [OF q netQuiet_addMisbehavior [OF netQuiet_netOk [OF q]]]
  show ?thesis using assms q by (simp add: blockRejected_def Let_def netQuiet_refl t)
qed

lemma netQuiet_blockAccepted:
  assumes "mapOrder (ne_invOrder N)" "netOk I m"
  shows "netQuiet I (m\<lparr>mg_mempool := SetTipHeight (RemoveTxs (mg_mempool m) (map (HashTransaction (ne_sha N)) (Transactions block))) height\<rparr>)
    (blockAccepted N a h block height m)"
proof -
  define m1 where "m1 = m\<lparr>mg_mempool := SetTipHeight (RemoveTxs (mg_mempool m) (map (HashTransaction (ne_sha N)) (Transactions block))) height\<rparr>"
  define m2 where "m2 = updPeer a (\<lambda>p. SetSyncedHeaders height (SetSyncedBlocks height
                (StampLastBlock (ne_now N) (SetStartHeightIfGreater height p)))) m1"
  define m3 where "m3 = (if height > mg_bestPeerHeight m2 then m2\<lparr>mg_bestPeerHeight := height\<rparr> else m2)"
  define m4 where "m4 = BroadcastBlock N h block m3"
  have n1: "netOk I m1" using assms(2) by (simp add: m1_def netOk_def)
  have q2: "netQuiet I m1 m2" unfolding m2_def by (rule netQuiet_updPeer [OF n1]) auto
  have q3: "netQuiet I m2 m3" using netQuiet_netOk [OF q2] by (simp add: m3_def netQuiet_refl)
  have q4: "netQuiet I m3 m4" using netQuiet_netOk [OF q3] assms(1) by (simp add: m4_def)
  have s4: "netQuiet I m1 m4" using netQuiet_trans [OF q2 netQuiet_trans [OF q3 q4]] .
  have e: "blockAccepted N a h block height m =
      (if (case mg_peers m4 a of None \<Rightarrow> 0 | Some p \<Rightarrow> BestHeight p) > height then requestBlocks N a m4 else m4)"
    unfolding blockAccepted_def Let_def m1_def [symmetric] m2_def [symmetric] m3_def [symmetric] m4_def [symmetric] ..
  show ?thesis unfolding e m1_def [symmetric]
    using s4 netQuiet_trans [OF s4 netQuiet_requestBlocks [OF netQuiet_netOk [OF q4], of N]] by simp
qed

lemma nodeStep_blockAccepted:
  assumes "mapOrder (ne_invOrder N)" "nodeStep (ne_chain N) I m0 m"
  shows "nodeStep (ne_chain N) I m0 (blockAccepted N a h block height m)"
proof -
  have n: "netOk I m" using assms(2) by (simp add: nodeStep_def)
  show ?thesis
    by (rule nodeStep_then_quiet [OF nodeStep_chain_pool [OF assms(2), where
          ops = "[OpRemoveAll (map (HashTransaction (ne_sha N)) (Transactions block)), OpSetTip height]"]
          netQuiet_blockAccepted [OF assms(1) n]]) simp
qed

lemma nodeStep_handleBlock:
  assumes "mapOrder (ne_invOrder N)" "netOk I m" "fromInput I block"
  shows "nodeStep (ne_chain N) I m (handleBlock N a block m)"
proof -
  define h where "h = HashBlockHeader (ne_sha N) (Header block)"
  define m1 where "m1 = knowsTo N a h m"
  obtain known seen where s: "bs_AddOrHas h (mg_seenBlocks m1) = (known, seen)" by fastforce
  have q1: "netQuiet I m m1" using assms by (simp add: m1_def)
  have "seenOk seen" using netQuiet_netOk [OF q1] s seenOk_ops(3) [of "mg_seenBlocks m1" h] by (simp add: netOk_def)
  then have q2: "netQuiet I m1 (m1\<lparr>mg_seenBlocks := seen\<rparr>)" using netQuiet_netOk [OF q1] by simp
  note q = netQuiet_trans [OF q1 q2]
  obtain height err m3 where c: "chainStep N block (m1\<lparr>mg_seenBlocks := seen\<rparr>) = ((height, err), m3)" by (metis prod.exhaust)
  have s3: "nodeStep (ne_chain N) I m m3"
    by (rule quiet_then_nodeStep [OF q nodeStep_chainStep [OF netQuiet_netOk [OF q] assms(3) c]])
  then have n3: "netOk I m3" by (simp add: nodeStep_def)
  have e: "handleBlock N a block m = (if known then m1 else case err of
      None \<Rightarrow> blockAccepted N a h block height m3 | Some e \<Rightarrow> blockRejected N a h e m3)"
    unfolding handleBlock_def Let_def h_def [symmetric] m1_def [symmetric] using s c by (simp split: option.splits bool.splits)
  show ?thesis unfolding e
    using nodeStep_quiet [OF q1, of "ne_chain N"] nodeStep_then_quiet [OF s3 netQuiet_blockRejected [OF n3, of N]] nodeStep_blockAccepted [OF assms(1) s3]
    by (simp split: option.splits)
qed

lemma nodeStep_if: "nodeStep E I m m1 \<Longrightarrow> nodeStep E I m m2 \<Longrightarrow> nodeStep E I m (if b then m1 else m2)"
  by simp

lemma nodeStep_decoded:
  assumes "nodeStep E I m bad" "\<And>x rest. r = Inr (x, rest) \<Longrightarrow> nodeStep E I m (good x)"
  shows "nodeStep E I m (decoded r bad good)"
  using assms by (auto simp: decoded_def split: sum.splits)

lemma nodeStep_handleMessage:
  assumes "mapOrder (ne_invOrder N)" "netOk I m" "\<exists>input\<in>I. sublist payload input"
  shows "nodeStep (ne_chain N) I m (handleMessage N a hdr payload m)"
proof -
  have "fromInput I b" if "Block_Deserialize payload = Inr (b, r)" for b r
    using assms(3) that unfolding fromInput_def by blast
  note blk = nodeStep_handleBlock [OF assms(1,2) this]
  note q = nodeStep_quiet [OF netQuiet_addMisbehavior [OF assms(2)]] nodeStep_quiet [OF netQuiet_sendTo [OF assms(2)]]
    nodeStep_quiet [OF netQuiet_handlePong [OF assms(2)]] nodeStep_quiet [OF netQuiet_handleInv [OF assms(1,2)]]
    nodeStep_quiet [OF netQuiet_handleGetData [OF assms(2)]] nodeStep_quiet [OF netQuiet_handleGetBlocks [OF assms(1,2)]]
    nodeStep_quiet [OF netQuiet_handleGetAddr [OF assms(2)]] nodeStep_quiet [OF netQuiet_fold [OF assms(2) netQuiet_learnAddr]]
    nodeStep_quiet [OF netQuiet_refl [OF assms(2)]]
  show ?thesis
    unfolding handleMessage_def Let_def
    by (intro nodeStep_if nodeStep_decoded q blk nodeStep_handleTx [OF assms(1,2)])
qed

end
