(* ===== verification/P2p_Run.thy ===== *)
theory P2p_Run
  imports P2p_Props
begin

text \<open>
  The peer manager as a whole: the handshake and the life of a peer keep the bounds, every event is a
  step of the simulation, and every run of events is a sequence of deliveries to the chain.
\<close>

section \<open>Handshake\<close>

lemma writeConn_ok:
  assumes "peerOk I p" "writeConn io hdr payload p = (ok, p')"
  shows "peerOk I p'" "pe_addr p' = pe_addr p"
  using assms by (auto simp: writeConn_def peerOk_def split: conn_io.splits)

lemma sendVersion_ok:
  assumes "peerOk I p" "sendVersion N io m p = (r, p')"
  shows "peerOk I p'" "pe_addr p' = pe_addr p"
  using assms by (auto simp: sendVersion_def Let_def split: prod.splits bool.splits dest: writeConn_ok)

lemma sendVerack_ok:
  assumes "peerOk I p" "sendVerack N io p = (r, p')"
  shows "peerOk I p'" "pe_addr p' = pe_addr p"
  using assms by (auto simp: sendVerack_def Let_def split: prod.splits bool.splits dest: writeConn_ok)

lemma readVerack_ok:
  assumes "peerOk I p" "readVerack N p = (r, p')"
  shows "peerOk I p'" "pe_addr p' = pe_addr p"
  using assms by (auto simp: readVerack_def split: prod.splits sum.splits if_splits dest: ReadMessage_ok(1,2))

lemma peerOk_version: "peerOk I (p\<lparr>pe_version := v\<rparr>) = peerOk I p"
  by (simp add: peerOk_def)

lemma netQuiet_sample: "netOk I m \<Longrightarrow> mg_timeSampler m = Some clk \<Longrightarrow> netQuiet I m (m\<lparr>mg_timeSampler := Some (AddSample clk a t now)\<rparr>)"
  by (auto simp: netQuiet_def netOk_def clockInv_AddSample)

lemma readAndProcessVersion_ok:
  assumes "peerOk I p" "netOk I m" "readAndProcessVersion N p m = (r, p', m')"
  shows "peerOk I p'" "pe_addr p' = pe_addr p" "netQuiet I m m'"
  using assms netQuiet_sample [OF assms(2)]
  by (auto simp: readAndProcessVersion_def Let_def peerOk_version netQuiet_refl
      split: prod.splits sum.splits if_splits option.splits dest: ReadMessage_ok(1,2))

lemma handshake_ok:
  assumes "peerOk I p" "netOk I m" "handshake N io io' p m = (r, p', m')"
  shows "peerOk I p'" "pe_addr p' = pe_addr p" "netQuiet I m m'"
proof -
  have out: "peerOk I p' \<and> pe_addr p' = pe_addr p \<and> netQuiet I m m'" if "handshakeOutbound N io io' p m = (r, p', m')"
  proof -
    obtain r1 p1 where 1: "sendVersion N io m p = (r1, p1)" by fastforce
    obtain r2 p2 m2 where 2: "readAndProcessVersion N p1 m = (r2, p2, m2)" by (metis prod.exhaust)
    obtain r3 p3 where 3: "readVerack N p2 = (r3, p3)" by fastforce
    obtain r4 p4 where 4: "sendVerack N io' p3 = (r4, p4)" by fastforce
    note a = sendVersion_ok [OF assms(1) 1]
    note b = readAndProcessVersion_ok [OF a(1) assms(2) 2]
    note c = readVerack_ok [OF b(1) 3]
    note d = sendVerack_ok [OF c(1) 4]
    show ?thesis using that 1 2 3 4 a b c d netQuiet_refl [OF assms(2)]
      by (auto simp: handshakeOutbound_def split: sum.splits)
  qed
  have inb: "peerOk I p' \<and> pe_addr p' = pe_addr p \<and> netQuiet I m m'" if "handshakeInbound N io io' p m = (r, p', m')"
  proof -
    obtain r1 p1 m1 where 1: "readAndProcessVersion N p m = (r1, p1, m1)" by (metis prod.exhaust)
    obtain r2 p2 where 2: "sendVersion N io m1 p1 = (r2, p2)" by fastforce
    obtain r3 p3 where 3: "sendVerack N io' p2 = (r3, p3)" by fastforce
    obtain r4 p4 where 4: "readVerack N p3 = (r4, p4)" by fastforce
    note a = readAndProcessVersion_ok [OF assms(1,2) 1]
    note b = sendVersion_ok [OF a(1) 2]
    note c = sendVerack_ok [OF b(1) 3]
    note d = readVerack_ok [OF c(1) 4]
    show ?thesis using that 1 2 3 4 a b c d
      by (auto simp: handshakeInbound_def split: sum.splits)
  qed
  show "peerOk I p'" "pe_addr p' = pe_addr p" "netQuiet I m m'"
    using assms(3) out inb by (auto simp: handshake_def split: if_splits)
qed

section \<open>The life of a peer\<close>

lemma netQuiet_disconnectPeer [simp]: "netOk I m \<Longrightarrow> netQuiet I m (disconnectPeer N a m)"
  by (auto simp: disconnectPeer_def Let_def netQuiet_def netOk_def)

lemma netQuiet_registerPeer: "netOk I m \<Longrightarrow> peerOk I p \<Longrightarrow> netQuiet I m (registerPeer p m)"
  by (auto simp: registerPeer_def Let_def netQuiet_def netOk_def peerOk_def)

lemma netQuiet_rememberPeer [simp]: "netOk I m \<Longrightarrow> netQuiet I m (rememberPeer N p m)"
  by (simp add: rememberPeer_def Let_def netQuiet_refl)

lemma netQuiet_startPeer:
  assumes "netOk I m" "peerOk I p"
  shows "netQuiet I m (startPeer N io io' p m)"
proof -
  obtain r p1 m1 where h: "handshake N io io' p m = (r, p1, m1)" by (metis prod.exhaust)
  note ok = handshake_ok [OF assms(2,1) h]
  note n1 = netQuiet_netOk [OF ok(3)]
  show ?thesis
  proof (cases r)
    case (Inl e)
    let ?m = "if \<not> pe_inbound p1 then recordConnectFailure (ne_now N) (pe_addr p1) m1 else m1"
    have "netQuiet I m1 ?m" using n1 by (simp add: recordConnectFailure_def Let_def netQuiet_refl)
    note q = netQuiet_trans [OF ok(3) this]
    have "startPeer N io io' p m = disconnectPeer N (pe_addr p1) ?m" by (simp add: startPeer_def h Inl)
    then show ?thesis using netQuiet_trans [OF q netQuiet_disconnectPeer [OF netQuiet_netOk [OF q], of N]] by simp
  next
    case (Inr u)
    define m2 where "m2 = rememberPeer N p1 (registerPeer p1 (recordConnectSuccess (pe_addr p1) m1))"
    define m3 where "m3 = sendTo N (pe_addr p1) CmdGetAddr [] m2"
    have a: "netQuiet I m1 (recordConnectSuccess (pe_addr p1) m1)" using n1 by (simp add: recordConnectSuccess_def)
    have b: "netQuiet I (recordConnectSuccess (pe_addr p1) m1) (registerPeer p1 (recordConnectSuccess (pe_addr p1) m1))"
      by (rule netQuiet_registerPeer [OF netQuiet_netOk [OF a] ok(1)])
    have c: "netQuiet I m1 m2" unfolding m2_def
      using netQuiet_trans [OF a netQuiet_trans [OF b netQuiet_rememberPeer [OF netQuiet_netOk [OF b]]]] .
    have d: "netQuiet I m m3" unfolding m3_def
      using netQuiet_trans [OF ok(3) netQuiet_trans [OF c netQuiet_sendTo [OF netQuiet_netOk [OF c]]]] .
    have "startPeer N io io' p m = (if BestHeight p1 > snd (Tip (mg_chain m3)) then requestBlocks N (pe_addr p1) m3 else m3)"
      by (simp add: startPeer_def h Inr Let_def m2_def m3_def)
    then show ?thesis using d netQuiet_trans [OF d netQuiet_requestBlocks [OF netQuiet_netOk [OF d], of N]] by simp
  qed
qed

lemma nodeStep_readStep:
  assumes "mapOrder (ne_invOrder N)" "netOk I m"
  shows "nodeStep (ne_chain N) I m (readStep N a m)"
proof (cases "mg_peers m a")
  case (Some p)
  then have p: "peerOk I p" "pe_addr p = a" using assms(2) by (auto simp: netOk_def)
  have gone: "nodeStep (ne_chain N) I m (disconnectPeer N a m')" if "netQuiet I m m'" for m'
    using that netQuiet_trans netQuiet_disconnectPeer netQuiet_netOk nodeStep_quiet by blast
  obtain r p1 where rm: "ReadMessage (ne_sha N) (ne_now N) p = (r, p1)" by fastforce
  note ok = ReadMessage_ok [OF p(1) rm]
  have put: "netQuiet I m (updPeer a (\<lambda>_. p') m)" if "peerOk I p'" "pe_addr p' = pe_addr p1" for p'
    using that p ok assms(2) Some by (intro netQuiet_set) auto
  show ?thesis
  proof (cases "pe_done p")
    case True
    then show ?thesis using Some gone [OF netQuiet_refl [OF assms(2)]] by (simp add: readStep_def)
  next
    case live: False
    show ?thesis
    proof (cases r)
      case (Inl e)
      then show ?thesis using Some live rm gone [OF put [OF ok(1)]] by (simp add: readStep_def)
    next
      case (Inr hp)
      obtain hdr payload where hp: "hp = (hdr, payload)" by fastforce
      have sub: "\<exists>input\<in>I. sublist payload input" using ok(3) Inr hp by blast
      obtain within p2 where cr: "CheckRateLimit (ne_now N) p1 = (within, p2)" by fastforce
      have p2: "peerOk I p2" "pe_addr p2 = pe_addr p1"
        using peerOk_fields(10) [OF ok(1), of "ne_now N"] addr_fields(11) [of "ne_now N" p1] cr by simp_all
      define m1 where "m1 = updPeer a (\<lambda>_. p2) m"
      define m2 where "m2 = addMisbehavior (ne_now N) a 10 m1"
      have q1: "netQuiet I m m1" unfolding m1_def by (rule put [OF p2])
      have q2: "netQuiet I m m2" unfolding m2_def
        by (rule netQuiet_trans [OF q1 netQuiet_addMisbehavior [OF netQuiet_netOk [OF q1]]])
      have msg: "nodeStep (ne_chain N) I m (handleMessage N a hdr payload m')" if "netQuiet I m m'" for m'
        by (rule quiet_then_nodeStep [OF that nodeStep_handleMessage [OF assms(1) netQuiet_netOk [OF that] sub]])
      have "readStep N a m = (if within then handleMessage N a hdr payload m1
          else if (case mg_peers m2 a of None \<Rightarrow> 0 | Some p \<Rightarrow> BanScore p) \<ge> BanThreshold then disconnectPeer N a m2
          else handleMessage N a hdr payload m2)"
        using Some live rm Inr hp cr by (simp add: readStep_def Let_def m1_def m2_def split: bool.splits)
      then show ?thesis using msg [OF q1] msg [OF q2] gone [OF q2] by simp
    qed
  qed
qed (simp add: readStep_def nodeStep_quiet netQuiet_refl assms)

lemma netQuiet_writeStep: "netOk I m \<Longrightarrow> netQuiet I m (writeStep N io a m)"
  unfolding writeStep_def by (rule netQuiet_updPeer) auto

section \<open>Connections and periodic work\<close>

lemma netQuiet_Close: "netOk I m \<Longrightarrow> netQuiet I m (updPeer a Close m)"
  by (rule netQuiet_updPeer) auto

text \<open>Eviction finds a victim as soon as the limit on inbound peers is positive.\<close>

lemma maybeEvictInbound_ok:
  assumes "netOk I m" "0 < mg_maxInbound m"
  shows "\<exists>m'. maybeEvictInbound N m = Some m' \<and> netQuiet I m m'"
proof -
  let ?inbound = "filter pe_inbound (rangePeers N m)"
  let ?sorted = "sortSlice (\<lambda>p q. pe_pingLatency p > pe_pingLatency q) ?inbound"
  have "?sorted = [] \<Longrightarrow> ?inbound = []" using mset_sortSlice by (metis mset_zero_iff)
  then show ?thesis using assms
    by (cases ?sorted) (auto simp: maybeEvictInbound_def Let_def netQuiet_refl netQuiet_Close)
qed

lemma acceptConn_ok:
  assumes "netOk I m" "0 < mg_maxInbound m" "input \<in> I"
  shows "\<exists>p m'. acceptConn N addr input m = Some (p, m') \<and> netQuiet I m m' \<and> (\<forall>q. p = Some q \<longrightarrow> peerOk I q)"
proof -
  obtain b m1 where b: "IsBanned (ne_now N) addr m = (b, m1)" by fastforce
  have q: "netQuiet I m m1" using netQuiet_IsBanned [OF assms(1), of "ne_now N" addr] b by simp
  obtain m2 where m2: "maybeEvictInbound N m1 = Some m2" "netQuiet I m1 m2"
    using maybeEvictInbound_ok [OF netQuiet_netOk [OF q], of N] q assms(2) by (auto simp: netQuiet_def)
  show ?thesis using b q m2 netQuiet_trans [OF q m2(2)] peerOk_NewPeer [OF assms(3)]
    by (cases b) (auto simp: acceptConn_def Let_def)
qed

lemma connectPeer_ok:
  assumes "netOk I m" "\<And>input. dial addr = Some input \<Longrightarrow> input \<in> I" "connectPeer N dial addr m = (p, m')"
  shows "netQuiet I m m'" "p = Some q \<Longrightarrow> peerOk I q"
proof -
  obtain b m1 where b: "IsBanned (ne_now N) addr m = (b, m1)" by fastforce
  have q: "netQuiet I m m1" using netQuiet_IsBanned [OF assms(1), of "ne_now N" addr] b by simp
  have f: "netQuiet I m1 (recordConnectFailure (ne_now N) addr m1)"
    using netQuiet_netOk [OF q] by (simp add: recordConnectFailure_def Let_def)
  show "netQuiet I m m'"
    using assms(1,3) b q netQuiet_trans [OF q f]
    by (auto simp: connectPeer_def netQuiet_refl split: if_splits bool.splits option.splits)
  show "p = Some q \<Longrightarrow> peerOk I q"
    using assms(2,3) b by (auto simp: connectPeer_def peerOk_NewPeer split: if_splits bool.splits option.splits)
qed

lemma netQuiet_pingLoop: "netOk I m \<Longrightarrow> netQuiet I m (pingLoop N nonce i as m)"
proof (induction as arbitrary: i m)
  case (Cons a as)
  have u: "netQuiet I m (updPeer a (SetPingNonce (ne_now N) x) m)" for x by (rule netQuiet_updPeer [OF Cons.prems]) auto
  note s = netQuiet_trans [OF u netQuiet_sendTo [OF netQuiet_netOk [OF u]]]
  show ?case using netQuiet_trans [OF s Cons.IH [OF netQuiet_netOk [OF s]]] by simp
qed (simp add: netQuiet_refl)

lemma netQuiet_livenessTick: 
  assumes "netOk I m"
  shows "netQuiet I m (livenessTick N m)"
proof -
  have q: "netQuiet I m (fold (\<lambda>p. if PongOverdue (ne_now N) p then updPeer (pe_addr p) Close else id) (rangePeers N m) m)"
    using assms by (intro netQuiet_fold) (auto simp: netQuiet_Close netQuiet_refl)
  show ?thesis unfolding livenessTick_def Let_def
    by (rule netQuiet_trans [OF q netQuiet_fields(1) [OF netQuiet_netOk [OF q]]])
qed

lemma netQuiet_addrTick: "netOk I m \<Longrightarrow> netQuiet I m (addrTick N m)"
  by (auto simp: addrTick_def Let_def netQuiet_refl intro!: netQuiet_fold netQuiet_updPeer)

lemma netQuiet_syncTick: "netOk I m \<Longrightarrow> netQuiet I m (syncTick N m)"
  by (auto simp: syncTick_def netQuiet_refl split: prod.splits option.splits)

lemma netQuiet_AddNode:
  assumes "netOk I m"
  shows "netQuiet I m (snd (AddNode N addr m))"
proof -
  obtain b m1 where b: "IsBanned (ne_now N) addr m = (b, m1)" by fastforce
  have q: "netQuiet I m m1" using netQuiet_IsBanned [OF assms, of "ne_now N" addr] b by simp
  show ?thesis using b q netQuiet_trans [OF q netQuiet_fields(5) [OF netQuiet_netOk [OF q]]]
    by (auto simp: AddNode_def split: bool.splits)
qed

section \<open>Every event is a step of the simulation\<close>

fun inputOf :: "net_event \<Rightarrow> bytes set" where
  "inputOf (AcceptEv addr input io io') = {input}"
| "inputOf (DialEv addr (Some input) io io') = {input}"
| "inputOf ev = {}"

lemma netStep_simulated:
  assumes "mapOrder (ne_invOrder N)" "netOk I m" "0 < mg_maxInbound m" "inputOf ev \<subseteq> I"
  shows "\<exists>m'. netStep N ev m = Some m' \<and> nodeStep (ne_chain N) I m m'"
proof (cases ev)
  case (AcceptEv addr input io io')
  then obtain p m1 where p: "acceptConn N addr input m = Some (p, m1)" "netQuiet I m m1" "\<forall>q. p = Some q \<longrightarrow> peerOk I q"
    using acceptConn_ok [OF assms(2,3), of input N addr] assms(4) by auto
  have "netQuiet I m (case p of None \<Rightarrow> m1 | Some p \<Rightarrow> startPeer N io io' p m1)"
    using p netQuiet_trans [OF p(2) netQuiet_startPeer [OF netQuiet_netOk [OF p(2)], of _ N]] by (auto split: option.splits)
  then show ?thesis using AcceptEv p(1) nodeStep_quiet by auto
next
  case (DialEv addr dial io io')
  obtain p m1 where p: "connectPeer N (\<lambda>_. dial) addr m = (p, m1)" by fastforce
  have "input \<in> I" if "dial = Some input" for input using that assms(4) DialEv by simp
  note ok = connectPeer_ok [OF assms(2) this p]
  have "netQuiet I m (case p of None \<Rightarrow> m1 | Some p \<Rightarrow> startPeer N io io' p m1)"
    using ok netQuiet_trans [OF ok(1) netQuiet_startPeer [OF netQuiet_netOk [OF ok(1)], of _ N]] by (auto split: option.splits)
  then show ?thesis using DialEv p nodeStep_quiet by auto
next
  case (DropNodeEv addr)
  have "netQuiet I m (snd (DisconnectNode addr m))" using assms(2) by (simp add: DisconnectNode_def netQuiet_refl netQuiet_Close)
  then show ?thesis using DropNodeEv nodeStep_quiet by simp
qed (simp_all add: nodeStep_readStep [OF assms(1,2)] nodeStep_quiet netQuiet_writeStep netQuiet_disconnectPeer pingTick_def
      netQuiet_pingLoop netQuiet_livenessTick netQuiet_addrTick netQuiet_syncTick netQuiet_AddNode assms(2))

section \<open>Runs\<close>

text \<open>
  The contract of anything that drives a node: each of its steps succeeds, gives at most one received
  block to the chain, and otherwise changes the pool by operations of the pool only. Then every run
  is a sequence of deliveries of received blocks.
\<close>

primrec runSteps :: "('e \<Rightarrow> 'm \<Rightarrow> 'm option) \<Rightarrow> 'e list \<Rightarrow> 'm \<Rightarrow> 'm option" where
  "runSteps step [] m = Some m"
| "runSteps step (e # es) m = Option.bind (step e m) (runSteps step es)"

lemma netRun_runSteps: "netRun evs m = runSteps (\<lambda>(N, ev). netStep N ev) evs m"
  by (induction evs arbitrary: m) (auto split: Option.bind_splits)

lemma deliverAll_app: "deliverAll E (ds @ ds') c = deliverAll E ds' (deliverAll E ds c)"
  by (induction ds arbitrary: c) simp_all

locale node_driver =
  fixes step :: "'e \<Rightarrow> 'm \<Rightarrow> 'm option" and chainOf :: "'m \<Rightarrow> 's Chain" and poolOf :: "'m \<Rightarrow> Mempool"
    and inv :: "'m \<Rightarrow> bool" and ok :: "'e \<Rightarrow> bool" and E :: "('sg, 'pk, 'sk, 's) chain_env" and received :: "Block \<Rightarrow> bool"
  assumes step_total: "inv m \<Longrightarrow> ok e \<Longrightarrow> \<exists>m'. step e m = Some m'"
    and step_inv: "inv m \<Longrightarrow> ok e \<Longrightarrow> step e m = Some m' \<Longrightarrow> inv m'"
    and step_chain: "inv m \<Longrightarrow> ok e \<Longrightarrow> step e m = Some m' \<Longrightarrow>
      \<exists>ds. length ds \<le> 1 \<and> (\<forall>d\<in>set ds. received (dl_block d)) \<and> chainOf m' = deliverAll E ds (chainOf m)"
    and step_pool: "inv m \<Longrightarrow> ok e \<Longrightarrow> step e m = Some m' \<Longrightarrow> \<exists>ops. poolOf m' = fold (mempoolStep (en_lib E)) ops (poolOf m)"
begin

lemma run_total: "inv m \<Longrightarrow> list_all ok es \<Longrightarrow> \<exists>m'. runSteps step es m = Some m' \<and> inv m'"
proof (induction es arbitrary: m)
  case (Cons e es)
  obtain m1 where "step e m = Some m1" "inv m1" using step_total step_inv Cons.prems by fastforce
  then show ?case using Cons by simp
qed simp

lemma run_chain:
  "inv m \<Longrightarrow> list_all ok es \<Longrightarrow> runSteps step es m = Some m' \<Longrightarrow>
    \<exists>ds. length ds \<le> length es \<and> (\<forall>d\<in>set ds. received (dl_block d)) \<and> chainOf m' = deliverAll E ds (chainOf m)"
proof (induction es arbitrary: m)
  case Nil
  then show ?case by (intro exI [of _ "[]"]) simp
next
  case (Cons e es)
  have ok: "ok e" using Cons.prems by simp
  obtain m1 where m1: "step e m = Some m1" "inv m1" using step_total step_inv Cons.prems(1) ok by blast
  obtain ds1 where d1: "length ds1 \<le> 1" "\<forall>d\<in>set ds1. received (dl_block d)" "chainOf m1 = deliverAll E ds1 (chainOf m)"
    using step_chain [OF Cons.prems(1) ok m1(1)] by blast
  obtain ds2 where d2: "length ds2 \<le> length es" "\<forall>d\<in>set ds2. received (dl_block d)" "chainOf m' = deliverAll E ds2 (chainOf m1)"
    using Cons.IH [OF m1(2)] Cons.prems m1(1) by auto
  show ?case using d1 d2 by (intro exI [of _ "ds1 @ ds2"]) (auto simp: deliverAll_app)
qed

lemma run_pool:
  "inv m \<Longrightarrow> list_all ok es \<Longrightarrow> runSteps step es m = Some m' \<Longrightarrow> \<exists>ops. poolOf m' = fold (mempoolStep (en_lib E)) ops (poolOf m)"
proof (induction es arbitrary: m)
  case Nil
  then show ?case by (intro exI [of _ "[]"]) simp
next
  case (Cons e es)
  have ok: "ok e" using Cons.prems by simp
  obtain m1 where m1: "step e m = Some m1" "inv m1" using step_total step_inv Cons.prems(1) ok by blast
  obtain ops1 where "poolOf m1 = fold (mempoolStep (en_lib E)) ops1 (poolOf m)" using step_pool [OF Cons.prems(1) ok m1(1)] by blast
  moreover obtain ops2 where "poolOf m' = fold (mempoolStep (en_lib E)) ops2 (poolOf m1)" using Cons.IH [OF m1(2)] Cons.prems m1(1) by auto
  ultimately show ?case by (intro exI [of _ "ops1 @ ops2"]) simp
qed

end

text \<open>The peer manager is such a driver, over the bytes \<open>I\<close> of its connections.\<close>

definition eventOk :: "('sg, 'pk, 'sk, 's) chain_env \<Rightarrow> bytes set \<Rightarrow> ('sg, 'pk, 'sk, 's, 'd) net_env \<times> net_event \<Rightarrow> bool" where
  "eventOk E I e \<longleftrightarrow> ne_chain (fst e) = E \<and> mapOrder (ne_invOrder (fst e)) \<and> inputOf (snd e) \<subseteq> I"

interpretation net: node_driver "\<lambda>(N, ev). netStep N ev" mg_chain mg_mempool "\<lambda>m. netOk I m \<and> 0 < mg_maxInbound m"
  "eventOk E I" E "fromInput I"
  for I :: "bytes set" and E :: "('sg, 'pk, 'sk, 's) chain_env"
proof
  fix m :: "('s, 'd) Manager" and e :: "('sg, 'pk, 'sk, 's, 'd) net_env \<times> net_event" and m'
  assume m: "netOk I m \<and> 0 < mg_maxInbound m" and e: "eventOk E I e"
  obtain N ev where ne: "e = (N, ev)" by fastforce
  have s: "\<exists>m'. netStep N ev m = Some m' \<and> nodeStep E I m m'"
    using netStep_simulated [of N I m ev] m e by (auto simp: eventOk_def ne)
  then show "\<exists>m'. (case e of (N, ev) \<Rightarrow> netStep N ev) m = Some m'" by (auto simp: ne)
  assume "(case e of (N, ev) \<Rightarrow> netStep N ev) m = Some m'"
  then have n: "nodeStep E I m m'" using s by (simp add: ne)
  then show "netOk I m' \<and> 0 < mg_maxInbound m'" using m by (simp add: nodeStep_def)
  show "\<exists>ds. length ds \<le> 1 \<and> (\<forall>d\<in>set ds. fromInput I (dl_block d)) \<and> mg_chain m' = deliverAll E ds (mg_chain m)"
    "\<exists>ops. mg_mempool m' = fold (mempoolStep (en_lib E)) ops (mg_mempool m)"
    using n by (simp_all add: nodeStep_def)
qed

end
