(* ===== verification/Wallet_Tx.thy ===== *)
theory Wallet_Tx
  imports Wallet Consensus_Props Utxo_Props
begin

text \<open>
  Building a payment (\<open>internal/wallet/txbuilder.go\<close>): selection of the largest coins, the fee by
  estimated size, the change output and the signatures. \<open>sort.Slice\<close> is not stable, so that the
  order of coins of equal value is open: the sorting is an argument, of which the theorems assume
  that it permutes its input and sorts it by descending value.
\<close>

definition estimatedInputSize :: nat where "estimatedInputSize = 148"
definition estimatedOutputSize :: nat where "estimatedOutputSize = 34"
definition txOverhead :: nat where "txOverhead = 10"
definition DustThreshold :: u64 where "DustThreshold = 546"

record SendRequest =
  sr_ToAddress :: bytes
  sr_Amount :: u64

datatype build_error =
    BuildLocked wallet_error
  | AmountZero
  | InvalidDestination base58_error
  | AddressVersionMismatch byte byte
  | NoSpendable
  | InsufficientFunds u64 u64
  | InsufficientForFee u64 u64 u64
  | DeriveChangeFailed wallet_error
  | DecodeChangeFailed base58_error
  | NoPrivateKey nat bytes
  | SignInputFailed nat key_error

definition estimatedSize :: "nat \<Rightarrow> nat \<Rightarrow> nat" where
  "estimatedSize numInputs numOutputs = txOverhead + numInputs * estimatedInputSize + numOutputs * estimatedOutputSize"

definition EstimateFee :: "nat \<Rightarrow> nat \<Rightarrow> u64 \<Rightarrow> u64" where
  "EstimateFee numInputs numOutputs feePerByte = of_nat (estimatedSize numInputs numOutputs) * feePerByte"

text \<open>The fee with the floor of one unit that the three computations apply.\<close>

definition atLeastOne :: "u64 \<Rightarrow> u64" where
  "atLeastOne fee = (if fee < 1 then 1 else fee)"

fun selectLoop :: "UnspentOutput list \<Rightarrow> u64 \<Rightarrow> u64 \<Rightarrow> UnspentOutput list \<Rightarrow> u64 \<Rightarrow> (build_error, UnspentOutput list \<times> u64) res" where
  "selectLoop [] targetAmount feePerByte selected totalIn = Inl (InsufficientFunds targetAmount totalIn)"
| "selectLoop (utxo # utxos) targetAmount feePerByte selected totalIn =
     (let selected = selected @ [utxo];
          totalIn = totalIn + uo_Value utxo;
          fee = atLeastOne (EstimateFee (length selected) 2 feePerByte) in
      if totalIn \<ge> targetAmount + fee then Inr (selected, totalIn)
      else selectLoop utxos targetAmount feePerByte selected totalIn)"

definition selectCoins :: "UnspentOutput list \<Rightarrow> u64 \<Rightarrow> u64 \<Rightarrow> (build_error, UnspentOutput list \<times> u64) res" where
  "selectCoins utxos targetAmount feePerByte = selectLoop utxos targetAmount feePerByte [] 0"

definition coinSpendable :: "u32 \<Rightarrow> u32 \<Rightarrow> UnspentOutput \<Rightarrow> bool" where
  "coinSpendable coinbaseMaturity tipHeight u \<longleftrightarrow>
     (let confs = confirmations tipHeight (uo_Height u) in
      \<not> confs < 1 \<and> \<not> (uo_IsCoinbase u \<and> confs < coinbaseMaturity))"

definition filterSpendable :: "UnspentOutput list \<Rightarrow> u32 \<Rightarrow> u32 \<Rightarrow> UnspentOutput list" where
  "filterSpendable utxos coinbaseMaturity tipHeight = filter (coinSpendable coinbaseMaturity tipHeight) utxos"

definition unsignedInput :: "UnspentOutput \<Rightarrow> TxInput" where
  "unsignedInput u = \<lparr>PreviousOutPoint = \<lparr>op_Hash = uo_TxHash u, op_Index = uo_Index u\<rparr>, SignatureScript = [], Sequence = 0xFFFFFFFF\<rparr>"

text \<open>The outputs: the payment, and the change when it is above the dust threshold with the fee for one output and still with the fee for two.\<close>

definition changeOutputs :: "('sg, 'pk, 'sk, 'xk) wallet_lib \<Rightarrow> nat \<Rightarrow> u64 \<Rightarrow> u64 \<Rightarrow> u64 \<Rightarrow> u64 \<Rightarrow> ('xk, 'sk) HDWallet
    \<Rightarrow> (build_error, TxOutput list) res \<times> ('xk, 'sk) HDWallet" where
  "changeOutputs L numInputs totalIn amount feePerByte change w =
     (if change > DustThreshold then
        (case GetChangeAddress L w of
           (Inl e, w) \<Rightarrow> (Inl (DeriveChangeFailed e), w)
         | (Inr changeAddr, w) \<Rightarrow>
             (case AddressToPubKeyHash (wl_sha L) changeAddr of
                Inl e \<Rightarrow> (Inl (DecodeChangeFailed e), w)
              | Inr (_, changePKH) \<Rightarrow>
                  let fee = atLeastOne (EstimateFee numInputs 2 feePerByte);
                      newChange = totalIn - amount - fee in
                  (Inr (if newChange > DustThreshold then [\<lparr>Value = newChange, PkScript = MakeP2PKHScript changePKH\<rparr>] else []), w)))
      else (Inr [], w))"

fun signInputs :: "('sg, 'pk, 'sk, 'xk) wallet_lib \<Rightarrow> ('xk, 'sk) HDWallet \<Rightarrow> UnspentOutput list \<Rightarrow> nat \<Rightarrow> Transaction \<Rightarrow> (build_error, Transaction) res" where
  "signInputs L w [] i tx = Inr tx"
| "signInputs L w (utxo # utxos) i tx =
     (case KeyForScript w (uo_PkScript utxo) of
        None \<Rightarrow> Inl (NoPrivateKey i (uo_Address utxo))
      | Some dk \<Rightarrow>
          (case SignInput (wl_crypto L) tx (int i) (uo_PkScript utxo) (dk_PrivKey dk) of
             Inl e \<Rightarrow> Inl (SignInputFailed i e)
           | Inr sigScript \<Rightarrow> signInputs L w utxos (Suc i) (setSigScript tx i sigScript)))"

definition BuildTransaction :: "('sg, 'pk, 'sk, 'xk) wallet_lib \<Rightarrow> (UnspentOutput list \<Rightarrow> UnspentOutput list) \<Rightarrow> int \<Rightarrow> SendRequest \<Rightarrow> u64
    \<Rightarrow> UnspentOutput list \<Rightarrow> u32 \<Rightarrow> u32 \<Rightarrow> ('xk, 'sk) HDWallet \<Rightarrow> (build_error, Transaction) res \<times> ('xk, 'sk) HDWallet" where
  "BuildTransaction L sortByValue now req feePerByte utxos coinbaseMaturity tipHeight w =
     (case RequireUnlocked now w of
        (Inl e, w) \<Rightarrow> (Inl (BuildLocked e), w)
      | (Inr _, w) \<Rightarrow>
          if sr_Amount req = 0 then (Inl AmountZero, w)
          else case AddressToPubKeyHash (wl_sha L) (sr_ToAddress req) of
            Inl e \<Rightarrow> (Inl (InvalidDestination e), w)
          | Inr (addrVer, destPKH) \<Rightarrow>
              if addrVer \<noteq> w_addrVersion w then (Inl (AddressVersionMismatch addrVer (w_addrVersion w)), w)
              else
                let coins = filterSpendable utxos coinbaseMaturity tipHeight in
                if length coins = 0 then (Inl NoSpendable, w)
                else
                  bindS (selectCoins (sortByValue coins) (sr_Amount req) feePerByte, w) (\<lambda>(selectedInputs, totalIn) w.
                  let fee = atLeastOne (EstimateFee (length selectedInputs) 1 feePerByte);
                      remaining = totalIn - sr_Amount req in
                  if remaining < fee then (Inl (InsufficientForFee (sr_Amount req) fee totalIn), w)
                  else
                    bindS (changeOutputs L (length selectedInputs) totalIn (sr_Amount req) feePerByte (remaining - fee) w) (\<lambda>changeOuts w.
                      (signInputs L w selectedInputs 0
                         \<lparr>tx_Version = 1, Inputs = map unsignedInput selectedInputs,
                          Outputs = \<lparr>Value = sr_Amount req, PkScript = MakeP2PKHScript destPKH\<rparr> # changeOuts,
                          LockTime = tipHeight\<rparr>, w))))"

end
