(* ===== verification/Wallet_Props.thy ===== *)
theory Wallet_Props
  imports Wallet_Tx
begin

text \<open>
  The wallet's keys and payments: every operation keeps the key tables in order, a payment built
  over the chain's set of unspent outputs is one that the mempool's validation accepts, and an
  encrypted wallet is recovered by its passphrase.
\<close>

section \<open>The key tables\<close>

definition keyOk :: "('sg, 'pk, 'sk, 'xk) wallet_lib \<Rightarrow> 'sk DerivedKey \<Rightarrow> bool" where
  "keyOk L dk \<longleftrightarrow> dk_PubKey dk = SerializeCompressed (wl_crypto L) (privPubKey (wl_crypto L) (dk_PrivKey dk))
     \<and> dk_PubKeyHash dk = PubKeyHash (wl_crypto L) (dk_PubKey dk)"

definition walletInv :: "('sg, 'pk, 'sk, 'xk) wallet_lib \<Rightarrow> ('xk, 'sk) HDWallet \<Rightarrow> bool" where
  "walletInv L w \<longleftrightarrow> (\<forall>dk\<in>set (w_externalKeys w @ w_changeKeys w). keyOk L dk \<and> w_keysByHash w (dk_PubKeyHash dk) \<noteq> None)
     \<and> (\<forall>h dk. w_keysByHash w h = Some dk \<longrightarrow> dk \<in> set (w_externalKeys w @ w_changeKeys w) \<and> dk_PubKeyHash dk = h)
     \<and> (\<forall>a dk. w_keysByAddress w a = Some dk \<longrightarrow> dk \<in> set (w_externalKeys w @ w_changeKeys w) \<and> keyAddress L w dk = a)"

definition sameKeys :: "('xk, 'sk) HDWallet \<Rightarrow> ('xk, 'sk) HDWallet \<Rightarrow> bool" where
  "sameKeys w w' \<longleftrightarrow> w_externalKeys w' = w_externalKeys w \<and> w_changeKeys w' = w_changeKeys w
     \<and> w_keysByHash w' = w_keysByHash w \<and> w_keysByAddress w' = w_keysByAddress w \<and> w_addrVersion w' = w_addrVersion w"

lemma sameKeys_refl [simp]: "sameKeys w w"
  by (simp add: sameKeys_def)

lemma sameKeys_trans: "sameKeys w w' \<Longrightarrow> sameKeys w' w'' \<Longrightarrow> sameKeys w w''"
  by (simp add: sameKeys_def)

lemma walletInv_same: "walletInv L w \<Longrightarrow> sameKeys w w' \<Longrightarrow> walletInv L w'"
  by (simp add: walletInv_def sameKeys_def keyAddress_def)

lemma readWallet_same: "sameKeys w (snd (readWallet w))"
  by (simp add: readWallet_def sameKeys_def split: prod.splits)

lemma mkdirWallet_same: "sameKeys w (snd (mkdirWallet w))"
  by (simp add: mkdirWallet_def sameKeys_def split: prod.splits)

lemma writeWallet_same: "sameKeys w (snd (writeWallet wd w))"
  by (simp add: writeWallet_def sameKeys_def split: prod.splits disk_io.splits)

lemma sameKeys_bindS:
  "sameKeys w (snd m) \<Longrightarrow> (\<And>x s. sameKeys s (snd (f x s))) \<Longrightarrow> sameKeys w (snd (bindS m f))"
  by (cases "(m, f)" rule: bindS.cases) (auto intro: sameKeys_trans)

lemma save_same: "sameKeys w (snd (save w))"
proof -
  have "sameKeys w (snd (savePreservingEncryption w))"
    using readWallet_same [of w]
    by (auto simp: savePreservingEncryption_def split: prod.splits option.splits wallet_file.splits intro: sameKeys_trans [OF _ writeWallet_same])
  moreover have "sameKeys w (snd (bindS (mkdirWallet w) (\<lambda>_ w. writeWallet (plainData w) w)))"
    by (rule sameKeys_bindS [OF mkdirWallet_same writeWallet_same])
  ultimately show ?thesis by (simp add: save_def)
qed

lemma deriveAccountKeys_same: "sameKeys w (snd (deriveAccountKeys L w))"
  unfolding deriveAccountKeys_def Let_def
  by (intro sameKeys_bindS sameKeys_trans [OF _ sameKeys_bindS]) (simp_all add: sameKeys_def)

text \<open>The invariant along a computation.\<close>

lemma inv_bindS:
  "walletInv L (snd m) \<Longrightarrow> (\<And>x s. walletInv L s \<Longrightarrow> walletInv L (snd (f x s))) \<Longrightarrow> walletInv L (snd (bindS m f))"
  by (cases "(m, f)" rule: bindS.cases) auto

lemma keyOk_mkKey [simp]: "keyOk L (mkKey L k path c i)"
  by (simp add: keyOk_def mkKey_def Let_def)

lemma addKey_inv: "walletInv L w \<Longrightarrow> keyOk L dk \<Longrightarrow> walletInv L (addKey L dk w)"
  by (auto simp: walletInv_def addKey_def Let_def keyAddress_def)

lemma registerKey_inv: "walletInv L w \<Longrightarrow> walletInv L (snd (registerKey L k c i w))"
  by (auto simp: registerKey_def Let_def intro: addKey_inv split: option.splits)

lemma derive_inv:
  "walletInv L w \<Longrightarrow> walletInv L (snd (deriveExternal L i w))"
  "walletInv L w \<Longrightarrow> walletInv L (snd (deriveChange L i w))"
  by (auto simp: deriveExternal_def deriveChange_def intro: registerKey_inv split: option.splits)

lemma rederive_inv:
  assumes "\<And>i w. walletInv L w \<Longrightarrow> walletInv L (snd (f i w))"
  shows "walletInv L w \<Longrightarrow> walletInv L (snd (rederive f is w))"
  by (induction "is" arbitrary: w) (auto intro!: inv_bindS intro: assms)

lemma inv_same: "walletInv L w \<Longrightarrow> sameKeys w (snd m) \<Longrightarrow> walletInv L (snd m)"
  by (rule walletInv_same)

lemmas wallet_steps = inv_same [OF _ save_same] inv_same [OF _ deriveAccountKeys_same] inv_same [OF _ readWallet_same]
  inv_same [OF _ mkdirWallet_same] inv_same [OF _ writeWallet_same] derive_inv rederive_inv addKey_inv

lemma inv_update [simp]:
  "walletInv L (w\<lparr>w_mnemonic := m, w_seed := b\<rparr>) = walletInv L w" "walletInv L (w\<lparr>w_nextExternalIdx := n\<rparr>) = walletInv L w"
  "walletInv L (w\<lparr>w_nextChangeIdx := n\<rparr>) = walletInv L w" "walletInv L (w\<lparr>w_locked := l\<rparr>) = walletInv L w"
  "walletInv L (w\<lparr>w_encrypted := e\<rparr>) = walletInv L w" "walletInv L (w\<lparr>w_encKey := k\<rparr>) = walletInv L w"
  "walletInv L (w\<lparr>w_unlockUntil := u\<rparr>) = walletInv L w" "walletInv L (w\<lparr>w_mnemonic := m\<rparr>) = walletInv L w"
  "walletInv L (w\<lparr>w_seed := b\<rparr>) = walletInv L w"
  by (simp_all add: walletInv_def keyAddress_def)

lemma loadSeedAndDerive_inv: "walletInv L w \<Longrightarrow> walletInv L (snd (loadSeedAndDerive L m sd w))"
  by (auto simp: loadSeedAndDerive_def split: option.splits intro!: inv_bindS wallet_steps)

lemma DeriveNext_inv:
  "walletInv L w \<Longrightarrow> walletInv L (snd (DeriveNextExternal L w))" "walletInv L w \<Longrightarrow> walletInv L (snd (DeriveNextChange L w))"
  by (auto simp: DeriveNextExternal_def DeriveNextChange_def intro!: inv_bindS wallet_steps)

lemma GetAddress_inv:
  "walletInv L w \<Longrightarrow> walletInv L (snd (GetNewAddress L w))" "walletInv L w \<Longrightarrow> walletInv L (snd (GetChangeAddress L w))"
  "walletInv L w \<Longrightarrow> walletInv L (snd (GetCurrentChangeAddress L w))"
  by (auto simp: GetNewAddress_def GetChangeAddress_def GetCurrentChangeAddress_def intro!: inv_bindS DeriveNext_inv)

lemma createNew_inv: "walletInv L w \<Longrightarrow> walletInv L (snd (createNew L entropy m w))"
  by (auto simp: createNew_def intro!: inv_bindS wallet_steps DeriveNext_inv)

lemma loadFromJSON_inv: "walletInv L w \<Longrightarrow> walletInv L (snd (loadFromJSON L f w))"
  by (auto simp: loadFromJSON_def Let_def intro!: loadSeedAndDerive_inv split: wallet_file.splits)

lemma NewHDWallet_inv: "walletInv L (snd (NewHDWallet L entropy v f io))"
proof -
  have e: "walletInv L (emptyWallet v f io)" by (simp add: walletInv_def emptyWallet_def)
  then have "walletInv L w" if "readWallet (emptyWallet v f io) = (r, w)" for r w
    using wallet_steps(3) [OF e] that by simp
  then show ?thesis by (auto simp: NewHDWallet_def intro!: loadFromJSON_inv createNew_inv split: prod.splits option.splits)
qed

lemma wipe_inv [simp]: "walletInv L (wipe w) = walletInv L w"
  by (simp add: wipe_def)

lemma RequireUnlocked_inv: "walletInv L w \<Longrightarrow> walletInv L (snd (RequireUnlocked now w))"
  by (auto simp: RequireUnlocked_def IsLocked_def split: prod.splits option.splits if_splits)

lemma EncryptWallet_inv: "walletInv L w \<Longrightarrow> walletInv L (snd (EncryptWallet L rs ri pass w))"
  by (auto simp: EncryptWallet_def saveEncrypted_def split: option.splits prod.splits intro!: inv_bindS wallet_steps)

lemma WalletPassphrase_inv:
  assumes "walletInv L w"
  shows "walletInv L (snd (WalletPassphrase L now pass t w))"
proof -
  have "walletInv L w'" if "readWallet w = (r, w')" for r w'
    using wallet_steps(3) [OF assms] that by simp
  then show ?thesis using assms
    by (auto simp: WalletPassphrase_def split: option.splits prod.splits wallet_file.splits intro!: inv_bindS loadSeedAndDerive_inv)
qed

lemma ImportPrivKey_inv: "walletInv L w \<Longrightarrow> walletInv L (snd (ImportPrivKey L k w))"
  by (auto simp: ImportPrivKey_def Let_def intro!: inv_bindS addKey_inv)

section \<open>Coins\<close>

definition uoKey :: "UnspentOutput \<Rightarrow> bytes" where
  "uoKey u = OutpointKey (uo_TxHash u) (uo_Index u)"

text \<open>A coin that describes an entry of the set which pays to a key of the wallet.\<close>

definition coinOf :: "('xk, 'sk) HDWallet \<Rightarrow> UtxoSet \<Rightarrow> UnspentOutput \<Rightarrow> bool" where
  "coinOf w s u \<longleftrightarrow> (\<exists>h dk. ExtractP2PKHHash (uo_PkScript u) = Some h \<and> w_keysByHash w h = Some dk)
     \<and> s (uoKey u) = Some \<lparr>ue_Value = uo_Value u, ue_PkScript = uo_PkScript u, ue_Height = uo_Height u, ue_IsCoinbase = uo_IsCoinbase u\<rparr>"

lemma FindUnspent_coins:
  assumes "set order \<subseteq> dom s" "wf_keys s" "distinct order"
  shows "list_all (coinOf w s) (FindUnspent L w s order tip)" "distinct (map uoKey (FindUnspent L w s order tip))"
    "uoKey ` set (FindUnspent L w s order tip) \<subseteq> set order"
proof -
  let ?one = "\<lambda>k. let e = the (s k) in case ExtractP2PKHHash (ue_PkScript e) of None \<Rightarrow> [] | Some h \<Rightarrow>
      if w_keysByHash w h = None then [] else [\<lparr>uo_TxHash = take 32 k, uo_Index = getLE (drop 32 k), uo_Value = ue_Value e, uo_Height = ue_Height e,
             uo_Confirmations = confirmations tip (ue_Height e), uo_Address = PubKeyHashToAddress (wl_sha L) h (w_addrVersion w),
             uo_PkScript = ue_PkScript e, uo_IsCoinbase = ue_IsCoinbase e\<rparr>]"
  have run: "fold (\<lambda>k results. case splitKey k of (txHash, index) \<Rightarrow> (case ExtractP2PKHHash (ue_PkScript (the (s k))) of
         None \<Rightarrow> results
       | Some h \<Rightarrow>
           if w_keysByHash w h = None then results
           else results @ [\<lparr>uo_TxHash = txHash, uo_Index = index, uo_Value = ue_Value (the (s k)), uo_Height = ue_Height (the (s k)),
             uo_Confirmations = confirmations tip (ue_Height (the (s k))), uo_Address = PubKeyHashToAddress (wl_sha L) h (w_addrVersion w),
             uo_PkScript = ue_PkScript (the (s k)), uo_IsCoinbase = ue_IsCoinbase (the (s k))\<rparr>])) ks acc = acc @ concat (map ?one ks)" for ks acc
    by (induction ks arbitrary: acc) (auto simp: splitKey_def Let_def split: option.splits)
  have f: "FindUnspent L w s order tip = concat (map ?one order)"
    using run [of order "[]"] by (simp add: FindUnspent_def ForEach_def case_prod_unfold)
  have key: "uoKey u = k \<and> coinOf w s u" if uk: "u \<in> set (?one k)" "k \<in> set order" for u k
  proof -
    obtain e where e: "s k = Some e" using uk(2) assms(1) by auto
    then have "length k = 36" using assms(2) by (auto simp: wf_keys_def)
    then show ?thesis using uk(1) e
      by (cases "ExtractP2PKHHash (ue_PkScript e)") (auto simp: Let_def coinOf_def uoKey_def OutpointKey_split split: if_splits)
  qed
  show "list_all (coinOf w s) (FindUnspent L w s order tip)" unfolding f using key by (auto simp: list_all_iff)
  show "uoKey ` set (FindUnspent L w s order tip) \<subseteq> set order" unfolding f using key by fastforce
  have "map uoKey (concat (map ?one ks)) = filter (\<lambda>k. ?one k \<noteq> []) ks" if "set ks \<subseteq> set order" for ks
    using that
  proof (induction ks)
    case (Cons k ks)
    have "?one k = [] \<or> (\<exists>u. ?one k = [u])" by (auto simp: Let_def split: option.splits)
    then show ?case using key [of _ k] Cons by auto
  qed simp
  then show "distinct (map uoKey (FindUnspent L w s order tip))" unfolding f using assms(3) by simp
qed

section \<open>Selection\<close>

definition coinValue :: "UnspentOutput list \<Rightarrow> nat" where
  "coinValue us = (\<Sum>u\<leftarrow>us. unat (uo_Value u))"

lemma coinValue_simps [simp]: "coinValue [] = 0" "coinValue (u # us) = unat (uo_Value u) + coinValue us" "coinValue (us @ vs) = coinValue us + coinValue vs"
  by (simp_all add: coinValue_def)

text \<open>The fee in the natural numbers, and that it is the computed one when it fits.\<close>

definition feeNat :: "nat \<Rightarrow> nat \<Rightarrow> u64 \<Rightarrow> nat" where
  "feeNat i n r = max 1 (estimatedSize i n * unat r)"

lemma unat_fee:
  assumes "estimatedSize i n * unat r < 2 ^ 64"
  shows "unat (atLeastOne (EstimateFee i n r)) = feeNat i n r"
proof -
  have "unat (EstimateFee i n r) = estimatedSize i n * unat r"
    using assms by (simp add: EstimateFee_def unat_word_ariths unat_of_nat mod_mult_left_eq)
  then show ?thesis by (auto simp: atLeastOne_def feeNat_def word_less_nat_alt max_def)
qed

lemma estimatedSize_mono: "i \<le> i' \<Longrightarrow> n \<le> n' \<Longrightarrow> estimatedSize i n \<le> estimatedSize i' n'"
  by (simp add: estimatedSize_def add_mono)

lemma feeNat_mono: "i \<le> i' \<Longrightarrow> n \<le> n' \<Longrightarrow> feeNat i n r \<le> feeNat i' n' r"
  unfolding feeNat_def by (intro max.mono mult_le_mono1 estimatedSize_mono) simp_all

lemma feeNat_fits: "feeNat i n r < 2 ^ 64 \<Longrightarrow> unat (atLeastOne (EstimateFee i n r)) = feeNat i n r"
  by (rule unat_fee) (simp add: feeNat_def)

lemma selectLoop_ok:
  assumes "selectLoop us t r sel tot = Inr (sel', tot')" "unat tot + coinValue us < 2 ^ 64"
    and "unat t + feeNat (length sel + length us) 2 r < 2 ^ 64"
  shows "\<exists>pre post. us = pre @ post \<and> pre \<noteq> [] \<and> sel' = sel @ pre \<and> unat tot' = unat tot + coinValue pre
    \<and> unat t + feeNat (length sel') 2 r \<le> unat tot'"
  using assms
proof (induction us arbitrary: sel tot)
  case (Cons u us)
  let ?tot = "tot + uo_Value u" and ?fee = "atLeastOne (EstimateFee (Suc (length sel)) 2 r)"
  have tot: "unat ?tot = unat tot + unat (uo_Value u)" using Cons.prems(2) by (simp add: unat_add_lem [THEN iffD1])
  have bound: "unat t + feeNat (Suc (length sel)) 2 r < 2 ^ 64"
    using Cons.prems(3) feeNat_mono [of "Suc (length sel)" "length sel + length (u # us)" 2 2 r] by simp
  then have fee: "unat ?fee = feeNat (Suc (length sel)) 2 r" by (intro feeNat_fits) simp
  show ?case
  proof (cases "?tot \<ge> t + ?fee")
    case True
    have "unat (t + ?fee) = unat t + unat ?fee" using bound fee by (simp add: unat_add_lem [THEN iffD1])
    then show ?thesis using True Cons.prems(1) tot fee
      by (intro exI [of _ "[u]"] exI [of _ us]) (auto simp: Let_def word_le_nat_alt)
  next
    case False
    then have "selectLoop us t r (sel @ [u]) ?tot = Inr (sel', tot')" using Cons.prems(1) by (simp add: Let_def)
    from Cons.IH [OF this] tot Cons.prems(2,3) obtain pre post where
      "us = pre @ post" "sel' = (sel @ [u]) @ pre" "unat tot' = unat ?tot + coinValue pre" "unat t + feeNat (length sel') 2 r \<le> unat tot'"
      by auto
    then show ?thesis using tot by (intro exI [of _ "u # pre"] exI [of _ post]) simp
  qed
qed simp

section \<open>Signatures\<close>

definition sameBody :: "Transaction \<Rightarrow> Transaction \<Rightarrow> bool" where
  "sameBody tx tx' \<longleftrightarrow> tx_Version tx' = tx_Version tx \<and> LockTime tx' = LockTime tx \<and> Outputs tx' = Outputs tx
     \<and> map PreviousOutPoint (Inputs tx') = map PreviousOutPoint (Inputs tx) \<and> map Sequence (Inputs tx') = map Sequence (Inputs tx)"

lemma sameBody_trans: "sameBody tx tx' \<Longrightarrow> sameBody tx' tx'' \<Longrightarrow> sameBody tx tx''"
  by (simp add: sameBody_def)

lemma sameBody_length: "sameBody tx tx' \<Longrightarrow> length (Inputs tx') = length (Inputs tx)"
  unfolding sameBody_def by (metis length_map)

lemma setSigScript_body: "i < length (Inputs tx) \<Longrightarrow> sameBody tx (setSigScript tx i sg)"
  by (simp add: sameBody_def setSigScript_def map_update list_update_same_conv)

lemma KeyForScript_pays:
  assumes "walletInv L w" "KeyForScript w pk = Some dk"
  shows "pk = MakeP2PKHScriptFromPubKey (wl_crypto L) (SerializeCompressed (wl_crypto L) (privPubKey (wl_crypto L) (dk_PrivKey dk)))"
proof -
  obtain h where h: "ExtractP2PKHHash pk = Some h" "w_keysByHash w h = Some dk"
    using assms(2) by (auto simp: KeyForScript_def split: option.splits)
  then have "keyOk L dk" "dk_PubKeyHash dk = h" using assms(1) unfolding walletInv_def by blast+
  moreover have "IsP2PKHScript pk" using h(1) by (simp add: ExtractP2PKHHash_def split: if_splits)
  then have "pk = MakeP2PKHScript h" using h(1) ExtractP2PKHHash_Make by (auto simp: IsP2PKHScript_iff)
  ultimately show ?thesis by (simp add: keyOk_def MakeP2PKHScriptFromPubKey_def)
qed

lemma signInputs_ok:
  assumes "ecdsa_correct (wl_crypto L)" "walletInv L w"
  shows "signInputs L w us i tx = Inr tx' \<Longrightarrow> i + length us \<le> length (Inputs tx) \<Longrightarrow>
    sameBody tx tx' \<and> (\<forall>j<i. Inputs tx' ! j = Inputs tx ! j)
    \<and> (\<forall>j<length us. isOk (Verify (wl_crypto L) (SignatureScript (Inputs tx' ! (i + j))) (uo_PkScript (us ! j)) tx' (int (i + j))))"
proof (induction us arbitrary: i tx)
  case Nil
  then show ?case by (simp add: sameBody_def)
next
  case (Cons u us)
  obtain dk sg where k: "KeyForScript w (uo_PkScript u) = Some dk"
    and sg: "SignInput (wl_crypto L) tx (int i) (uo_PkScript u) (dk_PrivKey dk) = Inr sg"
    and rest: "signInputs L w us (Suc i) (setSigScript tx i sg) = Inr tx'"
    using Cons.prems(1) by (auto split: option.splits sum.splits)
  have i: "i < length (Inputs tx)" using Cons.prems(2) by simp
  note b1 = setSigScript_body [OF i, of sg]
  note IH = Cons.IH [OF rest]
  have len: "Suc i + length us \<le> length (Inputs (setSigScript tx i sg))" using Cons.prems(2) sameBody_length [OF b1] by simp
  have body: "sameBody tx tx'" using sameBody_trans [OF b1] IH len by blast
  have at: "Inputs tx' ! j = Inputs (setSigScript tx i sg) ! j" if "j < Suc i" for j using IH len that by blast
  have "Inputs tx' ! i = (Inputs tx ! i)\<lparr>SignatureScript := sg\<rparr>" using at [of i] i by (simp add: setSigScript_def)
  moreover have "isOk (Verify (wl_crypto L) sg (uo_PkScript u) tx' (int i))"
    using SignInput_signs [OF assms(1) i KeyForScript_pays [OF assms(2) k] sg] body by (simp add: sameBody_def)
  moreover have "Inputs tx' ! j = Inputs tx ! j" if "j < i" for j using at [of j] that by (simp add: setSigScript_def)
  moreover have "isOk (Verify (wl_crypto L) (SignatureScript (Inputs tx' ! (i + j))) (uo_PkScript ((u # us) ! j)) tx' (int (i + j)))"
    if "j < length (u # us)" "j \<noteq> 0" for j
    using IH [OF len] that by (cases j) auto
  ultimately show ?case using body by (auto simp: nth_Cons' split: if_splits)
qed

lemma verifyScripts_all:
  assumes "\<And>j. j < length is \<Longrightarrow> \<exists>e. s (inKey (is ! j)) = Some e \<and> isOk (Verify L (SignatureScript (is ! j)) (ue_PkScript e) tx (int (n + j)))"
  shows "verifyScripts L s tx is n = Inr ()"
  using assms
proof (induction "is" arbitrary: n)
  case (Cons i "is")
  obtain e where e: "s (inKey i) = Some e" "isOk (Verify L (SignatureScript i) (ue_PkScript e) tx (int n))" using Cons.prems [of 0] by auto
  have "verifyScripts L s tx is (Suc n) = Inr ()" by (rule Cons.IH) (use Cons.prems [of "Suc _"] in simp)
  then show ?case using e by (auto simp: Set_Get_def isOk_iff IsLegacyUnvalidatedScript_def)
qed simp

lemma singleInputs_all:
  assumes "distinct (map inKey is)" "set (map inKey is) \<inter> seen = {}"
    and "\<And>i. i \<in> set is \<Longrightarrow> \<exists>e. s (inKey i) = Some e \<and> (\<forall>n. isOk (maturityCheck p h n e))"
    and "unat tot + (\<Sum>i\<leftarrow>is. entryVal (s (inKey i))) < 2 ^ 64"
  shows "\<exists>v. singleInputs p s h is n seen tot = Inr v \<and> unat v = unat tot + (\<Sum>i\<leftarrow>is. entryVal (s (inKey i)))"
  using assms
proof (induction "is" arbitrary: n seen tot)
  case (Cons i "is")
  obtain e where e: "s (inKey i) = Some e" "isOk (maturityCheck p h n e)" using Cons.prems(3) [of i] by auto
  have t: "unat (tot + ue_Value e) = unat tot + unat (ue_Value e)" using Cons.prems(4) e(1) by (simp add: unat_add_lem [THEN iffD1])
  have "\<exists>v. singleInputs p s h is (Suc n) (insert (inKey i) seen) (tot + ue_Value e) = Inr v
      \<and> unat v = unat (tot + ue_Value e) + (\<Sum>i\<leftarrow>is. entryVal (s (inKey i)))"
    by (rule Cons.IH) (use Cons.prems e(1) t in auto)
  moreover have "\<not> tot + ue_Value e < tot" using t by (simp add: word_less_nat_alt)
  ultimately show ?case using e t Cons.prems(2)
    by (auto simp: Let_def Set_Get_def isOk_iff)
qed simp

section \<open>Payments\<close>

lemma address_decodes:
  "digest sha \<Longrightarrow> length h = 20 \<Longrightarrow> AddressToPubKeyHash sha (PubKeyHashToAddress sha h v) = Inr (v, h)"
  by (simp add: AddressToPubKeyHash_def PubKeyHashToAddress_def digest.Base58CheckDecode_Encode PubKeyHashSize_def)

lemma RequireUnlocked_ok: "RequireUnlocked now w = (Inr u, w') \<Longrightarrow> w' = w"
  by (auto simp: RequireUnlocked_def IsLocked_def split: if_splits option.splits)

lemma GetChangeAddress_ours:
  assumes "GetChangeAddress L w = (Inr a, w')"
  shows "\<exists>dk. a = keyAddress L w' dk \<and> w_keysByHash w' (dk_PubKeyHash dk) \<noteq> None \<and> length (dk_PubKeyHash dk) = 20"
proof -
  obtain dk w1 w2 where d: "deriveChange L (w_nextChangeIdx w) w = (Inr dk, w1)"
    and sv: "save (w1\<lparr>w_nextChangeIdx := w_nextChangeIdx w1 + 1\<rparr>) = (Inr (), w')" and a: "a = keyAddress L w' dk"
    using assms by (auto simp: GetChangeAddress_def DeriveNextChange_def res_simps)
  have "w_keysByHash w1 (dk_PubKeyHash dk) \<noteq> None \<and> length (dk_PubKeyHash dk) = 20"
    using d by (auto simp: deriveChange_def registerKey_def Let_def addKey_def mkKey_def PubKeyHash_def split: option.splits)
  moreover have "w_keysByHash w' = w_keysByHash w1"
    using save_same [of "w1\<lparr>w_nextChangeIdx := w_nextChangeIdx w1 + 1\<rparr>"] sv by (simp add: sameKeys_def)
  ultimately show ?thesis using a by auto
qed

lemma changeOutputs_ok:
  assumes "digest (wl_sha L)" "walletInv L w" "changeOutputs L n tot amt r ch w = (Inr outs, w')"
  shows "walletInv L w'" "outs = [] \<or> (\<exists>pk. outs = [\<lparr>Value = tot - amt - atLeastOne (EstimateFee n 2 r), PkScript = pk\<rparr>]
      \<and> tot - amt - atLeastOne (EstimateFee n 2 r) > DustThreshold \<and> IsOurScript w' pk)"
proof -
  have "walletInv L w' \<and> (outs = [] \<or> (\<exists>pk. outs = [\<lparr>Value = tot - amt - atLeastOne (EstimateFee n 2 r), PkScript = pk\<rparr>]
      \<and> tot - amt - atLeastOne (EstimateFee n 2 r) > DustThreshold \<and> IsOurScript w' pk))"
  proof (cases "ch > DustThreshold")
    case False
    then show ?thesis using assms(2,3) by (simp add: changeOutputs_def)
  next
    case True
    then obtain a where g: "GetChangeAddress L w = (Inr a, w')"
      using assms(3) by (auto simp: changeOutputs_def Let_def split: prod.splits sum.splits)
    then obtain dk where dk: "a = keyAddress L w' dk" "w_keysByHash w' (dk_PubKeyHash dk) \<noteq> None" "length (dk_PubKeyHash dk) = 20"
      using GetChangeAddress_ours by blast
    have "AddressToPubKeyHash (wl_sha L) a = Inr (w_addrVersion w', dk_PubKeyHash dk)"
      using dk by (simp add: keyAddress_def address_decodes [OF assms(1)])
    moreover have "IsOurScript w' (MakeP2PKHScript (dk_PubKeyHash dk))" using dk by (simp add: IsOurScript_def ExtractP2PKHHash_Make)
    moreover have "walletInv L w'" using GetAddress_inv(2) [OF assms(2)] g by simp
    ultimately show ?thesis using True assms(3) g by (auto simp: changeOutputs_def Let_def)
  qed
  then show "walletInv L w'" "outs = [] \<or> (\<exists>pk. outs = [\<lparr>Value = tot - amt - atLeastOne (EstimateFee n 2 r), PkScript = pk\<rparr>]
      \<and> tot - amt - atLeastOne (EstimateFee n 2 r) > DustThreshold \<and> IsOurScript w' pk)" by auto
qed

lemma spendable_mature:
  assumes "coinSpendable (CoinbaseMaturity p) tip u" "unat tip + 1 < 2 ^ 32"
    and "e = \<lparr>ue_Value = uo_Value u, ue_PkScript = uo_PkScript u, ue_Height = uo_Height u, ue_IsCoinbase = uo_IsCoinbase u\<rparr>"
  shows "isOk (maturityCheck p (tip + 1) n e)"
proof -
  have le: "uo_Height u \<le> tip" using assms(1) by (auto simp: coinSpendable_def confirmations_def Let_def split: if_splits)
  have "unat (tip + 1) = unat tip + 1" using assms(2) by (simp add: unat_add_lem [THEN iffD1])
  then have "tip < tip + 1" by (simp add: word_less_nat_alt)
  then have "\<not> tip + 1 < uo_Height u" using le by auto
  moreover have "uo_IsCoinbase u \<Longrightarrow> \<not> tip + 1 - uo_Height u < CoinbaseMaturity p"
    using assms(1) le by (auto simp: coinSpendable_def confirmations_def Let_def algebra_simps)
  ultimately show ?thesis using assms(3) by (auto simp: maturityCheck_def)
qed

text \<open>The value of coins with distinct keys is within the value of the set.\<close>

lemma coins_within:
  assumes "finite (dom s)" "list_all (coinOf w s) us" "distinct (map uoKey us)"
  shows "coinValue us \<le> setValue s"
proof -
  have "coinValue us = (\<Sum>k\<leftarrow>map uoKey us. entryVal (s k))"
    using assms(2) unfolding coinValue_def by (intro arg_cong [of _ _ sum_list]) (auto simp: list_all_iff coinOf_def)
  also have "\<dots> = (\<Sum>k\<in>uoKey ` set us. entryVal (s k))" using assms(3) sum_list_distinct_conv_sum_set by (metis list.set_map)
  also have "\<dots> \<le> setValue s" unfolding setValue_def
    by (rule sum_mono2) (use assms(1,2) in \<open>auto simp: list_all_iff coinOf_def\<close>)
  finally show ?thesis .
qed

text \<open>What a successful \<open>BuildTransaction\<close> has gone through.\<close>

lemma BuildTransaction_parts:
  assumes "BuildTransaction L srt now req r utxos m tip w = (Inr tx, w')"
  obtains pkh sel tot outs where "AddressToPubKeyHash (wl_sha L) (sr_ToAddress req) = Inr (w_addrVersion w, pkh)" "sr_Amount req \<noteq> 0"
    "selectCoins (srt (filterSpendable utxos m tip)) (sr_Amount req) r = Inr (sel, tot)"
    "changeOutputs L (length sel) tot (sr_Amount req) r (tot - sr_Amount req - atLeastOne (EstimateFee (length sel) 1 r)) w = (Inr outs, w')"
    "signInputs L w' sel 0 \<lparr>tx_Version = 1, Inputs = map unsignedInput sel,
        Outputs = \<lparr>Value = sr_Amount req, PkScript = MakeP2PKHScript pkh\<rparr> # outs, LockTime = tip\<rparr> = Inr tx"
proof -
  obtain u w0 where r: "RequireUnlocked now w = (Inr u, w0)" using assms by (auto simp: BuildTransaction_def split: prod.splits sum.splits)
  note w0 = RequireUnlocked_ok [OF r]
  show thesis using assms r that
    by (auto simp: BuildTransaction_def w0 Let_def res_simps split: sum.splits if_splits)
qed

lemma checkOutputs_all:
  assumes "\<forall>out\<in>set outs. Value out \<noteq> 0" "unat acc + (\<Sum>out\<leftarrow>outs. unat (Value out)) \<le> unat MaxMoneyValue"
  shows "\<exists>v. checkOutputs outs n acc = Inr v \<and> unat v = unat acc + (\<Sum>out\<leftarrow>outs. unat (Value out))"
  using assms
proof (induction outs arbitrary: n acc)
  case (Cons out outs)
  have b: "unat acc + unat (Value out) \<le> unat MaxMoneyValue" using Cons.prems(2) by simp
  then have t: "unat (acc + Value out) = unat acc + unat (Value out)" by (simp add: unat_add_lem [THEN iffD1] MaxMoneyValue_def)
  have "\<exists>v. checkOutputs outs (Suc n) (acc + Value out) = Inr v \<and> unat v = unat (acc + Value out) + (\<Sum>out\<leftarrow>outs. unat (Value out))"
    by (rule Cons.IH) (use Cons.prems t in simp_all)
  moreover have "\<not> Value out > MaxMoneyValue" "\<not> acc + Value out < acc" using b t by (simp_all add: word_less_nat_alt)
  ultimately show ?case using Cons.prems(1) t by auto
qed simp

text \<open>A transaction that spends mature coins of the wallet and pays no more than they are worth validates.\<close>

lemma signed_validates:
  assumes lib: "ecdsa_correct (wl_crypto L)" and inv: "walletInv L w'"
    and s: "coinValue sel \<le> unat MaxMoneyValue" "s (OutpointKey ZeroHash 0xFFFFFFFF) = None"
    and coins: "list_all (coinOf w s) sel" "distinct (map uoKey sel)" "sel \<noteq> []" "\<forall>u\<in>set sel. coinSpendable (CoinbaseMaturity p) tip u"
    and tip: "unat tip + 1 < 2 ^ 32"
    and outs: "outs \<noteq> []" "\<forall>out\<in>set outs. Value out \<noteq> 0" "(\<Sum>out\<leftarrow>outs. unat (Value out)) \<le> coinValue sel"
    and sg: "signInputs L w' sel 0 \<lparr>tx_Version = v, Inputs = map unsignedInput sel, Outputs = outs, LockTime = lt\<rparr> = Inr tx"
  shows "\<exists>fee. ValidateSingleTransaction (wl_crypto L) tx s tip p = Inr fee \<and> unat fee = coinValue sel - (\<Sum>out\<leftarrow>outs. unat (Value out))
     \<and> Outputs tx = outs \<and> length (Inputs tx) = length sel"
proof -
  note so = signInputs_ok [OF lib inv sg]
  have po: "map PreviousOutPoint (Inputs tx) = map (\<lambda>u. \<lparr>op_Hash = uo_TxHash u, op_Index = uo_Index u\<rparr>) sel"
    and out: "Outputs tx = outs" using so by (simp_all add: sameBody_def unsignedInput_def)
  then have n: "length (Inputs tx) = length sel" by (metis length_map)
  have key: "inKey (Inputs tx ! j) = uoKey (sel ! j)" if "j < length sel" for j
    using arg_cong [OF po, of "\<lambda>xs. xs ! j"] that n by (simp add: uoKey_def)
  have keys: "map inKey (Inputs tx) = map uoKey sel" by (rule nth_equalityI) (use n key in auto)
  have entry: "\<exists>e. s (inKey i) = Some e \<and> (\<forall>n. isOk (maturityCheck p (tip + 1) n e))" if i: "i \<in> set (Inputs tx)" for i
  proof -
    obtain j where j: "j < length sel" "i = Inputs tx ! j" using i n by (auto simp: in_set_conv_nth)
    then have "coinOf w s (sel ! j)" "coinSpendable (CoinbaseMaturity p) tip (sel ! j)" using coins by (auto simp: list_all_iff)
    then show ?thesis using key [OF j(1)] j(2) spendable_mature [OF _ tip] by (auto simp: coinOf_def)
  qed
  have "(\<Sum>i\<leftarrow>Inputs tx. entryVal (s (inKey i))) = (\<Sum>k\<leftarrow>map inKey (Inputs tx). entryVal (s k))" by (simp add: o_def)
  also have "\<dots> = coinValue sel" unfolding keys coinValue_def using coins(1)
    by (intro arg_cong [of _ _ sum_list]) (auto simp: list_all_iff coinOf_def)
  finally have val: "(\<Sum>i\<leftarrow>Inputs tx. entryVal (s (inKey i))) = coinValue sel" .
  obtain tin where tin: "singleInputs p s (tip + 1) (Inputs tx) 0 {} 0 = Inr tin" "unat tin = coinValue sel"
    using singleInputs_all [of "Inputs tx" "{}" s p "tip + 1" 0 0] keys coins(2) entry val s(1) by (auto simp: MaxMoneyValue_def)
  obtain tout where tout: "checkOutputs outs 0 0 = Inr tout" "unat tout = (\<Sum>out\<leftarrow>outs. unat (Value out))"
    using checkOutputs_all [OF outs(2), of 0 0] outs(3) s(1) by auto
  have ver: "verifyScripts (wl_crypto L) s tx (Inputs tx) 0 = Inr ()"
  proof (rule verifyScripts_all)
    fix j assume j: "j < length (Inputs tx)"
    then have "coinOf w s (sel ! j)" using coins(1) n by (auto simp: list_all_iff)
    moreover have "isOk (Verify (wl_crypto L) (SignatureScript (Inputs tx ! j)) (uo_PkScript (sel ! j)) tx (int j))" using so n j by simp
    ultimately show "\<exists>e. s (inKey (Inputs tx ! j)) = Some e \<and> isOk (Verify (wl_crypto L) (SignatureScript (Inputs tx ! j)) (ue_PkScript e) tx (int (0 + j)))"
      using key j n by (auto simp: coinOf_def)
  qed
  have "\<not> IsCoinbase tx"
  proof
    assume cb: "IsCoinbase tx"
    then have "inKey (Inputs tx ! 0) = OutpointKey ZeroHash 0xFFFFFFFF" by (simp add: IsCoinbase_def TxInput_IsCoinbase_def IsZero_def)
    moreover have "Inputs tx ! 0 \<in> set (Inputs tx)" using cb by (auto simp: IsCoinbase_def intro: nth_mem)
    ultimately show False using entry [of "Inputs tx ! 0"] s(2) by auto
  qed
  moreover have "\<not> tin < tout" "unat (tin - tout) = unat tin - unat tout"
    using tin(2) tout(2) outs(3) by (simp_all add: word_less_nat_alt unat_sub word_le_nat_alt)
  ultimately show ?thesis using tin tout ver out n coins(3) outs(1) by (auto simp: ValidateSingleTransaction_def)
qed

lemma BuildTransaction_valid:
  assumes lib: "ecdsa_correct (wl_crypto L)" "digest (wl_sha L)" and inv: "walletInv L w"
    and srt: "\<And>us. mset (srt us) = mset us"
    and s: "finite (dom s)" "setValue s \<le> unat MaxMoneyValue" "s (OutpointKey ZeroHash 0xFFFFFFFF) = None"
    and coins: "list_all (coinOf w s) utxos" "distinct (map uoKey utxos)"
    and fit: "unat tip + 1 < 2 ^ 32" "unat (sr_Amount req) + feeNat (length utxos) 2 r < 2 ^ 64"
    and bt: "BuildTransaction L srt now req r utxos (CoinbaseMaturity p) tip w = (Inr tx, w')"
  shows "\<exists>fee pkh. ValidateSingleTransaction (wl_crypto L) tx s tip p = Inr fee
     \<and> feeNat (length (Inputs tx)) (length (Outputs tx)) r \<le> unat fee
     \<and> AddressToPubKeyHash (wl_sha L) (sr_ToAddress req) = Inr (w_addrVersion w, pkh)
     \<and> hd (Outputs tx) = \<lparr>Value = sr_Amount req, PkScript = MakeP2PKHScript pkh\<rparr>
     \<and> (\<forall>out\<in>set (tl (Outputs tx)). Value out > DustThreshold \<and> IsOurScript w' (PkScript out)) \<and> length (Outputs tx) \<le> 2"
proof -
  let ?amt = "sr_Amount req"
  from BuildTransaction_parts [OF bt] obtain pkh sel tot outs where
    pkh: "AddressToPubKeyHash (wl_sha L) (sr_ToAddress req) = Inr (w_addrVersion w, pkh)" "?amt \<noteq> 0"
    and sel: "selectCoins (srt (filterSpendable utxos (CoinbaseMaturity p) tip)) ?amt r = Inr (sel, tot)"
    and ch: "changeOutputs L (length sel) tot ?amt r (tot - ?amt - atLeastOne (EstimateFee (length sel) 1 r)) w = (Inr outs, w')"
    and sg: "signInputs L w' sel 0 \<lparr>tx_Version = 1, Inputs = map unsignedInput sel,
        Outputs = \<lparr>Value = ?amt, PkScript = MakeP2PKHScript pkh\<rparr> # outs, LockTime = tip\<rparr> = Inr tx" .
  let ?coins = "srt (filterSpendable utxos (CoinbaseMaturity p) tip)"
  have ms: "mset ?coins = mset (filterSpendable utxos (CoinbaseMaturity p) tip)" by (rule srt)
  have len: "length ?coins \<le> length utxos" using mset_eq_length [OF ms] by (simp add: filterSpendable_def)
  have set: "set ?coins = set (filterSpendable utxos (CoinbaseMaturity p) tip)" using mset_eq_setD [OF ms] .
  have ok: "list_all (coinOf w s) ?coins" using coins(1) set by (auto simp: list_all_iff filterSpendable_def)
  have "mset (map uoKey ?coins) = mset (map uoKey (filterSpendable utxos (CoinbaseMaturity p) tip))" using ms by simp
  then have dist: "distinct (map uoKey ?coins)"
    using coins(2) mset_eq_imp_distinct_iff distinct_map_filter unfolding filterSpendable_def by blast
  note cw = coins_within [OF s(1) ok dist]
  have "coinValue ?coins < 2 ^ 64" using cw s(2) by (simp add: MaxMoneyValue_def)
  moreover have "feeNat (length ?coins) 2 r \<le> feeNat (length utxos) 2 r" by (rule feeNat_mono [OF len order_refl])
  ultimately obtain pre post where pp: "?coins = pre @ post" "pre \<noteq> []" "sel = pre" "unat tot = coinValue pre"
    and enough: "unat ?amt + feeNat (length sel) 2 r \<le> unat tot"
    using selectLoop_ok [of ?coins ?amt r "[]" 0 sel tot] sel fit(2) by (auto simp: selectCoins_def)
  have c3: "list_all (coinOf w s) sel" "distinct (map uoKey sel)" "sel \<noteq> []" "\<forall>u\<in>set sel. coinSpendable (CoinbaseMaturity p) tip u"
    using ok dist set pp by (auto simp: filterSpendable_def)
  have v3: "coinValue sel \<le> unat MaxMoneyValue" using cw s(2) pp by simp
  note co = changeOutputs_ok [OF lib(2) inv ch]
  let ?pay = "\<lparr>Value = ?amt, PkScript = MakeP2PKHScript pkh\<rparr>" and ?fee = "atLeastOne (EstimateFee (length sel) 2 r)"
  have "feeNat (length sel) 2 r \<le> feeNat (length utxos) 2 r" using len pp by (intro feeNat_mono) simp_all
  then have fee: "unat ?fee = feeNat (length sel) 2 r" using fit(2) by (intro feeNat_fits) simp
  have chg: "unat (tot - ?amt - ?fee) = coinValue sel - unat ?amt - feeNat (length sel) 2 r"
    using enough fee pp by (simp add: unat_sub word_le_nat_alt)
  have nz: "unat ?amt \<noteq> 0" using pkh(2) by (simp add: unat_eq_0)
  have outs: "\<forall>out\<in>set (?pay # outs). Value out \<noteq> 0" "(\<Sum>out\<leftarrow>?pay # outs. unat (Value out)) \<le> coinValue sel"
    using co(2) pkh(2) enough chg pp by (auto simp: DustThreshold_def)
  from signed_validates [OF lib(1) co(1) v3 s(3) c3 fit(1) _ outs sg]
  obtain f where f: "ValidateSingleTransaction (wl_crypto L) tx s tip p = Inr f" "unat f = coinValue sel - (\<Sum>out\<leftarrow>?pay # outs. unat (Value out))"
    "Outputs tx = ?pay # outs" "length (Inputs tx) = length sel" by auto
  have "feeNat (length sel) 1 r \<le> feeNat (length sel) 2 r" by (rule feeNat_mono) simp_all
  then have "feeNat (length (Inputs tx)) (length (Outputs tx)) r \<le> unat f" using f co(2) chg enough pp by (auto simp: numeral_2_eq_2)
  then show ?thesis using f(1,3) pkh co(2) by auto
qed

end
