(* ===== verification/Rpc.thy ===== *)
theory Rpc
  imports Netaddr P2p_Run Wallet_Props Chain_Init
begin

text \<open>
  The RPC server (\<open>internal/rpc/server.go\<close>, \<open>wallet_rpc.go\<close>): authentication, the table of endpoints and
  their handlers, over the chain, the pool and the peers of the manager and over the wallet. A request
  carries its method, path, decoded query, body and basic credentials; a response is the value that is
  encoded as JSON, or a status with the error that its message describes. An endpoint runs as one step at
  one reading of the clock. A panic in a handler, which \<open>net/http\<close> turns into a closed connection, is the
  response \<open>Dropped\<close>.
\<close>

section \<open>Requests and responses\<close>

record request =
  rq_Method :: bytes
  rq_Path :: bytes
  rq_Query :: "(bytes \<times> bytes) list"
  rq_Body :: bytes
  rq_BasicAuth :: "(bytes \<times> bytes) option"

text \<open>
  \<open>JQuot a b\<close> is the floating-point number that the division of \<open>a\<close> by \<open>b\<close> gives, \<open>JSeconds d\<close> the one that
  \<open>Duration.Seconds\<close> gives for \<open>d\<close> nanoseconds.
\<close>

datatype json =
    JNull
  | JBool bool
  | JInt int
  | JStr bytes
  | JQuot int int
  | JSeconds int
  | JArr "json list"
  | JObj "(string \<times> json) list"
  | JMap "(bytes \<times> json) list"

datatype rpc_error =
    Unauthorized
  | NoSuchPage
  | PostRequired
  | WalletNotLoaded
  | MissingParam string
  | InvalidParam string
  | BadHashParam string hash_error
  | HeightNotFound u32
  | BlockLookup lookup_error
  | BlockMissing store_error
  | NodeErr node_error
  | BadBlock decode_error
  | BlockRejected chain_error
  | NotInMempool bytes
  | WalletErr wallet_error
  | BuildErr build_error
  | BadTransaction decode_error
  | TxRejected mempool_error
  | BadAddress base58_error
  | AbsolutePath
  | PathTraversal
  | FeeTooHigh u64
  | TxNotFound

datatype response = Reply json | Failure nat rpc_error | Dropped

definition MethodPost :: bytes where "MethodPost = ascii ''POST''"

text \<open>\<open>r.URL.Query().Get(key)\<close>: the first value, or the empty string.\<close>

definition query :: "request \<Rightarrow> string \<Rightarrow> bytes" where
  "query r key = (case map_of (rq_Query r) (ascii key) of None \<Rightarrow> [] | Some v \<Rightarrow> v)"

section \<open>The server\<close>

text \<open>
  What a handler finds outside: the environment of the manager, the libraries, the orders of map
  iterations, the random bytes, the local address of a connection, and the counters of \<open>internal/metrics\<close>,
  which are no part of the model, as they are encoded.
\<close>

record ('sg, 'pk, 'sk, 'xk, 's, 'd) rpc_env =
  re_net :: "('sg, 'pk, 'sk, 's, 'd) net_env"
  re_wallet :: "('sg, 'pk, 'sk, 'xk) wallet_lib"
  re_utxoOrder :: "UtxoSet \<Rightarrow> bytes list"
  re_poolOrder :: "Mempool \<Rightarrow> hash list"
  re_sortCoins :: "UnspentOutput list \<Rightarrow> UnspentOutput list"
  re_salt :: "bytes option"
  re_iv :: "bytes option"
  re_localAddr :: "bytes \<Rightarrow> bytes"
  re_metrics :: json

record ('xk, 'sk, 's, 'd) Server =
  sv_p2p :: "('s, 'd) Manager"
  sv_authUser :: bytes
  sv_authPassword :: bytes
  sv_cookiePath :: bytes
  sv_wallet :: "('xk, 'sk) HDWallet option"
  sv_broadcastTx :: bool
  sv_feePerByte :: u64
  sv_shutdownFn :: bool
  sv_stopping :: bool
  sv_backups :: "bytes \<rightharpoonup> wallet_file"

abbreviation sv_chain :: "('xk, 'sk, 's, 'd) Server \<Rightarrow> 's Chain" where
  "sv_chain s \<equiv> mg_chain (sv_p2p s)"

abbreviation sv_mempool :: "('xk, 'sk, 's, 'd) Server \<Rightarrow> Mempool" where
  "sv_mempool s \<equiv> mg_mempool (sv_p2p s)"

abbreviation re_chain :: "('sg, 'pk, 'sk, 'xk, 's, 'd) rpc_env \<Rightarrow> ('sg, 'pk, 'sk, 's) chain_env" where
  "re_chain R \<equiv> ne_chain (re_net R)"

abbreviation re_sha :: "('sg, 'pk, 'sk, 'xk, 's, 'd) rpc_env \<Rightarrow> bytes \<Rightarrow> bytes" where
  "re_sha R \<equiv> en_sha (ne_chain (re_net R))"

abbreviation re_params :: "('sg, 'pk, 'sk, 'xk, 's, 'd) rpc_env \<Rightarrow> ChainParams" where
  "re_params R \<equiv> en_params (ne_chain (re_net R))"

definition defaultFeePerByte :: u64 where "defaultFeePerByte = 1"
definition maxFeePerByte :: u64 where "maxFeePerByte = 10000"

record AuthConfig =
  au_User :: bytes
  au_Password :: bytes
  au_CookiePath :: bytes

datatype auth_error = GenerateCookie | WriteCookie

text \<open>The 32 random bytes may fail, and so may the cookie file; the file that is written is returned.\<close>

definition initAuth :: "bytes option \<Rightarrow> bool \<Rightarrow> AuthConfig \<Rightarrow> ('xk, 'sk, 's, 'd) Server
    \<Rightarrow> (auth_error, bytes option) res \<times> ('xk, 'sk, 's, 'd) Server" where
  "initAuth rnd writable auth s =
     (if au_User auth \<noteq> [] \<and> au_Password auth \<noteq> [] then
        (Inr None, s\<lparr>sv_authUser := au_User auth, sv_authPassword := au_Password auth\<rparr>)
      else case rnd of
        None \<Rightarrow> (Inl GenerateCookie, s)
      | Some b \<Rightarrow>
          let user = ascii ''__cookie__''; password = ascii (hexEncode b);
              s = s\<lparr>sv_authUser := user, sv_authPassword := password, sv_cookiePath := au_CookiePath auth\<rparr> in
          if \<not> writable then (Inl WriteCookie, s)
          else (Inr (Some (user @ ascii '':'' @ password)), s))"

text \<open>\<open>rpc.New\<close>; the wallet and the callbacks are registered afterwards.\<close>

definition NewServer :: "bytes option \<Rightarrow> bool \<Rightarrow> ('s, 'd) Manager \<Rightarrow> AuthConfig option
    \<Rightarrow> (auth_error, bytes option \<times> ('xk, 'sk, 's, 'd) Server) res" where
  "NewServer rnd writable m auth =
     (let s = \<lparr>sv_p2p = m, sv_authUser = [], sv_authPassword = [], sv_cookiePath = [], sv_wallet = None,
               sv_broadcastTx = False, sv_feePerByte = defaultFeePerByte, sv_shutdownFn = False, sv_stopping = False,
               sv_backups = Map.empty\<rparr> in
      case auth of
        None \<Rightarrow> Inr (None, s)
      | Some auth \<Rightarrow> (case initAuth rnd writable auth s of (Inl e, _) \<Rightarrow> Inl e | (Inr cookie, s) \<Rightarrow> Inr (cookie, s)))"

definition SetShutdownFunc :: "('xk, 'sk, 's, 'd) Server \<Rightarrow> ('xk, 'sk, 's, 'd) Server" where
  "SetShutdownFunc s = s\<lparr>sv_shutdownFn := True\<rparr>"

definition SetWallet :: "('xk, 'sk) HDWallet \<Rightarrow> ('xk, 'sk, 's, 'd) Server \<Rightarrow> ('xk, 'sk, 's, 'd) Server" where
  "SetWallet w s = s\<lparr>sv_wallet := Some w\<rparr>"

definition SetBroadcastTx :: "('xk, 'sk, 's, 'd) Server \<Rightarrow> ('xk, 'sk, 's, 'd) Server" where
  "SetBroadcastTx s = s\<lparr>sv_broadcastTx := True\<rparr>"

type_synonym ('xk, 'sk, 's, 'd) handler = "request \<Rightarrow> ('xk, 'sk, 's, 'd) Server \<Rightarrow> response \<times> ('xk, 'sk, 's, 'd) Server"

definition requirePOST :: "('xk, 'sk, 's, 'd) handler \<Rightarrow> ('xk, 'sk, 's, 'd) handler" where
  "requirePOST h r s = (if rq_Method r \<noteq> MethodPost then (Failure 405 PostRequired, s) else h r s)"

definition requireWallet :: "(('xk, 'sk) HDWallet \<Rightarrow> ('xk, 'sk, 's, 'd) handler) \<Rightarrow> ('xk, 'sk, 's, 'd) handler" where
  "requireWallet h r s = (case sv_wallet s of None \<Rightarrow> (Failure 503 WalletNotLoaded, s) | Some w \<Rightarrow> h w r s)"

text \<open>A parameter that has to be given, and a hash in it.\<close>

definition withParam :: "string \<Rightarrow> (bytes \<Rightarrow> ('xk, 'sk, 's, 'd) handler) \<Rightarrow> ('xk, 'sk, 's, 'd) handler" where
  "withParam key h r s = (if query r key = [] then (Failure 400 (MissingParam key), s) else h (query r key) r s)"

definition withHash :: "string \<Rightarrow> (hash \<Rightarrow> ('xk, 'sk, 's, 'd) handler) \<Rightarrow> ('xk, 'sk, 's, 'd) handler" where
  "withHash key h = withParam key (\<lambda>v r s.
     case HashFromReverseHex (strOf v) of Inl e \<Rightarrow> (Failure 400 (BadHashParam key e), s) | Inr x \<Rightarrow> h x r s)"

definition withUint32 :: "string \<Rightarrow> (u32 \<Rightarrow> ('xk, 'sk, 's, 'd) handler) \<Rightarrow> ('xk, 'sk, 's, 'd) handler" where
  "withUint32 key h = withParam key (\<lambda>v r s.
     case scanUint32 v of None \<Rightarrow> (Failure 400 (InvalidParam key), s) | Some n \<Rightarrow> h n r s)"

definition jHash :: "hash \<Rightarrow> json" where "jHash h = JStr (ascii (ReverseString h))"
definition jStr :: "string \<Rightarrow> json" where "jStr s = JStr (ascii s)"
definition jHex :: "bytes \<Rightarrow> json" where "jHex b = JStr (ascii (hexEncode b))"
definition jNat :: "nat \<Rightarrow> json" where "jNat n = JInt (int n)"
definition jWord :: "'a::len word \<Rightarrow> json" where "jWord x = JInt (uint x)"
definition jBtc :: "u64 \<Rightarrow> json" where "jBtc v = JQuot (uint v) 100000000"

end
