(* ===== verification/Rpc_Handlers.thy ===== *)
theory Rpc_Handlers
  imports Rpc
begin

text \<open>
  The handlers of the chain, network, pool and control endpoints (\<open>internal/rpc/server.go\<close>). An object
  lists its fields in the order of the source.
\<close>

section \<open>Control and chain\<close>

text \<open>The floating-point difficulty of \<open>GetChainInfo\<close>: the initial target over the target of the tip.\<close>

definition difficulty :: "('sg, 'pk, 'sk, 's) chain_env \<Rightarrow> 's Chain \<Rightarrow> json" where
  "difficulty E c =
     (case st_GetHeader (en_store E) (ch_store c) (ch_tipHash c) of
        Inl _ \<Rightarrow> JQuot 0 1
      | Inr h \<Rightarrow>
          let target = CompactToBig (Bits h) in
          if target > 0 then JQuot (CompactToBig (InitialBits (en_params E))) target else JQuot 0 1)"

definition handleGetInfo :: "('sg, 'pk, 'sk, 'xk, 's, 'd) rpc_env \<Rightarrow> ('xk, 'sk, 's, 'd) handler" where
  "handleGetInfo R r s =
     (case Tip (sv_chain s) of (tipHash, tipHeight) \<Rightarrow>
       (Reply (JObj [(''version'', jWord ProtocolVersion), (''protocolversion'', jWord ProtocolVersion),
          (''blocks'', jWord tipHeight), (''bestblockhash'', jHash tipHash),
          (''difficulty'', difficulty (re_chain R) (sv_chain s)), (''connections'', jNat (PeerCount (sv_p2p s))),
          (''network'', jStr (Name (re_params R))), (''mempool_size'', jNat (Count (sv_mempool s)))]), s))"

definition handleStop :: "('xk, 'sk, 's, 'd) handler" where
  "handleStop = requirePOST (\<lambda>r s.
     (Reply (jStr ''Fairchain server stopping''), if sv_shutdownFn s then s\<lparr>sv_stopping := True\<rparr> else s))"

definition handleGetBlockchainInfo :: "('sg, 'pk, 'sk, 'xk, 's, 'd) rpc_env \<Rightarrow> ('xk, 'sk, 's, 'd) handler" where
  "handleGetBlockchainInfo R r s =
     (let info = GetChainInfo (re_chain R) (sv_chain s) in
      (Reply (JObj [(''chain'', jStr (ci_Network info)), (''blocks'', jWord (ci_Height info)), (''headers'', jWord (ci_Height info)),
         (''bestblockhash'', jHash (ci_BestHash info)), (''bits'', JStr (padHex 8 (unat (ci_Bits info)))),
         (''difficulty'', difficulty (re_chain R) (sv_chain s)), (''mediantime'', jWord (ci_MedianTimePast info)),
         (''verificationprogress'', JQuot 1 1), (''initialblockdownload'', JBool (IsSyncing (sv_p2p s))),
         (''chainwork'', JStr (padHex 64 (nat (ci_Chainwork info)))), (''pruned'', JBool False), (''warnings'', jStr '''')]), s))"

definition handleGetChainStatus :: "('sg, 'pk, 'sk, 'xk, 's, 'd) rpc_env \<Rightarrow> ('xk, 'sk, 's, 'd) handler" where
  "handleGetChainStatus R r s =
     (let info = GetChainInfo (re_chain R) (sv_chain s) in
      (Reply (JObj [(''blocks'', jWord (ci_Height info)), (''bestblockhash'', jHash (ci_BestHash info)),
         (''bits'', JStr (padHex 8 (unat (ci_Bits info)))), (''difficulty'', difficulty (re_chain R) (sv_chain s)),
         (''peers'', jNat (PeerCount (sv_p2p s))), (''retarget_epoch'', jWord (ci_RetargetEpoch info)),
         (''epoch_progress'', jWord (ci_EpochProgress info)), (''retarget_interval'', jWord (ci_RetargetInterval info))]), s))"

definition handleGetBlockCount :: "('xk, 'sk, 's, 'd) handler" where
  "handleGetBlockCount r s = (Reply (jWord (snd (Tip (sv_chain s)))), s)"

definition handleGetBestBlockHash :: "('xk, 'sk, 's, 'd) handler" where
  "handleGetBestBlockHash r s = (Reply (jHash (fst (Tip (sv_chain s)))), s)"

definition handleGetBlockHash :: "('sg, 'pk, 'sk, 'xk, 's, 'd) rpc_env \<Rightarrow> ('xk, 'sk, 's, 'd) handler" where
  "handleGetBlockHash R = withUint32 ''height'' (\<lambda>height r s.
     case GetHeaderByHeight (re_chain R) (sv_chain s) height of
       Inl _ \<Rightarrow> (Failure 404 (HeightNotFound height), s)
     | Inr header \<Rightarrow> (Reply (jHash (HashBlockHeader (re_sha R) header)), s))"

definition txids :: "(bytes \<Rightarrow> bytes) \<Rightarrow> Block \<Rightarrow> json" where
  "txids sha block = JArr (map (\<lambda>tx. jHash (HashTransaction sha tx)) (Transactions block))"

text \<open>
  The fields that both block endpoints end with. A block that is not in \<open>heightByHash\<close> is reported at
  height 0 with -1 confirmations.
\<close>

definition blockTail :: "(bytes \<Rightarrow> bytes) \<Rightarrow> Block \<Rightarrow> (string \<times> json) list" where
  "blockTail sha block =
     [(''version'', jWord (hdr_Version (Header block))), (''merkleroot'', jHash (MerkleRootH (Header block))),
      (''tx'', txids sha block), (''time'', jWord (Timestamp (Header block))), (''nonce'', jWord (Nonce (Header block))),
      (''bits'', JStr (padHex 8 (unat (Bits (Header block))))), (''previousblockhash'', jHash (PrevBlock (Header block))),
      (''nTx'', jNat (length (Transactions block)))]"

definition handleGetBlock :: "('sg, 'pk, 'sk, 'xk, 's, 'd) rpc_env \<Rightarrow> ('xk, 'sk, 's, 'd) handler" where
  "handleGetBlock R = withHash ''hash'' (\<lambda>hash r s.
     case Chain_GetBlock (re_chain R) (sv_chain s) hash of
       Inl e \<Rightarrow> (Failure 404 (BlockMissing e), s)
     | Inr block \<Rightarrow>
         let bhash = HashBlockHeader (re_sha R) (Header block); tipHeight = snd (Tip (sv_chain s));
             known = GetBlockHeight (sv_chain s) bhash;
             blockHeight = (case known of None \<Rightarrow> 0 | Some h \<Rightarrow> h);
             confs = (case known of None \<Rightarrow> - 1 | Some h \<Rightarrow> uint tipHeight - uint h + 1) in
         (Reply (JObj ([(''hash'', jHash bhash), (''confirmations'', JInt confs), (''size'', JInt 0), (''height'', jWord blockHeight)]
            @ blockTail (re_sha R) block)), s))"

definition handleGetBlockByHeight :: "('sg, 'pk, 'sk, 'xk, 's, 'd) rpc_env \<Rightarrow> ('xk, 'sk, 's, 'd) handler" where
  "handleGetBlockByHeight R = withUint32 ''height'' (\<lambda>height r s.
     case GetBlockByHeight (re_chain R) (sv_chain s) height of
       Inl e \<Rightarrow> (Failure 404 (BlockLookup e), s)
     | Inr (block, bhash) \<Rightarrow>
         (Reply (JObj ([(''hash'', jHash bhash), (''confirmations'', JInt (uint (snd (Tip (sv_chain s))) - uint height + 1)),
            (''height'', jWord height)] @ blockTail (re_sha R) block)), s))"

definition handleGetDifficulty :: "('sg, 'pk, 'sk, 'xk, 's, 'd) rpc_env \<Rightarrow> ('xk, 'sk, 's, 'd) handler" where
  "handleGetDifficulty R r s = (Reply (difficulty (re_chain R) (sv_chain s)), s)"

section \<open>Network\<close>

definition handleGetNetworkInfo :: "('sg, 'pk, 'sk, 'xk, 's, 'd) rpc_env \<Rightarrow> ('xk, 'sk, 's, 'd) handler" where
  "handleGetNetworkInfo R r s =
     (case ConnectionCounts (re_net R) (sv_p2p s) of (inbound, outbound) \<Rightarrow>
       (Reply (JObj [(''version'', jWord ProtocolVersion), (''subversion'', JStr UserAgent), (''protocolversion'', jWord ProtocolVersion),
          (''connections'', jNat (PeerCount (sv_p2p s))), (''connections_in'', jNat inbound), (''connections_out'', jNat outbound),
          (''networkactive'', JBool True), (''networks'', JArr [JObj [(''name'', jStr ''ipv4''), (''reachable'', JBool True)]]),
          (''warnings'', jStr '''')]), s))"

text \<open>The information on a peer; an empty local address is left out. A zero latency means that there is none.\<close>

definition Info :: "('sg, 'pk, 'sk, 'xk, 's, 'd) rpc_env \<Rightarrow> Peer \<Rightarrow> json" where
  "Info R p =
     (let v = pe_version p; secs = (\<lambda>d. if d > 0 then JSeconds d else JQuot 0 1) in
      JObj ([(''id'', JInt (pe_id p)), (''addr'', JStr (pe_addr p))]
        @ (if re_localAddr R (pe_addr p) = [] then [] else [(''addrlocal'', JStr (re_localAddr R (pe_addr p)))])
        @ [(''network'', JStr (classifyNetwork (pe_addr p))),
           (''services'', JStr (case v of None \<Rightarrow> [] | Some v \<Rightarrow> padHex 16 (unat (vm_Services v)))),
           (''relaytxes'', JBool True), (''lastsend'', JInt (pe_lastSend p)), (''lastrecv'', JInt (pe_lastRecv p)),
           (''last_transaction'', JInt (pe_lastTxTime p)), (''last_block'', JInt (pe_lastBlockTime p)),
           (''bytessent'', JInt (pe_bytesSent p)), (''bytesrecv'', JInt (pe_bytesRecv p)), (''conntime'', JInt (Unix (pe_connectedAt p))),
           (''timeoffset'', JInt 0), (''pingtime'', secs (pe_pingLatency p)), (''minping'', secs (pe_minPingLatency p)),
           (''version'', JInt (case v of None \<Rightarrow> 0 | Some v \<Rightarrow> uint (vm_Version v))),
           (''subver'', JStr (case v of None \<Rightarrow> [] | Some v \<Rightarrow> vm_UserAgent v)),
           (''inbound'', JBool (pe_inbound p)), (''bip152_hb_to'', JBool False),
           (''startingheight'', JInt (case v of None \<Rightarrow> 0 | Some v \<Rightarrow> sint (vm_StartHeight v))),
           (''synced_headers'', JInt (pe_syncedHeaders p)), (''synced_blocks'', JInt (pe_syncedBlocks p)),
           (''banscore'', JInt (pe_banScore p)), (''connection_type'', JStr (ascii (pe_connType p)))]))"

definition PeerInfos :: "('sg, 'pk, 'sk, 'xk, 's, 'd) rpc_env \<Rightarrow> ('s, 'd) Manager \<Rightarrow> json list" where
  "PeerInfos R m = map (Info R) (rangePeers (re_net R) m)"

definition handleGetPeerInfo :: "('sg, 'pk, 'sk, 'xk, 's, 'd) rpc_env \<Rightarrow> ('xk, 'sk, 's, 'd) handler" where
  "handleGetPeerInfo R r s = (Reply (JArr (PeerInfos R (sv_p2p s))), s)"

definition handleMetrics :: "('sg, 'pk, 'sk, 'xk, 's, 'd) rpc_env \<Rightarrow> ('xk, 'sk, 's, 'd) handler" where
  "handleMetrics R r s = (Reply (re_metrics R), s)"

definition handleGetConnectionCount :: "('xk, 'sk, 's, 'd) handler" where
  "handleGetConnectionCount r s = (Reply (jNat (PeerCount (sv_p2p s))), s)"

definition handleAddNode :: "('sg, 'pk, 'sk, 'xk, 's, 'd) rpc_env \<Rightarrow> ('xk, 'sk, 's, 'd) handler" where
  "handleAddNode R = withParam ''node'' (\<lambda>addr r s.
     case AddNode (re_net R) addr (sv_p2p s) of
       (Inl e, m) \<Rightarrow> (Failure 400 (NodeErr e), s\<lparr>sv_p2p := m\<rparr>)
     | (Inr _, m) \<Rightarrow> (Reply (JObj [(''added'', JStr addr)]), s\<lparr>sv_p2p := m\<rparr>))"

definition handleDisconnectNode :: "('xk, 'sk, 's, 'd) handler" where
  "handleDisconnectNode = withParam ''address'' (\<lambda>addr r s.
     case DisconnectNode addr (sv_p2p s) of
       (Inl e, m) \<Rightarrow> (Failure 404 (NodeErr e), s\<lparr>sv_p2p := m\<rparr>)
     | (Inr _, m) \<Rightarrow> (Reply (JObj [(''disconnected'', JStr addr)]), s\<lparr>sv_p2p := m\<rparr>))"

section \<open>Blocks\<close>

text \<open>The errors of \<open>ProcessBlock\<close> that stand for a panic.\<close>

fun chainPanics :: "chain_error \<Rightarrow> bool" where
  "chainPanics (InvalidHeader EnginePanic) = True"
| "chainPanics (InvalidInputs NoCoinbasePanic) = True"
| "chainPanics (ReorgFailed (BadUndo _ UtxoPanic)) = True"
| "chainPanics (ReorgFailed (ReorgInputs _ NoCoinbasePanic)) = True"
| "chainPanics e = False"

text \<open>Bytes of the body after the block are ignored. Neither the pool nor the peers hear of an accepted block.\<close>

definition handleSubmitBlock :: "('sg, 'pk, 'sk, 'xk, 's, 'd) rpc_env \<Rightarrow> ('xk, 'sk, 's, 'd) handler" where
  "handleSubmitBlock R = requirePOST (\<lambda>r s.
     case Block_Deserialize (rq_Body r) of
       Inl e \<Rightarrow> (Failure 400 (BadBlock e), s)
     | Inr (block, _) \<Rightarrow>
         (case chainStep (re_net R) block (sv_p2p s) of
            ((height, Some e), m) \<Rightarrow> (if chainPanics e then Dropped else Failure 400 (BlockRejected e), s\<lparr>sv_p2p := m\<rparr>)
          | ((height, None), m) \<Rightarrow>
              (Reply (JObj [(''accepted'', JBool True), (''hash'', jHash (HashBlockHeader (re_sha R) (Header block))),
                 (''height'', jWord height)]), s\<lparr>sv_p2p := m\<rparr>)))"

section \<open>The pool\<close>

definition handleGetMempoolInfo :: "('xk, 'sk, 's, 'd) handler" where
  "handleGetMempoolInfo r s = (Reply (JObj [(''loaded'', JBool True), (''size'', jNat (Count (sv_mempool s)))]), s)"

definition entryFields :: "TxEntry \<Rightarrow> json" where
  "entryFields e = JObj [(''size'', jNat (te_Size e)), (''fee'', jWord (te_Fee e)), (''fees'', JObj [(''base'', jWord (te_Fee e))]),
     (''feerate'', jWord (te_FeeRate e))]"

definition handleGetRawMempool :: "('sg, 'pk, 'sk, 'xk, 's, 'd) rpc_env \<Rightarrow> ('xk, 'sk, 's, 'd) handler" where
  "handleGetRawMempool R r s =
     (let mp = sv_mempool s in
      if query r ''verbose'' \<noteq> ascii ''true'' then (Reply (JArr (map jHash (GetTxHashes mp (re_poolOrder R mp)))), s)
      else (Reply (JMap (map (\<lambda>e. (ascii (ReverseString (te_Hash e)), entryFields e)) (GetAllEntries mp (re_poolOrder R mp)))), s))"

definition handleGetMempoolEntry :: "('xk, 'sk, 's, 'd) handler" where
  "handleGetMempoolEntry = withHash ''txid'' (\<lambda>txHash r s.
     case GetTxEntry (sv_mempool s) txHash of
       None \<Rightarrow> (Failure 404 (NotInMempool (query r ''txid'')), s)
     | Some e \<Rightarrow> (Reply (entryFields e), s))"

section \<open>Unspent outputs\<close>

definition handleGetTxOut :: "('xk, 'sk, 's, 'd) handler" where
  "handleGetTxOut = withHash ''txid'' (\<lambda>txHash. withUint32 ''n'' (\<lambda>n r s.
     case Set_Get (ch_utxoSet (sv_chain s)) txHash n of
       None \<Rightarrow> (Reply JNull, s)
     | Some e \<Rightarrow>
         (case Tip (sv_chain s) of (tipHash, tipHeight) \<Rightarrow>
           (Reply (JObj [(''bestblock'', jHash tipHash), (''confirmations'', jWord (confirmations tipHeight (ue_Height e))),
              (''value'', jWord (ue_Value e)), (''scriptPubKey'', JObj [(''hex'', jHex (ue_PkScript e))]),
              (''coinbase'', JBool (ue_IsCoinbase e))]), s))))"

definition handleGetTxOutSetInfo :: "('sg, 'pk, 'sk, 'xk, 's, 'd) rpc_env \<Rightarrow> ('xk, 'sk, 's, 'd) handler" where
  "handleGetTxOutSetInfo R r s =
     (let info = TxOutSetInfo (re_utxoOrder R) (sv_chain s) in
      (Reply (JObj [(''height'', jWord (ti_Height info)), (''bestblock'', jHash (ti_BestHash info)),
         (''txouts'', jNat (ti_TxOuts info)), (''total_amount'', jWord (ti_TotalValue info))]), s))"

end
