(* ===== verification/Rpc_Wallet.thy ===== *)
theory Rpc_Wallet
  imports Rpc_Handlers Paths
begin

text \<open>
  The wallet endpoints (\<open>internal/rpc/wallet_rpc.go\<close>), the table of endpoints and the authentication in
  front of it. The interface \<open>WalletInterface\<close> is implemented by \<open>HDWallet\<close>; the iterator that
  \<open>makeUtxoIterator\<close> returns ranges over the chain's set in the order \<open>re_utxoOrder\<close>.
\<close>

section \<open>Helpers\<close>

definition walletPanics :: "wallet_error \<Rightarrow> bool" where
  "walletPanics e \<longleftrightarrow> e = NilKeyPanic \<or> e = CbcPanic"

definition walletFailure :: "nat \<Rightarrow> wallet_error \<Rightarrow> response" where
  "walletFailure code e = (if walletPanics e then Dropped else Failure code (WalletErr e))"

definition buildPanics :: "build_error \<Rightarrow> bool" where
  "buildPanics e = (case e of DeriveChangeFailed e \<Rightarrow> walletPanics e | _ \<Rightarrow> False)"

definition buildFailure :: "build_error \<Rightarrow> response" where
  "buildFailure e = (if buildPanics e then Dropped else Failure 400 (BuildErr e))"

definition utxoOrder :: "('sg, 'pk, 'sk, 'xk, 's, 'd) rpc_env \<Rightarrow> ('xk, 'sk, 's, 'd) Server \<Rightarrow> bytes list" where
  "utxoOrder R s = re_utxoOrder R (ch_utxoSet (sv_chain s))"

definition walletCoins :: "('sg, 'pk, 'sk, 'xk, 's, 'd) rpc_env \<Rightarrow> ('xk, 'sk) HDWallet \<Rightarrow> ('xk, 'sk, 's, 'd) Server \<Rightarrow> UnspentOutput list" where
  "walletCoins R w s = FindUnspent (re_wallet R) w (ch_utxoSet (sv_chain s)) (utxoOrder R s) (snd (Tip (sv_chain s)))"

definition walletBalance :: "('sg, 'pk, 'sk, 'xk, 's, 'd) rpc_env \<Rightarrow> ('xk, 'sk) HDWallet \<Rightarrow> ('xk, 'sk, 's, 'd) Server \<Rightarrow> u32 \<Rightarrow> u64" where
  "walletBalance R w s minConf =
     GetBalance w (ch_utxoSet (sv_chain s)) (utxoOrder R s) (snd (Tip (sv_chain s))) minConf (CoinbaseMaturity (re_params R))"

definition submitTxToMempool :: "('sg, 'pk, 'sk, 'xk, 's, 'd) rpc_env \<Rightarrow> Transaction \<Rightarrow> ('xk, 'sk, 's, 'd) Server
    \<Rightarrow> (mempool_error, hash) res \<times> ('xk, 'sk, 's, 'd) Server" where
  "submitTxToMempool R tx s =
     (case AddTx (en_lib (re_chain R)) (sv_mempool s) tx of
        (Inl e, mp) \<Rightarrow> (Inl e, s\<lparr>sv_p2p := (sv_p2p s)\<lparr>mg_mempool := mp\<rparr>\<rparr>)
      | (Inr txHash, mp) \<Rightarrow>
          let m = (sv_p2p s)\<lparr>mg_mempool := mp\<rparr> in
          (Inr txHash, s\<lparr>sv_p2p := (if sv_broadcastTx s then BroadcastTx (re_net R) txHash m else m)\<rparr>))"

text \<open>A number of confirmations: a text that is no number leaves the default, or counts with what \<open>ParseUint\<close> gives beside the error.\<close>

definition confParam :: "request \<Rightarrow> string \<Rightarrow> u32" where
  "confParam r key =
     (if query r key = [] then 1 else case ParseUint 32 (query r key) of (None, v) \<Rightarrow> of_nat v | (Some _, _) \<Rightarrow> 1)"

definition confParamLoose :: "request \<Rightarrow> string \<Rightarrow> u32 \<Rightarrow> u32" where
  "confParamLoose r key dflt = (if query r key = [] then dflt else of_nat (snd (ParseUint 32 (query r key))))"

section \<open>Addresses and balances\<close>

definition handleGetNewAddress :: "('sg, 'pk, 'sk, 'xk, 's, 'd) rpc_env \<Rightarrow> ('xk, 'sk, 's, 'd) handler" where
  "handleGetNewAddress R = requireWallet (\<lambda>w r s.
     case GetNewAddress (re_wallet R) w of
       (Inl e, w) \<Rightarrow> (walletFailure 500 e, s\<lparr>sv_wallet := Some w\<rparr>)
     | (Inr addr, w) \<Rightarrow> (Reply (JStr addr), s\<lparr>sv_wallet := Some w\<rparr>))"

definition handleGetRawChangeAddress :: "('sg, 'pk, 'sk, 'xk, 's, 'd) rpc_env \<Rightarrow> ('xk, 'sk, 's, 'd) handler" where
  "handleGetRawChangeAddress R = requireWallet (\<lambda>w r s.
     case GetChangeAddress (re_wallet R) w of
       (Inl e, w) \<Rightarrow> (walletFailure 500 e, s\<lparr>sv_wallet := Some w\<rparr>)
     | (Inr addr, w) \<Rightarrow> (Reply (JStr addr), s\<lparr>sv_wallet := Some w\<rparr>))"

definition handleGetBalance :: "('sg, 'pk, 'sk, 'xk, 's, 'd) rpc_env \<Rightarrow> ('xk, 'sk, 's, 'd) handler" where
  "handleGetBalance R = requireWallet (\<lambda>w r s.
     let balance = walletBalance R w s (confParam r ''minconf'') in
     (Reply (JObj [(''balance'', jWord balance), (''balance_btc'', jBtc balance)]), s))"

definition listed :: "('sg, 'pk, 'sk, 'xk, 's, 'd) rpc_env \<Rightarrow> u32 \<Rightarrow> u32 \<Rightarrow> UnspentOutput \<Rightarrow> bool" where
  "listed R minConf maxConf u \<longleftrightarrow> \<not> (uo_Confirmations u < minConf \<or> uo_Confirmations u > maxConf)
     \<and> \<not> (uo_IsCoinbase u \<and> uo_Confirmations u < CoinbaseMaturity (re_params R))"

definition handleListUnspent :: "('sg, 'pk, 'sk, 'xk, 's, 'd) rpc_env \<Rightarrow> ('xk, 'sk, 's, 'd) handler" where
  "handleListUnspent R = requireWallet (\<lambda>w r s.
     let minConf = confParamLoose r ''minconf'' 1; maxConf = confParamLoose r ''maxconf'' 9999999 in
     (Reply (JArr (map (\<lambda>u. JObj [(''txid'', jHash (uo_TxHash u)), (''vout'', jWord (uo_Index u)), (''address'', JStr (uo_Address u)),
          (''scriptPubKey'', jHex (uo_PkScript u)), (''amount'', jWord (uo_Value u)), (''amount_btc'', jBtc (uo_Value u)),
          (''confirmations'', jWord (uo_Confirmations u)), (''spendable'', JBool True)])
        (filter (listed R minConf maxConf) (walletCoins R w s)))), s))"

definition handleGetWalletInfo :: "('sg, 'pk, 'sk, 'xk, 's, 'd) rpc_env \<Rightarrow> ('xk, 'sk, 's, 'd) handler" where
  "handleGetWalletInfo R = requireWallet (\<lambda>w r s.
     let balance = walletBalance R w s 1; unconfirmed = walletBalance R w s 0 in
     case (if IsEncrypted w then IsLocked (ne_now (re_net R)) w else (True, w)) of (locked, w') \<Rightarrow>
     (Reply (JObj [(''walletname'', jStr ''default''), (''walletversion'', JInt 1), (''balance'', jWord balance),
        (''balance_btc'', jBtc balance), (''unconfirmed_balance'', jWord (unconfirmed - balance)), (''txcount'', JInt 0),
        (''keypoolsize'', jNat (KeyCount w)), (''paytxfee'', jWord (sv_feePerByte s)),
        (''hdseedid'', JStr (GetDefaultAddress (re_wallet R) w)), (''private_keys_enabled'', JBool True),
        (''unlocked_until'', JInt (if locked then 0 else - 1))]), s\<lparr>sv_wallet := Some w'\<rparr>))"

text \<open>The last \<open>count\<close> entries are kept.\<close>

definition category :: "('sg, 'pk, 'sk, 'xk, 's, 'd) rpc_env \<Rightarrow> UnspentOutput \<Rightarrow> string" where
  "category R u =
     (if uo_IsCoinbase u then (if uo_Confirmations u \<ge> CoinbaseMaturity (re_params R) then ''generate'' else ''immature'') else ''receive'')"

definition countParam :: "request \<Rightarrow> int" where
  "countParam r =
     (if query r ''count'' = [] then 10
      else case ParseInt64 (query r ''count'') of (None, v) \<Rightarrow> (if v > 0 then v else 10) | (Some _, _) \<Rightarrow> 10)"

definition handleListTransactions :: "('sg, 'pk, 'sk, 'xk, 's, 'd) rpc_env \<Rightarrow> ('xk, 'sk, 's, 'd) handler" where
  "handleListTransactions R = requireWallet (\<lambda>w r s.
     let results = map (\<lambda>u. JObj [(''address'', JStr (uo_Address u)), (''category'', jStr (category R u)), (''amount'', jWord (uo_Value u)),
           (''amount_btc'', jBtc (uo_Value u)), (''confirmations'', jWord (uo_Confirmations u)), (''txid'', jHash (uo_TxHash u)),
           (''vout'', jWord (uo_Index u)), (''blockheight'', jWord (uo_Height u))]) (walletCoins R w s) in
     (Reply (JArr (if int (length results) > countParam r then drop (length results - nat (countParam r)) results else results)), s))"

text \<open>The value under a script, over the outputs with at least \<open>minConf\<close> confirmations.\<close>

definition scriptBalance :: "('sg, 'pk, 'sk, 'xk, 's, 'd) rpc_env \<Rightarrow> bytes \<Rightarrow> u32 \<Rightarrow> ('xk, 'sk, 's, 'd) Server \<Rightarrow> u64" where
  "scriptBalance R script minConf s =
     ForEach (\<lambda>txHash index e total.
       if ue_PkScript e \<noteq> script then total
       else if confirmations (snd (Tip (sv_chain s))) (ue_Height e) < minConf then total
       else total + ue_Value e) (ch_utxoSet (sv_chain s)) (utxoOrder R s) 0"

definition handleGetReceivedByAddress :: "('sg, 'pk, 'sk, 'xk, 's, 'd) rpc_env \<Rightarrow> ('xk, 'sk, 's, 'd) handler" where
  "handleGetReceivedByAddress R = withParam ''address'' (\<lambda>address r s.
     case AddressToPubKeyHash (re_sha R) address of
       Inl e \<Rightarrow> (Failure 400 (BadAddress e), s)
     | Inr (_, destPKH) \<Rightarrow>
         let total = scriptBalance R (MakeP2PKHScript destPKH) (confParam r ''minconf'') s in
         (Reply (JObj [(''amount'', jWord total), (''amount_btc'', jBtc total)]), s))"

definition handleListAddressGroupings :: "('sg, 'pk, 'sk, 'xk, 's, 'd) rpc_env \<Rightarrow> ('xk, 'sk, 's, 'd) handler" where
  "handleListAddressGroupings R = requireWallet (\<lambda>w r s.
     (Reply (JArr [JArr (concat (map (\<lambda>addr.
        case AddressToPubKeyHash (re_sha R) addr of
          Inl _ \<Rightarrow> []
        | Inr (_, pkh) \<Rightarrow>
            let balance = scriptBalance R (MakeP2PKHScript pkh) 1 s in
            [JArr [JStr addr, jWord balance, jBtc balance]]) (AllAddresses (re_wallet R) w)))]), s))"

definition handleGetAddressesByLabel :: "('sg, 'pk, 'sk, 'xk, 's, 'd) rpc_env \<Rightarrow> ('xk, 'sk, 's, 'd) handler" where
  "handleGetAddressesByLabel R = requireWallet (\<lambda>w r s.
     (Reply (JMap (map (\<lambda>addr. (addr, JObj [(''purpose'', jStr ''receive'')])) (ExternalAddresses (re_wallet R) w))), s))"

definition handleValidateAddress :: "('sg, 'pk, 'sk, 'xk, 's, 'd) rpc_env \<Rightarrow> ('xk, 'sk, 's, 'd) handler" where
  "handleValidateAddress R = withParam ''address'' (\<lambda>address r s.
     case AddressToPubKeyHash (re_sha R) address of
       Inl _ \<Rightarrow> (Reply (JObj [(''isvalid'', JBool False), (''address'', JStr address)]), s)
     | Inr (ver, pkh) \<Rightarrow>
         let isMine = (case sv_wallet s of None \<Rightarrow> False | Some w \<Rightarrow> GetKeyForAddress w address \<noteq> None) in
         (Reply (JObj [(''isvalid'', JBool True), (''address'', JStr address), (''scriptPubKey'', jHex (MakeP2PKHScript pkh)),
            (''ismine'', JBool isMine), (''iswatchonly'', JBool False), (''isscript'', JBool False), (''version'', jWord ver)]), s))"

section \<open>Payments\<close>

text \<open>A locked wallet answers 403. Checking may relock the wallet when its time has run out.\<close>

definition requireUnlocked :: "('sg, 'pk, 'sk, 'xk, 's, 'd) rpc_env \<Rightarrow> (('xk, 'sk) HDWallet \<Rightarrow> ('xk, 'sk, 's, 'd) handler)
    \<Rightarrow> ('xk, 'sk) HDWallet \<Rightarrow> ('xk, 'sk, 's, 'd) handler" where
  "requireUnlocked R h w r s =
     (case RequireUnlocked (ne_now (re_net R)) w of
        (Inl e, w) \<Rightarrow> (Failure 403 (WalletErr e), s\<lparr>sv_wallet := Some w\<rparr>)
      | (Inr _, w) \<Rightarrow> h w r (s\<lparr>sv_wallet := Some w\<rparr>))"

definition replyTx :: "(mempool_error, hash) res \<times> ('xk, 'sk, 's, 'd) Server \<Rightarrow> response \<times> ('xk, 'sk, 's, 'd) Server" where
  "replyTx x = (case x of (Inl e, s) \<Rightarrow> (Failure 400 (TxRejected e), s) | (Inr txHash, s) \<Rightarrow> (Reply (jHash txHash), s))"

definition handleSendToAddress :: "('sg, 'pk, 'sk, 'xk, 's, 'd) rpc_env \<Rightarrow> ('xk, 'sk, 's, 'd) handler" where
  "handleSendToAddress R = requirePOST (requireWallet (requireUnlocked R (\<lambda>w r s.
     if query r ''address'' = [] \<or> query r ''amount'' = [] then (Failure 400 (MissingParam ''address or amount''), s)
     else case ParseUint 64 (query r ''amount'') of
       (Some _, _) \<Rightarrow> (Failure 400 (InvalidParam ''amount''), s)
     | (None, amount) \<Rightarrow>
         (case BuildTransaction (re_wallet R) (re_sortCoins R) (ne_now (re_net R))
                 \<lparr>sr_ToAddress = query r ''address'', sr_Amount = of_nat amount\<rparr> (sv_feePerByte s)
                 (walletCoins R w s) (CoinbaseMaturity (re_params R)) (snd (Tip (sv_chain s))) w of
            (Inl e, w) \<Rightarrow> (buildFailure e, s\<lparr>sv_wallet := Some w\<rparr>)
          | (Inr tx, w) \<Rightarrow> replyTx (submitTxToMempool R tx (s\<lparr>sv_wallet := Some w\<rparr>))))))"

definition withTx :: "(Transaction \<Rightarrow> ('xk, 'sk, 's, 'd) handler) \<Rightarrow> ('xk, 'sk, 's, 'd) handler" where
  "withTx h = withParam ''hexstring'' (\<lambda>v r s.
     case hexDecode (strOf v) of
       None \<Rightarrow> (Failure 400 (InvalidParam ''hexstring''), s)
     | Some txBytes \<Rightarrow>
         (case Tx_Deserialize txBytes of Inl e \<Rightarrow> (Failure 400 (BadTransaction e), s) | Inr (tx, _) \<Rightarrow> h tx r s))"

definition handleSendRawTransaction :: "('sg, 'pk, 'sk, 'xk, 's, 'd) rpc_env \<Rightarrow> ('xk, 'sk, 's, 'd) handler" where
  "handleSendRawTransaction R = requirePOST (withTx (\<lambda>tx r s. replyTx (submitTxToMempool R tx s)))"

definition getPrevScript :: "('xk, 'sk, 's, 'd) Server \<Rightarrow> hash \<Rightarrow> u32 \<Rightarrow> bytes option" where
  "getPrevScript s txHash index = map_option ue_PkScript (Set_Get (ch_utxoSet (sv_chain s)) txHash index)"

definition handleSignRawTransactionWithWallet :: "('sg, 'pk, 'sk, 'xk, 's, 'd) rpc_env \<Rightarrow> ('xk, 'sk, 's, 'd) handler" where
  "handleSignRawTransactionWithWallet R = requirePOST (requireWallet (requireUnlocked R (\<lambda>w. withTx (\<lambda>tx r s.
     case SignRawTransaction (re_wallet R) (ne_now (re_net R)) tx (getPrevScript s) w of
       (((_, _, Some e), _), w) \<Rightarrow> (walletFailure 500 e, s\<lparr>sv_wallet := Some w\<rparr>)
     | (((_, complete, None), tx), w) \<Rightarrow>
         (Reply (JObj [(''hex'', jHex (Tx_Serialize tx)), (''complete'', JBool complete)]), s\<lparr>sv_wallet := Some w\<rparr>)))))"

definition handleSetTxFee :: "('xk, 'sk, 's, 'd) handler" where
  "handleSetTxFee = requirePOST (withParam ''amount'' (\<lambda>v r s.
     case ParseUint 64 v of
       (Some _, _) \<Rightarrow> (Failure 400 (InvalidParam ''amount''), s)
     | (None, n) \<Rightarrow>
         let fee = of_nat n in
         if fee > maxFeePerByte then (Failure 400 (FeeTooHigh fee), s) else (Reply (JBool True), s\<lparr>sv_feePerByte := fee\<rparr>)))"

definition detailOf :: "('sg, 'pk, 'sk, 'xk, 's, 'd) rpc_env \<Rightarrow> ('xk, 'sk, 's, 'd) Server \<Rightarrow> u32 \<Rightarrow> UtxoEntry \<Rightarrow> json" where
  "detailOf R s index e =
     (let addr = (case (ExtractP2PKHHash (ue_PkScript e), sv_wallet s) of
                    (Some pkh, Some w) \<Rightarrow> PubKeyHashToAddress (re_sha R) pkh (AddressVersion w)
                  | _ \<Rightarrow> []) in
      JObj [(''address'', JStr addr), (''vout'', jWord index), (''amount'', jWord (ue_Value e)), (''category'', jStr ''receive'')])"

text \<open>The unspent outputs of a transaction: the height of the last one seen, the sum and the details; \<open>None\<close> when there is none.\<close>

definition scanTx :: "('sg, 'pk, 'sk, 'xk, 's, 'd) rpc_env \<Rightarrow> hash \<Rightarrow> ('xk, 'sk, 's, 'd) Server \<Rightarrow> (u32 \<times> u64 \<times> json list) option" where
  "scanTx R txHash s =
     ForEach (\<lambda>h index e acc.
       if h \<noteq> txHash then acc
       else case (case acc of None \<Rightarrow> (0, 0, []) | Some x \<Rightarrow> x) of
         (_, amount, details) \<Rightarrow> Some (ue_Height e, amount + ue_Value e, details @ [detailOf R s index e]))
       (ch_utxoSet (sv_chain s)) (utxoOrder R s) None"

definition handleGetTransaction :: "('sg, 'pk, 'sk, 'xk, 's, 'd) rpc_env \<Rightarrow> ('xk, 'sk, 's, 'd) handler" where
  "handleGetTransaction R = withHash ''txid'' (\<lambda>txHash r s.
     case GetTxEntry (sv_mempool s) txHash of
       Some entry \<Rightarrow>
         (Reply (JObj [(''txid'', JStr (query r ''txid'')), (''confirmations'', JInt 0), (''hex'', jHex (Tx_Serialize (te_Tx entry))),
            (''fee'', jWord (te_Fee entry))]), s)
     | None \<Rightarrow>
         (case scanTx R txHash s of
            None \<Rightarrow> (Failure 404 TxNotFound, s)
          | Some (height, amount, details) \<Rightarrow>
              (Reply (JObj [(''txid'', JStr (query r ''txid'')), (''confirmations'', jWord (confirmations (snd (Tip (sv_chain s))) height)),
                 (''blockheight'', jWord height), (''amount'', jWord amount), (''details'', JArr details)]), s)))"

section \<open>Keys and encryption\<close>

definition handleDumpPrivKey :: "('sg, 'pk, 'sk, 'xk, 's, 'd) rpc_env \<Rightarrow> ('xk, 'sk, 's, 'd) handler" where
  "handleDumpPrivKey R = requireWallet (\<lambda>w. withParam ''address'' (\<lambda>address r s.
     case DumpPrivKey (re_wallet R) (ne_now (re_net R)) address w of
       (Inl e, w) \<Rightarrow> (walletFailure 404 e, s\<lparr>sv_wallet := Some w\<rparr>)
     | (Inr key, w) \<Rightarrow> (Reply (JStr key), s\<lparr>sv_wallet := Some w\<rparr>)))"

definition handleImportPrivKey :: "('sg, 'pk, 'sk, 'xk, 's, 'd) rpc_env \<Rightarrow> ('xk, 'sk, 's, 'd) handler" where
  "handleImportPrivKey R = requirePOST (requireWallet (\<lambda>w. withParam ''privkey'' (\<lambda>privKey r s.
     case ImportPrivKey (re_wallet R) privKey w of
       (Inl e, w) \<Rightarrow> (walletFailure 400 e, s\<lparr>sv_wallet := Some w\<rparr>)
     | (Inr addr, w) \<Rightarrow> (Reply (JObj [(''address'', JStr addr)]), s\<lparr>sv_wallet := Some w\<rparr>))))"

definition handleDumpWallet :: "('sg, 'pk, 'sk, 'xk, 's, 'd) rpc_env \<Rightarrow> ('xk, 'sk, 's, 'd) handler" where
  "handleDumpWallet R = requireWallet (requireUnlocked R (\<lambda>w r s.
     case Mnemonic (ne_now (re_net R)) w of (mnemonic, w) \<Rightarrow>
     (Reply (JObj [(''mnemonic'', JStr mnemonic), (''addresses'', JArr (map JStr (AllAddresses (re_wallet R) w))),
        (''keypoolsize'', jNat (KeyCount w))]), s\<lparr>sv_wallet := Some w\<rparr>)))"

definition handleEncryptWallet :: "('sg, 'pk, 'sk, 'xk, 's, 'd) rpc_env \<Rightarrow> ('xk, 'sk, 's, 'd) handler" where
  "handleEncryptWallet R = requirePOST (requireWallet (\<lambda>w. withParam ''passphrase'' (\<lambda>passphrase r s.
     case EncryptWallet (re_wallet R) (re_salt R) (re_iv R) passphrase w of
       (Inl e, w) \<Rightarrow> (walletFailure 400 e, s\<lparr>sv_wallet := Some w\<rparr>)
     | (Inr _, w) \<Rightarrow> (Reply (jStr ''wallet encrypted successfully, wallet is now locked''), s\<lparr>sv_wallet := Some w\<rparr>))))"

definition timeoutParam :: "request \<Rightarrow> int" where
  "timeoutParam r =
     (if query r ''timeout'' = [] then 300
      else case ParseInt64 (query r ''timeout'') of (None, v) \<Rightarrow> (if v > 0 then v else 300) | (Some _, _) \<Rightarrow> 300)"

definition handleWalletPassphrase :: "('sg, 'pk, 'sk, 'xk, 's, 'd) rpc_env \<Rightarrow> ('xk, 'sk, 's, 'd) handler" where
  "handleWalletPassphrase R = requirePOST (requireWallet (\<lambda>w. withParam ''passphrase'' (\<lambda>passphrase r s.
     case WalletPassphrase (re_wallet R) (ne_now (re_net R)) passphrase (timeoutParam r) w of
       (Inl e, w) \<Rightarrow> (walletFailure 403 e, s\<lparr>sv_wallet := Some w\<rparr>)
     | (Inr _, w) \<Rightarrow> (Reply (JBool True), s\<lparr>sv_wallet := Some w\<rparr>))))"

definition handleWalletLock :: "('xk, 'sk, 's, 'd) handler" where
  "handleWalletLock = requireWallet (\<lambda>w r s.
     case WalletLock w of
       (Inl e, w) \<Rightarrow> (walletFailure 400 e, s\<lparr>sv_wallet := Some w\<rparr>)
     | (Inr _, w) \<Rightarrow> (Reply (JBool True), s\<lparr>sv_wallet := Some w\<rparr>))"

section \<open>Backups\<close>

text \<open>\<open>HDWallet.BackupWallet\<close>: the wallet file is copied; the directory of the copy is created first.\<close>

definition BackupWallet :: "bytes \<Rightarrow> ('xk, 'sk) HDWallet \<Rightarrow> (bytes \<rightharpoonup> wallet_file)
    \<Rightarrow> (wallet_error, unit) res \<times> ('xk, 'sk) HDWallet \<times> (bytes \<rightharpoonup> wallet_file)" where
  "BackupWallet destPath w files =
     (case readWallet w of
        (None, w) \<Rightarrow> (Inl ReadWallet, w, files)
      | (Some f, w) \<Rightarrow>
          (case mkdirWallet w of
             (Inl e, w) \<Rightarrow> (Inl e, w, files)
           | (Inr _, w) \<Rightarrow>
               (case nextDisk (w_io w) of
                  (SaveFails part, rest) \<Rightarrow> (Inl WriteWallet, w\<lparr>w_io := rest\<rparr>, files(destPath \<mapsto> part))
                | (_, rest) \<Rightarrow> (Inr (), w\<lparr>w_io := rest\<rparr>, files(destPath \<mapsto> f)))))"

definition handleBackupWallet :: "('xk, 'sk, 's, 'd) handler" where
  "handleBackupWallet = requireWallet (\<lambda>w. withParam ''destination'' (\<lambda>dest r s.
     if isAbs dest then (Failure 400 AbsolutePath, s)
     else
       let cleaned = cleanPath dest in
       if take 2 cleaned = dotDot \<or> containsSub (0x2F # dotDot) cleaned then (Failure 400 PathTraversal, s)
       else case BackupWallet cleaned w (sv_backups s) of
         (Inl e, w, files) \<Rightarrow> (walletFailure 500 e, s\<lparr>sv_wallet := Some w, sv_backups := files\<rparr>)
       | (Inr _, w, files) \<Rightarrow> (Reply (JBool True), s\<lparr>sv_wallet := Some w, sv_backups := files\<rparr>)))"

section \<open>The table and the authentication\<close>

definition endpoints :: "('sg, 'pk, 'sk, 'xk, 's, 'd) rpc_env \<Rightarrow> (string \<times> ('xk, 'sk, 's, 'd) handler) list" where
  "endpoints R =
     [(''/getblockchaininfo'', handleGetBlockchainInfo R), (''/getblockcount'', handleGetBlockCount),
      (''/getbestblockhash'', handleGetBestBlockHash), (''/getblockhash'', handleGetBlockHash R),
      (''/getblock'', handleGetBlock R), (''/getblockbyheight'', handleGetBlockByHeight R),
      (''/getdifficulty'', handleGetDifficulty R), (''/getnetworkinfo'', handleGetNetworkInfo R),
      (''/getpeerinfo'', handleGetPeerInfo R), (''/getconnectioncount'', handleGetConnectionCount), (''/addnode'', handleAddNode R),
      (''/disconnectnode'', handleDisconnectNode), (''/getmempoolinfo'', handleGetMempoolInfo),
      (''/getrawmempool'', handleGetRawMempool R), (''/getmempoolentry'', handleGetMempoolEntry),
      (''/gettxout'', handleGetTxOut), (''/gettxoutsetinfo'', handleGetTxOutSetInfo R),
      (''/submitblock'', handleSubmitBlock R), (''/getinfo'', handleGetInfo R), (''/stop'', handleStop),
      (''/getnewaddress'', handleGetNewAddress R), (''/getbalance'', handleGetBalance R),
      (''/listunspent'', handleListUnspent R), (''/sendtoaddress'', handleSendToAddress R),
      (''/getwalletinfo'', handleGetWalletInfo R), (''/dumpprivkey'', handleDumpPrivKey R),
      (''/importprivkey'', handleImportPrivKey R), (''/listtransactions'', handleListTransactions R),
      (''/validateaddress'', handleValidateAddress R), (''/getrawchangeaddress'', handleGetRawChangeAddress R),
      (''/settxfee'', handleSetTxFee), (''/sendrawtransaction'', handleSendRawTransaction R),
      (''/signrawtransactionwithwallet'', handleSignRawTransactionWithWallet R),
      (''/getreceivedbyaddress'', handleGetReceivedByAddress R), (''/listaddressgroupings'', handleListAddressGroupings R),
      (''/backupwallet'', handleBackupWallet), (''/getaddressesbylabel'', handleGetAddressesByLabel R),
      (''/gettransaction'', handleGetTransaction R), (''/encryptwallet'', handleEncryptWallet R),
      (''/walletpassphrase'', handleWalletPassphrase R), (''/walletlock'', handleWalletLock),
      (''/getchainstatus'', handleGetChainStatus R), (''/metrics'', handleMetrics R), (''/dumpwallet'', handleDumpWallet R)]"

definition route :: "('sg, 'pk, 'sk, 'xk, 's, 'd) rpc_env \<Rightarrow> ('xk, 'sk, 's, 'd) handler" where
  "route R r s =
     (case map_of (endpoints R) (strOf (rq_Path r)) of None \<Rightarrow> (Failure 404 NoSuchPage, s) | Some h \<Rightarrow> h r s)"

text \<open>\<open>subtle.ConstantTimeCompare\<close> gives 1 exactly for equal texts.\<close>

definition authMiddleware :: "('xk, 'sk, 's, 'd) handler \<Rightarrow> ('xk, 'sk, 's, 'd) handler" where
  "authMiddleware next r s =
     (case rq_BasicAuth r of
        None \<Rightarrow> (Failure 401 Unauthorized, s)
      | Some (user, pass) \<Rightarrow>
          if user \<noteq> sv_authUser s \<or> pass \<noteq> sv_authPassword s then (Failure 401 Unauthorized, s) else next r s)"

definition serveHTTP :: "('sg, 'pk, 'sk, 'xk, 's, 'd) rpc_env \<Rightarrow> ('xk, 'sk, 's, 'd) handler" where
  "serveHTTP R r s = (if sv_authUser s \<noteq> [] then authMiddleware (route R) r s else route R r s)"

end
