(* ===== verification/Wallet_Lock.thy ===== *)
theory Wallet_Lock
  imports Wallet_Props
begin

text \<open>
  Encryption of the wallet: padding, the two lines of the plaintext, and that a wallet which was
  encrypted and restarted is, once unlocked, the wallet that a restart without encryption gives.
\<close>

section \<open>Padding and lines\<close>

lemma unat_byte: "k < 256 \<Longrightarrow> unat (of_nat k :: byte) = k"
  by (simp add: unat_of_nat)

lemma pkcs7_unpad_pad:
  assumes "0 < n" "n < 256"
  shows "pkcs7Unpad (pkcs7Pad data n) n = Some data" "length (pkcs7Pad data n) mod n = 0"
proof -
  define q where "q = n - length data mod n"
  let ?d = "pkcs7Pad data n"
  have q: "0 < q" "q \<le> n" and d: "?d = data @ replicate q (of_nat q)"
    using assms(1) by (simp_all add: q_def pkcs7Pad_def Let_def)
  have len: "length ?d = length data + q" by (simp add: d)
  have "length data mod n + q = n" using mod_less_divisor [OF assms(1), of "length data"] by (simp add: q_def)
  then have "length data + q = length data div n * n + n" by (metis add.assoc div_mult_mod_eq)
  then show m: "length ?d mod n = 0" unfolding len by simp
  have "?d ! (length ?d - 1) = of_nat q" using q(1) by (auto simp: d nth_append)
  moreover have "unat (of_nat q :: byte) = q" by (rule unat_byte) (use q assms(2) in simp)
  moreover have "list_all (\<lambda>i. ?d ! i = of_nat q) [length ?d - q..<length ?d]" by (auto simp: list_all_iff d nth_append)
  ultimately show "pkcs7Unpad ?d n = Some data"
    using m q len by (simp add: pkcs7Unpad_def Let_def d)
qed

definition asciiLine :: "bytes \<Rightarrow> bool" where
  "asciiLine s \<longleftrightarrow> list_all (\<lambda>b. b < 0x80 \<and> b \<noteq> 0x0A) s"

lemma chunks_ascii: "list_all (\<lambda>b. b < 0x80) s \<Longrightarrow> chunks s = map (\<lambda>b. [b]) s"
proof (induction s)
  case (Cons b s)
  then have "runeLen (b # s) = 1" by (simp add: runeLen_def Let_def)
  then show ?case using Cons by (subst chunks.simps) simp
qed (simp add: chunks.simps)

lemma splitLoop_line: "asciiLine s \<Longrightarrow> splitLoop (map (\<lambda>b. [b]) s @ cs) parts cur = splitLoop cs parts (cur @ s)"
  by (induction s arbitrary: cur) (auto simp: asciiLine_def)

lemma splitOnNewline_two:
  assumes "asciiLine a" "asciiLine b" "b \<noteq> []"
  shows "splitOnNewline (a @ [0x0A] @ b) = [a, b]"
proof -
  have all: "list_all (\<lambda>b. b < 0x80) (a @ [0x0A] @ b)" using assms(1,2) by (auto simp: asciiLine_def list_all_iff)
  have "runeText [x] = [x]" if "x < 0x80" for x using that by (simp add: runeText_def runeLen_def Let_def)
  then have "runes (a @ [0x0A] @ b) = map (\<lambda>b. [b]) (a @ [0x0A] @ b)"
    unfolding runes_def chunks_ascii [OF all] using all by (simp add: list_all_iff del: map_append)
  then show ?thesis
    using splitLoop_line [OF assms(1), of "[[0x0A]] @ map (\<lambda>b. [b]) b" "[]" "[]"] splitLoop_line [OF assms(2), of "[]" "[a]" "[]"] assms(3)
    by (simp add: splitOnNewline_def)
qed

section \<open>Loading is blind to the encryption state\<close>

definition sealed :: "bool \<Rightarrow> bool \<Rightarrow> wallet_file \<Rightarrow> ('xk, 'sk) HDWallet \<Rightarrow> ('xk, 'sk) HDWallet" where
  "sealed e l f w = w\<lparr>w_encrypted := e, w_locked := l, w_file := f\<rparr>"

lemma sealed_fields [simp]:
  "w_seed (sealed e l f w) = w_seed w" "w_externalKey (sealed e l f w) = w_externalKey w" "w_changeKey (sealed e l f w) = w_changeKey w"
  "w_nextExternalIdx (sealed e l f w) = w_nextExternalIdx w" "w_nextChangeIdx (sealed e l f w) = w_nextChangeIdx w"
  "w_io (sealed e l f w) = w_io w" "w_file (sealed e l f w) = f" "w_encrypted (sealed e l f w) = e" "w_locked (sealed e l f w) = l"
  by (simp_all add: sealed_def)

lemma sealed_updates:
  "(sealed e l f w)\<lparr>w_mnemonic := m, w_seed := b\<rparr> = sealed e l f (w\<lparr>w_mnemonic := m, w_seed := b\<rparr>)"
  "(sealed e l f w)\<lparr>w_accountKey := a\<rparr> = sealed e l f (w\<lparr>w_accountKey := a\<rparr>)"
  "(sealed e l f w)\<lparr>w_externalKey := a\<rparr> = sealed e l f (w\<lparr>w_externalKey := a\<rparr>)"
  "(sealed e l f w)\<lparr>w_changeKey := a\<rparr> = sealed e l f (w\<lparr>w_changeKey := a\<rparr>)"
  by (simp_all add: sealed_def)

lemma bindS_sealed:
  assumes "m' = apsnd (sealed e l f) m" "\<And>x s. g' x (sealed e l f s) = apsnd (sealed e l f) (g x s)"
  shows "bindS m' g' = apsnd (sealed e l f) (bindS m g)"
  using assms by (cases "(m, g)" rule: bindS.cases) auto

lemma deriveAccountKeys_sealed: "deriveAccountKeys L (sealed e l f w) = apsnd (sealed e l f) (deriveAccountKeys L w)"
  unfolding deriveAccountKeys_def Let_def by (intro bindS_sealed) (simp_all add: sealed_updates)

lemma addKey_sealed: "addKey L dk (sealed e l f w) = sealed e l f (addKey L dk w)"
  by (simp add: addKey_def sealed_def keyAddress_def Let_def)

lemma derive_sealed:
  "deriveExternal L i (sealed e l f w) = apsnd (sealed e l f) (deriveExternal L i w)"
  "deriveChange L i (sealed e l f w) = apsnd (sealed e l f) (deriveChange L i w)"
  by (auto simp: deriveExternal_def deriveChange_def registerKey_def Let_def addKey_sealed split: option.splits)

lemma rederive_sealed:
  assumes "\<And>i w. g i (sealed e l f w) = apsnd (sealed e l f) (g i w)"
  shows "rederive g is (sealed e l f w) = apsnd (sealed e l f) (rederive g is w)"
  by (induction "is" arbitrary: w) (auto intro!: bindS_sealed assms)

lemma loadSeedAndDerive_sealed: "loadSeedAndDerive L m sd (sealed e l f w) = apsnd (sealed e l f) (loadSeedAndDerive L m sd w)"
  by (auto simp: loadSeedAndDerive_def sealed_updates deriveAccountKeys_sealed split: option.splits
      intro!: bindS_sealed rederive_sealed derive_sealed)

section \<open>Encryption and restart\<close>

text \<open>
  Documented behaviour of the cipher: a key of 32 bytes is accepted, and decryption in CBC mode
  inverts encryption on whole blocks and keeps the length.
\<close>

definition cbc_correct :: "('sg, 'pk, 'sk, 'xk) wallet_lib \<Rightarrow> bool" where
  "cbc_correct L \<longleftrightarrow> (\<forall>k. length k = 32 \<longrightarrow> wl_newCipher L k)
     \<and> (\<forall>k iv d. length k = 32 \<and> length iv = 16 \<and> length d mod 16 = 0
          \<longrightarrow> length (wl_cbcEncrypt L k iv d) = length d \<and> wl_cbcDecrypt L k iv (wl_cbcEncrypt L k iv d) = d)"

lemma strOf_ascii [simp]: "strOf (map of_char s) = s"
proof -
  have "unat (of_char c :: byte) = of_char c" for c
    using unat_byte [OF nat_of_char_less_256, of c] by (simp only: of_nat_of_char)
  then show ?thesis by (induction s) (simp_all add: strOf_def)
qed

lemma hexEncode_ascii: "asciiLine (map of_char (hexEncode bs))"
proof -
  have "list_all (\<lambda>n. (of_char (hexDigit n) :: byte) < 0x80 \<and> (of_char (hexDigit n) :: byte) \<noteq> 0x0A) [0..<16]" by code_simp
  then have d: "(of_char (hexDigit n) :: byte) < 0x80 \<and> (of_char (hexDigit n) :: byte) \<noteq> 0x0A" if "n < 16" for n
    using that by (simp add: list_all_iff)
  have "unat b < 16 * 16" for b :: byte using unsigned_less [of b, where 'a = nat] by simp
  then have "unat b div 16 < 16" "unat b mod 16 < 16" for b :: byte by (simp_all add: less_mult_imp_div_less)
  then show ?thesis using d by (induction bs) (simp_all add: hexEncode_def asciiLine_def)
qed

lemma decrypt_encrypted:
  assumes "cbc_correct L" "wl_scrypt L pass salt scryptN scryptR scryptP keyLen = Some key" "length key = 32" "length iv = 16"
    and "asciiLine m" "wl_IsMnemonicValid L m" "sd \<noteq> []"
    and "aesEncrypt L (Some iv) key (m @ [0x0A] @ map of_char (hexEncode sd)) = Some (ct, iv)"
    and "wd_Salt wd = hexEncode salt" "wd_IV wd = hexEncode iv" "wd_EncryptedData wd = hexEncode ct"
      "wd_ScryptN wd = scryptN" "wd_ScryptR wd = scryptR" "wd_ScryptP wd = scryptP"
  shows "decryptData L pass wd = Inr (key, m, map of_char (hexEncode sd))"
proof -
  let ?pt = "m @ [0x0A] @ map of_char (hexEncode sd)"
  have pad: "length (pkcs7Pad ?pt 16) mod 16 = 0" "pkcs7Unpad (pkcs7Pad ?pt 16) 16 = Some ?pt"
    using pkcs7_unpad_pad [of 16 ?pt] by simp_all
  have ct: "ct = wl_cbcEncrypt L key iv (pkcs7Pad ?pt 16)" using assms(8) by (auto simp: aesEncrypt_def aesBlockSize_def split: if_splits)
  then have "aesDecrypt L key iv ct = Inr ?pt"
    using assms(1,3,4) pad by (simp add: aesDecrypt_def cbc_correct_def aesBlockSize_def)
  moreover have "map of_char (hexEncode sd) \<noteq> ([] :: bytes)" using assms(7) by (cases sd) (simp_all add: hexEncode_def)
  then have "splitOnNewline ?pt = [m, map of_char (hexEncode sd)]" using assms(5) hexEncode_ascii by (intro splitOnNewline_two)
  ultimately show ?thesis
    using assms(2,6,9-14) by (simp add: decryptData_def hexR_def hexDecode_hexEncode orDefault_def scryptN_def scryptR_def scryptP_def)
qed

text \<open>What \<open>EncryptWallet\<close> leaves in the file.\<close>

lemma EncryptWallet_file:
  assumes "EncryptWallet L (Some salt) (Some iv) pass w = (Inr (), w1)"
  shows "\<exists>key ct. wl_scrypt L pass salt scryptN scryptR scryptP keyLen = Some key
     \<and> aesEncrypt L (Some iv) key (plaintextOf w) = Some (ct, iv)
     \<and> w_file w1 = Json \<lparr>wd_Mnemonic = [], wd_Seed = [], wd_NextExternalIdx = w_nextExternalIdx w, wd_NextChangeIdx = w_nextChangeIdx w,
       wd_Encrypted = True, wd_EncryptedData = hexEncode ct, wd_Salt = hexEncode salt, wd_IV = hexEncode iv,
       wd_ScryptN = scryptN, wd_ScryptR = scryptR, wd_ScryptP = scryptP\<rparr>"
  using assms
  by (auto simp: EncryptWallet_def saveEncrypted_def mkdirWallet_def writeWallet_def aesEncrypt_def
      split: if_splits option.splits prod.splits disk_io.splits)

lemma encrypted_restart:
  assumes lib: "cbc_correct L" "\<And>k. wl_scrypt L pass salt scryptN scryptR scryptP keyLen = Some k \<Longrightarrow> length k = 32" "length iv = 16"
    and w: "asciiLine (w_mnemonic w)" "wl_IsMnemonicValid L (w_mnemonic w)" "w_seed w \<noteq> []"
    and enc: "EncryptWallet L (Some salt) (Some iv) pass w = (Inr (), w1)"
    and plain: "NewHDWallet L ent v (Json (plainData w)) [] = (Inr (), w')"
  shows "\<exists>w2 key. NewHDWallet L ent v (w_file w1) [] = (Inr (), w2) \<and> w_locked w2 \<and> w_encrypted w2 \<and> w_externalKeys w2 = [] \<and> w_changeKeys w2 = []
     \<and> WalletPassphrase L now pass t w2 = (Inr (), (sealed True False (w_file w1) w')\<lparr>w_encKey := key,
          w_unlockUntil := (if t > 0 then Some (now + wrap64 (t * 1000000000)) else None)\<rparr>)"
proof -
  obtain key ct where key: "wl_scrypt L pass salt scryptN scryptR scryptP keyLen = Some key"
    and ct: "aesEncrypt L (Some iv) key (plaintextOf w) = Some (ct, iv)"
    and fl: "w_file w1 = Json \<lparr>wd_Mnemonic = [], wd_Seed = [], wd_NextExternalIdx = w_nextExternalIdx w, wd_NextChangeIdx = w_nextChangeIdx w,
       wd_Encrypted = True, wd_EncryptedData = hexEncode ct, wd_Salt = hexEncode salt, wd_IV = hexEncode iv,
       wd_ScryptN = scryptN, wd_ScryptR = scryptR, wd_ScryptP = scryptP\<rparr>"
    using EncryptWallet_file [OF enc] by blast
  obtain wd where wd: "w_file w1 = Json wd" "wd_Encrypted wd" "wd_Seed wd = []" "wd_NextExternalIdx wd = w_nextExternalIdx w" "wd_NextChangeIdx wd = w_nextChangeIdx w"
    "wd_Salt wd = hexEncode salt" "wd_IV wd = hexEncode iv" "wd_EncryptedData wd = hexEncode ct" "wd_ScryptN wd = scryptN" "wd_ScryptR wd = scryptR" "wd_ScryptP wd = scryptP"
    using fl by simp
  define base :: "('d, 'c) HDWallet" where
    "base = (emptyWallet v (Json (plainData w)) [])\<lparr>w_nextExternalIdx := w_nextExternalIdx w, w_nextChangeIdx := w_nextChangeIdx w\<rparr>"
  have load: "loadSeedAndDerive L (w_mnemonic w) (hexEncode (w_seed w)) base = (Inr (), w')"
    using plain by (simp add: NewHDWallet_def readWallet_def emptyWallet_def loadFromJSON_def plainData_def base_def Let_def)
  have w2: "NewHDWallet L ent v (w_file w1) [] = (Inr (), sealed True True (w_file w1) base)"
    using wd by (simp add: NewHDWallet_def readWallet_def emptyWallet_def loadFromJSON_def base_def sealed_def Let_def)
  have dec: "decryptData L pass wd = Inr (key, w_mnemonic w, map of_char (hexEncode (w_seed w)))"
    by (rule decrypt_encrypted [OF lib(1) key lib(2) [OF key] lib(3) w(1,2,3)]) (use ct wd in \<open>simp_all add: plaintextOf_def\<close>)
  have "w_seed base = []" by (simp add: base_def emptyWallet_def)
  moreover have "readWallet (sealed True True (w_file w1) base) = (Some (Json wd), sealed True True (w_file w1) base)"
    using wd(1) by (simp add: readWallet_def sealed_def base_def emptyWallet_def)
  ultimately have "WalletPassphrase L now pass t (sealed True True (w_file w1) base)
      = (Inr (), (sealed True False (w_file w1) w')\<lparr>w_encKey := key, w_unlockUntil := (if t > 0 then Some (now + wrap64 (t * 1000000000)) else None)\<rparr>)"
    using dec loadSeedAndDerive_sealed [of L "w_mnemonic w" "hexEncode (w_seed w)" True True "w_file w1" base] load
    by (simp add: WalletPassphrase_def sealed_def)
  then show ?thesis using w2 by (auto simp: base_def emptyWallet_def sealed_def)
qed

text \<open>
  The mnemonic after a lock. \<open>WalletLock\<close> overwrites the seed with zeros and keeps its length, so
  that a later \<open>WalletPassphrase\<close> takes the wallet for loaded and restores neither the seed nor
  the mnemonic.
\<close>

lemma relock_loses_mnemonic:
  assumes "w_seed w \<noteq> []" "WalletLock w = (Inr (), w1)" "WalletPassphrase L now pass t w1 = (Inr (), w2)"
  shows "w_mnemonic w2 = []" "w_seed w2 = replicate (length (w_seed w)) 0" "w_locked w2 = False"
  using assms
  by (auto simp: WalletLock_def wipe_def WalletPassphrase_def readWallet_def res_simps split: if_splits option.splits prod.splits wallet_file.splits)

section \<open>A wallet's life\<close>

datatype wallet_op =
    GetNew | GetChange | GetCurrentChange
  | Import bytes
  | Dump int bytes
  | Encrypt "bytes option" "bytes option" bytes
  | Passphrase int bytes int
  | Lock
  | Locked int
  | Build int SendRequest u64 "UnspentOutput list" u32 u32
  | SignRaw int Transaction "hash \<Rightarrow> u32 \<Rightarrow> bytes option"

fun walletStep :: "('sg, 'pk, 'sk, 'xk) wallet_lib \<Rightarrow> (UnspentOutput list \<Rightarrow> UnspentOutput list) \<Rightarrow> wallet_op \<Rightarrow> ('xk, 'sk) HDWallet \<Rightarrow> ('xk, 'sk) HDWallet" where
  "walletStep L srt GetNew w = snd (GetNewAddress L w)"
| "walletStep L srt GetChange w = snd (GetChangeAddress L w)"
| "walletStep L srt GetCurrentChange w = snd (GetCurrentChangeAddress L w)"
| "walletStep L srt (Import k) w = snd (ImportPrivKey L k w)"
| "walletStep L srt (Dump now a) w = snd (DumpPrivKey L now a w)"
| "walletStep L srt (Encrypt rs ri pass) w = snd (EncryptWallet L rs ri pass w)"
| "walletStep L srt (Passphrase now pass t) w = snd (WalletPassphrase L now pass t w)"
| "walletStep L srt Lock w = snd (WalletLock w)"
| "walletStep L srt (Locked now) w = snd (IsLocked now w)"
| "walletStep L srt (Build now req r us m tip) w = snd (BuildTransaction L srt now req r us m tip w)"
| "walletStep L srt (SignRaw now tx prev) w = snd (SignRawTransaction L now tx prev w)"

lemma BuildTransaction_inv:
  assumes "walletInv L w"
  shows "walletInv L (snd (BuildTransaction L srt now req r us m tip w))"
proof -
  have ch: "walletInv L (snd (changeOutputs L n tot amt r c v))" if "walletInv L v" for n tot amt c v
    using that GetAddress_inv(2) [OF that] by (auto simp: changeOutputs_def Let_def split: prod.splits sum.splits)
  show ?thesis using RequireUnlocked_inv [OF assms, of now]
    by (auto simp: BuildTransaction_def Let_def split: prod.splits sum.splits intro!: inv_bindS ch)
qed

lemma IsLocked_inv: "walletInv L w \<Longrightarrow> walletInv L (snd (IsLocked now w))"
  by (auto simp: IsLocked_def split: option.splits)

lemma DumpPrivKey_inv: "walletInv L w \<Longrightarrow> walletInv L (snd (DumpPrivKey L now a w))"
  by (auto simp: DumpPrivKey_def intro!: inv_bindS RequireUnlocked_inv split: option.splits)

lemma SignRawTransaction_inv: "walletInv L w \<Longrightarrow> walletInv L (snd (SignRawTransaction L now tx prev w))"
  using RequireUnlocked_inv [of L w now] by (auto simp: SignRawTransaction_def split: prod.splits sum.splits option.splits)

lemma walletStep_inv: "walletInv L w \<Longrightarrow> walletInv L (walletStep L srt op w)"
  by (cases op) (simp_all add: GetAddress_inv ImportPrivKey_inv DumpPrivKey_inv EncryptWallet_inv WalletPassphrase_inv WalletLock_def
      IsLocked_inv BuildTransaction_inv SignRawTransaction_inv)

lemma life_inv: "walletInv L (fold (walletStep L srt) ops (snd (NewHDWallet L ent v f io)))"
proof -
  have "walletInv L w \<Longrightarrow> walletInv L (fold (walletStep L srt) ops w)" for w
    by (induction ops arbitrary: w) (simp_all add: walletStep_inv)
  then show ?thesis using NewHDWallet_inv by blast
qed

end
