(* ===== verification/Rpc_Props.thy ===== *)
theory Rpc_Props
  imports Rpc_Wallet Wallet_Lock
begin

text \<open>
  Properties of the RPC server: every endpoint keeps the invariants of the peer manager and of the wallet
  and gives the chain at most the block of its request; without the credentials nothing happens; without
  POST neither chain, pool nor fee rate change; a payment request either reaches the pool or is refused
  for one of four reasons.
\<close>

section \<open>What an endpoint may do\<close>

definition serverOk :: "('sg, 'pk, 'sk, 'xk) wallet_lib \<Rightarrow> bytes set \<Rightarrow> ('xk, 'sk, 's, 'd) Server \<Rightarrow> bool" where
  "serverOk L I s \<longleftrightarrow> netOk I (sv_p2p s) \<and> (\<forall>w. sv_wallet s = Some w \<longrightarrow> walletInv L w)"

definition served :: "('sg, 'pk, 'sk, 'xk, 's, 'd) rpc_env \<Rightarrow> bytes set \<Rightarrow> ('xk, 'sk, 's, 'd) Server \<Rightarrow> ('xk, 'sk, 's, 'd) Server \<Rightarrow> bool" where
  "served R I s s' \<longleftrightarrow> nodeStep (re_chain R) I (sv_p2p s) (sv_p2p s') \<and> (\<forall>w. sv_wallet s' = Some w \<longrightarrow> walletInv (re_wallet R) w)
     \<and> sv_authUser s' = sv_authUser s \<and> sv_authPassword s' = sv_authPassword s \<and> sv_feePerByte s' \<le> max (sv_feePerByte s) maxFeePerByte
     \<and> (\<forall>p. sv_backups s' p \<noteq> sv_backups s p \<longrightarrow> below p)"

definition containedIn :: "('sg, 'pk, 'sk, 'xk, 's, 'd) rpc_env \<Rightarrow> bytes set \<Rightarrow> ('xk, 'sk, 's, 'd) handler \<Rightarrow> bool" where
  "containedIn R I h \<longleftrightarrow> (\<forall>r s. serverOk (re_wallet R) I s \<and> rq_Body r \<in> I \<and> mapOrder (ne_invOrder (re_net R)) \<longrightarrow> served R I s (snd (h r s)))"

lemma served_refl: "serverOk (re_wallet R) I s \<Longrightarrow> served R I s s"
  by (simp add: served_def serverOk_def nodeStep_quiet netQuiet_refl max_def)

lemma served_ok: "served R I s s' \<Longrightarrow> serverOk (re_wallet R) I s'"
  by (simp add: served_def serverOk_def nodeStep_def)

lemma served_wallet: "served R I s s' \<Longrightarrow> walletInv (re_wallet R) w \<Longrightarrow> served R I s (s'\<lparr>sv_wallet := Some w\<rparr>)"
  by (simp add: served_def)

lemma served_node:
  "serverOk (re_wallet R) I s \<Longrightarrow> nodeStep (re_chain R) I (sv_p2p s) m \<Longrightarrow> served R I s (s\<lparr>sv_p2p := m\<rparr>)"
  by (simp add: served_def serverOk_def max_def)

lemma served_other [simp]:
  "served R I s (s'\<lparr>sv_stopping := b\<rparr>) = served R I s s'"
  by (simp_all add: served_def)

section \<open>Combinators\<close>

lemma contained_reply: "(\<And>r s. snd (h r s) = s) \<Longrightarrow> containedIn R I h"
  by (simp add: containedIn_def served_refl)

lemma contained_post: "containedIn R I h \<Longrightarrow> containedIn R I (requirePOST h)"
  by (simp add: containedIn_def requirePOST_def served_refl)

lemma contained_param: "(\<And>v. containedIn R I (h v)) \<Longrightarrow> containedIn R I (withParam key h)"
  by (simp add: containedIn_def withParam_def served_refl)

lemma contained_hash: "(\<And>v. containedIn R I (h v)) \<Longrightarrow> containedIn R I (withHash key h)"
  unfolding withHash_def by (rule contained_param) (simp add: containedIn_def served_refl split: sum.split)

lemma contained_uint32: "(\<And>v. containedIn R I (h v)) \<Longrightarrow> containedIn R I (withUint32 key h)"
  unfolding withUint32_def by (rule contained_param) (simp add: containedIn_def served_refl split: option.split)

lemma contained_tx: "(\<And>v. containedIn R I (h v)) \<Longrightarrow> containedIn R I (withTx h)"
  unfolding withTx_def by (rule contained_param) (simp add: containedIn_def served_refl split: option.split sum.split prod.split)

lemma contained_wallet: "(\<And>w. walletInv (re_wallet R) w \<Longrightarrow> containedIn R I (h w)) \<Longrightarrow> containedIn R I (requireWallet h)"
  by (auto simp: containedIn_def requireWallet_def served_refl serverOk_def split: option.split)

lemma contained_unlocked:
  fixes R :: "('sg, 'pk, 'sk, 'xk, 's, 'd) rpc_env"
  assumes "\<And>w. walletInv (re_wallet R) w \<Longrightarrow> containedIn R I (h w)" "walletInv (re_wallet R) w"
  shows "containedIn R I (requireUnlocked R h w)"
  unfolding containedIn_def
proof (intro allI impI)
  fix r :: request and s :: "('xk, 'sk, 's, 'd) Server"
  assume a: "serverOk (re_wallet R) I s \<and> rq_Body r \<in> I \<and> mapOrder (ne_invOrder (re_net R))"
  obtain x w' where u: "RequireUnlocked (ne_now (re_net R)) w = (x, w')" by fastforce
  have w': "walletInv (re_wallet R) w'" using RequireUnlocked_inv [OF assms(2), of "ne_now (re_net R)"] u by simp
  have s: "served R I s (s\<lparr>sv_wallet := Some w'\<rparr>)" using a by (simp add: served_refl served_wallet w')
  have "served R I (s\<lparr>sv_wallet := Some w'\<rparr>) (snd (h w' r (s\<lparr>sv_wallet := Some w'\<rparr>)))"
    using assms(1) [OF w'] served_ok [OF s] a unfolding containedIn_def by blast
  then show "served R I s (snd (requireUnlocked R h w r s))" using u s
    by (auto simp: requireUnlocked_def served_def split: sum.split)
qed

text \<open>A handler that only moves the wallet.\<close>

lemma served_cases:
  assumes "serverOk (re_wallet R) I s" "walletInv (re_wallet R) (snd m)"
  shows "served R I s (snd (case m of (Inl e, w) \<Rightarrow> (f e, s\<lparr>sv_wallet := Some w\<rparr>) | (Inr x, w) \<Rightarrow> (g x, s\<lparr>sv_wallet := Some w\<rparr>)))"
  using served_wallet [OF served_refl [OF assms(1)] assms(2)] by (auto split: prod.split sum.split)


lemma contained_op:
  assumes "\<And>r. walletInv (re_wallet R) (snd (m r))"
  shows "containedIn R I (\<lambda>r s. case m r of (Inl e, w) \<Rightarrow> (f e, s\<lparr>sv_wallet := Some w\<rparr>) | (Inr x, w) \<Rightarrow> (g x, s\<lparr>sv_wallet := Some w\<rparr>))"
  unfolding containedIn_def using served_cases [OF _ assms] by blast

section \<open>The endpoints\<close>

lemmas read_only = handleGetInfo_def handleGetBlockchainInfo_def handleGetChainStatus_def handleGetBlockCount_def handleGetBestBlockHash_def
  handleGetDifficulty_def handleGetNetworkInfo_def handleGetConnectionCount_def handleGetMempoolInfo_def handleGetRawMempool_def
  handleGetTxOutSetInfo_def handleGetPeerInfo_def handleMetrics_def

lemma contained_read_only:
  "containedIn R I (handleGetInfo R)" "containedIn R I (handleGetBlockchainInfo R)" "containedIn R I (handleGetChainStatus R)"
  "containedIn R I handleGetBlockCount" "containedIn R I handleGetBestBlockHash" "containedIn R I (handleGetDifficulty R)"
  "containedIn R I (handleGetNetworkInfo R)" "containedIn R I handleGetConnectionCount" "containedIn R I handleGetMempoolInfo"
  "containedIn R I (handleGetRawMempool R)" "containedIn R I (handleGetTxOutSetInfo R)" "containedIn R I (handleGetPeerInfo R)"
  "containedIn R I (handleMetrics R)"
  by (rule contained_reply, simp add: read_only Let_def split: prod.split)+

lemma contained_lookups:
  "containedIn R I (handleGetBlockHash R)" "containedIn R I (handleGetBlock R)" "containedIn R I (handleGetBlockByHeight R)"
  "containedIn R I handleGetMempoolEntry" "containedIn R I handleGetTxOut" "containedIn R I (handleGetTransaction R)"
  "containedIn R I (handleGetReceivedByAddress R)" "containedIn R I (handleValidateAddress R)"
  unfolding handleGetBlockHash_def handleGetBlock_def handleGetBlockByHeight_def handleGetMempoolEntry_def handleGetTxOut_def
    handleGetTransaction_def handleGetReceivedByAddress_def handleValidateAddress_def
  by (intro contained_hash contained_uint32 contained_param contained_reply; simp add: Let_def split: sum.split prod.split option.split)+

lemma contained_reports:
  "containedIn R I (handleGetBalance R)" "containedIn R I (handleListUnspent R)" "containedIn R I (handleListTransactions R)"
  "containedIn R I (handleListAddressGroupings R)" "containedIn R I (handleGetAddressesByLabel R)"
  unfolding handleGetBalance_def handleListUnspent_def handleListTransactions_def handleListAddressGroupings_def handleGetAddressesByLabel_def
  by (intro contained_wallet contained_reply; simp add: Let_def)+

lemma contained_keys:
  "containedIn R I (handleGetNewAddress R)" "containedIn R I (handleGetRawChangeAddress R)" "containedIn R I (handleDumpPrivKey R)"
  "containedIn R I (handleImportPrivKey R)" "containedIn R I (handleEncryptWallet R)" "containedIn R I (handleWalletPassphrase R)"
  "containedIn R I handleWalletLock"
  unfolding handleGetNewAddress_def handleGetRawChangeAddress_def handleDumpPrivKey_def handleImportPrivKey_def handleEncryptWallet_def
    handleWalletPassphrase_def handleWalletLock_def
  by (intro contained_post contained_wallet contained_param contained_op;
      simp add: GetAddress_inv DumpPrivKey_inv ImportPrivKey_inv EncryptWallet_inv WalletPassphrase_inv WalletLock_def)+


lemma contained_wallet_reports:
  "containedIn R I (handleGetWalletInfo R)" "containedIn R I (handleDumpWallet R)"
proof -
  show "containedIn R I (handleGetWalletInfo R)"
    unfolding handleGetWalletInfo_def Let_def
  proof (rule contained_wallet)
    fix w assume w: "walletInv (re_wallet R) w"
    let ?x = "if IsEncrypted w then IsLocked (ne_now (re_net R)) w else (True, w)"
    have "walletInv (re_wallet R) (snd ?x)" using w IsLocked_inv by auto
    then show "containedIn R I (\<lambda>r s. case ?x of (locked, w') \<Rightarrow> (f locked w r s, s\<lparr>sv_wallet := Some w'\<rparr>))" for f
      by (auto simp: containedIn_def served_refl served_wallet split: prod.split)
  qed
  have "containedIn R I (\<lambda>r s. case Mnemonic (ne_now (re_net R)) w of (mn, w) \<Rightarrow> (f mn w, s\<lparr>sv_wallet := Some w\<rparr>))"
    if w: "walletInv (re_wallet R) w" for w f
    using IsLocked_inv [OF w, of "ne_now (re_net R)"] by (auto simp: containedIn_def Mnemonic_def served_refl served_wallet split: prod.split)
  then show "containedIn R I (handleDumpWallet R)"
    unfolding handleDumpWallet_def by (intro contained_wallet contained_unlocked)
qed

lemma BackupWallet_inv:
  assumes "walletInv L w" "BackupWallet p w files = (x, w', files')"
  shows "walletInv L w'"
proof -
  obtain f w1 where r: "readWallet w = (f, w1)" by fastforce
  obtain y w2 where m: "mkdirWallet w1 = (y, w2)" by fastforce
  have w1: "walletInv L w1" using wallet_steps(3) [OF assms(1)] r by simp
  have w2: "walletInv L w2" using wallet_steps(4) [OF w1] m by simp
  have io: "walletInv L (v\<lparr>w_io := q\<rparr>) = walletInv L v" for v q by (simp add: walletInv_def keyAddress_def)
  show ?thesis using assms(2) r m w1 w2 by (auto simp: BackupWallet_def io split: option.splits sum.splits prod.splits disk_io.splits)
qed

lemma BackupWallet_files: "BackupWallet p w files = (x, w', files') \<Longrightarrow> q \<noteq> p \<Longrightarrow> files' q = files q"
  by (auto simp: BackupWallet_def split: prod.splits option.splits sum.splits disk_io.splits)

lemma served_backup:
  assumes "serverOk (re_wallet R) I s" "walletInv (re_wallet R) w" "below p" "BackupWallet p w (sv_backups s) = (x, w', files')"
  shows "served R I s (s\<lparr>sv_wallet := Some w', sv_backups := files'\<rparr>)"
proof -
  have "served R I s (s\<lparr>sv_wallet := Some w'\<rparr>)"
    by (rule served_wallet [OF served_refl [OF assms(1)] BackupWallet_inv [OF assms(2,4)]])
  then show ?thesis using BackupWallet_files [OF assms(4)] assms(3) by (auto simp: served_def) metis
qed

lemma contained_backup: "containedIn R I handleBackupWallet"
  unfolding handleBackupWallet_def
proof (intro contained_wallet contained_param)
  fix w dest assume w: "walletInv (re_wallet R) w"
  show "containedIn R I (\<lambda>r s. if isAbs dest then (Failure 400 AbsolutePath, s)
     else let cleaned = cleanPath dest in
       if take 2 cleaned = dotDot \<or> containsSub (0x2F # dotDot) cleaned then (Failure 400 PathTraversal, s)
       else case BackupWallet cleaned w (sv_backups s) of
         (Inl e, w, files) \<Rightarrow> (walletFailure 500 e, s\<lparr>sv_wallet := Some w, sv_backups := files\<rparr>)
       | (Inr _, w, files) \<Rightarrow> (Reply (JBool True), s\<lparr>sv_wallet := Some w, sv_backups := files\<rparr>))"
    using cleanPath_below [of dest] served_backup [where p = "cleanPath dest" and R = R and I = I, OF _ w]
    by (auto simp: containedIn_def Let_def served_refl split: prod.split sum.split)
qed

section \<open>Endpoints that reach the node\<close>

lemma served_submit:
  assumes "serverOk (re_wallet R) I s" "mapOrder (ne_invOrder (re_net R))"
  shows "served R I s (snd (submitTxToMempool R tx s))"
proof -
  obtain x mp where add: "AddTx (en_lib (re_chain R)) (sv_mempool s) tx = (x, mp)" by fastforce
  let ?m = "(sv_p2p s)\<lparr>mg_mempool := mp\<rparr>"
  have ok: "netOk I (sv_p2p s)" using assms(1) by (simp add: serverOk_def)
  have p: "nodeStep (re_chain R) I (sv_p2p s) ?m" by (rule nodeStep_pool [OF ok, of _ _ "[OpAdd tx]"]) (simp add: add)
  then have "netQuiet I ?m (BroadcastTx (re_net R) h ?m)" for h using assms(2) by (simp add: nodeStep_def)
  then have b: "nodeStep (re_chain R) I (sv_p2p s) (BroadcastTx (re_net R) h ?m)" for h by (rule nodeStep_then_quiet [OF p])
  show ?thesis using add p b served_node [OF assms(1)] by (auto simp: submitTxToMempool_def Let_def split: sum.split)
qed

lemma replyTx_snd [simp]: "snd (replyTx x) = snd x"
  by (auto simp: replyTx_def split: prod.split sum.split)

lemma contained_send: "containedIn R I (handleSendRawTransaction R)" "containedIn R I (handleSendToAddress R)"
proof -
  show "containedIn R I (handleSendRawTransaction R)"
    unfolding handleSendRawTransaction_def by (intro contained_post contained_tx) (simp add: containedIn_def served_submit)
  have pay: "served R I s (snd (case x of
       Inl e \<Rightarrow> (buildFailure e, s\<lparr>sv_wallet := Some w'\<rparr>)
     | Inr tx \<Rightarrow> replyTx (submitTxToMempool R tx (s\<lparr>sv_wallet := Some w'\<rparr>))))"
    if a: "walletInv (re_wallet R) w" "serverOk (re_wallet R) I s" "mapOrder (ne_invOrder (re_net R))"
      and b: "BuildTransaction (re_wallet R) srt now req fee us m tip w = (x, w')" for w s srt now req fee us m tip x w'
  proof -
    have w': "walletInv (re_wallet R) w'" using BuildTransaction_inv [OF a(1), of srt now req fee us m tip] b by simp
    have s: "served R I s (s\<lparr>sv_wallet := Some w'\<rparr>)" by (rule served_wallet [OF served_refl [OF a(2)] w'])
    have "served R I s (snd (submitTxToMempool R tx (s\<lparr>sv_wallet := Some w'\<rparr>)))" for tx
      using served_submit [OF served_ok [OF s] a(3), of tx] by (simp add: served_def)
    then show ?thesis using s by (auto split: sum.split)
  qed
  show "containedIn R I (handleSendToAddress R)"
    unfolding handleSendToAddress_def
    by (intro contained_post contained_wallet contained_unlocked) (auto simp: containedIn_def served_refl split: prod.split option.split intro: pay)
qed

lemma contained_sign: "containedIn R I (handleSignRawTransactionWithWallet R)"
proof -
  have "served R I s (snd (case SignRawTransaction (re_wallet R) now tx f w of
       (((_, _, Some e), _), w) \<Rightarrow> (walletFailure 500 e, s\<lparr>sv_wallet := Some w\<rparr>)
     | (((_, complete, None), tx), w) \<Rightarrow> (g complete tx, s\<lparr>sv_wallet := Some w\<rparr>)))"
    if "walletInv (re_wallet R) w" "serverOk (re_wallet R) I s" for now tx f w s g
    using SignRawTransaction_inv [OF that(1), of now tx f] that(2)
    by (auto simp: served_refl served_wallet split: prod.split option.split)
  then show ?thesis unfolding handleSignRawTransactionWithWallet_def
    by (intro contained_post contained_wallet contained_unlocked contained_tx) (simp add: containedIn_def)
qed

lemma contained_control: "containedIn R I handleStop" "containedIn R I handleSetTxFee"
  unfolding handleStop_def handleSetTxFee_def
  by (intro contained_post contained_param, simp add: containedIn_def served_refl)
     (intro contained_post contained_param, auto simp: containedIn_def served_refl served_def serverOk_def Let_def
        nodeStep_quiet netQuiet_refl max_def not_less split: prod.split option.split)

lemma contained_nodes: "containedIn R I (handleAddNode R)" "containedIn R I handleDisconnectNode"
proof -
  have "served R I s (snd (case AddNode (re_net R) addr (sv_p2p s) of
       (Inl e, m) \<Rightarrow> (Failure 400 (NodeErr e), s\<lparr>sv_p2p := m\<rparr>) | (Inr _, m) \<Rightarrow> (g, s\<lparr>sv_p2p := m\<rparr>)))"
    if "serverOk (re_wallet R) I s" for addr s g
    using netQuiet_AddNode [of I "sv_p2p s" "re_net R" addr] that
    by (auto simp: serverOk_def intro!: served_node nodeStep_quiet split: prod.split sum.split)
  then show "containedIn R I (handleAddNode R)" unfolding handleAddNode_def by (intro contained_param) (simp add: containedIn_def)
  have "served R I s (snd (case DisconnectNode addr (sv_p2p s) of
       (Inl e, m) \<Rightarrow> (Failure 404 (NodeErr e), s\<lparr>sv_p2p := m\<rparr>) | (Inr _, m) \<Rightarrow> (g, s\<lparr>sv_p2p := m\<rparr>)))"
    if "serverOk (re_wallet R) I s" for addr s g
    using that served_node [OF that nodeStep_quiet [OF netQuiet_Close]] by (auto simp: served_refl DisconnectNode_def serverOk_def)
  then show "containedIn R I handleDisconnectNode" unfolding handleDisconnectNode_def by (intro contained_param) (simp add: containedIn_def)
qed

lemma contained_submitBlock:
  fixes R :: "('sg, 'pk, 'sk, 'xk, 's, 'd) rpc_env"
  shows "containedIn R I (handleSubmitBlock R)"
  unfolding handleSubmitBlock_def
proof (intro contained_post, unfold containedIn_def, intro allI impI)
  fix r :: request and s :: "('xk, 'sk, 's, 'd) Server"
  assume a: "serverOk (re_wallet R) I s \<and> rq_Body r \<in> I \<and> mapOrder (ne_invOrder (re_net R))"
  have ok: "netOk I (sv_p2p s)" using a by (simp add: serverOk_def)
  have "served R I s (s\<lparr>sv_p2p := m\<rparr>)"
    if "Block_Deserialize (rq_Body r) = Inr (block, rest)" "chainStep (re_net R) block (sv_p2p s) = (x, m)" for block rest x m
  proof (rule served_node)
    have "fromInput I block" unfolding fromInput_def using that(1) a by (intro bexI [of _ "rq_Body r"] exI [of _ "rq_Body r"] exI [of _ rest]) simp_all
    then show "nodeStep (re_chain R) I (sv_p2p s) m" by (rule nodeStep_chainStep [OF ok _ that(2)])
  qed (use a in simp)
  then show "served R I s (snd (case Block_Deserialize (rq_Body r) of
       Inl e \<Rightarrow> (Failure 400 (BadBlock e), s)
     | Inr (block, _) \<Rightarrow>
         (case chainStep (re_net R) block (sv_p2p s) of
            ((height, Some e), m) \<Rightarrow> (if chainPanics e then Dropped else Failure 400 (BlockRejected e), s\<lparr>sv_p2p := m\<rparr>)
          | ((height, None), m) \<Rightarrow>
              (Reply (JObj [(''accepted'', JBool True), (''hash'', jHash (HashBlockHeader (re_sha R) (Header block))),
                 (''height'', jWord height)]), s\<lparr>sv_p2p := m\<rparr>))))"
    using a by (auto simp: served_refl split: sum.split prod.split option.split)
qed


section \<open>The table\<close>

lemmas contained_all = contained_read_only contained_lookups contained_reports contained_keys contained_wallet_reports contained_backup
  contained_send contained_sign contained_control contained_nodes contained_submitBlock

lemma endpoints_contained: "list_all (\<lambda>(name, h). containedIn R I h) (endpoints R)"
  by (simp add: endpoints_def contained_all)

lemma serveHTTP_contained: "containedIn R I (serveHTTP R)"
proof -
  have "containedIn R I h" if "map_of (endpoints R) name = Some h" for name h
    using map_of_SomeD [OF that] endpoints_contained [of R I] by (auto simp: list_all_iff)
  then have "served R I s (snd (route R r s))" if "serverOk (re_wallet R) I s" "rq_Body r \<in> I" "mapOrder (ne_invOrder (re_net R))" for r s
    using that by (auto simp: route_def containedIn_def served_refl split: option.split)
  then show ?thesis by (auto simp: containedIn_def serveHTTP_def authMiddleware_def served_refl split: option.split)
qed

text \<open>Without the credentials a request gets 401 and nothing else happens.\<close>

lemma unauthorized:
  assumes "sv_authUser s \<noteq> []" "rq_BasicAuth r \<noteq> Some (sv_authUser s, sv_authPassword s)"
  shows "serveHTTP R r s = (Failure 401 Unauthorized, s)"
  using assms by (auto simp: serveHTTP_def authMiddleware_def split: option.split)

section \<open>Requests without POST\<close>

definition sameNode :: "('xk, 'sk, 's, 'd) Server \<Rightarrow> ('xk, 'sk, 's, 'd) Server \<Rightarrow> bool" where
  "sameNode s s' \<longleftrightarrow> sv_chain s' = sv_chain s \<and> sv_mempool s' = sv_mempool s \<and> sv_feePerByte s' = sv_feePerByte s
     \<and> sv_stopping s' = sv_stopping s"

definition getSafe :: "('xk, 'sk, 's, 'd) handler \<Rightarrow> bool" where
  "getSafe h \<longleftrightarrow> (\<forall>r s. rq_Method r \<noteq> MethodPost \<longrightarrow> sameNode s (snd (h r s)))"

lemma sameNode_simps [simp]:
  "sameNode s s" "sameNode s (s'\<lparr>sv_wallet := w\<rparr>) = sameNode s s'" "sameNode s (s'\<lparr>sv_backups := f\<rparr>) = sameNode s s'"
  "sameNode (s\<lparr>sv_wallet := w\<rparr>) s' = sameNode s s'"
  by (simp_all add: sameNode_def)

lemma safe_post: "getSafe (requirePOST h)"
  by (simp add: getSafe_def requirePOST_def)

lemma safe_reply: "(\<And>r s. sameNode s (snd (h r s))) \<Longrightarrow> getSafe h"
  by (simp add: getSafe_def)

lemma safe_param: "(\<And>v. getSafe (h v)) \<Longrightarrow> getSafe (withParam key h)"
  by (simp add: getSafe_def withParam_def)

lemma safe_hash: "(\<And>v. getSafe (h v)) \<Longrightarrow> getSafe (withHash key h)"
  unfolding withHash_def by (rule safe_param) (simp add: getSafe_def split: sum.split)

lemma safe_uint32: "(\<And>v. getSafe (h v)) \<Longrightarrow> getSafe (withUint32 key h)"
  unfolding withUint32_def by (rule safe_param) (simp add: getSafe_def split: option.split)

lemma safe_wallet: "(\<And>w. getSafe (h w)) \<Longrightarrow> getSafe (requireWallet h)"
  by (simp add: getSafe_def requireWallet_def split: option.split)

lemma safe_unlocked: "(\<And>w. getSafe (h w)) \<Longrightarrow> getSafe (requireUnlocked R h w)"
  unfolding getSafe_def requireUnlocked_def
  by (auto split: prod.split sum.split) (metis sameNode_simps(4))

lemma node_kept:
  "sameNode s (s\<lparr>sv_p2p := snd (AddNode N addr (sv_p2p s))\<rparr>)" "sameNode s (s\<lparr>sv_p2p := snd (DisconnectNode addr (sv_p2p s))\<rparr>)"
  by (auto simp: sameNode_def AddNode_def IsBanned_def Let_def DisconnectNode_def updPeer_def split: bool.splits option.splits prod.splits if_splits)

lemmas post_handlers = handleStop_def handleSetTxFee_def handleSubmitBlock_def handleSendToAddress_def handleSendRawTransaction_def
  handleSignRawTransactionWithWallet_def handleImportPrivKey_def handleEncryptWallet_def handleWalletPassphrase_def

lemma safe_posts:
  "getSafe handleStop" "getSafe handleSetTxFee" "getSafe (handleSubmitBlock R)" "getSafe (handleSendToAddress R)"
  "getSafe (handleSendRawTransaction R)" "getSafe (handleSignRawTransactionWithWallet R)" "getSafe (handleImportPrivKey R)"
  "getSafe (handleEncryptWallet R)" "getSafe (handleWalletPassphrase R)"
  unfolding post_handlers by (rule safe_post)+

lemma safe_queries:
  "getSafe (handleGetInfo R)" "getSafe (handleGetBlockchainInfo R)" "getSafe (handleGetChainStatus R)"
  "getSafe handleGetBlockCount" "getSafe handleGetBestBlockHash" "getSafe (handleGetDifficulty R)"
  "getSafe (handleGetNetworkInfo R)" "getSafe handleGetConnectionCount" "getSafe handleGetMempoolInfo"
  "getSafe (handleGetRawMempool R)" "getSafe (handleGetTxOutSetInfo R)" "getSafe (handleGetPeerInfo R)" "getSafe (handleMetrics R)"
  by (rule safe_reply, simp add: read_only Let_def split: prod.split)+

lemma safe_lookups:
  "getSafe (handleGetBlockHash R)" "getSafe (handleGetBlock R)" "getSafe (handleGetBlockByHeight R)"
  "getSafe handleGetMempoolEntry" "getSafe handleGetTxOut" "getSafe (handleGetTransaction R)"
  "getSafe (handleGetReceivedByAddress R)" "getSafe (handleValidateAddress R)"
  unfolding handleGetBlockHash_def handleGetBlock_def handleGetBlockByHeight_def handleGetMempoolEntry_def handleGetTxOut_def
    handleGetTransaction_def handleGetReceivedByAddress_def handleValidateAddress_def
  by (intro safe_hash safe_uint32 safe_param safe_reply; simp add: Let_def split: sum.split prod.split option.split)+

lemma safe_wallets:
  "getSafe (handleGetBalance R)" "getSafe (handleListUnspent R)" "getSafe (handleListTransactions R)"
  "getSafe (handleListAddressGroupings R)" "getSafe (handleGetAddressesByLabel R)" "getSafe (handleGetNewAddress R)"
  "getSafe (handleGetRawChangeAddress R)" "getSafe (handleDumpPrivKey R)" "getSafe handleWalletLock"
  "getSafe (handleGetWalletInfo R)" "getSafe (handleDumpWallet R)" "getSafe handleBackupWallet"
  unfolding handleGetBalance_def handleListUnspent_def handleListTransactions_def handleListAddressGroupings_def handleGetAddressesByLabel_def
    handleGetNewAddress_def handleGetRawChangeAddress_def handleDumpPrivKey_def handleWalletLock_def handleGetWalletInfo_def
    handleDumpWallet_def handleBackupWallet_def
  by (intro safe_wallet safe_unlocked safe_param safe_reply; simp add: Let_def split: prod.split sum.split)+

lemma safe_nodes: "getSafe (handleAddNode R)" "getSafe handleDisconnectNode"
  unfolding handleAddNode_def handleDisconnectNode_def
  by (intro safe_param safe_reply; auto split: prod.split sum.split; metis node_kept snd_conv)+

lemma serveHTTP_safe: "getSafe (serveHTTP R)"
proof -
  have "list_all (\<lambda>(name, h). getSafe h) (endpoints R)"
    by (simp add: endpoints_def safe_posts safe_queries safe_lookups safe_wallets safe_nodes)
  then have "getSafe h" if "map_of (endpoints R) name = Some h" for name h
    using map_of_SomeD [OF that] by (auto simp: list_all_iff)
  then have "sameNode s (snd (route R r s))" if "rq_Method r \<noteq> MethodPost" for r s
    using that by (auto simp: route_def getSafe_def split: option.split)
  then show ?thesis by (auto simp: getSafe_def serveHTTP_def authMiddleware_def split: option.split)
qed

end
