(* ===== verification/Rpc_Pay.thy ===== *)
theory Rpc_Pay
  imports Rpc_Props
begin

text \<open>
  A payment request end to end: what \<open>sendtoaddress\<close> does on a server whose pool is in step with the
  chain. The transaction that the wallet builds is never invalid for the pool.
\<close>

lemma AddTx_valid:
  assumes "ValidateSingleTransaction L tx (mp_utxoSet m) (mp_tipHeight m) (mp_p m) = Inr fee" "AddTx L m tx = (x, m')"
  shows "(x = Inr (HashTransaction (lib_sha L) tx) \<and> (\<exists>e. mp_txs m' (HashTransaction (lib_sha L) tx) = Some e \<and> te_Tx e = tx \<and> te_Fee e = fee))
     \<or> m' = m \<and> (x = Inl (MpExists (HashTransaction (lib_sha L) tx)) \<or> x = Inl (MpFull (card (dom (mp_txs m))))
        \<or> (\<exists>key other. findConflict (mp_spentOutpoints m) (Inputs tx) = Some (key, other) \<and> x = Inl (MpDoubleSpend key other))
        \<or> fee < MinRelayTxFee (mp_p m) \<and> x = Inl (MpFeeTooLow fee))"
proof -
  have "\<not> IsCoinbase tx" "Inputs tx \<noteq> []" "Outputs tx \<noteq> []" using assms(1) by (auto simp: ValidateSingleTransaction_def split: if_splits)
  then show ?thesis using assms by (auto simp: AddTx_def Let_def split: if_splits option.splits)
qed

lemma BroadcastTx_pool: "mg_mempool (BroadcastTx N h m) = mg_mempool m"
proof -
  have "mg_mempool (fold (\<lambda>a m. sendTo N a CmdInv p (knowsTo N a h m)) as m) = mg_mempool m" for as p m
    by (induction as arbitrary: m) (simp_all add: sendTo_def knowsTo_def updPeer_def)
  then show ?thesis by (simp add: BroadcastTx_def Let_def)
qed

text \<open>The pool is in step: it reads the chain's set, knows the height of the tip and has the chain's parameters.\<close>

definition poolInStep :: "('sg, 'pk, 'sk, 'xk, 's, 'd) rpc_env \<Rightarrow> ('xk, 'sk, 's, 'd) Server \<Rightarrow> bool" where
  "poolInStep R s \<longleftrightarrow> mp_utxoSet (sv_mempool s) = ch_utxoSet (sv_chain s) \<and> mp_tipHeight (sv_mempool s) = ch_tipHeight (sv_chain s)
     \<and> mp_p (sv_mempool s) = re_params R \<and> wl_crypto (re_wallet R) = en_lib (re_chain R)"

text \<open>The request for \<open>amount\<close> to \<open>address\<close>, as the handler reads it.\<close>

definition payRequest :: "request \<Rightarrow> nat \<Rightarrow> bool" where
  "payRequest r amount \<longleftrightarrow> rq_Method r = MethodPost \<and> query r ''address'' \<noteq> [] \<and> query r ''amount'' \<noteq> []
     \<and> ParseUint 64 (query r ''amount'') = (None, amount)"

definition builtTx :: "('sg, 'pk, 'sk, 'xk, 's, 'd) rpc_env \<Rightarrow> request \<Rightarrow> nat \<Rightarrow> ('xk, 'sk) HDWallet \<Rightarrow> ('xk, 'sk, 's, 'd) Server
    \<Rightarrow> (build_error, Transaction) res \<times> ('xk, 'sk) HDWallet" where
  "builtTx R r amount w s = BuildTransaction (re_wallet R) (re_sortCoins R) (ne_now (re_net R))
     \<lparr>sr_ToAddress = query r ''address'', sr_Amount = of_nat amount\<rparr> (sv_feePerByte s) (walletCoins R w s)
     (CoinbaseMaturity (re_params R)) (ch_tipHeight (sv_chain s)) w"

lemma sendToAddress_steps:
  assumes "payRequest r amount" "sv_wallet s = Some w" "RequireUnlocked (ne_now (re_net R)) w = (Inr (), w)"
  shows "handleSendToAddress R r s = (case builtTx R r amount w s of
     (Inl e, w') \<Rightarrow> (buildFailure e, s\<lparr>sv_wallet := Some w'\<rparr>)
   | (Inr tx, w') \<Rightarrow> replyTx (submitTxToMempool R tx (s\<lparr>sv_wallet := Some w'\<rparr>)))"
proof -
  have "s\<lparr>sv_wallet := Some w\<rparr> = s" using assms(2) by (metis Server.surjective Server.update_convs(5) Server.select_convs(5))
  then show ?thesis using assms
    by (simp add: handleSendToAddress_def requirePOST_def requireWallet_def requireUnlocked_def payRequest_def builtTx_def walletCoins_def
        utxoOrder_def Tip_def split: prod.split sum.split)
qed

lemma sendToAddress_outcome:
  assumes req: "payRequest r amount" "sv_wallet s = Some w" "RequireUnlocked (ne_now (re_net R)) w = (Inr (), w)"
    and step: "poolInStep R s" and lib: "ecdsa_correct (wl_crypto (re_wallet R))" "digest (wl_sha (re_wallet R))"
    and inv: "walletInv (re_wallet R) w" and srt: "\<And>us. mset (re_sortCoins R us) = mset us"
    and u: "U = ch_utxoSet (sv_chain s)" "finite (dom U)" "wf_keys U" "setValue U \<le> unat MaxMoneyValue" "U (OutpointKey ZeroHash 0xFFFFFFFF) = None"
    and ord: "distinct (re_utxoOrder R U)" "set (re_utxoOrder R U) = dom U"
    and fit: "unat (ch_tipHeight (sv_chain s)) + 1 < 2 ^ 32"
      "amount + feeNat (length (walletCoins R w s)) 2 (sv_feePerByte s) < 2 ^ 64"
    and b: "builtTx R r amount w s = (Inr tx, w')" and h: "handleSendToAddress R r s = (resp, s')"
  shows "\<exists>fee pkh. AddressToPubKeyHash (wl_sha (re_wallet R)) (query r ''address'') = Inr (w_addrVersion w, pkh)
     \<and> hd (Outputs tx) = \<lparr>Value = of_nat amount, PkScript = MakeP2PKHScript pkh\<rparr>
     \<and> (resp = Reply (jHash (HashTransaction (re_sha R) tx)) \<and>
          (\<exists>e. mp_txs (sv_mempool s') (HashTransaction (re_sha R) tx) = Some e \<and> te_Tx e = tx \<and> te_Fee e = fee)
        \<or> sv_mempool s' = sv_mempool s \<and> (\<exists>e. resp = Failure 400 (TxRejected e) \<and>
             (e = MpExists (HashTransaction (re_sha R) tx) \<or> e = MpFull (card (dom (mp_txs (sv_mempool s))))
              \<or> (\<exists>key other. findConflict (mp_spentOutpoints (sv_mempool s)) (Inputs tx) = Some (key, other) \<and> e = MpDoubleSpend key other)
              \<or> fee < MinRelayTxFee (re_params R) \<and> e = MpFeeTooLow fee)))"
proof -
  let ?L = "re_wallet R" and ?tip = "ch_tipHeight (sv_chain s)"
  let ?req = "\<lparr>sr_ToAddress = query r ''address'', sr_Amount = of_nat amount :: u64\<rparr>"
  have c: "list_all (coinOf w U) (walletCoins R w s)" "distinct (map uoKey (walletCoins R w s))"
    using FindUnspent_coins [of "re_utxoOrder R U" U] ord u(1,3) by (simp_all add: walletCoins_def utxoOrder_def)
  have am: "unat (of_nat amount :: u64) = amount" using fit(2) by (simp add: unat_of_nat)
  have "unat (sr_Amount ?req) + feeNat (length (walletCoins R w s)) 2 (sv_feePerByte s) < 2 ^ 64" using fit(2) am by simp
  from BuildTransaction_valid [OF lib inv srt u(2,4,5) c fit(1) this b [unfolded builtTx_def]]
  obtain fee pkh where v: "ValidateSingleTransaction (wl_crypto ?L) tx U ?tip (re_params R) = Inr fee"
    and p: "AddressToPubKeyHash (wl_sha ?L) (query r ''address'') = Inr (w_addrVersion w, pkh)"
      "hd (Outputs tx) = \<lparr>Value = of_nat amount, PkScript = MakeP2PKHScript pkh\<rparr>" by auto
  obtain x mp where add: "AddTx (en_lib (re_chain R)) (sv_mempool s) tx = (x, mp)" by fastforce
  have "ValidateSingleTransaction (en_lib (re_chain R)) tx (mp_utxoSet (sv_mempool s)) (mp_tipHeight (sv_mempool s)) (mp_p (sv_mempool s)) = Inr fee"
    using v step u(1) by (simp add: poolInStep_def)
  note A = AddTx_valid [OF this add]
  have hs: "(resp, s') = replyTx (submitTxToMempool R tx (s\<lparr>sv_wallet := Some w'\<rparr>))" using h sendToAddress_steps [OF req] b by simp
  have pool: "sv_mempool s' = mp" using hs add
    by (cases x) (auto simp: submitTxToMempool_def replyTx_def Let_def BroadcastTx_pool)
  have resp: "resp = (case x of Inl e \<Rightarrow> Failure 400 (TxRejected e) | Inr t \<Rightarrow> Reply (jHash t))" using hs add
    by (cases x) (auto simp: submitTxToMempool_def replyTx_def Let_def)
  have mp: "mp_p (sv_mempool s) = re_params R" using step by (simp add: poolInStep_def)
  show ?thesis using A p pool resp unfolding mp by (intro exI [of _ fee] exI [of _ pkh]) auto
qed

end
