(* ===== verification/Config.thy ===== *)
theory Config
  imports Numtext Paths Peerstore
begin

text \<open>
  The configuration (\<open>internal/config/config.go\<close>): defaults, the two file formats and the paths below the
  data directory. A file is its bytes, with the outcomes "missing" and "unreadable" of opening it; the
  JSON file is represented by the fields that its text carries. The lower case of letters beyond ASCII is
  the argument \<open>uni\<close>.
\<close>

section \<open>The record and its defaults\<close>

record Config =
  cf_Network :: bytes
  cf_DataDir :: bytes
  cf_DataDirName :: bytes
  cf_ListenAddr :: bytes
  cf_RPCAddr :: bytes
  cf_SeedPeers :: "bytes list"
  cf_MaxInbound :: int
  cf_MaxOutbound :: int
  cf_MiningEnabled :: bool
  cf_MiningAddr :: bytes
  cf_LogLevel :: bytes
  cf_RPCUser :: bytes
  cf_RPCPassword :: bytes

text \<open>The home directory may be unknown.\<close>

definition defaultDataDir :: "bytes option \<Rightarrow> bytes" where
  "defaultDataDir home = (case home of None \<Rightarrow> ascii ''.fairchain'' | Some h \<Rightarrow> joinPath [h, ascii ''.fairchain''])"

definition DefaultConfig :: "bytes option \<Rightarrow> Config" where
  "DefaultConfig home =
     \<lparr>cf_Network = ascii ''regtest'', cf_DataDir = defaultDataDir home, cf_DataDirName = [], cf_ListenAddr = ascii ''0.0.0.0:19444'',
      cf_RPCAddr = ascii ''127.0.0.1:19445'', cf_SeedPeers = [], cf_MaxInbound = 25, cf_MaxOutbound = 8, cf_MiningEnabled = False,
      cf_MiningAddr = [], cf_LogLevel = ascii ''info'', cf_RPCUser = [], cf_RPCPassword = []\<rparr>"

datatype 'a file_read = Missing | Unreadable | Contents 'a

datatype config_error = ReadConfig | ParseConfig | OpenConf | ReadConf | MakeDir bytes

section \<open>The JSON file\<close>

text \<open>A field that is not in the text is \<open>None\<close>. \<open>DataDirName\<close> is never part of it.\<close>

record config_json =
  cj_network :: "bytes option"
  cj_data_dir :: "bytes option"
  cj_listen_addr :: "bytes option"
  cj_rpc_addr :: "bytes option"
  cj_seed_peers :: "bytes list option"
  cj_max_inbound :: "int option"
  cj_max_outbound :: "int option"
  cj_mining_enabled :: "bool option"
  cj_mining_addr :: "bytes option"
  cj_log_level :: "bytes option"
  cj_rpc_user :: "bytes option"
  cj_rpc_password :: "bytes option"

definition given :: "'a option \<Rightarrow> 'a \<Rightarrow> 'a" where
  "given v d = (case v of None \<Rightarrow> d | Some x \<Rightarrow> x)"

definition overlay :: "config_json \<Rightarrow> Config \<Rightarrow> Config" where
  "overlay j c = c\<lparr>cf_Network := given (cj_network j) (cf_Network c), cf_DataDir := given (cj_data_dir j) (cf_DataDir c),
     cf_ListenAddr := given (cj_listen_addr j) (cf_ListenAddr c), cf_RPCAddr := given (cj_rpc_addr j) (cf_RPCAddr c),
     cf_SeedPeers := given (cj_seed_peers j) (cf_SeedPeers c), cf_MaxInbound := given (cj_max_inbound j) (cf_MaxInbound c),
     cf_MaxOutbound := given (cj_max_outbound j) (cf_MaxOutbound c), cf_MiningEnabled := given (cj_mining_enabled j) (cf_MiningEnabled c),
     cf_MiningAddr := given (cj_mining_addr j) (cf_MiningAddr c), cf_LogLevel := given (cj_log_level j) (cf_LogLevel c),
     cf_RPCUser := given (cj_rpc_user j) (cf_RPCUser c), cf_RPCPassword := given (cj_rpc_password j) (cf_RPCPassword c)\<rparr>"

text \<open>A text that \<open>json.Unmarshal\<close> refuses is \<open>Contents None\<close>.\<close>

definition LoadConfig :: "bytes option \<Rightarrow> config_json option file_read \<Rightarrow> (config_error, Config) res" where
  "LoadConfig home f =
     (case f of
        Missing \<Rightarrow> Inr (DefaultConfig home)
      | Unreadable \<Rightarrow> Inl ReadConfig
      | Contents None \<Rightarrow> Inl ParseConfig
      | Contents (Some j) \<Rightarrow> Inr (overlay j (DefaultConfig home)))"

text \<open>The credentials are left out when they are empty.\<close>

definition SaveConfig :: "Config \<Rightarrow> config_json" where
  "SaveConfig c = \<lparr>cj_network = Some (cf_Network c), cj_data_dir = Some (cf_DataDir c), cj_listen_addr = Some (cf_ListenAddr c),
     cj_rpc_addr = Some (cf_RPCAddr c), cj_seed_peers = Some (cf_SeedPeers c), cj_max_inbound = Some (cf_MaxInbound c),
     cj_max_outbound = Some (cf_MaxOutbound c), cj_mining_enabled = Some (cf_MiningEnabled c), cj_mining_addr = Some (cf_MiningAddr c),
     cj_log_level = Some (cf_LogLevel c), cj_rpc_user = (if cf_RPCUser c = [] then None else Some (cf_RPCUser c)),
     cj_rpc_password = (if cf_RPCPassword c = [] then None else Some (cf_RPCPassword c))\<rparr>"

lemma config_roundtrip: "LoadConfig home (Contents (Some (SaveConfig c))) = Inr (c\<lparr>cf_DataDirName := []\<rparr>)"
  by (cases c) (simp add: LoadConfig_def SaveConfig_def overlay_def given_def DefaultConfig_def)

section \<open>The text file\<close>

text \<open>\<open>strings.ToLower\<close>, \<open>strings.Trim(line, "[]")\<close> and \<open>strings.SplitN(line, "=", 2)\<close>.\<close>

definition lowerChunk :: "(bytes \<Rightarrow> bytes) \<Rightarrow> bytes \<Rightarrow> bytes" where
  "lowerChunk uni c = (case c of [b] \<Rightarrow> if b < 0x80 then [if 0x41 \<le> b \<and> b \<le> 0x5A then b + 0x20 else b] else uni c | _ \<Rightarrow> uni c)"

definition toLower :: "(bytes \<Rightarrow> bytes) \<Rightarrow> bytes \<Rightarrow> bytes" where
  "toLower uni s = concat (map (lowerChunk uni) (chunks s))"

definition isBracket :: "byte \<Rightarrow> bool" where
  "isBracket b \<longleftrightarrow> b = 0x5B \<or> b = 0x5D"

definition trimBrackets :: "bytes \<Rightarrow> bytes" where
  "trimBrackets s = rev (dropWhile isBracket (rev (dropWhile isBracket s)))"

definition splitEquals :: "bytes \<Rightarrow> (bytes \<times> bytes) option" where
  "splitEquals line =
     (let key = takeWhile (\<lambda>b. b \<noteq> 0x3D) line in
      if length key < length line then Some (key, drop (Suc (length key)) line) else None)"

definition confSectionName :: "bytes \<Rightarrow> bytes" where
  "confSectionName network =
     (if network = ascii ''mainnet'' then ascii ''main''
      else if network = ascii ''testnet'' then ascii ''test''
      else if network = ascii ''regtest'' then ascii ''regtest''
      else network)"

text \<open>A number that cannot be read leaves the field as it is.\<close>

definition applyConfOption :: "bytes \<Rightarrow> bytes \<Rightarrow> Config \<Rightarrow> Config" where
  "applyConfOption key v c =
     (if key = ascii ''network'' then c\<lparr>cf_Network := v\<rparr>
      else if key = ascii ''datadir'' then c\<lparr>cf_DataDir := v\<rparr>
      else if key = ascii ''listen'' then c\<lparr>cf_ListenAddr := v\<rparr>
      else if key = ascii ''rpc'' then c\<lparr>cf_RPCAddr := v\<rparr>
      else if key = ascii ''mine'' then c\<lparr>cf_MiningEnabled := (v = ascii ''1'' \<or> v = ascii ''true'')\<rparr>
      else if key = ascii ''miningaddr'' then c\<lparr>cf_MiningAddr := v\<rparr>
      else if key = ascii ''loglevel'' then c\<lparr>cf_LogLevel := v\<rparr>
      else if key = ascii ''maxinbound'' then c\<lparr>cf_MaxInbound := given (scanInt v) (cf_MaxInbound c)\<rparr>
      else if key = ascii ''maxoutbound'' then c\<lparr>cf_MaxOutbound := given (scanInt v) (cf_MaxOutbound c)\<rparr>
      else if key = ascii ''seedpeers'' then c\<lparr>cf_SeedPeers := splitOn 0x2C v []\<rparr>
      else if key = ascii ''rpcuser'' then c\<lparr>cf_RPCUser := v\<rparr>
      else if key = ascii ''rpcpassword'' then c\<lparr>cf_RPCPassword := v\<rparr>
      else c)"

text \<open>What one line means: nothing, a section, or an option.\<close>

datatype conf_line = Blank | SectionLine bytes | OptionLine bytes bytes

definition readLine :: "(bytes \<Rightarrow> bytes) \<Rightarrow> bytes \<Rightarrow> conf_line" where
  "readLine uni raw =
     (let line = TrimSpace raw in
      if line = [] \<or> hd line = 0x23 then Blank
      else if hd line = 0x5B \<and> last line = 0x5D then SectionLine (toLower uni (trimBrackets line))
      else case splitEquals line of
             None \<Rightarrow> Blank
           | Some (k, v) \<Rightarrow> OptionLine (TrimSpace k) (TrimSpace v))"

fun confLoop :: "bytes \<Rightarrow> conf_line list \<Rightarrow> bytes \<Rightarrow> Config \<Rightarrow> Config" where
  "confLoop target [] sect c = c"
| "confLoop target (Blank # ls) sect c = confLoop target ls sect c"
| "confLoop target (SectionLine n # ls) sect c = confLoop target ls n c"
| "confLoop target (OptionLine k v # ls) sect c =
     confLoop target ls sect (if sect \<noteq> [] \<and> sect \<noteq> target then c else applyConfOption k v c)"

text \<open>The scanner stops with an error at a line of 65536 bytes or more; then nothing of the file counts.\<close>

function tooLong :: "bytes \<Rightarrow> bool" where
  "tooLong data =
     (if data = [] then False
      else
        let line = takeWhile (\<lambda>b. b \<noteq> 0x0A) data in
        length line \<ge> 65536 \<or> tooLong (drop (Suc (length line)) data))"
  by pat_completeness auto
termination
  by (relation "measure length") auto

declare tooLong.simps [simp del]

definition LoadConf :: "(bytes \<Rightarrow> bytes) \<Rightarrow> bytes option \<Rightarrow> bytes file_read \<Rightarrow> bytes \<Rightarrow> (config_error, Config) res" where
  "LoadConf uni home f network =
     (case f of
        Missing \<Rightarrow> Inr (DefaultConfig home)
      | Unreadable \<Rightarrow> Inl OpenConf
      | Contents data \<Rightarrow>
          let c = confLoop (confSectionName network) (map (readLine uni) (scanLines data)) [] (DefaultConfig home) in
          if tooLong data then Inl ReadConf else Inr c)"

section \<open>Paths\<close>

definition NetworkDataDir :: "Config \<Rightarrow> bytes" where
  "NetworkDataDir c = (if cf_DataDirName c = [] then cf_DataDir c else joinPath [cf_DataDir c, cf_DataDirName c])"

definition BlocksDir :: "Config \<Rightarrow> bytes" where "BlocksDir c = joinPath [NetworkDataDir c, ascii ''blocks'']"
definition BlockIndexDir :: "Config \<Rightarrow> bytes" where "BlockIndexDir c = joinPath [BlocksDir c, ascii ''index'']"
definition ChainstateDir :: "Config \<Rightarrow> bytes" where "ChainstateDir c = joinPath [NetworkDataDir c, ascii ''chainstate'']"
definition PeerDBPath :: "Config \<Rightarrow> bytes" where "PeerDBPath c = joinPath [NetworkDataDir c, ascii ''peers.db'']"
definition PeersDatPath :: "Config \<Rightarrow> bytes" where "PeersDatPath c = joinPath [NetworkDataDir c, ascii ''peers.dat'']"
definition MempoolPath :: "Config \<Rightarrow> bytes" where "MempoolPath c = joinPath [NetworkDataDir c, ascii ''mempool.dat'']"
definition LockFilePath :: "Config \<Rightarrow> bytes" where "LockFilePath c = joinPath [NetworkDataDir c, ascii ''.lock'']"
definition RPCCookiePath :: "Config \<Rightarrow> bytes" where "RPCCookiePath c = joinPath [NetworkDataDir c, ascii ''.cookie'']"
definition ConfFilePath :: "Config \<Rightarrow> bytes" where "ConfFilePath c = joinPath [cf_DataDir c, ascii ''fairchain.conf'']"
definition DBPath :: "Config \<Rightarrow> bytes" where "DBPath c = joinPath [cf_DataDir c, ascii ''blocks.db'']"
definition LegacyDBPath :: "Config \<Rightarrow> bytes" where "LegacyDBPath c = joinPath [NetworkDataDir c, ascii ''blocks.db'']"
definition WalletDir :: "Config \<Rightarrow> bytes" where "WalletDir c = joinPath [NetworkDataDir c, ascii ''wallet'']"

text \<open>Creating the directories: those that exist afterwards, up to the first failure.\<close>

fun mkdirs :: "(bytes \<Rightarrow> bool) \<Rightarrow> bytes list \<Rightarrow> bytes set \<Rightarrow> (config_error, unit) res \<times> bytes set" where
  "mkdirs ok [] ds = (Inr (), ds)"
| "mkdirs ok (d # rest) ds = (if ok d then mkdirs ok rest (insert d ds) else (Inl (MakeDir d), ds))"

definition EnsureDataDir :: "(bytes \<Rightarrow> bool) \<Rightarrow> Config \<Rightarrow> bytes set \<Rightarrow> (config_error, unit) res \<times> bytes set" where
  "EnsureDataDir ok c ds = mkdirs ok [NetworkDataDir c, BlocksDir c, BlockIndexDir c, ChainstateDir c, WalletDir c] ds"

section \<open>Which options count\<close>

text \<open>
  The options of a file in the order in which they are applied: those before the first section header and
  those in sections of the chosen network. The loop applies exactly these.
\<close>

fun inForce :: "bytes \<Rightarrow> conf_line list \<Rightarrow> bytes \<Rightarrow> (bytes \<times> bytes) list" where
  "inForce target [] sect = []"
| "inForce target (Blank # ls) sect = inForce target ls sect"
| "inForce target (SectionLine n # ls) sect = inForce target ls n"
| "inForce target (OptionLine k v # ls) sect = (if sect = [] \<or> sect = target then [(k, v)] else []) @ inForce target ls sect"

lemma confLoop_inForce: "confLoop target ls sect c = fold (\<lambda>(k, v). applyConfOption k v) (inForce target ls sect) c"
  by (induction target ls sect c rule: confLoop.induct) auto

text \<open>The last option in force decides: the network name as an example of a text field.\<close>

lemma applyConfOption_network:
  "cf_Network (applyConfOption k v c) = (if k = ascii ''network'' then v else cf_Network c)"
  by (simp add: applyConfOption_def)

lemma network_last:
  "cf_Network (fold (\<lambda>(k, v). applyConfOption k v) os c)
     = (case filter (\<lambda>(k, v). k = ascii ''network'') os of [] \<Rightarrow> cf_Network c | xs \<Rightarrow> snd (last xs))"
proof (induction os rule: rev_induct)
  case (snoc x xs)
  then show ?case by (cases x) (auto simp: applyConfOption_network split: list.splits)
qed simp

end
