(* ===== verification/Migrate.thy ===== *)
theory Migrate
  imports Peerstore Store_Contract Params Target
begin

text \<open>
  Migration of a legacy database to the flat files (\<open>migrateFromLegacy\<close> of \<open>cmd/node/main.go\<close>): every
  block of the old database, from height 0 to its tip, is written to the new store with an index record
  that carries the work of the chain so far. The loop counts a 32-bit height up to the tip, so that it
  does not end when the tip has the largest height; \<open>None\<close> stands for a loop that does not end.
\<close>

datatype migrate_error =
    NoLegacyFile
  | OpenLegacy bolt_error
  | NoLegacyData
  | LegacyTip bolt_error
  | LegacyHash u32 bolt_error
  | LegacyBlock u32 bolt_error
  | MigrateWrite u32 store_error
  | MigrateIndex u32 store_error
  | MigrateTip store_error

definition migrateRecord :: "Block \<Rightarrow> u32 \<Rightarrow> u32 \<times> u32 \<times> u32 \<Rightarrow> int \<Rightarrow> DiskBlockIndex" where
  "migrateRecord block h loc work =
     (case loc of (fileNum, offset, sz) \<Rightarrow>
       \<lparr>di_Header = Header block, di_Height = h, di_Status = StatusHaveData OR StatusValidHeader OR StatusValidTx,
        di_TxCount = of_nat (length (Transactions block)), di_FileNum = fileNum, di_DataPos = offset, di_DataSize = sz,
        di_UndoFile = 0, di_UndoPos = 0, di_UndoSize = 0, di_ChainWork = Some work\<rparr>)"

text \<open>Undo data is copied if there is any; a failed write leaves the record without it.\<close>

definition migrateUndo :: "'b bolt_lib \<Rightarrow> 'b \<Rightarrow> 's BlockStore \<Rightarrow> hash \<Rightarrow> u32 \<Rightarrow> DiskBlockIndex \<Rightarrow> 's \<Rightarrow> DiskBlockIndex \<times> 's" where
  "migrateUndo L db S hash fileNum rec s =
     (case LegacyGetUndoData L hash db of
        Inl _ \<Rightarrow> (rec, s)
      | Inr undo \<Rightarrow>
          if length undo = 0 then (rec, s)
          else case st_WriteUndo S s fileNum undo of
            (Inl _, s) \<Rightarrow> (rec, s)
          | (Inr (undoOffset, undoSize), s) \<Rightarrow>
              (rec\<lparr>di_UndoFile := fileNum, di_UndoPos := undoOffset, di_UndoSize := undoSize,
                 di_Status := di_Status rec OR StatusHaveUndo\<rparr>, s))"

text \<open>The body of the loop: the cumulated work, and the store.\<close>

definition migrateOne :: "'b bolt_lib \<Rightarrow> 'b \<Rightarrow> 's BlockStore \<Rightarrow> u32 \<Rightarrow> int \<Rightarrow> 's \<Rightarrow> (migrate_error, int) res \<times> 's" where
  "migrateOne L db S h work s =
     (case LegacyGetBlockByHeight L h db of
        Inl e \<Rightarrow> (Inl (LegacyHash h e), s)
      | Inr hash \<Rightarrow>
          (case LegacyGetBlock L hash db of
             Inl e \<Rightarrow> (Inl (LegacyBlock h e), s)
           | Inr block \<Rightarrow>
               (case st_WriteBlock S s hash block of
                  (Inl e, s) \<Rightarrow> (Inl (MigrateWrite h e), s)
                | (Inr (fileNum, offset, sz), s) \<Rightarrow>
                    let work = work + CalcWork (Bits (Header block)) in
                    (case migrateUndo L db S hash fileNum (migrateRecord block h (fileNum, offset, sz) work) s of
                       (rec, s) \<Rightarrow>
                         (case st_PutBlockIndex S s hash rec of
                            (Inl e, s) \<Rightarrow> (Inl (MigrateIndex h e), s)
                          | (Inr _, s) \<Rightarrow> (Inr work, s))))))"

partial_function (option) migrateLoop :: "'b bolt_lib \<Rightarrow> 'b \<Rightarrow> 's BlockStore \<Rightarrow> u32 \<Rightarrow> u32 \<Rightarrow> int \<Rightarrow> 's
    \<Rightarrow> ((migrate_error, int) res \<times> 's) option" where
  "migrateLoop L db S tipHeight h work s =
     (if \<not> h \<le> tipHeight then Some (Inr work, s)
      else case migrateOne L db S h work s of
        (Inl e, s) \<Rightarrow> Some (Inl e, s)
      | (Inr work, s) \<Rightarrow> migrateLoop L db S tipHeight (h + 1) work s)"

declare migrateLoop.simps [code]

text \<open>The work before the first block.\<close>

definition startWork :: "ChainParams \<Rightarrow> u32 \<Rightarrow> int" where
  "startWork p tipHeight = (if tipHeight > 0 then 0 else CalcWork (Bits (Header (GenesisBlock p))))"

text \<open>
  \<open>found\<close> says whether one of the two legacy paths exists, \<open>opened\<close> is the outcome of opening the database
  there. The new store is opened before; its outcome is a part of the caller's state.
\<close>

definition migrateFromLegacy :: "'b bolt_lib \<Rightarrow> bool \<Rightarrow> (bolt_error, 'b) res \<Rightarrow> ChainParams \<Rightarrow> 's BlockStore \<Rightarrow> 's
    \<Rightarrow> ((migrate_error, unit) res \<times> 's) option" where
  "migrateFromLegacy L found opened p S s =
     (if \<not> found then Some (Inl NoLegacyFile, s)
      else case opened of
        Inl e \<Rightarrow> Some (Inl (OpenLegacy e), s)
      | Inr db \<Rightarrow>
          if \<not> LegacyHasData L db then Some (Inl NoLegacyData, s)
          else case LegacyGetChainTip L db of
            Inl e \<Rightarrow> Some (Inl (LegacyTip e), s)
          | Inr (tipHash, tipHeight) \<Rightarrow>
              Option.bind (migrateLoop L db S tipHeight 0 (startWork p tipHeight) s) (\<lambda>(r, s).
                case r of
                  Inl e \<Rightarrow> Some (Inl e, s)
                | Inr _ \<Rightarrow>
                    (case st_PutChainTip S s tipHash tipHeight of
                       (Inl e, s) \<Rightarrow> Some (Inl (MigrateTip e), s)
                     | (Inr _, s) \<Rightarrow> Some (Inr (), s))))"

section \<open>The loop ends\<close>

lemma height_step:
  assumes "tipHeight \<noteq> - 1" "(h :: u32) \<le> tipHeight"
  shows "unat (h + 1) = Suc (unat h)" "unat (tipHeight + 1) - unat (h + 1) < unat (tipHeight + 1) - unat h"
proof -
  have "unat (tipHeight + 1) = Suc (unat tipHeight)" using assms(1) by (metis add.commute eq_neg_iff_add_eq_0 unatSuc)
  moreover have "h \<noteq> - 1" using assms word_order.extremum_uniqueI [of tipHeight] by auto
  then have "h + 1 \<noteq> 0" by (simp add: eq_neg_iff_add_eq_0 [symmetric])
  then show "unat (h + 1) = Suc (unat h)" by (metis add.commute unatSuc)
  ultimately show "unat (tipHeight + 1) - unat (h + 1) < unat (tipHeight + 1) - unat h" using assms(2) by (simp add: word_le_nat_alt)
qed

lemma migrateLoop_total:
  assumes "tipHeight \<noteq> - 1"
  shows "\<exists>x. migrateLoop L db S tipHeight h work s = Some x"
proof (induction "unat (tipHeight + 1) - unat h" arbitrary: h work s rule: less_induct)
  case less
  show ?case
  proof (cases "h \<le> tipHeight")
    case True
    show ?thesis using less(1) [OF height_step(2) [OF assms True]] by (subst migrateLoop.simps) (auto split: prod.splits sum.splits)
  qed (subst migrateLoop.simps, simp)
qed

section \<open>What the new store holds\<close>

text \<open>The old chain: hash and block at a height, and the work of the blocks from height \<open>h\<close> to \<open>k\<close>.\<close>

definition legacyHash :: "'b bolt_lib \<Rightarrow> 'b \<Rightarrow> u32 \<Rightarrow> hash" where
  "legacyHash L db h = (case LegacyGetBlockByHeight L h db of Inl _ \<Rightarrow> [] | Inr x \<Rightarrow> x)"

definition legacyWork :: "'b bolt_lib \<Rightarrow> 'b \<Rightarrow> u32 \<Rightarrow> int" where
  "legacyWork L db h = (case LegacyGetBlock L (legacyHash L db h) db of Inl _ \<Rightarrow> 0 | Inr b \<Rightarrow> CalcWork (Bits (Header b)))"

definition workTo :: "'b bolt_lib \<Rightarrow> 'b \<Rightarrow> u32 \<Rightarrow> int" where
  "workTo L db k = (\<Sum>i\<le>unat k. legacyWork L db (of_nat i))"

text \<open>A block of the old chain in the new store: its record has the height and the work, and leads to the block and its undo data.\<close>

definition migrated :: "'s BlockStore \<Rightarrow> 'b bolt_lib \<Rightarrow> 'b \<Rightarrow> 's \<Rightarrow> hash \<Rightarrow> u32 \<Rightarrow> int \<Rightarrow> bool" where
  "migrated S L db s x h work \<longleftrightarrow> (\<exists>b rec. LegacyGetBlock L x db = Inr b \<and> st_GetBlock S s x = Inr b
     \<and> st_GetBlockIndex S s x = Inr rec \<and> di_Header rec = Header b \<and> di_Height rec = h \<and> di_ChainWork rec = Some work
     \<and> (di_Status rec AND StatusHaveUndo \<noteq> 0 \<longrightarrow>
          (\<exists>u. LegacyGetUndoData L x db = Inr u \<and> st_ReadUndo S s (di_UndoFile rec) (di_UndoPos rec) (di_UndoSize rec) = Inr u)))"

lemma migrateRecord_simps [simp]:
  "di_Header (migrateRecord b h loc w) = Header b" "di_Height (migrateRecord b h loc w) = h"
  "di_ChainWork (migrateRecord b h loc w) = Some w"
  "di_FileNum (migrateRecord b h (f, p, n) w) = f" "di_DataPos (migrateRecord b h (f, p, n) w) = p" "di_DataSize (migrateRecord b h (f, p, n) w) = n"
  "di_Status (migrateRecord b h loc w) = StatusHaveData OR StatusValidHeader OR StatusValidTx"
  by (simp_all add: migrateRecord_def split: prod.splits)

lemma keepsFiles_refl: "keepsFiles S s s"
  by (simp add: keepsFiles_def)

lemma keepsFiles_trans: "keepsFiles S s s' \<Longrightarrow> keepsFiles S s' s'' \<Longrightarrow> keepsFiles S s s''"
  by (simp add: keepsFiles_def)

context block_store
begin

lemma migrated_keeps:
  assumes "migrated S L db s x h w" "keepsFiles S s s'" "st_GetBlockIndex S s' x = st_GetBlockIndex S s x"
  shows "migrated S L db s' x h w"
proof -
  obtain b rec where r: "LegacyGetBlock L x db = Inr b" "st_GetBlock S s x = Inr b" "st_GetBlockIndex S s x = Inr rec"
    "di_Header rec = Header b" "di_Height rec = h" "di_ChainWork rec = Some w"
    "di_Status rec AND StatusHaveUndo \<noteq> 0 \<longrightarrow>
       (\<exists>u. LegacyGetUndoData L x db = Inr u \<and> st_ReadUndo S s (di_UndoFile rec) (di_UndoPos rec) (di_UndoSize rec) = Inr u)"
    using assms(1) by (auto simp: migrated_def)
  have "st_GetBlock S s' x = Inr b"
    using r(2,3) assms(2,3) by (auto simp: getBlock keepsFiles_def split: if_splits)
  moreover have "st_GetBlockIndex S s' x = Inr rec" using r(3) assms(3) by simp
  ultimately show ?thesis using r assms(2) unfolding migrated_def keepsFiles_def by blast
qed

text \<open>Writing the undo data touches nothing but the undo files.\<close>

lemma migrateUndo_step:
  assumes "migrateUndo L db S x f rec s = (rec', s')" "di_Status rec AND StatusHaveUndo = 0"
  shows "keepsFiles S s s'" "sameIndex S s s'" "fits s' \<Longrightarrow> fits s" "good s \<Longrightarrow> fits s' \<Longrightarrow> good s'"
    "di_Header rec' = di_Header rec" "di_Height rec' = di_Height rec" "di_ChainWork rec' = di_ChainWork rec"
    "di_FileNum rec' = di_FileNum rec" "di_DataPos rec' = di_DataPos rec" "di_DataSize rec' = di_DataSize rec"
    "di_Status rec AND StatusHaveData \<noteq> 0 \<Longrightarrow> di_Status rec' AND StatusHaveData \<noteq> 0"
    "good s \<Longrightarrow> fits s' \<Longrightarrow> di_Status rec' AND StatusHaveUndo \<noteq> 0 \<Longrightarrow>
       \<exists>u. LegacyGetUndoData L x db = Inr u \<and> st_ReadUndo S s' (di_UndoFile rec') (di_UndoPos rec') (di_UndoSize rec') = Inr u"
proof -
  consider (none) "rec' = rec" "s' = s"
    | (failed) u e where "st_WriteUndo S s f u = (Inl e, s')" "rec' = rec"
    | (written) u p n where "LegacyGetUndoData L x db = Inr u" "st_WriteUndo S s f u = (Inr (p, n), s')"
        "rec' = rec\<lparr>di_UndoFile := f, di_UndoPos := p, di_UndoSize := n, di_Status := di_Status rec OR StatusHaveUndo\<rparr>"
    using assms(1) by (auto simp: migrateUndo_def split: sum.splits if_splits prod.splits)
  note cases = this
  have w: "keepsFiles S s s' \<and> sameIndex S s s' \<and> (fits s' \<longrightarrow> fits s) \<and> (good s \<and> fits s' \<longrightarrow> good s')"
  proof (cases rule: cases)
    case none
    then show ?thesis by (simp add: keepsFiles_refl sameIndex_def)
  next
    case failed
    then show ?thesis using writeUndo [OF failed(1)] by blast
  next
    case written
    then show ?thesis using writeUndo [OF written(2)] by blast
  qed
  then show "keepsFiles S s s'" "sameIndex S s s'" "fits s' \<Longrightarrow> fits s" "good s \<Longrightarrow> fits s' \<Longrightarrow> good s'" by auto
  show "di_Header rec' = di_Header rec" "di_Height rec' = di_Height rec" "di_ChainWork rec' = di_ChainWork rec"
    "di_FileNum rec' = di_FileNum rec" "di_DataPos rec' = di_DataPos rec" "di_DataSize rec' = di_DataSize rec"
    by (cases rule: cases; simp)+
  show "di_Status rec' AND StatusHaveData \<noteq> 0" if "di_Status rec AND StatusHaveData \<noteq> 0"
    using that by (cases rule: cases) (simp_all add: bit.conj_disj_distrib2 StatusHaveUndo_def StatusHaveData_def)
  show "\<exists>u. LegacyGetUndoData L x db = Inr u \<and> st_ReadUndo S s' (di_UndoFile rec') (di_UndoPos rec') (di_UndoSize rec') = Inr u"
    if "good s" "fits s'" "di_Status rec' AND StatusHaveUndo \<noteq> 0"
    using cases
  proof cases
    case written
    then show ?thesis using writeUndo [OF written(2)] that by auto
  qed (use that assms(2) in simp_all)
qed

lemma migrateOne_step:
  assumes "migrateOne L db S h work s = (r, s')"
  shows "keepsFiles S s s'" "fits s' \<Longrightarrow> fits s" "x \<noteq> legacyHash L db h \<Longrightarrow> st_GetBlockIndex S s' x = st_GetBlockIndex S s x"
    "r = Inr w \<Longrightarrow> good s \<Longrightarrow> fits s' \<Longrightarrow> 0 \<le> work \<Longrightarrow> \<forall>b. LegacyGetBlock L (legacyHash L db h) db = Inr b \<longrightarrow> storable b \<Longrightarrow>
       good s' \<and> w = work + legacyWork L db h \<and> 0 \<le> w \<and> migrated S L db s' (legacyHash L db h) h w"
proof -
  consider (early) e where "r = Inl e" "s' = s"
    | (wr) b e where "st_WriteBlock S s (legacyHash L db h) b = (Inl e, s')" "\<exists>e. r = Inl e"
    | (put) b f p n s1 rec s2 q where "LegacyGetBlock L (legacyHash L db h) db = Inr b"
        "st_WriteBlock S s (legacyHash L db h) b = (Inr (f, p, n), s1)"
        "migrateUndo L db S (legacyHash L db h) f (migrateRecord b h (f, p, n) (work + CalcWork (Bits (Header b)))) s1 = (rec, s2)"
        "st_PutBlockIndex S s2 (legacyHash L db h) rec = (q, s')" "r = (case q of Inl e \<Rightarrow> Inl (MigrateIndex h e) | Inr _ \<Rightarrow> Inr (work + CalcWork (Bits (Header b))))"
  proof (cases "LegacyGetBlockByHeight L h db")
    case (Inl e)
    then show ?thesis using assms that(1) by (auto simp: migrateOne_def)
  next
    case (Inr x)
    then have x: "legacyHash L db h = x" by (simp add: legacyHash_def)
    show ?thesis
    proof (cases "LegacyGetBlock L x db")
      case (Inl e)
      then show ?thesis using assms that(1) \<open>LegacyGetBlockByHeight L h db = Inr x\<close> by (auto simp: migrateOne_def)
    next
      case (Inr b)
      obtain rb s1 where wb: "st_WriteBlock S s x b = (rb, s1)" by fastforce
      note m = assms [unfolded migrateOne_def \<open>LegacyGetBlockByHeight L h db = Inr x\<close> sum.case Inr wb prod.case Let_def]
      show ?thesis
      proof (cases rb)
        case (Inl e)
        then show ?thesis using m wb x that(2) by auto
      next
        case (Inr loc)
        obtain f p n where loc: "loc = (f, p, n)" by (cases loc)
        obtain rec s2 where u: "migrateUndo L db S x f (migrateRecord b h (f, p, n) (work + CalcWork (Bits (Header b)))) s1 = (rec, s2)" by fastforce
        obtain q s3 where i: "st_PutBlockIndex S s2 x rec = (q, s3)" by fastforce
        have "s3 = s'" "r = (case q of Inl e \<Rightarrow> Inl (MigrateIndex h e) | Inr _ \<Rightarrow> Inr (work + CalcWork (Bits (Header b))))"
          using m Inr loc u i by (auto split: sum.splits)
        then show ?thesis using \<open>LegacyGetBlock L x db = Inr b\<close> wb Inr loc u i x that(3) by simp
      qed
    qed
  qed
  note cases = this
  have "keepsFiles S s s' \<and> (fits s' \<longrightarrow> fits s) \<and> (\<forall>x. x \<noteq> legacyHash L db h \<longrightarrow> st_GetBlockIndex S s' x = st_GetBlockIndex S s x)
     \<and> (\<forall>w. r = Inr w \<and> good s \<and> fits s' \<and> 0 \<le> work \<and> (\<forall>b. LegacyGetBlock L (legacyHash L db h) db = Inr b \<longrightarrow> storable b) \<longrightarrow>
         good s' \<and> w = work + legacyWork L db h \<and> 0 \<le> w \<and> migrated S L db s' (legacyHash L db h) h w)"
  proof (cases rule: cases)
    case early
    then show ?thesis by (simp add: keepsFiles_refl)
  next
    case wr
    then show ?thesis using writeBlock [OF wr(1)] by (auto simp: sameIndex_def)
  next
    case put
    let ?x = "legacyHash L db h" and ?w = "work + CalcWork (Bits (Header b))"
    note W = writeBlock [OF put(2)]
    have noUndo: "di_Status (migrateRecord b h (f, p, n) ?w) AND StatusHaveUndo = 0"
      by (simp add: StatusHaveUndo_def StatusHaveData_def StatusValidHeader_def StatusValidTx_def)
    have data: "di_Status (migrateRecord b h (f, p, n) ?w) AND StatusHaveData \<noteq> 0"
      by (simp add: StatusHaveUndo_def StatusHaveData_def StatusValidHeader_def StatusValidTx_def)
    note U = migrateUndo_step [OF put(3) noUndo]
    note P = putIndex [OF put(4)]
    have "keepsFiles S s s1" "keepsFiles S s2 s'" using W P by simp_all
    from keepsFiles_trans [OF keepsFiles_trans [OF this(1) U(1)] this(2)] have keeps: "keepsFiles S s s'" .
    have "fits s1 \<longrightarrow> fits s" "fits s' = fits s2" using W P by simp_all
    then have fit: "fits s' \<longrightarrow> fits s2 \<and> fits s1 \<and> fits s" using U(3) by simp
    moreover have "\<forall>x. x \<noteq> ?x \<longrightarrow> st_GetBlockIndex S s' x = st_GetBlockIndex S s x" using W U(2) P by (simp add: sameIndex_def)
    moreover have "good s' \<and> w = work + legacyWork L db h \<and> 0 \<le> w \<and> migrated S L db s' ?x h w"
      if w: "r = Inr w" and g: "good s" and f': "fits s'" and nn: "0 \<le> work" and st: "\<forall>b. LegacyGetBlock L ?x db = Inr b \<longrightarrow> storable b" for w
    proof -
      have q: "q = Inr ()" "w = ?w" using w put(5) by (auto split: sum.splits)
      have sb: "storable b" using st put(1) by simp
      have g1: "good s1" "st_ReadBlock S s1 f p n = Inr b" using W g fit f' sb by auto
      have g2: "good s2" using U(4) g1(1) fit f' by blast
      have wf: "wf_record rec" using sb nn CalcWork_nonneg [of "Bits (Header b)"] U(5,7) by (auto simp: wf_record_def storable_def wf_block_def)
      have rec: "st_GetBlockIndex S s' ?x = Inr rec" using P q wf by blast
      have rb: "st_ReadBlock S s' f p n = Inr b" using g1(2) U(1) P by (auto simp: keepsFiles_def)
      have gb: "st_GetBlock S s' ?x = Inr b" using rec rb U(8-10) U(11) [OF data] by (simp add: getBlock)
      have un: "\<exists>u. LegacyGetUndoData L ?x db = Inr u \<and> st_ReadUndo S s' (di_UndoFile rec) (di_UndoPos rec) (di_UndoSize rec) = Inr u"
        if "di_Status rec AND StatusHaveUndo \<noteq> 0"
        using U(12) [OF g1(1) _ that] fit f' P unfolding keepsFiles_def by blast
      have "migrated S L db s' ?x h ?w" unfolding migrated_def using put(1) gb rec U(5,6,7) un by auto
      then show ?thesis using q nn CalcWork_nonneg [of "Bits (Header b)"] P g2 put(1) by (simp add: legacyWork_def)
    qed
    ultimately show ?thesis using keeps fit by blast
  qed
  then show "keepsFiles S s s'" "fits s' \<Longrightarrow> fits s" "x \<noteq> legacyHash L db h \<Longrightarrow> st_GetBlockIndex S s' x = st_GetBlockIndex S s x"
    "r = Inr w \<Longrightarrow> good s \<Longrightarrow> fits s' \<Longrightarrow> 0 \<le> work \<Longrightarrow> \<forall>b. LegacyGetBlock L (legacyHash L db h) db = Inr b \<longrightarrow> storable b \<Longrightarrow>
       good s' \<and> w = work + legacyWork L db h \<and> 0 \<le> w \<and> migrated S L db s' (legacyHash L db h) h w"
    by blast+
qed

lemma migrateLoop_step:
  assumes tip: "tipHeight \<noteq> - 1" and inj: "inj_on (legacyHash L db) {..tipHeight}"
    and st: "\<forall>k\<le>tipHeight. \<forall>b. LegacyGetBlock L (legacyHash L db k) db = Inr b \<longrightarrow> storable b"
  shows "migrateLoop L db S tipHeight h work s = Some (r, s') \<Longrightarrow>
     keepsFiles S s s' \<and> (fits s' \<longrightarrow> fits s)
     \<and> (\<forall>x. x \<notin> legacyHash L db ` {h..tipHeight} \<longrightarrow> st_GetBlockIndex S s' x = st_GetBlockIndex S s x)
     \<and> (isOk r \<and> good s \<and> fits s' \<and> 0 \<le> work \<longrightarrow> good s' \<and> (\<forall>k\<in>{h..tipHeight}.
          migrated S L db s' (legacyHash L db k) k (work + (\<Sum>i\<in>{unat h..unat k}. legacyWork L db (of_nat i)))))"
proof (induction "unat (tipHeight + 1) - unat h" arbitrary: h work s rule: less_induct)
  case less
  show ?case
  proof (cases "h \<le> tipHeight")
    case False
    then show ?thesis using less.prems by (subst (asm) migrateLoop.simps) (simp add: keepsFiles_refl)
  next
    case True
    obtain r1 s1 where one: "migrateOne L db S h work s = (r1, s1)" by fastforce
    note O = migrateOne_step [OF one]
    have h1: "unat (h + 1) = Suc (unat h)" by (rule height_step(1) [OF tip True])
    have hx: "legacyHash L db h \<in> legacyHash L db ` {h..tipHeight}" using True by auto
    show ?thesis
    proof (cases r1)
      case (Inl e)
      then have "r = Inl e" "s' = s1" using less.prems True one by (simp_all add: migrateLoop.simps [of L db S tipHeight h])
      moreover have "\<forall>x. x \<notin> legacyHash L db ` {h..tipHeight} \<longrightarrow> st_GetBlockIndex S s1 x = st_GetBlockIndex S s x" using O(3) hx by metis
      ultimately show ?thesis using O(1,2) by simp
    next
      case (Inr w1)
      then have loop: "migrateLoop L db S tipHeight (h + 1) w1 s1 = Some (r, s')"
        using less.prems True one by (simp add: migrateLoop.simps [of L db S tipHeight h])
      note I = less.hyps [OF height_step(2) [OF tip True] loop]
      have up: "{h + 1..tipHeight} = {h..tipHeight} - {h}" using h1 by (auto simp: word_le_nat_alt word_unat_eq_iff)
      have fresh: "legacyHash L db h \<notin> legacyHash L db ` {h + 1..tipHeight}"
        using inj True unfolding up inj_on_def by (auto simp: image_iff)
      have same: "st_GetBlockIndex S s' (legacyHash L db h) = st_GetBlockIndex S s1 (legacyHash L db h)" using I fresh by blast
      have A: "keepsFiles S s s'" using keepsFiles_trans [OF O(1)] I by simp
      have B: "fits s' \<longrightarrow> fits s1 \<and> fits s" using I O(2) by simp
      have C: "st_GetBlockIndex S s' x = st_GetBlockIndex S s x" if "x \<notin> legacyHash L db ` {h..tipHeight}" for x
      proof -
        have "x \<noteq> legacyHash L db h" "x \<notin> legacyHash L db ` {h + 1..tipHeight}" using that hx up by auto
        then show ?thesis using I O(3) [of x] by simp
      qed
      have D: "good s' \<and> (\<forall>k\<in>{h..tipHeight}. migrated S L db s' (legacyHash L db k) k (work + (\<Sum>i\<in>{unat h..unat k}. legacyWork L db (of_nat i))))"
        if a: "isOk r" "good s" "fits s'" "0 \<le> work"
      proof -
        have m: "good s1" "w1 = work + legacyWork L db h" "0 \<le> w1" "migrated S L db s1 (legacyHash L db h) h w1"
          using O(4) [OF Inr a(2) _ a(4)] st [rule_format, OF True] B a(3) by auto
        have rest: "good s'" "\<And>k. k \<in> {h + 1..tipHeight} \<Longrightarrow>
            migrated S L db s' (legacyHash L db k) k (w1 + (\<Sum>i\<in>{unat (h + 1)..unat k}. legacyWork L db (of_nat i)))"
          using I a m(1,3) by auto
        have "migrated S L db s' (legacyHash L db k) k (work + (\<Sum>i\<in>{unat h..unat k}. legacyWork L db (of_nat i)))" if k: "k \<in> {h..tipHeight}" for k
        proof (cases "k = h")
          case True
          have "migrated S L db s' (legacyHash L db h) h w1" by (rule migrated_keeps [OF m(4) _ same]) (use I in simp)
          then show ?thesis using m(2) True by simp
        next
          case False
          then have k1: "k \<in> {h + 1..tipHeight}" using k up by blast
          then have "unat h \<le> unat k" using h1 by (auto simp: word_le_nat_alt)
          then have "(\<Sum>i\<in>{unat h..unat k}. legacyWork L db (of_nat i)) = legacyWork L db h + (\<Sum>i\<in>{unat (h + 1)..unat k}. legacyWork L db (of_nat i))"
            by (simp add: h1 sum.atLeast_Suc_atMost)
          then show ?thesis using rest(2) [OF k1] m(2) by (simp add: add.assoc)
        qed
        then show ?thesis using rest(1) by blast
      qed
      show ?thesis using A B C D by blast
    qed
  qed
qed

text \<open>The new store after a migration that reports success.\<close>

lemma migrate_holds:
  assumes "migrateFromLegacy L True (Inr db) p S s = Some (Inr (), s')" "LegacyGetChainTip L db = Inr (tipHash, tipHeight)"
    and tip: "tipHeight \<noteq> - 1" and inj: "inj_on (legacyHash L db) {..tipHeight}"
    and st: "\<forall>k\<le>tipHeight. \<forall>b. LegacyGetBlock L (legacyHash L db k) db = Inr b \<longrightarrow> storable b"
    and g: "good s" "fits s'" "wf_hash tipHash"
  shows "st_GetChainTip S s' = Inr (tipHash, tipHeight)"
    "k \<le> tipHeight \<Longrightarrow> migrated S L db s' (legacyHash L db k) k (startWork p tipHeight + workTo L db k)"
proof -
  obtain w s1 where loop: "migrateLoop L db S tipHeight 0 (startWork p tipHeight) s = Some (Inr w, s1)"
    and put: "st_PutChainTip S s1 tipHash tipHeight = (Inr (), s')"
    using assms(1,2) by (auto simp: migrateFromLegacy_def split: if_splits sum.splits prod.splits Option.bind_splits)
  note P = putTip [OF put]
  show "st_GetChainTip S s' = Inr (tipHash, tipHeight)" using P g(3) by simp
  assume k: "k \<le> tipHeight"
  have "0 \<le> startWork p tipHeight" by (simp add: startWork_def CalcWork_nonneg)
  then have "migrated S L db s1 (legacyHash L db k) k (startWork p tipHeight + (\<Sum>i\<in>{unat (0 :: u32)..unat k}. legacyWork L db (of_nat i)))"
    using migrateLoop_step [OF tip inj st loop] P g(1,2) k by auto
  moreover have "{unat (0 :: u32)..unat k} = {..unat k}" by auto
  ultimately have "migrated S L db s1 (legacyHash L db k) k (startWork p tipHeight + workTo L db k)" by (simp add: workTo_def)
  then show "migrated S L db s' (legacyHash L db k) k (startWork p tipHeight + workTo L db k)"
    by (rule migrated_keeps) (use P in \<open>simp_all add: sameIndex_def\<close>)
qed

end

section \<open>Legacy reads\<close>

lemma LegacyGetBlock_wf: "LegacyGetBlock B x db = Inr b \<Longrightarrow> wf_block b"
  using block.enc_dec by (auto simp: LegacyGetBlock_def res_simps)

lemma LegacyGetChainTip_wf: "LegacyGetChainTip B db = Inr (h, k) \<Longrightarrow> wf_hash h"
  by (auto simp: LegacyGetChainTip_def wf_hash_def HashSize_def res_simps split: if_splits)

lemma migrate_total:
  assumes "LegacyGetChainTip B db = Inr (tipHash, tipHeight)" "tipHeight \<noteq> - 1"
  shows "\<exists>r s'. migrateFromLegacy B True (Inr db) p S s = Some (r, s')"
proof -
  obtain r s1 where l: "migrateLoop B db S tipHeight 0 (startWork p tipHeight) s = Some (r, s1)"
    using migrateLoop_total [OF assms(2)] by fastforce
  show ?thesis by (auto simp: migrateFromLegacy_def assms(1) l split: sum.split prod.split)
qed

end
