(* ===== verification/Node.thy ===== *)
theory Node
  imports Rpc_Pay Config Migrate Miner
begin

text \<open>
  The node (\<open>cmd/node/main.go\<close>): the choice of the configuration and the flags that override it, the
  genesis block of the network, the order in which the components are started, the callback of the
  miner, and what is saved at shutdown. A running node takes steps of three kinds: those of the peer
  manager, requests to the RPC server, and blocks that the miner hands over.
\<close>

section \<open>Configuration\<close>

record Flags =
  fl_config :: bytes
  fl_conf :: bytes
  fl_network :: bytes
  fl_datadir :: bytes
  fl_listen :: bytes
  fl_rpcbind :: bytes
  fl_rpcport :: bytes
  fl_rpc :: bytes
  fl_mine :: bool
  fl_addnode :: bytes
  fl_seedPeers :: bytes
  fl_connect :: bytes
  fl_noseednode :: bool
  fl_norpcauth :: bool

text \<open>The section of the text file is chosen by the flag alone, before the file is read.\<close>

definition earlyNetwork :: "Flags \<Rightarrow> bytes" where
  "earlyNetwork fl = (if fl_network fl = [] then ascii ''regtest'' else fl_network fl)"

definition chooseConfig :: "(bytes \<Rightarrow> bytes) \<Rightarrow> bytes option \<Rightarrow> (bytes \<Rightarrow> bytes file_read) \<Rightarrow> (bytes \<Rightarrow> config_json option file_read)
    \<Rightarrow> Flags \<Rightarrow> (config_error, Config) res" where
  "chooseConfig uni home confFile jsonFile fl =
     (if fl_conf fl \<noteq> [] then LoadConf uni home (confFile (fl_conf fl)) (earlyNetwork fl)
      else if fl_config fl \<noteq> [] then LoadConfig home (jsonFile (fl_config fl))
      else
        let cfg = DefaultConfig home in
        case confFile (ConfFilePath cfg) of
          Missing \<Rightarrow> Inr cfg
        | f \<Rightarrow> (case LoadConf uni home f (earlyNetwork fl) of Inl _ \<Rightarrow> Inr cfg | Inr c \<Rightarrow> Inr c))"

definition splitAddr :: "bytes \<Rightarrow> (bytes \<times> bytes) option" where
  "splitAddr addr = map_option (\<lambda>i. (take i addr, drop (i + 1) addr)) (lastColon addr)"

definition rpcAddress :: "Flags \<Rightarrow> bytes \<Rightarrow> bytes" where
  "rpcAddress fl existing =
     (if fl_rpc fl \<noteq> [] then fl_rpc fl
      else if fl_rpcbind fl \<noteq> [] \<or> fl_rpcport fl \<noteq> [] then
        (case (case splitAddr existing of None \<Rightarrow> (ascii ''127.0.0.1'', ascii ''19445'') | Some hp \<Rightarrow> hp) of
           (host, port) \<Rightarrow>
             (if fl_rpcbind fl \<noteq> [] then fl_rpcbind fl else host) @ ascii '':'' @ (if fl_rpcport fl \<noteq> [] then fl_rpcport fl else port))
      else existing)"

definition applyFlags :: "Flags \<Rightarrow> Config \<Rightarrow> Config" where
  "applyFlags fl c =
     (let c = (if fl_network fl \<noteq> [] then c\<lparr>cf_Network := fl_network fl\<rparr> else c);
          c = (if fl_datadir fl \<noteq> [] then c\<lparr>cf_DataDir := fl_datadir fl\<rparr> else c);
          c = (if fl_listen fl \<noteq> [] then c\<lparr>cf_ListenAddr := fl_listen fl\<rparr> else c);
          c = c\<lparr>cf_RPCAddr := rpcAddress fl (cf_RPCAddr c)\<rparr>;
          c = (if fl_mine fl then c\<lparr>cf_MiningEnabled := True\<rparr> else c);
          c = (if fl_addnode fl \<noteq> [] then c\<lparr>cf_SeedPeers := cf_SeedPeers c @ [fl_addnode fl]\<rparr> else c)
      in if fl_seedPeers fl \<noteq> [] then c\<lparr>cf_SeedPeers := cf_SeedPeers c @ splitOn 0x2C (fl_seedPeers fl) []\<rparr> else c)"

section \<open>Genesis\<close>

datatype genesis_error = GenesisMismatch hash hash | MainnetGenesisMissing | GenesisNotMined

definition initNetworkGenesis :: "(bytes \<Rightarrow> bytes) \<Rightarrow> ChainParams \<Rightarrow> (genesis_error, ChainParams) res" where
  "initNetworkGenesis sha p =
     (if \<not> IsZero (GenesisHash p) then
        (let computed = HashBlockHeader sha (Header (GenesisBlock p)) in
         if computed \<noteq> GenesisHash p then Inl (GenesisMismatch (GenesisHash p) computed) else Inr p)
      else if Name p = ''mainnet'' then Inl MainnetGenesisMissing
      else
        let block = BuildGenesisBlock \<lparr>NetworkName = Name p, CoinbaseMessage = ascii (''fairchain '' @ Name p @ '' genesis''),
              gc_Timestamp = 1773212462, gc_Bits = InitialBits p, gc_Version = 1, Reward = InitialSubsidy p, RewardScript = [0x00], ExtraOutputs = []\<rparr> in
        case MineGenesis sha block of
          (False, _) \<Rightarrow> Inl GenesisNotMined
        | (True, block) \<Rightarrow> Inr (InitGenesis p block (HashBlockHeader sha (Header block))))"

section \<open>Start\<close>

datatype start_error =
    ConfigFailed config_error
  | UnknownNetwork bytes
  | GenesisFailed genesis_error
  | DataDirFailed config_error
  | ChainFailed init_error
  | ListenFailed
  | WalletFailed wallet_error
  | RpcFailed auth_error
  | NoMiningKey

text \<open>The parameters of the network and the configuration that the rest of the start uses.\<close>

definition resolve :: "(bytes \<Rightarrow> bytes) \<Rightarrow> (bytes \<Rightarrow> bytes) \<Rightarrow> bytes option \<Rightarrow> (bytes \<Rightarrow> bytes file_read) \<Rightarrow> (bytes \<Rightarrow> config_json option file_read)
    \<Rightarrow> Flags \<Rightarrow> (start_error, Config \<times> ChainParams) res" where
  "resolve sha uni home confFile jsonFile fl =
     (case chooseConfig uni home confFile jsonFile fl of
        Inl e \<Rightarrow> Inl (ConfigFailed e)
      | Inr cfg \<Rightarrow>
          let cfg = applyFlags fl cfg in
          (case NetworkByName (strOf (cf_Network cfg)) of
             None \<Rightarrow> Inl (UnknownNetwork (cf_Network cfg))
           | Some p \<Rightarrow>
               let cfg = cfg\<lparr>cf_DataDirName := ascii (DataDirName p)\<rparr> in
               (case initNetworkGenesis sha p of Inl e \<Rightarrow> Inl (GenesisFailed e) | Inr p \<Rightarrow> Inr (cfg, p))))"

text \<open>What the start finds outside: the data directory, the saved pool and peers, the wallet file, the random bytes, and whether the port is free.\<close>

record 'd boot =
  bt_mkdir :: "bytes \<Rightarrow> bool"
  bt_mempoolFile :: "bytes option"
  bt_peersFile :: "bytes option"
  bt_peerDb :: 'd
  bt_nonce :: u64
  bt_listens :: bool
  bt_entropy :: "bytes option"
  bt_walletFile :: wallet_file
  bt_walletIo :: "disk_io list"
  bt_cookieBytes :: "bytes option"
  bt_cookieWritable :: bool

definition startPool :: "('sg, 'pk, 'sk, 's) chain_env \<Rightarrow> 'd boot \<Rightarrow> 's Chain \<Rightarrow> Mempool" where
  "startPool E bt c =
     (let mp = SetTipHeight (New (en_params E) (ch_utxoSet c)) (snd (Tip c)) in
      case bt_mempoolFile bt of
        None \<Rightarrow> mp
      | Some data \<Rightarrow> if length data > 0 then snd (LoadFromBytes (en_lib E) mp data) else mp)"

text \<open>The peer store already holds the addresses of the saved file when the manager's goroutines start.\<close>

definition startManager :: "('sg, 'pk, 'sk, 's) chain_env \<Rightarrow> 'd PeerStore \<Rightarrow> Flags \<Rightarrow> Config \<Rightarrow> 'd boot \<Rightarrow> 's Chain \<Rightarrow> ('s, 'd) Manager" where
  "startManager E P fl cfg bt c =
     NewManager c (startPool E bt c) (LoadPeersDat P (bt_peersFile bt) (bt_peerDb bt)) (cf_ListenAddr cfg) (cf_MaxInbound cfg) (cf_MaxOutbound cfg)
       (cf_SeedPeers cfg) (Some NewClock)
       (Some (if fl_connect fl \<noteq> [] then splitOn 0x2C (fl_connect fl) [] else [], fl_noseednode fl)) (bt_nonce bt)"

definition startNode :: "('sg, 'pk, 'sk, 's) chain_env \<Rightarrow> ('sg, 'pk, 'sk, 'xk) wallet_lib \<Rightarrow> 'd PeerStore \<Rightarrow> (UtxoSet \<Rightarrow> bytes list)
    \<Rightarrow> Flags \<Rightarrow> Config \<Rightarrow> 'd boot \<Rightarrow> 's \<Rightarrow> (start_error, ('xk, 'sk, 's, 'd) Server \<times> bytes option) res" where
  "startNode E L P order fl cfg bt s =
     (case EnsureDataDir (bt_mkdir bt) cfg {} of
        (Inl e, _) \<Rightarrow> Inl (DataDirFailed e)
      | (Inr _, _) \<Rightarrow>
     (case Init E order (NewChain s) of
        (Inl e, _) \<Rightarrow> Inl (ChainFailed e)
      | (Inr _, c) \<Rightarrow>
     let m = startManager E P fl cfg bt c in
     if \<not> bt_listens bt then Inl ListenFailed
     else
     (case NewHDWallet L (bt_entropy bt) (AddressPrefix (en_params E)) (bt_walletFile bt) (bt_walletIo bt) of
        (Inl e, _) \<Rightarrow> Inl (WalletFailed e)
      | (Inr _, w) \<Rightarrow>
     (case NewServer (bt_cookieBytes bt) (bt_cookieWritable bt) m
             (if fl_norpcauth fl then None
              else Some \<lparr>au_User = cf_RPCUser cfg, au_Password = cf_RPCPassword cfg, au_CookiePath = RPCCookiePath cfg\<rparr>) of
        Inl e \<Rightarrow> Inl (RpcFailed e)
      | Inr (_, sv) \<Rightarrow>
     let sv = SetShutdownFunc (SetBroadcastTx (SetWallet w sv)) in
     if cf_MiningEnabled cfg \<and> GetDefaultP2PKHScript w = None then Inl NoMiningKey
     else Inr (sv, if cf_MiningEnabled cfg then GetDefaultP2PKHScript w else None)))))"

section \<open>Running\<close>

text \<open>The callback of the miner for a block it has found.\<close>

definition onMinedBlock :: "('sg, 'pk, 'sk, 's, 'd) net_env \<Rightarrow> Block \<Rightarrow> ('s, 'd) Manager \<Rightarrow> ('s, 'd) Manager" where
  "onMinedBlock N block m =
     (case chainStep N block m of
        ((height, Some e), m) \<Rightarrow> m
      | ((height, None), m) \<Rightarrow>
          let confirmed = map (HashTransaction (ne_sha N)) (Transactions block);
              m = m\<lparr>mg_mempool := SetTipHeight (RemoveTxs (mg_mempool m) confirmed) height\<rparr>
          in BroadcastBlock N (HashBlockHeader (ne_sha N) (Header block)) block m)"

datatype node_event = NetEv net_event | RpcEv request | MinedEv Block

fun nodeEvStep :: "('sg, 'pk, 'sk, 'xk, 's, 'd) rpc_env \<times> node_event \<Rightarrow> ('xk, 'sk, 's, 'd) Server \<Rightarrow> ('xk, 'sk, 's, 'd) Server option" where
  "nodeEvStep (R, NetEv ev) s = map_option (\<lambda>m. s\<lparr>sv_p2p := m\<rparr>) (netStep (re_net R) ev (sv_p2p s))"
| "nodeEvStep (R, RpcEv r) s = Some (snd (serveHTTP R r s))"
| "nodeEvStep (R, MinedEv block) s = Some (s\<lparr>sv_p2p := onMinedBlock (re_net R) block (sv_p2p s)\<rparr>)"

text \<open>What is written at shutdown: the pool, unless it is empty or the file cannot be written, and the peers.\<close>

definition shutdownFiles :: "'d PeerStore \<Rightarrow> (Mempool \<Rightarrow> hash list) \<Rightarrow> bool \<Rightarrow> bool \<Rightarrow> ('xk, 'sk, 's, 'd) Server \<Rightarrow> 'd boot \<Rightarrow> bytes option \<times> bytes option" where
  "shutdownFiles P order poolOk peersOk s bt =
     (let data = DumpToBytes (sv_mempool s) (order (sv_mempool s)) in
      (if length data > 0 \<and> poolOk then Some data else bt_mempoolFile bt,
       DumpPeersDat P peersOk (mg_store (sv_p2p s)) (bt_peersFile bt)))"

end
