(* ===== verification/Node_Props.thy ===== *)
theory Node_Props
  imports Node
begin

text \<open>
  The running node as a whole: whatever the peers send, the clients request and the miner finds, every
  run is a sequence of deliveries of blocks to the chain and of operations on the pool and the wallet.
\<close>

section \<open>Blocks of the miner\<close>

lemma onMinedBlock_step:
  fixes m :: "('s, 'd) Manager"
  assumes "mapOrder (ne_invOrder N)" "netOk I m"
  shows "netOk I (onMinedBlock N block m)" "mg_maxInbound (onMinedBlock N block m) = mg_maxInbound m"
    "mg_chain (onMinedBlock N block m) = snd (ProcessBlock (ne_chain N) (ne_clock N) (ne_now N) (ne_pick N) block (mg_chain m))"
    "\<exists>ops. mg_mempool (onMinedBlock N block m) = fold (mempoolStep (en_lib (ne_chain N))) ops (mg_mempool m)"
proof -
  obtain height err c where c: "ProcessBlock (ne_chain N) (ne_clock N) (ne_now N) (ne_pick N) block (mg_chain m) = ((height, err), c)"
    by (metis prod.exhaust)
  define u where "u = (case ne_staleSet N of None \<Rightarrow> ch_utxoSet c | Some s \<Rightarrow> s)"
  define m1 where "m1 = m\<lparr>mg_chain := c, mg_mempool := (mg_mempool m)\<lparr>mp_utxoSet := u\<rparr>\<rparr>"
  define hs where "hs = map (HashTransaction (ne_sha N)) (Transactions block)"
  define m2 where "m2 = m1\<lparr>mg_mempool := SetTipHeight (RemoveTxs (mg_mempool m1) hs) height\<rparr>"
  have cs: "chainStep N block m = ((height, err), m1)" using c by (simp add: chainStep_def m1_def u_def)
  have n: "netOk I m1" "netOk I m2" using assms(2) by (simp_all add: netOk_def m1_def m2_def)
  have q: "netQuiet I m2 (BroadcastBlock N (HashBlockHeader (ne_sha N) (Header block)) block m2)" using assms(1) n(2) by simp
  have e: "onMinedBlock N block m = (case err of Some _ \<Rightarrow> m1 | None \<Rightarrow> BroadcastBlock N (HashBlockHeader (ne_sha N) (Header block)) block m2)"
    by (simp add: onMinedBlock_def cs Let_def m2_def hs_def split: option.split)
  show "netOk I (onMinedBlock N block m)" "mg_maxInbound (onMinedBlock N block m) = mg_maxInbound m"
    using n q by (auto simp: e netQuiet_def m1_def m2_def split: option.split)
  show "mg_chain (onMinedBlock N block m) = snd (ProcessBlock (ne_chain N) (ne_clock N) (ne_now N) (ne_pick N) block (mg_chain m))"
    using q c by (auto simp: e netQuiet_def m1_def m2_def split: option.split)
  let ?ops = "case err of Some _ \<Rightarrow> [OpUtxo u] | None \<Rightarrow> [OpUtxo u, OpRemoveAll hs, OpSetTip height]"
  have "mg_mempool (onMinedBlock N block m) = fold (mempoolStep (en_lib (ne_chain N))) ?ops (mg_mempool m)"
    using q by (auto simp: e netQuiet_def m1_def m2_def split: option.split)
  then show "\<exists>ops. mg_mempool (onMinedBlock N block m) = fold (mempoolStep (en_lib (ne_chain N))) ops (mg_mempool m)" by blast
qed

section \<open>The node as a driver\<close>

text \<open>Blocks come from the received bytes and request bodies \<open>I\<close>, or from the miner's blocks \<open>M\<close>.\<close>

definition sourced :: "bytes set \<Rightarrow> Block set \<Rightarrow> Block \<Rightarrow> bool" where
  "sourced I M b \<longleftrightarrow> fromInput I b \<or> b \<in> M"

fun nodeInput :: "node_event \<Rightarrow> bytes set" where
  "nodeInput (NetEv ev) = inputOf ev"
| "nodeInput (RpcEv r) = {rq_Body r}"
| "nodeInput (MinedEv b) = {}"

fun minedOf :: "node_event \<Rightarrow> Block set" where
  "minedOf (MinedEv b) = {b}"
| "minedOf ev = {}"

definition nodeEventOk :: "('sg, 'pk, 'sk, 's) chain_env \<Rightarrow> ('sg, 'pk, 'sk, 'xk) wallet_lib \<Rightarrow> bytes set \<Rightarrow> Block set
    \<Rightarrow> ('sg, 'pk, 'sk, 'xk, 's, 'd) rpc_env \<times> node_event \<Rightarrow> bool" where
  "nodeEventOk E L I M e \<longleftrightarrow> re_chain (fst e) = E \<and> re_wallet (fst e) = L \<and> mapOrder (ne_invOrder (re_net (fst e)))
     \<and> nodeInput (snd e) \<subseteq> I \<and> minedOf (snd e) \<subseteq> M"

definition nodeOk :: "('sg, 'pk, 'sk, 'xk) wallet_lib \<Rightarrow> bytes set \<Rightarrow> ('xk, 'sk, 's, 'd) Server \<Rightarrow> bool" where
  "nodeOk L I s \<longleftrightarrow> serverOk L I s \<and> 0 < mg_maxInbound (sv_p2p s)"

text \<open>One step of the node, in the terms of the driver's contract.\<close>

lemma nodeEvStep_simulated:
  fixes s :: "('xk, 'sk, 's, 'd) Server"
  assumes "nodeOk L I s" "nodeEventOk E L I M e"
  obtains s' ds ops where "nodeEvStep e s = Some s'" "nodeOk L I s'" "length ds \<le> 1" "\<forall>d\<in>set ds. sourced I M (dl_block d)"
    "sv_chain s' = deliverAll E ds (sv_chain s)" "sv_mempool s' = fold (mempoolStep (en_lib E)) ops (sv_mempool s)"
proof -
  obtain R ev where e: "e = (R, ev)" by fastforce
  have R: "re_chain R = E" "re_wallet R = L" "mapOrder (ne_invOrder (re_net R))" using assms(2) by (simp_all add: nodeEventOk_def e)
  have ok: "serverOk L I s" "0 < mg_maxInbound (sv_p2p s)" using assms(1) by (simp_all add: nodeOk_def)
  then have n: "netOk I (sv_p2p s)" by (simp add: serverOk_def)
  show ?thesis
  proof (cases ev)
    case (MinedEv b)
    note m = onMinedBlock_step [OF R(3) n, of b]
    define d where "d = \<lparr>dl_clock = ne_clock (re_net R), dl_wall = ne_now (re_net R), dl_pick = ne_pick (re_net R), dl_block = b\<rparr>"
    have c: "mg_chain (onMinedBlock (re_net R) b (sv_p2p s)) = deliverAll E [d] (sv_chain s)" using m(3) R(1) by (simp add: d_def)
    obtain ops where ops: "mg_mempool (onMinedBlock (re_net R) b (sv_p2p s)) = fold (mempoolStep (en_lib E)) ops (sv_mempool s)"
      using m(4) R(1) by auto
    have "b \<in> M" using assms(2) by (simp add: nodeEventOk_def e MinedEv)
    then show ?thesis using ok m(1,2) c ops
      by (intro that [of "s\<lparr>sv_p2p := onMinedBlock (re_net R) b (sv_p2p s)\<rparr>" "[d]" ops])
         (auto simp: e MinedEv nodeOk_def serverOk_def sourced_def d_def)
  next
    case (NetEv nev)
    then have "inputOf nev \<subseteq> I" using assms(2) by (simp add: nodeEventOk_def e)
    then obtain m' where m': "netStep (re_net R) nev (sv_p2p s) = Some m'" "nodeStep E I (sv_p2p s) m'"
      using netStep_simulated [OF R(3) n ok(2)] R(1) by auto
    then obtain ds ops where "length ds \<le> 1" "\<forall>d\<in>set ds. fromInput I (dl_block d)" "mg_chain m' = deliverAll E ds (sv_chain s)"
      "mg_mempool m' = fold (mempoolStep (en_lib E)) ops (sv_mempool s)" by (auto simp: nodeStep_def)
    then show ?thesis using ok m'
      by (intro that [of "s\<lparr>sv_p2p := m'\<rparr>" ds ops]) (auto simp: e NetEv nodeOk_def serverOk_def sourced_def nodeStep_def)
  next
    case (RpcEv r)
    then have "rq_Body r \<in> I" using assms(2) by (simp add: nodeEventOk_def e)
    then have sv: "served R I s (snd (serveHTTP R r s))"
      using serveHTTP_contained [of R I] ok(1) R unfolding containedIn_def by blast
    then have st: "nodeStep E I (sv_p2p s) (sv_p2p (snd (serveHTTP R r s)))" using R(1) by (simp add: served_def)
    then obtain ds ops where "length ds \<le> 1" "\<forall>d\<in>set ds. fromInput I (dl_block d)"
      "sv_chain (snd (serveHTTP R r s)) = deliverAll E ds (sv_chain s)"
      "sv_mempool (snd (serveHTTP R r s)) = fold (mempoolStep (en_lib E)) ops (sv_mempool s)" by (auto simp: nodeStep_def)
    then show ?thesis using ok st served_ok [OF sv] R(2)
      by (intro that [of "snd (serveHTTP R r s)" ds ops]) (auto simp: e RpcEv nodeOk_def sourced_def nodeStep_def)
  qed
qed

interpretation whole: node_driver nodeEvStep "\<lambda>s. mg_chain (sv_p2p s)" "\<lambda>s. mg_mempool (sv_p2p s)" "nodeOk L I"
  "nodeEventOk E L I M" E "sourced I M"
  for L :: "('sg, 'pk, 'sk, 'xk) wallet_lib" and I :: "bytes set" and E :: "('sg, 'pk, 'sk, 's) chain_env" and M :: "Block set"
proof
  fix s :: "('xk, 'sk, 's, 'd) Server" and e :: "('sg, 'pk, 'sk, 'xk, 's, 'd) rpc_env \<times> node_event" and s'
  assume a: "nodeOk L I s" "nodeEventOk E L I M e"
  from nodeEvStep_simulated [OF a] obtain s1 ds ops where b: "nodeEvStep e s = Some s1" "nodeOk L I s1" "length ds \<le> 1"
    "\<forall>d\<in>set ds. sourced I M (dl_block d)" "sv_chain s1 = deliverAll E ds (sv_chain s)"
    "sv_mempool s1 = fold (mempoolStep (en_lib E)) ops (sv_mempool s)" .
  show "\<exists>m'. nodeEvStep e s = Some m'" using b(1) by blast
  assume "nodeEvStep e s = Some s'"
  then have "s' = s1" using b(1) by simp
  then show "nodeOk L I s'" "\<exists>ds. length ds \<le> 1 \<and> (\<forall>d\<in>set ds. sourced I M (dl_block d)) \<and> sv_chain s' = deliverAll E ds (sv_chain s)"
    "\<exists>ops. sv_mempool s' = fold (mempoolStep (en_lib E)) ops (sv_mempool s)" using b by blast+
qed

end
