(* ===== verification/Node_Start.thy ===== *)
theory Node_Start
  imports Node_Props
begin

text \<open>
  The start of the node and its life: what \<open>startNode\<close> leaves when it succeeds, and the state of the node
  after any events. Over the file store the chain of a running node refines the ledger.
\<close>

lemma startPool_inv: "mpInv (en_sha E) (startPool E bt c)"
proof -
  define ops where "ops = OpSetTip (snd (Tip c)) # (case bt_mempoolFile bt of None \<Rightarrow> [] | Some data \<Rightarrow> if length data > 0 then [OpLoad data] else [])"
  have "startPool E bt c = fold (mempoolStep (en_lib E)) ops (New (en_params E) (ch_utxoSet c))"
    by (simp add: startPool_def ops_def Let_def split: option.split)
  then show ?thesis using mpInv_run [OF mpInv_New] by simp
qed

lemma NewServer_p2p:
  "NewServer rnd writable m auth = Inr (cookie, sv) \<Longrightarrow> sv_p2p sv = m \<and> sv_wallet sv = None"
  by (auto simp: NewServer_def initAuth_def Let_def split: option.splits if_splits)

lemma startNode_ok:
  assumes "startNode E L P order fl cfg bt s = Inr (sv, mining)"
  shows "Init E order (NewChain s) = (Inr (), sv_chain sv)" "sv_mempool sv = startPool E bt (sv_chain sv)"
    "0 < cf_MaxInbound cfg \<Longrightarrow> nodeOk L I sv"
proof -
  obtain w c where w: "NewHDWallet L (bt_entropy bt) (AddressPrefix (en_params E)) (bt_walletFile bt) (bt_walletIo bt) = (Inr (), w)"
    and c: "Init E order (NewChain s) = (Inr (), c)"
    and sv: "sv_p2p sv = startManager E P fl cfg bt c" "sv_wallet sv = Some w"
    using assms
    by (auto simp: startNode_def Let_def SetShutdownFunc_def SetBroadcastTx_def SetWallet_def dest!: NewServer_p2p
        split: prod.splits sum.splits if_splits)
  have ch: "sv_chain sv = c" by (simp add: sv startManager_def NewManager_def)
  show "Init E order (NewChain s) = (Inr (), sv_chain sv)" using c ch by simp
  show "sv_mempool sv = startPool E bt (sv_chain sv)" by (simp add: ch) (simp add: sv startManager_def NewManager_def)
  have "walletInv L w" using NewHDWallet_inv [of L "bt_entropy bt" "AddressPrefix (en_params E)" "bt_walletFile bt" "bt_walletIo bt"] w by simp
  moreover have "netOk I (sv_p2p sv)"
    using clockInv_NewClock by (auto simp: sv startManager_def netOk_def NewManager_def maxSeenBlocks_def maxSeenTxs_def)
  moreover have "mg_maxInbound (sv_p2p sv) = cf_MaxInbound cfg" by (simp add: sv startManager_def NewManager_def)
  ultimately show "0 < cf_MaxInbound cfg \<Longrightarrow> nodeOk L I sv" by (simp add: nodeOk_def serverOk_def sv)
qed

text \<open>Every life of a node: it does not fail, and it is a run of the chain and of the pool.\<close>

lemma node_life:
  assumes "startNode E L P order fl cfg bt s = Inr (sv, mining)" "0 < cf_MaxInbound cfg" "list_all (nodeEventOk E L I M) evs"
  obtains sv' ds where "runSteps nodeEvStep evs sv = Some sv'" "nodeOk L I sv'" "length ds \<le> length evs"
    "\<forall>d\<in>set ds. sourced I M (dl_block d)" "sv_chain sv' = deliverAll E ds (sv_chain sv)" "mpInv (en_sha E) (sv_mempool sv')"
proof -
  note st = startNode_ok [OF assms(1)]
  obtain sv' where r: "runSteps nodeEvStep evs sv = Some sv'" "nodeOk L I sv'"
    using whole.run_total [OF st(3) [OF assms(2)] assms(3)] by blast
  obtain ds where "length ds \<le> length evs" "\<forall>d\<in>set ds. sourced I M (dl_block d)" "sv_chain sv' = deliverAll E ds (sv_chain sv)"
    using whole.run_chain [OF st(3) [OF assms(2)] assms(3) r(1)] by blast
  moreover obtain ops where "sv_mempool sv' = fold (mempoolStep (en_lib E)) ops (sv_mempool sv)"
    using whole.run_pool [OF st(3) [OF assms(2)] assms(3) r(1)] by blast
  then have "mpInv (en_sha E) (sv_mempool sv')" using mpInv_run [OF startPool_inv] by (simp add: st(2))
  ultimately show ?thesis using that r by blast
qed

section \<open>What the server keeps\<close>

text \<open>
  Since the start \<open>s0\<close>: the credentials are the same, the fee rate is at most the limit, and every file
  that a backup has written lies below the working directory.
\<close>

definition confined :: "('xk, 'sk, 's, 'd) Server \<Rightarrow> ('xk, 'sk, 's, 'd) Server \<Rightarrow> bool" where
  "confined s0 s \<longleftrightarrow> sv_authUser s = sv_authUser s0 \<and> sv_authPassword s = sv_authPassword s0 \<and> sv_feePerByte s \<le> maxFeePerByte
     \<and> (\<forall>p. sv_backups s p \<noteq> None \<longrightarrow> below p)"

lemma startNode_confined:
  assumes "startNode E L P order fl cfg bt s = Inr (sv, mining)"
  shows "confined sv sv" "\<not> fl_norpcauth fl \<Longrightarrow> sv_authUser sv \<noteq> []"
proof -
  obtain w m auth cookie sv1 where new: "NewServer (bt_cookieBytes bt) (bt_cookieWritable bt) m auth = Inr (cookie, sv1)"
    and a: "auth = None \<longleftrightarrow> fl_norpcauth fl" and sv: "sv = SetShutdownFunc (SetBroadcastTx (SetWallet w sv1))"
    using assms by (auto simp: startNode_def Let_def split: prod.splits sum.splits if_splits)
  have "sv_backups sv = Map.empty" "sv_feePerByte sv = defaultFeePerByte"
    using new by (auto simp: sv NewServer_def initAuth_def Let_def SetShutdownFunc_def SetBroadcastTx_def SetWallet_def split: option.splits if_splits)
  then show "confined sv sv" by (simp add: confined_def defaultFeePerByte_def maxFeePerByte_def)
  show "sv_authUser sv \<noteq> []" if "\<not> fl_norpcauth fl"
    using new a that by (auto simp: sv NewServer_def initAuth_def Let_def SetShutdownFunc_def SetBroadcastTx_def SetWallet_def ascii_def split: option.splits if_splits)
qed

lemma nodeEvStep_confined:
  assumes "nodeOk L I s" "nodeEventOk E L I M e" "nodeEvStep e s = Some s'" "confined s0 s"
  shows "confined s0 s'"
proof -
  obtain R ev where e: "e = (R, ev)" by fastforce
  show ?thesis
  proof (cases ev)
    case (RpcEv r)
    then have "served R I s s'" using assms(1-3) serveHTTP_contained [of R I]
      by (auto simp: e containedIn_def nodeOk_def nodeEventOk_def)
    then show ?thesis using assms(4) unfolding served_def confined_def by (metis max.absorb2)
  qed (use assms(3,4) in \<open>auto simp: e confined_def\<close>)
qed

lemma run_confined:
  "nodeOk L I s \<Longrightarrow> list_all (nodeEventOk E L I M) evs \<Longrightarrow> runSteps nodeEvStep evs s = Some s' \<Longrightarrow> confined s0 s \<Longrightarrow> confined s0 s'"
proof (induction evs arbitrary: s)
  case (Cons e evs)
  obtain s1 where s1: "nodeEvStep e s = Some s1" "runSteps nodeEvStep evs s1 = Some s'" using Cons.prems(3) by (auto simp: bind_eq_Some_conv)
  have ok: "nodeEventOk E L I M e" using Cons.prems(2) by simp
  have "nodeOk L I s1" using whole.step_inv [OF Cons.prems(1) ok s1(1)] .
  moreover have "confined s0 s1" using nodeEvStep_confined [OF Cons.prems(1) ok s1(1) Cons.prems(4)] .
  ultimately show ?case using Cons.IH s1(2) Cons.prems(2) by simp
qed simp

end
