(* ===== verification/P2p_Facts.thy ===== *)
theory P2p_Facts
  imports P2p_Run
begin

text \<open>
  Single operations of the peer manager: the end of the locator loop, shuffling, address gossip, message
  delivery over a connection, bans, and the limits that do not hold.
\<close>

section \<open>Messages over a connection\<close>

text \<open>
  A message that was queued first and is written whole is what the other side reads next, whatever
  follows on the connection.
\<close>

lemma message_arrives:
  assumes "digest sha" "length (pe_magic p) = 4" "pe_sendQueue p = msg # queue"
    and "length (om_cmd msg) \<le> 12" "0 \<notin> set (om_cmd msg)" "length (om_payload msg) \<le> 4194304"
    and "writeNext sha WriteAll now p = (cont, p')" "pe_written p' = pe_written p @ wire" "pe_reader q = wire @ rest"
  shows "if pe_magic q = pe_magic p
     then \<exists>hdr q'. ReadMessage sha now' q = (Inr (hdr, om_payload msg), q') \<and> CommandString hdr = om_cmd msg \<and> pe_reader q' = rest
     else \<exists>q'. ReadMessage sha now' q = (Inl (WrongMagic (pe_magic p)), q')"
proof -
  have w: "wire = EncodeMessageHeader sha (pe_magic p) (om_cmd msg) (om_payload msg) @ om_payload msg"
    using assms(3,7,8) by (auto simp: writeNext_def Let_def)
  have c: "length (doubleSHA256Checksum sha (om_payload msg)) = 4"
    by (simp add: doubleSHA256Checksum_def digest.length_sha [OF assms(1)])
  have "commandEnd (commandBytes (om_cmd msg)) 0 = length (om_cmd msg)"
    using assms(4,5) by (simp add: commandBytes_def commandEnd_pad)
  then have s: "take (commandEnd (commandBytes (om_cmd msg)) 0) (commandBytes (om_cmd msg)) = om_cmd msg"
    using assms(4) by (simp add: commandBytes_def)
  have l: "unat (of_nat (length (om_payload msg)) :: u32) = length (om_payload msg)" using assms(6) by (simp add: unat_of_nat)
  note d = DecodeMessageHeader_Encode [OF assms(2,6) c, of "om_cmd msg" "om_payload msg @ rest"]
  have r: "pe_reader q = EncodeMessageHeader sha (pe_magic p) (om_cmd msg) (om_payload msg) @ om_payload msg @ rest"
    using assms(9) w by simp
  show ?thesis
    using s l by (auto simp: ReadMessage_def r d CommandString_def doubleSHA256First4_def doubleSHA256Checksum_def Let_def)
qed

section \<open>Bans\<close>

lemma BanPeer_IsBanned: "t \<le> now + BanDuration \<Longrightarrow> extractIP b = extractIP a \<Longrightarrow> fst (IsBanned t b (BanPeer now a m))"
  by (simp add: IsBanned_def BanPeer_def)

text \<open>A peer whose score passes the threshold is closed and its address banned for a day, also under other ports.\<close>

lemma addMisbehavior_bans:
  assumes "mg_connectOnly m = []" "mg_peers m a = Some p" "pe_addr p = a" "0 \<le> pe_banScore p" "pe_banScore p < 100" "0 \<le> score" "score \<le> 100"
    and "100 \<le> pe_banScore p + score" "t \<le> now + BanDuration" "extractIP b = extractIP a"
  shows "fst (IsBanned t b (addMisbehavior now a score m))" "\<exists>q. mg_peers (addMisbehavior now a score m) a = Some q \<and> pe_done q"
proof -
  have "wrap32 (pe_banScore p + score) = pe_banScore p + score" using assms(4-7) by (simp add: wrap32_def)
  then have "AddBanScore score p = (pe_banScore p + score, p\<lparr>pe_banScore := pe_banScore p + score\<rparr>)" by (simp add: AddBanScore_def Let_def)
  then have m: "addMisbehavior now a score m = updPeer a Close (BanPeer now a (updPeer a (\<lambda>_. p\<lparr>pe_banScore := pe_banScore p + score\<rparr>) m))"
    using assms(1-3,8) by (simp add: addMisbehavior_def BanThreshold_def)
  show "\<exists>q. mg_peers (addMisbehavior now a score m) a = Some q \<and> pe_done q"
    using assms(2) by (simp add: m updPeer_def BanPeer_def Close_def)
  show "fst (IsBanned t b (addMisbehavior now a score m))"
    using assms(9,10) by (simp add: m updPeer_def BanPeer_def IsBanned_def)
qed

text \<open>A banned address gets no goroutine.\<close>

lemma banned_refused:
  "fst (IsBanned (ne_now N) addr m) \<Longrightarrow> \<exists>m'. acceptConn N addr input m = Some (None, m')"
  "fst (IsBanned (ne_now N) addr m) \<Longrightarrow> \<exists>m'. connectPeer N dial addr m = (None, m')"
  by (auto simp: acceptConn_def connectPeer_def split: prod.splits bool.splits)

text \<open>
  The handler looks for phrases that the texts of the proof-of-work and difficulty errors do not
  contain: a block without proof of work costs its sender 10 points and not 100.
\<close>

lemma pow_failure_penalty: "penalty txt (InvalidHeader e) = 10" "penalty txt (OrphanPow pe) = 10"
  by (simp_all add: penalty_def errorContains_def)

lemma merkle_penalty: "penalty txt (InvalidBlock (MerkleMismatch a b)) = 100"
  by (simp add: penalty_def errorContains_def)

text \<open>With a limit of zero the first inbound connection is an index panic.\<close>

lemma accept_panics:
  assumes "mg_maxInbound m = 0" "mg_banned m = Map.empty" "rangePeers N m = []"
  shows "acceptConn N addr input m = None"
  using assms by (simp add: acceptConn_def IsBanned_def maybeEvictInbound_def sortSlice_def Let_def)

section \<open>The set of seen blocks\<close>

text \<open>
  \<open>Remove\<close> leaves its entry in \<open>order\<close>. After \<open>n\<close> rejected blocks, \<open>order\<close> has \<open>n\<close> stale entries, and the
  set then grows past its capacity.
\<close>

lemma removed_stay_in_order:
  "bs_items s = {} \<Longrightarrow> 0 < bs_cap s \<Longrightarrow>
    (\<lambda>s'. bs_items s' = {} \<and> bs_order s' = bs_order s @ replicate n h \<and> bs_cap s' = bs_cap s) (((\<lambda>s. bs_Remove h (bs_Add h s)) ^^ n) s)"
proof (induction n)
  case (Suc n)
  then show ?case
    by (simp add: bs_Add_def bs_Remove_def insertBounded_def Let_def replicate_append_same)
qed simp

lemma bs_Add_stale:
  assumes "hd (bs_order s) \<notin> bs_items s" "h \<notin> bs_items s" "finite (bs_items s)" "bs_cap s \<le> card (bs_items s)"
  shows "card (bs_items (bs_Add h s)) = Suc (card (bs_items s))"
  using assms by (simp add: bs_Add_def insertBounded_def Let_def)

lemma capacity_exceeded:
  "card (bs_items (bs_Add [2] (bs_Add [1] (bs_Remove [0] (bs_Add [0] (newBoundedHashSet 1)))))) = 2"
  by (simp add: bs_Add_def bs_Remove_def insertBounded_def newBoundedHashSet_def Let_def)

section \<open>Shuffling and gossip\<close>

lemma mset_shuffleFrom: "xs \<noteq> [] \<Longrightarrow> i < length xs \<Longrightarrow> mset (shuffleFrom rnd i xs) = mset xs"
proof (induction i arbitrary: xs)
  case (Suc i)
  have "unat (rnd (Suc i)) mod Suc (Suc i) < length xs"
    using Suc.prems(2) mod_less_divisor [of "Suc (Suc i)" "unat (rnd (Suc i))"] by linarith
  then show ?case using Suc.IH Suc.prems by (simp add: Let_def mset_swap)
qed simp

lemma mset_shufflePeers: "mset (shufflePeers rnd xs) = mset xs"
  using mset_shuffleFrom [of xs "length xs - 1" rnd] by (cases xs) (simp_all add: shufflePeers_def)

lemma gatherLoop_ok:
  "gatherLoop limit self as seen addrs = (full, seen', addrs') \<Longrightarrow> set addrs = seen \<Longrightarrow> distinct addrs \<Longrightarrow> self \<notin> seen \<Longrightarrow> length addrs < limit \<Longrightarrow>
    set addrs' = seen' \<and> distinct addrs' \<and> self \<notin> seen' \<and> length addrs' \<le> limit \<and> (\<not> full \<longrightarrow> length addrs' < limit) \<and> seen' \<subseteq> seen \<union> set as"
proof (induction "as" arbitrary: seen addrs)
  case (Cons a as)
  show ?case
  proof (cases "a = self \<or> a \<in> seen")
    case True
    then have "gatherLoop limit self as seen addrs = (full, seen', addrs')" using Cons.prems(1) by (auto split: if_splits)
    from Cons.IH [OF this Cons.prems(2-5)] show ?thesis by auto
  next
    case new: False
    show ?thesis
    proof (cases "limit \<le> Suc (length addrs)")
      case True
      then show ?thesis using Cons.prems new by (auto simp: Let_def)
    next
      case False
      then have "gatherLoop limit self as (insert a seen) (addrs @ [a]) = (full, seen', addrs')"
        using Cons.prems(1) new by (simp add: Let_def)
      from Cons.IH [OF this] show ?thesis using Cons.prems new False by auto
    qed
  qed
qed auto

text \<open>An answer to \<open>getaddr\<close> names at most the allowed number of addresses, none twice and never the own one.\<close>

lemma gatherAddresses_ok:
  assumes "0 < limit"
  shows "length (gatherAddresses N limit m) \<le> limit" "distinct (gatherAddresses N limit m)" "mg_listenAddr m \<notin> set (gatherAddresses N limit m)"
proof -
  obtain f1 s1 a1 where 1: "gatherLoop limit (mg_listenAddr m) (map advertised (rangePeers N m)) {} [] = (f1, s1, a1)" by (metis prod.exhaust)
  obtain f2 s2 a2 where 2: "gatherLoop limit (mg_listenAddr m) (storedPeers N m) s1 a1 = (f2, s2, a2)" by (metis prod.exhaust)
  note o1 = gatherLoop_ok [OF 1 _ _ _] note o2 = gatherLoop_ok [OF 2]
  have g: "gatherAddresses N limit m = (if f1 then a1 else a2)" by (simp add: gatherAddresses_def 1 2 split: bool.splits)
  have "length a1 \<le> limit \<and> distinct a1 \<and> mg_listenAddr m \<notin> set a1" using o1 assms by auto
  moreover have "length a2 \<le> limit \<and> distinct a2 \<and> mg_listenAddr m \<notin> set a2" if "\<not> f1" using o1 o2 assms that by auto
  ultimately show "length (gatherAddresses N limit m) \<le> limit" "distinct (gatherAddresses N limit m)" "mg_listenAddr m \<notin> set (gatherAddresses N limit m)"
    unfolding g by auto
qed

section \<open>Block download\<close>

text \<open>The loop of the locator ends for every chain, also with gaps in its index.\<close>

lemma locatorLoop_gaps:
  "locatorLoop (\<lambda>i. case m i of None \<Rightarrow> Some [] | Some h \<Rightarrow> Some h) step height n = Some xs \<Longrightarrow>
    \<exists>ys. locatorLoop m step height n = Some ys \<and> length ys \<le> length xs"
proof (induction xs arbitrary: step height n)
  case Nil
  then show ?case
    by (subst (asm) locatorLoop.simps) (auto split: option.splits if_splits Option.bind_splits)
next
  case (Cons x xs)
  show ?case
  proof (cases "m height")
    case None
    then show ?thesis by (subst locatorLoop.simps) simp
  next
    case (Some h)
    show ?thesis
    proof (cases "height = 0")
      case True
      then show ?thesis using Some by (subst locatorLoop.simps) simp
    next
      case False
      let ?step = "if n + 1 > 10 then step * 2 else step" and ?height = "if height < step then 0 else height - step"
      have "locatorLoop (\<lambda>i. case m i of None \<Rightarrow> Some [] | Some h \<Rightarrow> Some h) ?step ?height (n + 1) = Some xs"
        using Cons.prems Some False by (subst (asm) locatorLoop.simps) (auto split: Option.bind_splits)
      from Cons.IH [OF this] obtain ys where "locatorLoop m ?step ?height (n + 1) = Some ys" "length ys \<le> length xs" by blast
      then show ?thesis using Some False by (subst locatorLoop.simps) simp
    qed
  qed
qed

lemma BlockLocator_ends: "\<exists>ys. BlockLocator c = Some ys \<and> length ys \<le> 43"
proof -
  let ?m = "\<lambda>i. case ch_hashByHeight c i of None \<Rightarrow> Some [] | Some h \<Rightarrow> Some h"
  have "?m i \<noteq> None" for i by (cases "ch_hashByHeight c i") simp_all
  then obtain xs where "locatorLoop ?m 1 (ch_tipHeight c) 0 = Some xs" "length xs \<le> 43"
    using locator_steps [of "ch_tipHeight c" ?m "ch_tipHeight c" 0] u32_bound [of "ch_tipHeight c"] by auto
  then show ?thesis using locatorLoop_gaps by (fastforce simp: BlockLocator_def)
qed

text \<open>The first sight of a block is one call of \<open>ProcessBlock\<close>; a second one is none.\<close>

lemma handleBlock_chain:
  assumes "h = HashBlockHeader (ne_sha N) (Header block)"
  shows "\<not> bs_Has h (mg_seenBlocks m) \<Longrightarrow> mapOrder (ne_invOrder N) \<Longrightarrow> netOk I m \<Longrightarrow>
      mg_chain (handleBlock N a block m) = snd (ProcessBlock (ne_chain N) (ne_clock N) (ne_now N) (ne_pick N) block (mg_chain m))"
    "bs_Has h (mg_seenBlocks m) \<Longrightarrow> handleBlock N a block m = knowsTo N a h m"
proof -
  assume s: "\<not> bs_Has h (mg_seenBlocks m)" and o: "mapOrder (ne_invOrder N)" and n: "netOk I m"
  define m1 where "m1 = knowsTo N a h m"
  have q1: "netQuiet I m m1" using n o by (simp add: m1_def)
  have seen1: "mg_seenBlocks m1 = mg_seenBlocks m" by (simp add: m1_def knowsTo_def updPeer_def)
  obtain seen where seen: "bs_AddOrHas h (mg_seenBlocks m1) = (False, seen)" using s by (simp add: seen1 bs_AddOrHas_def bs_Has_def)
  have "seenOk seen" using netQuiet_netOk [OF q1] seen seenOk_ops(3) [of "mg_seenBlocks m1" h] by (simp add: netOk_def)
  then have q2: "netQuiet I m (m1\<lparr>mg_seenBlocks := seen\<rparr>)" using netQuiet_trans [OF q1] netQuiet_netOk [OF q1] by simp
  obtain height err m3 where c: "chainStep N block (m1\<lparr>mg_seenBlocks := seen\<rparr>) = ((height, err), m3)" by (metis prod.exhaust)
  have n3: "netOk I m3" using netQuiet_netOk [OF q2] c by (auto simp: chainStep_def netOk_def split: prod.splits)
  have c3: "mg_chain m3 = snd (ProcessBlock (ne_chain N) (ne_clock N) (ne_now N) (ne_pick N) block (mg_chain m))"
    using c q2 by (auto simp: chainStep_def netQuiet_def split: prod.splits)
  have "handleBlock N a block m = (case err of None \<Rightarrow> blockAccepted N a h block height m3 | Some e \<Rightarrow> blockRejected N a h e m3)"
    unfolding handleBlock_def Let_def assms [symmetric] m1_def [symmetric] using seen c by (simp split: option.splits)
  then show "mg_chain (handleBlock N a block m) = snd (ProcessBlock (ne_chain N) (ne_clock N) (ne_now N) (ne_pick N) block (mg_chain m))"
    using netQuiet_blockRejected [OF n3, of N] netQuiet_blockAccepted [OF o n3] c3 by (simp add: netQuiet_def split: option.splits)
next
  assume "bs_Has h (mg_seenBlocks m)"
  then show "handleBlock N a block m = knowsTo N a h m"
    by (simp add: handleBlock_def Let_def assms [symmetric] knowsTo_def updPeer_def bs_AddOrHas_def bs_Has_def)
qed

end
