(* ===== verification/P2p_Examples.thy ===== *)
theory P2p_Examples
  imports P2p_Facts Chain_Examples "HOL-Library.List_Lexorder"
begin

text \<open>
  A small network around the example chain: a peer store in memory, map iterations in sorted order, and
  a connection that brings a handshake and the first block.
\<close>

definition memPeers :: "bytes list PeerStore" where
  "memPeers = \<lparr>ps_GetPeers = Inr, ps_PutPeer = (\<lambda>a d. (Inr (), if a \<in> set d then d else d @ [a])),
     ps_RemovePeer = (\<lambda>a d. (Inr (), filter (\<lambda>b. b \<noteq> a) d))\<rparr>"

definition exNode :: "(byte, byte, byte, mem_db FileStore, bytes list) net_env" where
  "exNode = \<lparr>ne_chain = exEnv, ne_peerStore = memPeers, ne_now = 1000 * Second, ne_clock = (\<lambda>_. 1000), ne_pick = 0,
     ne_staleSet = None, ne_peerOrder = sorted_list_of_set, ne_invOrder = sorted_list_of_set, ne_rand = (\<lambda>i. of_nat i),
     ne_randSync = (\<lambda>_. 0), ne_race = (\<lambda>_ _. False), ne_storeText = (\<lambda>_. '''')\<rparr>"

lemma exNode_ok: "ne_chain exNode = exEnv" "mapOrder (ne_invOrder exNode)"
  by (simp_all add: exNode_def mapOrder_def)

definition wireFrame :: "bytes \<Rightarrow> bytes \<Rightarrow> bytes" where
  "wireFrame cmd payload = EncodeMessageHeader toySha (NetworkMagic exNet) cmd payload @ payload"

definition exPeerAddr :: bytes where "exPeerAddr = ascii ''10.0.0.7:19333''"

definition exInput :: bytes where
  "exInput = wireFrame CmdVersion (VersionMsg_Encode \<lparr>vm_Version = 1, vm_Services = 1, vm_Timestamp = 1000, vm_AddrRecv = [],
       vm_AddrFrom = exPeerAddr, vm_Nonce = 9, vm_UserAgent = UserAgent, vm_StartHeight = 1\<rparr>)
     @ wireFrame CmdVerack [] @ wireFrame CmdBlock (Block_SerializeToBytes exFirstBlock)"

definition exManager :: "(mem_db FileStore, bytes list) Manager" where
  "exManager = NewManager exStart (New exNet (ch_utxoSet exStart)) [] (ascii ''0.0.0.0:19333'') 25 8 [] (Some NewClock) None 4"

definition exEvents :: "((byte, byte, byte, mem_db FileStore, bytes list) net_env \<times> net_event) list" where
  "exEvents = [(exNode, AcceptEv exPeerAddr exInput WriteAll WriteAll), (exNode, ReadEv exPeerAddr), (exNode, WriteEv exPeerAddr WriteAll)]"

end
