(* ===== verification/Wallet_Examples.thy ===== *)
theory Wallet_Examples
  imports Wallet_Lock Examples
begin

text \<open>
  A wallet to run the model on: the small signature scheme of the examples, keys derived by
  addition, and a cipher that adds the first byte of the key.
\<close>

definition toyWallet :: "(byte, byte, byte, byte) wallet_lib" where
  "toyWallet = \<lparr>wl_crypto = toyLib, wl_privSerialize = (\<lambda>k. k # replicate 31 0),
     wl_NewMaster = (\<lambda>seed. Some (hd seed)), wl_Derive = (\<lambda>k i. Some (k + ucast i + 1)),
     wl_ECPrivKey = (\<lambda>k. Some (k # replicate 31 0)), wl_NewMnemonic = (\<lambda>e. Some (map of_char ''abandon about'')),
     wl_IsMnemonicValid = (\<lambda>m. True), wl_NewSeed = (\<lambda>m. m @ [1]), wl_scrypt = (\<lambda>pass salt n r p len. Some (replicate len (hd pass))),
     wl_newCipher = (\<lambda>k. length k = 32), wl_cbcEncrypt = (\<lambda>k iv d. map (\<lambda>b. b + hd k) d),
     wl_cbcDecrypt = (\<lambda>k iv d. map (\<lambda>b. b - hd k) d)\<rparr>"

lemma toyWallet_fields [simp]: "wl_crypto toyWallet = toyLib"
  by (simp add: toyWallet_def)

lemma toyWallet_cbc: "cbc_correct toyWallet"
  by (simp add: cbc_correct_def toyWallet_def o_def)

definition exWallet :: "(byte, byte) HDWallet" where
  "exWallet = snd (NewHDWallet toyWallet (Some [1]) 0x6F NoFile [])"

definition exCoinScript :: bytes where
  "exCoinScript = the (GetDefaultP2PKHScript exWallet)"

definition exCoinKey :: bytes where
  "exCoinKey = OutpointKey (replicate 32 1) 0"

definition exCoins :: UtxoSet where
  "exCoins = [exCoinKey \<mapsto> \<lparr>ue_Value = 5000, ue_PkScript = exCoinScript, ue_Height = 0, ue_IsCoinbase = True\<rparr>]"

definition exRequest :: SendRequest where
  "exRequest = \<lparr>sr_ToAddress = PubKeyHashToAddress toySha (replicate 20 9) 0x6F, sr_Amount = 4500\<rparr>"

definition exDk :: "byte DerivedKey" where
  "exDk = mkKey toyWallet 146 (keyPath False 0) False 0"

lemma exWallet_new: "NewHDWallet toyWallet (Some [1]) 0x6F NoFile [] = (Inr (), exWallet)"
  "w_externalKeys exWallet = [exDk]" "w_keysByHash exWallet = [dk_PubKeyHash exDk \<mapsto> exDk]" "w_encrypted exWallet = False"
  "w_addrVersion exWallet = 0x6F" "w_mnemonic exWallet = map of_char ''abandon about''" "w_seed exWallet = map of_char ''abandon about'' @ [1]"
  "w_io exWallet = []" "w_nextExternalIdx exWallet = 1" "w_nextChangeIdx exWallet = 0"
proof -
  let ?r = "NewHDWallet toyWallet (Some [1]) 0x6F NoFile []"
  have n: "(6442451090 :: byte) = 146" by simp
  have "fst ?r = Inr () \<and> w_externalKeys (snd ?r) = [exDk] \<and> w_keysByHash (snd ?r) = [dk_PubKeyHash exDk \<mapsto> exDk] \<and> \<not> w_encrypted (snd ?r)
    \<and> w_addrVersion (snd ?r) = 0x6F \<and> w_mnemonic (snd ?r) = map of_char ''abandon about'' \<and> w_seed (snd ?r) = map of_char ''abandon about'' @ [1]
    \<and> w_io (snd ?r) = [] \<and> w_nextExternalIdx (snd ?r) = 1 \<and> w_nextChangeIdx (snd ?r) = 0"
    by (simp add: NewHDWallet_def readWallet_def emptyWallet_def createNew_def deriveAccountKeys_def deriveR_def toyWallet_def
        DeriveNextExternal_def deriveExternal_def registerKey_def save_def mkdirWallet_def writeWallet_def HardenedKeyStart_def
        bip44Purpose_def bip44CoinType_def Let_def addKey_def mkKey_def exDk_def toyLib_def n)
  then show "?r = (Inr (), exWallet)" "w_externalKeys exWallet = [exDk]" "w_keysByHash exWallet = [dk_PubKeyHash exDk \<mapsto> exDk]" "w_encrypted exWallet = False"
    "w_addrVersion exWallet = 0x6F" "w_mnemonic exWallet = map of_char ''abandon about''" "w_seed exWallet = map of_char ''abandon about'' @ [1]"
    "w_io exWallet = []" "w_nextExternalIdx exWallet = 1" "w_nextChangeIdx exWallet = 0"
    by (simp_all add: exWallet_def prod_eq_iff)
qed

lemma exPayment: "\<exists>tx w'. BuildTransaction toyWallet (sortSlice (\<lambda>u v. uo_Value u > uo_Value v)) 0 exRequest 1
     (FindUnspent toyWallet exWallet exCoins [exCoinKey] 100) (CoinbaseMaturity Regtest) 100 exWallet = (Inr tx, w')"
proof -
  have h: "length (dk_PubKeyHash exDk) = 20" by (simp add: exDk_def mkKey_def PubKeyHash_def Let_def)
  have sc: "exCoinScript = MakeP2PKHScript (dk_PubKeyHash exDk)" by (simp add: exCoinScript_def GetDefaultP2PKHScript_def exWallet_new)
  have ex: "ExtractP2PKHHash exCoinScript = Some (dk_PubKeyHash exDk)" unfolding sc by (rule ExtractP2PKHHash_Make [OF h])
  let ?u = "\<lparr>uo_TxHash = replicate 32 1, uo_Index = 0, uo_Value = 5000, uo_Height = 0, uo_Confirmations = 101,
      uo_Address = PubKeyHashToAddress toySha (dk_PubKeyHash exDk) 0x6F, uo_PkScript = exCoinScript, uo_IsCoinbase = True\<rparr>"
  have f: "FindUnspent toyWallet exWallet exCoins [exCoinKey] 100 = [?u]"
    by (simp add: FindUnspent_def ForEach_def exCoins_def exCoinKey_def wf_hash_def HashSize_def ex exWallet_new confirmations_def)
  have k: "KeyForScript exWallet exCoinScript = Some exDk" using ex by (simp add: KeyForScript_def exWallet_new)
  have "AddressToPubKeyHash toySha (sr_ToAddress exRequest) = Inr (0x6F, replicate 20 9)"
    using address_decodes [OF toy.digest_axioms, of "replicate 20 9" "0x6F"] by (simp add: exRequest_def)
  then show ?thesis
    using k by (simp add: BuildTransaction_def RequireUnlocked_def IsEncrypted_def exWallet_new f filterSpendable_def coinSpendable_def confirmations_def
        Regtest_def sortSlice_def selectCoins_def EstimateFee_def estimatedSize_def atLeastOne_def txOverhead_def estimatedInputSize_def
        estimatedOutputSize_def exRequest_def Let_def changeOutputs_def DustThreshold_def unsignedInput_def SignInput_def SignTransaction_def ComputeSigHash_def)
qed

text \<open>The same wallet after a restart, and encrypted.\<close>

lemma exWallet_reload: "\<exists>w'. NewHDWallet toyWallet None 0x6F (Json (plainData exWallet)) [] = (Inr (), w') \<and> w_mnemonic w' = map of_char ''abandon about''"
proof -
  let ?r = "NewHDWallet toyWallet None 0x6F (Json (plainData exWallet)) []"
  have "fst ?r = Inr () \<and> w_mnemonic (snd ?r) = map of_char ''abandon about''"
    by (simp add: NewHDWallet_def readWallet_def emptyWallet_def loadFromJSON_def plainData_def loadSeedAndDerive_def exWallet_new hexDecode_hexEncode
        deriveAccountKeys_def deriveR_def toyWallet_def deriveExternal_def registerKey_def upTo_def Let_def addKey_def)
  then show ?thesis by (metis prod.collapse)
qed

lemma exWallet_encrypt: "\<exists>w1. EncryptWallet toyWallet (Some [5]) (Some (replicate 16 3)) [8] exWallet = (Inr (), w1)"
  by (simp add: EncryptWallet_def exWallet_new aesEncrypt_def saveEncrypted_def mkdirWallet_def writeWallet_def toyWallet_def keyLen_def)

end
