(* ===== verification/Node_Examples.thy ===== *)
theory Node_Examples
  imports Node_Start P2p_Examples Wallet_Examples
begin

text \<open>
  A node to run the model on: it starts on the empty example store, serves a peer, takes a block over the
  RPC server and one from its miner. Beside it, a server with a coin to pay with, and a legacy database.
\<close>

section \<open>A start\<close>

definition exFlags :: Flags where
  "exFlags = \<lparr>fl_config = [], fl_conf = [], fl_network = [], fl_datadir = [], fl_listen = [], fl_rpcbind = [], fl_rpcport = [], fl_rpc = [],
     fl_mine = False, fl_addnode = [], fl_seedPeers = [], fl_connect = [], fl_noseednode = True, fl_norpcauth = False\<rparr>"

definition exBoot :: "bytes list boot" where
  "exBoot = \<lparr>bt_mkdir = (\<lambda>_. True), bt_mempoolFile = None, bt_peersFile = None, bt_peerDb = [], bt_nonce = 4, bt_listens = True,
     bt_entropy = Some [1], bt_walletFile = NoFile, bt_walletIo = [], bt_cookieBytes = Some (replicate 32 7), bt_cookieWritable = True\<rparr>"

definition exServer :: "(byte, byte, mem_db FileStore, bytes list) Server" where
  "exServer = fst (projr (startNode exEnv toyWallet memPeers exOrder exFlags (DefaultConfig None) exBoot exStore))"

lemma exNet_prefix: "AddressPrefix exNet = 0x6F"
  by (simp add: exNet_def InitGenesis_def Regtest_def)

lemma exServer_start: "startNode exEnv toyWallet memPeers exOrder exFlags (DefaultConfig None) exBoot exStore = Inr (exServer, None)"
  by (simp add: exServer_def startNode_def EnsureDataDir_def exBoot_def exInit(1) exWallet_new(1) NewServer_def initAuth_def Let_def
      exFlags_def DefaultConfig_def exNet_prefix)

definition exRpc :: "(byte, byte, byte, byte, mem_db FileStore, bytes list) rpc_env" where
  "exRpc = \<lparr>re_net = exNode, re_wallet = toyWallet, re_utxoOrder = exOrder, re_poolOrder = (\<lambda>mp. sorted_list_of_set (dom (mp_txs mp))),
     re_sortCoins = sortSlice (\<lambda>u v. uo_Value u > uo_Value v), re_salt = None, re_iv = None,
     re_localAddr = (\<lambda>_. ascii ''127.0.0.1:19333''), re_metrics = JObj []\<rparr>"

definition exSubmit :: request where
  "exSubmit = \<lparr>rq_Method = MethodPost, rq_Path = ascii ''/submitblock'', rq_Query = [], rq_Body = Block_SerializeToBytes exFirstBlock,
     rq_BasicAuth = Some (ascii ''__cookie__'', ascii (hexEncode (replicate 32 7)))\<rparr>"

definition exNodeEvents :: "((byte, byte, byte, byte, mem_db FileStore, bytes list) rpc_env \<times> node_event) list" where
  "exNodeEvents = [(exRpc, NetEv (AcceptEv exPeerAddr exInput WriteAll WriteAll)), (exRpc, NetEv (ReadEv exPeerAddr)), (exRpc, RpcEv exSubmit),
     (exRpc, MinedEv exFirstBlock)]"

text \<open>A later environment, in which a client asks for the height and the miner hands over the first block.\<close>

definition exLateRpc :: "(byte, byte, byte, byte, mem_db FileStore, bytes list) rpc_env" where
  "exLateRpc = exRpc\<lparr>re_net := exNode\<lparr>ne_clock := (\<lambda>_. 3000), ne_now := 0\<rparr>\<rparr>"

definition exCountRequest :: request where
  "exCountRequest = \<lparr>rq_Method = ascii ''GET'', rq_Path = ascii ''/getblockcount'', rq_Query = [], rq_Body = [], rq_BasicAuth = None\<rparr>"

definition exLateEvents :: "((byte, byte, byte, byte, mem_db FileStore, bytes list) rpc_env \<times> node_event) list" where
  "exLateEvents = [(exLateRpc, RpcEv exCountRequest), (exLateRpc, MinedEv exFirstBlock)]"

lemma exLate_run: "\<exists>sv'. runSteps nodeEvStep exLateEvents exServer = Some sv' \<and> sv_chain sv' = deliverAll exEnv [exDelivery] exStart"
proof -
  have ok: "nodeOk toyWallet {} exServer" by (rule startNode_ok(3) [OF exServer_start]) (simp add: DefaultConfig_def)
  then have n: "netOk {} (sv_p2p exServer)" by (simp add: nodeOk_def serverOk_def)
  have c: "sv_chain exServer = exStart" using startNode_ok(1) [OF exServer_start] exInit(1) by simp
  have u: "sv_authUser exServer \<noteq> []"
    by (simp add: exServer_def startNode_def EnsureDataDir_def exBoot_def exInit(1) exWallet_new(1) NewServer_def initAuth_def Let_def
        exFlags_def DefaultConfig_def exNet_prefix SetShutdownFunc_def SetBroadcastTx_def SetWallet_def ascii_def)
  have r: "serveHTTP exLateRpc exCountRequest exServer = (Failure 401 Unauthorized, exServer)"
    by (rule unauthorized [OF u]) (simp add: exCountRequest_def)
  have m: "mapOrder (ne_invOrder (re_net exLateRpc))" using exNode_ok by (simp add: exLateRpc_def)
  have "mg_chain (onMinedBlock (re_net exLateRpc) exFirstBlock (sv_p2p exServer)) = deliverAll exEnv [exDelivery] exStart"
    using onMinedBlock_step(3) [OF m n, of exFirstBlock] c by (simp add: exLateRpc_def exNode_ok exDelivery_def exNode_def)
  then show ?thesis by (simp add: exLateEvents_def r)
qed

section \<open>A payment\<close>

definition exPayServer :: "(byte, byte, mem_db FileStore, bytes list) Server" where
  "exPayServer = (let c = exStart\<lparr>ch_utxoSet := exCoins, ch_tipHeight := 100\<rparr> in
     exServer\<lparr>sv_p2p := NewManager c (SetTipHeight (New exNet exCoins) 100) [] (ascii ''0.0.0.0:19333'') 25 8 [] (Some NewClock) None 4,
       sv_wallet := Some exWallet, sv_feePerByte := 1\<rparr>)"

definition exPayRpc :: "(byte, byte, byte, byte, mem_db FileStore, bytes list) rpc_env" where
  "exPayRpc = exRpc\<lparr>re_net := exNode\<lparr>ne_now := 0\<rparr>, re_utxoOrder := (\<lambda>_. [exCoinKey])\<rparr>"

definition exPayRequest :: request where
  "exPayRequest = \<lparr>rq_Method = MethodPost, rq_Path = ascii ''/sendtoaddress'',
     rq_Query = [(ascii ''address'', PubKeyHashToAddress toySha (replicate 20 9) 0x6F), (ascii ''amount'', ascii ''4500'')], rq_Body = [],
     rq_BasicAuth = None\<rparr>"

lemma exCoins_ok: "finite (dom exCoins)" "wf_keys exCoins" "setValue exCoins \<le> unat MaxMoneyValue" "exCoins (OutpointKey ZeroHash 0xFFFFFFFF) = None"
proof -
  have "exCoinKey \<noteq> OutpointKey ZeroHash 0xFFFFFFFF" by code_simp
  then show "exCoins (OutpointKey ZeroHash 0xFFFFFFFF) = None" by (simp add: exCoins_def)
  show "finite (dom exCoins)" "wf_keys exCoins" "setValue exCoins \<le> unat MaxMoneyValue"
    by (simp_all add: exCoins_def wf_keys_def exCoinKey_def OutpointKey_def setValue_def MaxMoneyValue_def)
qed

lemma exPayServer_simps:
  "sv_wallet exPayServer = Some exWallet" "ch_utxoSet (sv_chain exPayServer) = exCoins" "ch_tipHeight (sv_chain exPayServer) = 100"
  "sv_mempool exPayServer = SetTipHeight (New exNet exCoins) 100" "sv_feePerByte exPayServer = 1"
  by (simp_all add: exPayServer_def Let_def NewManager_def)

lemma exPayRpc_simps:
  "re_wallet exPayRpc = toyWallet" "re_chain exPayRpc = exEnv" "ne_now (re_net exPayRpc) = 0" "re_utxoOrder exPayRpc s = [exCoinKey]"
  "re_sortCoins exPayRpc = sortSlice (\<lambda>u v. uo_Value u > uo_Value v)"
  by (simp_all add: exPayRpc_def exRpc_def exNode_def)

lemma exPayRequest_ok: "payRequest exPayRequest 4500" "query exPayRequest ''address'' = PubKeyHashToAddress toySha (replicate 20 9) 0x6F"
proof -
  have n: "ascii ''address'' \<noteq> ascii ''amount''" "ascii ''4500'' \<noteq> []" by (simp_all add: ascii_def)
  have u: "ParseUint 64 (ascii ''4500'') = (None, 4500)"
    by (simp add: ParseUint_def ascii_def isDigit_def digitValue_def Let_def)
  have "AddressToPubKeyHash toySha [] = Inl DecodedTooShort" by code_simp
  then have a: "PubKeyHashToAddress toySha (replicate 20 9) 0x6F \<noteq> []"
    using address_decodes [OF toy.digest_axioms, of "replicate 20 9" "0x6F"] by auto
  show "query exPayRequest ''address'' = PubKeyHashToAddress toySha (replicate 20 9) 0x6F" by (simp add: query_def exPayRequest_def)
  then show "payRequest exPayRequest 4500" using n u a by (simp add: payRequest_def query_def exPayRequest_def)
qed

lemma exBuilt: "\<exists>tx w'. builtTx exPayRpc exPayRequest 4500 exWallet exPayServer = (Inr tx, w')"
proof -
  have m: "CoinbaseMaturity exNet = CoinbaseMaturity Regtest" by (simp add: exNet_def InitGenesis_def)
  have r: "\<lparr>sr_ToAddress = query exPayRequest ''address'', sr_Amount = 4500\<rparr> = exRequest"
    by (simp add: exPayRequest_ok(2) exRequest_def)
  show ?thesis using exPayment
    by (simp add: builtTx_def r walletCoins_def utxoOrder_def Tip_def exPayServer_simps exPayRpc_simps m)
qed

section \<open>A legacy database\<close>

text \<open>A database that holds the genesis block alone, and its migration.\<close>

definition exLegacy :: "bytes \<Rightarrow> (bytes \<times> bytes) list" where
  "exLegacy = (\<lambda>_. [])(blocksBucket := [(HashBlockHeader toySha (Header exGenesis), Block_SerializeToBytes exGenesis)],
     heightIndexBucket := [(heightToBytes 0, HashBlockHeader toySha (Header exGenesis))],
     chainStateBucket := [(chainTipKey, HashBlockHeader toySha (Header exGenesis) @ replicate 4 0)])"

lemma exLegacy_reads:
  "LegacyHasData memBolt exLegacy" "LegacyGetChainTip memBolt exLegacy = Inr (HashBlockHeader toySha (Header exGenesis), 0)"
  "LegacyGetBlockByHeight memBolt 0 exLegacy = Inr (HashBlockHeader toySha (Header exGenesis))"
  "LegacyGetBlock memBolt (HashBlockHeader toySha (Header exGenesis)) exLegacy = Inr exGenesis"
  "LegacyGetUndoData memBolt x exLegacy = Inl BoltNotFound"
proof -
  have b: "blocksBucket \<noteq> heightIndexBucket" "blocksBucket \<noteq> chainStateBucket" "heightIndexBucket \<noteq> chainStateBucket"
    "undoBucket \<noteq> blocksBucket" "undoBucket \<noteq> heightIndexBucket" "undoBucket \<noteq> chainStateBucket" by code_simp+
  have h: "length (HashBlockHeader toySha (Header exGenesis)) = 32"
    using digest.wf_HashBlockHeader [OF toy.digest_axioms] by (simp add: wf_hash_def HashSize_def)
  have z: "getLE (rev (replicate 4 0)) = (0 :: u32)" by code_simp
  show "LegacyHasData memBolt exLegacy" by (simp add: LegacyHasData_def memBolt_def exLegacy_def)
  show "LegacyGetChainTip memBolt exLegacy = Inr (HashBlockHeader toySha (Header exGenesis), 0)"
    using h z by (simp add: LegacyGetChainTip_def legacyGet_def memBolt_def exLegacy_def HashSize_def)
  show "LegacyGetBlockByHeight memBolt 0 exLegacy = Inr (HashBlockHeader toySha (Header exGenesis))"
    using h b by (simp add: LegacyGetBlockByHeight_def legacyGet_def memBolt_def exLegacy_def HashSize_def)
  have "Block_Deserialize (Block_SerializeToBytes exGenesis) = Inr (exGenesis, [])"
    using block.dec_enc [of exGenesis "[]"] exBlocks_wf by (simp add: Block_SerializeToBytes_def)
  then show "LegacyGetBlock memBolt (HashBlockHeader toySha (Header exGenesis)) exLegacy = Inr exGenesis"
    using b by (simp add: LegacyGetBlock_def legacyGet_def memBolt_def exLegacy_def)
  show "LegacyGetUndoData memBolt x exLegacy = Inl BoltNotFound"
    using b by (simp add: LegacyGetUndoData_def legacyGet_def memBolt_def exLegacy_def)
qed

lemma exMigrate: "\<exists>s'. migrateFromLegacy memBolt True (Inr exLegacy) exNet (fileStore toySha memKv) exStore = Some (Inr (), s') \<and> fsFits s'"
proof -
  let ?loc = "(0, 0, of_nat (length (Block_SerializeToBytes exGenesis)))"
  have w: "CalcWork (Bits (Header exGenesis)) = 2"
    using CompactToBig_arith [of "0x207fffff" "0x7fffff" 32] exBlocks_bits [of exGenesis] by (simp add: CalcWork_def exBlocks_def)
  have g: "GenesisBlock exNet = exGenesis" by (simp add: exNet_def InitGenesis_def)
  obtain bs where bs: "DiskBlockIndex_Serialize (migrateRecord exGenesis 0 ?loc 4) = Some bs"
    using workBytes_ok [of 4] by (auto simp: DiskBlockIndex_Serialize_def)
  have db: "fs_index exStore = ([], [])" "fs_chainstate exStore = ([], [])" by (simp_all add: exStore_def)
  have "\<exists>s'. migrateFromLegacy memBolt True (Inr exLegacy) exNet (fileStore toySha memKv) exStore = Some (Inr (), s')
      \<and> fs_files s' = (fs_files exStore)\<lparr>bf_blk := [0 \<mapsto> frame (NetworkMagic exNet) (Block_SerializeToBytes exGenesis) @ Block_SerializeToBytes exGenesis],
       bf_curSize := 8 + length (Block_SerializeToBytes exGenesis)\<rparr>"
    unfolding migrateFromLegacy_def
    by (subst migrateLoop.simps, simp add: exLegacy_reads startWork_def g w migrateOne_def exWriteGenesis migrateUndo_def FS_PutBlockIndex_def BI_PutBlockIndex_def bs db
        memKv_ops liftKv_def fileStore_def Let_def, subst migrateLoop.simps, simp add: FS_PutChainTip_def memKv_ops liftKv_def db)
  then show ?thesis by (auto simp: fsFits_def filesFit_def exStore_def)
qed

end
