(* ===== verification/Spec2Isabelle.thy ===== *)
theory Spec2Isabelle
  imports Ledger Examples Protocol Timeadjust Base58 Chain_Examples Node_Examples
begin

text \<open>
  \<^bold>\<open>Fairchain: a verification of the node.\<close>

  \<^bold>\<open>The program.\<close> Fairchain (\<open>src/\<close>, Go) is a proof-of-work chain with unspent outputs. A node
  (\<open>cmd/node/main.go\<close>) opens a store of flat files and two leveldb databases (\<open>internal/store\<close>), starts the chain
  manager on it (\<open>internal/chain\<close>), creates the memory pool over the chain's set of unspent outputs
  (\<open>internal/mempool\<close>, \<open>internal/utxo\<close>), the peer manager (\<open>internal/p2p\<close>), the wallet (\<open>internal/wallet\<close>) and the
  RPC server (\<open>internal/rpc\<close>), and, if asked to, the miner (\<open>internal/miner\<close>). Blocks reach the chain manager
  from peers, from the RPC server and from the miner, all through \<open>ProcessBlock\<close>, which validates them
  (\<open>internal/consensus\<close>, \<open>internal/script\<close>, \<open>internal/crypto\<close>), extends or reorganises the active chain and
  writes blocks, undo data, index records and batches of unspent outputs. Transactions reach the pool from
  peers, from the RPC server and from the file saved at shutdown; the miner builds its templates from the
  pool. The adjusted clock (\<open>internal/timeadjust\<close>) is fed by the handshakes and read by the validation.

  \<^bold>\<open>How it is modelled.\<close> Structures are records, tagged values are datatypes, integers keep their width as
  words, bytes are lists of 8-bit words. Go functions are HOL functions of the same name; a method that
  changes its receiver returns the new one; errors are values of a datatype per component, in \<open>Inl\<close>; panics are
  values of their own (\<open>None\<close> for a step of the node, \<open>Dropped\<close> for a request). Loops are structural recursion,
  recursion with a measure, or partial functions into \<open>option\<close>, for which the end is then proved. What the
  code reads from outside is an argument: the clock, random numbers, the iteration order of maps, the
  choice of a select statement, failing writes and short writes, the bytes that a connection delivers.
  Third-party packages are arguments too: the digest \<open>sha\<close>, the curve and RIPEMD-160 (\<open>crypto_lib\<close>), leveldb
  (\<open>kv_lib\<close>), bbolt (\<open>bolt_lib\<close>), key derivation, mnemonics, scrypt and AES (\<open>wallet_lib\<close>). What is assumed of
  them is stated as a locale or as a named predicate (\<open>ecdsa_correct\<close>, \<open>cbc_correct\<close>), and each has a concrete
  model in the examples. SHA-256 itself is defined in \<open>Sha256\<close> and interprets the locale of digests.

  \<^bold>\<open>Theories and sources.\<close>

  \<^item> \<open>Prelude\<close>: results, words, lists, the locales \<open>codec\<close> and \<open>digest\<close>. \<open>Numtext\<close>, \<open>Paths\<close>, \<open>Netaddr\<close>: the parts of
    \<open>strconv\<close>, \<open>fmt\<close>, \<open>path/filepath\<close>, \<open>strings\<close> and \<open>net\<close> that the sources use.
  \<^item> \<open>Types\<close>, \<open>Transaction\<close>, \<open>Block\<close>: \<open>internal/types\<close>. \<open>Sha256\<close>, \<open>Hashing\<close>, \<open>Merkle_Props\<close>, \<open>Target\<close>, \<open>Base58\<close>, \<open>Keys\<close>:
    \<open>internal/crypto\<close>. \<open>Params\<close>: \<open>internal/params\<close>. \<open>Timeadjust\<close>: \<open>internal/timeadjust\<close>. \<open>Protocol\<close>: \<open>internal/protocol\<close>.
  \<^item> \<open>Script\<close>: \<open>internal/script\<close>. \<open>Utxo\<close>, \<open>Utxo_Props\<close>: \<open>internal/utxo\<close>. \<open>Consensus\<close>, \<open>Consensus_Props\<close>, \<open>Pow\<close>:
    \<open>internal/consensus\<close> and its engine \<open>pow\<close>. \<open>Mempool\<close>, \<open>Mempool_Props\<close>: \<open>internal/mempool\<close>. \<open>Miner\<close>: \<open>internal/miner\<close>.
  \<^item> \<open>Ledger\<close>, \<open>History\<close>: the specification, a state machine that connects valid blocks to a set of unspent
    outputs, without and with the blocks.
  \<^item> \<open>Blockfile\<close>, \<open>Store\<close>, \<open>Store_Contract\<close>: the flat files, the index and the chainstate of \<open>internal/store\<close>, the interface
    \<open>BlockStore\<close> and its contract. \<open>Peerstore\<close>: \<open>bolt.go\<close>, \<open>peerdump.go\<close> and \<open>p2p/discovery\<close>.
  \<^item> \<open>Chain\<close>, \<open>Chain_Init\<close>: \<open>internal/chain\<close>; \<open>Chain_Inv\<close>, \<open>Chain_Reorg\<close>, \<open>Chain_Props\<close>, \<open>Chain_Run\<close>, \<open>Chain_Bounds\<close>,
    \<open>Chainstate\<close>: its invariant, reorganisations, the refinement of the ledger, restarts, the database.
  \<^item> \<open>Wallet\<close>, \<open>Wallet_Tx\<close>: \<open>internal/wallet\<close>; \<open>Wallet_Props\<close>, \<open>Wallet_Lock\<close>: its invariant, payments, encryption.
  \<^item> \<open>Peer\<close>, \<open>P2p\<close>, \<open>P2p_Handlers\<close>, \<open>P2p_Net\<close>: \<open>internal/p2p/peer.go\<close> and \<open>manager.go\<close>, the latter as a machine
    \<open>netStep\<close> whose events are connections, reads, writes and timers; \<open>P2p_Props\<close>, \<open>P2p_Run\<close>, \<open>P2p_Facts\<close>: its bounds.
  \<^item> \<open>Config\<close>: \<open>internal/config\<close>. \<open>Rpc\<close>, \<open>Rpc_Handlers\<close>, \<open>Rpc_Wallet\<close>: \<open>internal/rpc\<close>, a handler being a function of the
    request and the server; \<open>Rpc_Props\<close>, \<open>Rpc_Pay\<close>: what requests can change, and payments end to end.
  \<^item> \<open>Node\<close>, \<open>Migrate\<close>: \<open>cmd/node/main.go\<close>; \<open>Node_Props\<close>, \<open>Node_Start\<close>: the running node as a whole. Its state is the
    record \<open>Server\<close>, which holds the peer manager and through it chain and pool; its steps \<open>nodeEvStep\<close> are those of the
    peer manager, requests, and blocks of the miner.
  \<^item> \<open>Examples\<close>, \<open>Chain_Examples\<close>, \<open>Wallet_Examples\<close>, \<open>P2p_Examples\<close>, \<open>Node_Examples\<close>: concrete inputs for the witnesses.

  \<^bold>\<open>Interfaces.\<close> \<open>codec\<close> (interpreted on every encoding of transactions, blocks and messages), \<open>digest\<close> (SHA-256 and a
  small digest), \<open>consensus_engine\<close> (the proof-of-work engine), \<open>leveldb\<close> and \<open>file_store\<close> (a database in memory with
  failing writes), \<open>block_store\<close> (a sublocale of \<open>file_store\<close>: the composite store meets the contract that the chain
  relies on), \<open>bbolt\<close> and \<open>peer_store\<close>, \<open>tx_universe\<close> and \<open>block_universe\<close> (blocks on which the digest does not
  collide), \<open>chain_manager\<close> (the chain over a store and a universe) and \<open>node_driver\<close> (a component that drives chain
  and pool, interpreted on the peer manager and on the whole node).

  \<^bold>\<open>What is proved.\<close> Money: no block creates more than its subsidy, the supply stays below its cap, outputs are
  spent once, when mature, and only with the key. Commitments: headers to transactions, signatures to what
  they sign, encodings are canonical. Work: the target test, retargeting and sealing. The chain: from an empty
  store and through any deliveries, reorganisations, orphans and failing writes the state in memory is that of a
  valid chain; the database follows it; a restart recovers it. The pool: its invariant, its agreement with block
  validation, valid templates, and that mining finds a block if there is one. The wallet: its payments are
  valid, also through the RPC server, and an encrypted wallet is recovered. The node: whatever peers,
  clients and the miner do, no event panics, resources stay bounded, only received or mined blocks are
  processed, and the chain remains that of the ledger; unauthorised requests change nothing; a legacy
  database is carried over.

  \<^bold>\<open>Bounds and fuel.\<close> \<open>MineOne\<close> takes the number of batches as fuel: its loop runs until a block is found or the
  miner is cancelled. 42950 batches of 100000 nonces cover the 32-bit nonces, and with that fuel it is proved to
  find a block when the header has a solution. \<open>MineGenesis\<close> and \<open>SealHeader\<close> recurse with a measure on the
  nonces left. \<open>BlockLocator\<close>, the scan for the last block file and \<open>migrateFromLegacy\<close> are partial functions; the
  locator is proved to end within 43 entries, the migration below the largest 32-bit height. Statements about
  files assume that these stay within their 32-bit addresses, and statements about runs that fewer than \<open>2\<^sup>32\<close>
  blocks are delivered. The writes of the chain tip are assumed to succeed where the chain must equal the
  ledger, since memory and disk are apart after such a failure.

  \<^bold>\<open>Not modelled.\<close> Sockets, and the interleaving of goroutines inside one handler: a handler runs as one step.
  Logging, metrics (an argument where \<open>/metrics\<close> reports them) and the debug dump \<open>topologyLoop\<close>. \<open>Miner.Run\<close>, the
  endless loop around \<open>MineOne\<close>; the miner's blocks enter as events. The text of JSON documents and floating-point
  arithmetic: quotients are kept as pairs. The opening, closing and paths of databases, the lock file and
  signals. The commands \<open>cmd/cli\<close> (an HTTP client), \<open>cmd/genesis\<close> (prints a genesis block built by modelled
  functions) and \<open>cmd/adversary\<close> (a test tool), and the constants of \<open>internal/version\<close> and helpers of \<open>internal/util\<close>.
\<close>

section \<open>Money\<close>

text \<open>
  C1. No inflation. A block that both validators accept against a finite set of unspent outputs
  is applied by \<open>ConnectBlock\<close> without error, and the total value of the resulting set exceeds
  the old total by at most the subsidy of its height. Nothing is assumed about the hash function:
  the bound survives colliding transaction hashes.
\<close>

theorem no_inflation:
  assumes "isOk (ValidateBlockStructure (lib_sha L) b height p)"
    and "isOk (ValidateTransactionInputs L b s height p)"
    and "finite (dom s)"
  shows "\<exists>undo s'. ConnectBlock (lib_sha L) s b height = (Inr undo, s') \<and> finite (dom s')
     \<and> setValue s' \<le> setValue s + unat (CalcSubsidy p height)"
  using validBlock_connects [OF assms(2)] validBlock_value [of L p s height b] assms
  unfolding validBlock_def by blast

theorem no_inflation_witness:
  "isOk (ValidateBlockStructure toySha exBlock 1 Regtest) \<and> finite (dom exUtxo)
   \<and> (\<exists>undo s'. ConnectBlock toySha exUtxo exBlock 1 = (Inr undo, s') \<and> finite (dom s')
        \<and> setValue s' \<le> setValue exUtxo + unat (CalcSubsidy Regtest 1))"
  using no_inflation [of toyLib exBlock 1 Regtest exUtxo] exBlock_structure exBlock_inputs
  by (simp add: exUtxo_def)

text \<open>
  C4. The supply cap. In every ledger reachable on mainnet by connecting valid blocks from the
  genesis block (heights are 32-bit), the unspent outputs are worth at most \<open>MaxMoneyValue\<close>, the
  constant that the source documents as the maximum supply, and \<open>TotalValue\<close> returns the exact
  total in whatever order it visits the map.
\<close>

theorem mainnet_supply_cap:
  assumes "ledger L Mainnet n s" "n < 2 ^ 32" "distinct order" "set order = dom s"
  shows "setValue s \<le> unat MaxMoneyValue \<and> unat (TotalValue s order) = setValue s"
proof -
  have "(\<Sum>h\<in>{1..n}. unat (CalcSubsidy Mainnet (of_nat h))) \<le> 2099999997690000"
    using subsidy_sum_le [of Mainnet n] assms(2) mainnet_eras by (simp add: Mainnet_def)
  then have "setValue s \<le> 2099999997690000"
    using ledger_supply [OF assms(1)] by (simp add: mainnet_genesis_empty setValue_def)
  then show ?thesis using TotalValue_eq [OF assms(3,4)] by (simp add: MaxMoneyValue_def)
qed

theorem mainnet_supply_cap_witness:
  "\<exists>s order. ledger toyLib Mainnet 1 s \<and> distinct order \<and> set order = dom s
     \<and> setValue s \<le> unat MaxMoneyValue \<and> unat (TotalValue s order) = setValue s"
proof -
  obtain s where s: "ledger toyLib Mainnet 1 s" using exMain_ledger by blast
  have "finite (dom s)" using ledger_supply [OF s] by blast
  from finite_distinct_list [OF this] obtain order where o: "distinct order" "set order = dom s" by blast
  have "setValue s \<le> unat MaxMoneyValue \<and> unat (TotalValue s order) = setValue s"
    by (rule mainnet_supply_cap [OF s _ o]) simp
  then show ?thesis using s o by blast
qed



text \<open>
  What a P2PKH output accepts. \<open>Verify\<close> on the standard locking script succeeds exactly when
  the unlocking script leaves a key and a signature, the key has the given hash, and the
  signature verifies. The equivalence covers every unlocking script, standard or not.
\<close>

theorem verify_p2pkh_exact:
  "isOk (Verify L sigScript (MakeP2PKHScript (Hash160 L key)) tx i) \<longleftrightarrow>
    (\<exists>pub sig. execute L \<lparr>eng_tx = tx, eng_inputIdx = i, eng_pkScript = MakeP2PKHScript (Hash160 L key)\<rparr>
                 sigScript [] = Inr [pub, sig]
       \<and> Hash160 L pub = Hash160 L key \<and> sigOk L tx i (MakeP2PKHScript (Hash160 L key)) pub sig)"
  by (rule Verify_P2PKH_iff) simp

text \<open>
  C11. Disconnecting. After \<open>ConnectBlock\<close> on a set that held none of the block's output keys,
  \<open>DisconnectBlock\<close> with the returned undo data gives back the old set exactly when the block
  spends none of its own outputs. Blocks that pass \<open>ValidateTransactionInputs\<close> are of that kind;
  for the in-block chains that \<open>ConnectBlock\<close> itself admits, disconnecting leaves entries behind.
\<close>

theorem disconnect_restores_iff:
  assumes "ConnectBlock sha s b height = (Inr undo, s')"
    and "\<forall>k\<in>set (concat (map (outputKeys sha) (Transactions b))). s k = None"
  shows "DisconnectBlock sha s' b undo = s \<longleftrightarrow>
    set (blockSpends (Transactions b)) \<inter> set (concat (map (outputKeys sha) (Transactions b))) = {}"
proof -
  have keys: "fst ` set (blockAdds sha height (Transactions b))
      = set (concat (map (outputKeys sha) (Transactions b)))"
    by (metis keys_blockAdds list.set_map)
  have "fst ` set (blockAdds sha height (Transactions b)) \<inter> dom s = {}"
    unfolding keys using assms(2) by auto
  from Disconnect_Connect_iff [OF assms(1) this] show ?thesis unfolding keys .
qed

theorem disconnect_restores_iff_witness:
  "\<exists>undo s'. ConnectBlock toySha exUtxo exBlock 1 = (Inr undo, s')
     \<and> DisconnectBlock toySha s' exBlock undo = exUtxo"
proof -
  have "isOk (ValidateTransactionInputs toyLib exBlock exUtxo 1 Regtest)" by (simp add: exBlock_inputs)
  from validBlock_connects [OF this, of toySha]
  obtain undo s' where c: "ConnectBlock toySha exUtxo exBlock 1 = (Inr undo, s')" by blast
  have "DisconnectBlock toySha s' exBlock undo = exUtxo"
    using disconnect_restores_iff [OF c exBlock_fresh] exBlock_no_chain by blast
  with c show ?thesis by blast
qed

section \<open>Headers, work and mining\<close>

text \<open>
  C10. A header commits to its transactions. Two blocks with the same Merkle root that both pass
  \<open>ValidateBlockStructure\<close> have the same transactions, byte for byte, whatever their numbers of
  transactions are, provided the digest has no collision among the byte strings hashed and no
  transaction serializes to the 64 bytes of an inner node. The check for duplicate transaction
  identifiers is what excludes the duplication of CVE-2012-2459.
\<close>

theorem header_commits_to_transactions:
  assumes "digest sha"
    and "isOk (ValidateBlockStructure sha b height p)" "isOk (ValidateBlockStructure sha b' height' p')"
    and "MerkleRootH (Header b) = MerkleRootH (Header b')"
    and "\<forall>tx\<in>set (Transactions b) \<union> set (Transactions b'). length (SerializeToBytes tx) \<noteq> 64"
    and "inj_on (DoubleSHA256 sha)
       (set (map SerializeToBytes (Transactions b)) \<union> set (merkleInputs sha (map (HashTransaction sha) (Transactions b)))
        \<union> (set (map SerializeToBytes (Transactions b'))
            \<union> set (merkleInputs sha (map (HashTransaction sha) (Transactions b')))))"
  shows "map SerializeToBytes (Transactions b) = map SerializeToBytes (Transactions b')"
proof -
  have v: "c \<noteq> [] \<and> distinct (map (HashTransaction sha) c) \<and> ComputeMerkleRoot sha c = MerkleRootH (Header d)"
    if "isOk (ValidateBlockStructure sha d h q)" "c = Transactions d" for c d h q
    using that ValidateBlockStructure_ok by (fastforce simp: isOk_iff)
  show ?thesis
    using digest.ComputeMerkleRoot_inj [OF assms(1), of "Transactions b" "Transactions b'"]
      v [OF assms(2) refl] v [OF assms(3) refl] assms(4-6) by simp
qed

theorem header_commits_to_transactions_witness:
  "map SerializeToBytes (Transactions exBlock) = map SerializeToBytes (Transactions exBlock)
   \<and> isOk (ValidateBlockStructure toySha exBlock 1 Regtest)"
  using header_commits_to_transactions [OF toy.digest_axioms exBlock_structure exBlock_structure refl]
    exBlock_not_64 exBlock_inj exBlock_structure by simp

text \<open>
  C25. The proof-of-work test. A header hash passes \<open>ValidateProofOfWork\<close> exactly when, read as a
  little-endian number, it is at most the target that the compact bits encode, without its sign
  and cut to 256 bits.
\<close>

theorem pow_check_numeric:
  assumes "digest sha"
  shows "isOk (ValidateProofOfWork (HashBlockHeader sha h) bits) \<longleftrightarrow>
    HashToBig (HashBlockHeader sha h) \<le> \<bar>CompactToBig bits\<bar> mod 2 ^ 256"
proof -
  have wf: "wf_hash (HashBlockHeader sha h)" by (rule digest.wf_HashBlockHeader [OF assms])
  have "int (nat \<bar>CompactToBig bits\<bar> mod 2 ^ 256) = \<bar>CompactToBig bits\<bar> mod 2 ^ 256"
    by (simp add: zmod_int)
  then show ?thesis
    unfolding ValidateProofOfWork_iff [OF wf] HashToBig_le_nat [OF wf] by (metis of_nat_le_iff)
qed

theorem pow_check_numeric_witness:
  "isOk (ValidateProofOfWork (HashBlockHeader toySha exHeader) 0x207fffff) \<longleftrightarrow>
    HashToBig (HashBlockHeader toySha exHeader) \<le> \<bar>CompactToBig 0x207fffff\<bar> mod 2 ^ 256"
  by (rule pow_check_numeric [OF toy.digest_axioms])

text \<open>
  C21. Retargeting is bounded. At a retarget boundary the new bits encode a target that is not
  negative, at most the network's easiest target and at most four times the old target; it is
  the exact quotient of old target, clamped timespan and target timespan, capped at the easiest
  target and rounded down by the compact form by a relative error below 2^-15.
\<close>

theorem retarget_bounded:
  assumes "\<not> NoRetarget p" "RetargetInterval p \<noteq> 0" "4 * Second \<le> TargetTimespan p"
    and "(tipHeight + 1) mod RetargetInterval p = 0"
    and "getAncestor (tipHeight - (RetargetInterval p - 1)) = Some first"
    and "0 \<le> CompactToBig (Bits tip)" "0 \<le> CompactToBig (MinBits p)" "CompactToBig (MinBits p) < 256 ^ 250"
  shows "\<exists>bits t. CalcNextBits tip tipHeight getAncestor p = Some bits
    \<and> t = retargetTo p (CompactToBig (Bits tip)) (int (unat (Timestamp tip)) - int (unat (Timestamp first)))
    \<and> t \<le> CompactToBig (MinBits p) \<and> t \<le> 4 * CompactToBig (Bits tip)
    \<and> CompactToBig bits \<le> t
    \<and> (0 < t \<longrightarrow> t * 2 ^ 15 < CompactToBig bits * (2 ^ 15 + 1))"
proof -
  let ?t = "retargetTo p (CompactToBig (Bits tip)) (int (unat (Timestamp tip)) - int (unat (Timestamp first)))"
  note b = retargetTo_bounds [OF assms(3,6,7), of "int (unat (Timestamp tip)) - int (unat (Timestamp first))"]
  have lt: "?t < 256 ^ 250" using b(2) assms(8) by linarith
  have "?t * 2 ^ 15 < CompactToBig (BigToCompact ?t) * (2 ^ 15 + 1)" if "0 < ?t"
    using BigToCompact_rounds_down(2) [of "nat ?t"] that lt by (simp add: nat_less_iff)
  moreover have "CompactToBig (BigToCompact ?t) \<le> ?t" using BigToCompact_le b(1) lt by blast
  ultimately show ?thesis
    using CalcNextBits_retarget [of p tipHeight getAncestor first tip, OF assms(1-5)] b(2,3) by blast
qed

theorem retarget_bounded_witness:
  "\<exists>bits t. CalcNextBits exTip 143 (\<lambda>_. Some exFirst) Mainnet = Some bits
    \<and> t = retargetTo Mainnet (CompactToBig (Bits exTip)) (int (unat (Timestamp exTip)) - int (unat (Timestamp exFirst)))
    \<and> t \<le> CompactToBig (MinBits Mainnet) \<and> t \<le> 4 * CompactToBig (Bits exTip)
    \<and> CompactToBig bits \<le> t
    \<and> (0 < t \<longrightarrow> t * 2 ^ 15 < CompactToBig bits * (2 ^ 15 + 1))"
  by (rule retarget_bounded)
     (simp_all add: Mainnet_def Second_def Minute_def exTip_def exTip_target)

text \<open>
  C26. Sealing finds the first solution. \<open>SealHeader\<close> reports success exactly when some nonce
  reachable within the given number of iterations, without passing the 32-bit wrap, meets the
  target, and then it leaves the first such nonce in the header and changes nothing else.
\<close>

theorem seal_finds_first_nonce:
  "SealHeader sha h target maxIterations = (True, h') \<longleftrightarrow>
     (\<exists>k<unat maxIterations. unat (Nonce h) + k < 2 ^ 32
        \<and> (\<forall>j<k. \<not> LessOrEqual (HashBlockHeader sha (h\<lparr>Nonce := Nonce h + of_nat j\<rparr>)) target)
        \<and> LessOrEqual (HashBlockHeader sha (h\<lparr>Nonce := Nonce h + of_nat k\<rparr>)) target
        \<and> h' = h\<lparr>Nonce := Nonce h + of_nat k\<rparr>)"
  unfolding SealHeader_def by (rule sealLoop_found)

theorem seal_finds_first_nonce_witness:
  "SealHeader toySha exHeader exTarget 1 = (True, exHeader)
   \<and> (\<exists>k<unat (1 :: u64). unat (Nonce exHeader) + k < 2 ^ 32
        \<and> (\<forall>j<k. \<not> LessOrEqual (HashBlockHeader toySha (exHeader\<lparr>Nonce := Nonce exHeader + of_nat j\<rparr>)) exTarget)
        \<and> LessOrEqual (HashBlockHeader toySha (exHeader\<lparr>Nonce := Nonce exHeader + of_nat k\<rparr>)) exTarget
        \<and> exHeader = exHeader\<lparr>Nonce := Nonce exHeader + of_nat k\<rparr>)"
  by (rule conjI [OF exSealed exSealed [unfolded seal_finds_first_nonce]])

text \<open>
  C27. Mining the genesis block ends. \<open>MineGenesis\<close> is total: its loop stops at the latest when
  the nonce wraps. It succeeds exactly when some nonce from the initial one up to 2^32 - 1 meets
  the target of the block's bits, and the block it leaves then has the Merkle root of its
  transactions and such a nonce, and is otherwise unchanged.
\<close>

theorem mine_genesis_total:
  "fst (MineGenesis sha b) \<longleftrightarrow>
     (\<exists>k h. h = (Header b)\<lparr>MerkleRootH := ComputeMerkleRoot sha (Transactions b),
                            Nonce := Nonce (Header b) + of_nat k\<rparr>
        \<and> unat (Nonce (Header b)) + k < 2 ^ 32
        \<and> LessOrEqual (HashBlockHeader sha h) (CompactToHash (Bits (Header b)))
        \<and> snd (MineGenesis sha b) = b\<lparr>Header := h\<rparr>)"
  using MineGenesis_found [of sha b] by simp

section \<open>Signatures and scripts\<close>

text \<open>
  C28. Signed inputs are accepted. If the curve package behaves as documented, the unlocking
  script that \<open>SignInput\<close> builds for an input, put into the transaction, satisfies the P2PKH
  script of the signer's key: signing does not depend on the signature scripts themselves.
\<close>

theorem sign_then_verify:
  assumes "ecdsa_correct L" "i < length (Inputs tx)"
    and "pk = MakeP2PKHScriptFromPubKey L (SerializeCompressed L (privPubKey L sk))"
    and "SignInput L tx (int i) pk sk = Inr sigScript"
    and "tx' = tx\<lparr>Inputs := (Inputs tx)[i := (Inputs tx ! i)\<lparr>SignatureScript := sigScript\<rparr>]\<rparr>"
  shows "isOk (Verify L sigScript pk tx' (int i))"
  by (rule SignInput_Verify [OF assms])

theorem sign_then_verify_witness:
  "isOk (Verify toyLib exSigScript exPkScript exTx 0)"
proof -
  have s: "SignInput toyLib exUnsigned 0 exPkScript 7 = Inr exSigScript" by code_simp
  have "exPkScript = MakeP2PKHScriptFromPubKey toyLib (SerializeCompressed toyLib (privPubKey toyLib 7))"
    by (simp add: exPkScript_def MakeP2PKHScriptFromPubKey_def PubKeyHash_def exPub_def toyLib_def)
  moreover have "exTx = exUnsigned\<lparr>Inputs := (Inputs exUnsigned)[0 := (Inputs exUnsigned ! 0)\<lparr>SignatureScript := exSigScript\<rparr>]\<rparr>"
    by (simp add: exTx_def exUnsigned_def)
  moreover have "0 < length (Inputs exUnsigned)" by (simp add: exUnsigned_def)
  ultimately show ?thesis
    using sign_then_verify [OF toyLib_correct, of 0 exUnsigned exPkScript 7 exSigScript exTx] s by simp
qed

text \<open>
  C20. What a signature commits to. If two signature hashes agree and the digest has no collision
  between the two preimages, then the input index, the script, the version, the lock time, all
  outputs, all previous outpoints and all sequence numbers agree.
\<close>

theorem sighash_commits:
  assumes "wf_tx tx" "wf_tx tx'" "length sub \<le> 10000" "length sub' \<le> 10000" "sub \<noteq> []"
    and "ComputeSigHash L tx i sub = Inr h" "ComputeSigHash L tx' i' sub' = Inr h"
    and "inj_on (DoubleSHA256 (lib_sha L))
       {SerializeToBytes (sigHashCopy tx (nat i) sub) @ [SigHashAll, 0, 0, 0],
        SerializeToBytes (sigHashCopy tx' (nat i') sub') @ [SigHashAll, 0, 0, 0]}"
  shows "i = i' \<and> sub = sub' \<and> tx_Version tx = tx_Version tx' \<and> LockTime tx = LockTime tx'
     \<and> Outputs tx = Outputs tx'
     \<and> map PreviousOutPoint (Inputs tx) = map PreviousOutPoint (Inputs tx')
     \<and> map Sequence (Inputs tx) = map Sequence (Inputs tx')"
proof -
  have r: "0 \<le> i" "i < int (length (Inputs tx))" "0 \<le> i'" "i' < int (length (Inputs tx'))"
    and eq: "DoubleSHA256 (lib_sha L) (SerializeToBytes (sigHashCopy tx (nat i) sub) @ [SigHashAll, 0, 0, 0])
       = DoubleSHA256 (lib_sha L) (SerializeToBytes (sigHashCopy tx' (nat i') sub') @ [SigHashAll, 0, 0, 0])"
    using assms(6,7) by (auto simp: ComputeSigHash_def split: if_splits)
  from inj_onD [OF assms(8) eq]
  have "SerializeToBytes (sigHashCopy tx (nat i) sub) = SerializeToBytes (sigHashCopy tx' (nat i') sub')" by simp
  moreover have "nat i < length (Inputs tx)" "nat i' < length (Inputs tx')" using r by auto
  ultimately show ?thesis
    using sigHashCopy_inj [OF assms(1-4) _ _ assms(5)] r by (metis nat_0_le)
qed

theorem sighash_commits_witness:
  "\<exists>h. ComputeSigHash toyLib exUnsigned 0 exPkScript = Inr h \<and> ComputeSigHash toyLib exTx 0 exPkScript = Inr h
     \<and> Outputs exUnsigned = Outputs exTx"
proof -
  have wf: "wf_tx exUnsigned" "wf_tx exTx" by code_simp+
  have l: "length exPkScript \<le> 10000" "exPkScript \<noteq> []" by code_simp+
  obtain h where h: "ComputeSigHash toyLib exUnsigned 0 exPkScript = Inr h"
    by (simp add: ComputeSigHash_def exUnsigned_def)
  have "ComputeSigHash toyLib exTx 0 exPkScript = ComputeSigHash toyLib exUnsigned 0 exPkScript"
    by (rule ComputeSigHash_ignores_scripts) (simp_all add: exTx_def exUnsigned_def)
  with h have h': "ComputeSigHash toyLib exTx 0 exPkScript = Inr h" by simp
  have c: "sigHashCopy exUnsigned (nat 0) exPkScript = sigHashCopy exTx (nat 0) exPkScript"
    by (simp add: sigHashCopy_def exTx_def exUnsigned_def)
  have "Outputs exUnsigned = Outputs exTx"
    using sighash_commits [OF wf l(1,1,2) h h', unfolded c] by simp
  with h h' show ?thesis by blast
qed



text \<open>
  C30. Resource bounds of the engine. A script of at most 10000 bytes started on an empty stack
  ends, and if it succeeds leaves at most 1000 elements of at most 520 bytes each; a longer
  script is refused.
\<close>

theorem script_stack_bounded:
  assumes "execute L e script [] = Inr st"
  shows "length script \<le> 10000 \<and> length st \<le> 1000 \<and> list_all (\<lambda>d. length d \<le> 520) st"
  using assms execLoop_stackOk [of L e script 0 "[]" st]
  by (auto simp: execute_def stackOk_def script_limits split: if_splits)

theorem script_stack_bounded_witness:
  "\<exists>st. execute toyLib \<lparr>eng_tx = exTx, eng_inputIdx = 0, eng_pkScript = exPkScript\<rparr> exSigScript [] = Inr st
     \<and> length st \<le> 1000"
proof -
  have "isOk (execute toyLib \<lparr>eng_tx = exTx, eng_inputIdx = 0, eng_pkScript = exPkScript\<rparr> exSigScript [])"
    by code_simp
  then obtain st where
    st: "execute toyLib \<lparr>eng_tx = exTx, eng_inputIdx = 0, eng_pkScript = exPkScript\<rparr> exSigScript [] = Inr st"
    by (auto simp: isOk_iff)
  from script_stack_bounded [OF st] st show ?thesis by blast
qed

section \<open>Mempool and miner\<close>

text \<open>
  C15. The mempool invariant. Whatever sequence of additions, removals, evictions, loads, tip
  changes and changes of the shared set of unspent outputs a pool goes through, its size stays
  within \<open>MaxMempoolSize\<close>, every entry carries the hash, size, fee rate and minimum fee of its
  transaction, and the index of spent outpoints holds exactly the inputs of the pooled
  transactions. As that index is a function, no two pooled transactions spend the same output.
\<close>

theorem mempool_invariant: "mpInv (lib_sha L) (fold (mempoolStep L) ops (New p s))"
  by (rule mpInv_run [OF mpInv_New])

text \<open>
  C16. Admission agrees with block validation. \<open>ValidateSingleTransaction\<close>, used by the mempool,
  accepts a transaction with a fee exactly when the per-transaction part of
  \<open>ValidateTransactionInputs\<close> accepts it with that fee as the only transaction besides the
  coinbase in a block at the next height.
\<close>

theorem mempool_block_agreement:
  "ValidateSingleTransaction L tx s tip p = Inr fee \<longleftrightarrow>
     \<not> IsCoinbase tx \<and> blockTx L p s (tip + 1) tx {} = Inr (fee, inKey ` set (Inputs tx))"
  by (rule single_block_iff)

text \<open>
  C17. Templates are valid. While the pool is in step with the set of unspent outputs and the
  subsidy of the next height is not zero, the transactions that the miner assembles from the
  block template, in whatever order the pool's map is visited, pass
  \<open>ValidateTransactionInputs\<close> as a whole, and the fees it reports are the fees that the
  coinbase claims.
\<close>

theorem block_template_valid:
  assumes "mpInv (lib_sha L) m" "inSync L m"
    and "distinct order" "set order = dom (mp_txs m)"
    and "finite (dom (mp_utxoSet m))"
    and "unat (CalcSubsidy (mp_p m) (mp_tipHeight m + 1)) + setValue (mp_utxoSet m) < 2 ^ 64"
    and "CalcSubsidy (mp_p m) (mp_tipHeight m + 1) \<noteq> 0"
  shows "\<exists>txs. mineTxs (mp_p m) reward (mp_tipHeight m + 1) (BlockTemplate m order) = Some txs
     \<and> ValidateTransactionInputs L \<lparr>Header = h, Transactions = txs\<rparr> (mp_utxoSet m) (mp_tipHeight m + 1) (mp_p m)
         = Inr (bt_TotalFees (BlockTemplate m order))"
  by (rule mined_pool_valid [OF assms])

theorem block_template_valid_witness:
  "\<exists>txs. mineTxs (mp_p exPool) [0x51] (mp_tipHeight exPool + 1) (BlockTemplate exPool [exTxHash]) = Some txs
     \<and> ValidateTransactionInputs toyLib \<lparr>Header = exHeader, Transactions = txs\<rparr> (mp_utxoSet exPool)
           (mp_tipHeight exPool + 1) (mp_p exPool)
         = Inr (bt_TotalFees (BlockTemplate exPool [exTxHash]))"
proof -
  have f: "mp_utxoSet exPool = exUtxo" "mp_tipHeight exPool = 0" "mp_p exPool = Regtest"
    "dom (mp_txs exPool) = {exTxHash}"
    by (simp_all add: exPool_eq New_def)
  have s: "CalcSubsidy Regtest 1 = 5000000000" by code_simp
  have v: "finite (dom exUtxo)" "setValue exUtxo = unat (ue_Value exEntry)"
    by (simp_all add: exUtxo_def setValue_def entryVal_def)
  show ?thesis
    by (rule block_template_valid [OF exPool_inv exPool_sync]) (simp_all add: f s v exEntry_def)
qed

text \<open>
  C31. A mined header is valid. When \<open>MineOne\<close> returns a block, its header passes
  \<open>ValidateHeader\<close> against the tip that it was built on, it carries the Merkle root of its
  transactions, and the transactions are the coinbase followed by the template.
\<close>

theorem mined_header_valid:
  assumes "MineOne PrepareHeader (SealHeader sha) sha (HashBlockHeader sha tip) tipHeight tip getAncestor p reward
      tmpl ctxDone clock fuel = Some (Mined b)"
  shows "ValidateHeader sha (Header b) tip (tipHeight + 1) getAncestor p = Inr ()
    \<and> MerkleRootH (Header b) = ComputeMerkleRoot sha (Transactions b)
    \<and> mineTxs p reward (tipHeight + 1) tmpl = Some (Transactions b)"
  using pow.MineOne_valid [OF assms] by blast

theorem mined_header_valid_witness:
  "\<exists>b. exMined = Some (Mined b)
     \<and> ValidateHeader toySha (Header b) exHeader 1 (\<lambda>_. None) Regtest = Inr ()"
proof -
  obtain b where b: "exMined = Some (Mined b)" using exMined_ok by blast
  from mined_header_valid [OF b [unfolded exMined_def]] b show ?thesis by auto
qed

text \<open>
  C32. Mining makes progress. If the header that \<open>PrepareHeader\<close> leaves has a solution among its
  2^32 nonces and the miner is not cancelled, \<open>MineOne\<close> returns a block: 42950 batches of 100000
  nonces cover the whole nonce range, so that this fuel is enough.
\<close>

theorem mining_finds:
  assumes "mineTxs p reward (tipHeight + 1) tmpl = Some txs"
    and "PrepareHeader \<lparr>hdr_Version = 1, PrevBlock = tipHash, MerkleRootH = ComputeMerkleRoot sha txs,
           Timestamp = mineTime (clock 0) (Timestamp tip), Bits = 0, Nonce = 0\<rparr> tip tipHeight getAncestor p = Some h"
    and "k < 2 ^ 32" "LessOrEqual (HashBlockHeader sha (h\<lparr>Nonce := of_nat k\<rparr>)) (CompactToHash (Bits h))"
    and "\<forall>i. \<not> ctxDone i"
  shows "\<exists>b. MineOne PrepareHeader (SealHeader sha) sha tipHash tipHeight tip getAncestor p reward tmpl ctxDone clock 42950
      = Some (Mined b)"
proof -
  let ?ok = "\<lambda>j. LessOrEqual (HashBlockHeader sha (h\<lparr>Nonce := of_nat j\<rparr>)) (CompactToHash (Bits h))"
  define j where "j = (LEAST j. ?ok j)"
  have j: "?ok j" "\<forall>i<j. \<not> ?ok i" "j \<le> k"
    unfolding j_def using assms(4) by (auto intro: LeastI Least_le dest: not_less_Least)
  have n: "Nonce h = 0" using assms(2) by (auto simp: PrepareHeader_def split: option.splits)
  have "j div 100000 < 42950" using j(3) assms(3) by simp
  then have "mineBatches (SealHeader sha) (CompactToHash (Bits h)) (ComputeMerkleRoot sha txs) (Timestamp tip) txs
      ctxDone clock 42950 0 h = Some (Mined \<lparr>Header = withNonce h j, Transactions = txs\<rparr>)"
    using j assms(3,5) n by (intro mineBatches_finds) simp_all
  then show ?thesis by (simp add: MineOne_def Let_def assms(1,2))
qed

theorem mining_finds_witness:
  "\<exists>b. MineOne PrepareHeader (SealHeader toySha) toySha ZeroHash 0 exHeader (\<lambda>_. None) Regtest [0x51] exTemplate
      (\<lambda>_. False) (\<lambda>_. 2000) 42950 = Some (Mined b)"
proof -
  obtain txs where t: "mineTxs Regtest [0x51] (0 + 1) exTemplate = Some txs"
    by (simp add: mineTxs_def exTemplate_def)
  let ?h = "\<lparr>hdr_Version = 1, PrevBlock = ZeroHash, MerkleRootH = ComputeMerkleRoot toySha txs,
      Timestamp = mineTime 2000 (Timestamp exHeader), Bits = 0x207fffff, Nonce = 0\<rparr>"
  have "CalcNextBits exHeader 0 (\<lambda>_. None) Regtest = Some 0x207fffff"
    by (simp add: CalcNextBits_def Regtest_def)
  then have "PrepareHeader (?h\<lparr>Bits := 0\<rparr>) exHeader 0 (\<lambda>_. None) Regtest = Some ?h"
    by (simp add: PrepareHeader_def)
  then show ?thesis
    by (intro mining_finds [OF t, where k = 0 and h = ?h]) (simp_all add: toy_pow)
qed

text \<open>
  Templates do not depend on map order. For a digest whose outputs have 32 bytes,
  \<open>BlockTemplate\<close> gives the same transactions and the same fees for any two orders in which
  Go may visit the pool's map.
\<close>

theorem template_order_independent:
  assumes "digest sha" "mpInv sha m"
    and "distinct order1" "set order1 = dom (mp_txs m)"
    and "distinct order2" "set order2 = dom (mp_txs m)"
  shows "BlockTemplate m order1 = BlockTemplate m order2"
  using digest.entries_deterministic [OF assms] by (simp add: BlockTemplate_def)

theorem template_order_independent_witness:
  "BlockTemplate exPool [exTxHash] = BlockTemplate exPool [exTxHash] \<and> set [exTxHash] = dom (mp_txs exPool)"
proof -
  have "mpInv toySha exPool" using exPool_inv by simp
  moreover have d: "set [exTxHash] = dom (mp_txs exPool)" by (simp add: exPool_eq New_def)
  ultimately show ?thesis
    using template_order_independent [OF toy.digest_axioms, of exPool "[exTxHash]" "[exTxHash]"] by simp
qed

text \<open>
  Where the subsidy ends, an empty block is impossible. When the subsidy of the next height
  is zero, the block that the miner builds from an empty pool is rejected by
  \<open>ValidateTransactionInputs\<close>, because the coinbase that \<open>buildCoinbase\<close> makes has an output of
  value zero. On regtest this is the case from height 4950 on.
\<close>

theorem zero_subsidy_empty_block_rejected:
  assumes "CalcSubsidy p height = 0" "Transactions b = [buildCoinbase reward height (CalcSubsidy p height + 0)]"
  shows "ValidateTransactionInputs L b s height p = Inl (CoinbaseZeroValue 0)"
  using mined_inputs_valid [of L p s height "[]" 0 b reward] assms by simp

theorem zero_subsidy_empty_block_rejected_witness:
  "ValidateTransactionInputs toyLib \<lparr>Header = exHeader, Transactions = [buildCoinbase [0x51] 4950 0]\<rparr> exUtxo 4950 Regtest
     = Inl (CoinbaseZeroValue 0)"
proof -
  have "CalcSubsidy Regtest 4950 = 0" by code_simp
  then show ?thesis by (intro zero_subsidy_empty_block_rejected [where reward = "[0x51]"]) simp_all
qed

section \<open>Encodings\<close>

text \<open>
  C33. Consensus encodings are canonical. Decoding a transaction, a header or a block succeeds
  with a value and a remainder exactly when the value respects the size limits of the format
  and the input is its encoding followed by the remainder. So every value has one encoding only,
  every decoder accepts no other bytes, and it consumes exactly the encoding.
\<close>

theorem consensus_codecs_canonical:
  "(Tx_Deserialize bs = Inr (tx, r) \<longleftrightarrow> wf_tx tx \<and> bs = Tx_Serialize tx @ r)
   \<and> (Header_Deserialize bs = Inr (h, r) \<longleftrightarrow> wf_header h \<and> bs = Header_Serialize h @ r)
   \<and> (Block_Deserialize bs = Inr (b, r) \<longleftrightarrow> wf_block b \<and> bs = Block_Serialize b @ r)"
  using tx.dec_iff header.dec_iff block.dec_iff by blast

text \<open>
  C34. Peer messages are canonical. The same equivalence holds for the payloads of the peer
  protocol, each with the limits its decoder enforces.
\<close>

theorem payload_codecs_canonical:
  "(VersionMsg_Decode bs = Inr (v, r) \<longleftrightarrow> wf_version v \<and> bs = VersionMsg_Encode v @ r)
   \<and> (InvMsg_Decode bs = Inr (is, r) \<longleftrightarrow>
        (length is \<le> 50000 \<and> list_all wf_inv is) \<and> bs = InvMsg_Encode is @ r)
   \<and> (GetBlocksMsg_Decode bs = Inr (g, r) \<longleftrightarrow> wf_getblocks g \<and> bs = GetBlocksMsg_Encode g @ r)
   \<and> (AddrMsg_Decode bs = Inr (as, r) \<longleftrightarrow>
        (length as \<le> 1000 \<and> list_all wf_string as) \<and> bs = AddrMsg_Encode as @ r)
   \<and> (PingMsg_Decode bs = Inr (n, r) \<longleftrightarrow> bs = PingMsg_Encode n @ r)
   \<and> (PongMsg_Decode bs = Inr (n, r) \<longleftrightarrow> bs = PongMsg_Encode n @ r)"
  by (simp only: version.dec_iff inv_msg.dec_iff getblocks.dec_iff addr_msg.dec_iff ping.dec_iff pong.dec_iff
      simp_thms)

text \<open>
  Variable-length integers. The stream reader returns a number exactly for its shortest
  encoding, the slice reader agrees with the stream reader, and \<open>VarIntSize\<close> is the length of
  the encoding, so that longer encodings of the same number are rejected by both.
\<close>

theorem varint_canonical:
  "(ReadVarInt bs = Inr (v, r) \<longleftrightarrow> bs = PutVarInt v @ r)
   \<and> (ReadVarIntFromBytes bs = Inr v \<longleftrightarrow> bs = PutVarInt v @ drop (VarIntSize v) bs)
   \<and> length (PutVarInt v) = VarIntSize v"
  using varint.dec_iff ReadVarIntFromBytes_PutVarInt PutVarInt_ReadVarIntFromBytes length_PutVarInt
  by metis

text \<open>
  Message framing. The receiver of a framed message of at most 4 MiB reads back the magic,
  the command, the payload length and the checksum of the payload, and is left with the
  payload as the rest of the stream.
\<close>

theorem message_header_roundtrip:
  assumes "digest sha" "length magic = 4" "length cmd \<le> 12" "0 \<notin> set cmd" "length payload \<le> 4194304"
  shows "\<exists>h. DecodeMessageHeader (EncodeMessageHeader sha magic cmd payload @ payload) = Inr (h, payload)
     \<and> mh_Magic h = magic \<and> CommandString h = cmd \<and> unat (mh_Length h) = length payload
     \<and> mh_Checksum h = doubleSHA256Checksum sha payload"
proof -
  have c: "length (doubleSHA256Checksum sha payload) = 4"
    by (simp add: doubleSHA256Checksum_def digest.length_sha [OF assms(1)])
  have "commandEnd (commandBytes cmd) 0 = length cmd"
    using assms(3,4) by (simp add: commandBytes_def commandEnd_pad)
  then have "take (commandEnd (commandBytes cmd) 0) (commandBytes cmd) = cmd"
    using assms(3) by (simp add: commandBytes_def)
  then show ?thesis
    using DecodeMessageHeader_Encode [OF assms(2,5) c] assms(5)
    by (simp add: CommandString_def)
qed

theorem message_header_roundtrip_witness:
  "\<exists>h. DecodeMessageHeader (EncodeMessageHeader toySha (NetworkMagic Mainnet) (ascii ''ping'') [1, 2, 3] @ [1, 2, 3])
       = Inr (h, [1, 2, 3]) \<and> CommandString h = ascii ''ping''"
proof -
  have "length (NetworkMagic Mainnet) = 4" "length (ascii ''ping'') \<le> 12" "0 \<notin> set (ascii ''ping'')"
    by code_simp+
  from message_header_roundtrip [OF toy.digest_axioms this, of "[1, 2, 3]"] show ?thesis by auto
qed

text \<open>
  Stored undo data is read back. Undo data whose hashes have 32 bytes and whose scripts have
  at most 10000 bytes survives \<open>SerializeUndoData\<close> and \<open>DeserializeUndoData\<close>; the bound on the
  number of entries is far above what a block can spend.
\<close>

theorem undo_data_roundtrip:
  assumes "list_all wf_spent undo" "length undo \<le> 1000000"
  shows "DeserializeUndoData (SerializeUndoData undo) = Inr undo"
  by (rule DeserializeUndoData_Serialize [OF assms])

theorem undo_data_roundtrip_witness:
  "DeserializeUndoData (SerializeUndoData [\<lparr>so_OutPoint = exOutPoint, so_Entry = exEntry\<rparr>])
     = Inr [\<lparr>so_OutPoint = exOutPoint, so_Entry = exEntry\<rparr>]"
proof -
  have "list_all wf_spent [\<lparr>so_OutPoint = exOutPoint, so_Entry = exEntry\<rparr>]" by code_simp
  then show ?thesis by (rule undo_data_roundtrip) simp
qed

text \<open>
  C35. Addresses and keys are read back. With SHA-256 as the digest, Base58 decoding inverts
  encoding on all byte strings, an address gives back its version and its 20-byte hash, and a
  private key in wallet import format gives back the key, the compression flag and the version.
\<close>

theorem address_roundtrips:
  assumes "length pkh = 20" "length key = 32"
  shows "Base58Decode (Base58Encode b) = Inr b
    \<and> AddressToPubKeyHash Sum256 (PubKeyHashToAddress Sum256 pkh ver) = Inr (ver, pkh)
    \<and> DecodeWIF Sum256 (EncodeWIF Sum256 key ver) = Inr (key, True, WIFVersionForAddress ver)"
proof -
  have "(key @ [0])[32 := 1] = key @ [1]" using assms(2) by (simp add: list_update_append)
  then show ?thesis
    using assms sha256.Base58CheckDecode_Encode Base58Decode_Encode
    by (simp add: AddressToPubKeyHash_def PubKeyHashToAddress_def DecodeWIF_def EncodeWIF_def PubKeyHashSize_def
        WIFVersionForAddress_def WIFVersionMainnet_def WIFVersionTestnet_def Let_def nth_append)
qed

theorem address_roundtrips_witness:
  "AddressToPubKeyHash Sum256 (PubKeyHashToAddress Sum256 (replicate 20 7) 0x6F) = Inr (0x6F, replicate 20 7)"
  using address_roundtrips [of "replicate 20 7" "replicate 32 1" "[]" "0x6F"] by simp

text \<open>
  Compact bits in normal form are read back. For bits with the sign bit clear, a mantissa
  that is not needlessly small and an exponent of at least 3, \<open>BigToCompact\<close> inverts
  \<open>CompactToBig\<close>; the initial and minimal bits of all networks are of this kind.
\<close>

theorem compact_roundtrip:
  assumes "normalCompact bits"
  shows "BigToCompact (CompactToBig bits) = bits"
  by (rule BigToCompact_CompactToBig [OF assms])

theorem compact_roundtrip_witness:
  "BigToCompact (CompactToBig (InitialBits Mainnet)) = InitialBits Mainnet
   \<and> BigToCompact (CompactToBig (MinBits Regtest)) = MinBits Regtest"
  using compact_roundtrip [of "InitialBits Mainnet"] compact_roundtrip [of "MinBits Regtest"]
  by (simp add: normalCompact_def Mainnet_def Regtest_def)

section \<open>Time\<close>

text \<open>
  C36. The timestamp rule. \<open>ValidateHeaderTimestamp\<close> accepts a header exactly when its timestamp
  is at most the adjusted time plus the allowed drift (in 32-bit arithmetic) and, under rule
  \<open>prev+1\<close>, above the parent's, or, under rule \<open>median-11\<close>, above the median of the collected
  timestamps, that is the middle element of their sorted list, or 0 if there are none.
\<close>

theorem timestamp_rule:
  "isOk (ValidateHeaderTimestamp h parent now g tip p) \<longleftrightarrow>
     Timestamp h \<le> now + driftSeconds p
     \<and> (MinTimestampRule p = ''prev+1'' \<and> Timestamp parent < Timestamp h
        \<or> MinTimestampRule p = ''median-11''
          \<and> (case sort (medianCollect tip g 0 11) of [] \<Rightarrow> 0 | t # ts \<Rightarrow> (t # ts) ! (length (t # ts) div 2)) < Timestamp h)"
proof -
  have len: "length (sort (medianCollect tip g 0 11)) = length (medianCollect tip g 0 11)" by simp
  have "calcMedianTimePast tip g
      = (case sort (medianCollect tip g 0 11) of [] \<Rightarrow> 0 | t # ts \<Rightarrow> (t # ts) ! (length (t # ts) div 2))"
    unfolding calcMedianTimePast_def Let_def insSort_eq_sort len [symmetric] by (simp del: length_sort split: list.split)
  then show ?thesis by (auto simp: ValidateHeaderTimestamp_def Let_def)
qed



section \<open>Coinbases\<close>

text \<open>
  C38. Coinbases at different heights differ. Two blocks that pass \<open>ValidateBlockStructure\<close> at
  different heights above 0 have different coinbase transactions: the height that BIP34 puts in
  the coinbase script keeps coinbase transactions from repeating.
\<close>

theorem coinbase_unique_per_height:
  assumes "isOk (ValidateBlockStructure sha b height p)" "isOk (ValidateBlockStructure sha b' height' p')"
    and "height > 0" "height' > 0" "height \<noteq> height'"
  shows "Transactions b ! 0 \<noteq> Transactions b' ! 0"
proof -
  have script: "isOk (validateCoinbaseScriptSig (SignatureScript (Inputs (Transactions c ! 0) ! 0)) k)"
    if "isOk (ValidateBlockStructure sha c k q)" "k > 0" for c k q
    using that ValidateBlockStructure_ok [of sha c k q] by (fastforce simp: isOk_iff)
  have "k = k'" if "isOk (validateCoinbaseScriptSig sig k)" "isOk (validateCoinbaseScriptSig sig k')" for sig k k'
    using that by (auto simp: validateCoinbaseScriptSig_def Let_def split: if_splits)
  with script [OF assms(1,3)] script [OF assms(2,4)] assms(5) show ?thesis by metis
qed

theorem coinbase_unique_per_height_witness:
  "Transactions exBlock ! 0 \<noteq> Transactions exBlock2 ! 0"
  using coinbase_unique_per_height [OF exBlock_structure exBlock2_structure] by simp

text \<open>
  C9. Coinbase maturity. Every output spent by a block that passes \<open>ValidateTransactionInputs\<close>
  exists in the set, none is spent twice, and an output of a coinbase has at least
  \<open>CoinbaseMaturity\<close> confirmations, counted without wrap-around.
\<close>

theorem spends_exist_and_mature:
  assumes "ValidateTransactionInputs L b s height p = Inr fees"
  shows "distinct (blockSpends (Transactions b))
    \<and> (\<forall>k\<in>set (blockSpends (Transactions b)). \<exists>e. s k = Some e \<and>
        (ue_IsCoinbase e \<longrightarrow> unat (ue_Height e) + unat (CoinbaseMaturity p) \<le> unat height))"
proof -
  have "unat (ue_Height e) + unat (CoinbaseMaturity p) \<le> unat height"
    if "ue_Height e \<le> height" "unat (CoinbaseMaturity p) \<le> unat height - unat (ue_Height e)" for e
    using that by (simp add: word_le_nat_alt)
  then show ?thesis
    using ValidateTransactionInputs_ok(2,3) [OF assms] unfolding spendable_def by blast
qed

theorem spends_exist_and_mature_witness:
  "distinct (blockSpends (Transactions exBlock)) \<and> exKey \<in> set (blockSpends (Transactions exBlock))"
proof -
  have "exKey \<in> set (blockSpends (Transactions exBlock))" by code_simp
  moreover have "isOk (ValidateTransactionInputs toyLib exBlock exUtxo 1 Regtest)" by (simp add: exBlock_inputs)
  ultimately show ?thesis using spends_exist_and_mature [of toyLib exBlock exUtxo 1 Regtest] by (auto simp: isOk_iff)
qed

section \<open>The chain\<close>

text \<open>
  C2. The active chain refines the ledger. A node starts with \<open>Init\<close> on an empty store whose
  flat files are in order, over any database with the documented behaviour of leveldb whose writes
  of the chain tip succeed, and is then given blocks by \<open>ProcessBlock\<close> in any order, at any times,
  with any choice of evicted orphans and any pattern of other failing writes and failing opens.
  The blocks come from a universe on whose transactions and accepted headers the digest does not
  collide. As long as the files stay within their 32-bit addresses, the state always describes a
  chain of blocks from the genesis block in which every block is valid where it stands: its tip,
  height and total work are the state's, \<open>hashByHeight\<close> is exactly its list of hashes, and the
  set of unspent outputs is the one that connecting its blocks produces, through extensions,
  reorganisations, orphans and failures. The work of the tip never falls below the start's.
\<close>

theorem active_chain_refines_ledger:
  assumes "file_store K contents (lib_sha L)"
    and "\<forall>db v. fst (kv_put K db keyChainTip v) = Inr ()"
    and "E = \<lparr>en_lib = L, en_params = p, en_engine = powEngine (lib_sha L), en_store = fileStore (lib_sha L) K\<rparr>"
    and "block_universe (lib_sha L) p U" "\<forall>b\<in>U. storable b \<and> 0 < CalcWork (Bits (Header b))"
    and "fsGood s" "emptyStore (en_store E) s" "Init E order (NewChain s) = (Inr (), c0)"
    and "dl_block ` set ds \<subseteq> U" "length ds < 2 ^ 32"
    and "c = deliverAll E ds c0" "fsFits (ch_store c)"
  shows "\<exists>hs. history L p hs (ch_utxoSet c) \<and> fst ` set hs \<subseteq> U
     \<and> ch_tipHash c = HashBlockHeader (lib_sha L) (Header (fst (last hs)))
     \<and> ch_tipHeight c = of_nat (length hs - 1)
     \<and> ch_tipWork c = (\<Sum>h\<leftarrow>hs. CalcWork (Bits (Header (fst h)))) \<and> ch_tipWork c0 \<le> ch_tipWork c
     \<and> ch_hashByHeight c = (\<lambda>h. if unat h < length hs then Some (HashBlockHeader (lib_sha L) (Header (fst (hs ! unat h)))) else None)"
proof -
  note m = file_manager [OF assms(1-5)]
  note life = chain_manager.life_active [OF m assms(6-10) assms(12) [unfolded assms(11)], folded assms(11)]
  from life(1) obtain hs where "activeChain E U hs c" ..
  then show ?thesis using life(2) by (intro exI [of _ hs]) (auto simp: active_defs chainWork_def heightMap_def assms(3) fun_eq_iff)
qed

theorem active_chain_refines_ledger_witness:
  "\<exists>hs. history toyLib exNet hs (ch_utxoSet (deliverAll exEnv [exDelivery] exStart)) \<and> fst ` set hs \<subseteq> exBlocks
     \<and> ch_tipHash (deliverAll exEnv [exDelivery] exStart) = HashBlockHeader toySha (Header (fst (last hs)))"
proof -
  have db: "file_store memKv (\<lambda>db. map_of (fst db)) (lib_sha toyLib)" using exDb.file_store_axioms by simp
  have tip: "\<forall>db v. fst (kv_put memKv db keyChainTip v) = Inr ()" by (simp add: memKv_def)
  have U: "block_universe (lib_sha toyLib) exNet exBlocks" using exUniverse.block_universe_axioms by simp
  have b: "\<forall>b\<in>exBlocks. storable b \<and> 0 < CalcWork (Bits (Header b))"
    using exNode.storableBlocks exNode.work by blast
  have E: "exEnv = \<lparr>en_lib = toyLib, en_params = exNet, en_engine = powEngine (lib_sha toyLib), en_store = fileStore (lib_sha toyLib) memKv\<rparr>"
    by (simp add: exEnv_def)
  have s: "emptyStore (en_store exEnv) exStore" using exStore_good(2) by simp
  have d: "dl_block ` set [exDelivery] \<subseteq> exBlocks" "length [exDelivery] < 2 ^ 32" by (simp_all add: exDelivery_def exBlocks_def)
  show ?thesis
    using active_chain_refines_ledger [OF db tip E U b exStore_good(1) s exInit(1) d refl exDelivery_fits] by auto
qed

text \<open>
  C12. A failed reorganisation. Over any store, when \<open>reorg\<close> returns an error, for whatever reason
  and at whatever point, every field of the chain in memory is as it was before, and only the
  store may have changed; when it is refused for its depth, nothing has changed at all.
\<close>

theorem failed_reorg_restores_memory:
  assumes "reorg E newTipHash newTipHeight newWork c = (Inl e, c')"
  shows "c' = c\<lparr>ch_store := ch_store c'\<rparr> \<and> (\<forall>d. e = ReorgTooDeep d \<longrightarrow> c' = c)"
  using reorg_failure_restores [OF assms] reorg_too_deep assms by blast

theorem failed_reorg_restores_memory_witness:
  "\<exists>e c'. reorg exEnv ZeroHash 1 7 (NewChain exStore) = (Inl e, c') \<and> c' = (NewChain exStore)\<lparr>ch_store := ch_store c'\<rparr>"
proof -
  have "FS_GetBlock memKv exStore ZeroHash = Inl (Kv ErrNotFound)"
    by (simp add: FS_GetBlock_def BI_GetBlockIndex_def exStore_def memKv_ops liftKv_def)
  then have "fst (reorg exEnv ZeroHash 1 7 (NewChain exStore)) = Inl (LoadBlock (Kv ErrNotFound))"
    by (simp add: reorg_def reorgBody_def NewChain_def)
  then obtain c' where r: "reorg exEnv ZeroHash 1 7 (NewChain exStore) = (Inl (LoadBlock (Kv ErrNotFound)), c')"
    by (metis prod.collapse)
  show ?thesis using failed_reorg_restores_memory [OF r] r by blast
qed

text \<open>
  C22. The orphan pool is bounded. Whatever blocks are given to \<open>ProcessBlock\<close>, over any store, at
  any times and with any choice of the evicted orphan, the pool never holds more than
  \<open>MaxOrphanBlocks\<close> entries, and no hash twice.
\<close>

theorem orphan_pool_bounded:
  "length (ch_orphans (deliverAll E ds (NewChain s))) \<le> MaxOrphanBlocks
   \<and> distinct (map fst (ch_orphans (deliverAll E ds (NewChain s))))"
  using deliverAll_poolBound [of "NewChain s" E ds] by (simp add: poolBound_def NewChain_def)

text \<open>
  C39. The block locator. When the chain knows a hash for every height up to its tip, the loop of
  \<open>BlockLocator\<close>, whose step is doubled in 32-bit arithmetic, ends; the locator starts at the tip,
  ends at the genesis block, has at most 43 entries and names blocks of the chain only.
\<close>

theorem block_locator_total:
  assumes "\<forall>i\<le>ch_tipHeight c. ch_hashByHeight c i \<noteq> None"
  shows "\<exists>xs. BlockLocator c = Some xs \<and> xs \<noteq> []
    \<and> Some (hd xs) = ch_hashByHeight c (ch_tipHeight c) \<and> Some (last xs) = ch_hashByHeight c 0
    \<and> length xs \<le> 43 \<and> set xs \<subseteq> ran (ch_hashByHeight c)"
  using BlockLocator_total [OF assms] assms by fastforce

theorem block_locator_total_witness:
  "\<exists>xs. BlockLocator ((NewChain exStore)\<lparr>ch_tipHeight := 4294967295, ch_hashByHeight := (\<lambda>h. Some (PutUint32 h))\<rparr>) = Some xs
     \<and> hd xs = [255, 255, 255, 255] \<and> last xs = [0, 0, 0, 0] \<and> length xs \<le> 43"
proof -
  have e: "PutUint32 4294967295 = [255, 255, 255, 255]" "PutUint32 0 = [0, 0, 0, 0]" by code_simp+
  show ?thesis
    using block_locator_total [of "(NewChain exStore)\<lparr>ch_tipHeight := 4294967295, ch_hashByHeight := (\<lambda>h. Some (PutUint32 h))\<rparr>"] e by auto
qed

text \<open>
  C18. Stored blocks and undo data are read back. When the manager is in step with its files and
  the write itself is not cut short, a block or an undo record is read back at the location that
  was returned for it, also after any later writes, however they fail.
\<close>

theorem stored_data_reads_back:
  assumes "digest sha" "bfInv b" "cleanIo (bf_io b)"
    and "BF_WriteBlock b block = (Inr (f, off, n), b1)" "filesFit b1"
    and "wf_block block" "8 + length (Block_SerializeToBytes block) \<le> maxBlockFileSize"
    and "BF_WriteUndo sha b1 f undo = (Inr (uoff, un), b2)" "filesFit b2"
  shows "BF_ReadBlock (runFiles sha ops (b2\<lparr>bf_io := script\<rparr>)) f off n = Inr block
    \<and> BF_ReadUndo sha (runFiles sha ops (b2\<lparr>bf_io := script\<rparr>)) f uoff un = Inr undo"
proof -
  let ?b = "b2\<lparr>bf_io := script\<rparr>"
  note g = runFiles_grows [of ?b sha ops] and u = BF_WriteUndo_frame [OF assms(8)]
  have inv: "bfInv b1" and r1: "BF_ReadBlock b1 f off n = Inr block"
    using BF_WriteBlock_inv [OF assms(2,3,5,7,4)] assms(6) by auto
  have "BF_ReadBlock ?b f off n = Inr block" using BF_ReadBlock_grows [OF r1, of ?b] u by simp
  then have "BF_ReadBlock (runFiles sha ops ?b) f off n = Inr block" by (rule BF_ReadBlock_grows) (use g in auto)
  moreover have "BF_ReadUndo sha b2 f uoff un = Inr undo"
    using BF_WriteUndo_read [OF assms(8) cleanIo_WriteBlock [OF assms(4,3)] assms(9) _ assms(1)] inv by (simp add: bfInv_def)
  then have "BF_ReadUndo sha ?b f uoff un = Inr undo" using BF_ReadUndo_grows [of sha b2 f uoff un undo ?b] by simp
  then have "BF_ReadUndo sha (runFiles sha ops ?b) f uoff un = Inr undo" by (rule BF_ReadUndo_grows) (use g in auto)
  ultimately show ?thesis ..
qed

theorem stored_data_reads_back_witness:
  "\<exists>f off n uoff un b2. snd (BF_WriteUndo toySha (snd (BF_WriteBlock (fs_files exStore) exGenesis)) 0 [1, 2]) = b2
     \<and> BF_ReadBlock (runFiles toySha [AppendBlock exFirstBlock, AppendUndo 0 [3]] (b2\<lparr>bf_io := [WriteFails 5]\<rparr>)) f off n = Inr exGenesis
     \<and> BF_ReadUndo toySha (runFiles toySha [AppendBlock exFirstBlock, AppendUndo 0 [3]] (b2\<lparr>bf_io := [WriteFails 5]\<rparr>)) f uoff un = Inr [1, 2]"
proof -
  let ?data = "Block_SerializeToBytes exGenesis"
  let ?b1 = "(fs_files exStore)\<lparr>bf_blk := [0 \<mapsto> frame (NetworkMagic exNet) ?data @ ?data], bf_curSize := 8 + length ?data\<rparr>"
  let ?rev = "frame (NetworkMagic exNet) [1, 2] @ [1, 2] @ DoubleSHA256 toySha [1, 2]"
  have w: "BF_WriteBlock (fs_files exStore) exGenesis = (Inr (0, 0, of_nat (length ?data)), ?b1)"
    by (simp add: BF_WriteBlock_def exStore_def rotateFile_def appendFile_def Let_def)
  have u: "BF_WriteUndo toySha ?b1 0 [1, 2] = (Inr (0, 2), ?b1\<lparr>bf_rev := [0 \<mapsto> ?rev]\<rparr>)"
    by (simp add: BF_WriteUndo_def exStore_def appendFile_def Let_def)
  have "length ?rev < 2 ^ 32" by (simp add: frame_def exNet_def InitGenesis_def Regtest_def DoubleSHA256_def toy.length_sha)
  then have f: "filesFit ?b1" "filesFit (?b1\<lparr>bf_rev := [0 \<mapsto> ?rev]\<rparr>)" by (auto simp: filesFit_def exStore_def)
  have s: "bfInv (fs_files exStore)" "cleanIo (bf_io (fs_files exStore))" using exStore_good by (simp_all add: fsGood_def)
  have g: "wf_block exGenesis" "8 + length ?data \<le> maxBlockFileSize" using exBlocks_wf by (simp_all add: maxBlockFileSize_def)
  note stored_data_reads_back [OF toy.digest_axioms s w f(1) g u f(2), of "[AppendBlock exFirstBlock, AppendUndo 0 [3]]" "[WriteFails 5]"]
  then show ?thesis unfolding w snd_conv u by blast
qed

text \<open>
  C7. The chainstate database follows the set in memory. Over any database with the documented
  behaviour of leveldb, when the database holds exactly the serialized entries of a set under the
  outpoints' keys, then after a block is connected and \<open>persistUtxoChanges\<close> has written its batch
  the database holds exactly the new set, and after a block is disconnected and
  \<open>persistUtxoDisconnect\<close> has written its batch it holds exactly the set that is left. A batch
  that fails leaves the database as it was.
\<close>

theorem chainstate_follows_memory:
  assumes "file_store K contents (en_sha E)" "en_store E = fileStore (en_sha E) K"
    and "mirrors (contents (fs_chainstate (ch_store c))) u"
  shows "(ConnectBlock (en_sha E) u b height = (Inr undo, ch_utxoSet c) \<and> persistUtxoChanges E c b undo x = (Inr (), c')
        \<longrightarrow> mirrors (contents (fs_chainstate (ch_store c'))) (ch_utxoSet c'))
    \<and> (ch_utxoSet c = DisconnectBlock (en_sha E) u b undo \<and> persistUtxoDisconnect E c b undo x = (Inr (), c')
        \<longrightarrow> mirrors (contents (fs_chainstate (ch_store c'))) (ch_utxoSet c'))
    \<and> (persistUtxoChanges E c b undo x = (Inl e, c') \<or> persistUtxoDisconnect E c b undo x = (Inl e, c')
        \<longrightarrow> contents (fs_chainstate (ch_store c')) = contents (fs_chainstate (ch_store c)))"
proof -
  have run: "contents (fs_chainstate s') = (if r = Inr () then applyBatch wb (contents (fs_chainstate s)) else contents (fs_chainstate s))"
    if "st_FlushUtxoBatch (en_store E) s wb = (r, s')" for s wb r s'
    using block_store.flush [OF file_store.contract [OF assms(1)]] that unfolding assms(2) by blast
  show ?thesis
    using connectBatch_mirrors [OF _ assms(3), of "en_sha E" b height undo "ch_utxoSet c" x] disconnectBatch_mirrors [OF assms(3), of "en_sha E" b undo x]
    by (auto simp: persistUtxoChanges_def persistUtxoDisconnect_def split: prod.splits dest!: run)
qed

theorem chainstate_follows_memory_witness:
  "\<exists>c'. persistUtxoDisconnect exEnv ((NewChain exStore)\<lparr>ch_utxoSet := DisconnectBlock toySha NewSet exFirstBlock []\<rparr>) exFirstBlock [] ZeroHash = (Inr (), c')
     \<and> mirrors (map_of (fst (fs_chainstate (ch_store c')))) (ch_utxoSet c')"
proof -
  let ?c = "(NewChain exStore)\<lparr>ch_utxoSet := DisconnectBlock toySha NewSet exFirstBlock []\<rparr>"
  have "\<exists>c'. persistUtxoDisconnect exEnv ?c exFirstBlock [] ZeroHash = (Inr (), c')"
    by (simp add: persistUtxoDisconnect_def fs_defs NewChain_def exStore_def memKv_ops liftKv_def)
  then obtain c' where c': "persistUtxoDisconnect exEnv ?c exFirstBlock [] ZeroHash = (Inr (), c')" by blast
  have m: "mirrors (map_of (fst (fs_chainstate (ch_store ?c)))) NewSet"
    using exStore_empty(1) by (simp add: mirrors_def NewChain_def NewSet_def)
  have db: "file_store memKv (\<lambda>db. map_of (fst db)) (en_sha exEnv)" "en_store exEnv = fileStore (en_sha exEnv) memKv"
    using exDb.file_store_axioms by simp_all
  from chainstate_follows_memory [OF db m, of exFirstBlock 0 "[]" ZeroHash c'] c' show ?thesis by auto
qed



text \<open>
  C13. The wallet's payments are valid. A wallet was created or loaded and has gone through any
  operations; its coins are those that \<open>FindUnspent\<close> reports on the chain's set of unspent outputs.
  If the curve package behaves as documented, the sorting permutes the coins, the set holds no more
  than the money cap and amount and fee do not overflow, then a transaction that \<open>BuildTransaction\<close>
  returns is accepted by the mempool's validation, pays at least the fee for its estimated size, pays
  the amount to the requested address first, and returns anything else above the dust threshold to
  a key of the wallet.
\<close>

theorem wallet_payment_valid:
  assumes "ecdsa_correct (wl_crypto L)" "digest (wl_sha L)" "\<forall>us. mset (srt us) = mset us"
    and "w = fold (walletStep L srt) ops (snd (NewHDWallet L ent v f io))"
    and "finite (dom s)" "wf_keys s" "setValue s \<le> unat MaxMoneyValue" "s (OutpointKey ZeroHash 0xFFFFFFFF) = None"
    and "distinct order" "set order = dom s" "utxos = FindUnspent L w s order tip"
    and "unat tip + 1 < 2 ^ 32" "unat (sr_Amount req) + max 1 (estimatedSize (length utxos) 2 * unat feePerByte) < 2 ^ 64"
    and "BuildTransaction L srt now req feePerByte utxos (CoinbaseMaturity p) tip w = (Inr tx, w')"
  shows "\<exists>fee pkh. ValidateSingleTransaction (wl_crypto L) tx s tip p = Inr fee
     \<and> max 1 (estimatedSize (length (Inputs tx)) (length (Outputs tx)) * unat feePerByte) \<le> unat fee
     \<and> AddressToPubKeyHash (wl_sha L) (sr_ToAddress req) = Inr (w_addrVersion w, pkh)
     \<and> hd (Outputs tx) = \<lparr>Value = sr_Amount req, PkScript = MakeP2PKHScript pkh\<rparr>
     \<and> (\<forall>out\<in>set (tl (Outputs tx)). Value out > DustThreshold \<and> IsOurScript w' (PkScript out)) \<and> length (Outputs tx) \<le> 2"
proof -
  have inv: "walletInv L w" unfolding assms(4) by (rule life_inv)
  have coins: "list_all (coinOf w s) utxos" "distinct (map uoKey utxos)"
    using FindUnspent_coins [where order = order and s = s and w = w and L = L and tip = tip] assms(6,9,10,11) by simp_all
  show ?thesis
    using BuildTransaction_valid [OF assms(1,2) inv assms(3) [rule_format] assms(5,7,8) coins assms(12) _ assms(14)] assms(13)
    unfolding feeNat_def by blast
qed

theorem wallet_payment_valid_witness:
  "\<exists>tx w' fee. BuildTransaction toyWallet (sortSlice (\<lambda>u v. uo_Value u > uo_Value v)) 0 exRequest 1
     (FindUnspent toyWallet exWallet exCoins [exCoinKey] 100) (CoinbaseMaturity Regtest) 100 exWallet = (Inr tx, w')
   \<and> ValidateSingleTransaction toyLib tx exCoins 100 Regtest = Inr fee"
proof -
  let ?srt = "sortSlice (\<lambda>u v. uo_Value u > uo_Value v)"
  obtain tx w' where b: "BuildTransaction toyWallet ?srt 0 exRequest 1
     (FindUnspent toyWallet exWallet exCoins [exCoinKey] 100) (CoinbaseMaturity Regtest) 100 exWallet = (Inr tx, w')"
    using exPayment by blast
  have lib: "ecdsa_correct (wl_crypto toyWallet)" "digest (wl_sha toyWallet)" using toyLib_correct toy.digest_axioms by simp_all
  have srt: "\<forall>us. mset (?srt us) = mset us" by (simp add: mset_sortSlice)
  have w: "exWallet = fold (walletStep toyWallet ?srt) [] (snd (NewHDWallet toyWallet (Some [1]) 0x6F NoFile []))" by (simp add: exWallet_def)
  have o: "distinct [exCoinKey]" "set [exCoinKey] = dom exCoins" by (simp_all add: exCoins_def)
  have l: "length (FindUnspent toyWallet exWallet exCoins [exCoinKey] 100) \<le> 1"
    by (simp add: FindUnspent_def ForEach_def exCoins_def split: prod.split option.split)
  then have n: "unat (sr_Amount exRequest) + max 1 (estimatedSize (length (FindUnspent toyWallet exWallet exCoins [exCoinKey] 100)) 2 * unat (1 :: u64)) < 2 ^ 64"
    by (simp add: exRequest_def estimatedSize_def txOverhead_def estimatedInputSize_def estimatedOutputSize_def)
  have t: "unat (100 :: u32) + 1 < 2 ^ 32" by simp
  show ?thesis using wallet_payment_valid [OF lib srt w exCoins_ok o refl t n b] b by auto
qed

text \<open>
  C23. An encrypted wallet is recovered by its passphrase. A wallet with a valid mnemonic of one
  line is encrypted and the process starts again on the file that was written. If the cipher
  behaves as documented, the new wallet is locked, holds no keys and refuses to pay and to dump keys;
  the passphrase then unlocks it to exactly the wallet, with the same seed, keys and counters, that
  a restart without encryption would have given.
\<close>

theorem encrypted_wallet_recovers:
  assumes "cbc_correct L" "\<forall>k. wl_scrypt L pass salt scryptN scryptR scryptP keyLen = Some k \<longrightarrow> length k = 32" "length iv = 16"
    and "asciiLine (w_mnemonic w)" "wl_IsMnemonicValid L (w_mnemonic w)" "w_seed w \<noteq> []"
    and "EncryptWallet L (Some salt) (Some iv) pass w = (Inr (), w1)"
    and "NewHDWallet L ent v (Json (plainData w)) [] = (Inr (), w')"
  shows "\<exists>w2 key. NewHDWallet L ent v (w_file w1) [] = (Inr (), w2)
     \<and> w_externalKeys w2 = [] \<and> w_changeKeys w2 = []
     \<and> BuildTransaction L srt now req feePerByte utxos maturity tip w2 = (Inl (BuildLocked WalletLocked), w2)
     \<and> DumpPrivKey L now address w2 = (Inl WalletLocked, w2)
     \<and> WalletPassphrase L now pass t w2 = (Inr (), w'\<lparr>w_encrypted := True, w_locked := False, w_file := w_file w1, w_encKey := key,
          w_unlockUntil := (if t > 0 then Some (now + wrap64 (t * 1000000000)) else None)\<rparr>)"
proof -
  obtain w2 key where w2: "NewHDWallet L ent v (w_file w1) [] = (Inr (), w2)" "w_locked w2" "w_encrypted w2" "w_externalKeys w2 = []" "w_changeKeys w2 = []"
    and u: "WalletPassphrase L now pass t w2 = (Inr (), (sealed True False (w_file w1) w')\<lparr>w_encKey := key,
          w_unlockUntil := (if t > 0 then Some (now + wrap64 (t * 1000000000)) else None)\<rparr>)"
    using encrypted_restart [OF assms(1) assms(2) [rule_format] assms(3-8)] by blast
  have "RequireUnlocked now w2 = (Inl WalletLocked, w2)" using w2 by (simp add: RequireUnlocked_def IsEncrypted_def IsLocked_def)
  then show ?thesis using w2 u by (intro exI [of _ w2] exI [of _ key]) (simp add: BuildTransaction_def DumpPrivKey_def sealed_def)
qed

theorem encrypted_wallet_recovers_witness:
  "\<exists>w2 key w'. NewHDWallet toyWallet None 0x6F (w_file (snd (EncryptWallet toyWallet (Some [5]) (Some (replicate 16 3)) [8] exWallet))) [] = (Inr (), w2)
     \<and> WalletPassphrase toyWallet 0 [8] 60 w2 = (Inr (), w'\<lparr>w_encKey := key\<rparr>) \<and> w_mnemonic w' = map of_char ''abandon about''"
proof -
  obtain w1 where w1: "EncryptWallet toyWallet (Some [5]) (Some (replicate 16 3)) [8] exWallet = (Inr (), w1)" using exWallet_encrypt by blast
  obtain w' where w': "NewHDWallet toyWallet None 0x6F (Json (plainData exWallet)) [] = (Inr (), w')" "w_mnemonic w' = map of_char ''abandon about''"
    using exWallet_reload by blast
  have k: "\<forall>k. wl_scrypt toyWallet [8] [5] scryptN scryptR scryptP keyLen = Some k \<longrightarrow> length k = 32" "length (replicate 16 3) = (16 :: nat)"
    by (simp_all add: toyWallet_def keyLen_def)
  have m: "asciiLine (w_mnemonic exWallet)" "wl_IsMnemonicValid toyWallet (w_mnemonic exWallet)" "w_seed exWallet \<noteq> []"
    by (simp_all add: exWallet_new asciiLine_def toyWallet_def)
  from encrypted_wallet_recovers [OF toyWallet_cbc k(1) _ m w1 w'(1), of id 0 exRequest 1 "[]" 1 1 "[]" 60]
  obtain w2 key where w2: "NewHDWallet toyWallet None 0x6F (w_file w1) [] = (Inr (), w2)"
    "WalletPassphrase toyWallet 0 [8] 60 w2 = (Inr (), w'\<lparr>w_encrypted := True, w_locked := False, w_file := w_file w1, w_encKey := key,
          w_unlockUntil := Some (wrap64 60000000000)\<rparr>)" by auto
  let ?w = "w'\<lparr>w_encrypted := True, w_locked := False, w_file := w_file w1, w_unlockUntil := Some (wrap64 60000000000)\<rparr>"
  show ?thesis using w1 w2 w'(2) by (intro exI [of _ w2] exI [of _ key] exI [of _ ?w]) simp
qed

text \<open>
  Network input is contained. Whatever connections the peer manager accepts or opens, whatever bytes
  come in over them and however reads, writes, dials and timers interleave, with a positive limit on
  inbound peers no step panics; the chain has only been given blocks that stand as message payloads
  in the received bytes, at most one per step, through \<open>ProcessBlock\<close>; the pool keeps its invariant;
  every send queue holds at most 1024 messages and every set of known inventory at most 10000 hashes;
  and the adjusted clock is corrected by at most 70 minutes.
\<close>

theorem network_input_contained:
  assumes "\<forall>(N, ev)\<in>set evs. ne_chain N = E \<and> mapOrder (ne_invOrder N)" "0 < maxIn" "ts = None \<or> ts = Some NewClock"
    and "received = (\<Union>(N, ev)\<in>set evs. inputOf ev)"
  shows "\<exists>m ds. netRun evs (NewManager c (New p s) ps addr maxIn maxOut seeds ts opts nonce) = Some m
     \<and> mg_chain m = deliverAll E ds c \<and> length ds \<le> length evs
     \<and> (\<forall>d\<in>set ds. \<exists>input\<in>received. \<exists>payload r. sublist payload input \<and> Block_Deserialize payload = Inr (dl_block d, r))
     \<and> mpInv (en_sha E) (mg_mempool m)
     \<and> (\<forall>a q. mg_peers m a = Some q \<longrightarrow> length (pe_sendQueue q) \<le> 1024 \<and> card (pe_knownInv q) \<le> 10000)
     \<and> (\<forall>clk. mg_timeSampler m = Some clk \<longrightarrow> \<bar>ac_median clk\<bar> \<le> 70 * 60)"
proof -
  let ?m0 = "NewManager c (New p s) ps addr maxIn maxOut seeds ts opts nonce"
  have inv: "netOk received ?m0 \<and> 0 < mg_maxInbound ?m0"
    using assms(2,3) clockInv_NewClock by (auto simp: netOk_def NewManager_def maxSeenBlocks_def maxSeenTxs_def)
  have ok: "list_all (eventOk E received) evs" using assms(1,4) by (force simp: list_all_iff eventOk_def)
  obtain m where m: "netRun evs ?m0 = Some m" "netOk received m" using net.run_total [OF inv ok] by (auto simp: netRun_runSteps)
  note run = m(1) [unfolded netRun_runSteps]
  obtain ds where ds: "length ds \<le> length evs" "\<forall>d\<in>set ds. fromInput received (dl_block d)" "mg_chain m = deliverAll E ds c"
    using net.run_chain [OF inv ok run] by (auto simp: NewManager_def)
  obtain ops where "mg_mempool m = fold (mempoolStep (en_lib E)) ops (New p s)"
    using net.run_pool [OF inv ok run] by (auto simp: NewManager_def)
  then have "mpInv (en_sha E) (mg_mempool m)" using mpInv_run [OF mpInv_New] by simp
  moreover have "length (pe_sendQueue q) \<le> 1024 \<and> card (pe_knownInv q) \<le> 10000" if "mg_peers m a = Some q" for a q
    using m(2) that by (auto simp: netOk_def peerOk_def peerSendQueueSize_def)
  moreover have "\<bar>ac_median clk\<bar> \<le> 70 * 60" if "mg_timeSampler m = Some clk" for clk
    using m(2) that medianOf_bound by (auto simp: netOk_def clockInv_def MaxAllowedOffset_def)
  ultimately show ?thesis using m(1) ds unfolding fromInput_def by blast
qed

theorem network_input_contained_witness:
  "\<exists>m ds. netRun exEvents exManager = Some m \<and> mg_chain m = deliverAll exEnv ds exStart \<and> length ds \<le> 3 \<and> mpInv toySha (mg_mempool m)
     \<and> (\<forall>d\<in>set ds. \<exists>payload r. sublist payload exInput \<and> Block_Deserialize payload = Inr (dl_block d, r))"
proof -
  have a: "\<forall>(N, ev)\<in>set exEvents. ne_chain N = exEnv \<and> mapOrder (ne_invOrder N)" using exNode_ok by (simp add: exEvents_def)
  have "(\<Union>(N, ev)\<in>set exEvents. inputOf ev) = {exInput}" by (simp add: exEvents_def)
  from network_input_contained [OF a _ _ this [symmetric], of 25 "Some NewClock" exStart exNet "ch_utxoSet exStart" "[]" "ascii ''0.0.0.0:19333''" 8 "[]" None 4]
  obtain m ds where "netRun exEvents exManager = Some m" "mg_chain m = deliverAll exEnv ds exStart" "length ds \<le> length exEvents" "mpInv toySha (mg_mempool m)"
    "\<forall>d\<in>set ds. \<exists>payload r. sublist payload exInput \<and> Block_Deserialize payload = Inr (dl_block d, r)"
    by (auto simp: exManager_def simp del: netRun.simps)
  moreover have "length exEvents = 3" by (simp add: exEvents_def)
  ultimately show ?thesis by (intro exI [of _ m] exI [of _ ds]) simp
qed

text \<open>
  C40. Messages arrive. The message at the front of a peer's send queue, written whole by \<open>WriteLoop\<close> to a
  connection, is the next message that \<open>ReadMessage\<close> returns on the other side, with its command and
  payload, whatever was written before and comes after; a magic of another network is refused.
\<close>

theorem message_arrives_intact:
  assumes "digest sha" "length (pe_magic p) = 4" "pe_sendQueue p = msg # queue"
    and "length (om_cmd msg) \<le> 12" "0 \<notin> set (om_cmd msg)" "length (om_payload msg) \<le> 4194304"
    and "writeNext sha WriteAll now p = (cont, p')" "pe_written p' = pe_written p @ wire" "pe_reader q = wire @ rest"
  shows "if pe_magic q = pe_magic p
     then \<exists>hdr q'. ReadMessage sha now' q = (Inr (hdr, om_payload msg), q') \<and> CommandString hdr = om_cmd msg \<and> pe_reader q' = rest
     else \<exists>q'. ReadMessage sha now' q = (Inl (WrongMagic (pe_magic p)), q')"
  using message_arrives [OF assms(1-6) _ assms(8,9), of now cont now'] assms(7) by simp

theorem message_arrives_intact_witness:
  "\<exists>hdr q'. ReadMessage toySha 0 ((NewPeer 0 [] (wireFrame CmdPing [1, 2, 3]) True (NetworkMagic exNet))) = (Inr (hdr, [1, 2, 3]), q')
     \<and> CommandString hdr = CmdPing \<and> pe_reader q' = []"
proof -
  let ?p = "SendMessage (\<lambda>_. False) CmdPing [1, 2, 3] (NewPeer 0 [] [] False (NetworkMagic exNet))"
  let ?q = "NewPeer 0 [] (wireFrame CmdPing [1, 2, 3]) True (NetworkMagic exNet)"
  have m: "length (pe_magic ?p) = 4" by code_simp
  have q: "pe_sendQueue ?p = [\<lparr>om_cmd = CmdPing, om_payload = [1, 2, 3]\<rparr>]"
    by (simp add: SendMessage_def canSend_def NewPeer_def peerSendQueueSize_def Let_def)
  have c: "length CmdPing \<le> 12" "0 \<notin> set CmdPing" by code_simp+
  have w: "pe_written (snd (writeNext toySha WriteAll 0 ?p)) = pe_written ?p @ wireFrame CmdPing [1, 2, 3]"
    by (simp add: writeNext_def q wireFrame_def Let_def) (simp add: SendMessage_def NewPeer_def canSend_def Let_def)
  have e: "pe_magic ?q = pe_magic ?p" "pe_reader ?q = wireFrame CmdPing [1, 2, 3] @ []"
    by (simp_all add: NewPeer_def SendMessage_def Let_def)
  show ?thesis
    using message_arrives_intact [OF toy.digest_axioms m q _ _ _ prod.collapse [symmetric] w e(2), of 0] c e(1) by simp
qed

section \<open>The whole node\<close>







text \<open>
  C14. A payment request. The server has an unlocked wallet, its pool is in step with its chain, the curve
  package behaves as documented, the set of unspent outputs holds no more than the money cap, and
  amount and fee do not overflow. When the wallet can build the payment that \<open>sendtoaddress\<close> asks for,
  the transaction pays the amount to the address first, and either the reply is its hash and the pool
  holds it with its fee, or the pool is unchanged and the reply says that it is already there, that the
  pool is full, that one of its coins is spent by a pending transaction, or that its fee is too low for
  relay. It is never refused as invalid.
\<close>

theorem sendtoaddress_outcome:
  assumes "rq_Method r = MethodPost" "query r ''address'' \<noteq> []" "query r ''amount'' \<noteq> []" "ParseUint 64 (query r ''amount'') = (None, amount)"
    and "sv_wallet s = Some w" "RequireUnlocked (ne_now (re_net R)) w = (Inr (), w)" "walletInv (re_wallet R) w"
    and "poolInStep R s" "ecdsa_correct (wl_crypto (re_wallet R))" "digest (wl_sha (re_wallet R))" "\<forall>us. mset (re_sortCoins R us) = mset us"
    and "U = ch_utxoSet (sv_chain s)" "finite (dom U)" "wf_keys U" "setValue U \<le> unat MaxMoneyValue" "U (OutpointKey ZeroHash 0xFFFFFFFF) = None"
    and "distinct (re_utxoOrder R U)" "set (re_utxoOrder R U) = dom U"
    and "unat (ch_tipHeight (sv_chain s)) + 1 < 2 ^ 32" "amount + feeNat (length (walletCoins R w s)) 2 (sv_feePerByte s) < 2 ^ 64"
    and "builtTx R r amount w s = (Inr tx, w')" "handleSendToAddress R r s = (resp, s')"
  shows "\<exists>fee pkh. AddressToPubKeyHash (wl_sha (re_wallet R)) (query r ''address'') = Inr (w_addrVersion w, pkh)
     \<and> hd (Outputs tx) = \<lparr>Value = of_nat amount, PkScript = MakeP2PKHScript pkh\<rparr>
     \<and> (resp = Reply (jHash (HashTransaction (re_sha R) tx)) \<and>
          (\<exists>e. mp_txs (sv_mempool s') (HashTransaction (re_sha R) tx) = Some e \<and> te_Tx e = tx \<and> te_Fee e = fee)
        \<or> sv_mempool s' = sv_mempool s \<and> (\<exists>e. resp = Failure 400 (TxRejected e) \<and>
             (e = MpExists (HashTransaction (re_sha R) tx) \<or> e = MpFull (card (dom (mp_txs (sv_mempool s))))
              \<or> (\<exists>key other. findConflict (mp_spentOutpoints (sv_mempool s)) (Inputs tx) = Some (key, other) \<and> e = MpDoubleSpend key other)
              \<or> fee < MinRelayTxFee (re_params R) \<and> e = MpFeeTooLow fee)))"
proof -
  have r: "payRequest r amount" using assms(1-4) by (simp add: payRequest_def)
  show ?thesis by (rule sendToAddress_outcome [OF r assms(5,6,8-10,7) assms(11) [rule_format] assms(12-22)])
qed

theorem sendtoaddress_outcome_witness:
  "\<exists>tx w' resp s'. builtTx exPayRpc exPayRequest 4500 exWallet exPayServer = (Inr tx, w') \<and> handleSendToAddress exPayRpc exPayRequest exPayServer = (resp, s')
     \<and> Value (hd (Outputs tx)) = 4500
     \<and> (resp = Reply (jHash (HashTransaction toySha tx)) \<or> sv_mempool s' = sv_mempool exPayServer)"
proof -
  obtain tx w' where b: "builtTx exPayRpc exPayRequest 4500 exWallet exPayServer = (Inr tx, w')" using exBuilt by blast
  obtain resp s' where h: "handleSendToAddress exPayRpc exPayRequest exPayServer = (resp, s')" by fastforce
  note q = exPayRequest_ok(1) [unfolded payRequest_def]
  have u: "RequireUnlocked (ne_now (re_net exPayRpc)) exWallet = (Inr (), exWallet)" by (simp add: RequireUnlocked_def IsEncrypted_def exWallet_new)
  have inv: "walletInv (re_wallet exPayRpc) exWallet" using NewHDWallet_inv [of toyWallet "Some [1]" "0x6F" NoFile "[]"] by (simp add: exPayRpc_simps exWallet_def)
  have st: "poolInStep exPayRpc exPayServer"
    by (simp add: poolInStep_def exPayServer_simps exPayRpc_simps SetTipHeight_def New_def)
  have lib: "ecdsa_correct (wl_crypto (re_wallet exPayRpc))" "digest (wl_sha (re_wallet exPayRpc))"
    using toyLib_correct toy.digest_axioms by (simp_all add: exPayRpc_simps)
  have srt: "\<forall>us. mset (re_sortCoins exPayRpc us) = mset us" by (simp add: exPayRpc_simps mset_sortSlice)
  have o: "distinct (re_utxoOrder exPayRpc exCoins)" "set (re_utxoOrder exPayRpc exCoins) = dom exCoins" by (simp_all add: exPayRpc_simps exCoins_def)
  have l: "length (walletCoins exPayRpc exWallet exPayServer) \<le> 1"
    by (simp add: walletCoins_def utxoOrder_def exPayServer_simps exPayRpc_simps FindUnspent_def ForEach_def exCoins_def split: prod.split option.split)
  then have n: "4500 + feeNat (length (walletCoins exPayRpc exWallet exPayServer)) 2 (sv_feePerByte exPayServer) < 2 ^ 64"
    by (simp add: exPayServer_simps feeNat_def estimatedSize_def txOverhead_def estimatedInputSize_def estimatedOutputSize_def)
  have t: "unat (ch_tipHeight (sv_chain exPayServer)) + 1 < 2 ^ 32" by (simp add: exPayServer_simps)
  have U: "exCoins = ch_utxoSet (sv_chain exPayServer)" by (simp add: exPayServer_simps)
  have sh: "re_sha exPayRpc = toySha" by (simp add: exPayRpc_simps)
  show ?thesis
    using sendtoaddress_outcome [OF q [THEN conjunct1] q [THEN conjunct2, THEN conjunct1] q [THEN conjunct2, THEN conjunct2, THEN conjunct1]
      q [THEN conjunct2, THEN conjunct2, THEN conjunct2] exPayServer_simps(1) u inv st lib srt U exCoins_ok o t n b h] b h unfolding sh by auto
qed

text \<open>
  C24. A legacy database is carried over. Let the old database know its tip, below the largest 32-bit height,
  with different hashes at different heights and blocks that fit into a block file; the new store is
  opened over any database with the documented behaviour of leveldb. Then \<open>migrateFromLegacy\<close> ends. When
  it reports success and the new files stay within their 32-bit addresses, the new store has the old tip,
  and at every height up to it, under the hash of the old database, the same block with an index record
  of that height whose work is the sum of the works of the blocks up to there; if a record refers to
  undo data, that data is the old one. Only when the tip is the genesis block is its work counted twice.
\<close>

theorem legacy_migration:
  assumes "file_store K contents sha" "S = fileStore sha K" "fsGood s"
    and "LegacyGetChainTip B db = Inr (tipHash, tipHeight)" "tipHeight \<noteq> - 1"
    and "inj_on (legacyHash B db) {..tipHeight}"
    and "\<forall>k\<le>tipHeight. \<forall>b. LegacyGetBlock B (legacyHash B db k) db = Inr b \<longrightarrow> 8 + length (Block_SerializeToBytes b) \<le> maxBlockFileSize"
  shows "\<exists>r s'. migrateFromLegacy B True (Inr db) p S s = Some (r, s')
     \<and> (r = Inr () \<and> fsFits s' \<longrightarrow> st_GetChainTip S s' = Inr (tipHash, tipHeight)
          \<and> (\<forall>k\<le>tipHeight. \<exists>b rec. LegacyGetBlock B (legacyHash B db k) db = Inr b \<and> st_GetBlock S s' (legacyHash B db k) = Inr b
               \<and> st_GetBlockIndex S s' (legacyHash B db k) = Inr rec \<and> di_Header rec = Header b \<and> di_Height rec = k
               \<and> di_ChainWork rec = Some ((if tipHeight = 0 then CalcWork (Bits (Header (GenesisBlock p))) else 0)
                    + (\<Sum>i\<le>unat k. legacyWork B db (of_nat i)))
               \<and> (di_Status rec AND StatusHaveUndo \<noteq> 0 \<longrightarrow> (\<exists>u. LegacyGetUndoData B (legacyHash B db k) db = Inr u
                    \<and> st_ReadUndo S s' (di_UndoFile rec) (di_UndoPos rec) (di_UndoSize rec) = Inr u))))"
proof -
  have st: "\<forall>k\<le>tipHeight. \<forall>b. LegacyGetBlock B (legacyHash B db k) db = Inr b \<longrightarrow> storable b"
    using assms(7) by (simp add: storable_def LegacyGetBlock_wf)
  have h: "wf_hash tipHash" using LegacyGetChainTip_wf [OF assms(4)] .
  have w: "startWork p tipHeight = (if tipHeight = 0 then CalcWork (Bits (Header (GenesisBlock p))) else 0)"
    by (simp add: startWork_def word_gt_0)
  obtain r s' where m: "migrateFromLegacy B True (Inr db) p S s = Some (r, s')" using migrate_total [OF assms(4,5), of p S s] by blast
  note holds = block_store.migrate_holds [OF file_store.contract [OF assms(1)], folded assms(2), OF _ assms(4-6) st assms(3) _ h]
  show ?thesis
  proof (rule exI [of _ r], rule exI [of _ s'], intro conjI impI allI)
    show "migrateFromLegacy B True (Inr db) p S s = Some (r, s')" by (rule m)
    assume ok: "r = Inr () \<and> fsFits s'"
    then have m': "migrateFromLegacy B True (Inr db) p S s = Some (Inr (), s')" and f: "fsFits s'" using m by simp_all
    show "st_GetChainTip S s' = Inr (tipHash, tipHeight)" by (rule holds(1) [OF m' f])
    fix k
    assume "k \<le> tipHeight"
    from holds(2) [OF m' f this] show "\<exists>b rec. LegacyGetBlock B (legacyHash B db k) db = Inr b \<and> st_GetBlock S s' (legacyHash B db k) = Inr b
         \<and> st_GetBlockIndex S s' (legacyHash B db k) = Inr rec \<and> di_Header rec = Header b \<and> di_Height rec = k
         \<and> di_ChainWork rec = Some ((if tipHeight = 0 then CalcWork (Bits (Header (GenesisBlock p))) else 0)
              + (\<Sum>i\<le>unat k. legacyWork B db (of_nat i)))
         \<and> (di_Status rec AND StatusHaveUndo \<noteq> 0 \<longrightarrow> (\<exists>u. LegacyGetUndoData B (legacyHash B db k) db = Inr u
              \<and> st_ReadUndo S s' (di_UndoFile rec) (di_UndoPos rec) (di_UndoSize rec) = Inr u))"
      unfolding migrated_def w workTo_def .
  qed
qed

theorem legacy_migration_witness:
  "\<exists>s'. migrateFromLegacy memBolt True (Inr exLegacy) exNet (fileStore toySha memKv) exStore = Some (Inr (), s')
     \<and> FS_GetChainTip memKv s' = Inr (HashBlockHeader toySha (Header exGenesis), 0)"
proof -
  obtain s' where s': "migrateFromLegacy memBolt True (Inr exLegacy) exNet (fileStore toySha memKv) exStore = Some (Inr (), s')" "fsFits s'"
    using exMigrate by blast
  have i: "inj_on (legacyHash memBolt exLegacy) {..0}" by (auto simp: inj_on_def)
  have b: "\<forall>k\<le>0. \<forall>b. LegacyGetBlock memBolt (legacyHash memBolt exLegacy k) exLegacy = Inr b \<longrightarrow> 8 + length (Block_SerializeToBytes b) \<le> maxBlockFileSize"
    using exBlocks_wf by (simp add: legacyHash_def exLegacy_reads maxBlockFileSize_def)
  show ?thesis
    using legacy_migration [OF exDb.file_store_axioms refl exStore_good(1) exLegacy_reads(2) _ i b, of exNet] s' by (auto simp: fileStore_def)
qed

end
